(* ===== verification/Prelude.thy ===== *)
theory Prelude
  imports Complex_Main "HOL-Library.Word"
begin

text \<open>
  Shared notions of the development: bytes and JavaScript numbers, the
  state-and-exception computations every stateful operation of the relay is
  written in, the rules that carry an invariant through such a computation, and
  a few list facts the components share.

  A JavaScript method that mutates its object, may throw and may be abandoned
  half-way is a computation: it maps a state to an outcome (an exception on the
  left, a value on the right) and the state it leaves behind. A throw keeps the
  effects that came before it, as in the language.
\<close>

section \<open>Bytes, numbers and exceptions\<close>

text \<open>
  A \<open>Uint8Array\<close> is a list of bytes. JavaScript numbers are exact rationals: the
  values the relay computes with (millisecond clocks, lengths, counters) stay far
  below the point where a double loses integers, and no rounding is modelled.
  A JavaScript string is the list of its characters; texts range over ASCII.
\<close>

type_synonym byte = "8 word"

type_synonym number = rat

datatype exn = Error string

type_synonym ('s, 'a) comp = "'s \<Rightarrow> (exn + 'a) \<times> 's"

named_theorems keeps_intros

named_theorems exec_simps

section \<open>Computations with state and exceptions\<close>

definition ret :: "'a \<Rightarrow> ('s, 'a) comp" where
  "ret a = (\<lambda>s. (Inr a, s))"

definition throw :: "exn \<Rightarrow> ('s, 'a) comp" where
  "throw e = (\<lambda>s. (Inl e, s))"

definition modifyM :: "('s \<Rightarrow> 's) \<Rightarrow> ('s, unit) comp" where
  "modifyM f = (\<lambda>s. (Inr (), f s))"

definition bindM :: "('s, 'a) comp \<Rightarrow> ('a \<Rightarrow> ('s, 'b) comp) \<Rightarrow> ('s, 'b) comp" where
  "bindM m k = (\<lambda>s. case m s of (Inl e, t) \<Rightarrow> (Inl e, t) | (Inr a, t) \<Rightarrow> k a t)"

text \<open>Statements one after the other: the first throw abandons the rest.\<close>

fun seqs :: "('s, unit) comp list \<Rightarrow> ('s, unit) comp" where
  "seqs [] s = (Inr (), s)"
| "seqs (m # ms) s = (case m s of (Inl e, t) \<Rightarrow> (Inl e, t) | (Inr _, t) \<Rightarrow> seqs ms t)"

text \<open>The statement \<^verbatim>\<open>for (const x of xs) body(x)\<close>.\<close>

fun for_each :: "'a list \<Rightarrow> ('a \<Rightarrow> ('s, unit) comp) \<Rightarrow> ('s, unit) comp" where
  "for_each [] f s = (Inr (), s)"
| "for_each (x # xs) f s =
     (case f x s of (Inl e, t) \<Rightarrow> (Inl e, t) | (Inr _, t) \<Rightarrow> for_each xs f t)"

text \<open>The statement \<^verbatim>\<open>try { m } catch { h }\<close>.\<close>

definition try_catch :: "('s, unit) comp \<Rightarrow> ('s, unit) comp \<Rightarrow> ('s, unit) comp" where
  "try_catch m h = (\<lambda>s. case m s of (Inl _, t) \<Rightarrow> h t | (Inr a, t) \<Rightarrow> (Inr a, t))"

text \<open>A value computed outside the state, thrown when it is an exception.\<close>

definition liftE :: "exn + 'a \<Rightarrow> ('s, 'a) comp" where
  "liftE r = (\<lambda>s. (r, s))"

text \<open>A statement that depends on the state it finds.\<close>

definition lookM :: "('s \<Rightarrow> ('s, 'a) comp) \<Rightarrow> ('s, 'a) comp" where
  "lookM f = (\<lambda>s. f s s)"

lemmas comp_defs [exec_simps] =
  ret_def throw_def modifyM_def bindM_def try_catch_def liftE_def lookM_def

subsection \<open>Invariants of computations\<close>

text \<open>
  \<open>keeps I m\<close>: from a state with the invariant, \<open>m\<close> leaves a state with the
  invariant, whether it returns or throws. The introduction rules follow the
  program text, so a handler's proof is one pass over its statements.
\<close>

definition keeps :: "('s \<Rightarrow> bool) \<Rightarrow> ('s, 'a) comp \<Rightarrow> bool" where
  "keeps I m \<longleftrightarrow> (\<forall>s. I s \<longrightarrow> I (snd (m s)))"

lemma keepsI: "(\<And>s. I s \<Longrightarrow> I (snd (m s))) \<Longrightarrow> keeps I m"
  by (simp add: keeps_def)

lemma keepsD: "keeps I m \<Longrightarrow> I s \<Longrightarrow> I (snd (m s))"
  by (simp add: keeps_def)

lemma keeps_ret [keeps_intros]: "keeps I (ret a)"
  by (simp add: keeps_def ret_def)

lemma keeps_throw [keeps_intros]: "keeps I (throw e)"
  by (simp add: keeps_def throw_def)

lemma keeps_liftE [keeps_intros]: "keeps I (liftE r)"
  by (simp add: keeps_def liftE_def)

lemma keeps_modifyM [keeps_intros]: "(\<And>s. I s \<Longrightarrow> I (f s)) \<Longrightarrow> keeps I (modifyM f)"
  by (simp add: keeps_def modifyM_def)

lemma keeps_bindM [keeps_intros]:
  assumes "keeps I m" and "\<And>a. keeps I (k a)"
  shows "keeps I (bindM m k)"
proof (rule keepsI)
  fix s
  assume "I s"
  with assms(1) have I1: "I (snd (m s))" by (rule keepsD)
  show "I (snd (bindM m k s))"
  proof (cases "m s")
    case (Pair r t)
    with I1 show ?thesis
      by (cases r) (auto simp: bindM_def intro: keepsD [OF assms(2)])
  qed
qed

lemma keeps_seqs_Nil [keeps_intros]: "keeps I (seqs [])"
  by (simp add: keeps_def)

lemma keeps_seqs_Cons [keeps_intros]:
  assumes "keeps I m" and "keeps I (seqs ms)"
  shows "keeps I (seqs (m # ms))"
proof (rule keepsI)
  fix s
  assume "I s"
  with assms(1) have I1: "I (snd (m s))" by (rule keepsD)
  show "I (snd (seqs (m # ms) s))"
  proof (cases "m s")
    case (Pair r t)
    with I1 show ?thesis
      by (cases r) (auto intro: keepsD [OF assms(2)])
  qed
qed

lemma keeps_for_each [keeps_intros]:
  assumes "\<And>x. x \<in> set xs \<Longrightarrow> keeps I (f x)"
  shows "keeps I (for_each xs f)"
  using assms
proof (induction xs)
  case Nil
  then show ?case by (simp add: keeps_def)
next
  case (Cons x xs)
  then have f: "keeps I (f x)" and rest: "keeps I (for_each xs f)" by auto
  show ?case
  proof (rule keepsI)
    fix s
    assume "I s"
    with f have I1: "I (snd (f x s))" by (rule keepsD)
    show "I (snd (for_each (x # xs) f s))"
    proof (cases "f x s")
      case (Pair r t)
      with I1 show ?thesis by (cases r) (auto intro: keepsD [OF rest])
    qed
  qed
qed

lemma keeps_try_catch [keeps_intros]:
  assumes "keeps I m" and "keeps I h"
  shows "keeps I (try_catch m h)"
proof (rule keepsI)
  fix s
  assume "I s"
  with assms(1) have I1: "I (snd (m s))" by (rule keepsD)
  show "I (snd (try_catch m h s))"
  proof (cases "m s")
    case (Pair r t)
    with I1 show ?thesis
      by (cases r) (auto simp: try_catch_def intro: keepsD [OF assms(2)])
  qed
qed

lemma keeps_if [keeps_intros]:
  "(b \<Longrightarrow> keeps I m) \<Longrightarrow> (\<not> b \<Longrightarrow> keeps I n) \<Longrightarrow> keeps I (if b then m else n)"
  by simp

lemma keeps_lookM [keeps_intros]: "(\<And>s. keeps I (f s)) \<Longrightarrow> keeps I (lookM f)"
  by (simp add: keeps_def lookM_def)

lemma keeps_option [keeps_intros]:
  "(x = None \<Longrightarrow> keeps I m) \<Longrightarrow> (\<And>a. x = Some a \<Longrightarrow> keeps I (k a)) \<Longrightarrow>
     keeps I (case x of None \<Rightarrow> m | Some a \<Rightarrow> k a)"
  by (cases x) simp_all

lemma keeps_prod [keeps_intros]:
  "(\<And>a b. x = (a, b) \<Longrightarrow> keeps I (k a b)) \<Longrightarrow> keeps I (case x of (a, b) \<Rightarrow> k a b)"
  by (cases x) simp

subsection \<open>From one condition to another\<close>

text \<open>
  \<open>leads P Q m\<close>: from a state with \<open>P\<close>, \<open>m\<close> leaves a state with \<open>Q\<close>, on either exit. It
  carries a guard a handler tested up to the statement that relies on it.
\<close>

definition leads :: "('s \<Rightarrow> bool) \<Rightarrow> ('s \<Rightarrow> bool) \<Rightarrow> ('s, 'a) comp \<Rightarrow> bool" where
  "leads P Q m \<longleftrightarrow> (\<forall>s. P s \<longrightarrow> Q (snd (m s)))"

lemma keeps_leads: "keeps I m = leads I I m"
  by (simp add: keeps_def leads_def)

lemma leadsI: "(\<And>s. P s \<Longrightarrow> Q (snd (m s))) \<Longrightarrow> leads P Q m"
  by (simp add: leads_def)

lemma leadsD: "leads P Q m \<Longrightarrow> P s \<Longrightarrow> Q (snd (m s))"
  by (simp add: leads_def)

lemma leads_weaken: "leads P' Q' m \<Longrightarrow> (\<And>s. P s \<Longrightarrow> P' s) \<Longrightarrow> (\<And>s. Q' s \<Longrightarrow> Q s) \<Longrightarrow> leads P Q m"
  by (auto simp: leads_def)

lemma leads_keeps: "keeps I m \<Longrightarrow> (\<And>s. P s \<Longrightarrow> I s) \<Longrightarrow> leads P I m"
  by (auto simp: leads_def keeps_def)

lemma leads_seqs_Nil: "(\<And>s. P s \<Longrightarrow> Q s) \<Longrightarrow> leads P Q (seqs [])"
  by (simp add: leads_def)

lemma leads_seqs_Cons:
  assumes "leads P R m" and "\<And>s. R s \<Longrightarrow> Q s" and "leads R Q (seqs ms)"
  shows "leads P Q (seqs (m # ms))"
proof (rule leadsI)
  fix s
  assume "P s"
  with assms(1) have R: "R (snd (m s))" by (rule leadsD)
  show "Q (snd (seqs (m # ms) s))"
  proof (cases "m s")
    case (Pair r t)
    with R assms(2) show ?thesis by (cases r) (auto intro: leadsD [OF assms(3)])
  qed
qed

lemma leads_lookM: "(\<And>s. P s \<Longrightarrow> leads (\<lambda>t. t = s) Q (f s)) \<Longrightarrow> leads P Q (lookM f)"
  by (simp add: leads_def lookM_def)

lemma leads_if: "(b \<Longrightarrow> leads P Q m) \<Longrightarrow> (\<not> b \<Longrightarrow> leads P Q n) \<Longrightarrow> leads P Q (if b then m else n)"
  by simp

lemma leads_option:
  "(x = None \<Longrightarrow> leads P Q m) \<Longrightarrow> (\<And>a. x = Some a \<Longrightarrow> leads P Q (k a)) \<Longrightarrow>
     leads P Q (case x of None \<Rightarrow> m | Some a \<Rightarrow> k a)"
  by (cases x) simp_all

lemma leads_cond: "(b \<Longrightarrow> c \<Longrightarrow> leads P Q m) \<Longrightarrow> leads (\<lambda>t. P t \<and> b \<and> c) Q m"
  by (auto simp: leads_def)

text \<open>The value handed on may be described along with the state.\<close>

lemma leads_bindM:
  assumes "\<And>s. P s \<Longrightarrow> (case m s of (Inl _, t) \<Rightarrow> Q t | (Inr a, t) \<Rightarrow> R a t)"
    and "\<And>a. leads (R a) Q (k a)"
  shows "leads P Q (bindM m k)"
proof (rule leadsI)
  fix s
  assume "P s"
  from assms(1) [OF this] show "Q (snd (bindM m k s))"
    by (cases "m s"; cases "fst (m s)") (auto simp: bindM_def intro: leadsD [OF assms(2)])
qed

section \<open>Lists\<close>

lemma length_filter_upd:
  assumes "distinct xs" and "\<And>x. x \<noteq> w \<Longrightarrow> Q x = P x"
  shows "length (filter Q xs) \<le> length (filter P xs) + (if Q w \<and> \<not> P w then 1 else 0)"
  using assms(1)
proof (induction xs)
  case (Cons x xs)
  show ?case
  proof (cases "x = w")
    case True
    then have "\<And>y. y \<in> set xs \<Longrightarrow> Q y = P y"
      using Cons.prems assms(2) by (metis distinct.simps(2))
    then have "filter Q xs = filter P xs" by (intro filter_cong) auto
    with True show ?thesis by simp
  next
    case False
    with Cons assms(2) [OF False] show ?thesis by (auto split: if_splits)
  qed
qed simp

lemma sorted_le_last: "sorted xs \<Longrightarrow> x \<in> set xs \<Longrightarrow> x \<le> last xs"
  by (induction xs) auto

end
