(* ===== verification/Bytes.thy ===== *)
theory Bytes
  imports Prelude
begin

text \<open>
  The byte and hex routines of \<^verbatim>\<open>workers/pairfob-origin/src/crypto.ts\<close>: hex in both
  directions, route identifiers, the constant-time comparison, and the entropy
  loop. SHA-256, HMAC and PBKDF2 are WebCrypto calls and appear elsewhere as
  parameters. The lemmas show that hex round-trips, that the re-encoding test
  \<open>isLowerHex\<close> accepts exactly lower-case hex of the right length, and that the
  comparison loop decides equality.
\<close>

unbundle bit_operations_syntax

section \<open>Hex\<close>

definition hex_digits :: string where
  "hex_digits = ''0123456789abcdef''"

definition HEX_BYTE :: "byte \<Rightarrow> string" where
  "HEX_BYTE b = [hex_digits ! (unat b div 16), hex_digits ! (unat b mod 16)]"

definition bytesToHex :: "byte list \<Rightarrow> string" where
  "bytesToHex bs = concat (map HEX_BYTE bs)"

definition routeHexAt :: "byte list \<Rightarrow> int \<Rightarrow> exn + string" where
  "routeHexAt bs offset =
     (if offset < 0 \<or> offset + 16 > int (length bs)
      then Inl (Error ''route_id must be 16 bytes'')
      else Inr (bytesToHex (take 16 (drop (nat offset) bs))))"

text \<open>
  \<^verbatim>\<open>Number.parseInt(s, 16)\<close>: leading white space, an optional sign and an
  optional \<open>0x\<close> are skipped, then the longest run of hex digits is read; no digit
  at all is NaN (here \<^term>\<open>None\<close>).
\<close>

definition hex_value :: "char \<Rightarrow> nat option" where
  "hex_value c =
     (let n = of_char c :: nat in
      if 48 \<le> n \<and> n \<le> 57 then Some (n - 48)
      else if 97 \<le> n \<and> n \<le> 102 then Some (n - 87)
      else if 65 \<le> n \<and> n \<le> 70 then Some (n - 55)
      else None)"

definition is_js_space :: "char \<Rightarrow> bool" where
  "is_js_space c \<longleftrightarrow> (let n = of_char c :: nat in (9 \<le> n \<and> n \<le> 13) \<or> n = 32)"

fun hex_run :: "nat \<Rightarrow> string \<Rightarrow> nat" where
  "hex_run acc [] = acc"
| "hex_run acc (c # cs) =
     (case hex_value c of None \<Rightarrow> acc | Some v \<Rightarrow> hex_run (16 * acc + v) cs)"

definition parseInt16 :: "string \<Rightarrow> int option" where
  "parseInt16 s =
     (let t = dropWhile is_js_space s;
          neg = (take 1 t = ''-'');
          u = (if take 1 t = ''-'' \<or> take 1 t = ''+'' then drop 1 t else t);
          w = (if take 2 u = ''0x'' \<or> take 2 u = ''0X'' then drop 2 u else u)
      in case w of
           [] \<Rightarrow> None
         | c # _ \<Rightarrow> (if hex_value c = None then None
                     else Some (if neg then - int (hex_run 0 w) else int (hex_run 0 w))))"

text \<open>One loop iteration per pair of characters; the length was checked to be even.\<close>

fun hex_pairs :: "string \<Rightarrow> exn + byte list" where
  "hex_pairs [] = Inr []"
| "hex_pairs [c] = Inr []"
| "hex_pairs (c # d # cs) =
     (case parseInt16 [c, d] of
        None \<Rightarrow> Inl (Error ''bad hex'')
      | Some n \<Rightarrow> (case hex_pairs cs of Inl e \<Rightarrow> Inl e | Inr bs \<Rightarrow> Inr (word_of_int n # bs)))"

definition hexToBytes :: "string \<Rightarrow> exn + byte list" where
  "hexToBytes hex = (if odd (length hex) then Inl (Error ''odd hex'') else hex_pairs hex)"

definition isLowerHex :: "string \<Rightarrow> nat \<Rightarrow> bool" where
  "isLowerHex s byteLen =
     (if length s \<noteq> byteLen * 2 then False
      else case hexToBytes s of Inl _ \<Rightarrow> False | Inr bs \<Rightarrow> bytesToHex bs = s)"

section \<open>Route identifiers\<close>

definition ZERO_ROUTE :: "byte list" where
  "ZERO_ROUTE = replicate 16 0"

definition isZeroRoute :: "byte list \<Rightarrow> bool" where
  "isZeroRoute rid \<longleftrightarrow> length rid = 16 \<and> list_all (\<lambda>b. b = 0) rid"

definition routeHex :: "byte list \<Rightarrow> string" where
  "routeHex rid = bytesToHex rid"

definition routeFromHex :: "string \<Rightarrow> exn + byte list" where
  "routeFromHex hex =
     (case hexToBytes hex of
        Inl e \<Rightarrow> Inl e
      | Inr b \<Rightarrow> if length b \<noteq> 16 then Inl (Error ''route_id must be 16 bytes'') else Inr b)"

text \<open>
  \<^verbatim>\<open>hexToRoute\<close> of \<^verbatim>\<open>room/core.ts\<close>: always sixteen bytes; a NaN stored into a byte
  array is zero.
\<close>

definition hexToRoute :: "string \<Rightarrow> byte list" where
  "hexToRoute hex =
     map (\<lambda>i. case parseInt16 (take 2 (drop (i * 2) hex)) of
                None \<Rightarrow> 0 | Some n \<Rightarrow> word_of_int n) [0..<16]"

text \<open>
  At most eight draws from the entropy source; a draw is a computation because it
  advances the source.
\<close>

fun newRouteId_loop :: "nat \<Rightarrow> (nat \<Rightarrow> ('s, byte list) comp) \<Rightarrow> ('s, byte list) comp" where
  "newRouteId_loop 0 random = throw (Error ''relay entropy unavailable'')"
| "newRouteId_loop (Suc i) random =
     bindM (random 16) (\<lambda>b. if \<not> isZeroRoute b then ret b else newRouteId_loop i random)"

definition newRouteId :: "(nat \<Rightarrow> ('s, byte list) comp) \<Rightarrow> ('s, byte list) comp" where
  "newRouteId random = newRouteId_loop 8 random"

section \<open>Numbers as text\<close>

text \<open>\<^verbatim>\<open>String(n)\<close> of an integer.\<close>

fun decimal :: "nat \<Rightarrow> string" where
  "decimal n = (if n < 10 then [char_of (48 + n)] else decimal (n div 10) @ [char_of (48 + n mod 10)])"

declare decimal.simps [simp del]

definition js_String :: "number \<Rightarrow> string" where
  "js_String n = (if n < 0 then ''-'' else []) @ decimal (nat \<lfloor>abs n\<rfloor>)"

text \<open>\<^verbatim>\<open>Math.round\<close> of a rational.\<close>

definition js_round :: "number \<Rightarrow> number" where
  "js_round x = of_int \<lfloor>x + 1 / 2\<rfloor>"

section \<open>Constant-time comparison\<close>

definition text_bytes :: "string \<Rightarrow> byte list" where
  "text_bytes s = map (\<lambda>c. word_of_nat (of_char c)) s"

definition byte_at :: "byte list \<Rightarrow> nat \<Rightarrow> 32 word" where
  "byte_at bs i = (if i < length bs then ucast (bs ! i) else 0)"

fun tse_loop :: "byte list \<Rightarrow> byte list \<Rightarrow> nat list \<Rightarrow> 32 word \<Rightarrow> 32 word" where
  "tse_loop ba bb [] diff = diff"
| "tse_loop ba bb (i # is) diff = tse_loop ba bb is (diff OR (byte_at ba i XOR byte_at bb i))"

definition timingSafeEqual :: "string \<Rightarrow> string \<Rightarrow> bool" where
  "timingSafeEqual a b =
     (let ba = text_bytes a; bb = text_bytes b; n = max (length ba) (length bb)
      in tse_loop ba bb [0..<n] (of_nat (length ba) XOR of_nat (length bb)) = 0)"

section \<open>Facts\<close>

lemma length_HEX_BYTE [simp]: "length (HEX_BYTE b) = 2"
  by (simp add: HEX_BYTE_def)

lemma bytesToHex_Nil [simp]: "bytesToHex [] = []"
  by (simp add: bytesToHex_def)

lemma bytesToHex_Cons [simp]: "bytesToHex (b # bs) = HEX_BYTE b @ bytesToHex bs"
  by (simp add: bytesToHex_def)

lemma length_bytesToHex [simp]: "length (bytesToHex bs) = 2 * length bs"
  by (induction bs) auto

lemma hex_digits_length [simp]: "length hex_digits = 16"
  by (simp add: hex_digits_def)

lemma hex_value_digit:
  assumes "n < 16"
  shows "hex_value (hex_digits ! n) = Some n"
proof -
  have "\<forall>n \<in> set [0..<16]. hex_value (hex_digits ! n) = Some n"
    by code_simp
  with assms show ?thesis by auto
qed

lemma hex_digit_not_special:
  assumes "n < 16"
  shows "\<not> is_js_space (hex_digits ! n) \<and> hex_digits ! n \<notin> set ''-+xX''"
proof -
  have "\<forall>n \<in> set [0..<16]. \<not> is_js_space (hex_digits ! n) \<and> hex_digits ! n \<notin> set ''-+xX''"
    by code_simp
  with assms show ?thesis by auto
qed

lemma hex_value_in_digits: "c \<in> set hex_digits \<Longrightarrow> \<exists>n<16. c = hex_digits ! n"
  by (metis hex_digits_length in_set_conv_nth)

lemma parseInt16_digits:
  assumes "m < 16" and "n < 16"
  shows "parseInt16 [hex_digits ! m, hex_digits ! n] = Some (int (16 * m + n))"
  using hex_digit_not_special [OF assms(1)] hex_digit_not_special [OF assms(2)]
    hex_value_digit [OF assms(1)] hex_value_digit [OF assms(2)]
  by (simp add: parseInt16_def Let_def)

lemma unat_byte_split: "word_of_int (int (16 * (unat b div 16) + unat b mod 16)) = (b :: byte)"
  by (simp only: mult_div_mod_eq) simp

lemma byte_div_lt: "unat (b :: byte) div 16 < 16"
proof -
  have "unat b < 2 ^ LENGTH(8)" by (rule unsigned_less)
  then show ?thesis by simp
qed

lemma parseInt16_HEX_BYTE:
  "parseInt16 (HEX_BYTE b) = Some (int (16 * (unat b div 16) + unat b mod 16))"
  unfolding HEX_BYTE_def by (rule parseInt16_digits) (simp_all add: byte_div_lt)

lemma hex_pairs_HEX_BYTE:
  "hex_pairs (HEX_BYTE b @ cs) = (case hex_pairs cs of Inl e \<Rightarrow> Inl e | Inr bs \<Rightarrow> Inr (b # bs))"
proof -
  have "hex_pairs (HEX_BYTE b @ cs) =
     (case parseInt16 (HEX_BYTE b) of
        None \<Rightarrow> Inl (Error ''bad hex'')
      | Some n \<Rightarrow> (case hex_pairs cs of Inl e \<Rightarrow> Inl e | Inr bs \<Rightarrow> Inr (word_of_int n # bs)))"
    by (simp add: HEX_BYTE_def)
  then show ?thesis
    by (simp only: parseInt16_HEX_BYTE option.case unat_byte_split)
qed

lemma hex_pairs_bytesToHex [simp]: "hex_pairs (bytesToHex bs) = Inr bs"
  by (induction bs) (simp_all add: hex_pairs_HEX_BYTE)

lemma hexToBytes_bytesToHex [simp]: "hexToBytes (bytesToHex bs) = Inr bs"
  by (simp add: hexToBytes_def)

lemma bytesToHex_inj: "bytesToHex a = bytesToHex b \<longleftrightarrow> a = b"
  by (metis hexToBytes_bytesToHex sum.inject(2))

lemma set_bytesToHex: "set (bytesToHex bs) \<subseteq> set hex_digits"
proof (induction bs)
  case (Cons b bs)
  have "unat b mod 16 < 16" by simp
  with Cons byte_div_lt [of b] show ?case
    by (auto simp: HEX_BYTE_def)
qed simp

lemma HEX_BYTE_of_digits:
  assumes "m < 16" and "n < 16"
  shows "HEX_BYTE (word_of_int (int (16 * m + n))) = [hex_digits ! m, hex_digits ! n]"
proof -
  have "16 * m + n < 256" using assms by simp
  then have "unat (word_of_nat (16 * m + n) :: byte) = 16 * m + n"
    by (simp only: unat_of_nat) simp
  then show ?thesis using assms
    by (simp only: HEX_BYTE_def of_int_of_nat_eq) simp
qed

text \<open>Lower-case hex is what re-encoding its bytes gives back.\<close>

lemma hex_pairs_lower:
  assumes "even (length s)" and "set s \<subseteq> set hex_digits"
  shows "\<exists>bs. hex_pairs s = Inr bs \<and> bytesToHex bs = s"
  using assms
proof (induction s rule: hex_pairs.induct)
  case (3 c d cs)
  from "3.prems" obtain m n where mn: "m < 16" "n < 16" "c = hex_digits ! m" "d = hex_digits ! n"
    using hex_value_in_digits by (metis insert_subset list.simps(15))
  from "3.IH" [of "int (16 * m + n)"] "3.prems" mn obtain bs
    where bs: "hex_pairs cs = Inr bs" "bytesToHex bs = cs"
    by (auto simp: parseInt16_digits)
  have "hex_pairs (c # d # cs) = Inr (word_of_int (int (16 * m + n)) # bs)"
    using mn bs by (simp only: hex_pairs.simps parseInt16_digits option.case sum.case)
  moreover have "HEX_BYTE (word_of_int (int (16 * m + n))) = [c, d]"
    using mn by (simp only: HEX_BYTE_of_digits)
  ultimately show ?case
    using bs by (intro exI conjI) (assumption, simp only: bytesToHex_Cons append.simps)
qed auto

lemma isLowerHex_iff:
  "isLowerHex s n \<longleftrightarrow> length s = 2 * n \<and> set s \<subseteq> set hex_digits"
proof
  assume "isLowerHex s n"
  then obtain bs where "length s = 2 * n" "bytesToHex bs = s"
    by (auto simp: isLowerHex_def mult.commute split: if_splits sum.splits)
  then show "length s = 2 * n \<and> set s \<subseteq> set hex_digits"
    using set_bytesToHex by blast
next
  assume a: "length s = 2 * n \<and> set s \<subseteq> set hex_digits"
  then obtain bs where "hex_pairs s = Inr bs" "bytesToHex bs = s"
    using hex_pairs_lower [of s] by auto
  with a show "isLowerHex s n"
    by (simp add: isLowerHex_def hexToBytes_def)
qed

lemma length_hexToRoute [simp]: "length (hexToRoute h) = 16"
  by (simp add: hexToRoute_def)

lemma word_or_zero_iff: "(x OR y = (0 :: 'a :: len word)) \<longleftrightarrow> x = 0 \<and> y = 0"
  by (auto simp: bit_eq_iff bit_simps)

lemma word_xor_zero_iff: "(x XOR y = (0 :: 'a :: len word)) \<longleftrightarrow> x = y"
  by (auto simp: bit_eq_iff bit_simps)

lemma tse_loop_zero_iff:
  "tse_loop ba bb is diff = 0 \<longleftrightarrow> diff = 0 \<and> (\<forall>i \<in> set is. byte_at ba i = byte_at bb i)"
  by (induction "is" arbitrary: diff) (auto simp: word_or_zero_iff word_xor_zero_iff)

lemma unat_char_byte: "unat (word_of_nat (of_char c) :: byte) = of_char c"
proof -
  have "(of_char c :: nat) mod 256 = of_char c" by simp
  then have "(of_char c :: nat) < 256" by (metis mod_less_divisor zero_less_numeral)
  then show ?thesis by (simp add: unat_of_nat)
qed

lemma text_bytes_inj: "text_bytes a = text_bytes b \<longleftrightarrow> a = b"
proof -
  have "inj (\<lambda>c. word_of_nat (of_char c) :: byte)"
    by (rule injI) (metis of_char_eqI unat_char_byte)
  then show ?thesis by (simp add: text_bytes_def inj_map_eq_map)
qed

lemma unat_ucast_byte: "unat (ucast (x :: byte) :: 32 word) = unat x"
proof -
  have "unat x < 2 ^ LENGTH(8)" by (rule unsigned_less)
  then show ?thesis by (simp add: unsigned_ucast_eq take_bit_nat_eq_self)
qed

lemma ucast_byte_inj: "(ucast (x :: byte) :: 32 word) = ucast y \<longleftrightarrow> x = y"
  by (metis unat_ucast_byte word_unat_eq_iff)

lemma byte_at_eq:
  assumes "length ba = length bb" and "\<forall>i < length ba. byte_at ba i = byte_at bb i"
  shows "ba = bb"
  using assms by (intro nth_equalityI) (auto simp: byte_at_def ucast_byte_inj)

lemma timingSafeEqual_iff:
  assumes "length a < 2 ^ 32" and "length b < 2 ^ 32"
  shows "timingSafeEqual a b \<longleftrightarrow> a = b"
proof
  assume "timingSafeEqual a b"
  then have len: "(of_nat (length a) :: 32 word) = of_nat (length b)"
    and eq: "\<forall>i < max (length a) (length b). byte_at (text_bytes a) i = byte_at (text_bytes b) i"
    by (auto simp: timingSafeEqual_def Let_def tse_loop_zero_iff word_xor_zero_iff text_bytes_def)
  from len assms have "length a = length b"
    by (simp add: word_of_nat_eq_iff take_bit_eq_mod)
  with eq show "a = b"
    using byte_at_eq [of "text_bytes a" "text_bytes b"] by (auto simp: text_bytes_def text_bytes_inj [unfolded text_bytes_def])
next
  assume "a = b"
  then show "timingSafeEqual a b"
    by (simp add: timingSafeEqual_def tse_loop_zero_iff)
qed

text \<open>A route identifier survives the trip through its hex form.\<close>

lemma take_drop_bytesToHex:
  "i < length bs \<Longrightarrow> take 2 (drop (i * 2) (bytesToHex bs)) = HEX_BYTE (bs ! i)"
proof (induction bs arbitrary: i)
  case (Cons b bs)
  then show ?case by (cases i) (auto simp: HEX_BYTE_def)
qed simp

lemma hexToRoute_bytesToHex:
  assumes "length bs = 16"
  shows "hexToRoute (bytesToHex bs) = bs"
proof (rule nth_equalityI)
  show "length (hexToRoute (bytesToHex bs)) = length bs" using assms by simp
next
  fix i
  assume "i < length (hexToRoute (bytesToHex bs))"
  then have "i < 16" by simp
  then have "hexToRoute (bytesToHex bs) ! i =
     (case parseInt16 (HEX_BYTE (bs ! i)) of None \<Rightarrow> 0 | Some n \<Rightarrow> word_of_int n)"
    using assms by (simp add: hexToRoute_def take_drop_bytesToHex)
  then show "hexToRoute (bytesToHex bs) ! i = bs ! i"
    by (simp only: parseInt16_HEX_BYTE option.case unat_byte_split)
qed

lemma routeFromHex_routeHex: "length rid = 16 \<Longrightarrow> routeFromHex (routeHex rid) = Inr rid"
  by (simp add: routeFromHex_def routeHex_def)

text \<open>What the entropy loop returns, and that it only fails by throwing.\<close>

lemma newRouteId_loop_result:
  assumes "newRouteId_loop n random s = (Inr b, t)"
    and "\<And>s c t. random 16 s = (Inr c, t) \<Longrightarrow> length c = 16"
  shows "length b = 16 \<and> \<not> isZeroRoute b"
  using assms(1)
proof (induction n arbitrary: s)
  case (Suc n)
  then show ?case
    by (auto simp: comp_defs split: sum.splits prod.splits if_splits dest: assms(2))
qed (simp add: comp_defs)

end
