(* ===== verification/Constants.thy ===== *)
theory Constants
  imports Bytes
begin

text \<open>
  The constants of \<^verbatim>\<open>workers/pairfob-origin/src/constants.ts\<close> the model uses, with each
  regular expression as a test on strings, and the location codes of
  \<^verbatim>\<open>workers/pairfob-origin/src/crockford.ts\<close>. Times are in milliseconds.
\<close>

section \<open>Timeouts and caps\<close>

definition PROTOCOL :: number where [simp]: "PROTOCOL = 2"
definition HELLO_GRACE_MS :: number where [simp]: "HELLO_GRACE_MS = 5000"
definition RESUME_MS :: number where [simp]: "RESUME_MS = 15000"
definition PAIR_FIRST_MS :: number where [simp]: "PAIR_FIRST_MS = 15000"
definition PAIR_CONFIRM_MS :: number where [simp]: "PAIR_CONFIRM_MS = 30000"
definition TICKET_MS :: number where [simp]: "TICKET_MS = 15000"
definition DEFAULT_TTL_MS :: number where [simp]: "DEFAULT_TTL_MS = 180000"
definition MIN_TTL_S :: number where [simp]: "MIN_TTL_S = 60"
definition MAX_TTL_S :: number where [simp]: "MAX_TTL_S = 300"
definition MAX_ESTABLISHED :: nat where [simp]: "MAX_ESTABLISHED = 10"
definition MAX_RESUME :: nat where [simp]: "MAX_RESUME = 2"
definition MAX_PENDING_HELLO :: nat where [simp]: "MAX_PENDING_HELLO = 8"
definition MAX_PAIRING :: nat where [simp]: "MAX_PAIRING = 1"
definition FWD_FLUSH_BYTES :: nat where [simp]: "FWD_FLUSH_BYTES = 65536"
definition LOC_MINT_TRIES :: nat where [simp]: "LOC_MINT_TRIES = 8"

section \<open>Regular expressions\<close>

text \<open>\<open>is_lower_hex n s\<close>: exactly \<open>n\<close> characters of \<^verbatim>\<open>[0-9a-f]\<close>.\<close>

definition is_lower_hex :: "nat \<Rightarrow> string \<Rightarrow> bool" where
  "is_lower_hex n s \<longleftrightarrow> length s = n \<and> list_all (\<lambda>c. c \<in> set hex_digits) s"

definition prefixed_hex :: "string \<Rightarrow> nat \<Rightarrow> string \<Rightarrow> bool" where
  "prefixed_hex p n s \<longleftrightarrow> take (length p) s = p \<and> is_lower_hex n (drop (length p) s)"

definition GRANT_ID_RE :: "string \<Rightarrow> bool" where
  "GRANT_ID_RE = prefixed_hex ''g_'' 16"

definition DAEMON_ID_RE :: "string \<Rightarrow> bool" where
  "DAEMON_ID_RE = prefixed_hex ''d_'' 20"

definition RECONNECT_TOKEN_RE :: "string \<Rightarrow> bool" where
  "RECONNECT_TOKEN_RE = prefixed_hex ''rt_'' 32"

definition PAIR_REF_RE :: "string \<Rightarrow> bool" where
  "PAIR_REF_RE = is_lower_hex 32"

definition TICKET_RE :: "string \<Rightarrow> bool" where
  "TICKET_RE = is_lower_hex 32"

section \<open>Location codes\<close>

text \<open>Crockford Base32 without I, L, O, U.\<close>

definition CROCKFORD :: string where
  "CROCKFORD = ''0123456789ABCDEFGHJKMNPQRSTVWXYZ''"

definition js_trim :: "string \<Rightarrow> string" where
  "js_trim s = rev (dropWhile is_js_space (rev (dropWhile is_js_space s)))"

definition toUpper :: "char \<Rightarrow> char" where
  "toUpper c =
     (let n = of_char c :: nat in if 97 \<le> n \<and> n \<le> 122 then char_of (n - 32) else c)"

definition fold_char :: "char \<Rightarrow> char" where
  "fold_char c =
     (if c = CHR ''I'' \<or> c = CHR ''L'' then CHR ''1''
      else if c = CHR ''O'' then CHR ''0''
      else if c = CHR ''U'' then CHR ''V'' else c)"

definition normalizeLoc :: "string \<Rightarrow> string option" where
  "normalizeLoc raw =
     (let t = filter (\<lambda>c. \<not> is_js_space c) (map fold_char (map toUpper (js_trim raw)))
      in if length t \<noteq> 6 then None
         else if list_all (\<lambda>c. c \<in> set CROCKFORD) t then Some t else None)"

definition locShard :: "string \<Rightarrow> string" where
  "locShard loc = take 2 loc"

definition mintLoc :: "(nat \<Rightarrow> ('s, byte list) comp) \<Rightarrow> ('s, string) comp" where
  "mintLoc random =
     bindM (random 6) (\<lambda>b. ret (map (\<lambda>i. CROCKFORD ! (unat (b ! i) mod 32)) [0..<6]))"

definition indexName :: "string \<Rightarrow> string" where
  "indexName loc = ''idx:'' @ locShard loc"

section \<open>Facts\<close>

lemma CROCKFORD_length [simp]: "length CROCKFORD = 32"
  by (simp add: CROCKFORD_def)

lemma is_lower_hex_iff: "is_lower_hex n s \<longleftrightarrow> length s = n \<and> set s \<subseteq> set hex_digits"
  by (auto simp: is_lower_hex_def list_all_iff)

lemma is_lower_hex_bytesToHex: "is_lower_hex (2 * length bs) (bytesToHex bs)"
  using set_bytesToHex by (auto simp: is_lower_hex_iff)

text \<open>Every character of the alphabet is left alone by the normalisation.\<close>

lemma crockford_char_fixed:
  assumes "c \<in> set CROCKFORD"
  shows "fold_char (toUpper c) = c \<and> \<not> is_js_space c"
proof -
  have "\<forall>c \<in> set CROCKFORD. fold_char (toUpper c) = c \<and> \<not> is_js_space c"
    unfolding CROCKFORD_def by code_simp
  with assms show ?thesis by blast
qed

lemma js_trim_id:
  assumes "\<forall>c \<in> set s. \<not> is_js_space c"
  shows "js_trim s = s"
proof -
  have dw: "dropWhile is_js_space t = t" if "\<forall>c \<in> set t. \<not> is_js_space c" for t
    using that by (cases t) auto
  show ?thesis using assms dw [of s] dw [of "rev s"] by (simp add: js_trim_def)
qed

lemma normalizeLoc_fixed:
  assumes "length s = 6" and "set s \<subseteq> set CROCKFORD"
  shows "normalizeLoc s = Some s"
proof -
  have ns: "\<forall>c \<in> set s. \<not> is_js_space c" and fx: "\<forall>c \<in> set s. fold_char (toUpper c) = c"
    using assms(2) crockford_char_fixed by blast+
  have "map fold_char (map toUpper s) = s"
    using fx by (simp add: map_idI)
  moreover have "filter (\<lambda>c. \<not> is_js_space c) s = s"
    using ns by (simp add: filter_id_conv)
  ultimately show ?thesis
    using assms ns by (auto simp: normalizeLoc_def js_trim_id Let_def list_all_iff)
qed

lemma normalizeLoc_shape:
  "normalizeLoc raw = Some t \<Longrightarrow> length t = 6 \<and> set t \<subseteq> set CROCKFORD"
  by (auto simp: normalizeLoc_def Let_def list_all_iff split: if_splits)

lemma mintLoc_shape:
  assumes "mintLoc random s = (Inr loc, t)"
  shows "length loc = 6 \<and> set loc \<subseteq> set CROCKFORD"
  using assms by (auto simp: mintLoc_def comp_defs split: sum.splits prod.splits)

end
