(* ===== verification/Gate.thy ===== *)
theory Gate
  imports Constants
begin

text \<open>
  The per-room brute-force throttle of
  \<^verbatim>\<open>workers/pairfob-origin/src/room/gate-throttle.ts\<close>. The storage port
  \<^verbatim>\<open>GateAttemptStore\<close> is a record of three functions over any store; the locale
  \<open>gate_store\<close> states what the port promises in terms of the list of attempts it
  holds, and the lemmas of the throttle are proved once against it. The main one
  bounds how many failed attempts any sixty-second window can hold.
\<close>

section \<open>The throttle\<close>

definition GATE_WINDOW_MS :: number where [simp]: "GATE_WINDOW_MS = 60000"
definition GATE_FREE_ATTEMPTS :: nat where [simp]: "GATE_FREE_ATTEMPTS = 5"
definition GATE_COOLDOWN_BASE_MS :: number where [simp]: "GATE_COOLDOWN_BASE_MS = 1000"
definition GATE_COOLDOWN_MAX_MS :: number where [simp]: "GATE_COOLDOWN_MAX_MS = 60000"
definition GATE_RETAIN_MS :: number where [simp]: "GATE_RETAIN_MS = GATE_WINDOW_MS"
definition GATE_PRUNE_INTERVAL_MS :: number where [simp]: "GATE_PRUNE_INTERVAL_MS = 60000"

text \<open>The port: \<^verbatim>\<open>recordGateAttempt\<close>, \<^verbatim>\<open>gateFailuresSince\<close>, \<^verbatim>\<open>pruneGateAttempts\<close>.\<close>

record 'st gate_port =
  recordGateAttempt :: "number \<Rightarrow> bool \<Rightarrow> 'st \<Rightarrow> 'st"
  gateFailuresSince :: "number \<Rightarrow> 'st \<Rightarrow> nat \<times> number"
  pruneGateAttempts :: "number \<Rightarrow> 'st \<Rightarrow> 'st"

record gate_decision =
  allowed :: bool
  retryAfterMs :: number

definition gateCooldownMs :: "nat \<Rightarrow> number" where
  "gateCooldownMs failures =
     (if failures \<le> GATE_FREE_ATTEMPTS then 0
      else let over = failures - GATE_FREE_ATTEMPTS; steps = min (over - 1) 30
           in min (GATE_COOLDOWN_BASE_MS * 2 ^ steps) GATE_COOLDOWN_MAX_MS)"

definition gate_check :: "'st gate_port \<Rightarrow> 'st \<Rightarrow> number \<Rightarrow> gate_decision" where
  "gate_check port st now =
     (let (count, lastAt) = gateFailuresSince port (now - GATE_WINDOW_MS) st;
          cooldown = gateCooldownMs count
      in if cooldown = 0 then \<lparr> allowed = True, retryAfterMs = 0 \<rparr>
         else let elapsed = now - lastAt in
           if elapsed \<ge> cooldown then \<lparr> allowed = True, retryAfterMs = 0 \<rparr>
           else \<lparr> allowed = False, retryAfterMs = cooldown - elapsed \<rparr>)"

text \<open>The throttle's own state is the time of its last prune, beside the store.\<close>

definition maybePrune :: "'st gate_port \<Rightarrow> number \<Rightarrow> number \<times> 'st \<Rightarrow> number \<times> 'st" where
  "maybePrune port now g =
     (case g of (lastPruneAt, st) \<Rightarrow>
        if now - lastPruneAt < GATE_PRUNE_INTERVAL_MS then g
        else (now, pruneGateAttempts port (now - GATE_RETAIN_MS) st))"

definition gate_record :: "'st gate_port \<Rightarrow> number \<Rightarrow> bool \<Rightarrow> number \<times> 'st \<Rightarrow> number \<times> 'st" where
  "gate_record port now ok g =
     (case g of (lastPruneAt, st) \<Rightarrow>
        maybePrune port now (lastPruneAt, recordGateAttempt port now ok st))"

text \<open>
  How every caller uses the throttle: ask first, and record the outcome only of an
  attempt that was let through. \<open>gate_run\<close> plays a list of attempts, each with its
  clock and outcome, and returns the clocks of the failures that were recorded.
\<close>

definition gate_try :: "'st gate_port \<Rightarrow> number \<Rightarrow> bool \<Rightarrow> number \<times> 'st \<Rightarrow> bool \<times> (number \<times> 'st)" where
  "gate_try port now ok g =
     (if allowed (gate_check port (snd g) now) then (True, gate_record port now ok g) else (False, g))"

fun gate_run :: "'st gate_port \<Rightarrow> (number \<times> bool) list \<Rightarrow> number \<times> 'st \<Rightarrow> number list" where
  "gate_run port [] g = []"
| "gate_run port ((now, ok) # as) g =
     (case gate_try port now ok g of
        (through, g') \<Rightarrow> (if through \<and> \<not> ok then now # gate_run port as g' else gate_run port as g'))"

section \<open>The cooldown schedule\<close>

lemma gateCooldown_values:
  "gateCooldownMs 5 = 0" "gateCooldownMs 6 = 1000" "gateCooldownMs 7 = 2000"
  "gateCooldownMs 8 = 4000" "gateCooldownMs 9 = 8000" "gateCooldownMs 10 = 16000"
  "gateCooldownMs 11 = 32000" "gateCooldownMs 12 = 60000"
  by (simp_all add: gateCooldownMs_def Let_def)

lemma gateCooldown_nonneg: "0 \<le> gateCooldownMs n"
  by (simp add: gateCooldownMs_def Let_def)

lemma gateCooldown_le_max: "gateCooldownMs n \<le> GATE_COOLDOWN_MAX_MS"
  by (simp add: gateCooldownMs_def Let_def)

lemma gateCooldown_mono:
  assumes "m \<le> n"
  shows "gateCooldownMs m \<le> gateCooldownMs n"
proof (cases "m \<le> GATE_FREE_ATTEMPTS")
  case True
  then show ?thesis using gateCooldown_nonneg [of n] by (simp add: gateCooldownMs_def)
next
  case False
  with assms have "min (m - GATE_FREE_ATTEMPTS - 1) 30 \<le> min (n - GATE_FREE_ATTEMPTS - 1) 30"
    by simp
  then have "(2 :: number) ^ min (m - GATE_FREE_ATTEMPTS - 1) 30 \<le> 2 ^ min (n - GATE_FREE_ATTEMPTS - 1) 30"
    by (rule power_increasing) simp
  then have "min (GATE_COOLDOWN_BASE_MS * 2 ^ min (m - GATE_FREE_ATTEMPTS - 1) 30) GATE_COOLDOWN_MAX_MS
     \<le> min (GATE_COOLDOWN_BASE_MS * 2 ^ min (n - GATE_FREE_ATTEMPTS - 1) 30) GATE_COOLDOWN_MAX_MS"
    by (intro min.mono mult_left_mono) simp_all
  with False assms show ?thesis by (simp add: gateCooldownMs_def Let_def)
qed

section \<open>A ledger of failures spaced by the cooldown\<close>

text \<open>
  \<open>spaced fs\<close>: the failures are in order and every one came at least the cooldown
  after the one before it, the cooldown being the one of the number of failures then
  in the window.
\<close>

definition in_window :: "number \<Rightarrow> number list \<Rightarrow> number list" where
  "in_window now fs = filter (\<lambda>t. now - GATE_WINDOW_MS \<le> t) fs"

definition spaced :: "number list \<Rightarrow> bool" where
  "spaced fs \<longleftrightarrow>
     sorted fs \<and>
     (\<forall>i < length fs. i > 0 \<longrightarrow>
        gateCooldownMs (length (in_window (fs ! i) (take i fs))) \<le> fs ! i - fs ! (i - 1) \<or>
        gateCooldownMs (length (in_window (fs ! i) (take i fs))) = 0)"

lemma spaced_snoc:
  "spaced (fs @ [a]) \<longleftrightarrow>
     spaced fs \<and> (\<forall>t \<in> set fs. t \<le> a) \<and>
     (fs \<noteq> [] \<longrightarrow> gateCooldownMs (length (in_window a fs)) \<le> a - last fs \<or>
                   gateCooldownMs (length (in_window a fs)) = 0)"
proof (cases "fs = []")
  case True
  then show ?thesis by (simp add: spaced_def)
next
  case False
  then show ?thesis
    by (auto simp: spaced_def sorted_append nth_append less_Suc_eq last_conv_nth)
qed

text \<open>Inside one window the gap before the failure at position \<open>i\<close> is at least the cooldown of \<open>i\<close>.\<close>

definition gaps_ok :: "number list \<Rightarrow> bool" where
  "gaps_ok ws \<longleftrightarrow> (\<forall>i. Suc i < length ws \<longrightarrow> gateCooldownMs (Suc i) \<le> ws ! Suc i - ws ! i)"

lemma gaps_ok_snoc:
  assumes "gaps_ok ws" and "ws \<noteq> [] \<Longrightarrow> gateCooldownMs (length ws) \<le> a - last ws"
  shows "gaps_ok (ws @ [a])"
  unfolding gaps_ok_def
proof (intro allI impI)
  fix i
  assume i: "Suc i < length (ws @ [a])"
  show "gateCooldownMs (Suc i) \<le> (ws @ [a]) ! Suc i - (ws @ [a]) ! i"
  proof (cases "Suc i = length ws")
    case True
    then have "ws \<noteq> []" and "i = length ws - 1" by auto
    then have "last ws = ws ! i" and "ws \<noteq> []" by (simp_all add: last_conv_nth)
    with assms(2) True show ?thesis by (simp add: nth_append)
  next
    case False
    with i assms(1) show ?thesis by (simp add: gaps_ok_def nth_append)
  qed
qed

definition window_at :: "number \<Rightarrow> number list \<Rightarrow> number list" where
  "window_at x fs = filter (\<lambda>t. x - GATE_WINDOW_MS \<le> t \<and> t \<le> x) fs"

lemma spaced_gaps_ok: "spaced fs \<Longrightarrow> gaps_ok (window_at x fs)"
proof (induction fs rule: rev_induct)
  case Nil
  then show ?case by (simp add: gaps_ok_def window_at_def)
next
  case (snoc a fs)
  then have IH: "gaps_ok (window_at x fs)" and le: "\<forall>t \<in> set fs. t \<le> a"
    and gap: "fs \<noteq> [] \<Longrightarrow> gateCooldownMs (length (in_window a fs)) \<le> a - last fs \<or>
                   gateCooldownMs (length (in_window a fs)) = 0"
    and "spaced fs"
    by (auto simp: spaced_snoc)
  then have srt: "sorted fs" by (simp add: spaced_def)
  show ?case
  proof (cases "x - GATE_WINDOW_MS \<le> a \<and> a \<le> x")
    case False
    with IH show ?thesis by (auto simp: window_at_def)
  next
    case True
    have "gateCooldownMs (length (window_at x fs)) \<le> a - last (window_at x fs)"
      if ne: "window_at x fs \<noteq> []"
    proof -
      have "fs \<noteq> []" using ne by (auto simp: window_at_def)
      have inw: "last (window_at x fs) \<in> set fs"
        using last_in_set [OF ne] by (auto simp: window_at_def)
      have ll: "last (window_at x fs) \<le> last fs"
        using srt inw by (rule sorted_le_last)
      have "length (window_at x fs) \<le> length (in_window a fs)"
        unfolding window_at_def in_window_def length_filter_conv_card
        by (rule card_mono) (use True in auto)
      then have "gateCooldownMs (length (window_at x fs)) \<le> gateCooldownMs (length (in_window a fs))"
        by (rule gateCooldown_mono)
      moreover have "last (window_at x fs) \<le> a" using inw le by blast
      ultimately show ?thesis using gap [OF \<open>fs \<noteq> []\<close>] ll by linarith
    qed
    with IH have "gaps_ok (window_at x fs @ [a])" by (rule gaps_ok_snoc)
    with True show ?thesis by (simp add: window_at_def)
  qed
qed

lemma gaps_bound:
  assumes gaps: "gaps_ok ws" and span: "\<forall>s \<in> set ws. \<forall>t \<in> set ws. t - s \<le> 60000"
  shows "length ws \<le> 11"
proof (rule ccontr)
  assume "\<not> length ws \<le> 11"
  then have len: "11 < length ws" by simp
  have g: "gateCooldownMs (Suc i) \<le> ws ! Suc i - ws ! i" if "Suc i \<le> 11" for i
    using gaps len that by (simp add: gaps_ok_def)
  have "ws ! 11 - ws ! 5 \<ge> gateCooldownMs 6 + gateCooldownMs 7 + gateCooldownMs 8
      + gateCooldownMs 9 + gateCooldownMs 10 + gateCooldownMs 11"
    using g [of 5] g [of 6] g [of 7] g [of 8] g [of 9] g [of 10] by simp
  then have "63000 \<le> ws ! 11 - ws ! 5" by (simp add: gateCooldown_values)
  moreover have "ws ! 11 - ws ! 5 \<le> 60000" using span len by simp
  ultimately show False by simp
qed

lemma spaced_window_bound:
  assumes "spaced fs"
  shows "length (window_at x fs) \<le> 11"
proof (rule gaps_bound)
  show "gaps_ok (window_at x fs)" using assms by (rule spaced_gaps_ok)
  show "\<forall>s \<in> set (window_at x fs). \<forall>t \<in> set (window_at x fs). t - s \<le> 60000"
    by (auto simp: window_at_def)
qed

section \<open>What the port promises\<close>

text \<open>
  A store seen through the list of attempts it holds: recording appends, pruning keeps
  what is recent enough, and the query counts the failures since a moment and reports
  the latest of them (0 when there is none).
\<close>

definition failures_since :: "number \<Rightarrow> (number \<times> bool) list \<Rightarrow> number list" where
  "failures_since since as = map fst (filter (\<lambda>(t, ok). since \<le> t \<and> \<not> ok) as)"

text \<open>Attempts are stamped by a clock that is never negative.\<close>

definition clock_ok :: "(number \<times> bool) list \<Rightarrow> bool" where
  "clock_ok as \<longleftrightarrow> (\<forall>(t, _) \<in> set as. 0 \<le> t)"

lemma foldl_max_sorted:
  assumes "sorted ws" and "ws \<noteq> []" and "\<forall>t \<in> set ws. (0 :: number) \<le> t"
  shows "foldl max 0 ws = last ws"
  using assms
proof (induction ws rule: rev_induct)
  case (snoc a ws)
  then show ?case by (cases "ws = []") (auto simp: sorted_append max_def)
qed simp

lemma last_in_window:
  assumes "sorted fs" and "in_window now fs \<noteq> []"
  shows "last (in_window now fs) = last fs" and "fs \<noteq> []"
proof -
  from assms(2) show ne: "fs \<noteq> []" by (auto simp: in_window_def)
  obtain t where "t \<in> set fs" "now - GATE_WINDOW_MS \<le> t"
    using assms(2) by (auto simp: in_window_def filter_empty_conv)
  then have "now - GATE_WINDOW_MS \<le> last fs"
    using sorted_le_last [OF assms(1)] by fastforce
  then have "in_window now fs = in_window now (butlast fs) @ [last fs]"
    using ne by (metis append_butlast_last_id filter.simps filter_append in_window_def)
  then show "last (in_window now fs) = last fs" by simp
qed

locale gate_store =
  fixes port :: "'st gate_port"
    and attempts :: "'st \<Rightarrow> (number \<times> bool) list"
  assumes attempts_record: "attempts (recordGateAttempt port now ok st) = attempts st @ [(now, ok)]"
    and attempts_prune:
      "attempts (pruneGateAttempts port before st) = filter (\<lambda>(t, _). before \<le> t) (attempts st)"
    and failures_query:
      "clock_ok (attempts st) \<Longrightarrow> gateFailuresSince port since st =
         (length (failures_since since (attempts st)), foldl max 0 (failures_since since (attempts st)))"
begin

lemma refused_unchanged: "\<not> allowed (gate_check port (snd g) now) \<Longrightarrow> snd (gate_try port now ok g) = g"
  by (simp add: gate_try_def)

lemma failures_after_record:
  assumes "now' \<ge> now"
  shows "failures_since (now' - GATE_WINDOW_MS) (attempts (snd (gate_record port now ok g)))
       = failures_since (now' - GATE_WINDOW_MS) (attempts (snd g))
           @ (if \<not> ok \<and> now' - GATE_WINDOW_MS \<le> now then [now] else [])"
proof -
  obtain lp st where g: "g = (lp, st)" by (cases g)
  have cut: "now' - GATE_WINDOW_MS \<le> t \<and> now - GATE_WINDOW_MS \<le> t \<longleftrightarrow> now' - GATE_WINDOW_MS \<le> t" for t
    using assms by (auto simp: algebra_simps)
  show ?thesis
    unfolding g failures_since_def gate_record_def maybePrune_def
    using assms by (auto simp: attempts_record attempts_prune intro!: arg_cong [where f = "map fst"] filter_cong)
qed

text \<open>
  \<open>ledger_inv fs prev st\<close>: \<open>fs\<close> is the whole history of recorded failures, none later
  than \<open>prev\<close>, and for every window ending at \<open>prev\<close> or later the store still holds
  exactly the failures of the history that lie in it, whatever was pruned.
\<close>

definition ledger_inv :: "number list \<Rightarrow> number \<Rightarrow> 'st \<Rightarrow> bool" where
  "ledger_inv fs prev st \<longleftrightarrow>
     clock_ok (attempts st) \<and> spaced fs \<and> (\<forall>t \<in> set fs. 0 \<le> t \<and> t \<le> prev) \<and>
     (\<forall>now \<ge> prev. failures_since (now - GATE_WINDOW_MS) (attempts st) = in_window now fs)"

lemma record_clock_ok:
  assumes "clock_ok (attempts (snd g))" and "0 \<le> now"
  shows "clock_ok (attempts (snd (gate_record port now ok g)))"
  using assms
  by (cases g) (auto simp: clock_ok_def gate_record_def maybePrune_def attempts_record attempts_prune)

lemma check_spacing:
  assumes inv: "ledger_inv fs prev st" and le: "prev \<le> now" and ok: "allowed (gate_check port st now)"
  shows "spaced (fs @ [now])"
proof -
  from inv le have q: "failures_since (now - GATE_WINDOW_MS) (attempts st) = in_window now fs"
    and sp: "spaced fs" and nn: "\<forall>t \<in> set fs. 0 \<le> t \<and> t \<le> now"
    and ck: "clock_ok (attempts st)"
    by (auto simp: ledger_inv_def)
  then have srt: "sorted fs" by (simp add: spaced_def)
  have "gateCooldownMs (length (in_window now fs)) \<le> now - last fs \<or>
        gateCooldownMs (length (in_window now fs)) = 0"
  proof (cases "in_window now fs = []")
    case True
    then show ?thesis by (simp add: gateCooldownMs_def)
  next
    case False
    have "sorted (in_window now fs)" using srt by (simp add: in_window_def sorted_wrt_filter)
    moreover have "\<forall>t \<in> set (in_window now fs). 0 \<le> t" using nn by (auto simp: in_window_def)
    ultimately have "foldl max 0 (in_window now fs) = last fs"
      using foldl_max_sorted False last_in_window [OF srt False] by simp
    with ok q show ?thesis
      by (auto simp: gate_check_def failures_query [OF ck] Let_def split: if_splits)
  qed
  with sp nn show ?thesis by (simp add: spaced_snoc)
qed

lemma try_ledger_inv:
  fixes ok :: bool
  assumes inv: "ledger_inv fs prev (snd g)" and le: "prev \<le> now" and nn: "0 \<le> now"
  defines "r \<equiv> gate_try port now ok g"
  shows "ledger_inv (if fst r \<and> \<not> ok then fs @ [now] else fs) now (snd (snd r))"
proof (cases "allowed (gate_check port (snd g) now)")
  case False
  then show ?thesis using inv le by (auto simp: r_def gate_try_def ledger_inv_def)
next
  case True
  then have r: "r = (True, gate_record port now ok g)" by (simp add: r_def gate_try_def)
  have sp: "spaced (fs @ [now])" using inv le True by (rule check_spacing)
  have win: "failures_since (n - GATE_WINDOW_MS) (attempts (snd (gate_record port now ok g)))
      = in_window n fs @ (if \<not> ok \<and> n - GATE_WINDOW_MS \<le> now then [now] else [])" if "now \<le> n" for n
    using failures_after_record [OF that] inv le that by (simp add: ledger_inv_def)
  have ck: "clock_ok (attempts (snd (gate_record port now ok g)))"
    using inv nn by (intro record_clock_ok) (simp_all add: ledger_inv_def)
  have old: "spaced fs" "\<forall>t \<in> set fs. 0 \<le> t \<and> t \<le> now" using inv le by (auto simp: ledger_inv_def)
  show ?thesis
  proof (cases ok)
    case True
    then show ?thesis using ck old win by (simp add: r ledger_inv_def)
  next
    case False
    have "\<forall>n\<ge>now. failures_since (n - GATE_WINDOW_MS) (attempts (snd (gate_record port now ok g)))
        = in_window n (fs @ [now])"
      using win False by (simp add: in_window_def)
    with False show ?thesis using ck old sp nn by (simp add: r ledger_inv_def)
  qed
qed

lemma run_spaced:
  assumes "ledger_inv fs prev (snd g)" and "0 \<le> prev" and "sorted (prev # map fst as)"
  shows "spaced (fs @ gate_run port as g)"
  using assms
proof (induction as arbitrary: fs prev g)
  case Nil
  then show ?case by (simp add: ledger_inv_def)
next
  case (Cons a as)
  obtain now ok where a: "a = (now, ok)" by (cases a)
  define r where "r = gate_try port now ok g"
  have "ledger_inv (if fst r \<and> \<not> ok then fs @ [now] else fs) now (snd (snd r))"
    unfolding r_def using Cons.prems by (intro try_ledger_inv) (auto simp: a)
  then have "spaced ((if fst r \<and> \<not> ok then fs @ [now] else fs) @ gate_run port as (snd r))"
    using Cons.prems by (intro Cons.IH [where prev = now]) (auto simp: a)
  then show ?case by (cases r) (auto simp: a r_def [symmetric])
qed

lemma run_window_bound:
  assumes "attempts (snd g) = []" and "sorted (0 # map fst as)"
  shows "length (window_at x (gate_run port as g)) \<le> 11"
proof (rule spaced_window_bound)
  have "ledger_inv [] 0 (snd g)"
    using assms(1) by (simp add: ledger_inv_def clock_ok_def spaced_def failures_since_def in_window_def)
  then show "spaced (gate_run port as g)"
    using run_spaced [of "[]" 0 g as] assms(2) by simp
qed

text \<open>The retry hint is honest: waiting that long over an unchanged ledger is enough.\<close>

lemma foldl_max_ge: "x \<in> set ws \<Longrightarrow> x \<le> foldl max (c :: number) ws"
  and foldl_max_base: "c \<le> foldl max (c :: number) ws"
  by (induction ws arbitrary: c) (auto intro: order_trans [OF max.cobounded2] order_trans [OF max.cobounded1])

lemma foldl_max_in: "foldl max (c :: number) ws = c \<or> foldl max c ws \<in> set ws"
  by (induction ws arbitrary: c) (auto simp: max_def split: if_splits)

lemma retry_allowed:
  assumes "\<not> allowed (gate_check port st now)" and ck: "clock_ok (attempts st)"
  shows "allowed (gate_check port st (now + retryAfterMs (gate_check port st now)))"
    and "0 < retryAfterMs (gate_check port st now)"
proof -
  define F where "F = failures_since (now - GATE_WINDOW_MS) (attempts st)"
  define r where "r = retryAfterMs (gate_check port st now)"
  define F' where "F' = failures_since (now + r - GATE_WINDOW_MS) (attempts st)"
  let ?m = "foldl max 0 F"
  have r: "r = gateCooldownMs (length F) - (now - ?m)" and pos: "0 < r"
    using assms by (auto simp: r_def F_def gate_check_def failures_query [OF ck] Let_def split: if_splits)
  then show "0 < retryAfterMs (gate_check port st now)" by (simp add: r_def)
  have sub: "set F' \<subseteq> set F" and len: "length F' \<le> length F"
    using pos unfolding F_def F'_def failures_since_def
    by (auto simp: length_filter_conv_card intro!: card_mono)
  have "?m \<ge> foldl max 0 F'"
    using foldl_max_in [of 0 F'] foldl_max_base [of 0 F] foldl_max_ge [of _ F 0] sub by auto
  with r have "now + r - foldl max 0 F' \<ge> gateCooldownMs (length F)" by linarith
  with gateCooldown_mono [OF len] have "gateCooldownMs (length F') \<le> now + r - foldl max 0 F'"
    by linarith
  then have "allowed (gate_check port st (now + r))"
    by (simp add: gate_check_def failures_query [OF ck] F'_def Let_def)
  then show "allowed (gate_check port st (now + retryAfterMs (gate_check port st now)))"
    by (simp add: r_def)
qed

end

end
