(* ===== verification/Store.thy ===== *)
theory Store
  imports Gate "HOL-Library.AList"
begin

text \<open>
  The room's storage: the row types of \<^verbatim>\<open>workers/pairfob-origin/src/room/types.ts\<close>, the
  in-memory implementation \<^verbatim>\<open>room/memory-store.ts\<close>, and the contract \<^verbatim>\<open>RoomStore\<close>
  as a locale over an abstract view of a store (who holds the slot, which tickets and
  alarms are pending). The locale derives what the room relies on: a ticket is spent
  at most once, and the platform alarm is never later than a pending row.
  The room's theories run over this implementation; the deployed room is built on \<open>CfStore\<close>
  (\<^verbatim>\<open>room.ts\<close>), which the theory of that name proves to answer as this one does, row ids apart.
  The instrumentation counters (\<^verbatim>\<open>stats\<close>) are left out.
\<close>

section \<open>Rows\<close>

datatype alarm_kind = Hello5s | Resume15s | PairFirst15s | PairConfirm30s | PairTtl | Ticket15s

record pair_slot =
  pair_ref :: string
  pair_loc :: string
  deadline :: number

record ticket_row =
  t_ticket :: string
  t_pair_ref :: string
  t_deadline :: number

record alarm_row =
  al_id :: nat
  al_at :: number
  al_kind :: alarm_kind
  al_ref :: string

record meta_row =
  m_daemon_id :: string
  m_reconnect_hash :: string
  m_grant_id :: string
  m_created_at :: number

record bind_row =
  b_route_id :: string
  b_kind :: string
  b_created_at :: number
  b_pair_ref :: string

section \<open>MemoryStore\<close>

record mem_store =
  st_alarm :: "number option"
  st_meta :: "meta_row option"
  st_slot :: "pair_slot option"
  st_tickets :: "(string \<times> ticket_row) list"
  st_alarms :: "alarm_row list"
  st_nextAlarmId :: nat
  st_binds :: "(string \<times> bind_row) list"
  st_schemed :: bool
  st_gateAttempts :: "(number \<times> bool) list"

definition new_MemoryStore :: mem_store where
  "new_MemoryStore =
     \<lparr> st_alarm = None, st_meta = None, st_slot = None, st_tickets = [], st_alarms = [],
       st_nextAlarmId = 1, st_binds = [], st_schemed = False, st_gateAttempts = [] \<rparr>"

definition getAlarm :: "mem_store \<Rightarrow> number option" where
  "getAlarm st = st_alarm st"

definition setAlarm :: "number \<Rightarrow> mem_store \<Rightarrow> mem_store" where
  "setAlarm tm st = st\<lparr>st_alarm := Some tm\<rparr>"

definition deleteAlarm :: "mem_store \<Rightarrow> mem_store" where
  "deleteAlarm st = st\<lparr>st_alarm := None\<rparr>"

definition setAlarmIfChanged :: "number option \<Rightarrow> mem_store \<Rightarrow> mem_store" where
  "setAlarmIfChanged nextAt st =
     (let cur = getAlarm st in
      case nextAt of
        None \<Rightarrow> (if cur \<noteq> None then deleteAlarm st else st)
      | Some tm \<Rightarrow> (if cur \<noteq> Some tm then setAlarm tm st else st))"

definition ensureSchema :: "mem_store \<Rightarrow> mem_store" where
  "ensureSchema st = st\<lparr>st_schemed := True\<rparr>"

definition loadMeta :: "mem_store \<Rightarrow> meta_row option" where
  "loadMeta st = st_meta st"

definition putMeta :: "meta_row \<Rightarrow> mem_store \<Rightarrow> mem_store" where
  "putMeta row st = st\<lparr>st_meta := Some row\<rparr>"

definition deleteMeta :: "mem_store \<Rightarrow> mem_store" where
  "deleteMeta st = st\<lparr>st_meta := None\<rparr>"

definition setReconnectHash :: "string \<Rightarrow> mem_store \<Rightarrow> mem_store" where
  "setReconnectHash hash st =
     (case st_meta st of None \<Rightarrow> st | Some m \<Rightarrow> st\<lparr>st_meta := Some (m\<lparr>m_reconnect_hash := hash\<rparr>)\<rparr>)"

definition clearReconnectHash :: "mem_store \<Rightarrow> mem_store" where
  "clearReconnectHash st =
     (case st_meta st of None \<Rightarrow> st | Some m \<Rightarrow> st\<lparr>st_meta := Some (m\<lparr>m_reconnect_hash := []\<rparr>)\<rparr>)"

definition loadSlot :: "mem_store \<Rightarrow> pair_slot option" where
  "loadSlot st = st_slot st"

definition putSlot :: "pair_slot \<Rightarrow> mem_store \<Rightarrow> mem_store" where
  "putSlot slot st = st\<lparr>st_slot := Some slot\<rparr>"

definition deleteSlot :: "mem_store \<Rightarrow> mem_store" where
  "deleteSlot st = st\<lparr>st_slot := None\<rparr>"

definition insertTicket :: "ticket_row \<Rightarrow> mem_store \<Rightarrow> mem_store" where
  "insertTicket row st = st\<lparr>st_tickets := AList.update (t_ticket row) row (st_tickets st)\<rparr>"

definition consumeTicket :: "string \<Rightarrow> number \<Rightarrow> mem_store \<Rightarrow> ticket_row option \<times> mem_store" where
  "consumeTicket ticket now st =
     (case map_of (st_tickets st) ticket of
        None \<Rightarrow> (None, st)
      | Some row \<Rightarrow>
          if t_deadline row \<le> now then (None, st)
          else (Some row, st\<lparr>st_tickets := AList.delete ticket (st_tickets st)\<rparr>))"

definition expireTickets :: "number \<Rightarrow> mem_store \<Rightarrow> mem_store" where
  "expireTickets now st =
     st\<lparr>st_tickets := filter (\<lambda>(_, v). \<not> t_deadline v \<le> now) (st_tickets st)\<rparr>"

definition listAlarms :: "mem_store \<Rightarrow> alarm_row list" where
  "listAlarms st = st_alarms st"

definition upsertAlarm :: "alarm_kind \<Rightarrow> string \<Rightarrow> number \<Rightarrow> mem_store \<Rightarrow> mem_store" where
  "upsertAlarm kind ref tm st =
     st\<lparr>st_alarms := filter (\<lambda>a. \<not> (al_kind a = kind \<and> al_ref a = ref)) (st_alarms st)
                    @ [\<lparr> al_id = st_nextAlarmId st, al_at = tm, al_kind = kind, al_ref = ref \<rparr>],
        st_nextAlarmId := st_nextAlarmId st + 1\<rparr>"

definition deleteAlarmsByKindRef :: "alarm_kind \<Rightarrow> string \<Rightarrow> mem_store \<Rightarrow> mem_store" where
  "deleteAlarmsByKindRef kind ref st =
     st\<lparr>st_alarms := filter (\<lambda>a. \<not> (al_kind a = kind \<and> al_ref a = ref)) (st_alarms st)\<rparr>"

definition deleteAlarmIds :: "nat list \<Rightarrow> mem_store \<Rightarrow> mem_store" where
  "deleteAlarmIds ids st = st\<lparr>st_alarms := filter (\<lambda>a. al_id a \<notin> set ids) (st_alarms st)\<rparr>"

fun min_list_opt :: "number list \<Rightarrow> number option" where
  "min_list_opt [] = None"
| "min_list_opt (x # xs) = Some (foldl min x xs)"

definition minAlarmAt :: "mem_store \<Rightarrow> number option" where
  "minAlarmAt st = min_list_opt (map al_at (st_alarms st))"

definition dueAlarms :: "number \<Rightarrow> mem_store \<Rightarrow> alarm_row list" where
  "dueAlarms now st = filter (\<lambda>a. al_at a \<le> now) (st_alarms st)"

definition upsertBind :: "bind_row \<Rightarrow> mem_store \<Rightarrow> mem_store" where
  "upsertBind row st = st\<lparr>st_binds := AList.update (b_route_id row) row (st_binds st)\<rparr>"

definition store_deleteBind :: "string \<Rightarrow> mem_store \<Rightarrow> mem_store" where
  "store_deleteBind routeId st = st\<lparr>st_binds := AList.delete routeId (st_binds st)\<rparr>"

definition listBinds :: "mem_store \<Rightarrow> bind_row list" where
  "listBinds st = map snd (st_binds st)"

definition deleteGhostBinds :: "string list \<Rightarrow> mem_store \<Rightarrow> mem_store" where
  "deleteGhostBinds liveRouteIds st =
     st\<lparr>st_binds := filter (\<lambda>(k, _). k \<in> set liveRouteIds) (st_binds st)\<rparr>"

definition mem_recordGateAttempt :: "number \<Rightarrow> bool \<Rightarrow> mem_store \<Rightarrow> mem_store" where
  "mem_recordGateAttempt tm ok st = st\<lparr>st_gateAttempts := st_gateAttempts st @ [(tm, ok)]\<rparr>"

fun count_failures :: "number \<Rightarrow> (number \<times> bool) list \<Rightarrow> nat \<times> number \<Rightarrow> nat \<times> number" where
  "count_failures since [] (count, lastAt) = (count, lastAt)"
| "count_failures since ((tm, ok) # as) (count, lastAt) =
     (if since \<le> tm \<and> \<not> ok
      then count_failures since as (count + 1, if tm > lastAt then tm else lastAt)
      else count_failures since as (count, lastAt))"

definition mem_gateFailuresSince :: "number \<Rightarrow> mem_store \<Rightarrow> nat \<times> number" where
  "mem_gateFailuresSince since st = count_failures since (st_gateAttempts st) (0, 0)"

definition mem_pruneGateAttempts :: "number \<Rightarrow> mem_store \<Rightarrow> mem_store" where
  "mem_pruneGateAttempts before st =
     st\<lparr>st_gateAttempts := filter (\<lambda>(tm, _). before \<le> tm) (st_gateAttempts st)\<rparr>"

text \<open>\<^verbatim>\<open>asGateStore\<close>: the store carries the ledger methods, so the port is the store itself.\<close>

definition mem_gate_port :: "mem_store gate_port" where
  "mem_gate_port =
     \<lparr> recordGateAttempt = mem_recordGateAttempt, gateFailuresSince = mem_gateFailuresSince,
       pruneGateAttempts = mem_pruneGateAttempts \<rparr>"

section \<open>The ledger port\<close>

lemma count_failures_eq:
  "count_failures since as (c, m) =
     (c + length (failures_since since as), foldl max m (failures_since since as))"
  by (induction since as "(c, m)" arbitrary: c m rule: count_failures.induct)
     (auto simp: failures_since_def max_def)

interpretation mem_gate: gate_store mem_gate_port st_gateAttempts
  by unfold_locales
    (simp_all add: mem_gate_port_def mem_recordGateAttempt_def mem_pruneGateAttempts_def
      mem_gateFailuresSince_def count_failures_eq)

section \<open>The contract of a store\<close>

text \<open>
  Tickets: a store is seen through the map of the tickets it holds. Inserting a fresh
  ticket succeeds, consuming hands out a live ticket and forgets it, expiring drops what
  is past its deadline.
\<close>

locale ticket_store =
  fixes tickets :: "'st \<Rightarrow> string \<rightharpoonup> ticket_row"
    and insert_ticket :: "ticket_row \<Rightarrow> 'st \<Rightarrow> exn + 'st"
    and consume :: "string \<Rightarrow> number \<Rightarrow> 'st \<Rightarrow> ticket_row option \<times> 'st"
    and expire :: "number \<Rightarrow> 'st \<Rightarrow> 'st"
    and invar :: "'st \<Rightarrow> bool"
  assumes insert_fresh:
      "invar st \<Longrightarrow> tickets st (t_ticket row) = None \<Longrightarrow>
         \<exists>st'. insert_ticket row st = Inr st' \<and> invar st' \<and>
               tickets st' = (tickets st)(t_ticket row \<mapsto> row)"
    and consume_live:
      "invar st \<Longrightarrow> tickets st t = Some row \<Longrightarrow> now < t_deadline row \<Longrightarrow>
         fst (consume t now st) = Some row \<and> tickets (snd (consume t now st)) = (tickets st)(t := None)"
    and consume_dead:
      "invar st \<Longrightarrow> tickets st t = None \<or> (\<exists>row. tickets st t = Some row \<and> t_deadline row \<le> now) \<Longrightarrow>
         fst (consume t now st) = None \<and> tickets (snd (consume t now st)) = tickets st"
    and expire_tickets:
      "invar st \<Longrightarrow> tickets (expire now st) t =
         (case tickets st t of None \<Rightarrow> None | Some row \<Rightarrow> if t_deadline row \<le> now then None else Some row)"
    and invar_consume: "invar st \<Longrightarrow> invar (snd (consume t now st))"
    and invar_expire: "invar st \<Longrightarrow> invar (expire now st)"
begin

lemma consume_cases:
  assumes "invar st"
  shows "fst (consume t now st) = Some row \<longleftrightarrow> tickets st t = Some row \<and> now < t_deadline row"
proof (cases "tickets st t")
  case None
  then show ?thesis using consume_dead [OF assms] by simp
next
  case (Some r)
  then show ?thesis
    using consume_live [OF assms Some] consume_dead [OF assms, of t now]
    by (cases "now < t_deadline r") auto
qed

lemma consume_shrinks:
  assumes "invar st"
  shows "tickets (snd (consume t now st)) \<subseteq>\<^sub>m tickets st"
proof (cases "fst (consume t now st)")
  case None
  then have "tickets st t = None \<or> (\<exists>row. tickets st t = Some row \<and> t_deadline row \<le> now)"
    using consume_live [OF assms, of t _ now] by (cases "tickets st t") (auto simp: not_le [symmetric])
  then show ?thesis using consume_dead [OF assms] by simp
next
  case (Some row)
  then show ?thesis
    using consume_live [OF assms, of t row now] consume_cases [OF assms] by (auto simp: map_le_def)
qed

text \<open>After a ticket was spent no sequence of consumptions and expiries brings it back.\<close>

fun later :: "(string \<times> number) list \<Rightarrow> 'st \<Rightarrow> 'st" where
  "later [] st = st"
| "later ((t, now) # ops) st = later ops (expire now (snd (consume t now st)))"

lemma later_invar: "invar st \<Longrightarrow> invar (later ops st)"
  by (induction ops st rule: later.induct) (auto intro: invar_expire invar_consume)

lemma later_gone: "invar st \<Longrightarrow> tickets st t = None \<Longrightarrow> tickets (later ops st) t = None"
proof (induction ops st rule: later.induct)
  case (2 u now ops st)
  then have "tickets (snd (consume u now st)) t = None"
    using consume_shrinks [of st u now] by (metis domIff map_le_implies_dom_le subsetD)
  then show ?case
    using 2 by (simp add: expire_tickets invar_consume invar_expire)
qed simp

lemma single_use:
  assumes "invar st" and "fst (consume t now st) = Some row"
  shows "fst (consume t now' (later ops (snd (consume t now st)))) = None"
proof -
  have "tickets (snd (consume t now st)) t = None"
    using assms consume_cases consume_live by fastforce
  then have "tickets (later ops (snd (consume t now st))) t = None"
    using assms(1) by (intro later_gone invar_consume)
  then show ?thesis
    using assms(1) by (intro consume_dead [THEN conjunct1] later_invar invar_consume) auto
qed

end

text \<open>
  Alarms: a store is seen through the pending alarm of each kind and reference and through
  the platform alarm. \<open>sync\<close> is \<^verbatim>\<open>syncHeapAlarm\<close>: move the platform alarm to the earliest row.
\<close>

locale alarm_store =
  fixes rows :: "'st \<Rightarrow> alarm_kind \<times> string \<rightharpoonup> number"
    and heap :: "'st \<Rightarrow> number option"
    and upsert :: "alarm_kind \<Rightarrow> string \<Rightarrow> number \<Rightarrow> 'st \<Rightarrow> 'st"
    and drop_row :: "alarm_kind \<Rightarrow> string \<Rightarrow> 'st \<Rightarrow> 'st"
    and earliest :: "'st \<Rightarrow> number option"
    and set_heap :: "number option \<Rightarrow> 'st \<Rightarrow> 'st"
    and invar :: "'st \<Rightarrow> bool"
  assumes rows_upsert: "invar st \<Longrightarrow> rows (upsert k r tm st) = (rows st)((k, r) \<mapsto> tm)"
    and rows_drop: "invar st \<Longrightarrow> rows (drop_row k r st) = (rows st)((k, r) := None)"
    and rows_set_heap: "rows (set_heap n st) = rows st"
    and heap_set_heap: "heap (set_heap n st) = n"
    and heap_upsert: "heap (upsert k r tm st) = heap st"
    and heap_drop: "heap (drop_row k r st) = heap st"
    and earliest_None: "invar st \<Longrightarrow> earliest st = None \<longleftrightarrow> rows st = Map.empty"
    and earliest_Some: "invar st \<Longrightarrow> earliest st = Some m \<Longrightarrow> m \<in> ran (rows st) \<and> (\<forall>tm \<in> ran (rows st). m \<le> tm)"
    and invar_upsert: "invar st \<Longrightarrow> invar (upsert k r tm st)"
    and invar_drop: "invar st \<Longrightarrow> invar (drop_row k r st)"
    and invar_set_heap: "invar st \<Longrightarrow> invar (set_heap n st)"
begin

definition armed :: "'st \<Rightarrow> bool" where
  "armed st \<longleftrightarrow> (\<forall>tm \<in> ran (rows st). \<exists>a. heap st = Some a \<and> a \<le> tm)"

definition sync :: "'st \<Rightarrow> 'st" where
  "sync st = set_heap (earliest st) st"

lemma sync_armed:
  assumes "invar st"
  shows "armed (sync st)"
proof (cases "earliest st")
  case None
  then have "ran (rows st) = {}" using earliest_None [OF assms] by simp
  then show ?thesis by (simp add: armed_def sync_def rows_set_heap)
next
  case (Some m)
  then show ?thesis
    using earliest_Some [OF assms Some] by (auto simp: armed_def sync_def rows_set_heap heap_set_heap)
qed

lemma sync_rows: "rows (sync st) = rows st"
  by (simp add: sync_def rows_set_heap)

lemma drop_armed: "invar st \<Longrightarrow> armed st \<Longrightarrow> armed (drop_row k r st)"
  by (auto simp: armed_def rows_drop heap_drop ran_def split: if_splits)

lemma schedule_armed:
  assumes "invar st"
  shows "armed (sync (upsert k r tm st))" and "rows (sync (upsert k r tm st)) (k, r) = Some tm"
  using assms by (simp_all add: sync_armed invar_upsert sync_rows rows_upsert)

end

text \<open>The whole store contract is both, over one invariant.\<close>

locale room_store =
  ticket_store tickets insert_ticket consume expire invar +
  alarm_store rows heap upsert drop_row earliest set_heap invar
  for tickets insert_ticket consume expire rows heap upsert drop_row earliest set_heap
    and invar :: "'st \<Rightarrow> bool" +
  assumes rows_expire: "rows (expire now st) = rows st"
    and heap_expire: "heap (expire now st) = heap st"
    and rows_consume: "rows (snd (consume t now st)) = rows st"
    and heap_consume: "heap (snd (consume t now st)) = heap st"
begin

lemma ticket_ops_keep_armed:
  "armed st \<Longrightarrow> armed (expire now st)" "armed st \<Longrightarrow> armed (snd (consume t now st))"
  by (simp_all add: armed_def rows_expire heap_expire rows_consume heap_consume)

end

section \<open>MemoryStore keeps the contract\<close>

definition mem_tickets :: "mem_store \<Rightarrow> string \<rightharpoonup> ticket_row" where
  "mem_tickets st = map_of (st_tickets st)"

definition mem_rows :: "mem_store \<Rightarrow> alarm_kind \<times> string \<rightharpoonup> number" where
  "mem_rows st = map_of (map (\<lambda>a. ((al_kind a, al_ref a), al_at a)) (st_alarms st))"

definition mem_invar :: "mem_store \<Rightarrow> bool" where
  "mem_invar st \<longleftrightarrow>
     distinct (map fst (st_tickets st)) \<and>
     distinct (map (\<lambda>a. (al_kind a, al_ref a)) (st_alarms st))"

lemma map_of_filter_val:
  "distinct (map fst xs) \<Longrightarrow>
     map_of (filter (\<lambda>(_, v). P v) xs) k = (case map_of xs k of None \<Rightarrow> None | Some v \<Rightarrow> if P v then Some v else None)"
  by (induction xs) (auto simp: map_of_eq_None_iff split: option.splits)

lemma distinct_map_filter: "distinct (map f xs) \<Longrightarrow> distinct (map f (filter P xs))"
  by (induction xs) auto

lemma map_of_filter_key:
  "map_of (map g (filter (\<lambda>a. fst (g a) \<noteq> k) xs)) = (map_of (map g xs))(k := None)"
  by (induction xs) (auto simp: fun_eq_iff split: prod.splits)

lemma foldl_min_le: "foldl min x xs \<le> (x :: number)" "y \<in> set xs \<Longrightarrow> foldl min x xs \<le> y"
  by (induction xs arbitrary: x) (auto intro: order_trans [OF _ min.cobounded1] order_trans [OF _ min.cobounded2])

lemma foldl_min_in: "foldl min x xs \<in> insert (x :: number) (set xs)"
proof (induction xs arbitrary: x)
  case (Cons a xs)
  from Cons [of "min x a"] show ?case by (auto simp: min_def split: if_splits)
qed simp

lemma min_list_opt_Some:
  assumes "min_list_opt xs = Some m"
  shows "m \<in> set xs" and "\<forall>x \<in> set xs. m \<le> x"
  using assms foldl_min_le foldl_min_in by (cases xs; auto)+

lemma mem_rows_filter:
  "mem_rows (st\<lparr>st_alarms := filter (\<lambda>a. \<not> (al_kind a = k \<and> al_ref a = r)) (st_alarms st)\<rparr>)
     = (mem_rows st)((k, r) := None)"
proof -
  have "(\<lambda>a. \<not> (al_kind a = k \<and> al_ref a = r)) = (\<lambda>a. fst ((al_kind a, al_ref a), al_at a) \<noteq> (k, r))"
    by auto
  then show ?thesis
    using map_of_filter_key [of "\<lambda>a. ((al_kind a, al_ref a), al_at a)" "(k, r)" "st_alarms st"]
    by (simp add: mem_rows_def)
qed

lemma map_of_append_fresh: "map_of xs k = None \<Longrightarrow> map_of (xs @ [(k, v)]) = (map_of xs)(k \<mapsto> v)"
  by (induction xs) (auto simp: fun_eq_iff split: if_splits)

lemma mem_rows_upsert: "mem_rows (upsertAlarm k r tm st) = (mem_rows st)((k, r) \<mapsto> tm)"
proof -
  let ?fs = "filter (\<lambda>a. \<not> (al_kind a = k \<and> al_ref a = r)) (st_alarms st)"
  let ?g = "\<lambda>a. ((al_kind a, al_ref a), al_at a)"
  have fs: "map_of (map ?g ?fs) = (mem_rows st)((k, r) := None)"
    using mem_rows_filter [where st = st and k = k and r = r] by (simp add: mem_rows_def)
  have "mem_rows (upsertAlarm k r tm st) = map_of (map ?g ?fs @ [((k, r), tm)])"
    by (simp add: mem_rows_def upsertAlarm_def)
  also have "\<dots> = (map_of (map ?g ?fs))((k, r) \<mapsto> tm)"
    by (rule map_of_append_fresh) (simp only: fs fun_upd_same)
  finally show ?thesis by (simp only: fs fun_upd_upd)
qed

lemma mem_ran_rows:
  assumes "mem_invar st"
  shows "ran (mem_rows st) = al_at ` set (st_alarms st)"
proof -
  have "distinct (map fst (map (\<lambda>a. ((al_kind a, al_ref a), al_at a)) (st_alarms st)))"
    using assms by (simp add: mem_invar_def comp_def)
  then show ?thesis
    unfolding mem_rows_def by (simp add: ran_distinct image_image)
qed

lemma setAlarmIfChanged_eq: "setAlarmIfChanged n st = st\<lparr>st_alarm := n\<rparr>"
  by (cases n) (simp_all add: setAlarmIfChanged_def getAlarm_def deleteAlarm_def setAlarm_def)

interpretation mem_store: room_store mem_tickets "\<lambda>row st. Inr (insertTicket row st)" consumeTicket
  expireTickets mem_rows st_alarm upsertAlarm deleteAlarmsByKindRef minAlarmAt setAlarmIfChanged mem_invar
proof (unfold_locales, goal_cases)
  case (1 st row)
  then show ?case
    by (auto simp: insertTicket_def mem_tickets_def mem_invar_def update_conv' distinct_update)
next
  case (2 st t row now)
  then show ?case
    by (simp add: consumeTicket_def mem_tickets_def delete_conv')
next
  case (3 st t now)
  then show ?case
    by (auto simp: consumeTicket_def mem_tickets_def split: option.splits)
next
  case (4 st now t)
  then show ?case
    using map_of_filter_val [of "st_tickets st" "\<lambda>v. \<not> t_deadline v \<le> now" t]
    by (auto simp: expireTickets_def mem_tickets_def mem_invar_def split: option.splits)
next
  case (5 st t now)
  then show ?case
    by (auto simp: consumeTicket_def mem_invar_def distinct_delete split: option.splits)
next
  case (6 st now)
  then show ?case
    by (auto simp: expireTickets_def mem_invar_def distinct_map_filter)
next
  case (7 st k r tm)
  show ?case by (rule mem_rows_upsert)
next
  case (8 st k r)
  show ?case unfolding deleteAlarmsByKindRef_def by (rule mem_rows_filter)
next
  case (13 st)
  then show ?case by (cases "st_alarms st") (auto simp: minAlarmAt_def mem_rows_def)
next
  case (14 st m)
  then show ?case
    using min_list_opt_Some [of "map al_at (st_alarms st)" m] by (auto simp: minAlarmAt_def mem_ran_rows)
next
  case (15 st k r tm)
  then show ?case by (auto simp: mem_invar_def upsertAlarm_def distinct_map_filter)
next
  case (16 st k r)
  then show ?case by (simp add: mem_invar_def deleteAlarmsByKindRef_def distinct_map_filter)
qed (auto simp: setAlarmIfChanged_eq mem_rows_def upsertAlarm_def deleteAlarmsByKindRef_def mem_invar_def
    expireTickets_def consumeTicket_def split: option.splits)

end
