(* ===== verification/Json.thy ===== *)
theory Json
  imports Bytes
begin

text \<open>
  JSON as the relay reads it: the value type, the part of \<^verbatim>\<open>JSON.parse\<close> the sources
  rely on, and \<^verbatim>\<open>parseJSONObject\<close> of \<^verbatim>\<open>workers/pairfob-origin/src/frames.ts\<close> with
  the field readers the handlers use (\<^verbatim>\<open>typeof req?.x === "string" ? req.x : ""\<close>).
  A string is the sequence of its UTF-8 bytes; \<open>utf16_length\<close> gives the number of UTF-16 units of the
  JavaScript string it stands for.
\<close>

section \<open>Values\<close>

datatype json =
    JNull
  | JBool bool
  | JNum number
  | JStr string
  | JArr "json list"
  | JObj "(string \<times> json) list"

type_synonym jobject = "(string \<times> json) list"

text \<open>Property access: a repeated key keeps its last value.\<close>

definition jget :: "jobject \<Rightarrow> string \<Rightarrow> json option" where
  "jget ob k = map_of (rev ob) k"

definition jstr :: "jobject \<Rightarrow> string \<Rightarrow> string" where
  "jstr ob k = (case jget ob k of Some (JStr s) \<Rightarrow> s | _ \<Rightarrow> [])"

definition jnum_or :: "jobject \<Rightarrow> string \<Rightarrow> number \<Rightarrow> number" where
  "jnum_or ob k d = (case jget ob k of Some (JNum n) \<Rightarrow> n | _ \<Rightarrow> d)"

section \<open>Parsing\<close>

definition json_ws :: "char \<Rightarrow> bool" where
  "json_ws c \<longleftrightarrow> (let n = of_char c :: nat in n = 32 \<or> n = 9 \<or> n = 10 \<or> n = 13)"

definition skip_ws :: "string \<Rightarrow> string" where
  "skip_ws s = dropWhile json_ws s"

definition is_digit :: "char \<Rightarrow> bool" where
  "is_digit c \<longleftrightarrow> (let n = of_char c :: nat in 48 \<le> n \<and> n \<le> 57)"

definition digit_value :: "char \<Rightarrow> nat" where
  "digit_value c = of_char c - 48"

definition digits_value :: "string \<Rightarrow> nat" where
  "digits_value ds = foldl (\<lambda>acc c. 10 * acc + digit_value c) 0 ds"

text \<open>The optional fraction and exponent of a number, each with the text after it.\<close>

definition pfraction :: "string \<Rightarrow> (number \<times> string) option" where
  "pfraction s =
     (if take 1 s = ''.'' then
        let ds = takeWhile is_digit (drop 1 s) in
        if ds = [] then None
        else Some (of_nat (digits_value ds) / 10 ^ length ds, dropWhile is_digit (drop 1 s))
      else Some (0, s))"

definition pexponent :: "string \<Rightarrow> (number \<times> string) option" where
  "pexponent s =
     (if take 1 s = ''e'' \<or> take 1 s = ''E'' then
        let neg = (take 1 (drop 1 s) = ''-'');
            t = (if take 1 (drop 1 s) = ''-'' \<or> take 1 (drop 1 s) = ''+'' then drop 2 s else drop 1 s);
            ds = takeWhile is_digit t in
        if ds = [] then None
        else Some (if neg then 1 / 10 ^ digits_value ds else 10 ^ digits_value ds, dropWhile is_digit t)
      else Some (1, s))"

definition pnumber :: "string \<Rightarrow> (number \<times> string) option" where
  "pnumber s =
     (let neg = (take 1 s = ''-'');
          t = (if take 1 s = ''-'' then drop 1 s else s);
          ds = takeWhile is_digit t in
      if ds = [] \<or> (take 1 ds = ''0'' \<and> length ds > 1) then None
      else case pfraction (dropWhile is_digit t) of
          None \<Rightarrow> None
        | Some (fr, u) \<Rightarrow>
            (case pexponent u of
               None \<Rightarrow> None
             | Some (ex, v) \<Rightarrow>
                 let m = (of_nat (digits_value ds) + fr) * ex in Some (if neg then - m else m, v)))"

text \<open>A code unit of a \<^verbatim>\<open>\uXXXX\<close> escape as UTF-8 bytes; surrogates are not paired.\<close>

definition utf8_unit :: "nat \<Rightarrow> string" where
  "utf8_unit n =
     (if n < 128 then [char_of n]
      else if n < 2048 then [char_of (192 + n div 64), char_of (128 + n mod 64)]
      else [char_of (224 + n div 4096), char_of (128 + n div 64 mod 64), char_of (128 + n mod 64)])"

text \<open>
  \<^verbatim>\<open>String.prototype.length\<close>: a character of one to three bytes is one UTF-16 unit, one of four bytes is two.
\<close>

definition utf16_units :: "char \<Rightarrow> nat" where
  "utf16_units c = (let n = of_char c :: nat in if 128 \<le> n \<and> n < 192 then 0 else if 240 \<le> n then 2 else 1)"

definition utf16_length :: "string \<Rightarrow> nat" where
  "utf16_length s = sum_list (map utf16_units s)"

definition hex4 :: "string \<Rightarrow> nat option" where
  "hex4 s = (if length s = 4 \<and> list_all (\<lambda>c. hex_value c \<noteq> None) s then Some (hex_run 0 s) else None)"

definition simple_escape :: "char \<Rightarrow> char option" where
  "simple_escape c =
     (if c = CHR 0x22 \<or> c = CHR 0x5C \<or> c = CHR ''/'' then Some c
      else if c = CHR ''b'' then Some (char_of (8 :: nat))
      else if c = CHR ''f'' then Some (char_of (12 :: nat))
      else if c = CHR ''n'' then Some (char_of (10 :: nat))
      else if c = CHR ''r'' then Some (char_of (13 :: nat))
      else if c = CHR ''t'' then Some (char_of (9 :: nat))
      else None)"

text \<open>The characters of a string after its opening quote.\<close>

function pstring :: "string \<Rightarrow> (string \<times> string) option" where
  "pstring s =
     (case s of
        [] \<Rightarrow> None
      | c # cs \<Rightarrow>
          if c = CHR 0x22 then Some ([], cs)
          else if (of_char c :: nat) < 32 then None
          else if c = CHR 0x5C then
            (case cs of
               [] \<Rightarrow> None
             | e # es \<Rightarrow>
                 if e = CHR ''u'' then
                   (case hex4 (take 4 es) of
                      None \<Rightarrow> None
                    | Some n \<Rightarrow> map_option (\<lambda>(t, r). (utf8_unit n @ t, r)) (pstring (drop 4 es)))
                 else (case simple_escape e of
                      None \<Rightarrow> None
                    | Some d \<Rightarrow> map_option (\<lambda>(t, r). (d # t, r)) (pstring es)))
          else map_option (\<lambda>(t, r). (c # t, r)) (pstring cs))"
  by pat_completeness auto
termination
  by (relation "measure length") auto

declare pstring.simps [simp del]

lemma utf16_length_simps [simp]:
  "utf16_length [] = 0" "utf16_length (c # s) = utf16_units c + utf16_length s" "utf16_length (s @ t) = utf16_length s + utf16_length t"
  by (simp_all add: utf16_length_def)

text \<open>ASCII text has one unit for each byte, and an escaped unit is one unit, half a surrogate pair included.\<close>

lemma utf16_length_ascii: "\<forall>c \<in> set s. (of_char c :: nat) < 128 \<Longrightarrow> utf16_length s = length s"
  by (induction s) (auto simp: utf16_units_def)

lemma utf16_length_escape: "n < 65536 \<Longrightarrow> utf16_length (utf8_unit n) = 1"
  by (auto simp: utf8_unit_def utf16_units_def Let_def)

lemma length_skip_ws: "length (skip_ws s) \<le> length s"
  by (simp add: skip_ws_def length_dropWhile_le)

lemma pstring_shorter: "pstring s = Some (t, r) \<Longrightarrow> length r < length s"
proof (induction s arbitrary: t r rule: pstring.induct)
  case (1 s)
  show ?case
  proof (cases s)
    case Nil
    with "1.prems" show ?thesis by (simp add: pstring.simps [of "[]"])
  next
    case (Cons c cs)
    with "1" show ?thesis
      by (fastforce simp: pstring.simps [of "c # cs"] less_Suc_eq_le
          split: if_splits list.splits option.splits intro: le_SucI less_imp_le dest: less_trans)
  qed
qed

text \<open>
  Values, the elements of an array after its bracket and the members of an object
  after its brace. The comparison of lengths before a recursive call on what a value
  left over always holds; it makes the recursion evidently finite.
\<close>

function pvalue :: "string \<Rightarrow> (json \<times> string) option"
  and pelements :: "string \<Rightarrow> (json list \<times> string) option"
  and pmembers :: "string \<Rightarrow> (jobject \<times> string) option" where
  "pvalue s =
     (case skip_ws s of
        [] \<Rightarrow> None
      | c # cs \<Rightarrow>
          if c = CHR ''{'' then
            (if take 1 (skip_ws cs) = ''}'' then Some (JObj [], drop 1 (skip_ws cs))
             else map_option (\<lambda>(ms, r). (JObj ms, r)) (pmembers cs))
          else if c = CHR ''['' then
            (if take 1 (skip_ws cs) = '']'' then Some (JArr [], drop 1 (skip_ws cs))
             else map_option (\<lambda>(es, r). (JArr es, r)) (pelements cs))
          else if c = CHR 0x22 then map_option (\<lambda>(t, r). (JStr t, r)) (pstring cs)
          else if take 4 (c # cs) = ''true'' then Some (JBool True, drop 4 (c # cs))
          else if take 5 (c # cs) = ''false'' then Some (JBool False, drop 5 (c # cs))
          else if take 4 (c # cs) = ''null'' then Some (JNull, drop 4 (c # cs))
          else map_option (\<lambda>(n, r). (JNum n, r)) (pnumber (c # cs)))"
| "pelements s =
     (case pvalue s of
        None \<Rightarrow> None
      | Some (v, r) \<Rightarrow>
          (case skip_ws r of
             [] \<Rightarrow> None
           | c # cs \<Rightarrow>
               if c = CHR '']'' then Some ([v], cs)
               else if c = CHR '','' \<and> length cs < length s
               then map_option (\<lambda>(vs, u). (v # vs, u)) (pelements cs)
               else None))"
| "pmembers s =
     (case skip_ws s of
        [] \<Rightarrow> None
      | q # qs \<Rightarrow>
          if q \<noteq> CHR 0x22 then None
          else case pstring qs of
              None \<Rightarrow> None
            | Some (k, r) \<Rightarrow>
                if take 1 (skip_ws r) \<noteq> '':'' then None
                else case pvalue (drop 1 (skip_ws r)) of
                    None \<Rightarrow> None
                  | Some (v, u) \<Rightarrow>
                      (case skip_ws u of
                         [] \<Rightarrow> None
                       | c # cs \<Rightarrow>
                           if c = CHR ''}'' then Some ([(k, v)], cs)
                           else if c = CHR '','' \<and> length cs < length s
                           then map_option (\<lambda>(ms, w). ((k, v) # ms, w)) (pmembers cs)
                           else None))"
  by pat_completeness auto
termination
proof (relation "measures [case_sum length (case_sum length length),
                           case_sum (\<lambda>_. 0) (case_sum (\<lambda>_. 1) (\<lambda>_. 1))]", goal_cases)
  case (2 s c cs)
  with length_skip_ws [of s] show ?case by simp
next
  case (3 s c cs)
  with length_skip_ws [of s] show ?case by simp
next
  case (6 s q qs x k r)
  with length_skip_ws [of s] length_skip_ws [of r] pstring_shorter [of qs k r]
  have "length (drop 1 (skip_ws r)) < length s" by simp
  then show ?case by simp
qed auto

declare pvalue.simps [simp del] pelements.simps [simp del] pmembers.simps [simp del]

definition JSON_parse :: "string \<Rightarrow> json option" where
  "JSON_parse text =
     (case pvalue text of
        None \<Rightarrow> None
      | Some (v, r) \<Rightarrow> if skip_ws r = [] then Some v else None)"

definition utf8_decode :: "byte list \<Rightarrow> string" where
  "utf8_decode bs = map (\<lambda>b. char_of (unat b)) bs"

definition parseJSONObject :: "byte list \<Rightarrow> jobject option" where
  "parseJSONObject payload =
     (case JSON_parse (utf8_decode payload) of
        Some (JObj ob) \<Rightarrow> Some ob
      | _ \<Rightarrow> None)"

end
