(* ===== verification/Attachment.thy ===== *)
theory Attachment
  imports Json
begin

text \<open>
  Per-socket state, \<^verbatim>\<open>workers/pairfob-origin/src/room/attachment.ts\<close>: the record a socket
  carries through hibernation, its validation on the way back, and the tests on it.
  The lemmas show that an attachment survives serialisation unchanged.
\<close>

datatype socket_role = RDaemon | RPhone
datatype socket_mode = MHello | MPairing | MSession
datatype bind_kind = KNone | KPairing | KResumehello | KEstablished

record attachment =
  a_role :: socket_role
  a_mode :: socket_mode
  a_route_id :: string
  a_kind :: bind_kind
  a_created_ms :: number
  a_hello_at_ms :: number
  a_pair_ref :: string
  a_pair_frames :: number
  a_account :: string
  a_owner :: string

text \<open>The spread of \<^verbatim>\<open>extra\<close> over the defaults is an update function.\<close>

definition newAttachment ::
    "socket_role \<Rightarrow> number \<Rightarrow> (attachment \<Rightarrow> attachment) \<Rightarrow> attachment" where
  "newAttachment role now extra =
     extra \<lparr> a_role = role, a_mode = MHello, a_route_id = [], a_kind = KNone,
             a_created_ms = now, a_hello_at_ms = 0, a_pair_ref = [], a_pair_frames = 0,
             a_account = [], a_owner = [] \<rparr>"

fun role_name :: "socket_role \<Rightarrow> string" where
  "role_name RDaemon = ''daemon''"
| "role_name RPhone = ''phone''"

fun mode_name :: "socket_mode \<Rightarrow> string" where
  "mode_name MHello = ''hello''"
| "mode_name MPairing = ''pairing''"
| "mode_name MSession = ''session''"

fun kind_name :: "bind_kind \<Rightarrow> string" where
  "kind_name KNone = ''none''"
| "kind_name KPairing = ''pairing''"
| "kind_name KResumehello = ''resumehello''"
| "kind_name KEstablished = ''established''"

definition read_role :: "json option \<Rightarrow> socket_role option" where
  "read_role j =
     (if j = Some (JStr ''daemon'') then Some RDaemon
      else if j = Some (JStr ''phone'') then Some RPhone else None)"

definition read_mode :: "json option \<Rightarrow> socket_mode option" where
  "read_mode j =
     (if j = Some (JStr ''hello'') then Some MHello
      else if j = Some (JStr ''pairing'') then Some MPairing
      else if j = Some (JStr ''session'') then Some MSession else None)"

definition read_kind :: "json option \<Rightarrow> bind_kind option" where
  "read_kind j =
     (if j = Some (JStr ''none'') then Some KNone
      else if j = Some (JStr ''pairing'') then Some KPairing
      else if j = Some (JStr ''resumehello'') then Some KResumehello
      else if j = Some (JStr ''established'') then Some KEstablished else None)"

definition readAttachment :: "json option \<Rightarrow> attachment option" where
  "readAttachment raw =
     (case raw of
        Some (JObj ob) \<Rightarrow>
          if jget ob ''v'' \<noteq> Some (JNum 2) then None
          else (case read_role (jget ob ''role'') of
              None \<Rightarrow> None
            | Some role \<Rightarrow>
                (case read_mode (jget ob ''mode'') of
                   None \<Rightarrow> None
                 | Some mode \<Rightarrow>
                     (case read_kind (jget ob ''kind'') of
                        None \<Rightarrow> None
                      | Some kind \<Rightarrow>
                          Some \<lparr> a_role = role, a_mode = mode, a_route_id = jstr ob ''route_id'',
                                 a_kind = kind, a_created_ms = jnum_or ob ''created_ms'' 0,
                                 a_hello_at_ms = jnum_or ob ''hello_at_ms'' 0,
                                 a_pair_ref = jstr ob ''pair_ref'',
                                 a_pair_frames = jnum_or ob ''pair_frames'' 0,
                                 a_account = jstr ob ''account'', a_owner = jstr ob ''owner'' \<rparr>)))
      | _ \<Rightarrow> None)"

text \<open>What \<^verbatim>\<open>serializeAttachment\<close> is given: the attachment as a plain object.\<close>

definition attachment_object :: "attachment \<Rightarrow> json" where
  "attachment_object a =
     JObj [(''v'', JNum 2), (''role'', JStr (role_name (a_role a))),
           (''mode'', JStr (mode_name (a_mode a))), (''route_id'', JStr (a_route_id a)),
           (''kind'', JStr (kind_name (a_kind a))), (''created_ms'', JNum (a_created_ms a)),
           (''hello_at_ms'', JNum (a_hello_at_ms a)), (''pair_ref'', JStr (a_pair_ref a)),
           (''pair_frames'', JNum (a_pair_frames a)), (''account'', JStr (a_account a)),
           (''owner'', JStr (a_owner a))]"

definition ownerMismatch :: "attachment \<Rightarrow> bool" where
  "ownerMismatch att =
     (if a_role att \<noteq> RPhone then False
      else if a_owner att = [] then False
      else a_account att = [] \<or> a_account att \<noteq> a_owner att)"

definition isRegisteredDaemon :: "attachment option \<Rightarrow> bool" where
  "isRegisteredDaemon att =
     (case att of None \<Rightarrow> False | Some a \<Rightarrow> a_role a = RDaemon \<and> a_hello_at_ms a > 0)"

fun needsConstructorSql :: "attachment list \<Rightarrow> bool" where
  "needsConstructorSql [] = False"
| "needsConstructorSql (a # as) =
     (if a_kind a = KPairing \<or> a_kind a = KResumehello then True
      else if a_mode a = MHello \<and> a_role a = RPhone then True
      else needsConstructorSql as)"

section \<open>Facts\<close>

lemma read_names:
  "read_role (Some (JStr (role_name r))) = Some r"
  "read_mode (Some (JStr (mode_name m))) = Some m"
  "read_kind (Some (JStr (kind_name k))) = Some k"
    apply (cases r; simp add: read_role_def)
   apply (cases m; simp add: read_mode_def)
  apply (cases k; simp add: read_kind_def)
  done

lemma readAttachment_object: "readAttachment (Some (attachment_object a)) = Some a"
  by (cases a) (simp add: readAttachment_def attachment_object_def jget_def jstr_def jnum_or_def read_names)

end
