(* ===== verification/Envelope.thy ===== *)
theory Envelope
  imports Bytes
begin

text \<open>
  The binary envelope: \<^verbatim>\<open>workers/pairfob-origin/src/envelope.ts\<close> (24-byte header,
  \<open>encode\<close>, \<open>decode\<close>, \<open>validateFrame\<close>) and the decoding half of
  \<^verbatim>\<open>workers/pairfob-origin/src/frames.ts\<close>. The lemmas show that encoding and decoding
  are inverse in both directions, and that the hot path \<open>decodeFwdMessage\<close>, which
  checks header bytes by hand, agrees with the reference decoder on every message.
\<close>

section \<open>Types and limits\<close>

definition Typ_HELLO_DAEMON :: nat where [simp]: "Typ_HELLO_DAEMON = 1"
definition Typ_HELLO_CLIENT :: nat where [simp]: "Typ_HELLO_CLIENT = 2"
definition Typ_PAIR_OPEN :: nat where [simp]: "Typ_PAIR_OPEN = 3"
definition Typ_PAIR_ATTACH :: nat where [simp]: "Typ_PAIR_ATTACH = 4"
definition Typ_FWD :: nat where [simp]: "Typ_FWD = 5"
definition Typ_PAIR_CLOSE :: nat where [simp]: "Typ_PAIR_CLOSE = 6"
definition Typ_ERROR :: nat where [simp]: "Typ_ERROR = 7"
definition Typ_PING :: nat where [simp]: "Typ_PING = 8"
definition Typ_PONG :: nat where [simp]: "Typ_PONG = 9"
definition Typ_PAIR_ATTACHED :: nat where [simp]: "Typ_PAIR_ATTACHED = 11"
definition Typ_SESSION_ATTACH :: nat where [simp]: "Typ_SESSION_ATTACH = 12"
definition Typ_SESSION_BOUND :: nat where [simp]: "Typ_SESSION_BOUND = 13"
definition Typ_DAEMON_REPLACED :: nat where [simp]: "Typ_DAEMON_REPLACED = 14"
definition Typ_SESSION_ESTABLISHED :: nat where [simp]: "Typ_SESSION_ESTABLISHED = 15"

definition KNOWN_TYPES :: "nat list" where
  "KNOWN_TYPES =
     [Typ_HELLO_DAEMON, Typ_HELLO_CLIENT, Typ_PAIR_OPEN, Typ_PAIR_ATTACH, Typ_FWD,
      Typ_PAIR_CLOSE, Typ_ERROR, Typ_PING, Typ_PONG, Typ_PAIR_ATTACHED,
      Typ_SESSION_ATTACH, Typ_SESSION_BOUND, Typ_DAEMON_REPLACED, Typ_SESSION_ESTABLISHED]"

definition ENVELOPE_VERSION :: nat where [simp]: "ENVELOPE_VERSION = 1"
definition HEADER_SIZE :: nat where [simp]: "HEADER_SIZE = 24"
definition MAX_PAYLOAD :: nat where [simp]: "MAX_PAYLOAD = 262144"

record frame =
  f_version :: nat
  f_typ :: nat
  f_flags :: nat
  f_routeId :: "byte list"
  f_payload :: "byte list"

definition knownType :: "nat \<Rightarrow> bool" where
  "knownType typ \<longleftrightarrow> typ \<in> set KNOWN_TYPES"

definition validateFrame :: "frame \<Rightarrow> exn + unit" where
  "validateFrame frame =
     (if f_version frame \<noteq> ENVELOPE_VERSION then Inl (Error ''unsupported envelope version'')
      else if f_flags frame \<noteq> 0 then Inl (Error ''unsupported envelope flags'')
      else if \<not> knownType (f_typ frame) then Inl (Error ''unknown envelope type'')
      else if length (f_routeId frame) \<noteq> 16 then Inl (Error ''route_id must be 16 bytes'')
      else if length (f_payload frame) > MAX_PAYLOAD then Inl (Error ''payload length exceeds'')
      else Inr ())"

section \<open>Encoding and decoding\<close>

text \<open>The \<^verbatim>\<open>DataView\<close> accessors used, big-endian.\<close>

definition setUint16 :: "nat \<Rightarrow> byte list" where
  "setUint16 n = [word_of_nat (n div 256), word_of_nat n]"

definition setUint32 :: "nat \<Rightarrow> byte list" where
  "setUint32 n =
     [word_of_nat (n div 16777216), word_of_nat (n div 65536), word_of_nat (n div 256), word_of_nat n]"

definition getUint16 :: "byte list \<Rightarrow> nat \<Rightarrow> nat" where
  "getUint16 bs i = unat (bs ! i) * 256 + unat (bs ! (i + 1))"

definition getUint32 :: "byte list \<Rightarrow> nat \<Rightarrow> nat" where
  "getUint32 bs i =
     unat (bs ! i) * 16777216 + unat (bs ! (i + 1)) * 65536 + unat (bs ! (i + 2)) * 256
       + unat (bs ! (i + 3))"

definition encode :: "frame \<Rightarrow> exn + byte list" where
  "encode frame =
     (case validateFrame frame of
        Inl e \<Rightarrow> Inl e
      | Inr _ \<Rightarrow> Inr ([word_of_nat (f_version frame), word_of_nat (f_typ frame)]
                    @ setUint16 (f_flags frame) @ setUint32 (length (f_payload frame))
                    @ f_routeId frame @ f_payload frame))"

definition decode :: "byte list \<Rightarrow> exn + frame" where
  "decode bytes =
     (if length bytes < HEADER_SIZE then Inl (Error ''short frame'')
      else let len = getUint32 bytes 4 in
        if len > MAX_PAYLOAD then Inl (Error ''length > MAX_PAYLOAD'')
        else if len + HEADER_SIZE \<noteq> length bytes then Inl (Error ''length mismatch'')
        else let frame = \<lparr> f_version = unat (bytes ! 0), f_typ = unat (bytes ! 1),
                           f_flags = getUint16 bytes 2,
                           f_routeId = take 16 (drop 8 bytes),
                           f_payload = drop HEADER_SIZE bytes \<rparr>
             in case validateFrame frame of Inl e \<Rightarrow> Inl e | Inr _ \<Rightarrow> Inr frame)"

section \<open>Messages\<close>

text \<open>A WebSocket message is text or binary (\<^verbatim>\<open>ArrayBuffer\<close> or \<^verbatim>\<open>Uint8Array\<close>).\<close>

datatype ws_message = TextMessage string | BinaryMessage "byte list"

fun asBytes :: "ws_message \<Rightarrow> byte list option" where
  "asBytes (TextMessage s) = None"
| "asBytes (BinaryMessage bs) = Some bs"

text \<open>
  The three results of \<^verbatim>\<open>decodeFwdMessage\<close>: \<^verbatim>\<open>undefined\<close> (not FWD), \<^verbatim>\<open>null\<close>
  (malformed FWD) and the validated wire bytes.
\<close>

datatype fwd_result = NotFwd | MalformedFwd | FwdWire "byte list"

definition decodeFwdMessage :: "ws_message \<Rightarrow> fwd_result" where
  "decodeFwdMessage message =
     (case asBytes message of
        None \<Rightarrow> NotFwd
      | Some wire \<Rightarrow>
          if length wire < 2 \<or> wire ! 1 \<noteq> word_of_nat Typ_FWD then NotFwd
          else if length wire < HEADER_SIZE \<or> wire ! 0 \<noteq> word_of_nat ENVELOPE_VERSION
                  \<or> wire ! 2 \<noteq> 0 \<or> wire ! 3 \<noteq> 0 then MalformedFwd
          else let payloadLength =
                     unat (wire ! 4) * 16777216 + unat (wire ! 5) * 65536 + unat (wire ! 6) * 256
                       + unat (wire ! 7)
               in if payloadLength > MAX_PAYLOAD \<or> length wire \<noteq> HEADER_SIZE + payloadLength
                  then MalformedFwd else FwdWire wire)"

definition decodeMessage :: "ws_message \<Rightarrow> (frame \<times> byte list) option" where
  "decodeMessage message =
     (case asBytes message of
        None \<Rightarrow> None
      | Some wire \<Rightarrow> (case decode wire of Inl _ \<Rightarrow> None | Inr frame \<Rightarrow> Some (frame, wire)))"

text \<open>\<^verbatim>\<open>forwardWire\<close> of \<^verbatim>\<open>room/fwd.ts\<close> overwrites the header's route in place.\<close>

definition set_route :: "byte list \<Rightarrow> byte list \<Rightarrow> byte list" where
  "set_route routeId wire = take 8 wire @ routeId @ drop (8 + length routeId) wire"

section \<open>Facts\<close>

lemma unat_byte_lt: "unat (b :: byte) < 256"
proof -
  have "unat b < 2 ^ LENGTH(8)" by (rule unsigned_less)
  then show ?thesis by simp
qed

lemma unat_byte_of_nat [simp]: "unat (word_of_nat n :: byte) = n mod 256"
  by (simp add: unat_of_nat)

lemma length_setUint [simp]: "length (setUint16 n) = 2" "length (setUint32 n) = 4"
  by (simp_all add: setUint16_def setUint32_def)

lemma knownType_lt: "knownType t \<Longrightarrow> t < 256"
  by (auto simp: knownType_def KNOWN_TYPES_def)

lemma validateFrame_ok:
  "validateFrame f = Inr () \<longleftrightarrow>
     f_version f = 1 \<and> f_flags f = 0 \<and> knownType (f_typ f) \<and> length (f_routeId f) = 16 \<and>
     length (f_payload f) \<le> 262144"
  by (auto simp: validateFrame_def)

lemma uint32_split:
  assumes "n < 4294967296"
  shows "n div 16777216 * 16777216 + n div 65536 mod 256 * 65536
           + n div 256 mod 256 * 256 + n mod 256 = (n :: nat)"
    and "n div 16777216 mod 256 = n div 16777216"
proof -
  have 1: "n = 256 * (n div 256) + n mod 256" by simp
  have 2: "n div 256 = 256 * (n div 65536) + n div 256 mod 256"
    using mult_div_mod_eq [of 256 "n div 256"] by (simp add: div_mult2_eq [symmetric])
  have 3: "n div 65536 = 256 * (n div 16777216) + n div 65536 mod 256"
    using mult_div_mod_eq [of 256 "n div 65536"] by (simp add: div_mult2_eq [symmetric])
  show "n div 16777216 * 16777216 + n div 65536 mod 256 * 65536
           + n div 256 mod 256 * 256 + n mod 256 = n"
    using 1 2 3 by linarith
  have "n div 16777216 < 256" using assms by (simp add: div_less_iff_less_mult)
  then show "n div 16777216 mod 256 = n div 16777216" by simp
qed

lemma getUint32_setUint32:
  assumes "n < 4294967296"
  shows "getUint32 (x # y # z # w # setUint32 n @ bs) 4 = n"
  using uint32_split [OF assms] by (simp add: getUint32_def setUint32_def del: mod_div_trivial)

lemma uint32_bytes_inj:
  fixes a b c d :: byte
  shows "setUint32 (unat a * 16777216 + unat b * 65536 + unat c * 256 + unat d) = [a, b, c, d]"
    (is "setUint32 ?n = _")
proof -
  have lt: "unat a < 256" "unat b < 256" "unat c < 256" "unat d < 256"
    by (rule unat_byte_lt)+
  have 1: "?n div 256 = unat a * 65536 + unat b * 256 + unat c"
    using lt(4) by (simp add: div_eq_dividend_iff)
  have 2: "?n div 65536 = unat a * 256 + unat b"
    using lt(3) 1 div_mult2_eq [of ?n 256 256] by simp
  have 3: "?n div 16777216 = unat a"
    using lt(2) 2 div_mult2_eq [of ?n 65536 256] by simp
  have w: "word_of_nat (x * 256 + unat e) = (e :: byte)" for x e
    by (simp only: word_unat_eq_iff unat_byte_of_nat) (simp add: unat_byte_lt)
  have "word_of_nat ?n = d" using w [of "unat a * 65536 + unat b * 256 + unat c" d] by (simp add: algebra_simps)
  moreover have "word_of_nat (?n div 256) = c"
    unfolding 1 using w [of "unat a * 256 + unat b" c] by (simp add: algebra_simps)
  moreover have "word_of_nat (?n div 65536) = b" unfolding 2 by (rule w)
  moreover have "word_of_nat (?n div 16777216) = a" unfolding 3 by simp
  ultimately show ?thesis by (simp only: setUint32_def)
qed

lemma decode_encode:
  assumes "encode f = Inr bs"
  shows "decode bs = Inr f"
proof -
  from assms have v: "validateFrame f = Inr ()"
    and bs: "bs = [word_of_nat (f_version f), word_of_nat (f_typ f)] @ setUint16 (f_flags f)
                  @ setUint32 (length (f_payload f)) @ f_routeId f @ f_payload f"
    by (auto simp: encode_def split: sum.splits)
  from v have ok: "f_version f = 1" "f_flags f = 0" "f_typ f < 256" "length (f_routeId f) = 16"
      "length (f_payload f) \<le> 262144"
    by (auto simp: validateFrame_ok knownType_lt)
  have len: "getUint32 bs 4 = length (f_payload f)"
    using ok getUint32_setUint32 by (simp add: bs setUint16_def)
  have "getUint16 bs 2 = 0" "take 16 (drop 8 bs) = f_routeId f" "drop 24 bs = f_payload f"
      "unat (bs ! 0) = 1" "unat (bs ! 1) = f_typ f" "length bs = length (f_payload f) + 24"
    using ok by (simp_all add: bs setUint16_def setUint32_def getUint16_def)
  moreover obtain t r p where f: "f = \<lparr> f_version = 1, f_typ = t, f_flags = 0, f_routeId = r, f_payload = p \<rparr>"
    using ok by (cases f) auto
  ultimately show ?thesis
    using len ok v unfolding f by (simp add: decode_def Let_def)
qed

lemma header_bytes:
  assumes "8 \<le> length bs"
  shows "take 8 bs = [bs ! 0, bs ! 1, bs ! 2, bs ! 3, bs ! 4, bs ! 5, bs ! 6, bs ! 7]"
proof -
  have "take 8 bs = map ((!) bs) [0..<8]"
    using assms by (intro nth_equalityI) simp_all
  moreover have "[0..<8] = [0, 1, 2, 3, 4, 5, 6, 7 :: nat]" by code_simp
  ultimately show ?thesis by simp
qed

lemma encode_decode:
  assumes "decode bs = Inr f"
  shows "encode f = Inr bs"
proof -
  from assms have len: "24 \<le> length bs" and plen: "getUint32 bs 4 + 24 = length bs"
    and v: "validateFrame f = Inr ()"
    and f: "f = \<lparr> f_version = unat (bs ! 0), f_typ = unat (bs ! 1), f_flags = getUint16 bs 2,
                  f_routeId = take 16 (drop 8 bs), f_payload = drop 24 bs \<rparr>"
    by (auto simp: decode_def Let_def split: if_splits sum.splits)
  from v have flags: "unat (bs ! 2) = 0" "unat (bs ! 3) = 0"
    by (auto simp: validateFrame_ok f getUint16_def)
  have "length (drop 24 bs) = getUint32 bs 4" using plen by simp
  then have "setUint32 (length (drop 24 bs)) = [bs ! 4, bs ! 5, bs ! 6, bs ! 7]"
    using uint32_bytes_inj by (simp add: getUint32_def)
  moreover have "setUint16 (getUint16 bs 2) = [bs ! 2, bs ! 3]"
    using flags by (simp add: getUint16_def setUint16_def unsigned_eq_0_iff)
  ultimately have "encode f = Inr (take 8 bs @ take 16 (drop 8 bs) @ drop 24 bs)"
    using v len by (simp add: encode_def f header_bytes)
  moreover have "drop 8 bs = take 16 (drop 8 bs) @ drop 24 bs"
    using append_take_drop_id [of 16 "drop 8 bs"] by simp
  ultimately show ?thesis
    by (metis append_take_drop_id)
qed

lemma decode_Inr_iff: "decode bs = Inr f \<longleftrightarrow> encode f = Inr bs"
  by (blast intro: decode_encode encode_decode)

subsection \<open>The forwarding fast path\<close>

lemma unat_eq_iff_byte: "n < 256 \<Longrightarrow> unat (b :: byte) = n \<longleftrightarrow> b = word_of_nat n"
  by (auto simp: word_unat_eq_iff)

lemma decode_fwd_conditions:
  assumes "2 \<le> length w" and "w ! 1 = word_of_nat Typ_FWD"
  shows "(\<exists>f. decode w = Inr f) \<longleftrightarrow>
    24 \<le> length w \<and> w ! 0 = word_of_nat ENVELOPE_VERSION \<and> w ! 2 = 0 \<and> w ! 3 = 0 \<and>
    getUint32 w 4 \<le> MAX_PAYLOAD \<and> length w = HEADER_SIZE + getUint32 w 4"
proof -
  have ty: "unat (w ! 1) = 5" using assms(2) by (subst unat_eq_iff_byte) auto
  have known: "knownType 5" by (simp add: knownType_def KNOWN_TYPES_def)
  have ver: "unat (w ! 0) = 1 \<longleftrightarrow> w ! 0 = word_of_nat ENVELOPE_VERSION"
    by (subst unat_eq_iff_byte) auto
  have fl: "getUint16 w 2 = 0 \<longleftrightarrow> w ! 2 = 0 \<and> w ! 3 = 0"
    by (auto simp: getUint16_def unsigned_eq_0_iff)
  show ?thesis
    unfolding ver [symmetric] fl [symmetric] conj_assoc [symmetric]
    using ty known
    by (auto simp: decode_def Let_def validateFrame_def)
qed

lemma decodeFwdMessage_reference:
  "decodeFwdMessage m =
     (case asBytes m of
        None \<Rightarrow> NotFwd
      | Some w \<Rightarrow>
          if length w < 2 \<or> w ! 1 \<noteq> word_of_nat Typ_FWD then NotFwd
          else case decode w of Inl _ \<Rightarrow> MalformedFwd | Inr _ \<Rightarrow> FwdWire w)"
proof (cases "asBytes m")
  case None
  then show ?thesis by (simp add: decodeFwdMessage_def)
next
  case (Some w)
  show ?thesis
  proof (cases "length w < 2 \<or> w ! 1 \<noteq> word_of_nat Typ_FWD")
    case True
    with Some show ?thesis by (simp add: decodeFwdMessage_def)
  next
    case False
    then have "2 \<le> length w" "w ! 1 = word_of_nat Typ_FWD" by auto
    from decode_fwd_conditions [OF this] have "(\<exists>f. decode w = Inr f) \<longleftrightarrow>
        24 \<le> length w \<and> w ! 0 = word_of_nat ENVELOPE_VERSION \<and> w ! 2 = 0 \<and> w ! 3 = 0 \<and>
        getUint32 w 4 \<le> MAX_PAYLOAD \<and> length w = HEADER_SIZE + getUint32 w 4" .
    with Some False show ?thesis
      by (cases "decode w") (auto simp: decodeFwdMessage_def getUint32_def Let_def)
  qed
qed

text \<open>
  Rewriting the route touches nothing but the sixteen route bytes: a decodable wire stays
  decodable, with the new route and the old type, flags and payload.
\<close>

lemma decode_set_route:
  assumes "decode w = Inr f" and "length rid = 16"
  shows "decode (set_route rid w) = Inr (f\<lparr>f_routeId := rid\<rparr>)"
proof -
  from assms(1) have enc: "encode f = Inr w" by (rule encode_decode)
  then have v: "validateFrame f = Inr ()" by (auto simp: encode_def split: sum.splits)
  then have l: "length (f_routeId f) = 16" by (simp add: validateFrame_ok)
  have "validateFrame (f\<lparr>f_routeId := rid\<rparr>) = Inr ()"
    using v assms(2) by (simp add: validateFrame_ok)
  then have "encode (f\<lparr>f_routeId := rid\<rparr>) = Inr (set_route rid w)"
    using enc v l assms(2) by (auto simp: encode_def set_route_def setUint16_def setUint32_def)
  then show ?thesis by (rule decode_encode)
qed

end
