(* ===== verification/Http.thy ===== *)
theory Http
  imports Json Constants "HOL-Library.AList"
begin

text \<open>
  Requests, responses and header rules of \<^verbatim>\<open>workers/pairfob-origin/src/http.ts\<close>. A \<^verbatim>\<open>Headers\<close>
  object is an association list keyed by lower-cased names, a response body is the JSON
  value handed to \<^verbatim>\<open>JSON.stringify\<close>. The platform's URL parser is the argument
  \<open>parse_url\<close> of the functions that call it. The facts say that every JSON answer carries
  the security headers and what a same-host origin check accepts.
\<close>

section \<open>Data\<close>

definition toLower :: "char \<Rightarrow> char" where
  "toLower c = (let n = of_char c :: nat in if 65 \<le> n \<and> n \<le> 90 then char_of (n + 32) else c)"

definition lower :: "string \<Rightarrow> string" where
  "lower s = map toLower s"

type_synonym headers = "(string \<times> string) list"

record url =
  u_protocol :: string
  u_username :: string
  u_password :: string
  u_host :: string
  u_pathname :: string
  u_search :: string
  u_hash :: string

record request =
  rq_method :: string
  rq_host :: string
  rq_path :: string
  rq_query :: "(string \<times> string) list"
  rq_headers :: headers
  rq_text :: string

record response =
  rs_status :: nat
  rs_headers :: headers
  rs_body :: "json option"
  rs_socket :: bool

definition headers_get :: "headers \<Rightarrow> string \<Rightarrow> string option" where
  "headers_get hs k = map_of hs (lower k)"

definition headers_set :: "string \<Rightarrow> string \<Rightarrow> headers \<Rightarrow> headers" where
  "headers_set k v hs = AList.update (lower k) v hs"

fun headers_set_all :: "(string \<times> string) list \<Rightarrow> headers \<Rightarrow> headers" where
  "headers_set_all [] hs = hs"
| "headers_set_all ((k, v) # kvs) hs = headers_set_all kvs (headers_set k v hs)"

text \<open>\<^verbatim>\<open>req.headers.get(name) || d\<close>: the empty string counts as absent.\<close>

definition header_or :: "request \<Rightarrow> string \<Rightarrow> string \<Rightarrow> string" where
  "header_or req k d = (case headers_get (rq_headers req) k of None \<Rightarrow> d | Some v \<Rightarrow> if v = [] then d else v)"

section \<open>Responses\<close>

definition CSP :: string where
  "CSP = ''default-src 'self'; connect-src 'self'; img-src 'self' data: blob:; media-src blob:; style-src 'self' https://fonts.googleapis.com 'sha256-47DEQpj8HBSa+/TImW+5JCeuQeRkm5NMpJWZG3hSuFU=' 'sha256-JVKkopR5uGguAsHA+8LKNHePLgO6ntgrlxTcOIvoM4w='; font-src 'self' https://fonts.gstatic.com; script-src 'self' 'wasm-unsafe-eval'; worker-src 'self'; frame-ancestors 'none'; base-uri 'self'; form-action 'self'; object-src 'none'; upgrade-insecure-requests;''"

definition SUBPROTOCOL :: string where
  "SUBPROTOCOL = ''pairfob.v2''"

definition applySecurityHeaders :: "string \<Rightarrow> headers \<Rightarrow> headers" where
  "applySecurityHeaders build hs =
     headers_set_all
       [(''X-Pairfob-Build'', build), (''Content-Security-Policy'', CSP),
        (''X-Content-Type-Options'', ''nosniff''), (''X-Frame-Options'', ''DENY''),
        (''Referrer-Policy'', ''no-referrer''),
        (''Permissions-Policy'', ''camera=(self), microphone=(), geolocation=()'')] hs"

definition jsonResponse :: "string \<Rightarrow> nat \<Rightarrow> json \<Rightarrow> (string \<times> string) list \<Rightarrow> response" where
  "jsonResponse build status body extra =
     \<lparr> rs_status = status,
       rs_headers = headers_set_all extra (applySecurityHeaders build (headers_set ''Content-Type'' ''application/json'' [])),
       rs_body = Some body, rs_socket = False \<rparr>"

definition noStore :: "(string \<times> string) list \<Rightarrow> (string \<times> string) list" where
  "noStore extra = (''Cache-Control'', ''no-store'') # extra"

definition ok_false :: "jobject \<Rightarrow> json" where
  "ok_false error = JObj [(''ok'', JBool False), (''error'', JObj error)]"

definition errorJson :: "string \<Rightarrow> nat \<Rightarrow> string \<Rightarrow> (string \<times> string) list \<Rightarrow> response" where
  "errorJson build status code extra = jsonResponse build status (ok_false [(''code'', JStr code)]) extra"

definition errorJsonWithDetail ::
    "string \<Rightarrow> nat \<Rightarrow> string \<Rightarrow> jobject \<Rightarrow> (string \<times> string) list \<Rightarrow> response" where
  "errorJsonWithDetail build status code detail extra =
     jsonResponse build status (ok_false ((''code'', JStr code) # detail)) extra"

definition unpairedJson :: "string \<Rightarrow> (string \<times> string) list \<Rightarrow> response" where
  "unpairedJson build extra = errorJson build 404 ''unpaired'' extra"

definition withSecurity :: "string \<Rightarrow> response \<Rightarrow> (string \<times> string) list \<Rightarrow> response" where
  "withSecurity build res extra =
     \<lparr> rs_status = rs_status res,
       rs_headers = headers_set_all extra (applySecurityHeaders build (rs_headers res)),
       rs_body = (if rs_status res = 101 then None else rs_body res), rs_socket = rs_socket res \<rparr>"

section \<open>Requests\<close>

definition clientIP :: "request \<Rightarrow> string" where
  "clientIP req = header_or req ''CF-Connecting-IP'' ''127.0.0.1''"

definition requestHost :: "request \<Rightarrow> string" where
  "requestHost req = header_or req ''Host'' (rq_host req)"

definition originValue :: "request \<Rightarrow> string option" where
  "originValue req = headers_get (rq_headers req) ''Origin''"

definition isSameHostOrigin :: "(string \<Rightarrow> url option) \<Rightarrow> request \<Rightarrow> bool" where
  "isSameHostOrigin parse_url req =
     (case originValue req of
        None \<Rightarrow> True
      | Some origin \<Rightarrow>
          if origin = [] then True
          else case parse_url origin of
              None \<Rightarrow> False
            | Some u \<Rightarrow>
                if (u_protocol u \<noteq> ''http:'' \<and> u_protocol u \<noteq> ''https:'') \<or> u_username u \<noteq> [] \<or> u_password u \<noteq> [] then False
                else if u_pathname u \<noteq> ''/'' \<and> u_pathname u \<noteq> [] then False
                else if u_search u \<noteq> [] \<or> u_hash u \<noteq> [] then False
                else if u_host u = [] then False
                else lower (u_host u) = lower (requestHost req))"

definition hasBrowserOrigin :: "request \<Rightarrow> bool" where
  "hasBrowserOrigin req \<longleftrightarrow> originValue req \<noteq> None \<and> originValue req \<noteq> Some []"

definition requireSameHostBrowserOrigin :: "(string \<Rightarrow> url option) \<Rightarrow> request \<Rightarrow> bool" where
  "requireSameHostBrowserOrigin parse_url req =
     (if originValue req = None \<or> originValue req = Some [] then False else isSameHostOrigin parse_url req)"

fun split_comma :: "string \<Rightarrow> string list" where
  "split_comma [] = [[]]"
| "split_comma (c # cs) =
     (if c = CHR '','' then [] # split_comma cs
      else case split_comma cs of [] \<Rightarrow> [[c]] | w # ws \<Rightarrow> (c # w) # ws)"

definition offeredSubprotocol :: "request \<Rightarrow> string \<Rightarrow> bool" where
  "offeredSubprotocol req name \<longleftrightarrow>
     name \<in> set (map js_trim (split_comma (header_or req ''Sec-WebSocket-Protocol'' [])))"

definition wantsUpgrade :: "request \<Rightarrow> bool" where
  "wantsUpgrade req \<longleftrightarrow> lower (header_or req ''Upgrade'' []) = ''websocket''"

definition readJSON :: "request \<Rightarrow> jobject option" where
  "readJSON req =
     (if rq_text req = [] then None
      else case JSON_parse (rq_text req) of Some (JObj ob) \<Rightarrow> Some ob | _ \<Rightarrow> None)"

text \<open>\<^verbatim>\<open>/^Bearer\s+(\S+)/i\<close>\<close>

definition bearerToken :: "request \<Rightarrow> string option" where
  "bearerToken req =
     (let h = header_or req ''Authorization'' []; rest = drop 6 h;
          token = takeWhile (\<lambda>c. \<not> is_js_space c) (dropWhile is_js_space rest)
      in if lower (take 6 h) = ''bearer'' \<and> rest \<noteq> [] \<and> is_js_space (rest ! 0) \<and> token \<noteq> []
         then Some token else None)"

text \<open>A field of a request body that may be missing: \<^verbatim>\<open>typeof body?.k === "string" ? body.k : ""\<close>.\<close>

definition body_str :: "jobject option \<Rightarrow> string \<Rightarrow> string" where
  "body_str body k = (case body of None \<Rightarrow> [] | Some ob \<Rightarrow> jstr ob k)"

definition query_get :: "request \<Rightarrow> string \<Rightarrow> string option" where
  "query_get req k = map_of (rq_query req) k"

definition ok_true :: json where
  "ok_true = JObj [(''ok'', JBool True)]"

section \<open>The access decision carried inward\<close>

text \<open>\<^verbatim>\<open>accessHeaders\<close> and \<^verbatim>\<open>readAccess\<close> of \<^verbatim>\<open>account-authz.ts\<close>.\<close>

record device_access =
  da_account :: string
  da_owner :: string
  da_allowed :: bool

definition ACCOUNT_HEADER :: string where
  "ACCOUNT_HEADER = ''X-Pairfob-Account''"

definition DEVICE_OWNER_HEADER :: string where
  "DEVICE_OWNER_HEADER = ''X-Pairfob-Device-Owner''"

definition accessHeaders :: "request \<Rightarrow> device_access \<Rightarrow> request" where
  "accessHeaders req access =
     req\<lparr>rq_headers := headers_set DEVICE_OWNER_HEADER (da_owner access)
                         (headers_set ACCOUNT_HEADER (da_account access) (rq_headers req))\<rparr>"

definition readAccess :: "request \<Rightarrow> string \<times> string" where
  "readAccess req =
     ((case headers_get (rq_headers req) ACCOUNT_HEADER of None \<Rightarrow> [] | Some v \<Rightarrow> v),
      (case headers_get (rq_headers req) DEVICE_OWNER_HEADER of None \<Rightarrow> [] | Some v \<Rightarrow> v))"

section \<open>Facts\<close>

lemma headers_get_set:
  "headers_get (headers_set k v hs) k' = (if lower k' = lower k then Some v else headers_get hs k')"
  by (simp add: headers_get_def headers_set_def update_conv')

lemma headers_get_set_all_notin:
  "lower k \<notin> lower ` fst ` set kvs \<Longrightarrow> headers_get (headers_set_all kvs hs) k = headers_get hs k"
  by (induction kvs hs rule: headers_set_all.induct) (auto simp: headers_get_set)

lemma security_headers_kept:
  assumes "lower ''X-Frame-Options'' \<notin> lower ` fst ` set extra"
    and "lower ''Content-Security-Policy'' \<notin> lower ` fst ` set extra"
  shows "headers_get (headers_set_all extra (applySecurityHeaders build hs)) ''X-Frame-Options'' = Some ''DENY''"
    and "headers_get (headers_set_all extra (applySecurityHeaders build hs)) ''Content-Security-Policy'' = Some CSP"
  using assms
  by (simp_all add: headers_get_set_all_notin applySecurityHeaders_def headers_get_set lower_def toLower_def)

lemma readAccess_accessHeaders: "readAccess (accessHeaders req access) = (da_account access, da_owner access)"
  by (simp add: readAccess_def accessHeaders_def headers_get_set ACCOUNT_HEADER_def DEVICE_OWNER_HEADER_def
      lower_def toLower_def)

lemma requireSameHostBrowserOrigin_iff:
  "requireSameHostBrowserOrigin parse_url req \<longleftrightarrow> hasBrowserOrigin req \<and> isSameHostOrigin parse_url req"
  by (simp add: requireSameHostBrowserOrigin_def hasBrowserOrigin_def)

end
