(* ===== verification/PairIndex.thy ===== *)
theory PairIndex
  imports Http
begin

text \<open>
  The rendezvous index: \<^verbatim>\<open>IndexCore\<close> and \<^verbatim>\<open>PairingIndex\<close> of
  \<^verbatim>\<open>workers/pairfob-origin/src/index/pairing-index.ts\<close> and the room's client
  \<^verbatim>\<open>index/client.ts\<close>. A shard keeps its rows in memory and mirrors every change to the
  table \<^verbatim>\<open>locs\<close>; the namespace of shards is a function from shard names. The locale
  \<open>pair_index\<close> is the contract the rooms rely on; the facts say that a live entry is
  safe from every other owner and that a restarted shard answers as before.
\<close>

section \<open>IndexCore\<close>

record loc_row =
  l_pair_loc :: string
  l_daemon_id :: string
  l_pair_ref :: string
  l_exp :: number

record index_core =
  ix_rows :: "string \<rightharpoonup> loc_row"
  ix_disk :: "string \<rightharpoonup> loc_row"

datatype insert_result = IOk | IConflict | IFail

text \<open>The constructor: what the table holds is loaded over an empty map.\<close>

definition new_IndexCore :: "(string \<rightharpoonup> loc_row) \<Rightarrow> index_core" where
  "new_IndexCore disk = \<lparr> ix_rows = Map.empty ++ disk, ix_disk = disk \<rparr>"

definition index_lookup :: "number \<Rightarrow> string \<Rightarrow> index_core \<Rightarrow> loc_row option \<times> index_core" where
  "index_lookup now loc ix =
     (case ix_rows ix loc of
        None \<Rightarrow> (None, ix)
      | Some row \<Rightarrow>
          if l_exp row \<le> now
          then (None, ix\<lparr>ix_rows := (ix_rows ix)(loc := None), ix_disk := (ix_disk ix)(loc := None)\<rparr>)
          else (Some row, ix))"

definition index_insert :: "number \<Rightarrow> loc_row \<Rightarrow> index_core \<Rightarrow> insert_result \<times> index_core" where
  "index_insert now row ix =
     (let loc = l_pair_loc row;
          put = (\<lambda>r. ix\<lparr>ix_rows := (ix_rows ix)(loc \<mapsto> r), ix_disk := (ix_disk ix)(l_pair_loc r \<mapsto> r)\<rparr>)
      in case ix_rows ix loc of
           None \<Rightarrow> (IOk, put row)
         | Some existing \<Rightarrow>
             if l_exp existing \<le> now then (IOk, put row)
             else if l_daemon_id existing = l_daemon_id row \<and> l_pair_ref existing = l_pair_ref row
             then (IOk, put (existing\<lparr>l_exp := l_exp row\<rparr>))
             else (IConflict, ix))"

definition index_remove :: "string \<Rightarrow> string \<Rightarrow> string \<Rightarrow> index_core \<Rightarrow> index_core" where
  "index_remove loc daemon_id pair_ref ix =
     (case ix_rows ix loc of
        None \<Rightarrow> ix
      | Some existing \<Rightarrow>
          if l_daemon_id existing \<noteq> daemon_id \<or> l_pair_ref existing \<noteq> pair_ref then ix
          else ix\<lparr>ix_rows := (ix_rows ix)(loc := None), ix_disk := (ix_disk ix)(loc := None)\<rparr>)"

definition loc_row_json :: "loc_row \<Rightarrow> jobject" where
  "loc_row_json row =
     [(''pair_loc'', JStr (l_pair_loc row)), (''daemon_id'', JStr (l_daemon_id row)),
      (''pair_ref'', JStr (l_pair_ref row)), (''exp'', JNum (l_exp row))]"

text \<open>\<^verbatim>\<open>IndexCore.fetch\<close> on a decoded body; an unreadable body is the empty object.\<close>

definition index_fetch ::
    "number \<Rightarrow> string \<Rightarrow> string \<Rightarrow> jobject option \<Rightarrow> index_core \<Rightarrow> response \<times> index_core" where
  "index_fetch now path rmethod body ix =
     (let ob = (case body of None \<Rightarrow> [] | Some b \<Rightarrow> b);
          locRaw = jstr ob ''pair_loc'';
          loc = (case normalizeLoc locRaw of None \<Rightarrow> locRaw | Some l \<Rightarrow> l)
      in if path = ''/lookup'' \<and> rmethod = ''POST'' then
           (case index_lookup now loc ix of
              (None, ix') \<Rightarrow> (jsonResponse ''dev'' 404 (ok_false [(''code'', JStr ''unpaired'')]) [], ix')
            | (Some row, ix') \<Rightarrow>
                (jsonResponse ''dev'' 200 (JObj ((''ok'', JBool True) # loc_row_json row)) [], ix'))
         else if path = ''/insert'' \<and> rmethod = ''POST'' then
           (case index_insert now \<lparr> l_pair_loc = loc, l_daemon_id = jstr ob ''daemon_id'',
                    l_pair_ref = jstr ob ''pair_ref'', l_exp = jnum_or ob ''exp'' 0 \<rparr> ix of
              (r, ix') \<Rightarrow>
                (if r = IConflict then jsonResponse ''dev'' 409 (ok_false [(''code'', JStr ''conflict'')]) []
                 else jsonResponse ''dev'' 200 ok_true [], ix'))
         else if path = ''/delete'' \<and> rmethod = ''POST'' then
           (jsonResponse ''dev'' 200 ok_true [], index_remove loc (jstr ob ''daemon_id'') (jstr ob ''pair_ref'') ix)
         else (jsonResponse ''dev'' 404 (ok_false [(''code'', JStr ''unbound'')]) [], ix))"

section \<open>The client\<close>

text \<open>
  A namespace maps a shard name to its index. \<open>down\<close> says for which shards the platform
  fails the call. The request body travels as JSON text, which the model passes as the
  object it encodes.
\<close>

type_synonym index_ns = "string \<Rightarrow> index_core"

definition stub_fetch ::
    "(string \<Rightarrow> bool) \<Rightarrow> number \<Rightarrow> string \<Rightarrow> string \<Rightarrow> jobject \<Rightarrow> index_ns \<Rightarrow> (exn + response) \<times> index_ns" where
  "stub_fetch down now loc path body ns =
     (let name = indexName loc in
      if down name then (Inl (Error ''fetch failed''), ns)
      else case index_fetch now path ''POST'' (Some body) (ns name) of
          (res, ix) \<Rightarrow> (Inr res, ns(name := ix)))"

definition client_lookup ::
    "(string \<Rightarrow> bool) \<Rightarrow> number \<Rightarrow> string \<Rightarrow> index_ns \<Rightarrow> (exn + (string \<times> string \<times> number) option) \<times> index_ns" where
  "client_lookup down now loc ns =
     (case stub_fetch down now loc ''/lookup'' [(''pair_loc'', JStr loc)] ns of
        (Inl e, ns') \<Rightarrow> (Inl e, ns')
      | (Inr res, ns') \<Rightarrow>
          if \<not> (200 \<le> rs_status res \<and> rs_status res < 300) then (Inr None, ns')
          else case rs_body res of
              Some (JObj j) \<Rightarrow>
                if jget j ''ok'' \<noteq> Some (JBool True) \<or> jstr j ''daemon_id'' = [] \<or> jstr j ''pair_ref'' = []
                then (Inr None, ns')
                else (Inr (Some (jstr j ''daemon_id'', jstr j ''pair_ref'', jnum_or j ''exp'' 0)), ns')
            | _ \<Rightarrow> (Inr None, ns'))"

definition client_insert ::
    "(string \<Rightarrow> bool) \<Rightarrow> number \<Rightarrow> loc_row \<Rightarrow> index_ns \<Rightarrow> insert_result \<times> index_ns" where
  "client_insert down now row ns =
     (case stub_fetch down now (l_pair_loc row) ''/insert'' (loc_row_json row) ns of
        (Inl e, ns') \<Rightarrow> (IFail, ns')
      | (Inr res, ns') \<Rightarrow>
          if rs_status res = 409 then (IConflict, ns')
          else if \<not> (200 \<le> rs_status res \<and> rs_status res < 300) then (IFail, ns')
          else (IOk, ns'))"

definition client_remove ::
    "(string \<Rightarrow> bool) \<Rightarrow> number \<Rightarrow> string \<Rightarrow> string \<Rightarrow> string \<Rightarrow> index_ns \<Rightarrow> index_ns" where
  "client_remove down now pair_loc daemon_id pair_ref ns =
     snd (stub_fetch down now pair_loc ''/delete''
       [(''pair_loc'', JStr pair_loc), (''daemon_id'', JStr daemon_id), (''pair_ref'', JStr pair_ref)] ns)"

section \<open>The contract of an index\<close>

text \<open>
  The calls an index serves, each at its time. A call is harmless for an entry when it
  happens before the entry expires and is not an insertion or removal at its place by its
  own owner.
\<close>

datatype index_call = ILookup number string | IInsert number loc_row | IRemove string string string

fun harmless :: "string \<Rightarrow> loc_row \<Rightarrow> index_call \<Rightarrow> bool" where
  "harmless loc row (ILookup now l) = (now < l_exp row)"
| "harmless loc row (IInsert now r) =
     (now < l_exp row \<and> (l_pair_loc r = loc \<longrightarrow> (l_daemon_id row, l_pair_ref row) \<noteq> (l_daemon_id r, l_pair_ref r)))"
| "harmless loc row (IRemove l d p) = (l = loc \<longrightarrow> (l_daemon_id row, l_pair_ref row) \<noteq> (d, p))"

text \<open>
  What a room needs: an entry, once accepted, is found until it expires or its owner
  takes it back; nobody else can replace or remove it while it lives.
\<close>

locale pair_index =
  fixes entry :: "'ix \<Rightarrow> string \<rightharpoonup> loc_row"
    and lookup :: "number \<Rightarrow> string \<Rightarrow> 'ix \<Rightarrow> loc_row option \<times> 'ix"
    and insert_row :: "number \<Rightarrow> loc_row \<Rightarrow> 'ix \<Rightarrow> insert_result \<times> 'ix"
    and remove_row :: "string \<Rightarrow> string \<Rightarrow> string \<Rightarrow> 'ix \<Rightarrow> 'ix"
  assumes lookup_live: "entry ix loc = Some row \<Longrightarrow> now < l_exp row \<Longrightarrow> lookup now loc ix = (Some row, ix)"
    and lookup_dead: "\<not> (\<exists>row. entry ix loc = Some row \<and> now < l_exp row) \<Longrightarrow> fst (lookup now loc ix) = None"
    and lookup_other: "entry ix l = Some row \<Longrightarrow> now < l_exp row \<Longrightarrow> entry (snd (lookup now loc ix)) l = Some row"
    and insert_foreign:
      "entry ix (l_pair_loc row) = Some old \<Longrightarrow> now < l_exp old \<Longrightarrow>
         (l_daemon_id old, l_pair_ref old) \<noteq> (l_daemon_id row, l_pair_ref row) \<Longrightarrow>
         insert_row now row ix = (IConflict, ix)"
    and insert_other: "l \<noteq> l_pair_loc row \<Longrightarrow> entry (snd (insert_row now row ix)) l = entry ix l"
    and insert_ok:
      "fst (insert_row now row ix) = IOk \<Longrightarrow>
         \<exists>r. entry (snd (insert_row now row ix)) (l_pair_loc row) = Some r \<and>
             l_daemon_id r = l_daemon_id row \<and> l_pair_ref r = l_pair_ref row \<and> l_exp r = l_exp row"
    and remove_foreign:
      "entry ix loc = Some old \<Longrightarrow> (l_daemon_id old, l_pair_ref old) \<noteq> (d, p) \<Longrightarrow> remove_row loc d p ix = ix"
    and remove_other: "l \<noteq> loc \<Longrightarrow> entry (remove_row loc d p ix) l = entry ix l"
begin

fun serve :: "index_call \<Rightarrow> 'ix \<Rightarrow> 'ix" where
  "serve (ILookup now loc) ix = snd (lookup now loc ix)"
| "serve (IInsert now row) ix = snd (insert_row now row ix)"
| "serve (IRemove loc d p) ix = remove_row loc d p ix"

lemma serve_harmless: "entry ix loc = Some row \<Longrightarrow> harmless loc row c \<Longrightarrow> entry (serve c ix) loc = Some row"
proof (cases c)
  case (IInsert now r)
  assume "entry ix loc = Some row" "harmless loc row c"
  with IInsert show ?thesis
    using insert_foreign [of ix r row now] by (cases "l_pair_loc r = loc") (auto simp: insert_other)
next
  case (IRemove l d p)
  assume "entry ix loc = Some row" "harmless loc row c"
  with IRemove show ?thesis
    using remove_foreign [of ix l row d p] by (cases "l = loc") (auto simp: remove_other)
qed (auto simp: lookup_other)

lemma entry_survives:
  "entry ix loc = Some row \<Longrightarrow> list_all (harmless loc row) cs \<Longrightarrow> entry (fold serve cs ix) loc = Some row"
  by (induction cs arbitrary: ix) (auto intro: serve_harmless)

lemma insert_then_found:
  assumes "fst (insert_row now row ix) = IOk" and "now' < l_exp row"
  shows "\<exists>r. fst (lookup now' (l_pair_loc row) (snd (insert_row now row ix))) = Some r \<and>
     l_daemon_id r = l_daemon_id row \<and> l_pair_ref r = l_pair_ref row \<and> l_exp r = l_exp row"
  using insert_ok [OF assms(1)] lookup_live assms(2) by fastforce

end

interpretation index: pair_index ix_rows index_lookup index_insert index_remove
  by unfold_locales
    (auto simp: index_lookup_def index_insert_def index_remove_def Let_def split: option.splits if_splits)

section \<open>Facts\<close>

text \<open>Memory and table agree after every call, so a restarted shard is the same shard.\<close>

definition mirrored :: "index_core \<Rightarrow> bool" where
  "mirrored ix \<longleftrightarrow> ix_rows ix = ix_disk ix \<and> (\<forall>loc row. ix_rows ix loc = Some row \<longrightarrow> l_pair_loc row = loc)"

lemma mirrored_lookup: "mirrored ix \<Longrightarrow> mirrored (snd (index_lookup now loc ix))"
  by (auto simp: mirrored_def index_lookup_def split: option.splits)

lemma mirrored_insert: "mirrored ix \<Longrightarrow> mirrored (snd (index_insert now row ix))"
  by (auto simp: mirrored_def index_insert_def Let_def split: option.splits)

lemma mirrored_remove: "mirrored ix \<Longrightarrow> mirrored (index_remove loc d p ix)"
  by (auto simp: mirrored_def index_remove_def split: option.splits)

lemma mirrored_calls:
  "index_lookup now loc ix = (r, ix') \<Longrightarrow> mirrored ix \<Longrightarrow> mirrored ix'"
  "index_insert now row ix = (q, ix') \<Longrightarrow> mirrored ix \<Longrightarrow> mirrored ix'"
  using mirrored_lookup [of ix now loc] mirrored_insert [of ix now row] by simp_all

lemma mirrored_fetch: "mirrored ix \<Longrightarrow> mirrored (snd (index_fetch now path rmethod body ix))"
  unfolding index_fetch_def Let_def
  by (simp add: mirrored_remove split: prod.splits option.splits) (blast intro: mirrored_calls)

lemma restart_mirrored: "mirrored ix \<Longrightarrow> new_IndexCore (ix_disk ix) = ix"
  by (cases ix) (simp add: mirrored_def new_IndexCore_def)

text \<open>Codes minted by a room are normal, so the client finds what it inserted.\<close>

lemma client_insert_eq:
  assumes "normalizeLoc (l_pair_loc row) = Some (l_pair_loc row)" and "\<not> down (indexName (l_pair_loc row))"
  shows "client_insert down now row ns =
     (let r = index_insert now row (ns (indexName (l_pair_loc row)))
      in (fst r, ns(indexName (l_pair_loc row) := snd r)))"
  using assms
  by (cases "index_insert now row (ns (indexName (l_pair_loc row)))", cases row)
    (auto simp: client_insert_def stub_fetch_def index_fetch_def loc_row_json_def jstr_def jget_def jnum_or_def
      jsonResponse_def index_insert_def Let_def split: option.splits if_splits)

lemma client_lookup_eq:
  assumes "normalizeLoc loc = Some loc" and "\<not> down (indexName loc)"
    and "ix_rows (ns (indexName loc)) loc = Some row" and "now < l_exp row"
    and "l_daemon_id row \<noteq> []" and "l_pair_ref row \<noteq> []"
  shows "client_lookup down now loc ns = (Inr (Some (l_daemon_id row, l_pair_ref row, l_exp row)), ns)"
  using assms
  by (simp add: client_lookup_def stub_fetch_def index_fetch_def jstr_def jget_def jnum_or_def
      jsonResponse_def index_lookup_def loc_row_json_def Let_def)

end
