(* ===== verification/Room.thy ===== *)
theory Room
  imports Store Attachment Envelope PairIndex
begin

text \<open>
  The state of a daemon room and \<^verbatim>\<open>RoomCore\<close> of
  \<^verbatim>\<open>workers/pairfob-origin/src/room/core.ts\<close>, with the frame senders of \<^verbatim>\<open>frames.ts\<close>.

  The room is one record: the fields of \<^verbatim>\<open>RoomCore\<close>, its store, the sockets as a heap of
  objects (a socket is its address), the list \<^verbatim>\<open>sockets()\<close> returns, the clock, the state of
  the entropy source, the pairing index it talks to and the logs of what it reported.
  What surrounds the room is the record \<open>env\<close>: the random bytes, the hash function, which
  sockets refuse a send, which storage writes fail, which index shards are down, and the
  interference \<open>e_yield\<close> of other events at each \<^verbatim>\<open>await\<close>. Between two awaits JavaScript runs
  a handler alone, so the clock, like everything else, only moves at an \<^verbatim>\<open>await\<close>.
\<close>

section \<open>State\<close>

text \<open>A message sent: a JSON frame by its type, route and body, or raw wire bytes.\<close>

datatype outmsg = OutJSON nat "byte list" json | OutWire "byte list"

record socket =
  s_att :: "attachment option"
  s_closed :: bool
  s_reason :: string
  s_sent :: "outmsg list"

datatype metric = MetricBind string | MetricClose string string | MetricFwd nat | MetricAlarmLate number

record room =
  rm_daemon :: "nat option"
  rm_reconnectHash :: string
  rm_grantId :: string
  rm_enrolled :: bool
  rm_fwdBytes :: nat
  rm_fwdSinceWrite :: nat
  rm_closeCount :: nat
  rm_alarmLateMaxMs :: number
  rm_alarmLateCount :: nat
  rm_lastPruneAt :: number
  rm_routes :: "string \<rightharpoonup> nat \<times> byte list"
  rm_store :: mem_store
  rm_socks :: "nat \<Rightarrow> socket"
  rm_live :: "nat list"
  rm_nextSock :: nat
  rm_clock :: number
  rm_draws :: nat
  rm_writes :: nat
  rm_awaits :: nat
  rm_index :: index_ns
  rm_metrics :: "metric list"
  rm_confirmed :: "(string \<times> string) list"

record env =
  e_daemonId :: string
  e_random :: "nat \<Rightarrow> nat \<Rightarrow> byte list"
  e_sha256Hex :: "string \<Rightarrow> string"
  e_sendFails :: "socket \<Rightarrow> bool"
  e_sqlFails :: "nat \<Rightarrow> bool"
  e_hasIndex :: bool
  e_down :: "string \<Rightarrow> bool"
  e_hasClaims :: bool
  e_confirmFails :: "nat \<Rightarrow> bool"
  e_yield :: "nat \<Rightarrow> room \<Rightarrow> room"

type_synonym 'a act = "(room, 'a) comp"

section \<open>Primitives\<close>

text \<open>An \<^verbatim>\<open>await\<close>: whatever else the event loop runs before the handler goes on.\<close>

definition await :: "env \<Rightarrow> unit act" where
  "await en = (\<lambda>s. (Inr (), e_yield en (rm_awaits s) (s\<lparr>rm_awaits := Suc (rm_awaits s)\<rparr>)))"

definition random :: "env \<Rightarrow> nat \<Rightarrow> byte list act" where
  "random en n = (\<lambda>s. (Inr (e_random en (rm_draws s) n), s\<lparr>rm_draws := Suc (rm_draws s)\<rparr>))"

text \<open>A write to the store, which the database may refuse.\<close>

definition storeM :: "env \<Rightarrow> (mem_store \<Rightarrow> mem_store) \<Rightarrow> unit act" where
  "storeM en f = (\<lambda>s.
     let s' = s\<lparr>rm_writes := Suc (rm_writes s)\<rparr> in
     if e_sqlFails en (rm_writes s) then (Inl (Error ''storage''), s')
     else (Inr (), s'\<lparr>rm_store := f (rm_store s)\<rparr>))"

definition upd_sock :: "nat \<Rightarrow> (socket \<Rightarrow> socket) \<Rightarrow> room \<Rightarrow> room" where
  "upd_sock ws f s = s\<lparr>rm_socks := (rm_socks s)(ws := f (rm_socks s ws))\<rparr>"

text \<open>
  A send on a socket that is closed is dropped (\<^verbatim>\<open>FakeSocket\<close>) unless the platform throws
  (\<open>e_sendFails\<close>); \<^verbatim>\<open>CfSocket.close\<close> never throws.
\<close>

definition send :: "env \<Rightarrow> nat \<Rightarrow> outmsg \<Rightarrow> unit act" where
  "send en ws m = (\<lambda>s.
     if e_sendFails en (rm_socks s ws) then (Inl (Error ''send''), s)
     else if s_closed (rm_socks s ws) then (Inr (), s)
     else (Inr (), upd_sock ws (\<lambda>k. k\<lparr>s_sent := s_sent k @ [m]\<rparr>) s))"

definition close :: "nat \<Rightarrow> string \<Rightarrow> unit act" where
  "close ws reason = modifyM (upd_sock ws (\<lambda>k. k\<lparr>s_closed := True, s_reason := reason\<rparr>))"

definition sendJSON :: "env \<Rightarrow> nat \<Rightarrow> nat \<Rightarrow> byte list \<Rightarrow> json \<Rightarrow> unit act" where
  "sendJSON en ws ty routeId body =
     (if \<not> knownType ty then throw (Error ''unknown envelope type'')
      else if length routeId \<noteq> 16 then throw (Error ''route_id must be 16 bytes'')
      else send en ws (OutJSON ty routeId body))"

record err_extra =
  x_routeId :: "byte list option"
  x_pairRef :: "string option"
  x_retryAfterMs :: "number option"

definition no_extra :: err_extra where
  "no_extra = \<lparr> x_routeId = None, x_pairRef = None, x_retryAfterMs = None \<rparr>"

definition err_body :: "string \<Rightarrow> string \<Rightarrow> err_extra \<Rightarrow> json" where
  "err_body code msg extra =
     JObj ([(''v'', JNum 2), (''code'', JStr code), (''message'', JStr msg)]
       @ (case x_routeId extra of
            None \<Rightarrow> [] | Some r \<Rightarrow> if length r = 16 then [(''route_id'', JStr (bytesToHex r))] else [])
       @ (case x_pairRef extra of None \<Rightarrow> [] | Some p \<Rightarrow> if p = [] then [] else [(''pair_ref'', JStr p)])
       @ (case x_retryAfterMs extra of None \<Rightarrow> [] | Some n \<Rightarrow> [(''retry_after_ms'', JNum n)]))"

definition sendErr :: "env \<Rightarrow> nat \<Rightarrow> string \<Rightarrow> string \<Rightarrow> err_extra \<Rightarrow> unit act" where
  "sendErr en ws code msg extra =
     sendJSON en ws Typ_ERROR (case x_routeId extra of None \<Rightarrow> ZERO_ROUTE | Some r \<Rightarrow> r) (err_body code msg extra)"

definition reject :: "env \<Rightarrow> nat \<Rightarrow> string \<Rightarrow> string \<Rightarrow> unit act" where
  "reject en ws code msg = seqs [sendErr en ws code msg no_extra, close ws code]"

text \<open>The pairing index, reached over the network: other events run while a call is out.\<close>

definition idx_insert :: "env \<Rightarrow> loc_row \<Rightarrow> insert_result act" where
  "idx_insert en row =
     bindM (await en) (\<lambda>_.
       bindM (\<lambda>s. case client_insert (e_down en) (rm_clock s) row (rm_index s) of
                    (r, ns) \<Rightarrow> (Inr r, s\<lparr>rm_index := ns\<rparr>)) (\<lambda>r.
         bindM (await en) (\<lambda>_. ret r)))"

text \<open>
  A removal nobody waits for (\<^verbatim>\<open>void this.index()?.remove\<close>, when the daemon is gone or replaced) is performed where it is started: that it
  may reach the index later, or never, is not modelled. A locator it leaves behind expires with its own deadline.
\<close>

definition idx_remove_now :: "env \<Rightarrow> string \<Rightarrow> string \<Rightarrow> unit act" where
  "idx_remove_now en loc pairRef = modifyM (\<lambda>s.
     s\<lparr>rm_index := client_remove (e_down en) (rm_clock s) loc (e_daemonId en) pairRef (rm_index s)\<rparr>)"

definition idx_remove :: "env \<Rightarrow> string \<Rightarrow> string \<Rightarrow> unit act" where
  "idx_remove en loc pairRef = seqs [await en, idx_remove_now en loc pairRef, await en]"

definition metricM :: "metric \<Rightarrow> unit act" where
  "metricM m = modifyM (\<lambda>s. s\<lparr>rm_metrics := rm_metrics s @ [m]\<rparr>)"

section \<open>RoomCore\<close>

definition att :: "room \<Rightarrow> nat \<Rightarrow> attachment option" where
  "att s ws = s_att (rm_socks s ws)"

definition rememberRoute :: "string \<Rightarrow> nat \<Rightarrow> room \<Rightarrow> room" where
  "rememberRoute hex ws s = s\<lparr>rm_routes := (rm_routes s)(hex \<mapsto> (ws, hexToRoute hex))\<rparr>"

definition forgetRoute :: "string \<Rightarrow> room \<Rightarrow> room" where
  "forgetRoute hex s = s\<lparr>rm_routes := (rm_routes s)(hex := None)\<rparr>"

definition route_of :: "attachment option \<Rightarrow> string" where
  "route_of a = (case a of None \<Rightarrow> [] | Some x \<Rightarrow> a_route_id x)"

definition writeAtt_state :: "nat \<Rightarrow> attachment \<Rightarrow> room \<Rightarrow> room" where
  "writeAtt_state ws a s =
     (let s1 = (if route_of (att s ws) \<noteq> [] then forgetRoute (route_of (att s ws)) s else s);
          s2 = upd_sock ws (\<lambda>k. k\<lparr>s_att := Some a\<rparr>) s1
      in if a_route_id a \<noteq> [] then rememberRoute (a_route_id a) ws s2 else s2)"

definition writeAtt :: "nat \<Rightarrow> attachment \<Rightarrow> unit act" where
  "writeAtt ws a = modifyM (writeAtt_state ws a)"

definition deleteBind :: "env \<Rightarrow> string \<Rightarrow> unit act" where
  "deleteBind en routeId = seqs [modifyM (forgetRoute routeId), storeM en (store_deleteBind routeId)]"

fun newest_daemon :: "room \<Rightarrow> nat list \<Rightarrow> nat \<Rightarrow> number \<Rightarrow> nat" where
  "newest_daemon s [] best bestHello = best"
| "newest_daemon s (d # ds) best bestHello =
     (let hello = (case att s d of None \<Rightarrow> 0 | Some a \<Rightarrow> a_hello_at_ms a)
      in if hello \<ge> bestHello then newest_daemon s ds d hello else newest_daemon s ds best bestHello)"

definition retainNewestDaemon :: "nat list \<Rightarrow> (nat option) act" where
  "retainNewestDaemon daemons = lookM (\<lambda>s.
     case daemons of
       [] \<Rightarrow> ret None
     | d # ds \<Rightarrow>
         let best = newest_daemon s ds d (case att s d of None \<Rightarrow> 0 | Some a \<Rightarrow> a_hello_at_ms a)
         in bindM (for_each daemons (\<lambda>ws. if ws = best then ret () else close ws ''replaced''))
              (\<lambda>_. ret (Some best)))"

fun remember_all :: "nat list \<Rightarrow> room \<Rightarrow> room" where
  "remember_all [] s = s"
| "remember_all (ws # wss) s =
     remember_all wss (if route_of (att s ws) \<noteq> [] then rememberRoute (route_of (att s ws)) ws s else s)"

definition rebuildMaps :: "unit act" where
  "rebuildMaps = seqs [
     modifyM (\<lambda>s. remember_all (rm_live s) (s\<lparr>rm_routes := Map.empty\<rparr>)),
     lookM (\<lambda>s. bindM (retainNewestDaemon (filter (\<lambda>ws. isRegisteredDaemon (att s ws)) (rm_live s)))
                  (\<lambda>d. modifyM (\<lambda>t. t\<lparr>rm_daemon := d\<rparr>)))]"

definition loadMeta_into :: "room \<Rightarrow> room" where
  "loadMeta_into s =
     (case loadMeta (rm_store s) of
        None \<Rightarrow> s
      | Some m \<Rightarrow> s\<lparr>rm_enrolled := True, rm_reconnectHash := m_reconnect_hash m, rm_grantId := m_grant_id m\<rparr>)"

definition harvestControl :: "env \<Rightarrow> unit act" where
  "harvestControl en = lookM (\<lambda>s.
     let live = filter (\<lambda>r. r \<noteq> []) (map (\<lambda>ws. route_of (att s ws)) (rm_live s))
     in seqs [storeM en (deleteGhostBinds live), modifyM loadMeta_into])"

definition coldStart :: "env \<Rightarrow> unit act" where
  "coldStart en = seqs [rebuildMaps,
     lookM (\<lambda>s. if needsConstructorSql (List.map_filter (att s) (rm_live s)) then harvestControl en else ret ())]"

definition enroll :: "env \<Rightarrow> string \<Rightarrow> string \<Rightarrow> bool act" where
  "enroll en reconnect_hash grant_id = lookM (\<lambda>s.
     case loadMeta (rm_store s) of
       Some m \<Rightarrow>
         if m_reconnect_hash m = reconnect_hash \<and> m_grant_id m = grant_id
         then bindM (modifyM (\<lambda>t. t\<lparr>rm_enrolled := True, rm_reconnectHash := m_reconnect_hash m,
                                           rm_grantId := m_grant_id m\<rparr>)) (\<lambda>_. ret True)
         else ret False
     | None \<Rightarrow>
         bindM (storeM en (putMeta \<lparr> m_daemon_id = e_daemonId en, m_reconnect_hash = reconnect_hash,
                                    m_grant_id = grant_id, m_created_at = rm_clock s \<rparr>))
           (\<lambda>_. bindM (modifyM (\<lambda>t. t\<lparr>rm_enrolled := True, rm_reconnectHash := reconnect_hash,
                                               rm_grantId := grant_id\<rparr>)) (\<lambda>_. ret True)))"

definition verifyEnroll :: "room \<Rightarrow> string \<Rightarrow> string \<Rightarrow> bool" where
  "verifyEnroll s reconnectHash grantId =
     (case loadMeta (rm_store s) of
        None \<Rightarrow> False
      | Some m \<Rightarrow> m_grant_id m = grantId \<and> timingSafeEqual (m_reconnect_hash m) reconnectHash)"

definition rekey :: "env \<Rightarrow> string \<Rightarrow> string \<Rightarrow> bool act" where
  "rekey en oldHash newHash = lookM (\<lambda>s.
     case loadMeta (rm_store s) of
       None \<Rightarrow> ret False
     | Some m \<Rightarrow>
         if m_reconnect_hash m = [] then ret False
         else if timingSafeEqual (m_reconnect_hash m) newHash then ret True
         else if \<not> timingSafeEqual (m_reconnect_hash m) oldHash then ret False
         else bindM (storeM en (setReconnectHash newHash))
                (\<lambda>_. bindM (modifyM (\<lambda>t. t\<lparr>rm_reconnectHash := newHash\<rparr>)) (\<lambda>_. ret True)))"

text \<open>The slot's entry is withdrawn from the index without waiting for the answer.\<close>

definition drop_slot :: "env \<Rightarrow> unit act" where
  "drop_slot en = lookM (\<lambda>s.
     case loadSlot (rm_store s) of
       None \<Rightarrow> ret ()
     | Some slot \<Rightarrow>
         seqs [storeM en deleteSlot,
               if e_hasIndex en then idx_remove_now en (pair_loc slot) (pair_ref slot) else ret ()])"

definition dropDaemon :: "env \<Rightarrow> string \<Rightarrow> unit act" where
  "dropDaemon en reason = lookM (\<lambda>s0.
     seqs [
       lookM (\<lambda>s. for_each (rm_live s) (\<lambda>ws. lookM (\<lambda>t.
          case att t ws of
            None \<Rightarrow> ret ()
          | Some a \<Rightarrow>
              if a_role a = RDaemon then ret ()
              else seqs [sendErr en ws ''daemon_offline'' ''daemon websocket gone'' no_extra,
                         close ws ''daemon_offline'',
                         if a_route_id a \<noteq> [] then deleteBind en (a_route_id a) else ret ()]))),
       drop_slot en,
       modifyM (\<lambda>s. s\<lparr>rm_daemon := None\<rparr>),
       (case rm_daemon s0 of
          Some d \<Rightarrow> if reason = ''replaced'' then close d ''replaced'' else ret ()
        | None \<Rightarrow> ret ())])"

definition notifyReplaced :: "env \<Rightarrow> unit act" where
  "notifyReplaced en =
     seqs [
       lookM (\<lambda>s. for_each (rm_live s) (\<lambda>ws. lookM (\<lambda>t.
          case att t ws of
            None \<Rightarrow> ret ()
          | Some a \<Rightarrow>
              if a_role a = RDaemon then ret ()
              else seqs [sendJSON en ws Typ_DAEMON_REPLACED
                           (if a_route_id a \<noteq> [] then hexToRoute (a_route_id a) else replicate 16 0)
                           (JObj [(''v'', JNum 2), (''daemon_id'', JStr (e_daemonId en))]),
                         close ws ''replaced'',
                         if a_route_id a \<noteq> [] then deleteBind en (a_route_id a) else ret ()]))),
       drop_slot en]"

definition kick :: "env \<Rightarrow> unit act" where
  "kick en =
     seqs [storeM en clearReconnectHash,
           modifyM (\<lambda>s. s\<lparr>rm_reconnectHash := []\<rparr>),
           dropDaemon en ''kicked'',
           lookM (\<lambda>s. for_each (rm_live s) (\<lambda>ws. close ws ''kicked'')),
           modifyM (\<lambda>s. s\<lparr>rm_daemon := None\<rparr>)]"

definition abortEnroll :: "env \<Rightarrow> string \<Rightarrow> string \<Rightarrow> bool act" where
  "abortEnroll en reconnectHash grantId = lookM (\<lambda>s.
     case loadMeta (rm_store s) of
       None \<Rightarrow> ret False
     | Some m \<Rightarrow>
         if m_grant_id m \<noteq> grantId \<or> \<not> timingSafeEqual (m_reconnect_hash m) reconnectHash then ret False
         else bindM (seqs [kick en, storeM en deleteMeta,
                           modifyM (\<lambda>t. t\<lparr>rm_enrolled := False, rm_grantId := []\<rparr>)])
                (\<lambda>_. ret True))"

subsection \<open>The passphrase gate\<close>

definition gateCheck :: "room \<Rightarrow> gate_decision" where
  "gateCheck s = gate_check mem_gate_port (rm_store s) (rm_clock s)"

definition gateAllowed :: "room \<Rightarrow> bool" where
  "gateAllowed s = allowed (gateCheck s)"

definition noteGateAttempt :: "env \<Rightarrow> bool \<Rightarrow> unit act" where
  "noteGateAttempt en ok = lookM (\<lambda>s.
     let now = rm_clock s in
     seqs [storeM en (mem_recordGateAttempt now ok),
           (if now - rm_lastPruneAt s < GATE_PRUNE_INTERVAL_MS then ret ()
            else seqs [modifyM (\<lambda>t. t\<lparr>rm_lastPruneAt := now\<rparr>),
                       storeM en (mem_pruneGateAttempts (now - GATE_RETAIN_MS))])])"

subsection \<open>Alarm heap\<close>

text \<open>
  \<^verbatim>\<open>syncHeapAlarm\<close> and \<^verbatim>\<open>schedule\<close> of \<^verbatim>\<open>room/alarms.ts\<close>. The storage gate of the platform holds
  other events back until the alarm is written, and only then they run.
\<close>

definition syncHeapAlarm :: "env \<Rightarrow> unit act" where
  "syncHeapAlarm en = lookM (\<lambda>s. seqs [storeM en (setAlarmIfChanged (minAlarmAt (rm_store s))), await en])"

definition schedule :: "env \<Rightarrow> alarm_kind \<Rightarrow> string \<Rightarrow> number \<Rightarrow> unit act" where
  "schedule en kind ref tm = seqs [storeM en (upsertAlarm kind ref tm), syncHeapAlarm en]"

definition clearKindRef :: "env \<Rightarrow> alarm_kind \<Rightarrow> string \<Rightarrow> unit act" where
  "clearKindRef en kind ref = seqs [storeM en (deleteAlarmsByKindRef kind ref), syncHeapAlarm en]"

subsection \<open>Tickets and upgrades\<close>

definition issueTicket :: "env \<Rightarrow> string \<Rightarrow> (string \<times> string) option act" where
  "issueTicket en pairLoc = lookM (\<lambda>s.
     if \<not> gateAllowed s then ret None
     else let now = rm_clock s in
       case (case loadSlot (rm_store s) of
               None \<Rightarrow> None
             | Some slot \<Rightarrow> if pair_loc slot \<noteq> pairLoc \<or> deadline slot \<le> now then None else Some slot) of
         None \<Rightarrow> bindM (noteGateAttempt en False) (\<lambda>_. ret None)
       | Some slot \<Rightarrow>
           bindM (random en 16) (\<lambda>b.
             let pair_ticket = bytesToHex b in
             bindM (seqs [storeM en (insertTicket \<lparr> t_ticket = pair_ticket, t_pair_ref = pair_ref slot,
                                                   t_deadline = now + TICKET_MS \<rparr>),
                          storeM en (upsertAlarm Ticket15s pair_ticket (now + TICKET_MS)),
                          syncHeapAlarm en,
                          noteGateAttempt en True])
               (\<lambda>_. ret (Some (pair_ticket, pair_ref slot)))))"

definition upgrade_att :: "string \<Rightarrow> string \<Rightarrow> string \<Rightarrow> number \<Rightarrow> attachment" where
  "upgrade_att role account owner now =
     newAttachment (if role = ''daemon'' then RDaemon else RPhone) now
       (\<lambda>a. a\<lparr>a_account := account, a_owner := owner\<rparr>)"

text \<open>\<^verbatim>\<open>access?.account ?? ""\<close>: the headers are read by the caller, absent ones are empty.\<close>

definition consumeUpgrade ::
    "env \<Rightarrow> string option \<Rightarrow> string \<Rightarrow> string \<Rightarrow> string \<Rightarrow> (attachment option) act" where
  "consumeUpgrade en ticket role account owner = lookM (\<lambda>s.
     let admit = lookM (\<lambda>t. ret (Some (upgrade_att role account owner (rm_clock t))));
         refuse = bindM (noteGateAttempt en False) (\<lambda>_. ret None)
     in case ticket of
          None \<Rightarrow> admit
        | Some tk \<Rightarrow>
            if tk = [] then admit
            else if \<not> gateAllowed s then ret None
            else if \<not> TICKET_RE tk \<or> role \<noteq> ''client'' then refuse
            else (case consumeTicket tk (rm_clock s) (rm_store s) of
                (None, _) \<Rightarrow> refuse
              | (Some row, _) \<Rightarrow>
                  bindM (storeM en (\<lambda>st. snd (consumeTicket tk (rm_clock s) st)))
                    (\<lambda>_. bindM (noteGateAttempt en True) (\<lambda>_. admit))))"

definition attachSocket :: "unit act" where
  "attachSocket = rebuildMaps"

subsection \<open>Traffic counters\<close>

definition noteFwd :: "nat \<Rightarrow> unit act" where
  "noteFwd bytes = lookM (\<lambda>s.
     if bytes = 0 then ret ()
     else seqs [
       modifyM (\<lambda>t. t\<lparr>rm_fwdBytes := rm_fwdBytes t + bytes, rm_fwdSinceWrite := rm_fwdSinceWrite t + bytes\<rparr>),
       lookM (\<lambda>t. if rm_fwdSinceWrite t \<ge> FWD_FLUSH_BYTES
                  then seqs [metricM (MetricFwd (rm_fwdSinceWrite t)), modifyM (\<lambda>u. u\<lparr>rm_fwdSinceWrite := 0\<rparr>)]
                  else ret ())])"

definition flushFwd :: "unit act" where
  "flushFwd = lookM (\<lambda>s.
     if rm_fwdSinceWrite s = 0 then ret ()
     else seqs [metricM (MetricFwd (rm_fwdSinceWrite s)), modifyM (\<lambda>t. t\<lparr>rm_fwdSinceWrite := 0\<rparr>)])"

definition noteBind :: "string \<Rightarrow> unit act" where
  "noteBind kind = metricM (MetricBind kind)"

definition noteAlarmLate :: "number \<Rightarrow> unit act" where
  "noteAlarmLate ms =
     seqs [modifyM (\<lambda>s. s\<lparr>rm_alarmLateCount := Suc (rm_alarmLateCount s),
                           rm_alarmLateMaxMs := (if ms > rm_alarmLateMaxMs s then ms else rm_alarmLateMaxMs s)\<rparr>),
           metricM (MetricAlarmLate ms)]"

subsection \<open>Binds\<close>

definition bind_extra :: "attachment option \<Rightarrow> err_extra" where
  "bind_extra a =
     (case a of
        None \<Rightarrow> no_extra
      | Some x \<Rightarrow>
          if a_route_id x = [] then no_extra
          else no_extra\<lparr>x_routeId := Some (hexToRoute (a_route_id x)),
                        x_pairRef := (if a_pair_ref x = [] then None else Some (a_pair_ref x))\<rparr>)"

definition closeBind :: "env \<Rightarrow> nat \<Rightarrow> string \<Rightarrow> string \<Rightarrow> bool \<Rightarrow> unit act" where
  "closeBind en ws code msg notifyDaemon = lookM (\<lambda>s.
     let a = att s ws; hex = route_of a in
     seqs [sendErr en ws code msg (bind_extra a),
           lookM (\<lambda>t. case rm_daemon t of
                  Some d \<Rightarrow> if notifyDaemon \<and> hex \<noteq> [] then sendErr en d code msg (bind_extra a) else ret ()
                | None \<Rightarrow> ret ()),
           (if hex \<noteq> [] then deleteBind en hex else ret ()),
           close ws code])"

definition kind_count :: "bind_kind \<Rightarrow> room \<Rightarrow> nat" where
  "kind_count k s =
     length (filter (\<lambda>ws. case att s ws of None \<Rightarrow> False | Some a \<Rightarrow> a_role a = RPhone \<and> a_kind a = k) (rm_live s))"

text \<open>\<^verbatim>\<open>countKinds\<close>: (est, resume, pairing).\<close>

definition countKinds :: "room \<Rightarrow> nat \<times> nat \<times> nat" where
  "countKinds s = (kind_count KEstablished s, kind_count KResumehello s, kind_count KPairing s)"

definition pending_hello :: "attachment option \<Rightarrow> bool" where
  "pending_hello a =
     (case a of None \<Rightarrow> False
      | Some x \<Rightarrow> a_mode x = MHello \<and> a_kind x = KNone \<and> \<not> isRegisteredDaemon a)"

definition countPendingHellos :: "room \<Rightarrow> nat" where
  "countPendingHellos s = length (filter (\<lambda>ws. pending_hello (att s ws)) (rm_live s))"

fun lru_loop :: "room \<Rightarrow> nat list \<Rightarrow> (nat \<times> number) option \<Rightarrow> nat option" where
  "lru_loop s [] best = map_option fst best"
| "lru_loop s (ws # wss) best =
     (case att s ws of
        None \<Rightarrow> lru_loop s wss best
      | Some a \<Rightarrow>
          if a_kind a \<noteq> KResumehello then lru_loop s wss best
          else case best of
              None \<Rightarrow> lru_loop s wss (Some (ws, a_created_ms a))
            | Some (_, bestMs) \<Rightarrow>
                if a_created_ms a < bestMs then lru_loop s wss (Some (ws, a_created_ms a))
                else lru_loop s wss best)"

definition lruResume :: "room \<Rightarrow> nat option" where
  "lruResume s = lru_loop s (rm_live s) None"

definition findByRoute :: "string \<Rightarrow> room \<Rightarrow> nat option" where
  "findByRoute hex s = map_option fst (rm_routes s hex)"

definition routeBytes :: "string \<Rightarrow> room \<Rightarrow> byte list" where
  "routeBytes hex s = (case rm_routes s hex of None \<Rightarrow> hexToRoute hex | Some (_, r) \<Rightarrow> r)"

text \<open>The tail of \<^verbatim>\<open>onClose\<close> for a socket that is not the current daemon's.\<close>

definition release_bind :: "env \<Rightarrow> nat \<Rightarrow> attachment \<Rightarrow> unit act" where
  "release_bind en ws x =
     (if a_route_id x \<noteq> [] then
        seqs [lookM (\<lambda>t. case rm_daemon t of
                            None \<Rightarrow> ret ()
                          | Some d \<Rightarrow> sendErr en d ''unpaired'' ''client websocket gone''
                              (no_extra\<lparr>x_routeId := Some (hexToRoute (a_route_id x))\<rparr>)),
              deleteBind en (a_route_id x),
              writeAtt ws (x\<lparr>a_kind := KNone, a_route_id := []\<rparr>)]
      else ret ())"

definition onClose :: "env \<Rightarrow> nat \<Rightarrow> string \<Rightarrow> unit act" where
  "onClose en ws reason = lookM (\<lambda>s0.
     let a = att s0 ws;
         kind = (case a of None \<Rightarrow> ''none''
                 | Some x \<Rightarrow> if a_kind x \<noteq> KNone then kind_name (a_kind x) else role_name (a_role x))
     in seqs [
       modifyM (\<lambda>s. s\<lparr>rm_closeCount := Suc (rm_closeCount s)\<rparr>),
       flushFwd,
       metricM (MetricClose (if reason = [] then ''closed'' else reason) kind),
       lookM (\<lambda>s. case a of
              None \<Rightarrow> rebuildMaps
            | Some x \<Rightarrow>
                if a_role x = RDaemon \<and> rm_daemon s = Some ws then dropDaemon en ''closed''
                else seqs [release_bind en ws x, rebuildMaps])])"

definition loadReconnectHash :: "string act" where
  "loadReconnectHash = lookM (\<lambda>s.
     if rm_reconnectHash s \<noteq> [] then ret (rm_reconnectHash s)
     else bindM (modifyM loadMeta_into) (\<lambda>_. lookM (\<lambda>t. ret (rm_reconnectHash t))))"

section \<open>What the invariants look at\<close>

text \<open>
  The invariants speak of the attachments, the route index, the daemon, the list of
  sockets and the clock. Most statements of a handler (sends, closes, storage, metrics)
  leave this view alone; \<open>frames m\<close> says so, and a condition that only depends on the view
  is carried over such statements for free.
\<close>

definition view :: "room \<Rightarrow> (nat \<Rightarrow> attachment option) \<times> (string \<rightharpoonup> nat \<times> byte list) \<times> nat option \<times> nat list \<times> nat \<times> number" where
  "view s = (att s, rm_routes s, rm_daemon s, rm_live s, rm_nextSock s, rm_clock s)"

definition frames :: "'a act \<Rightarrow> bool" where
  "frames m \<longleftrightarrow> (\<forall>v. keeps (\<lambda>s. view s = v) m)"

definition on_view :: "(room \<Rightarrow> bool) \<Rightarrow> bool" where
  "on_view P \<longleftrightarrow> (\<forall>s t. view s = view t \<longrightarrow> P s \<longrightarrow> P t)"

named_theorems frame_intros

lemma framesI: "(\<And>s. view (snd (m s)) = view s) \<Longrightarrow> frames m"
  by (simp add: frames_def keeps_def)

lemma framesD: "frames m \<Longrightarrow> view (snd (m s)) = view s"
  unfolding frames_def keeps_def by blast

lemma keeps_frame: "frames m \<Longrightarrow> on_view P \<Longrightarrow> keeps P m"
  by (metis framesD keepsI on_view_def)

lemma leads_frame: "frames m \<Longrightarrow> on_view P \<Longrightarrow> leads P P m"
  using keeps_frame keeps_leads by blast

lemma att_upd_sock:
  "att (upd_sock ws f s) = (\<lambda>w. if w = ws then s_att (f (rm_socks s ws)) else att s w)"
  by (auto simp: att_def upd_sock_def fun_eq_iff)

lemma frames_ret [frame_intros]: "frames (ret a)"
  by (simp add: frames_def keeps_ret)

lemma frames_throw [frame_intros]: "frames (throw e)"
  by (simp add: frames_def keeps_throw)

lemma frames_liftE [frame_intros]: "frames (liftE e)"
  by (simp add: frames_def keeps_liftE)

lemma frames_bindM [frame_intros]: "frames m \<Longrightarrow> (\<And>a. frames (k a)) \<Longrightarrow> frames (bindM m k)"
  by (simp add: frames_def keeps_bindM)

lemma frames_seqs [frame_intros]: "frames (seqs [])" "frames m \<Longrightarrow> frames (seqs ms) \<Longrightarrow> frames (seqs (m # ms))"
  by (simp_all add: frames_def keeps_seqs_Nil keeps_seqs_Cons)

lemma frames_try [frame_intros]: "frames m \<Longrightarrow> frames h \<Longrightarrow> frames (try_catch m h)"
  by (simp add: frames_def keeps_try_catch)

lemma frames_if [frame_intros]: "(b \<Longrightarrow> frames m) \<Longrightarrow> (\<not> b \<Longrightarrow> frames n) \<Longrightarrow> frames (if b then m else n)"
  by simp

lemma frames_lookM [frame_intros]: "(\<And>s. frames (f s)) \<Longrightarrow> frames (lookM f)"
  by (simp add: frames_def keeps_lookM)

lemma frames_option [frame_intros]:
  "(x = None \<Longrightarrow> frames m) \<Longrightarrow> (\<And>a. x = Some a \<Longrightarrow> frames (k a)) \<Longrightarrow>
     frames (case x of None \<Rightarrow> m | Some a \<Rightarrow> k a)"
  by (cases x) simp_all

lemma frames_for_each [frame_intros]: "(\<And>x. x \<in> set xs \<Longrightarrow> frames (f x)) \<Longrightarrow> frames (for_each xs f)"
  by (simp add: frames_def keeps_for_each)

lemma frames_modifyM [frame_intros]: "(\<And>s. view (f s) = view s) \<Longrightarrow> frames (modifyM f)"
  by (simp add: frames_def keeps_def modifyM_def)

lemma view_fields [simp]:
  "view (s\<lparr>rm_reconnectHash := h\<rparr>) = view s" "view (s\<lparr>rm_grantId := g\<rparr>) = view s"
  "view (s\<lparr>rm_enrolled := b\<rparr>) = view s" "view (s\<lparr>rm_fwdBytes := n\<rparr>) = view s"
  "view (s\<lparr>rm_fwdSinceWrite := n\<rparr>) = view s" "view (s\<lparr>rm_closeCount := n\<rparr>) = view s"
  "view (s\<lparr>rm_alarmLateMaxMs := x\<rparr>) = view s" "view (s\<lparr>rm_alarmLateCount := n\<rparr>) = view s"
  "view (s\<lparr>rm_lastPruneAt := x\<rparr>) = view s" "view (s\<lparr>rm_store := st\<rparr>) = view s"
  "view (s\<lparr>rm_draws := n\<rparr>) = view s" "view (s\<lparr>rm_writes := n\<rparr>) = view s"
  "view (s\<lparr>rm_awaits := n\<rparr>) = view s" "view (s\<lparr>rm_index := ns\<rparr>) = view s"
  "view (s\<lparr>rm_metrics := ms\<rparr>) = view s" "view (s\<lparr>rm_confirmed := cs\<rparr>) = view s"
  by (simp_all add: view_def att_def fun_eq_iff)

lemma view_loadMeta_into [simp]: "view (loadMeta_into s) = view s"
  by (simp add: loadMeta_into_def split: option.splits)

lemma view_upd_sock: "(\<And>k. s_att (f k) = s_att k) \<Longrightarrow> view (upd_sock ws f s) = view s"
  by (simp add: view_def att_upd_sock) (simp add: upd_sock_def att_def fun_eq_iff)

lemma frames_send [frame_intros]: "frames (send en ws m)"
  by (rule framesI) (simp add: send_def view_upd_sock)

lemma frames_close [frame_intros]: "frames (close ws r)"
  unfolding close_def by (intro frame_intros) (simp add: view_upd_sock)

lemma frames_storeM [frame_intros]: "frames (storeM en f)"
  by (rule framesI) (simp add: storeM_def Let_def)

lemma frames_random [frame_intros]: "frames (random en n)"
  by (rule framesI) (simp add: random_def)

lemma frames_sendJSON [frame_intros]: "frames (sendJSON en ws ty r b)"
  unfolding sendJSON_def by (intro frame_intros)

lemma frames_sendErr [frame_intros]: "frames (sendErr en ws c m x)"
  unfolding sendErr_def by (intro frame_intros)

lemma frames_reject [frame_intros]: "frames (reject en ws c m)"
  unfolding reject_def by (intro frame_intros)

lemma frames_metricM [frame_intros]: "frames (metricM m)"
  unfolding metricM_def by (intro frame_intros) simp

lemma frames_idx_remove_now [frame_intros]: "frames (idx_remove_now en loc p)"
  unfolding idx_remove_now_def by (intro frame_intros) simp

lemma frames_noteGateAttempt [frame_intros]: "frames (noteGateAttempt en ok)"
  unfolding noteGateAttempt_def Let_def by (intro frame_intros) simp

lemma frames_counters [frame_intros]:
  "frames (noteFwd n)" "frames flushFwd" "frames (noteBind k)" "frames (noteAlarmLate ms)"
  unfolding noteFwd_def flushFwd_def noteBind_def noteAlarmLate_def by (intro frame_intros; simp)+

lemma frames_loadReconnectHash [frame_intros]: "frames loadReconnectHash"
  unfolding loadReconnectHash_def by (intro frame_intros) simp

lemma frames_harvestControl [frame_intros]: "frames (harvestControl en)"
  unfolding harvestControl_def Let_def by (intro frame_intros) simp

lemma frames_drop_slot [frame_intros]: "frames (drop_slot en)"
  unfolding drop_slot_def by (intro frame_intros)

lemma frames_enrollment [frame_intros]: "frames (enroll en h g)" "frames (rekey en oh nh)"
  unfolding enroll_def rekey_def by (intro frame_intros; simp)+

lemma frames_retainNewestDaemon [frame_intros]: "frames (retainNewestDaemon ds)"
  unfolding retainNewestDaemon_def Let_def
  by (cases ds) (auto intro!: frame_intros)

section \<open>The room invariant\<close>

text \<open>
  A bound socket belongs to a phone that may see this daemon and has a well-formed,
  non-zero route; an unbound one has none, and a daemon socket never has one.
\<close>

definition valid_route :: "string \<Rightarrow> bool" where
  "valid_route hex \<longleftrightarrow> (\<exists>rid. length rid = 16 \<and> \<not> isZeroRoute rid \<and> hex = routeHex rid)"

definition att_ok :: "attachment \<Rightarrow> bool" where
  "att_ok a \<longleftrightarrow>
     (a_kind a = KNone \<longleftrightarrow> a_route_id a = []) \<and>
     (a_kind a \<noteq> KNone \<longrightarrow> a_role a = RPhone \<and> \<not> ownerMismatch a \<and> valid_route (a_route_id a))"

definition base_inv :: "room \<Rightarrow> bool" where
  "base_inv s \<longleftrightarrow>
     (\<forall>ws a. att s ws = Some a \<longrightarrow> att_ok a) \<and>
     kind_count KEstablished s \<le> MAX_ESTABLISHED \<and> kind_count KPairing s \<le> MAX_PAIRING \<and>
     distinct (rm_live s) \<and> (\<forall>ws \<in> set (rm_live s). ws < rm_nextSock s) \<and> 0 < rm_clock s"

definition routes_ok :: "room \<Rightarrow> bool" where
  "routes_ok s \<longleftrightarrow>
     (\<forall>hex ws r. rm_routes s hex = Some (ws, r) \<longrightarrow> hex \<noteq> [] \<and> route_of (att s ws) = hex \<and> r = hexToRoute hex)"

definition daemon_ok :: "room \<Rightarrow> bool" where
  "daemon_ok s \<longleftrightarrow> (\<forall>d. rm_daemon s = Some d \<longrightarrow> isRegisteredDaemon (att s d))"

definition room_inv :: "room \<Rightarrow> bool" where
  "room_inv s \<longleftrightarrow> base_inv s \<and> routes_ok s \<and> daemon_ok s"

text \<open>
  What the surroundings promise: draws have the length asked for, and the events that run
  at an \<^verbatim>\<open>await\<close> keep the invariant too.
\<close>

definition env_ok :: "env \<Rightarrow> bool" where
  "env_ok en \<longleftrightarrow>
     (\<forall>k n. length (e_random en k n) = n) \<and> (\<forall>n s. room_inv s \<longrightarrow> room_inv (e_yield en n s))"

lemma kind_count_view: "view s = view t \<Longrightarrow> kind_count k s = kind_count k t"
  by (simp add: kind_count_def view_def)

lemma on_view_room_inv: "on_view room_inv"
  unfolding on_view_def
proof (intro allI impI)
  fix s t :: room
  assume v: "view s = view t" and i: "room_inv s"
  from v have e: "att s = att t" "rm_routes s = rm_routes t" "rm_daemon s = rm_daemon t"
    "rm_live s = rm_live t" "rm_nextSock s = rm_nextSock t" "rm_clock s = rm_clock t"
    by (simp_all add: view_def)
  show "room_inv t"
    using i kind_count_view [OF v] by (simp add: room_inv_def base_inv_def routes_ok_def daemon_ok_def e)
qed

lemma keeps_inv_frame: "frames m \<Longrightarrow> keeps room_inv m"
  using keeps_frame on_view_room_inv by blast

lemma keeps_await [keeps_intros]:
  assumes "env_ok en"
  shows "keeps room_inv (await en)"
proof (rule keepsI)
  fix s
  assume "room_inv s"
  moreover have "view (s\<lparr>rm_awaits := Suc (rm_awaits s)\<rparr>) = view s"
    by (simp add: view_def att_def fun_eq_iff)
  ultimately have "room_inv (s\<lparr>rm_awaits := Suc (rm_awaits s)\<rparr>)"
    using on_view_room_inv by (metis on_view_def)
  then show "room_inv (snd (await en s))"
    using assms by (simp add: await_def env_ok_def)
qed

text \<open>An attachment may be replaced when the counts still hold afterwards.\<close>

lemma att_writeAtt [simp]: "att (writeAtt_state ws a s) = (att s)(ws := Some a)"
  by (auto simp: writeAtt_state_def Let_def rememberRoute_def forgetRoute_def upd_sock_def att_def fun_eq_iff)

lemma writeAtt_fields [simp]:
  "rm_live (writeAtt_state ws a s) = rm_live s" "rm_daemon (writeAtt_state ws a s) = rm_daemon s"
  "rm_nextSock (writeAtt_state ws a s) = rm_nextSock s" "rm_clock (writeAtt_state ws a s) = rm_clock s"
  "rm_store (writeAtt_state ws a s) = rm_store s"
  by (simp_all add: writeAtt_state_def Let_def rememberRoute_def forgetRoute_def upd_sock_def)

lemma rm_routes_writeAtt:
  "rm_routes (writeAtt_state ws a s) =
     (let r = (if route_of (att s ws) \<noteq> [] then (rm_routes s)(route_of (att s ws) := None) else rm_routes s)
      in if a_route_id a \<noteq> [] then r(a_route_id a \<mapsto> (ws, hexToRoute (a_route_id a))) else r)"
  by (simp add: writeAtt_state_def Let_def rememberRoute_def forgetRoute_def upd_sock_def)

definition is_kind :: "bind_kind \<Rightarrow> attachment option \<Rightarrow> bool" where
  "is_kind k a = (case a of None \<Rightarrow> False | Some x \<Rightarrow> a_role x = RPhone \<and> a_kind x = k)"

lemma kind_count_alt: "kind_count k s = length (filter (\<lambda>ws. is_kind k (att s ws)) (rm_live s))"
  by (simp add: kind_count_def is_kind_def)

lemma kind_count_writeAtt:
  assumes "distinct (rm_live s)"
  shows "kind_count k (writeAtt_state ws a s)
     \<le> kind_count k s + (if is_kind k (Some a) \<and> \<not> is_kind k (att s ws) then 1 else 0)"
  using length_filter_upd [OF assms, of ws "\<lambda>w. is_kind k ((if w = ws then Some a else att s w))" "\<lambda>w. is_kind k (att s w)"]
  by (simp add: kind_count_alt fun_upd_def)

lemma routes_ok_writeAtt:
  assumes "routes_ok s"
  shows "routes_ok (writeAtt_state ws a s)"
  unfolding routes_ok_def
proof (intro allI impI)
  fix hex w r
  assume at: "rm_routes (writeAtt_state ws a s) hex = Some (w, r)"
  show "hex \<noteq> [] \<and> route_of (att (writeAtt_state ws a s) w) = hex \<and> r = hexToRoute hex"
  proof (cases "a_route_id a \<noteq> [] \<and> hex = a_route_id a")
    case True
    with at show ?thesis by (simp add: rm_routes_writeAtt Let_def route_of_def)
  next
    case False
    with at have old: "rm_routes s hex = Some (w, r)" and ne: "route_of (att s ws) \<noteq> [] \<Longrightarrow> hex \<noteq> route_of (att s ws)"
      by (auto simp: rm_routes_writeAtt Let_def split: if_splits)
    from old assms have h: "hex \<noteq> []" "route_of (att s w) = hex" "r = hexToRoute hex"
      unfolding routes_ok_def by blast+
    with ne have "w \<noteq> ws" by auto
    with h show ?thesis by simp
  qed
qed

lemma writeAtt_inv:
  assumes inv: "room_inv s" and ok: "att_ok a"
    and d: "rm_daemon s = Some ws \<Longrightarrow> isRegisteredDaemon (Some a)"
    and e: "is_kind KEstablished (Some a) \<Longrightarrow> is_kind KEstablished (att s ws) \<or> kind_count KEstablished s < MAX_ESTABLISHED"
    and p: "is_kind KPairing (Some a) \<Longrightarrow> is_kind KPairing (att s ws) \<or> kind_count KPairing s < MAX_PAIRING"
  shows "room_inv (writeAtt_state ws a s)"
proof -
  have dist: "distinct (rm_live s)" using inv by (simp add: room_inv_def base_inv_def)
  have "kind_count KEstablished (writeAtt_state ws a s) \<le> MAX_ESTABLISHED"
    using kind_count_writeAtt [OF dist, of KEstablished ws a] e inv
    by (auto simp: room_inv_def base_inv_def split: if_splits)
  moreover have "kind_count KPairing (writeAtt_state ws a s) \<le> MAX_PAIRING"
    using kind_count_writeAtt [OF dist, of KPairing ws a] p inv
    by (auto simp: room_inv_def base_inv_def split: if_splits)
  moreover have "daemon_ok (writeAtt_state ws a s)"
    using inv d by (auto simp: room_inv_def daemon_ok_def)
  moreover have "routes_ok (writeAtt_state ws a s)"
    using inv by (intro routes_ok_writeAtt) (simp add: room_inv_def)
  ultimately show ?thesis
    using inv ok by (auto simp: room_inv_def base_inv_def)
qed

lemma forgetRoute_inv: "room_inv s \<Longrightarrow> room_inv (forgetRoute hex s)"
  by (simp add: room_inv_def base_inv_def routes_ok_def daemon_ok_def forgetRoute_def kind_count_def att_def)

lemma keeps_deleteBind [keeps_intros]: "keeps room_inv (deleteBind en hex)"
  unfolding deleteBind_def by (intro keeps_intros forgetRoute_inv keeps_inv_frame frames_storeM)

lemma keeps_daemon_None: "keeps room_inv (modifyM (\<lambda>s. s\<lparr>rm_daemon := None\<rparr>))"
  by (intro keeps_modifyM)
    (simp add: room_inv_def base_inv_def routes_ok_def daemon_ok_def kind_count_def att_def)

lemmas keeps_core_prims [keeps_intros] =
  frames_send [THEN keeps_inv_frame] frames_close [THEN keeps_inv_frame] frames_storeM [THEN keeps_inv_frame]
  frames_random [THEN keeps_inv_frame] frames_sendJSON [THEN keeps_inv_frame] frames_sendErr [THEN keeps_inv_frame]
  frames_reject [THEN keeps_inv_frame] frames_metricM [THEN keeps_inv_frame]
  frames_idx_remove_now [THEN keeps_inv_frame] frames_noteGateAttempt [THEN keeps_inv_frame]
  frames_counters [THEN keeps_inv_frame] frames_loadReconnectHash [THEN keeps_inv_frame]
  frames_harvestControl [THEN keeps_inv_frame] frames_drop_slot [THEN keeps_inv_frame]
  frames_enrollment [THEN keeps_inv_frame] keeps_daemon_None

lemma room_inv_view: "view t = view s \<Longrightarrow> room_inv s \<Longrightarrow> room_inv t"
  using on_view_room_inv by (metis on_view_def)

lemma keeps_dropDaemon [keeps_intros]: "keeps room_inv (dropDaemon en reason)"
  unfolding dropDaemon_def by (intro keeps_intros)

lemma keeps_notifyReplaced [keeps_intros]: "keeps room_inv (notifyReplaced en)"
  unfolding notifyReplaced_def by (intro keeps_intros)

lemma keeps_kick [keeps_intros]: "keeps room_inv (kick en)"
  unfolding kick_def by (intro keeps_intros) (simp add: room_inv_view)

lemma keeps_abortEnroll [keeps_intros]: "keeps room_inv (abortEnroll en h g)"
  unfolding abortEnroll_def by (intro keeps_intros) (simp add: room_inv_view)

lemma keeps_closeBind [keeps_intros]: "keeps room_inv (closeBind en ws c m b)"
  unfolding closeBind_def Let_def by (intro keeps_intros)

lemma keeps_syncHeapAlarm [keeps_intros]: "env_ok en \<Longrightarrow> keeps room_inv (syncHeapAlarm en)"
  unfolding syncHeapAlarm_def by (intro keeps_intros)

lemma keeps_schedule [keeps_intros]:
  "env_ok en \<Longrightarrow> keeps room_inv (schedule en k r tm)" "env_ok en \<Longrightarrow> keeps room_inv (clearKindRef en k r)"
  unfolding schedule_def clearKindRef_def by (intro keeps_intros; assumption)+

lemma keeps_idx [keeps_intros]:
  "env_ok en \<Longrightarrow> keeps room_inv (idx_insert en row)" "env_ok en \<Longrightarrow> keeps room_inv (idx_remove en loc p)"
proof -
  have step: "keeps room_inv (\<lambda>s. case client_insert (e_down en) (rm_clock s) row (rm_index s) of
                    (r, ns) \<Rightarrow> (Inr r, s\<lparr>rm_index := ns\<rparr>))"
    by (rule keepsI) (simp add: room_inv_view split: prod.splits)
  show "env_ok en \<Longrightarrow> keeps room_inv (idx_insert en row)"
    unfolding idx_insert_def by (intro keeps_intros step)
  show "env_ok en \<Longrightarrow> keeps room_inv (idx_remove en loc p)"
    unfolding idx_remove_def by (intro keeps_intros)
qed

lemma keeps_issueTicket [keeps_intros]: "env_ok en \<Longrightarrow> keeps room_inv (issueTicket en loc)"
  unfolding issueTicket_def Let_def by (intro keeps_intros)

lemma keeps_consumeUpgrade [keeps_intros]: "keeps room_inv (consumeUpgrade en tk role account owner)"
  unfolding consumeUpgrade_def Let_def by (intro keeps_intros)

subsection \<open>Rebuilding the maps\<close>

text \<open>Rebuilding needs only the attachments to be in order; routes and daemon come out right.\<close>

lemma remember_all_fields [simp]:
  "att (remember_all wss s) = att s" "rm_live (remember_all wss s) = rm_live s"
  "rm_daemon (remember_all wss s) = rm_daemon s" "rm_nextSock (remember_all wss s) = rm_nextSock s"
  "rm_clock (remember_all wss s) = rm_clock s"
  by (induction wss s rule: remember_all.induct) (simp_all add: rememberRoute_def att_def fun_eq_iff)

lemma routes_ok_remember:
  "routes_ok s \<Longrightarrow> route_of (att s ws) \<noteq> [] \<Longrightarrow> routes_ok (rememberRoute (route_of (att s ws)) ws s)"
  by (auto simp: routes_ok_def rememberRoute_def att_def split: if_splits)

lemma routes_ok_remember_all: "routes_ok s \<Longrightarrow> routes_ok (remember_all wss s)"
  by (induction wss s rule: remember_all.induct) (simp add: routes_ok_remember)+

lemma newest_daemon_in: "newest_daemon s ds d h \<in> insert d (set ds)"
  by (induction s ds d h rule: newest_daemon.induct) (auto simp: Let_def)

lemma retain_loop:
  "\<exists>t. for_each ds (\<lambda>ws. if ws = best then ret () else close ws ''replaced'') s = (Inr (), t)"
  by (induction ds arbitrary: s) (auto simp: close_def comp_defs split: prod.splits)

lemma retainNewestDaemon_result:
  "fst (retainNewestDaemon ds s) = Inr d \<Longrightarrow> (case d of None \<Rightarrow> ds = [] | Some w \<Rightarrow> w \<in> set ds)"
  using newest_daemon_in [of s "tl ds" "hd ds"]
  by (cases ds) (auto simp: retainNewestDaemon_def comp_defs Let_def split: prod.splits sum.splits)

lemma base_inv_view: "view t = view s \<Longrightarrow> base_inv s \<Longrightarrow> base_inv t"
  using kind_count_view [of t s] by (simp add: base_inv_def view_def)

lemma base_inv_upd:
  "base_inv (s\<lparr>rm_daemon := d\<rparr>) = base_inv s" "base_inv (s\<lparr>rm_routes := r\<rparr>) = base_inv s"
  by (simp_all add: base_inv_def kind_count_def att_def)

lemma base_inv_remember_all: "base_inv (remember_all wss s) = base_inv s"
  by (simp add: base_inv_def kind_count_def)

lemma att_upd_daemon [simp]: "att (s\<lparr>rm_daemon := d\<rparr>) = att s"
  by (simp add: att_def fun_eq_iff)

lemma leads_rebuildMaps: "leads base_inv room_inv rebuildMaps"
proof (rule leadsI)
  fix s
  assume b: "base_inv s"
  define s1 where "s1 = remember_all (rm_live s) (s\<lparr>rm_routes := Map.empty\<rparr>)"
  define ds where "ds = filter (\<lambda>ws. isRegisteredDaemon (att s1 ws)) (rm_live s1)"
  obtain r t where rt: "retainNewestDaemon ds s1 = (r, t)" by fastforce
  have v: "view t = view s1"
    using framesD [OF frames_retainNewestDaemon, of ds s1] rt by simp
  have b1: "base_inv s1" using b by (simp add: s1_def base_inv_remember_all base_inv_upd)
  have r1: "routes_ok s1" unfolding s1_def by (rule routes_ok_remember_all) (simp add: routes_ok_def)
  obtain d where r: "r = Inr d"
  proof (cases ds)
    case Nil
    then show ?thesis using rt that by (auto simp: retainNewestDaemon_def comp_defs)
  next
    case (Cons x xs)
    then show ?thesis
      using rt that retain_loop [of ds "newest_daemon s1 xs x (case att s1 x of None \<Rightarrow> 0 | Some a \<Rightarrow> a_hello_at_ms a)" s1]
      by (auto simp: retainNewestDaemon_def comp_defs Let_def simp del: for_each.simps)
  qed
  have out: "snd (rebuildMaps s) = t\<lparr>rm_daemon := d\<rparr>"
    using rt r by (simp add: rebuildMaps_def comp_defs s1_def [symmetric] ds_def [symmetric])
  have "daemon_ok (t\<lparr>rm_daemon := d\<rparr>)"
    using retainNewestDaemon_result [of ds s1 d] rt r v
    by (auto simp: daemon_ok_def view_def ds_def att_upd_daemon)
  moreover have "routes_ok (t\<lparr>rm_daemon := d\<rparr>)"
    using r1 v by (simp add: routes_ok_def view_def att_def)
  moreover have "base_inv (t\<lparr>rm_daemon := d\<rparr>)"
    using base_inv_view [OF v b1] by (simp add: base_inv_upd)
  ultimately show "room_inv (snd (rebuildMaps s))" by (simp add: out room_inv_def)
qed

lemma keeps_rebuildMaps [keeps_intros]: "keeps room_inv rebuildMaps" "keeps room_inv attachSocket"
  using leads_rebuildMaps by (auto simp: keeps_def leads_def room_inv_def attachSocket_def)

lemma leads_coldStart: "leads base_inv room_inv (coldStart en)"
  unfolding coldStart_def
  by (rule leads_seqs_Cons [OF leads_rebuildMaps], assumption, unfold keeps_leads [symmetric], intro keeps_intros)

subsection \<open>A socket goes away\<close>

text \<open>A condition on one socket's attachment is carried by everything that keeps attachments.\<close>

definition inv_att :: "nat \<Rightarrow> attachment \<Rightarrow> room \<Rightarrow> bool" where
  "inv_att ws a s \<longleftrightarrow> room_inv s \<and> att s ws = Some a"

lemma on_view_inv_att: "on_view (inv_att ws a)"
  unfolding on_view_def inv_att_def using on_view_room_inv
  by (metis (no_types, lifting) on_view_def prod.inject view_def)

lemma inv_att_forget: "inv_att ws a s \<Longrightarrow> inv_att ws a (forgetRoute hex s)"
  by (simp add: inv_att_def forgetRoute_inv) (simp add: forgetRoute_def att_def)

lemma keeps_inv_att_deleteBind: "keeps (inv_att ws a) (deleteBind en hex)"
  unfolding deleteBind_def
  by (intro keeps_intros keeps_frame [OF frames_storeM on_view_inv_att] inv_att_forget)

text \<open>A phone's socket is not the daemon's.\<close>

lemma inv_att_not_daemon: "inv_att ws a s \<Longrightarrow> a_role a = RPhone \<Longrightarrow> rm_daemon s \<noteq> Some ws"
  by (auto simp: inv_att_def room_inv_def daemon_ok_def isRegisteredDaemon_def)

lemma leads_unbind:
  assumes "a_route_id a \<noteq> []"
  shows "leads (inv_att ws a) room_inv (writeAtt ws (a\<lparr>a_kind := KNone, a_route_id := []\<rparr>))"
proof (rule leadsI)
  fix s
  assume i: "inv_att ws a s"
  then have "att_ok a" by (auto simp: inv_att_def room_inv_def base_inv_def)
  with assms have "a_role a = RPhone" by (auto simp: att_ok_def)
  then have "rm_daemon s \<noteq> Some ws" by (rule inv_att_not_daemon [OF i])
  with i show "room_inv (snd (writeAtt ws (a\<lparr>a_kind := KNone, a_route_id := []\<rparr>) s))"
    by (auto simp: writeAtt_def modifyM_def inv_att_def att_ok_def is_kind_def intro!: writeAtt_inv)
qed

lemma leads_att_frame: "frames m \<Longrightarrow> leads (inv_att ws a) (inv_att ws a) m"
  using leads_frame on_view_inv_att by blast

lemma inv_att_inv: "inv_att ws a s \<Longrightarrow> room_inv s"
  by (simp add: inv_att_def)

lemma leads_release_bind: "leads (inv_att ws x) room_inv (release_bind en ws x)"
  unfolding release_bind_def
  by (intro leads_if leads_seqs_Cons [where R = "inv_att ws x" and m = "lookM f" for f]
      leads_seqs_Cons [where R = "inv_att ws x" and m = "deleteBind en r" for r]
      leads_seqs_Cons [where R = "room_inv" and m = "writeAtt w y" for w y] leads_unbind
      leads_seqs_Nil leads_att_frame frame_intros
      keeps_inv_att_deleteBind [unfolded keeps_leads] leads_keeps [OF keeps_ret])
    (simp_all add: inv_att_inv)

lemma leads_close_tail:
  "leads (inv_att ws x) room_inv
     (lookM (\<lambda>s. if a_role x = RDaemon \<and> rm_daemon s = Some ws then dropDaemon en r
                 else seqs [release_bind en ws x, rebuildMaps]))"
proof (intro leads_lookM leads_if, goal_cases)
  case (1 s)
  then show ?case by (intro leads_keeps keeps_intros) (simp add: inv_att_inv)
next
  case (2 s)
  show ?case
    by (rule leads_weaken [OF leads_seqs_Cons [OF leads_release_bind], where Q' = room_inv])
      (use 2 in \<open>auto simp: keeps_leads [symmetric] intro!: keeps_intros\<close>)
qed

lemma keeps_onClose [keeps_intros]: "keeps room_inv (onClose en ws reason)"
  unfolding keeps_leads onClose_def Let_def
proof (rule leads_lookM, goal_cases)
  case (1 s0)
  show ?case
  proof (cases "att s0 ws")
    case None
    show ?thesis
      using 1 unfolding None option.case by (intro leads_keeps keeps_intros) (simp_all add: room_inv_view)
  next
    case (Some x)
    have fr: "frames (modifyM (\<lambda>s. s\<lparr>rm_closeCount := Suc (rm_closeCount s)\<rparr>))"
      by (intro frame_intros) simp
    note st = leads_seqs_Cons [where R = "inv_att ws x" and P = "inv_att ws x" and Q = room_inv, OF leads_att_frame inv_att_inv]
    have "leads (inv_att ws x) room_inv (seqs [modifyM (\<lambda>s. s\<lparr>rm_closeCount := Suc (rm_closeCount s)\<rparr>), flushFwd,
        metricM m, lookM (\<lambda>s. if a_role x = RDaemon \<and> rm_daemon s = Some ws then dropDaemon en r
                 else seqs [release_bind en ws x, rebuildMaps])])" for m r
      by (rule st [OF fr], assumption, rule st [OF frames_counters(2)], assumption,
          rule st [OF frames_metricM], assumption, rule leads_seqs_Cons [OF leads_close_tail], assumption,
          rule leads_seqs_Nil, assumption)
    then show ?thesis
      unfolding Some option.case by (rule leads_weaken) (use 1 Some in \<open>auto simp: inv_att_def\<close>)
  qed
qed

end
