(* ===== verification/Alarms.thy ===== *)
theory Alarms
  imports Room
begin

text \<open>
  The room's timers, \<^verbatim>\<open>workers/pairfob-origin/src/room/alarms.ts\<close>, and \<^verbatim>\<open>RoomCore.alarm\<close>: what
  is done when the platform alarm fires, and how each phase of a connection arms its own.
\<close>

section \<open>Due alarms\<close>

definition closeExpiredHellos :: "env \<Rightarrow> number \<Rightarrow> unit act" where
  "closeExpiredHellos en now = lookM (\<lambda>s. for_each (rm_live s) (\<lambda>ws. lookM (\<lambda>t.
     case att t ws of
       None \<Rightarrow> ret ()
     | Some a \<Rightarrow>
         if a_mode a \<noteq> MHello \<or> a_kind a \<noteq> KNone then ret ()
         else if isRegisteredDaemon (Some a) then ret ()
         else let started = (if a_hello_at_ms a \<noteq> 0 then a_hello_at_ms a else a_created_ms a) in
           if started \<noteq> 0 \<and> now - started \<ge> HELLO_GRACE_MS
           then seqs [sendErr en ws ''unbound'' ''5s attach timeout'' no_extra, close ws ''unbound'']
           else ret ())))"

definition closeExpiredResumes :: "env \<Rightarrow> number \<Rightarrow> unit act" where
  "closeExpiredResumes en now = lookM (\<lambda>s. for_each (rm_live s) (\<lambda>ws. lookM (\<lambda>t.
     case att t ws of
       None \<Rightarrow> ret ()
     | Some a \<Rightarrow>
         if a_kind a \<noteq> KResumehello then ret ()
         else if now - a_created_ms a > RESUME_MS
         then closeBind en ws ''unpaired'' ''15s DeviceHello timeout'' True
         else ret ())))"

definition timeoutPairing :: "env \<Rightarrow> string \<Rightarrow> string \<Rightarrow> string \<Rightarrow> unit act" where
  "timeoutPairing en hex code msg = lookM (\<lambda>s.
     case findByRoute hex s of
       None \<Rightarrow> ret ()
     | Some ws \<Rightarrow>
         (case att s ws of
            None \<Rightarrow> ret ()
          | Some a \<Rightarrow> if a_kind a \<noteq> KPairing then ret () else closeBind en ws code msg True))"

text \<open>Every pairing socket of a slot: the loop of \<^verbatim>\<open>expireSlot\<close> and \<^verbatim>\<open>handlePairClose\<close>.\<close>

definition close_pairings :: "env \<Rightarrow> string \<Rightarrow> string \<Rightarrow> string \<Rightarrow> unit act" where
  "close_pairings en pairRef code msg = lookM (\<lambda>s. for_each (rm_live s) (\<lambda>ws. lookM (\<lambda>t.
     case att t ws of
       None \<Rightarrow> ret ()
     | Some a \<Rightarrow>
         if a_kind a = KPairing \<and> a_pair_ref a = pairRef then closeBind en ws code msg True
         else ret ())))"

definition expireSlot :: "env \<Rightarrow> string \<Rightarrow> unit act" where
  "expireSlot en pairRef = lookM (\<lambda>s.
     case loadSlot (rm_store s) of
       None \<Rightarrow> ret ()
     | Some slot \<Rightarrow>
         if pair_ref slot \<noteq> pairRef \<or> deadline slot > rm_clock s then ret ()
         else seqs [
           close_pairings en pairRef ''unpaired'' ''pairing slot expired'',
           lookM (\<lambda>t. case rm_daemon t of
                  None \<Rightarrow> ret ()
                | Some d \<Rightarrow> sendErr en d ''pairing_expired'' ''pairing slot expired''
                    (no_extra\<lparr>x_pairRef := Some pairRef\<rparr>)),
           storeM en deleteSlot,
           (if e_hasIndex en then idx_remove en (pair_loc slot) (pair_ref slot) else await en)])"

text \<open>\<^verbatim>\<open>withPairingLock\<close>: waiting for the previous holder is an \<^verbatim>\<open>await\<close>, and so is handing over.\<close>

definition withPairingLock :: "env \<Rightarrow> unit act \<Rightarrow> unit act" where
  "withPairingLock en work = seqs [await en, work, await en]"

definition applyAlarm :: "env \<Rightarrow> alarm_kind \<Rightarrow> string \<Rightarrow> number \<Rightarrow> unit act" where
  "applyAlarm en kind ref now =
     (case kind of
        Hello5s \<Rightarrow> closeExpiredHellos en now
      | Resume15s \<Rightarrow> closeExpiredResumes en now
      | PairFirst15s \<Rightarrow> timeoutPairing en ref ''pair_timeout'' ''pairing handshake did not start''
      | PairConfirm30s \<Rightarrow> timeoutPairing en ref ''pair_timeout'' ''pairing proof did not arrive''
      | PairTtl \<Rightarrow> withPairingLock en (expireSlot en ref)
      | Ticket15s \<Rightarrow> storeM en (expireTickets now))"

definition harvestDue :: "env \<Rightarrow> unit act" where
  "harvestDue en = lookM (\<lambda>s.
     let now = rm_clock s; due = dueAlarms now (rm_store s) in
     seqs [
       for_each due (\<lambda>row. seqs [noteAlarmLate (max 0 (now - al_at row)),
                                 applyAlarm en (al_kind row) (al_ref row) now, await en]),
       (if due \<noteq> [] then storeM en (deleteAlarmIds (map al_id due)) else ret ()),
       storeM en (expireTickets now)])"

definition alarm :: "env \<Rightarrow> unit act" where
  "alarm en = seqs [harvestDue en, await en, flushFwd, syncHeapAlarm en]"

section \<open>Arming\<close>

definition armHello :: "env \<Rightarrow> string \<Rightarrow> number \<Rightarrow> unit act" where
  "armHello en ref helloAt = schedule en Hello5s ref (helloAt + HELLO_GRACE_MS)"

definition armResume :: "env \<Rightarrow> string \<Rightarrow> number \<Rightarrow> unit act" where
  "armResume en hex created = schedule en Resume15s hex (created + RESUME_MS)"

definition armPairFirst :: "env \<Rightarrow> string \<Rightarrow> number \<Rightarrow> unit act" where
  "armPairFirst en hex created = schedule en PairFirst15s hex (created + PAIR_FIRST_MS)"

definition advancePairFrames :: "env \<Rightarrow> string \<Rightarrow> number \<Rightarrow> number \<Rightarrow> unit act" where
  "advancePairFrames en hex nframes slotDeadline = lookM (\<lambda>s.
     if nframes = 1 then
       seqs [schedule en PairConfirm30s hex (rm_clock s + PAIR_CONFIRM_MS),
             storeM en (deleteAlarmsByKindRef PairFirst15s hex),
             syncHeapAlarm en]
     else if nframes = 2 then
       seqs [storeM en (deleteAlarmsByKindRef PairFirst15s hex),
             storeM en (deleteAlarmsByKindRef PairConfirm30s hex),
             schedule en PairConfirm30s hex (rm_clock s + max 1000 (slotDeadline - rm_clock s))]
     else ret ())"

section \<open>The room invariant\<close>

lemma keeps_due [keeps_intros]:
  "keeps room_inv (closeExpiredHellos en now)" "keeps room_inv (closeExpiredResumes en now)"
  "keeps room_inv (timeoutPairing en hex c m)" "keeps room_inv (close_pairings en p c m)"
  unfolding closeExpiredHellos_def closeExpiredResumes_def timeoutPairing_def close_pairings_def Let_def
  by (intro keeps_intros)+

lemma keeps_expireSlot [keeps_intros]: "env_ok en \<Longrightarrow> keeps room_inv (expireSlot en p)"
  unfolding expireSlot_def by (intro keeps_intros)

lemma keeps_withPairingLock [keeps_intros]:
  "env_ok en \<Longrightarrow> keeps room_inv work \<Longrightarrow> keeps room_inv (withPairingLock en work)"
  unfolding withPairingLock_def by (intro keeps_intros)

lemma keeps_applyAlarm [keeps_intros]: "env_ok en \<Longrightarrow> keeps room_inv (applyAlarm en k r now)"
  unfolding applyAlarm_def by (cases k) (auto intro!: keeps_intros)

lemma keeps_alarm [keeps_intros]: "env_ok en \<Longrightarrow> keeps room_inv (harvestDue en)" "env_ok en \<Longrightarrow> keeps room_inv (alarm en)"
  unfolding alarm_def harvestDue_def Let_def by (intro keeps_intros; assumption)+

lemma keeps_arm [keeps_intros]:
  "env_ok en \<Longrightarrow> keeps room_inv (armHello en r tm)" "env_ok en \<Longrightarrow> keeps room_inv (armResume en r tm)"
  "env_ok en \<Longrightarrow> keeps room_inv (armPairFirst en r tm)" "env_ok en \<Longrightarrow> keeps room_inv (advancePairFrames en r n dl)"
  unfolding armHello_def armResume_def armPairFirst_def advancePairFrames_def by (intro keeps_intros; assumption)+

end
