(* ===== verification/Session.thy ===== *)
theory Session
  imports Alarms
begin

text \<open>
  Session traffic: \<^verbatim>\<open>workers/pairfob-origin/src/room/session.ts\<close> (client hello, attach,
  established, daemon errors) and \<^verbatim>\<open>room/ping.ts\<close>, and the registration of a daemon,
  \<^verbatim>\<open>room/daemon-hello.ts\<close>.
\<close>

section \<open>Keepalive\<close>

definition handlePing :: "env \<Rightarrow> nat \<Rightarrow> frame \<Rightarrow> unit act" where
  "handlePing en ws fr = lookM (\<lambda>s.
     let now = rm_clock s;
         answer = (if length (f_payload fr) \<noteq> 8 then reject en ws ''unbound'' ''PING payload must be exactly 8 bytes''
                   else bindM (liftE (encode \<lparr> f_version = ENVELOPE_VERSION, f_typ = Typ_PONG, f_flags = 0,
                                              f_routeId = f_routeId fr, f_payload = f_payload fr \<rparr>))
                          (\<lambda>w. send en ws (OutWire w)))
     in case att s ws of
          None \<Rightarrow> answer
        | Some a \<Rightarrow>
            if a_role a = RPhone \<and> a_mode a = MHello \<and> a_kind a = KNone \<and> a_hello_at_ms a \<noteq> 0
               \<and> now - a_hello_at_ms a > HELLO_GRACE_MS
            then seqs [sendErr en ws ''unbound'' ''5s attach timeout'' no_extra, close ws ''unbound'']
            else if a_kind a = KResumehello \<and> now - a_created_ms a > RESUME_MS
            then bindM (if a_route_id a \<noteq> [] then bindM (liftE (hexToBytes (a_route_id a))) (\<lambda>b. ret (Some b)) else ret None)
                   (\<lambda>rid. seqs [sendErr en ws ''unpaired'' ''15s DeviceHello timeout'' (no_extra\<lparr>x_routeId := rid\<rparr>),
                                close ws ''unpaired''])
            else answer)"

definition handlePong :: "env \<Rightarrow> nat \<Rightarrow> frame \<Rightarrow> unit act" where
  "handlePong en ws fr =
     (if length (f_payload fr) \<noteq> 8 then reject en ws ''unbound'' ''PONG payload must be exactly 8 bytes'' else ret ())"

section \<open>Clients\<close>

definition handleClientHello :: "env \<Rightarrow> nat \<Rightarrow> frame \<Rightarrow> unit act" where
  "handleClientHello en ws fr = lookM (\<lambda>s.
     if \<not> isZeroRoute (f_routeId fr) then reject en ws ''bad_token'' ''HELLO_CLIENT route_id must be zero''
     else case parseJSONObject (f_payload fr) of
         None \<Rightarrow> reject en ws ''bad_token'' ''invalid HELLO_CLIENT payload''
       | Some req \<Rightarrow>
           if jget req ''v'' \<noteq> Some (JNum PROTOCOL) \<or> jget req ''protocol'' \<noteq> Some (JNum PROTOCOL)
           then reject en ws ''bad_token'' ''invalid HELLO_CLIENT payload''
           else case att s ws of
               None \<Rightarrow> reject en ws ''unbound'' ''HELLO_CLIENT on non-phone websocket''
             | Some a \<Rightarrow>
                 if a_role a \<noteq> RPhone then reject en ws ''unbound'' ''HELLO_CLIENT on non-phone websocket''
                 else if a_hello_at_ms a \<noteq> 0 \<and> a_mode a = MHello \<and> a_kind a = KNone
                 then seqs [sendErr en ws ''unbound'' ''duplicate HELLO_CLIENT'' no_extra, close ws ''unbound'']
                 else seqs [writeAtt ws (a\<lparr>a_hello_at_ms := rm_clock s, a_mode := MHello\<rparr>),
                            armHello en (js_String (rm_clock s)) (rm_clock s)])"

definition handleSessionAttach :: "env \<Rightarrow> nat \<Rightarrow> frame \<Rightarrow> unit act" where
  "handleSessionAttach en ws fr = lookM (\<lambda>s.
     if \<not> isZeroRoute (f_routeId fr) then reject en ws ''bad_token'' ''invalid SESSION_ATTACH payload''
     else case parseJSONObject (f_payload fr) of
         None \<Rightarrow> reject en ws ''bad_token'' ''invalid SESSION_ATTACH payload''
       | Some req \<Rightarrow>
           if jget req ''v'' \<noteq> Some (JNum PROTOCOL) \<or> \<not> DAEMON_ID_RE (jstr req ''daemon_id'')
           then reject en ws ''bad_token'' ''invalid SESSION_ATTACH payload''
           else case att s ws of
               None \<Rightarrow> reject en ws ''unbound'' ''SESSION_ATTACH on non-phone websocket''
             | Some a \<Rightarrow>
                 if a_role a \<noteq> RPhone then reject en ws ''unbound'' ''SESSION_ATTACH on non-phone websocket''
                 else if ownerMismatch a
                 then seqs [sendErr en ws ''forbidden'' ''device belongs to another account'' no_extra,
                            close ws ''forbidden'']
                 else if a_hello_at_ms a = 0 \<or> rm_clock s - a_hello_at_ms a > HELLO_GRACE_MS
                 then seqs [sendErr en ws ''unbound'' ''SESSION_ATTACH after HELLO timeout'' no_extra,
                            close ws ''unbound'']
                 else if a_mode a = MPairing \<or> a_kind a = KPairing
                 then sendErr en ws ''wrong_ws'' ''SESSION_ATTACH on PairingWS'' no_extra
                 else if a_kind a = KResumehello \<or> a_kind a = KEstablished \<or> a_mode a = MSession
                 then sendErr en ws ''wrong_ws'' ''SessionWS already attached'' no_extra
                 else if jstr req ''daemon_id'' \<noteq> e_daemonId en
                 then reject en ws ''bad_frame'' ''SESSION_ATTACH daemon_id mismatch''
                 else if rm_daemon s = None
                 then sendErr en ws ''daemon_offline'' ''no daemon'' no_extra
                 else seqs [
                   lookM (\<lambda>t. if kind_count KResumehello t \<ge> MAX_RESUME
                        then (case lruResume t of
                                None \<Rightarrow> ret ()
                              | Some lru \<Rightarrow> closeBind en lru ''kicked'' ''replaced LRU ResumeHello'' True)
                        else ret ()),
                   bindM (newRouteId (random en)) (\<lambda>rid. lookM (\<lambda>t.
                     let hex = routeHex rid; now = rm_clock t;
                         body = JObj [(''v'', JNum PROTOCOL), (''route_id'', JStr hex)] in
                     seqs [
                       writeAtt ws (a\<lparr>a_mode := MSession, a_kind := KResumehello, a_route_id := hex,
                                      a_created_ms := now\<rparr>),
                       storeM en (upsertBind \<lparr> b_route_id = hex, b_kind = ''resumehello'', b_created_at = now,
                                               b_pair_ref = [] \<rparr>),
                       noteBind ''resumehello'',
                       armResume en hex now,
                       sendJSON en ws Typ_SESSION_BOUND rid body,
                       lookM (\<lambda>u. case rm_daemon u of
                              None \<Rightarrow> throw (Error ''cannot read properties of null'')
                            | Some d \<Rightarrow> sendJSON en d Typ_SESSION_BOUND rid body)]))])"

section \<open>Daemon frames about sessions\<close>

definition send_frame :: "env \<Rightarrow> nat \<Rightarrow> frame \<Rightarrow> unit act" where
  "send_frame en ws fr = bindM (liftE (encode fr)) (\<lambda>w. send en ws (OutWire w))"

text \<open>A claim is confirmed with the account store, over the network; a failure is swallowed.\<close>

definition confirm_claim :: "env \<Rightarrow> string \<Rightarrow> string \<Rightarrow> unit act" where
  "confirm_claim en account route =
     seqs [await en,
           lookM (\<lambda>s. if \<not> e_hasClaims en \<or> e_confirmFails en (rm_awaits s) then ret ()
                else modifyM (\<lambda>t. t\<lparr>rm_confirmed := rm_confirmed t @ [(account, route)]\<rparr>)),
           await en]"

definition handleSessionEstablished :: "env \<Rightarrow> nat \<Rightarrow> frame \<Rightarrow> unit act" where
  "handleSessionEstablished en ws fr = lookM (\<lambda>s.
     let want = routeHex (f_routeId fr); rx = no_extra\<lparr>x_routeId := Some (f_routeId fr)\<rparr> in
     if rm_daemon s \<noteq> Some ws then ret ()
     else if isZeroRoute (f_routeId fr)
             \<or> (case parseJSONObject (f_payload fr) of
                  None \<Rightarrow> True
                | Some req \<Rightarrow> jget req ''v'' \<noteq> Some (JNum PROTOCOL) \<or> jstr req ''route_id'' \<noteq> want)
     then sendErr en ws ''unbound'' ''SESSION_ESTABLISHED route mismatch'' rx
     else case findByRoute want s of
         None \<Rightarrow> sendErr en ws ''unbound'' ''route is not ResumeHello'' rx
       | Some client \<Rightarrow>
           (case att s client of
              None \<Rightarrow> sendErr en ws ''unbound'' ''route is not ResumeHello'' rx
            | Some a \<Rightarrow>
                if a_kind a \<noteq> KResumehello
                then sendErr en ws ''unbound'' ''route is not ResumeHello'' rx
                else if kind_count KEstablished s \<ge> MAX_ESTABLISHED
                then closeBind en client ''too_many_devices'' ''established cap 10'' True
                else seqs [
                  writeAtt client (a\<lparr>a_kind := KEstablished\<rparr>),
                  storeM en (upsertBind \<lparr> b_route_id = a_route_id a, b_kind = ''established'',
                                          b_created_at = a_created_ms a, b_pair_ref = [] \<rparr>),
                  noteBind ''established'',
                  clearKindRef en Resume15s (a_route_id a),
                  (if a_account a \<noteq> [] then confirm_claim en (a_account a) (a_route_id a) else ret ()),
                  send_frame en client fr]))"

definition handleFakeEstablished :: "env \<Rightarrow> nat \<Rightarrow> unit act" where
  "handleFakeEstablished en ws = sendErr en ws ''unbound'' ''clients must not send SESSION_ESTABLISHED'' no_extra"

definition handleDaemonError :: "env \<Rightarrow> nat \<Rightarrow> frame \<Rightarrow> unit act" where
  "handleDaemonError en ws fr = lookM (\<lambda>s.
     case parseJSONObject (f_payload fr) of
       None \<Rightarrow> sendErr en ws ''bad_token'' ''invalid ERROR payload'' no_extra
     | Some req \<Rightarrow>
         let code = jstr req ''code''; bodyRid = jstr req ''route_id''; want = routeHex (f_routeId fr) in
         if code = [] then sendErr en ws ''bad_token'' ''invalid ERROR payload'' no_extra
         else if rm_daemon s \<noteq> Some ws then ret ()
         else if bodyRid \<noteq> [] then
           (if bodyRid \<noteq> want then sendErr en ws ''bad_token'' ''ERROR route mismatch'' no_extra
            else case findByRoute want s of
                None \<Rightarrow> ret ()
              | Some client \<Rightarrow>
                  seqs [send_frame en client fr,
                        lookM (\<lambda>t. if route_of (att t client) \<noteq> [] then deleteBind en (route_of (att t client))
                             else ret ()),
                        close client code])
         else if \<not> isZeroRoute (f_routeId fr)
         then sendErr en ws ''bad_token'' ''ERROR missing route_id payload'' no_extra
         else for_each (rm_live s) (\<lambda>c. lookM (\<lambda>t.
                case att t c of
                  None \<Rightarrow> ret ()
                | Some a \<Rightarrow> if a_role a = RPhone then send_frame en c fr else ret ())))"

section \<open>Daemon registration\<close>

definition hello_ok :: "env \<Rightarrow> jobject \<Rightarrow> bool" where
  "hello_ok en req \<longleftrightarrow>
     \<not> (jget req ''v'' \<noteq> Some (JNum PROTOCOL) \<or> jget req ''op'' \<noteq> Some (JStr ''RegisterDaemon'')
        \<or> (case jget req ''join_token'' of Some (JStr j) \<Rightarrow> j \<noteq> [] | _ \<Rightarrow> False)
        \<or> \<not> DAEMON_ID_RE (jstr req ''daemon_id'') \<or> jstr req ''daemon_id'' \<noteq> e_daemonId en
        \<or> \<not> RECONNECT_TOKEN_RE (jstr req ''reconnect_token''))"

definition register_daemon :: "env \<Rightarrow> nat \<Rightarrow> frame \<Rightarrow> string \<Rightarrow> unit act" where
  "register_daemon en ws fr token =
     seqs [
       lookM (\<lambda>s. case rm_daemon s of
              None \<Rightarrow> ret ()
            | Some d \<Rightarrow>
                if d = ws then ret ()
                else seqs [notifyReplaced en, close d ''replaced'']),
       modifyM (\<lambda>s. s\<lparr>rm_daemon := Some ws\<rparr>),
       lookM (\<lambda>s. writeAtt ws (newAttachment RDaemon (rm_clock s) (\<lambda>a. a\<lparr>a_hello_at_ms := rm_clock s\<rparr>))),
       lookM (\<lambda>s. sendJSON en ws Typ_HELLO_DAEMON (f_routeId fr)
              (JObj [(''v'', JNum PROTOCOL), (''op'', JStr ''RegisterDaemon''), (''ok'', JBool True),
                     (''daemon_id'', JStr (e_daemonId en)), (''reconnect_token'', JStr token),
                     (''relay_time'', JNum (of_int \<lfloor>rm_clock s / 1000\<rfloor>))]))]"

definition handleDaemonHello :: "env \<Rightarrow> nat \<Rightarrow> frame \<Rightarrow> unit act" where
  "handleDaemonHello en ws fr = lookM (\<lambda>s.
     if \<not> isZeroRoute (f_routeId fr) then reject en ws ''bad_token'' ''HELLO_DAEMON route_id must be zero''
     else case parseJSONObject (f_payload fr) of
         None \<Rightarrow> reject en ws ''bad_token'' ''invalid RegisterDaemon payload''
       | Some req \<Rightarrow>
           let token = jstr req ''reconnect_token'' in
           if \<not> hello_ok en req then reject en ws ''bad_token'' ''invalid RegisterDaemon payload''
           else if \<not> (case att s ws of None \<Rightarrow> False | Some a \<Rightarrow> a_role a = RDaemon)
           then reject en ws ''unbound'' ''HELLO_DAEMON on non-daemon websocket''
           else if rm_daemon s = Some ws
           then seqs [sendErr en ws ''unbound'' ''daemon websocket already registered'' no_extra, close ws ''unbound'']
           else bindM loadReconnectHash (\<lambda>want.
                  if want = [] then reject en ws ''enroll_required'' ''room has no reconnect hash''
                  else bindM (await en) (\<lambda>_.
                    if \<not> timingSafeEqual (e_sha256Hex en token) want then reject en ws ''bad_token'' ''reconnect''
                    else register_daemon en ws fr token)))"

section \<open>The room invariant\<close>

lemma keeps_ping [keeps_intros]: "keeps room_inv (handlePing en ws fr)" "keeps room_inv (handlePong en ws fr)"
  unfolding handlePing_def handlePong_def Let_def by (intro keeps_intros)+

lemma keeps_send_frame [keeps_intros]: "keeps room_inv (send_frame en ws fr)"
  unfolding send_frame_def by (intro keeps_intros)

lemma keeps_confirm_claim [keeps_intros]: "env_ok en \<Longrightarrow> keeps room_inv (confirm_claim en a r)"
  unfolding confirm_claim_def by (intro keeps_intros) (assumption | rule room_inv_view, simp, assumption)+

lemma keeps_handleDaemonError [keeps_intros]: "keeps room_inv (handleDaemonError en ws fr)"
  unfolding handleDaemonError_def Let_def by (intro keeps_intros)

lemma keeps_handleFakeEstablished [keeps_intros]: "keeps room_inv (handleFakeEstablished en ws)"
  unfolding handleFakeEstablished_def by (intro keeps_intros)

lemma ownerMismatch_upd [simp]:
  "ownerMismatch (a\<lparr>a_mode := m\<rparr>) = ownerMismatch a" "ownerMismatch (a\<lparr>a_kind := k\<rparr>) = ownerMismatch a"
  "ownerMismatch (a\<lparr>a_route_id := r\<rparr>) = ownerMismatch a" "ownerMismatch (a\<lparr>a_created_ms := n\<rparr>) = ownerMismatch a"
  "ownerMismatch (a\<lparr>a_hello_at_ms := n\<rparr>) = ownerMismatch a" "ownerMismatch (a\<lparr>a_pair_ref := p\<rparr>) = ownerMismatch a"
  "ownerMismatch (a\<lparr>a_pair_frames := n\<rparr>) = ownerMismatch a"
  by (simp_all add: ownerMismatch_def)

text \<open>A phone's attachment rewritten by its own handler, without becoming established or pairing.\<close>

lemma leads_rewrite:
  assumes "a_role a = RPhone" and "att_ok a \<Longrightarrow> att_ok b"
    and "a_kind b = KEstablished \<Longrightarrow> a_kind a = KEstablished" and "a_kind b = KPairing \<Longrightarrow> a_kind a = KPairing"
  shows "leads (inv_att ws a) room_inv (writeAtt ws b)"
proof (rule leadsI)
  fix s
  assume i: "inv_att ws a s"
  then have ok: "att_ok a" and aw: "att s ws = Some a" and inv: "room_inv s"
    by (auto simp: inv_att_def room_inv_def base_inv_def)
  show "room_inv (snd (writeAtt ws b s))"
    using assms ok aw inv inv_att_not_daemon [OF i assms(1)]
    by (auto simp: writeAtt_def modifyM_def is_kind_def intro!: writeAtt_inv)
qed

lemma keeps_handleClientHello [keeps_intros]:
  assumes "env_ok en"
  shows "keeps room_inv (handleClientHello en ws fr)"
  unfolding handleClientHello_def keeps_leads
proof (rule leads_lookM, intro leads_if leads_option, goal_cases)
  case (7 s req a)
  have ok: "att_ok a \<Longrightarrow> att_ok (a\<lparr>a_hello_at_ms := rm_clock s, a_mode := MHello\<rparr>)"
    by (simp add: att_ok_def)
  have "leads (inv_att ws a) room_inv (seqs [writeAtt ws (a\<lparr>a_hello_at_ms := rm_clock s, a_mode := MHello\<rparr>),
      armHello en (js_String (rm_clock s)) (rm_clock s)])"
    using 7 assms ok by (intro leads_seqs_Cons [OF leads_rewrite [of a]])
      (auto simp: keeps_leads [symmetric] intro!: keeps_intros)
  then show ?case by (rule leads_weaken) (use 7 in \<open>auto simp: inv_att_def\<close>)
qed (use assms in \<open>auto intro!: leads_keeps keeps_intros\<close>)


subsection \<open>Attaching a session\<close>

lemma newRouteId_value:
  assumes "env_ok en"
  shows "\<exists>r t. newRouteId (random en) s = (r, t) \<and> view t = view s \<and>
           (\<forall>rid. r = Inr rid \<longrightarrow> length rid = 16 \<and> \<not> isZeroRoute rid)"
proof -
  have "\<exists>r t. newRouteId_loop n (random en) s = (r, t) \<and> view t = view s \<and>
           (\<forall>rid. r = Inr rid \<longrightarrow> length rid = 16 \<and> \<not> isZeroRoute rid)" for n
  proof (induction n arbitrary: s)
    case (Suc n)
    from Suc [of "s\<lparr>rm_draws := Suc (rm_draws s)\<rparr>"] assms show ?case
      by (auto simp: bindM_def random_def env_ok_def ret_def)
  qed (simp add: throw_def)
  then show ?thesis by (simp add: newRouteId_def)
qed

lemma newRouteId_step:
  assumes "env_ok en" and "on_view P" and "P s" and "\<And>t. P t \<Longrightarrow> Q t"
  shows "case newRouteId (random en) s of
           (Inl _, t) \<Rightarrow> Q t | (Inr rid, t) \<Rightarrow> P t \<and> length rid = 16 \<and> \<not> isZeroRoute rid"
proof -
  obtain r t where rt: "newRouteId (random en) s = (r, t)" and v: "view t = view s"
    and rid: "\<forall>rid. r = Inr rid \<longrightarrow> length rid = 16 \<and> \<not> isZeroRoute rid"
    using newRouteId_value [OF assms(1)] by blast
  have "P t" using assms(2,3) v unfolding on_view_def by metis
  with rt rid assms(4) show ?thesis by (cases r) auto
qed

lemma valid_routeI: "length rid = 16 \<Longrightarrow> \<not> isZeroRoute rid \<Longrightarrow> valid_route (routeHex rid)"
  by (auto simp: valid_route_def)

lemma routeHex_ne: "length rid = 16 \<Longrightarrow> routeHex rid \<noteq> []"
  by (auto simp: routeHex_def bytesToHex_def HEX_BYTE_def dest: arg_cong [where f = length])

lemma keeps_inv_att_closeBind: "keeps (inv_att ws a) (closeBind en w c m b)"
  unfolding closeBind_def Let_def
  by (intro keeps_lookM keeps_seqs_Cons keeps_seqs_Nil keeps_option keeps_if keeps_ret keeps_inv_att_deleteBind
      frames_sendErr [THEN keeps_frame] frames_close [THEN keeps_frame] on_view_inv_att)

lemma leads_session_bound:
  assumes en: "env_ok en" and a: "a_role a = RPhone" "\<not> ownerMismatch a" and rid: "length rid = 16" "\<not> isZeroRoute rid"
  shows "leads (inv_att ws a) room_inv (lookM (\<lambda>t.
     let hex = routeHex rid; now = rm_clock t;
         body = JObj [(''v'', JNum PROTOCOL), (''route_id'', JStr hex)] in
     seqs [
       writeAtt ws (a\<lparr>a_mode := MSession, a_kind := KResumehello, a_route_id := hex, a_created_ms := now\<rparr>),
       storeM en (upsertBind \<lparr> b_route_id = hex, b_kind = ''resumehello'', b_created_at = now, b_pair_ref = [] \<rparr>),
       noteBind ''resumehello'',
       armResume en hex now,
       sendJSON en ws Typ_SESSION_BOUND rid body,
       lookM (\<lambda>u. case rm_daemon u of
              None \<Rightarrow> throw (Error ''cannot read properties of null'')
            | Some d \<Rightarrow> sendJSON en d Typ_SESSION_BOUND rid body)]))"
  unfolding Let_def
proof (rule leads_lookM, goal_cases)
  case (1 t)
  let ?b = "a\<lparr>a_mode := MSession, a_kind := KResumehello, a_route_id := routeHex rid, a_created_ms := rm_clock t\<rparr>"
  have ok: "att_ok ?b" using a rid by (simp add: att_ok_def valid_routeI routeHex_ne)
  have "leads (inv_att ws a) room_inv (writeAtt ws ?b)"
    by (rule leads_rewrite) (use a ok in auto)
  note st = leads_seqs_Cons [OF this]
  show ?case
    by (rule leads_weaken [OF st, where Q' = room_inv], assumption)
      (use 1 en in \<open>auto simp: keeps_leads [symmetric] intro!: keeps_intros\<close>)
qed

lemma keeps_handleSessionAttach [keeps_intros]:
  assumes en: "env_ok en"
  shows "keeps room_inv (handleSessionAttach en ws fr)"
  unfolding handleSessionAttach_def keeps_leads
proof (rule leads_lookM, intro leads_if leads_option, goal_cases)
  case (12 s req a)
  then have a: "a_role a = RPhone" "\<not> ownerMismatch a" by auto
  have evict: "leads (inv_att ws a) (inv_att ws a)
      (lookM (\<lambda>t. if kind_count KResumehello t \<ge> MAX_RESUME
                  then (case lruResume t of None \<Rightarrow> ret ()
                        | Some lru \<Rightarrow> closeBind en lru ''kicked'' ''replaced LRU ResumeHello'' True)
                  else ret ()))"
    unfolding keeps_leads [symmetric]
    by (intro keeps_lookM keeps_if keeps_option keeps_ret keeps_inv_att_closeBind)
  show ?case
    apply (rule leads_weaken [where P' = "inv_att ws a" and Q' = room_inv])
      apply (rule leads_seqs_Cons [OF evict inv_att_inv], assumption)
      apply (rule leads_seqs_Cons [where R = room_inv])
        apply (rule leads_bindM [where R = "\<lambda>rid t. inv_att ws a t \<and> length rid = 16 \<and> \<not> isZeroRoute rid"])
         apply (rule newRouteId_step [OF en on_view_inv_att]; simp add: inv_att_inv)
        apply (rule leads_cond, rule leads_session_bound [OF en a])
    by (use 12 in \<open>auto simp: inv_att_def intro: leads_seqs_Nil\<close>)
qed (use assms in \<open>auto intro!: leads_keeps keeps_intros\<close>)

subsection \<open>Establishing and registering\<close>

text \<open>Becoming established needs a free place among the ten.\<close>

lemma leads_establish:
  assumes "a_kind a = KResumehello"
  shows "leads (\<lambda>t. inv_att w a t \<and> kind_count KEstablished t < MAX_ESTABLISHED) room_inv
           (writeAtt w (a\<lparr>a_kind := KEstablished\<rparr>))"
proof (rule leadsI)
  fix s
  assume i: "inv_att w a s \<and> kind_count KEstablished s < MAX_ESTABLISHED"
  then have ok: "att_ok a" and inv: "room_inv s" by (auto simp: inv_att_def room_inv_def base_inv_def)
  with assms have ph: "a_role a = RPhone" and ok': "att_ok (a\<lparr>a_kind := KEstablished\<rparr>)"
    by (auto simp: att_ok_def)
  show "room_inv (snd (writeAtt w (a\<lparr>a_kind := KEstablished\<rparr>) s))"
    using i ok' inv inv_att_not_daemon [OF _ ph, of w s]
    by (auto simp: writeAtt_def modifyM_def is_kind_def intro!: writeAtt_inv)
qed

lemma keeps_handleSessionEstablished [keeps_intros]:
  assumes en: "env_ok en"
  shows "keeps room_inv (handleSessionEstablished en ws fr)"
  unfolding handleSessionEstablished_def Let_def keeps_leads
proof (rule leads_lookM, intro leads_if leads_option, goal_cases)
  case (7 s w a)
  then have k: "a_kind a = KResumehello" by simp
  show ?case
    by (rule leads_weaken [OF leads_seqs_Cons [OF leads_establish [OF k]], where Q' = room_inv], assumption)
      (use 7 en in \<open>auto simp: keeps_leads [symmetric] inv_att_def intro!: keeps_intros\<close>)
qed (use assms in \<open>auto intro!: leads_keeps keeps_intros\<close>)

text \<open>
  Registration names the socket as the daemon before it rewrites the attachment; the
  invariant holds again when both are done.
\<close>

lemma register_state_inv:
  assumes inv: "room_inv s" and b: "b = newAttachment RDaemon (rm_clock s) (\<lambda>a. a\<lparr>a_hello_at_ms := rm_clock s\<rparr>)"
  shows "room_inv (writeAtt_state ws b (s\<lparr>rm_daemon := Some ws\<rparr>))"
proof -
  have clk: "0 < rm_clock s" using inv by (simp add: room_inv_def base_inv_def)
  have nd: "room_inv (s\<lparr>rm_daemon := None\<rparr>)"
    using keepsD [OF keeps_daemon_None inv] by (simp add: modifyM_def)
  have "room_inv (writeAtt_state ws b (s\<lparr>rm_daemon := None\<rparr>))"
    using nd by (rule writeAtt_inv) (simp_all add: b newAttachment_def att_ok_def is_kind_def)
  moreover have "isRegisteredDaemon (Some b)"
    using clk by (simp add: b newAttachment_def isRegisteredDaemon_def)
  moreover have "writeAtt_state ws b (s\<lparr>rm_daemon := Some ws\<rparr>)
      = (writeAtt_state ws b (s\<lparr>rm_daemon := None\<rparr>))\<lparr>rm_daemon := Some ws\<rparr>"
    by (simp add: writeAtt_state_def Let_def forgetRoute_def rememberRoute_def upd_sock_def att_def)
  ultimately show ?thesis
    by (simp add: room_inv_def base_inv_upd routes_ok_def daemon_ok_def)
qed

lemma keeps_register_daemon [keeps_intros]: "keeps room_inv (register_daemon en ws fr token)"
proof -
  have pair: "keeps room_inv (seqs [modifyM (\<lambda>s. s\<lparr>rm_daemon := Some ws\<rparr>),
      lookM (\<lambda>s. writeAtt ws (newAttachment RDaemon (rm_clock s) (\<lambda>a. a\<lparr>a_hello_at_ms := rm_clock s\<rparr>))), m])"
    if "keeps room_inv m" for m
  proof (rule keepsI)
    fix s
    assume "room_inv s"
    from keepsD [OF that register_state_inv [OF this refl, of ws]]
    show "room_inv (snd (seqs [modifyM (\<lambda>s. s\<lparr>rm_daemon := Some ws\<rparr>),
      lookM (\<lambda>s. writeAtt ws (newAttachment RDaemon (rm_clock s) (\<lambda>a. a\<lparr>a_hello_at_ms := rm_clock s\<rparr>))), m] s))"
      by (auto simp: comp_defs writeAtt_def split: prod.splits sum.splits)
  qed
  show ?thesis
    unfolding register_daemon_def by (rule keeps_seqs_Cons) (intro keeps_intros pair)+
qed

lemma keeps_handleDaemonHello [keeps_intros]: "env_ok en \<Longrightarrow> keeps room_inv (handleDaemonHello en ws fr)"
  unfolding handleDaemonHello_def Let_def by (intro keeps_intros)

end
