(* ===== verification/Pairing.thy ===== *)
theory Pairing
  imports Session
begin

text \<open>
  Pairing, \<^verbatim>\<open>workers/pairfob-origin/src/room/pairing.ts\<close>: the daemon opens and closes the
  room's single pairing slot, a phone attaches to it. Opening mints a location code, writes
  the slot, publishes it in the index and undoes the slot when the index refuses.
\<close>

section \<open>Opening a slot\<close>

definition ttl_ms :: "number \<Rightarrow> number" where
  "ttl_ms ttlS = (if ttlS \<ge> MIN_TTL_S \<and> ttlS \<le> MAX_TTL_S then ttlS * 1000 else DEFAULT_TTL_MS)"

definition pair_open_ok :: "string \<Rightarrow> string \<Rightarrow> number \<Rightarrow> json" where
  "pair_open_ok pairRef loc ttlMs =
     JObj [(''v'', JNum PROTOCOL), (''op'', JStr ''CreatePairing''), (''ok'', JBool True),
           (''pair_ref'', JStr pairRef), (''pair_loc'', JStr loc), (''ttl_s'', JNum (js_round (ttlMs / 1000)))]"

text \<open>\<^verbatim>\<open>if (existing) putSlot(existing) else deleteSlot()\<close>\<close>

definition restoreSlot :: "env \<Rightarrow> pair_slot option \<Rightarrow> unit act" where
  "restoreSlot en existing = storeM en (case existing of Some x \<Rightarrow> putSlot x | None \<Rightarrow> deleteSlot)"

definition px :: "string \<Rightarrow> err_extra" where
  "px pairRef = no_extra\<lparr>x_pairRef := Some pairRef\<rparr>"

text \<open>The outcome of a \<^verbatim>\<open>try\<close> block: whether it ran to its end.\<close>

definition attempt :: "unit act \<Rightarrow> bool act" where
  "attempt m = (\<lambda>s. case m s of (Inl _, t) \<Rightarrow> (Inr False, t) | (Inr _, t) \<Rightarrow> (Inr True, t))"

text \<open>The daemon opens the slot it already has: extend its deadline.\<close>

definition refresh_slot :: "env \<Rightarrow> nat \<Rightarrow> frame \<Rightarrow> string \<Rightarrow> number \<Rightarrow> number \<Rightarrow> pair_slot \<Rightarrow> unit act" where
  "refresh_slot en ws fr pairRef ttlMs dl existing =
     bindM (attempt (seqs [storeM en (putSlot (existing\<lparr>deadline := dl\<rparr>)), schedule en PairTtl pairRef dl]))
       (\<lambda>done.
         if \<not> done then
           seqs [storeM en (putSlot existing),
                 sendErr en ws ''index_unavailable'' ''pairing slot refresh failed'' (px pairRef)]
         else bindM (idx_insert en \<lparr> l_pair_loc = pair_loc existing, l_daemon_id = e_daemonId en,
                                     l_pair_ref = pairRef, l_exp = dl \<rparr>)
           (\<lambda>ins.
             if ins \<noteq> IOk then
               seqs [storeM en (putSlot existing),
                     sendErr en ws ''index_unavailable'' ''pairing index refresh failed'' (px pairRef)]
             else lookM (\<lambda>s.
               if rm_daemon s \<noteq> Some ws then idx_remove en (pair_loc existing) pairRef
               else sendJSON en ws Typ_PAIR_OPEN (f_routeId fr) (pair_open_ok pairRef (pair_loc existing) ttlMs))))"

definition close_all_pairings :: "env \<Rightarrow> unit act" where
  "close_all_pairings en = lookM (\<lambda>s. for_each (rm_live s) (\<lambda>c. lookM (\<lambda>t.
     case att t c of
       None \<Rightarrow> ret ()
     | Some a \<Rightarrow>
         if a_kind a = KPairing
         then closeBind en c ''pairing_replaced'' ''another computer opened pairing'' True
         else ret ())))"

text \<open>Up to eight fresh codes; only a conflict in the index tries another.\<close>

fun mint_loop :: "env \<Rightarrow> nat \<Rightarrow> frame \<Rightarrow> string \<Rightarrow> number \<Rightarrow> number \<Rightarrow> pair_slot option \<Rightarrow> nat \<Rightarrow> unit act" where
  "mint_loop en ws fr pairRef ttlMs dl existing 0 =
     sendErr en ws ''index_unavailable'' ''pairing index insert failed'' (px pairRef)"
| "mint_loop en ws fr pairRef ttlMs dl existing (Suc i) =
     bindM (mintLoc (random en)) (\<lambda>loc.
       bindM (attempt (seqs [storeM en (putSlot \<lparr> pair_ref = pairRef, pair_loc = loc, deadline = dl \<rparr>),
                             schedule en PairTtl pairRef dl]))
         (\<lambda>done.
           if \<not> done then
             seqs [restoreSlot en existing,
                   sendErr en ws ''index_unavailable'' ''pairing slot commit failed'' (px pairRef)]
           else bindM (idx_insert en \<lparr> l_pair_loc = loc, l_daemon_id = e_daemonId en, l_pair_ref = pairRef, l_exp = dl \<rparr>)
             (\<lambda>ins.
               if ins = IOk then lookM (\<lambda>s.
                 if rm_daemon s \<noteq> Some ws
                 then seqs [idx_remove en loc pairRef, restoreSlot en existing]
                 else seqs [
                   (case existing of
                      None \<Rightarrow> ret ()
                    | Some x \<Rightarrow>
                        seqs [close_all_pairings en,
                              sendErr en ws ''pairing_replaced'' ''another computer opened pairing'' (px (pair_ref x)),
                              idx_remove en (pair_loc x) (pair_ref x)]),
                   sendJSON en ws Typ_PAIR_OPEN (f_routeId fr) (pair_open_ok pairRef loc ttlMs)])
               else seqs [restoreSlot en existing,
                 (if ins = IFail
                  then sendErr en ws ''index_unavailable'' ''pairing index insert failed'' (px pairRef)
                  else mint_loop en ws fr pairRef ttlMs dl existing i)])))"

definition handlePairOpenLocked :: "env \<Rightarrow> nat \<Rightarrow> frame \<Rightarrow> unit act" where
  "handlePairOpenLocked en ws fr = lookM (\<lambda>s.
     if \<not> isZeroRoute (f_routeId fr) then reject en ws ''bad_token'' ''PAIR_OPEN route_id must be zero''
     else case parseJSONObject (f_payload fr) of
         None \<Rightarrow> sendErr en ws ''bad_token'' ''invalid pairing slot'' no_extra
       | Some req \<Rightarrow>
           let pairRef = jstr req ''pair_ref''; ttlMs = ttl_ms (jnum_or req ''ttl_s'' 180);
               dl = rm_clock s + ttlMs in
           if jget req ''v'' \<noteq> Some (JNum PROTOCOL)
              \<or> (jget req ''op'' \<noteq> None \<and> jget req ''op'' \<noteq> Some (JStr []) \<and> jget req ''op'' \<noteq> Some (JStr ''CreatePairing''))
           then sendErr en ws ''bad_token'' ''invalid pairing slot'' no_extra
           else if \<not> PAIR_REF_RE pairRef then sendErr en ws ''bad_token'' ''invalid pair_ref'' no_extra
           else if rm_daemon s \<noteq> Some ws then sendErr en ws ''unbound'' ''no daemon'' no_extra
           else if jstr req ''daemon_id'' \<noteq> e_daemonId en
           then sendErr en ws ''unbound'' ''daemon_id does not match websocket'' no_extra
           else if \<not> e_hasIndex en
           then sendErr en ws ''index_unavailable'' ''pairing index missing'' (px pairRef)
           else (case loadSlot (rm_store s) of
               Some x \<Rightarrow>
                 if pair_ref x = pairRef then refresh_slot en ws fr pairRef ttlMs dl x
                 else mint_loop en ws fr pairRef ttlMs dl (Some x) LOC_MINT_TRIES
             | None \<Rightarrow> mint_loop en ws fr pairRef ttlMs dl None LOC_MINT_TRIES))"

definition handlePairOpen :: "env \<Rightarrow> nat \<Rightarrow> frame \<Rightarrow> unit act" where
  "handlePairOpen en ws fr = withPairingLock en (handlePairOpenLocked en ws fr)"

section \<open>Closing a slot\<close>

definition handlePairCloseLocked :: "env \<Rightarrow> nat \<Rightarrow> frame \<Rightarrow> unit act" where
  "handlePairCloseLocked en ws fr = lookM (\<lambda>s.
     if \<not> isZeroRoute (f_routeId fr) then sendErr en ws ''bad_token'' ''invalid pair_ref'' no_extra
     else case parseJSONObject (f_payload fr) of
         None \<Rightarrow> sendErr en ws ''bad_token'' ''invalid pair_ref'' no_extra
       | Some req \<Rightarrow>
           let pairRef = jstr req ''pair_ref'' in
           if jget req ''v'' \<noteq> Some (JNum PROTOCOL) \<or> \<not> PAIR_REF_RE pairRef
           then sendErr en ws ''bad_token'' ''invalid pair_ref'' no_extra
           else if rm_daemon s \<noteq> Some ws then sendErr en ws ''unbound'' ''no daemon'' no_extra
           else (case loadSlot (rm_store s) of
               None \<Rightarrow> ret ()
             | Some slot \<Rightarrow>
                 if pair_ref slot \<noteq> pairRef then ret ()
                 else seqs [
                   close_pairings en pairRef ''unpaired'' ''pairing closed'',
                   (if e_hasIndex en then idx_remove en (pair_loc slot) (pair_ref slot) else await en),
                   storeM en deleteSlot,
                   clearKindRef en PairTtl pairRef]))"

definition handlePairClose :: "env \<Rightarrow> nat \<Rightarrow> frame \<Rightarrow> unit act" where
  "handlePairClose en ws fr = withPairingLock en (handlePairCloseLocked en ws fr)"

section \<open>Attaching a phone\<close>

definition slot_open_for :: "string \<Rightarrow> room \<Rightarrow> bool" where
  "slot_open_for pairRef s =
     (case loadSlot (rm_store s) of
        None \<Rightarrow> False
      | Some slot \<Rightarrow> \<not> (deadline slot \<le> rm_clock s \<or> pair_ref slot \<noteq> pairRef))"

definition handlePairAttach :: "env \<Rightarrow> nat \<Rightarrow> frame \<Rightarrow> unit act" where
  "handlePairAttach en ws fr = lookM (\<lambda>s.
     if \<not> isZeroRoute (f_routeId fr) then reject en ws ''bad_token'' ''invalid PAIR_ATTACH payload''
     else case parseJSONObject (f_payload fr) of
         None \<Rightarrow> reject en ws ''bad_token'' ''invalid PAIR_ATTACH payload''
       | Some req \<Rightarrow>
           let pairRef = jstr req ''pair_ref'' in
           if jget req ''v'' \<noteq> Some (JNum PROTOCOL)
           then reject en ws ''bad_token'' ''invalid PAIR_ATTACH payload''
           else if \<not> PAIR_REF_RE pairRef then sendErr en ws ''bad_token'' ''invalid pair_ref'' no_extra
           else case att s ws of
               None \<Rightarrow> reject en ws ''unbound'' ''PAIR_ATTACH on non-phone websocket''
             | Some a \<Rightarrow>
                 if a_role a \<noteq> RPhone then reject en ws ''unbound'' ''PAIR_ATTACH on non-phone websocket''
                 else if ownerMismatch a
                 then seqs [sendErr en ws ''forbidden'' ''device belongs to another account'' no_extra,
                            close ws ''forbidden'']
                 else if a_hello_at_ms a = 0 \<or> rm_clock s - a_hello_at_ms a > HELLO_GRACE_MS
                 then seqs [sendErr en ws ''unbound'' ''PAIR_ATTACH after HELLO timeout'' no_extra,
                            close ws ''unbound'']
                 else if a_mode a = MSession \<or> a_kind a = KResumehello \<or> a_kind a = KEstablished
                 then sendErr en ws ''wrong_ws'' ''PAIR_ATTACH on SessionWS'' no_extra
                 else if a_kind a = KPairing \<or> a_mode a = MPairing
                 then sendErr en ws ''wrong_ws'' ''PairingWS already attached'' no_extra
                 else if rm_daemon s = None then sendErr en ws ''daemon_offline'' ''no daemon'' no_extra
                 else if \<not> slot_open_for pairRef s then sendErr en ws ''unpaired'' ''no slot'' no_extra
                 else if kind_count KPairing s \<ge> MAX_PAIRING
                 then sendErr en ws ''pair_busy'' ''pairing slot already attached'' no_extra
                 else if \<not> allowed (gateCheck s)
                 then sendErr en ws ''rate_limited'' ''too many failed pairing attempts''
                        (no_extra\<lparr>x_retryAfterMs := Some (retryAfterMs (gateCheck s))\<rparr>)
                 else seqs [
                   noteGateAttempt en False,
                   bindM (newRouteId (random en)) (\<lambda>rid. lookM (\<lambda>t.
                     let hex = routeHex rid; now = rm_clock t in
                     seqs [
                       writeAtt ws (a\<lparr>a_mode := MPairing, a_kind := KPairing, a_route_id := hex,
                                      a_pair_ref := pairRef, a_pair_frames := 0, a_created_ms := now\<rparr>),
                       storeM en (upsertBind \<lparr> b_route_id = hex, b_kind = ''pairing'', b_created_at = now,
                                               b_pair_ref = pairRef \<rparr>),
                       noteBind ''pairing'',
                       armPairFirst en hex now,
                       bindM (random en 8) (\<lambda>b.
                         let body = JObj [(''v'', JNum PROTOCOL), (''attempt_id'', JStr (''at_'' @ bytesToHex b)),
                                          (''route_id'', JStr hex), (''daemon_id'', JStr (e_daemonId en)),
                                          (''pair_ref'', JStr pairRef)] in
                         seqs [sendJSON en ws Typ_PAIR_ATTACHED rid body,
                               lookM (\<lambda>u. case rm_daemon u of
                                      None \<Rightarrow> throw (Error ''cannot read properties of null'')
                                    | Some d \<Rightarrow> sendJSON en d Typ_PAIR_ATTACHED rid body)])]))])"

section \<open>The room invariant\<close>

lemma keeps_attempt [keeps_intros]: "keeps I m \<Longrightarrow> keeps I (attempt m)"
  by (auto simp: keeps_def attempt_def split: prod.splits sum.splits)

lemma keeps_mintLoc [keeps_intros]: "keeps room_inv (mintLoc (random en))"
  unfolding mintLoc_def by (intro keeps_intros)

lemma keeps_restoreSlot [keeps_intros]: "keeps room_inv (restoreSlot en ex)"
  unfolding restoreSlot_def by (intro keeps_intros)

lemma keeps_close_all_pairings [keeps_intros]: "keeps room_inv (close_all_pairings en)"
  unfolding close_all_pairings_def by (intro keeps_intros)

lemma keeps_refresh_slot [keeps_intros]: "env_ok en \<Longrightarrow> keeps room_inv (refresh_slot en ws fr p t d x)"
  unfolding refresh_slot_def by (intro keeps_intros)

lemma keeps_mint_loop [keeps_intros]: "env_ok en \<Longrightarrow> keeps room_inv (mint_loop en ws fr p t d ex n)"
proof (induction n)
  case 0
  show ?case unfolding mint_loop.simps by (intro keeps_intros)
next
  case (Suc n)
  from Suc.prems have IH: "keeps room_inv (mint_loop en ws fr p t d ex n)" by (rule Suc.IH)
  from Suc.prems show ?case unfolding mint_loop.simps by (intro keeps_intros IH)
qed

lemma keeps_handlePairOpen [keeps_intros]: "env_ok en \<Longrightarrow> keeps room_inv (handlePairOpen en ws fr)"
  unfolding handlePairOpen_def handlePairOpenLocked_def Let_def by (intro keeps_intros)

lemma keeps_handlePairClose [keeps_intros]: "env_ok en \<Longrightarrow> keeps room_inv (handlePairClose en ws fr)"
  unfolding handlePairClose_def handlePairCloseLocked_def Let_def by (intro keeps_intros)

text \<open>Attaching needs the single pairing place to be free, from the test to the write.\<close>

definition pair_free :: "nat \<Rightarrow> attachment \<Rightarrow> room \<Rightarrow> bool" where
  "pair_free ws a s \<longleftrightarrow> inv_att ws a s \<and> kind_count KPairing s < MAX_PAIRING"

lemma on_view_pair_free: "on_view (pair_free ws a)"
  unfolding on_view_def pair_free_def using kind_count_view on_view_inv_att
  by (metis (no_types, lifting) on_view_def)

lemma leads_pair_write:
  assumes "a_role a = RPhone" and "att_ok b" and "a_kind b = KPairing"
  shows "leads (pair_free ws a) room_inv (writeAtt ws b)"
proof (rule leadsI)
  fix s
  assume p: "pair_free ws a s"
  then have i: "inv_att ws a s" by (simp add: pair_free_def)
  have nd: "rm_daemon s \<noteq> Some ws" using i assms(1) by (rule inv_att_not_daemon)
  show "room_inv (snd (writeAtt ws b s))"
    using nd p assms(2,3) inv_att_inv [OF i]
    by (auto simp: writeAtt_def modifyM_def pair_free_def is_kind_def intro!: writeAtt_inv)
qed

lemma leads_pair_bound:
  assumes en: "env_ok en" and a: "a_role a = RPhone" "\<not> ownerMismatch a" and rid: "length rid = 16" "\<not> isZeroRoute rid"
  shows "leads (pair_free ws a) room_inv (lookM (\<lambda>t.
     let hex = routeHex rid; now = rm_clock t in
     seqs [
       writeAtt ws (a\<lparr>a_mode := MPairing, a_kind := KPairing, a_route_id := hex,
                      a_pair_ref := pairRef, a_pair_frames := 0, a_created_ms := now\<rparr>),
       storeM en (upsertBind \<lparr> b_route_id = hex, b_kind = ''pairing'', b_created_at = now, b_pair_ref = pairRef \<rparr>),
       noteBind ''pairing'',
       armPairFirst en hex now,
       bindM (random en 8) (\<lambda>b.
         let body = JObj [(''v'', JNum PROTOCOL), (''attempt_id'', JStr (''at_'' @ bytesToHex b)),
                          (''route_id'', JStr hex), (''daemon_id'', JStr (e_daemonId en)),
                          (''pair_ref'', JStr pairRef)] in
         seqs [sendJSON en ws Typ_PAIR_ATTACHED rid body,
               lookM (\<lambda>u. case rm_daemon u of
                      None \<Rightarrow> throw (Error ''cannot read properties of null'')
                    | Some d \<Rightarrow> sendJSON en d Typ_PAIR_ATTACHED rid body)])]))"
  unfolding Let_def
proof (rule leads_lookM, goal_cases)
  case (1 t)
  let ?b = "a\<lparr>a_mode := MPairing, a_kind := KPairing, a_route_id := routeHex rid,
              a_pair_ref := pairRef, a_pair_frames := 0, a_created_ms := rm_clock t\<rparr>"
  have ok: "att_ok ?b" using a rid by (simp add: att_ok_def valid_routeI routeHex_ne)
  have "leads (pair_free ws a) room_inv (writeAtt ws ?b)"
    by (rule leads_pair_write) (use a ok in auto)
  note st = leads_seqs_Cons [OF this]
  show ?case
    by (rule leads_weaken [OF st, where Q' = room_inv], assumption)
      (use 1 en in \<open>auto simp: keeps_leads [symmetric] intro!: keeps_intros\<close>)
qed

lemma keeps_handlePairAttach [keeps_intros]:
  assumes en: "env_ok en"
  shows "keeps room_inv (handlePairAttach en ws fr)"
  unfolding handlePairAttach_def keeps_leads Let_def [where s = "jstr req k" for req k]
proof (rule leads_lookM, intro leads_if leads_option, goal_cases)
  case (15 s req a)
  then have a: "a_role a = RPhone" "\<not> ownerMismatch a" by auto
  have inv: "pair_free ws a t \<Longrightarrow> room_inv t" for t by (simp add: pair_free_def inv_att_def)
  show ?case
    apply (rule leads_weaken [where P' = "pair_free ws a" and Q' = room_inv])
      apply (rule leads_seqs_Cons [OF leads_frame [OF frames_noteGateAttempt on_view_pair_free] inv], assumption)
      apply (rule leads_seqs_Cons [where R = room_inv])
        apply (rule leads_bindM [where R = "\<lambda>rid t. pair_free ws a t \<and> length rid = 16 \<and> \<not> isZeroRoute rid"])
         apply (rule newRouteId_step [OF en on_view_pair_free]; simp add: inv)
        apply (rule leads_cond, rule leads_pair_bound [OF en a])
    by (use 15 in \<open>auto simp: pair_free_def inv_att_def intro: leads_seqs_Nil\<close>)
qed (use assms in \<open>auto intro!: leads_keeps keeps_intros\<close>)

end
