(* ===== verification/Ws.thy ===== *)
theory Ws
  imports Pairing
begin

text \<open>
  The hot path \<^verbatim>\<open>workers/pairfob-origin/src/room/fwd.ts\<close> (sealed frames relayed between a
  phone and the daemon, with the header's route rewritten) and the dispatcher
  \<^verbatim>\<open>room/ws.ts\<close>, which is what a WebSocket message of either side runs.
\<close>

section \<open>Forwarding\<close>

definition forwardWire :: "env \<Rightarrow> nat \<Rightarrow> byte list \<Rightarrow> byte list \<Rightarrow> unit act" where
  "forwardWire en destination routeId wire = send en destination (OutWire (set_route routeId wire))"

definition advanceAndForward ::
    "env \<Rightarrow> nat \<Rightarrow> nat \<Rightarrow> string \<Rightarrow> number \<Rightarrow> number \<Rightarrow> byte list \<Rightarrow> byte list \<Rightarrow> unit act" where
  "advanceAndForward en ws daemon routeId pairFrames dl route_bytes wire =
     seqs [
       advancePairFrames en routeId pairFrames dl,
       lookM (\<lambda>s. if rm_daemon s \<noteq> Some daemon
               \<or> \<not> (case att s ws of None \<Rightarrow> False | Some c \<Rightarrow> a_kind c = KPairing \<and> a_route_id c = routeId)
            then ret ()
            else forwardWire en daemon route_bytes wire)]"

definition fwdWireFromClient :: "env \<Rightarrow> nat \<Rightarrow> attachment option \<Rightarrow> byte list \<Rightarrow> unit act" where
  "fwdWireFromClient en ws ao wire = lookM (\<lambda>s.
     case ao of
       None \<Rightarrow> seqs [sendErr en ws ''unbound'' ''FWD before bind'' no_extra, close ws ''unbound'']
     | Some a \<Rightarrow>
         if a_route_id a = [] \<or> (a_kind a \<noteq> KPairing \<and> a_kind a \<noteq> KResumehello \<and> a_kind a \<noteq> KEstablished)
         then seqs [sendErr en ws ''unbound'' ''FWD before bind'' no_extra, close ws ''unbound'']
         else (case rm_daemon s of
             None \<Rightarrow> seqs [sendErr en ws ''daemon_offline'' ''no daemon'' no_extra, close ws ''daemon_offline'']
           | Some daemon \<Rightarrow>
               let rid = routeBytes (a_route_id a) s; a' = a\<lparr>a_pair_frames := a_pair_frames a + 1\<rparr> in
               seqs [
                 noteFwd (length wire - HEADER_SIZE),
                 (if a_kind a = KPairing then
                    seqs [
                      writeAtt ws a',
                      (if a_pair_frames a' = 1 \<or> a_pair_frames a' = 2 then
                         lookM (\<lambda>t. let dl = (case loadSlot (rm_store t) of
                                          Some slot \<Rightarrow> deadline slot | None \<Rightarrow> rm_clock t + 180000)
                              in advanceAndForward en ws daemon (a_route_id a') (a_pair_frames a') dl rid wire)
                       else forwardWire en daemon rid wire)]
                  else forwardWire en daemon rid wire)]))"

definition fwdWireFromDaemon :: "env \<Rightarrow> nat \<Rightarrow> byte list \<Rightarrow> unit act" where
  "fwdWireFromDaemon en ws wire = lookM (\<lambda>s.
     if rm_daemon s \<noteq> Some ws then ret ()
     else bindM (liftE (routeHexAt wire 8)) (\<lambda>hex. lookM (\<lambda>t.
       case findByRoute hex t of
         None \<Rightarrow> ret ()
       | Some client \<Rightarrow>
           seqs [noteFwd (length wire - HEADER_SIZE),
                 try_catch (send en client (OutWire wire))
                   (closeBind en client ''unbound'' ''client send failed'' True)])))"

section \<open>Dispatch\<close>

definition role_of :: "attachment option \<Rightarrow> socket_role" where
  "role_of a = (case a of None \<Rightarrow> RPhone | Some x \<Rightarrow> a_role x)"

definition said_hello :: "attachment option \<Rightarrow> bool" where
  "said_hello a = (case a of None \<Rightarrow> False | Some x \<Rightarrow> a_hello_at_ms x \<noteq> 0)"

definition onFwdWire :: "env \<Rightarrow> nat \<Rightarrow> byte list \<Rightarrow> unit act" where
  "onFwdWire en ws wire = lookM (\<lambda>s.
     let a = att s ws in
     if role_of a = RDaemon then
       (if rm_daemon s \<noteq> Some ws then reject en ws ''unbound'' ''HELLO_DAEMON must be the first frame''
        else fwdWireFromDaemon en ws wire)
     else if \<not> said_hello a then reject en ws ''unbound'' ''HELLO_CLIENT must be the first frame''
     else fwdWireFromClient en ws a wire)"

definition on_daemon_frame :: "env \<Rightarrow> nat \<Rightarrow> frame \<Rightarrow> byte list \<Rightarrow> unit act" where
  "on_daemon_frame en ws fr wire = lookM (\<lambda>s.
     if rm_daemon s \<noteq> Some ws \<and> f_typ fr \<noteq> Typ_HELLO_DAEMON
     then reject en ws ''unbound'' ''HELLO_DAEMON must be the first frame''
     else if f_typ fr = Typ_HELLO_DAEMON then handleDaemonHello en ws fr
     else if f_typ fr = Typ_PAIR_OPEN then handlePairOpen en ws fr
     else if f_typ fr = Typ_PAIR_CLOSE then handlePairClose en ws fr
     else if f_typ fr = Typ_FWD then onFwdWire en ws wire
     else if f_typ fr = Typ_ERROR then handleDaemonError en ws fr
     else if f_typ fr = Typ_SESSION_ESTABLISHED then handleSessionEstablished en ws fr
     else reject en ws ''unbound'' ''frame type is not valid on daemon websocket'')"

definition on_client_frame :: "env \<Rightarrow> nat \<Rightarrow> frame \<Rightarrow> byte list \<Rightarrow> unit act" where
  "on_client_frame en ws fr wire = lookM (\<lambda>s.
     if \<not> said_hello (att s ws) \<and> f_typ fr \<noteq> Typ_HELLO_CLIENT
     then reject en ws ''unbound'' ''HELLO_CLIENT must be the first frame''
     else if f_typ fr = Typ_HELLO_CLIENT then handleClientHello en ws fr
     else if f_typ fr = Typ_PAIR_ATTACH then handlePairAttach en ws fr
     else if f_typ fr = Typ_SESSION_ATTACH then handleSessionAttach en ws fr
     else if f_typ fr = Typ_FWD then onFwdWire en ws wire
     else if f_typ fr = Typ_SESSION_ESTABLISHED then handleFakeEstablished en ws
     else reject en ws ''unbound'' ''frame type is not valid on client websocket'')"

definition onMessage :: "env \<Rightarrow> nat \<Rightarrow> ws_message \<Rightarrow> unit act" where
  "onMessage en ws msg =
     (case decodeFwdMessage msg of
        MalformedFwd \<Rightarrow> reject en ws ''bad_frame'' ''invalid envelope''
      | FwdWire wire \<Rightarrow> onFwdWire en ws wire
      | NotFwd \<Rightarrow>
          (case decodeMessage msg of
             None \<Rightarrow> reject en ws ''bad_frame'' ''invalid envelope''
           | Some (fr, wire) \<Rightarrow>
               if f_typ fr = Typ_PING then handlePing en ws fr
               else if f_typ fr = Typ_PONG then handlePong en ws fr
               else lookM (\<lambda>s. if role_of (att s ws) = RDaemon then on_daemon_frame en ws fr wire
                         else on_client_frame en ws fr wire)))"

section \<open>The room invariant\<close>

lemma keeps_forwardWire [keeps_intros]: "keeps room_inv (forwardWire en d r w)"
  unfolding forwardWire_def by (intro keeps_intros)

lemma keeps_advanceAndForward [keeps_intros]: "env_ok en \<Longrightarrow> keeps room_inv (advanceAndForward en ws d r n dl rb w)"
  unfolding advanceAndForward_def by (intro keeps_intros)

lemma keeps_fwdWireFromDaemon [keeps_intros]: "keeps room_inv (fwdWireFromDaemon en ws w)"
  unfolding fwdWireFromDaemon_def by (intro keeps_intros)

lemma leads_fwdWireFromClient:
  assumes en: "env_ok en"
  shows "leads (\<lambda>s. room_inv s \<and> att s ws = ao) room_inv (fwdWireFromClient en ws ao wire)"
proof (cases ao)
  case None
  show ?thesis
    unfolding None fwdWireFromClient_def option.case by (intro leads_keeps keeps_intros) simp
next
  case (Some a)
  let ?b = "a\<lparr>a_pair_frames := a_pair_frames a + 1\<rparr>"
  have inv: "inv_att ws a t \<Longrightarrow> room_inv t" for t by (simp add: inv_att_def)
  have wr: "leads (inv_att ws a) room_inv (seqs [writeAtt ws ?b, m])"
    if "keeps room_inv m" and k: "a_kind a = KPairing" for m
  proof (rule leads_seqs_Cons [where R = room_inv])
    show "leads (inv_att ws a) room_inv (writeAtt ws ?b)"
    proof (rule leadsI)
      fix s
      assume i: "inv_att ws a s"
      then have "att_ok a" by (auto simp: inv_att_def room_inv_def base_inv_def)
      with k have "a_role a = RPhone" by (simp add: att_ok_def)
      then have "leads (inv_att ws a) room_inv (writeAtt ws ?b)"
        by (rule leads_rewrite) (auto simp: att_ok_def)
      then show "room_inv (snd (writeAtt ws ?b s))" using i by (rule leadsD)
    qed
  qed (use that in \<open>auto simp: keeps_leads [symmetric] intro!: keeps_intros\<close>)
  have body: "leads (inv_att ws a) room_inv (fwdWireFromClient en ws (Some a) wire)"
    unfolding fwdWireFromClient_def option.case Let_def
  proof (intro leads_lookM leads_if leads_option, goal_cases)
    case (3 s d)
    have "leads (inv_att ws a) room_inv
      (if a_kind a = KPairing then seqs [writeAtt ws ?b, m] else forwardWire en d r wire)"
      if "keeps room_inv m" for m r
      using that by (intro leads_if wr leads_keeps keeps_intros) (simp_all add: inv)
    note st = leads_seqs_Cons [OF leads_att_frame [OF frames_counters(1)] inv leads_seqs_Cons [OF this]]
    show ?case
      by (rule leads_weaken [OF st])
        (use 3 en in \<open>auto intro!: keeps_intros leads_seqs_Nil\<close>)
  qed (auto intro!: leads_keeps keeps_intros simp: inv)
  show ?thesis
    unfolding Some by (rule leads_weaken [OF body]) (auto simp: inv_att_def)
qed

lemma keeps_onFwdWire [keeps_intros]: "env_ok en \<Longrightarrow> keeps room_inv (onFwdWire en ws w)"
  unfolding onFwdWire_def Let_def keeps_leads
proof (intro leads_lookM leads_if, goal_cases)
  case (4 s)
  show ?case
    by (rule leads_weaken [OF leads_fwdWireFromClient]) (use 4 in auto)
qed (auto intro!: leads_keeps keeps_intros)

lemma keeps_frame_dispatch [keeps_intros]:
  "env_ok en \<Longrightarrow> keeps room_inv (on_daemon_frame en ws fr w)"
  "env_ok en \<Longrightarrow> keeps room_inv (on_client_frame en ws fr w)"
  unfolding on_daemon_frame_def on_client_frame_def by (intro keeps_intros; assumption)+

lemma keeps_onMessage [keeps_intros]: "env_ok en \<Longrightarrow> keeps room_inv (onMessage en ws msg)"
  unfolding onMessage_def by (cases "decodeFwdMessage msg") (auto intro!: keeps_intros)

end
