(* ===== verification/DaemonRoom.thy ===== *)
theory DaemonRoom
  imports Ws
begin

text \<open>
  The room as the platform drives it: the internal HTTP surface
  \<^verbatim>\<open>workers/pairfob-origin/src/room/http.ts\<close> and the durable object \<^verbatim>\<open>room/room.ts\<close> (construction
  after hibernation, accepted upgrades, WebSocket messages and closes, alarms), and the
  events of a room as a step relation.
\<close>

section \<open>Upgrades\<close>

definition open_socket :: "attachment \<Rightarrow> socket" where
  "open_socket a = \<lparr> s_att = Some a, s_closed = False, s_reason = [], s_sent = [] \<rparr>"

text \<open>The hook of \<^verbatim>\<open>DaemonRoom.fetch\<close>: a new server socket joins the room.\<close>

definition accept_socket :: "attachment \<Rightarrow> unit act" where
  "accept_socket a = seqs [
     modifyM (\<lambda>s. s\<lparr>rm_socks := (rm_socks s)(rm_nextSock s := open_socket a),
                     rm_live := rm_live s @ [rm_nextSock s], rm_nextSock := Suc (rm_nextSock s)\<rparr>),
     attachSocket]"

definition upgrade_response :: "string \<Rightarrow> response" where
  "upgrade_response build =
     \<lparr> rs_status = 101,
       rs_headers = applySecurityHeaders build (headers_set ''Sec-WebSocket-Protocol'' SUBPROTOCOL []),
       rs_body = None, rs_socket = True \<rparr>"

section \<open>Internal HTTP\<close>

definition query_or :: "request \<Rightarrow> string \<Rightarrow> string" where
  "query_or req k = (case query_get req k of None \<Rightarrow> [] | Some v \<Rightarrow> v)"

definition room_stats :: "room \<Rightarrow> json" where
  "room_stats s =
     (case countKinds s of (est, resume, pairing) \<Rightarrow>
        JObj [(''ok'', JBool True), (''sockets'', JNum (of_nat (length (rm_live s)))),
              (''kinds'', JObj [(''est'', JNum (of_nat est)), (''resume'', JNum (of_nat resume)),
                                (''pairing'', JNum (of_nat pairing))]),
              (''fwd_bytes'', JNum (of_nat (rm_fwdBytes s))), (''closes'', JNum (of_nat (rm_closeCount s))),
              (''alarm_late_max_ms'', JNum (rm_alarmLateMaxMs s)),
              (''alarm_late_count'', JNum (of_nat (rm_alarmLateCount s)))])"

text \<open>Reading the body of a request is an \<^verbatim>\<open>await\<close>.\<close>

definition with_body :: "env \<Rightarrow> request \<Rightarrow> (jobject option \<Rightarrow> response act) \<Rightarrow> response act" where
  "with_body en req k = bindM (await en) (\<lambda>_. k (readJSON req))"

definition yes_no :: "string \<Rightarrow> response \<Rightarrow> bool act \<Rightarrow> response act" where
  "yes_no build no m = bindM m (\<lambda>ok. ret (if ok then jsonResponse build 200 ok_true [] else no))"

definition room_upgrade :: "env \<Rightarrow> string \<Rightarrow> request \<Rightarrow> response act" where
  "room_upgrade en build req = lookM (\<lambda>s.
     let role = query_or req ''role''; daemonId = query_or req ''daemon_id'';
         (account, owner) = readAccess req in
     if query_get req ''pair_loc'' \<noteq> None then ret (unpairedJson build (noStore []))
     else if role \<noteq> ''daemon'' \<and> role \<noteq> ''client'' then ret (errorJson build 400 ''bad_token'' (noStore []))
     else if \<not> DAEMON_ID_RE daemonId \<or> daemonId \<noteq> e_daemonId en
     then ret (errorJson build 400 ''bad_token'' (noStore []))
     else if countPendingHellos s \<ge> MAX_PENDING_HELLO
     then ret (errorJson build 429 ''rate_limited'' (noStore []))
     else bindM (consumeUpgrade en (query_get req ''pair_ticket'') role account owner) (\<lambda>consumed.
       case consumed of
         None \<Rightarrow> ret (unpairedJson build (noStore []))
       | Some a \<Rightarrow>
           bindM (random en 8) (\<lambda>b.
             bindM (armHello en (bytesToHex b) (a_created_ms a)) (\<lambda>_.
               bindM (accept_socket a) (\<lambda>_. ret (upgrade_response build))))))"

definition handleRoomFetch :: "env \<Rightarrow> string \<Rightarrow> request \<Rightarrow> response act" where
  "handleRoomFetch en build req =
     (let post = (rq_method req = ''POST''); path = rq_path req;
          bad = ret (errorJson build 400 ''bad_token'' []) in
      if path = ''/internal/enroll'' \<and> post then
        with_body en req (\<lambda>body.
          let hash = body_str body ''reconnect_hash''; grantId = body_str body ''grant_id'';
              daemonId = body_str body ''daemon_id'' in
          if hash = [] \<or> grantId = [] then bad
          else if daemonId \<noteq> [] \<and> daemonId \<noteq> e_daemonId en then bad
          else yes_no build (errorJson build 409 ''internal'' []) (enroll en hash grantId))
      else if path = ''/internal/rekey'' \<and> post then
        with_body en req (\<lambda>body.
          let oldHash = body_str body ''old_hash''; newHash = body_str body ''new_hash'' in
          if oldHash = [] \<or> newHash = [] then bad
          else yes_no build (errorJson build 400 ''bad_token'' []) (rekey en oldHash newHash))
      else if path = ''/internal/verify-enroll'' \<and> post then
        with_body en req (\<lambda>body.
          let hash = body_str body ''reconnect_hash''; grantId = body_str body ''grant_id'' in
          if hash = [] \<or> grantId = [] then bad
          else yes_no build (errorJson build 400 ''bad_token'' []) (lookM (\<lambda>s. ret (verifyEnroll s hash grantId))))
      else if path = ''/internal/abort-enroll'' \<and> post then
        with_body en req (\<lambda>body.
          let hash = body_str body ''reconnect_hash''; grantId = body_str body ''grant_id'' in
          if hash = [] \<or> grantId = [] then bad
          else yes_no build (errorJson build 409 ''internal'' []) (abortEnroll en hash grantId))
      else if path = ''/internal/kick'' \<and> post then
        bindM (kick en) (\<lambda>_. ret (jsonResponse build 200 ok_true []))
      else if path = ''/internal/issue-ticket'' \<and> post then
        with_body en req (\<lambda>body.
          bindM (issueTicket en (body_str body ''pair_loc'')) (\<lambda>r.
            case r of
              None \<Rightarrow> ret (unpairedJson build (noStore []))
            | Some (pair_ticket, ref) \<Rightarrow>
                ret (jsonResponse build 200 (JObj [(''ok'', JBool True), (''pair_ticket'', JStr pair_ticket),
                       (''pair_ref'', JStr ref), (''expires_in'', JNum 15)]) (noStore []))))
      else if path = ''/internal/stats'' \<and> rq_method req = ''GET'' then
        lookM (\<lambda>s. ret (jsonResponse build 200 (room_stats s) []))
      else if (wantsUpgrade req \<or> path = ''/v2/ws'') \<and> rq_method req = ''GET'' then room_upgrade en build req
      else ret (errorJson build 404 ''unbound'' []))"

section \<open>The durable object\<close>

text \<open>
  What survives hibernation is the storage and the sockets with their attachments; the
  fields of \<^verbatim>\<open>RoomCore\<close> start over and the constructor rebuilds them.
\<close>

definition fresh_core :: "room \<Rightarrow> room" where
  "fresh_core s =
     s\<lparr>rm_daemon := None, rm_reconnectHash := [], rm_grantId := [], rm_enrolled := False,
       rm_fwdBytes := 0, rm_fwdSinceWrite := 0, rm_closeCount := 0, rm_alarmLateMaxMs := 0,
       rm_alarmLateCount := 0, rm_lastPruneAt := 0, rm_routes := Map.empty\<rparr>"

definition new_DaemonRoom :: "env \<Rightarrow> unit act" where
  "new_DaemonRoom en = seqs [modifyM fresh_core, coldStart en]"

definition webSocketMessage :: "env \<Rightarrow> nat \<Rightarrow> ws_message \<Rightarrow> unit act" where
  "webSocketMessage en ws msg = onMessage en ws msg"

definition webSocketClose :: "env \<Rightarrow> nat \<Rightarrow> string \<Rightarrow> unit act" where
  "webSocketClose en ws reason = onClose en ws (if reason = [] then ''closed'' else reason)"

text \<open>The platform has consumed its alarm when it calls the handler.\<close>

definition room_alarm :: "env \<Rightarrow> unit act" where
  "room_alarm en = seqs [modifyM (\<lambda>s. s\<lparr>rm_store := (rm_store s)\<lparr>st_alarm := None\<rparr>\<rparr>), alarm en]"

section \<open>Events\<close>

definition blank_socket :: socket where
  "blank_socket = \<lparr> s_att = None, s_closed = True, s_reason = [], s_sent = [] \<rparr>"

definition new_room :: "number \<Rightarrow> index_ns \<Rightarrow> room" where
  "new_room clock ns =
     \<lparr> rm_daemon = None, rm_reconnectHash = [], rm_grantId = [], rm_enrolled = False, rm_fwdBytes = 0,
       rm_fwdSinceWrite = 0, rm_closeCount = 0, rm_alarmLateMaxMs = 0, rm_alarmLateCount = 0,
       rm_lastPruneAt = 0, rm_routes = Map.empty, rm_store = new_MemoryStore, rm_socks = (\<lambda>_. blank_socket),
       rm_live = [], rm_nextSock = 0, rm_clock = clock, rm_draws = 0, rm_writes = 0, rm_awaits = 0,
       rm_index = ns, rm_metrics = [], rm_confirmed = [] \<rparr>"

text \<open>
  What can happen to a room: a message, a close, an alarm, a request, a restart after
  hibernation, the platform forgetting a socket that is gone, and time passing.
\<close>

inductive room_step :: "env \<Rightarrow> room \<Rightarrow> room \<Rightarrow> bool" for en where
  message: "room_step en s (snd (webSocketMessage en ws msg s))"
| closed: "room_step en s (snd (webSocketClose en ws reason s))"
| fired: "room_step en s (snd (room_alarm en s))"
| http: "room_step en s (snd (handleRoomFetch en build req s))"
| wake: "room_step en s (snd (new_DaemonRoom en s))"
| gone: "room_step en s (s\<lparr>rm_live := removeAll ws (rm_live s)\<rparr>)"
| tick: "rm_clock s \<le> now \<Longrightarrow> room_step en s (s\<lparr>rm_clock := now\<rparr>)"

inductive room_reach :: "env \<Rightarrow> room \<Rightarrow> bool" for en where
  start: "0 < clock \<Longrightarrow> room_reach en (new_room clock ns)"
| step: "room_reach en s \<Longrightarrow> room_step en s t \<Longrightarrow> room_reach en t"

section \<open>The room invariant\<close>

lemma leads_accept:
  assumes "a_kind a = KNone" and "a_route_id a = []"
  shows "leads room_inv room_inv (accept_socket a)"
proof -
  let ?f = "\<lambda>s. s\<lparr>rm_socks := (rm_socks s)(rm_nextSock s := open_socket a),
                  rm_live := rm_live s @ [rm_nextSock s], rm_nextSock := Suc (rm_nextSock s)\<rparr>"
  have base: "base_inv (?f s)" if inv: "room_inv s" for s
  proof -
    have fresh: "rm_nextSock s \<notin> set (rm_live s)"
      using inv by (auto simp: room_inv_def base_inv_def)
    have at: "att (?f s) = (att s)(rm_nextSock s := Some a)"
      by (auto simp: att_def open_socket_def fun_eq_iff)
    have "filter (\<lambda>w. is_kind k (((att s)(rm_nextSock s := Some a)) w)) (rm_live s) = filter (\<lambda>w. is_kind k (att s w)) (rm_live s)" for k
      using fresh by (intro filter_cong) auto
    then have "kind_count k (?f s) = kind_count k s" if "k \<noteq> KNone" for k
      using that assms(1) by (simp add: kind_count_alt at) (simp add: is_kind_def)
    then show ?thesis
      using inv fresh assms at by (auto simp: room_inv_def base_inv_def att_ok_def less_SucI)
  qed
  have "snd (accept_socket a s) = snd (rebuildMaps (?f s))" for s
    by (auto simp: accept_socket_def attachSocket_def modifyM_def split: prod.splits sum.splits)
  then show ?thesis using base leadsD [OF leads_rebuildMaps] by (auto intro!: leadsI)
qed

lemma consumeUpgrade_value:
  "fst (consumeUpgrade en tk role account owner s) = Inr (Some a) \<Longrightarrow> a_kind a = KNone \<and> a_route_id a = []"
  by (auto simp: consumeUpgrade_def comp_defs Let_def upgrade_att_def newAttachment_def
      split: option.splits if_splits prod.splits sum.splits)

lemma keeps_room_upgrade [keeps_intros]:
  assumes "env_ok en"
  shows "keeps room_inv (room_upgrade en build req)"
proof -
  have up: "keeps room_inv (bindM (consumeUpgrade en tk role account owner) (\<lambda>consumed.
       case consumed of
         None \<Rightarrow> ret r
       | Some a \<Rightarrow>
           bindM (random en 8) (\<lambda>b.
             bindM (armHello en (bytesToHex b) (a_created_ms a)) (\<lambda>_.
               bindM (accept_socket a) (\<lambda>_. ret q)))))" for tk role account owner and r q :: response
    unfolding keeps_leads
  proof (rule leads_bindM [where R = "\<lambda>c t. room_inv t \<and> (\<forall>a. c = Some a \<longrightarrow> a_kind a = KNone \<and> a_route_id a = [])"])
    fix s
    assume "room_inv s"
    with keeps_consumeUpgrade have "room_inv (snd (consumeUpgrade en tk role account owner s))" by (rule keepsD)
    then show "case consumeUpgrade en tk role account owner s of (Inl _, t) \<Rightarrow> room_inv t
       | (Inr c, t) \<Rightarrow> room_inv t \<and> (\<forall>a. c = Some a \<longrightarrow> a_kind a = KNone \<and> a_route_id a = [])"
      using consumeUpgrade_value [of en tk role account owner s]
      by (cases "consumeUpgrade en tk role account owner s"; cases "fst (consumeUpgrade en tk role account owner s)") auto
  next
    fix c :: "attachment option"
    show "leads (\<lambda>t. room_inv t \<and> (\<forall>a. c = Some a \<longrightarrow> a_kind a = KNone \<and> a_route_id a = [])) room_inv
       (case c of None \<Rightarrow> ret r
       | Some a \<Rightarrow> bindM (random en 8) (\<lambda>b. bindM (armHello en (bytesToHex b) (a_created_ms a)) (\<lambda>_.
               bindM (accept_socket a) (\<lambda>_. ret q))))"
    proof (cases c)
      case (Some a)
      show ?thesis
      proof (cases "a_kind a = KNone \<and> a_route_id a = []")
        case True
        then have "keeps room_inv (accept_socket a)" using leads_accept by (simp add: keeps_leads)
        with assms show ?thesis unfolding Some option.case by (intro leads_keeps keeps_intros) auto
      qed (auto simp: Some leads_def)
    qed (auto intro!: leads_keeps keeps_intros)
  qed
  show ?thesis
    unfolding room_upgrade_def Let_def by (intro keeps_intros up)
qed

lemma keeps_handleRoomFetch [keeps_intros]: "env_ok en \<Longrightarrow> keeps room_inv (handleRoomFetch en build req)"
  unfolding handleRoomFetch_def with_body_def yes_no_def Let_def by (intro keeps_intros)

lemma keeps_new_DaemonRoom: "keeps room_inv (new_DaemonRoom en)"
proof -
  have "base_inv (fresh_core s)" if "room_inv s" for s
    using that by (auto simp: room_inv_def base_inv_def fresh_core_def kind_count_def att_def)
  moreover have "snd (new_DaemonRoom en s) = snd (coldStart en (fresh_core s))" for s
    by (auto simp: new_DaemonRoom_def modifyM_def split: prod.splits sum.splits)
  ultimately show ?thesis using leadsD [OF leads_coldStart] by (auto intro!: keepsI)
qed

lemma keeps_events [keeps_intros]:
  "env_ok en \<Longrightarrow> keeps room_inv (webSocketMessage en ws msg)" "keeps room_inv (webSocketClose en ws reason)"
  "env_ok en \<Longrightarrow> keeps room_inv (room_alarm en)"
  unfolding webSocketMessage_def webSocketClose_def room_alarm_def
    apply (intro keeps_intros, assumption)
   apply (intro keeps_intros)
  by (intro keeps_intros) (assumption | rule room_inv_view, simp, assumption)+

lemma length_filter_conj: "length (filter (\<lambda>x. Q x \<and> P x) xs) \<le> length (filter P xs)"
  by (induction xs) auto

lemma room_inv_gone: "room_inv s \<Longrightarrow> room_inv (s\<lparr>rm_live := removeAll ws (rm_live s)\<rparr>)"
proof -
  assume inv: "room_inv s"
  have "kind_count k (s\<lparr>rm_live := removeAll ws (rm_live s)\<rparr>) \<le> kind_count k s" for k
    unfolding kind_count_alt by (simp add: att_def removeAll_filter_not_eq length_filter_conj)
  then show ?thesis
    using inv unfolding room_inv_def base_inv_def routes_ok_def daemon_ok_def
    by (auto simp: att_def intro: order_trans distinct_removeAll)
qed

lemma room_inv_tick: "room_inv s \<Longrightarrow> rm_clock s \<le> now \<Longrightarrow> room_inv (s\<lparr>rm_clock := now\<rparr>)"
  by (simp add: room_inv_def base_inv_def routes_ok_def daemon_ok_def kind_count_def att_def)

lemma room_inv_step:
  assumes "env_ok en" and "room_inv s" and "room_step en s t"
  shows "room_inv t"
  using assms(3)
proof (cases rule: room_step.cases)
  case (gone ws)
  then show ?thesis using assms(2) room_inv_gone by simp
next
  case (tick now)
  then show ?thesis using assms(2) room_inv_tick by simp
next
  case wake
  then show ?thesis using assms(2) keeps_new_DaemonRoom keepsD by metis
qed (use assms in \<open>auto intro!: keepsD [where I = room_inv] keeps_events keeps_handleRoomFetch\<close>)

lemma room_inv_new: "0 < clock \<Longrightarrow> room_inv (new_room clock ns)"
  by (simp add: room_inv_def base_inv_def routes_ok_def daemon_ok_def new_room_def kind_count_def att_def blank_socket_def)

lemma room_reach_inv: "room_reach en s \<Longrightarrow> env_ok en \<Longrightarrow> room_inv s"
  by (induction rule: room_reach.induct) (auto intro: room_inv_new room_inv_step)

end
