(* ===== verification/Interleaving.thy ===== *)
theory Interleaving
  imports DaemonRoom
begin

text \<open>
  Events that interleave. At an \<^verbatim>\<open>await\<close> a handler hands over to the event loop, which runs
  other events of the same room before it comes back. Here that interference is made of the
  room's own events: an environment is \<open>interleaved\<close> when what happens at each of its awaits
  is a finite sequence of room events, whose own awaits are again interleaved one level
  further down. The invariant needs no assumption on the interference then, since every
  event keeps it. A second invariant, on the store alone, says that no timer is lost.
\<close>

section \<open>Interference by the room's own events\<close>

definition sound_draws :: "env \<Rightarrow> bool" where
  "sound_draws en \<longleftrightarrow> (\<forall>k n. length (e_random en k n) = n)"

text \<open>
  Whole events of the room run at an \<^verbatim>\<open>await\<close>, and events run at their awaits in turn. The schedules are well nested: two handlers
  that are both suspended and resume in alternation are not among them. What the proofs use of a schedule is only that whatever runs
  at an await keeps the invariant (\<open>env_ok\<close>, \<open>store_rely\<close>), and each handler is shown to have the invariant in place when it awaits.
\<close>

inductive interleaved :: "env \<Rightarrow> bool" where
  alone: "sound_draws en \<Longrightarrow> (\<And>n s. e_yield en n s = s) \<Longrightarrow> interleaved en"
| nested: "interleaved inner \<Longrightarrow> en = inner\<lparr>e_yield := y\<rparr> \<Longrightarrow>
    (\<And>n s. (room_step inner)\<^sup>*\<^sup>* s (y n s)) \<Longrightarrow> interleaved en"

lemma room_inv_steps: "(room_step en)\<^sup>*\<^sup>* s t \<Longrightarrow> env_ok en \<Longrightarrow> room_inv s \<Longrightarrow> room_inv t"
  by (induction rule: rtranclp_induct) (auto intro: room_inv_step)

lemma interleaved_env_ok: "interleaved en \<Longrightarrow> env_ok en"
proof (induction rule: interleaved.induct)
  case (alone en)
  then show ?case by (simp add: env_ok_def sound_draws_def)
next
  case (nested inner en y)
  then have "room_inv s \<Longrightarrow> room_inv (y n s)" for n s using room_inv_steps by blast
  with nested show ?case by (simp add: env_ok_def)
qed

lemma reach_inv: "room_reach en s \<Longrightarrow> interleaved en \<Longrightarrow> room_inv s"
  using room_reach_inv interleaved_env_ok by blast

section \<open>Conditions on the store\<close>

text \<open>
  A condition \<open>J\<close> on the store is carried through every handler when the plain writes keep
  it, when \<^verbatim>\<open>syncHeapAlarm\<close> does, alone and right after \<^verbatim>\<open>upsertAlarm\<close>, and when the events at
  each \<^verbatim>\<open>await\<close> do.
\<close>

definition on_store :: "(mem_store \<Rightarrow> bool) \<Rightarrow> room \<Rightarrow> bool" where
  "on_store J s \<longleftrightarrow> J (rm_store s)"

inductive plain_write :: "(mem_store \<Rightarrow> mem_store) \<Rightarrow> bool" where
  "plain_write (putMeta m)"
| "plain_write deleteMeta"
| "plain_write (setReconnectHash h)"
| "plain_write clearReconnectHash"
| "plain_write (putSlot sl)"
| "plain_write deleteSlot"
| "plain_write (insertTicket row)"
| "plain_write (\<lambda>st. snd (consumeTicket tk now st))"
| "plain_write (expireTickets now)"
| "plain_write (deleteAlarmsByKindRef k r)"
| "plain_write (deleteAlarmIds ids)"
| "plain_write (upsertBind b)"
| "plain_write (store_deleteBind hex)"
| "plain_write (deleteGhostBinds live)"
| "plain_write (mem_recordGateAttempt now ok)"
| "plain_write (mem_pruneGateAttempts now)"

definition store_rely :: "env \<Rightarrow> (mem_store \<Rightarrow> bool) \<Rightarrow> bool" where
  "store_rely en J \<longleftrightarrow>
     (\<forall>n. \<not> e_sqlFails en n) \<and>
     (\<forall>n s. on_store J s \<longrightarrow> on_store J (e_yield en n s)) \<and>
     (\<forall>f st. plain_write f \<longrightarrow> J st \<longrightarrow> J (f st)) \<and>
     (\<forall>st. J st \<longrightarrow> J (mem_store.sync st)) \<and>
     (\<forall>st k r tm. J st \<longrightarrow> J (mem_store.sync (upsertAlarm k r tm st)))"

lemma store_relyD:
  assumes "store_rely en J"
  shows "\<forall>n. \<not> e_sqlFails en n" and "plain_write f \<Longrightarrow> J st \<Longrightarrow> J (f st)" and "J st \<Longrightarrow> J (mem_store.sync st)"
    and "J st \<Longrightarrow> J (mem_store.sync (upsertAlarm k r tm st))"
  using assms unfolding store_rely_def by blast+

named_theorems store_intros

lemma on_store_rm [simp]:
  "on_store J (s\<lparr>rm_store := st\<rparr>) = J st"
  by (simp add: on_store_def)

lemma on_store_same: "rm_store t = rm_store s \<Longrightarrow> on_store J s \<Longrightarrow> on_store J t"
  by (simp add: on_store_def)

lemma keeps_same_store: "(\<And>s. rm_store (snd (m s)) = rm_store s) \<Longrightarrow> keeps (on_store J) m"
  by (rule keepsI) (simp add: on_store_def)

lemma store_prims [store_intros]:
  "keeps (on_store J) (send en ws msg)" "keeps (on_store J) (close ws r)" "keeps (on_store J) (random en n)"
  "keeps (on_store J) (metricM mt)" "keeps (on_store J) (idx_remove_now en loc p)" "keeps (on_store J) (writeAtt ws a)"
  "keeps (on_store J) (modifyM loadMeta_into)"
  by (rule keeps_same_store;
      simp add: send_def close_def random_def metricM_def idx_remove_now_def writeAtt_def modifyM_def upd_sock_def
        loadMeta_into_def split: option.splits)+

lemma store_senders [store_intros]:
  "keeps (on_store J) (sendJSON en ws ty r b)" "keeps (on_store J) (sendErr en ws c m x)" "keeps (on_store J) (reject en ws c m)"
  unfolding sendErr_def reject_def sendJSON_def by (intro keeps_intros store_intros)+

lemma store_counters [store_intros]:
  "keeps (on_store J) (noteFwd n)" "keeps (on_store J) flushFwd" "keeps (on_store J) (noteBind k)"
  "keeps (on_store J) (noteAlarmLate ms)" "keeps (on_store J) loadReconnectHash"
  unfolding noteFwd_def flushFwd_def noteBind_def noteAlarmLate_def loadReconnectHash_def
  by (intro keeps_intros store_intros; simp add: on_store_def)+

lemma store_plain [store_intros]: "store_rely en J \<Longrightarrow> plain_write f \<Longrightarrow> keeps (on_store J) (storeM en f)"
  by (rule keepsI) (auto simp: store_rely_def storeM_def Let_def on_store_def)

lemma store_await [store_intros]: "store_rely en J \<Longrightarrow> keeps (on_store J) (await en)"
  by (rule keepsI) (simp add: store_rely_def await_def on_store_def)

lemma sync_write:
  "\<forall>n. \<not> e_sqlFails en n \<Longrightarrow> syncHeapAlarm en s =
     await en (s\<lparr>rm_writes := Suc (rm_writes s), rm_store := mem_store.sync (rm_store s)\<rparr>)"
  by (simp add: syncHeapAlarm_def comp_defs storeM_def Let_def mem_store.sync_def split: prod.splits sum.splits)

lemma store_sync [store_intros]:
  assumes "store_rely en J"
  shows "keeps (on_store J) (syncHeapAlarm en)"
proof (rule keepsI)
  fix s
  assume "on_store J s"
  with assms have "on_store J (s\<lparr>rm_writes := Suc (rm_writes s), rm_store := mem_store.sync (rm_store s)\<rparr>)"
    by (simp add: store_rely_def on_store_def)
  then show "on_store J (snd (syncHeapAlarm en s))"
    using keepsD [OF store_await [OF assms]] assms by (simp add: sync_write store_rely_def)
qed

lemma store_upsert_sync:
  assumes rely: "store_rely en J" and rest: "keeps (on_store J) (seqs ms)"
  shows "keeps (on_store J) (seqs (storeM en (upsertAlarm k r tm) # syncHeapAlarm en # ms))"
proof (rule keepsI)
  fix s
  assume J: "on_store J s"
  let ?t = "s\<lparr>rm_writes := Suc (rm_writes s), rm_store := upsertAlarm k r tm (rm_store s)\<rparr>"
  let ?u = "?t\<lparr>rm_writes := Suc (rm_writes ?t), rm_store := mem_store.sync (rm_store ?t)\<rparr>"
  have sql: "\<forall>n. \<not> e_sqlFails en n" using rely by (simp add: store_rely_def)
  have "on_store J ?u" using store_relyD(4) [OF rely] J by (simp add: on_store_def)
  then have "on_store J (snd (await en ?u))" by (rule keepsD [OF store_await [OF rely]])
  then have "on_store J (snd (seqs ms (snd (await en ?u))))" by (rule keepsD [OF rest])
  moreover have "storeM en (upsertAlarm k r tm) s = (Inr (), ?t)"
    using sql by (simp add: storeM_def Let_def)
  moreover have "await en ?u = (Inr (), snd (await en ?u))" by (simp add: await_def)
  then have "syncHeapAlarm en ?t = (Inr (), snd (await en ?u))" by (simp only: sync_write [OF sql])
  ultimately show "on_store J (snd (seqs (storeM en (upsertAlarm k r tm) # syncHeapAlarm en # ms) s))"
    by (simp only: seqs.simps prod.case sum.case)
qed

lemma store_schedule [store_intros]:
  "store_rely en J \<Longrightarrow> keeps (on_store J) (schedule en k r tm)"
  "store_rely en J \<Longrightarrow> keeps (on_store J) (clearKindRef en k r)"
  unfolding schedule_def clearKindRef_def
   apply (rule store_upsert_sync, assumption, rule keeps_seqs_Nil)
  by (intro keeps_intros store_intros plain_write.intros; assumption)

lemma store_idx [store_intros]:
  "store_rely en J \<Longrightarrow> keeps (on_store J) (idx_insert en row)" "store_rely en J \<Longrightarrow> keeps (on_store J) (idx_remove en loc p)"
proof -
  have step: "keeps (on_store J) (\<lambda>s. case client_insert (e_down en) (rm_clock s) row (rm_index s) of
                    (r, ns) \<Rightarrow> (Inr r, s\<lparr>rm_index := ns\<rparr>))"
    by (rule keeps_same_store) (simp split: prod.splits)
  show "store_rely en J \<Longrightarrow> keeps (on_store J) (idx_insert en row)"
    unfolding idx_insert_def by (intro keeps_intros store_intros step)
  show "store_rely en J \<Longrightarrow> keeps (on_store J) (idx_remove en loc p)"
    unfolding idx_remove_def by (intro keeps_intros store_intros)
qed

subsection \<open>RoomCore\<close>

lemma store_retain [store_intros]: "keeps (on_store J) (retainNewestDaemon ds)"
  unfolding retainNewestDaemon_def Let_def by (cases ds) (auto intro!: keeps_intros store_intros)

lemma store_rebuild [store_intros]:
  "keeps (on_store J) rebuildMaps" "keeps (on_store J) attachSocket"
proof -
  have "rm_store (remember_all wss s) = rm_store s" for wss s
    by (induction wss s rule: remember_all.induct) (simp_all add: rememberRoute_def)
  then show "keeps (on_store J) rebuildMaps"
    unfolding rebuildMaps_def by (intro keeps_intros store_intros) (simp_all add: on_store_def)
  then show "keeps (on_store J) attachSocket" by (simp add: attachSocket_def)
qed

lemma store_deleteBind [store_intros]: "store_rely en J \<Longrightarrow> keeps (on_store J) (deleteBind en hex)"
  unfolding deleteBind_def
  by (intro keeps_intros store_intros plain_write.intros) (simp add: on_store_def forgetRoute_def)

lemma store_noteGateAttempt [store_intros]: "store_rely en J \<Longrightarrow> keeps (on_store J) (noteGateAttempt en ok)"
  unfolding noteGateAttempt_def Let_def
  by (intro keeps_intros store_intros plain_write.intros; (assumption | simp add: on_store_def))

lemma store_drop_slot [store_intros]: "store_rely en J \<Longrightarrow> keeps (on_store J) (drop_slot en)"
  unfolding drop_slot_def by (intro keeps_intros store_intros plain_write.intros)

lemma store_teardown [store_intros]:
  "store_rely en J \<Longrightarrow> keeps (on_store J) (dropDaemon en reason)" "store_rely en J \<Longrightarrow> keeps (on_store J) (notifyReplaced en)"
  "store_rely en J \<Longrightarrow> keeps (on_store J) (closeBind en ws c m b)"
  unfolding dropDaemon_def notifyReplaced_def closeBind_def Let_def
  by (intro keeps_intros store_intros; (assumption | simp add: on_store_def))+

lemma store_kick [store_intros]: "store_rely en J \<Longrightarrow> keeps (on_store J) (kick en)"
  unfolding kick_def by (intro keeps_intros store_intros plain_write.intros) (simp_all add: on_store_def)

lemma store_enrollment [store_intros]:
  "store_rely en J \<Longrightarrow> keeps (on_store J) (enroll en h g)" "store_rely en J \<Longrightarrow> keeps (on_store J) (rekey en oh nh)"
  "store_rely en J \<Longrightarrow> keeps (on_store J) (abortEnroll en h g)"
  unfolding enroll_def rekey_def abortEnroll_def
  by (intro keeps_intros store_intros plain_write.intros; (assumption | simp add: on_store_def))+

lemma store_issueTicket [store_intros]: "store_rely en J \<Longrightarrow> keeps (on_store J) (issueTicket en loc)"
  unfolding issueTicket_def Let_def
  by (intro keeps_lookM keeps_if keeps_option keeps_bindM keeps_ret store_intros keeps_seqs_Cons [where m = "storeM en (insertTicket r)" for r]
      store_upsert_sync plain_write.intros keeps_seqs_Nil keeps_seqs_Cons [where m = "noteGateAttempt en b" for b])

lemma store_consumeUpgrade [store_intros]: "store_rely en J \<Longrightarrow> keeps (on_store J) (consumeUpgrade en tk role account owner)"
  unfolding consumeUpgrade_def Let_def by (intro keeps_intros store_intros plain_write.intros)

lemma store_release_bind [store_intros]:
  "store_rely en J \<Longrightarrow> keeps (on_store J) (release_bind en ws x)" "store_rely en J \<Longrightarrow> keeps (on_store J) (onClose en ws reason)"
  unfolding onClose_def release_bind_def Let_def
  by (intro keeps_intros store_intros; (assumption | simp add: on_store_def))+

lemma store_coldStart [store_intros]:
  "store_rely en J \<Longrightarrow> keeps (on_store J) (harvestControl en)" "store_rely en J \<Longrightarrow> keeps (on_store J) (coldStart en)"
  unfolding coldStart_def harvestControl_def Let_def
  by (intro keeps_intros store_intros plain_write.intros; assumption)+

subsection \<open>Handlers\<close>

lemma store_due [store_intros]:
  "store_rely en J \<Longrightarrow> keeps (on_store J) (closeExpiredHellos en now)" "store_rely en J \<Longrightarrow> keeps (on_store J) (closeExpiredResumes en now)"
  "store_rely en J \<Longrightarrow> keeps (on_store J) (timeoutPairing en hex c m)" "store_rely en J \<Longrightarrow> keeps (on_store J) (close_pairings en p c m)"
  unfolding closeExpiredHellos_def closeExpiredResumes_def timeoutPairing_def close_pairings_def Let_def
  by (intro keeps_intros store_intros; assumption)+

lemma store_lock [store_intros]:
  "store_rely en J \<Longrightarrow> keeps (on_store J) work \<Longrightarrow> keeps (on_store J) (withPairingLock en work)"
  unfolding withPairingLock_def by (intro keeps_intros store_intros)

lemma store_expireSlot [store_intros]: "store_rely en J \<Longrightarrow> keeps (on_store J) (expireSlot en p)"
  unfolding expireSlot_def by (intro keeps_intros store_intros plain_write.intros)

lemma store_harvestDue [store_intros]:
  "store_rely en J \<Longrightarrow> keeps (on_store J) (applyAlarm en k r now)" "store_rely en J \<Longrightarrow> keeps (on_store J) (harvestDue en)"
proof -
  show ap: "store_rely en J \<Longrightarrow> keeps (on_store J) (applyAlarm en k r now)" for k r now
    unfolding applyAlarm_def by (cases k) (auto intro!: keeps_intros store_intros plain_write.intros)
  show "store_rely en J \<Longrightarrow> keeps (on_store J) (harvestDue en)"
    unfolding harvestDue_def Let_def by (intro keeps_intros store_intros plain_write.intros ap; assumption)
qed

lemma store_arm [store_intros]:
  "store_rely en J \<Longrightarrow> keeps (on_store J) (armHello en r tm)" "store_rely en J \<Longrightarrow> keeps (on_store J) (armResume en r tm)"
  "store_rely en J \<Longrightarrow> keeps (on_store J) (armPairFirst en r tm)" "store_rely en J \<Longrightarrow> keeps (on_store J) (advancePairFrames en r n dl)"
  unfolding armHello_def armResume_def armPairFirst_def advancePairFrames_def
  by (intro keeps_intros store_intros plain_write.intros; assumption)+

lemma store_newRouteId [store_intros]: "keeps (on_store J) (newRouteId (random en))"
proof -
  have "keeps (on_store J) (newRouteId_loop n (random en))" for n
    by (induction n) (auto intro!: keeps_intros store_intros)
  then show ?thesis by (simp add: newRouteId_def)
qed

lemma store_session [store_intros]:
  "keeps (on_store J) (handlePing en ws fr)" "keeps (on_store J) (handlePong en ws fr)" "keeps (on_store J) (send_frame en ws fr)"
  "keeps (on_store J) (handleFakeEstablished en ws)"
  "store_rely en J \<Longrightarrow> keeps (on_store J) (confirm_claim en ac r)"
  "store_rely en J \<Longrightarrow> keeps (on_store J) (handleClientHello en ws fr)"
  unfolding handlePing_def handlePong_def send_frame_def handleFakeEstablished_def confirm_claim_def handleClientHello_def Let_def
  by (intro keeps_intros store_intros; (assumption | simp add: on_store_def))+

lemma store_session_attach [store_intros]:
  "store_rely en J \<Longrightarrow> keeps (on_store J) (handleSessionAttach en ws fr)"
  "store_rely en J \<Longrightarrow> keeps (on_store J) (handleSessionEstablished en ws fr)"
  "store_rely en J \<Longrightarrow> keeps (on_store J) (handleDaemonError en ws fr)"
  unfolding handleSessionAttach_def handleSessionEstablished_def handleDaemonError_def Let_def
  by (intro keeps_intros store_intros plain_write.intros; assumption)+

lemma store_register [store_intros]:
  "store_rely en J \<Longrightarrow> keeps (on_store J) (register_daemon en ws fr token)"
  "store_rely en J \<Longrightarrow> keeps (on_store J) (handleDaemonHello en ws fr)"
  unfolding handleDaemonHello_def register_daemon_def Let_def
  by (intro keeps_intros store_intros; (assumption | simp add: on_store_def))+

lemma store_mintLoc [store_intros]: "keeps (on_store J) (mintLoc (random en))"
  unfolding mintLoc_def by (intro keeps_intros store_intros)

lemma store_restoreSlot [store_intros]: "store_rely en J \<Longrightarrow> keeps (on_store J) (restoreSlot en existing)"
  unfolding restoreSlot_def by (cases existing) (auto intro!: store_intros plain_write.intros)

lemma store_pair_open [store_intros]:
  "store_rely en J \<Longrightarrow> keeps (on_store J) (refresh_slot en ws fr p ttl dl x)"
  "store_rely en J \<Longrightarrow> keeps (on_store J) (close_all_pairings en)"
  unfolding refresh_slot_def close_all_pairings_def
  by (intro keeps_intros store_intros keeps_attempt plain_write.intros; assumption)+

lemma store_mint_loop [store_intros]:
  "store_rely en J \<Longrightarrow> keeps (on_store J) (mint_loop en ws fr p ttl dl x n)"
proof (induction n)
  case (Suc n)
  then have IH: "keeps (on_store J) (mint_loop en ws fr p ttl dl x n)" by simp
  show ?case
    unfolding mint_loop.simps
    by (intro keeps_intros store_intros keeps_attempt plain_write.intros IH; rule Suc)
qed (simp add: store_intros)

lemma store_pairing [store_intros]:
  "store_rely en J \<Longrightarrow> keeps (on_store J) (handlePairOpen en ws fr)"
  "store_rely en J \<Longrightarrow> keeps (on_store J) (handlePairClose en ws fr)"
  "store_rely en J \<Longrightarrow> keeps (on_store J) (handlePairAttach en ws fr)"
  unfolding handlePairOpen_def handlePairOpenLocked_def handlePairClose_def handlePairCloseLocked_def
    handlePairAttach_def Let_def
  by (intro keeps_intros store_intros plain_write.intros; assumption)+

lemma store_fwd [store_intros]:
  "keeps (on_store J) (forwardWire en d r w)"
  "store_rely en J \<Longrightarrow> keeps (on_store J) (advanceAndForward en ws d hex n dl rb w)"
  "store_rely en J \<Longrightarrow> keeps (on_store J) (fwdWireFromClient en ws ao w)"
  "store_rely en J \<Longrightarrow> keeps (on_store J) (fwdWireFromDaemon en ws w)"
  unfolding fwdWireFromClient_def fwdWireFromDaemon_def advanceAndForward_def forwardWire_def Let_def
  by (intro keeps_intros store_intros; assumption)+

lemma store_dispatch [store_intros]:
  "store_rely en J \<Longrightarrow> keeps (on_store J) (onFwdWire en ws w)"
  "store_rely en J \<Longrightarrow> keeps (on_store J) (on_daemon_frame en ws fr w)"
  "store_rely en J \<Longrightarrow> keeps (on_store J) (on_client_frame en ws fr w)"
  unfolding on_daemon_frame_def on_client_frame_def onFwdWire_def Let_def
  by (intro keeps_intros store_intros; assumption)+

lemma store_message [store_intros]: "store_rely en J \<Longrightarrow> keeps (on_store J) (webSocketMessage en ws msg)"
  unfolding webSocketMessage_def onMessage_def by (cases "decodeFwdMessage msg") (auto intro!: keeps_intros store_intros)

lemma store_http [store_intros]:
  "keeps (on_store J) (accept_socket a)"
  "store_rely en J \<Longrightarrow> keeps (on_store J) (room_upgrade en build req)"
  "store_rely en J \<Longrightarrow> keeps (on_store J) (handleRoomFetch en build req)"
  unfolding handleRoomFetch_def room_upgrade_def accept_socket_def with_body_def yes_no_def Let_def
  by (intro keeps_intros store_intros; (assumption | simp add: on_store_def))+

lemma store_lifecycle [store_intros]:
  "store_rely en J \<Longrightarrow> keeps (on_store J) (webSocketClose en ws reason)"
  "store_rely en J \<Longrightarrow> keeps (on_store J) (new_DaemonRoom en)"
  unfolding webSocketClose_def new_DaemonRoom_def
  by (intro keeps_intros store_intros; (assumption | simp add: on_store_def fresh_core_def))+

subsection \<open>Statements that do not throw\<close>

definition calm :: "'a act \<Rightarrow> bool" where
  "calm m \<longleftrightarrow> (\<forall>s. \<exists>a. fst (m s) = Inr a)"

definition reliable :: "env \<Rightarrow> bool" where
  "reliable en \<longleftrightarrow> (\<forall>n. \<not> e_sqlFails en n) \<and> (\<forall>k. \<not> e_sendFails en k)"

lemma calmE: "calm m \<Longrightarrow> \<exists>a t. m s = (Inr a, t)"
  unfolding calm_def by (metis prod.collapse)

named_theorems calm_intros

lemma calm_struct [calm_intros]:
  "calm (ret a)" "calm (modifyM f)" "(\<And>s. calm (g s)) \<Longrightarrow> calm (lookM g)" "calm (seqs [])"
  "(b \<Longrightarrow> calm m) \<Longrightarrow> (\<not> b \<Longrightarrow> calm n) \<Longrightarrow> calm (if b then m else n)"
  "(x = None \<Longrightarrow> calm m) \<Longrightarrow> (\<And>a. x = Some a \<Longrightarrow> calm (k a)) \<Longrightarrow> calm (case x of None \<Rightarrow> m | Some a \<Rightarrow> k a)"
  by (auto simp: calm_def comp_defs split: option.splits)

lemma calm_seqs [calm_intros]:
  assumes "calm m" and "calm (seqs ms)"
  shows "calm (seqs (m # ms))"
  unfolding calm_def
proof
  fix s
  obtain a t where "m s = (Inr a, t)" using calmE [OF assms(1)] by blast
  then show "\<exists>b. fst (seqs (m # ms) s) = Inr b" using assms(2) by (simp add: calm_def)
qed

lemma calm_for_each [calm_intros]: "(\<And>x. calm (f x)) \<Longrightarrow> calm (for_each xs f)"
proof (induction xs)
  case (Cons x xs)
  then have x: "calm (f x)" and xs: "calm (for_each xs f)" by auto
  show ?case
    unfolding calm_def
  proof
    fix s
    obtain a t where "f x s = (Inr a, t)" using calmE [OF x] by blast
    then show "\<exists>b. fst (for_each (x # xs) f s) = Inr b" using xs by (simp add: calm_def)
  qed
qed (simp add: calm_def)

lemma calm_prims [calm_intros]:
  "calm (close ws r)" "calm (metricM m)" "calm (await en)" "calm (idx_remove_now en l p)"
  by (simp_all add: calm_def close_def metricM_def await_def idx_remove_now_def modifyM_def)

lemma calm_storeM [calm_intros]: "reliable en \<Longrightarrow> calm (storeM en f)"
  by (simp add: calm_def storeM_def Let_def reliable_def)

lemma calm_send [calm_intros]: "reliable en \<Longrightarrow> calm (send en ws m)"
  by (simp add: calm_def send_def reliable_def)

lemma calm_sendErr [calm_intros]:
  assumes "reliable en" and "\<And>r. x_routeId x = Some r \<Longrightarrow> length r = 16"
  shows "calm (sendErr en ws c m x)"
proof -
  have "length (case x_routeId x of None \<Rightarrow> ZERO_ROUTE | Some r \<Rightarrow> r) = 16"
    using assms(2) by (simp add: ZERO_ROUTE_def split: option.splits)
  moreover have "knownType Typ_ERROR" by (simp add: knownType_def KNOWN_TYPES_def)
  ultimately show ?thesis
    using calm_send [OF assms(1)] by (simp add: sendErr_def sendJSON_def)
qed

lemma calm_closeBind [calm_intros]:
  assumes "reliable en"
  shows "calm (closeBind en ws c m b)"
proof -
  have "x_routeId (bind_extra a) = Some r \<Longrightarrow> length r = 16" for a r
    by (auto simp: bind_extra_def no_extra_def split: option.splits if_splits)
  then show ?thesis
    unfolding closeBind_def deleteBind_def Let_def by (intro calm_intros assms; assumption)
qed

lemma calm_alarm_steps [calm_intros]:
  assumes "reliable en"
  shows "calm (applyAlarm en k r now)"
  unfolding applyAlarm_def closeExpiredHellos_def closeExpiredResumes_def timeoutPairing_def withPairingLock_def
    expireSlot_def close_pairings_def idx_remove_def Let_def
  by (cases k; simp only: alarm_kind.case) (intro calm_intros assms; simp add: no_extra_def)+

lemma calm_harvestDue [calm_intros]: "reliable en \<Longrightarrow> calm (harvestDue en)"
  unfolding harvestDue_def noteAlarmLate_def Let_def by (intro calm_intros; assumption)

lemma calm_flushFwd [calm_intros]: "calm flushFwd"
  unfolding flushFwd_def by (intro calm_intros)

section \<open>No timer is lost\<close>

text \<open>
  The platform holds one alarm for the room. It must never ring later than the earliest row
  of the alarm table. A row is written before the alarm is set, so the condition can fail
  between the two statements, and while the alarm handler runs, whose own alarm is spent;
  it holds again when the event is over.
\<close>

definition timely :: "mem_store \<Rightarrow> bool" where
  "timely st \<longleftrightarrow> mem_invar st \<and> mem_store.armed st"

lemma plain_write_invar: "plain_write f \<Longrightarrow> mem_invar st \<Longrightarrow> mem_invar (f st)"
proof (induction rule: plain_write.induct)
  case (7 row)
  then show ?case by (simp add: mem_invar_def insertTicket_def distinct_update)
next
  case (8 tk now)
  then show ?case by (rule mem_store.invar_consume)
next
  case (9 now)
  then show ?case by (rule mem_store.invar_expire)
next
  case (10 k r)
  then show ?case by (rule mem_store.invar_drop)
qed (auto simp: mem_invar_def putMeta_def deleteMeta_def setReconnectHash_def clearReconnectHash_def putSlot_def
    deleteSlot_def deleteAlarmIds_def upsertBind_def store_deleteBind_def deleteGhostBinds_def
    mem_recordGateAttempt_def mem_pruneGateAttempts_def distinct_map_filter split: option.splits)

lemma plain_write_alarms:
  "plain_write f \<Longrightarrow> st_alarm (f st) = st_alarm st \<and> set (st_alarms (f st)) \<subseteq> set (st_alarms st)"
  by (induction rule: plain_write.induct)
    (auto simp: putMeta_def deleteMeta_def setReconnectHash_def clearReconnectHash_def putSlot_def
      deleteSlot_def insertTicket_def consumeTicket_def expireTickets_def deleteAlarmsByKindRef_def
      deleteAlarmIds_def upsertBind_def store_deleteBind_def deleteGhostBinds_def
      mem_recordGateAttempt_def mem_pruneGateAttempts_def split: option.splits)

lemma armed_iff:
  "mem_invar st \<Longrightarrow> mem_store.armed st \<longleftrightarrow> (\<forall>row \<in> set (st_alarms st). \<exists>a. st_alarm st = Some a \<and> a \<le> al_at row)"
  by (auto simp: mem_store.armed_def mem_ran_rows)

lemma plain_write_timely: "plain_write f \<Longrightarrow> timely st \<Longrightarrow> timely (f st)"
  using plain_write_invar [of f st] plain_write_alarms [of f st] by (auto simp: timely_def armed_iff)

lemma sync_invar: "mem_invar st \<Longrightarrow> mem_invar (mem_store.sync st)"
  by (simp add: mem_store.sync_def mem_store.invar_set_heap)

lemma sync_timely: "mem_invar st \<Longrightarrow> timely (mem_store.sync st)"
  by (simp add: timely_def sync_invar mem_store.sync_armed)

text \<open>The alarm handler ends by setting the alarm again, whatever it found.\<close>

lemma leads_room_alarm:
  assumes r: "reliable en" and inv: "store_rely en mem_invar" and tm: "store_rely en timely"
  shows "leads (on_store mem_invar) (on_store timely) (room_alarm en)"
proof (rule leadsI)
  fix s
  assume J: "on_store mem_invar s"
  let ?s1 = "s\<lparr>rm_store := (rm_store s)\<lparr>st_alarm := None\<rparr>\<rparr>"
  obtain a1 t1 where h: "harvestDue en ?s1 = (Inr a1, t1)" using calmE [OF calm_harvestDue [OF r]] by blast
  obtain a2 t2 where w: "await en t1 = (Inr a2, t2)" using calmE [OF calm_prims(3)] by blast
  obtain a3 t3 where f: "flushFwd t2 = (Inr a3, t3)" using calmE [OF calm_flushFwd] by blast
  have "on_store mem_invar ?s1" using J by (simp add: on_store_def mem_invar_def)
  then have "on_store mem_invar t1" using keepsD [OF store_harvestDue(2) [OF inv], of ?s1] h by simp
  then have "on_store mem_invar t2" using keepsD [OF store_await [OF inv], of t1] w by simp
  then have "on_store mem_invar t3" using keepsD [OF store_counters(2), of mem_invar t2] f by simp
  then have "on_store timely (t3\<lparr>rm_writes := Suc (rm_writes t3), rm_store := mem_store.sync (rm_store t3)\<rparr>)"
    by (simp add: on_store_def sync_timely)
  then have "on_store timely (snd (syncHeapAlarm en t3))"
    using keepsD [OF store_await [OF tm]] by (simp add: sync_write [OF store_relyD(1) [OF inv]])
  moreover have "snd (room_alarm en s) = snd (syncHeapAlarm en t3)"
    by (simp add: room_alarm_def alarm_def modifyM_def h w f split: prod.splits sum.splits)
  ultimately show "on_store timely (snd (room_alarm en s))" by simp
qed

lemma store_rely_parts:
  "(\<forall>n. \<not> e_sqlFails en n) \<Longrightarrow> (\<And>n s. on_store mem_invar s \<Longrightarrow> on_store mem_invar (e_yield en n s)) \<Longrightarrow> store_rely en mem_invar"
  "(\<forall>n. \<not> e_sqlFails en n) \<Longrightarrow> (\<And>n s. on_store timely s \<Longrightarrow> on_store timely (e_yield en n s)) \<Longrightarrow> store_rely en timely"
  by (auto simp: store_rely_def plain_write_invar plain_write_timely sync_invar mem_store.invar_upsert
      intro!: sync_timely) (auto simp: timely_def mem_store.invar_upsert)

lemma step_store:
  assumes r: "reliable en" and inv: "store_rely en mem_invar" and tm: "store_rely en timely" and st: "room_step en s t"
  shows "on_store mem_invar s \<Longrightarrow> on_store mem_invar t" and "on_store timely s \<Longrightarrow> on_store timely t"
proof -
  have alarm: "on_store mem_invar s \<Longrightarrow> on_store timely (snd (room_alarm en s))" for s
    using leadsD [OF leads_room_alarm [OF r inv tm]] .
  have weak: "on_store timely s \<Longrightarrow> on_store mem_invar s" for s by (simp add: on_store_def timely_def)
  show "on_store mem_invar s \<Longrightarrow> on_store mem_invar t"
    using st by (cases rule: room_step.cases)
      (auto intro: keepsD [OF store_message [OF inv]] keepsD [OF store_http(3) [OF inv]] keepsD [OF store_lifecycle(1) [OF inv]]
        keepsD [OF store_lifecycle(2) [OF inv]] weak [OF alarm] on_store_same [rotated])
  show "on_store timely s \<Longrightarrow> on_store timely t"
    using st by (cases rule: room_step.cases)
      (auto intro: keepsD [OF store_message [OF tm]] keepsD [OF store_http(3) [OF tm]] keepsD [OF store_lifecycle(1) [OF tm]]
        keepsD [OF store_lifecycle(2) [OF tm]] alarm [OF weak] on_store_same [rotated])
qed

lemma interleaved_store:
  "interleaved en \<Longrightarrow> reliable en \<Longrightarrow> store_rely en mem_invar \<and> store_rely en timely"
proof (induction rule: interleaved.induct)
  case (alone en)
  then show ?case by (auto intro!: store_rely_parts simp: reliable_def)
next
  case (nested inner en y)
  then have r: "reliable inner" by (simp add: reliable_def)
  with nested have rely: "store_rely inner mem_invar" "store_rely inner timely" by auto
  have steps: "(room_step inner)\<^sup>*\<^sup>* s t \<Longrightarrow> (on_store mem_invar s \<longrightarrow> on_store mem_invar t) \<and> (on_store timely s \<longrightarrow> on_store timely t)" for s t
    by (induction rule: rtranclp_induct) (auto dest: step_store [OF r rely])
  then have "on_store mem_invar s \<Longrightarrow> on_store mem_invar (y n s)" "on_store timely s \<Longrightarrow> on_store timely (y n s)" for n s
    using nested(3) [of s n] by blast+
  with nested(2) r show ?case by (auto intro!: store_rely_parts simp: reliable_def)
qed

lemma reach_timely:
  assumes "room_reach en s" and "interleaved en" and "reliable en"
  shows "timely (rm_store s)"
  using assms(1)
proof (induction rule: room_reach.induct)
  case (start clock ns)
  then show ?case by (simp add: timely_def new_room_def new_MemoryStore_def mem_invar_def mem_store.armed_def mem_rows_def)
next
  case (step s t)
  then show ?case
    using step_store(2) [of en s t] interleaved_store [OF assms(2,3)] assms(3) by (simp add: on_store_def)
qed

end
