(* ===== verification/Flows.thy ===== *)
theory Flows
  imports Interleaving
begin

text \<open>
  What the handlers do when everything is in order. In a \<open>quiet\<close> environment nothing runs at
  an \<^verbatim>\<open>await\<close>, storage accepts its writes and sends do not throw; a handler whose guards hold
  then takes its success branch, and the lemmas here say what state it leaves and what it
  sends to whom.
\<close>

section \<open>Quiet environments\<close>

definition quiet :: "env \<Rightarrow> bool" where
  "quiet en \<longleftrightarrow> sound_draws en \<and> reliable en \<and> (\<forall>n s. e_yield en n s = s)"

lemma quiet_prims:
  assumes "quiet en"
  shows "storeM en f s = (Inr (), s\<lparr>rm_writes := Suc (rm_writes s), rm_store := f (rm_store s)\<rparr>)"
    and "await en s = (Inr (), s\<lparr>rm_awaits := Suc (rm_awaits s)\<rparr>)"
    and "send en ws m s = (Inr (), if s_closed (rm_socks s ws) then s else upd_sock ws (\<lambda>k. k\<lparr>s_sent := s_sent k @ [m]\<rparr>) s)"
    and "length (e_random en k n) = n"
  using assms by (auto simp: quiet_def reliable_def sound_draws_def storeM_def await_def send_def Let_def)

lemma quiet_interleaved: "quiet en \<Longrightarrow> interleaved en"
  by (rule interleaved.alone) (simp_all add: quiet_def)

lemma quiet_schedule:
  assumes "quiet en"
  shows "schedule en k r tm s = (Inr (), s\<lparr>rm_writes := Suc (Suc (rm_writes s)), rm_awaits := Suc (rm_awaits s),
           rm_store := mem_store.sync (upsertAlarm k r tm (rm_store s))\<rparr>)"
    and "clearKindRef en k r s = (Inr (), s\<lparr>rm_writes := Suc (Suc (rm_writes s)), rm_awaits := Suc (rm_awaits s),
           rm_store := mem_store.sync (deleteAlarmsByKindRef k r (rm_store s))\<rparr>)"
  by (simp_all add: schedule_def clearKindRef_def syncHeapAlarm_def lookM_def quiet_prims [OF assms] mem_store.sync_def)

lemma quiet_newRouteId:
  assumes "\<not> isZeroRoute (e_random en (rm_draws s) 16)"
  shows "newRouteId (random en) s = (Inr (e_random en (rm_draws s) 16), s\<lparr>rm_draws := Suc (rm_draws s)\<rparr>)"
  using assms by (simp add: newRouteId_def random_def bindM_def ret_def eval_nat_numeral)

lemma quiet_sendJSON:
  assumes "quiet en" and "knownType ty" and "length r = 16"
  shows "sendJSON en ws ty r b s =
    (Inr (), if s_closed (rm_socks s ws) then s else upd_sock ws (\<lambda>k. k\<lparr>s_sent := s_sent k @ [OutJSON ty r b]\<rparr>) s)"
  using assms(2,3) by (simp add: sendJSON_def quiet_prims [OF assms(1)])

lemma rm_socks_writeAtt:
  "rm_socks (writeAtt_state ws a s) = (rm_socks s)(ws := (rm_socks s ws)\<lparr>s_att := Some a\<rparr>)"
  by (simp add: writeAtt_state_def Let_def rememberRoute_def forgetRoute_def upd_sock_def)

lemma rm_counters_writeAtt [simp]:
  "rm_draws (writeAtt_state ws a s) = rm_draws s"
  by (simp add: writeAtt_state_def Let_def rememberRoute_def forgetRoute_def upd_sock_def)

lemma lookM_apply: "lookM f s = f s s"
  by (simp add: lookM_def)

lemma bindM_apply: "bindM m k s = (case m s of (Inl e, t) \<Rightarrow> (Inl e, t) | (Inr a, t) \<Rightarrow> k a t)"
  by (simp add: bindM_def)

lemma seqs_single: "seqs [m] s = m s"
  by (auto split: prod.splits sum.splits)

lemma seqs_skip_if: "\<not> b s \<Longrightarrow> seqs (lookM (\<lambda>t. if b t then X t else ret ()) # ms) s = seqs ms s"
  by (simp add: lookM_def ret_def)

lemmas run_simps = lookM_apply bindM_apply seqs_single seqs_skip_if

section \<open>Sessions\<close>

lemma session_bound_tail:
  assumes q: "quiet en" and rid: "length rid = 16" and d: "rm_daemon s = Some d" "d \<noteq> ws"
    and op: "\<not> s_closed (rm_socks s ws)" "\<not> s_closed (rm_socks s d)"
  shows "\<exists>t. seqs [
       writeAtt ws b,
       storeM en (upsertBind bd),
       noteBind k,
       armResume en hex now,
       sendJSON en ws Typ_SESSION_BOUND rid body,
       lookM (\<lambda>u. case rm_daemon u of
              None \<Rightarrow> throw (Error ''cannot read properties of null'')
            | Some d \<Rightarrow> sendJSON en d Typ_SESSION_BOUND rid body)] s = (Inr (), t) \<and>
     att t = (att s)(ws := Some b) \<and> rm_daemon t = Some d \<and>
     rm_routes t = rm_routes (writeAtt_state ws b s) \<and>
     s_sent (rm_socks t ws) = s_sent (rm_socks s ws) @ [OutJSON Typ_SESSION_BOUND rid body] \<and>
     s_sent (rm_socks t d) = s_sent (rm_socks s d) @ [OutJSON Typ_SESSION_BOUND rid body] \<and>
     (\<forall>w. w \<noteq> ws \<longrightarrow> w \<noteq> d \<longrightarrow> rm_socks t w = rm_socks s w) \<and>
     (\<forall>w. s_closed (rm_socks t w) = s_closed (rm_socks s w)) \<and> rm_live t = rm_live s \<and>
     rm_store t = mem_store.sync (upsertAlarm Resume15s hex (now + RESUME_MS) (upsertBind bd (rm_store s)))"
  using assms
  by (simp add: comp_defs writeAtt_def noteBind_def metricM_def armResume_def quiet_prims [OF q] quiet_schedule [OF q]
      quiet_sendJSON [OF q] knownType_def KNOWN_TYPES_def upd_sock_def rm_socks_writeAtt fun_eq_iff att_def)

text \<open>The guards of \<^verbatim>\<open>handleSessionAttach\<close>, down to the place where it binds.\<close>

definition may_attach :: "env \<Rightarrow> nat \<Rightarrow> frame \<Rightarrow> attachment \<Rightarrow> room \<Rightarrow> bool" where
  "may_attach en ws fr a s \<longleftrightarrow>
     isZeroRoute (f_routeId fr) \<and>
     (case parseJSONObject (f_payload fr) of
        None \<Rightarrow> False
      | Some req \<Rightarrow> jget req ''v'' = Some (JNum PROTOCOL) \<and> DAEMON_ID_RE (jstr req ''daemon_id'')
          \<and> jstr req ''daemon_id'' = e_daemonId en) \<and>
     att s ws = Some a \<and> a_role a = RPhone \<and> \<not> ownerMismatch a \<and> a_hello_at_ms a \<noteq> 0 \<and>
     rm_clock s - a_hello_at_ms a \<le> HELLO_GRACE_MS \<and> a_mode a = MHello \<and> a_kind a = KNone"

lemma session_attach_success:
  assumes q: "quiet en" and ok: "may_attach en ws fr a s" and d: "rm_daemon s = Some d" "d \<noteq> ws"
    and room: "kind_count KResumehello s < MAX_RESUME"
    and rid: "rid = e_random en (rm_draws s) 16" "\<not> isZeroRoute rid"
    and op: "\<not> s_closed (rm_socks s ws)" "\<not> s_closed (rm_socks s d)"
  shows "\<exists>t. handleSessionAttach en ws fr s = (Inr (), t) \<and>
     att t = (att s)(ws := Some (a\<lparr>a_mode := MSession, a_kind := KResumehello, a_route_id := routeHex rid,
                                   a_created_ms := rm_clock s\<rparr>)) \<and>
     rm_daemon t = Some d \<and> findByRoute (routeHex rid) t = Some ws \<and>
     s_sent (rm_socks t ws) = s_sent (rm_socks s ws) @
       [OutJSON Typ_SESSION_BOUND rid (JObj [(''v'', JNum PROTOCOL), (''route_id'', JStr (routeHex rid))])] \<and>
     s_sent (rm_socks t d) = s_sent (rm_socks s d) @
       [OutJSON Typ_SESSION_BOUND rid (JObj [(''v'', JNum PROTOCOL), (''route_id'', JStr (routeHex rid))])] \<and>
     (\<forall>w. w \<noteq> ws \<longrightarrow> w \<noteq> d \<longrightarrow> rm_socks t w = rm_socks s w) \<and>
     (\<forall>w. s_closed (rm_socks t w) = s_closed (rm_socks s w)) \<and> rm_live t = rm_live s \<and>
     rm_store t = mem_store.sync (upsertAlarm Resume15s (routeHex rid) (rm_clock s + RESUME_MS)
       (upsertBind \<lparr> b_route_id = routeHex rid, b_kind = ''resumehello'', b_created_at = rm_clock s, b_pair_ref = [] \<rparr> (rm_store s)))"
proof -
  let ?b = "a\<lparr>a_mode := MSession, a_kind := KResumehello, a_route_id := routeHex rid, a_created_ms := rm_clock s\<rparr>"
  let ?bd = "\<lparr> b_route_id = routeHex rid, b_kind = ''resumehello'', b_created_at = rm_clock s, b_pair_ref = [] \<rparr>"
  let ?body = "JObj [(''v'', JNum PROTOCOL), (''route_id'', JStr (routeHex rid))]"
  let ?s1 = "s\<lparr>rm_draws := Suc (rm_draws s)\<rparr>"
  have len: "length rid = 16" using rid(1) quiet_prims(4) [OF q] by simp
  have at: "att ?s1 = att s" by (simp add: att_def fun_eq_iff)
  have hd: "handleSessionAttach en ws fr s = seqs [writeAtt ws ?b, storeM en (upsertBind ?bd), noteBind ''resumehello'',
       armResume en (routeHex rid) (rm_clock s), sendJSON en ws Typ_SESSION_BOUND rid ?body,
       lookM (\<lambda>u. case rm_daemon u of
              None \<Rightarrow> throw (Error ''cannot read properties of null'')
            | Some d \<Rightarrow> sendJSON en d Typ_SESSION_BOUND rid ?body)] ?s1"
    using ok d room rid
    by (auto simp: handleSessionAttach_def may_attach_def run_simps Let_def quiet_newRouteId
        split: option.splits simp del: seqs.simps cong: option.case_cong)
  show ?thesis
    unfolding hd
    using session_bound_tail [OF q len, of ?s1 d ws ?b ?bd "''resumehello''" "routeHex rid" "rm_clock s" ?body] d op at
      routeHex_ne [OF len]
    by (auto simp: findByRoute_def rm_routes_writeAtt Let_def)
qed

end
