(* ===== verification/Demo.thy ===== *)
theory Demo
  imports Flows
begin

text \<open>
  A concrete run of a room, for the witnesses: a computer enrols and registers, a phone says
  hello, attaches and is established. Every state is reached by events of the step relation.
\<close>

section \<open>The environment\<close>

definition demo_id :: string where
  "demo_id = ''d_00000000000000000000''"

definition demo_token :: string where
  "demo_token = ''rt_00000000000000000000000000000000''"

definition demo_hash :: string where
  "demo_hash = ''rt_0000000000000000000000000000000000000000000000000000000000000''"

text \<open>A stand-in for the hash function: 64 characters that start like the argument.\<close>

definition demo_env :: env where
  "demo_env =
     \<lparr> e_daemonId = demo_id, e_random = (\<lambda>k n. replicate n 7), e_sha256Hex = (\<lambda>t. take 64 (t @ replicate 64 (CHR ''0''))),
       e_sendFails = (\<lambda>_. False), e_sqlFails = (\<lambda>_. False), e_hasIndex = True, e_down = (\<lambda>_. False),
       e_hasClaims = False, e_confirmFails = (\<lambda>_. False), e_yield = (\<lambda>_ s. s) \<rparr>"

definition demo_index :: index_ns where
  "demo_index = (\<lambda>_. new_IndexCore Map.empty)"

lemma demo_quiet: "quiet demo_env"
  by (simp add: quiet_def sound_draws_def reliable_def demo_env_def)

lemma demo_interleaved: "interleaved demo_env"
  by (rule quiet_interleaved [OF demo_quiet])

lemma demo_reliable: "reliable demo_env"
  using demo_quiet by (simp add: quiet_def)

lemma demo_env_sel [simp]:
  "e_daemonId demo_env = demo_id" "e_random demo_env k n = replicate n 7" "length (e_sha256Hex demo_env t) = 64"
  "e_hasClaims demo_env = False" "e_hasIndex demo_env = True"
  by (simp_all add: demo_env_def)

lemma demo_ids: "DAEMON_ID_RE demo_id" "RECONNECT_TOKEN_RE demo_token" "demo_id \<noteq> []" "demo_token \<noteq> []" "demo_hash \<noteq> []"
  by (simp_all add: DAEMON_ID_RE_def RECONNECT_TOKEN_RE_def prefixed_hex_def is_lower_hex_def demo_id_def
      demo_token_def demo_hash_def hex_digits_def)

lemma demo_sha: "e_sha256Hex demo_env demo_token = demo_hash" "length demo_hash = 64"
  by (simp_all add: demo_env_def demo_token_def demo_hash_def eval_nat_numeral)

section \<open>The messages\<close>

definition demo_bytes :: "string \<Rightarrow> byte list" where
  "demo_bytes txt = map (\<lambda>c. word_of_nat (of_char c)) txt"

definition demo_frame :: "nat \<Rightarrow> byte list \<Rightarrow> string \<Rightarrow> frame" where
  "demo_frame ty rid txt = \<lparr> f_version = 1, f_typ = ty, f_flags = 0, f_routeId = rid, f_payload = demo_bytes txt \<rparr>"

definition frame_message :: "frame \<Rightarrow> ws_message" where
  "frame_message fr = (case encode fr of Inl _ \<Rightarrow> TextMessage [] | Inr w \<Rightarrow> BinaryMessage w)"

definition demo_register :: frame where
  "demo_register = demo_frame Typ_HELLO_DAEMON ZERO_ROUTE
     ''{\"v\":2,\"op\":\"RegisterDaemon\",\"daemon_id\":\"d_00000000000000000000\",\"reconnect_token\":\"rt_00000000000000000000000000000000\"}''"

definition demo_hello :: frame where
  "demo_hello = demo_frame Typ_HELLO_CLIENT ZERO_ROUTE ''{\"v\":2,\"protocol\":2}''"

definition demo_attach :: frame where
  "demo_attach = demo_frame Typ_SESSION_ATTACH ZERO_ROUTE ''{\"v\":2,\"daemon_id\":\"d_00000000000000000000\"}''"

lemma demo_register_json:
  "parseJSONObject (f_payload demo_register) = Some [(''v'', JNum 2), (''op'', JStr ''RegisterDaemon''),
     (''daemon_id'', JStr demo_id), (''reconnect_token'', JStr demo_token)]"
  by code_simp

lemma demo_hello_json:
  "parseJSONObject (f_payload demo_hello) = Some [(''v'', JNum 2), (''protocol'', JNum 2)]"
  by code_simp

lemma demo_attach_json:
  "parseJSONObject (f_payload demo_attach) = Some [(''v'', JNum 2), (''daemon_id'', JStr demo_id)]"
  by code_simp

section \<open>The run\<close>

definition demo_request :: "string \<Rightarrow> string \<Rightarrow> (string \<times> string) list \<Rightarrow> string \<Rightarrow> request" where
  "demo_request rmethod path query body =
     \<lparr> rq_method = rmethod, rq_host = [], rq_path = path, rq_query = query, rq_headers = [], rq_text = body \<rparr>"

definition demo_enroll :: request where
  "demo_enroll = demo_request ''POST'' ''/internal/enroll'' []
     ''{\"reconnect_hash\":\"rt_0000000000000000000000000000000000000000000000000000000000000\",\"grant_id\":\"g_1\"}''"

definition demo_upgrade :: "string \<Rightarrow> request" where
  "demo_upgrade role = demo_request ''GET'' ''/v2/ws'' [(''role'', role), (''daemon_id'', demo_id)] []"

lemma demo_enroll_json:
  "readJSON demo_enroll = Some [(''reconnect_hash'', JStr demo_hash), (''grant_id'', JStr ''g_1'')]"
  by code_simp

lemma snd_bind_ret: "snd (bindM m (\<lambda>x. ret (f x)) s) = snd (m s)"
  by (simp add: bindM_def ret_def split: prod.splits sum.splits)

definition demo1 :: room where
  "demo1 = snd (handleRoomFetch demo_env ''dev'' demo_enroll (new_room 1000 demo_index))"

definition demo_meta :: meta_row where
  "demo_meta = \<lparr> m_daemon_id = demo_id, m_reconnect_hash = demo_hash, m_grant_id = ''g_1'', m_created_at = 1000 \<rparr>"

lemma demo1_eq:
  "demo1 = (new_room 1000 demo_index)\<lparr>rm_awaits := 1, rm_writes := 1, rm_store := putMeta demo_meta new_MemoryStore,
     rm_enrolled := True, rm_reconnectHash := demo_hash, rm_grantId := ''g_1''\<rparr>"
  by (simp add: demo1_def handleRoomFetch_def demo_enroll_def demo_request_def with_body_def Let_def bindM_apply
      quiet_prims [OF demo_quiet] demo_enroll_json [unfolded demo_enroll_def demo_request_def] body_str_def jstr_def jget_def demo_ids
      yes_no_def snd_bind_ret enroll_def run_simps loadMeta_def new_MemoryStore_def modifyM_def ret_def new_room_def demo_meta_def
      del: seqs.simps)
lemma consumeUpgrade_plain:
  "consumeUpgrade en None role account owner s = (Inr (Some (upgrade_att role account owner (rm_clock s))), s)"
  by (simp add: consumeUpgrade_def lookM_def ret_def)

text \<open>A phone or computer connects: its socket joins the room, which then rebuilds its maps.\<close>

lemma demo_upgrade_step:
  assumes "role = ''client'' \<or> role = ''daemon''" and "countPendingHellos s < MAX_PENDING_HELLO"
  shows "snd (handleRoomFetch demo_env ''dev'' (demo_upgrade role) s) =
    snd (accept_socket (upgrade_att role [] [] (rm_clock s))
      (s\<lparr>rm_draws := Suc (rm_draws s), rm_writes := Suc (Suc (rm_writes s)), rm_awaits := Suc (rm_awaits s),
         rm_store := mem_store.sync (upsertAlarm Hello5s (bytesToHex (replicate 8 7)) (rm_clock s + HELLO_GRACE_MS) (rm_store s))\<rparr>))"
proof -
  have "snd (handleRoomFetch demo_env ''dev'' (demo_upgrade role) s) = snd (room_upgrade demo_env ''dev'' (demo_upgrade role) s)"
    by (simp add: handleRoomFetch_def demo_upgrade_def demo_request_def)
  moreover have "query_get (demo_upgrade role) ''pair_loc'' = None" "query_get (demo_upgrade role) ''pair_ticket'' = None"
      "query_or (demo_upgrade role) ''role'' = role" "query_or (demo_upgrade role) ''daemon_id'' = demo_id"
      "readAccess (demo_upgrade role) = ([], [])"
    by (simp_all add: demo_upgrade_def demo_request_def query_get_def query_or_def readAccess_def headers_get_def)
  ultimately show ?thesis
    using assms by (auto simp: room_upgrade_def Let_def run_simps demo_ids consumeUpgrade_plain armHello_def
        random_def quiet_schedule [OF demo_quiet] snd_bind_ret upgrade_att_def newAttachment_def ret_def
        split: prod.splits sum.splits simp del: seqs.simps)
qed

definition demo2 :: room where
  "demo2 = snd (handleRoomFetch demo_env ''dev'' (demo_upgrade ''daemon'') demo1)"

lemma demo2_eq:
  "\<exists>st k1 k2 k3. demo2 = demo1\<lparr>rm_draws := k1, rm_writes := k2, rm_awaits := k3, rm_store := st,
     rm_socks := (\<lambda>_. blank_socket)(0 := open_socket (upgrade_att ''daemon'' [] [] 1000)), rm_live := [0], rm_nextSock := 1\<rparr>"
proof -
  have c: "countPendingHellos demo1 < MAX_PENDING_HELLO"
    by (simp add: demo1_eq new_room_def countPendingHellos_def)
  show ?thesis
    unfolding demo2_def
    by (subst demo_upgrade_step [OF _ c], simp)
      (simp add: demo1_eq new_room_def accept_socket_def attachSocket_def rebuildMaps_def comp_defs retainNewestDaemon_def
       att_def open_socket_def upgrade_att_def newAttachment_def isRegisteredDaemon_def route_of_def)
qed

lemma decode_fields:
  assumes "decode w = Inr f"
  shows "f_typ f = unat (w ! 1)" and "f_routeId f = take 16 (drop 8 w)" and "24 \<le> length w"
  using assms by (auto simp: decode_def Let_def split: if_splits sum.splits)

lemma message_of_frame:
  assumes "encode fr = Inr w" and "f_typ fr \<noteq> Typ_FWD" and "f_typ fr \<noteq> Typ_PING" and "f_typ fr \<noteq> Typ_PONG"
  shows "webSocketMessage en ws (frame_message fr) s =
    (if role_of (att s ws) = RDaemon then on_daemon_frame en ws fr w s else on_client_frame en ws fr w s)"
proof -
  have d: "decode w = Inr fr" by (rule decode_encode [OF assms(1)])
  then have "w ! 1 \<noteq> word_of_nat Typ_FWD" using assms(2) decode_fields(1) [OF d] by auto
  then have "decodeFwdMessage (BinaryMessage w) = NotFwd" by (simp add: decodeFwdMessage_def)
  with d assms show ?thesis
    by (simp add: webSocketMessage_def frame_message_def onMessage_def decodeMessage_def lookM_apply)
qed

lemma demo_frame_encodes:
  "length rid = 16 \<Longrightarrow> length txt \<le> MAX_PAYLOAD \<Longrightarrow> knownType ty \<Longrightarrow> \<exists>w. encode (demo_frame ty rid txt) = Inr w"
  by (simp add: encode_def demo_frame_def validateFrame_def demo_bytes_def)

definition demo3 :: room where
  "demo3 = snd (webSocketMessage demo_env 0 (frame_message demo_register) demo2)"

lemma tse_same: "length a < 4294967296 \<Longrightarrow> timingSafeEqual a a"
  by (simp add: timingSafeEqual_iff)

lemma demo3_step:
  "demo3 = snd (handleDaemonHello demo_env 0 demo_register demo2)"
proof -
  obtain w where w: "encode demo_register = Inr w"
    using demo_frame_encodes by (fastforce simp: demo_register_def ZERO_ROUTE_def knownType_def KNOWN_TYPES_def)
  obtain st k1 k2 k3 where d2: "demo2 = demo1\<lparr>rm_draws := k1, rm_writes := k2, rm_awaits := k3, rm_store := st,
     rm_socks := (\<lambda>_. blank_socket)(0 := open_socket (upgrade_att ''daemon'' [] [] 1000)), rm_live := [0], rm_nextSock := 1\<rparr>"
    using demo2_eq by blast
  show ?thesis
    unfolding demo3_def by (subst message_of_frame [OF w])
     (simp_all add: demo_register_def demo_frame_def on_daemon_frame_def lookM_apply role_of_def att_def d2 open_socket_def upgrade_att_def newAttachment_def)
qed

lemma demo3_eq:
  "\<exists>st k1 k2 k3 ds. demo3 = demo1\<lparr>rm_draws := k1, rm_writes := k2, rm_awaits := k3, rm_store := st,
     rm_socks := (\<lambda>_. blank_socket)(0 := ds), rm_live := [0], rm_nextSock := 1, rm_daemon := Some 0\<rparr>
     \<and> s_att ds = Some (newAttachment RDaemon 1000 (\<lambda>a. a\<lparr>a_hello_at_ms := 1000\<rparr>)) \<and> \<not> s_closed ds"
proof -
  obtain st k1 k2 k3 where d2: "demo2 = demo1\<lparr>rm_draws := k1, rm_writes := k2, rm_awaits := k3, rm_store := st,
     rm_socks := (\<lambda>_. blank_socket)(0 := open_socket (upgrade_att ''daemon'' [] [] 1000)), rm_live := [0], rm_nextSock := 1\<rparr>"
    using demo2_eq by blast
  have z: "isZeroRoute (f_routeId demo_register)" "length (f_routeId demo_register) = 16"
    by (simp_all add: demo_register_def demo_frame_def isZeroRoute_def ZERO_ROUTE_def list_all_iff)
  have ok: "hello_ok demo_env [(''v'', JNum 2), (''op'', JStr ''RegisterDaemon''),
     (''daemon_id'', JStr demo_id), (''reconnect_token'', JStr demo_token)]"
    by (simp add: hello_ok_def jget_def jstr_def demo_ids)
  have t: "timingSafeEqual demo_hash demo_hash" by (rule tse_same) (simp add: demo_sha)
  show ?thesis
    unfolding demo3_step d2
    by (simp add: handleDaemonHello_def z demo_register_json run_simps ok Let_def del: seqs.simps,
      simp add: att_def open_socket_def upgrade_att_def newAttachment_def,
      simp add: demo1_eq new_room_def loadReconnectHash_def run_simps demo_ids ret_def jstr_def jget_def t demo_sha quiet_prims [OF demo_quiet]
        register_daemon_def modifyM_def writeAtt_def writeAtt_state_def quiet_sendJSON [OF demo_quiet] knownType_def KNOWN_TYPES_def
        z Let_def upd_sock_def route_of_def att_def newAttachment_def,
      rule exI, rule conjI, rule refl, simp)
qed

lemma demo23_sel: "rm_daemon demo2 = None" "rm_reconnectHash demo2 = demo_hash" "rm_daemon demo3 = Some 0"
proof -
  obtain st k1 k2 k3 where d2: "demo2 = demo1\<lparr>rm_draws := k1, rm_writes := k2, rm_awaits := k3, rm_store := st,
     rm_socks := (\<lambda>_. blank_socket)(0 := open_socket (upgrade_att ''daemon'' [] [] 1000)), rm_live := [0], rm_nextSock := 1\<rparr>"
    using demo2_eq by blast
  show "rm_daemon demo2 = None" "rm_reconnectHash demo2 = demo_hash"
    unfolding d2 by (simp_all add: demo1_eq new_room_def)
  obtain st k1 k2 k3 ds where d3: "demo3 = demo1\<lparr>rm_draws := k1, rm_writes := k2, rm_awaits := k3, rm_store := st,
     rm_socks := (\<lambda>_. blank_socket)(0 := ds), rm_live := [0], rm_nextSock := 1, rm_daemon := Some 0\<rparr>"
    using demo3_eq by blast
  show "rm_daemon demo3 = Some 0" unfolding d3 by simp
qed

definition demo4 :: room where
  "demo4 = snd (handleRoomFetch demo_env ''dev'' (demo_upgrade ''client'') demo3)"

lemma demo4_eq:
  "\<exists>st k1 k2 k3 ds. demo4 = demo1\<lparr>rm_draws := k1, rm_writes := k2, rm_awaits := k3, rm_store := st,
     rm_socks := (\<lambda>_. blank_socket)(0 := ds, 1 := open_socket (upgrade_att ''client'' [] [] 1000)),
     rm_live := [0, 1], rm_nextSock := 2, rm_daemon := Some 0\<rparr>
     \<and> s_att ds = Some (newAttachment RDaemon 1000 (\<lambda>a. a\<lparr>a_hello_at_ms := 1000\<rparr>)) \<and> \<not> s_closed ds"
proof -
  obtain st k1 k2 k3 ds where d3: "demo3 = demo1\<lparr>rm_draws := k1, rm_writes := k2, rm_awaits := k3, rm_store := st,
     rm_socks := (\<lambda>_. blank_socket)(0 := ds), rm_live := [0], rm_nextSock := 1, rm_daemon := Some 0\<rparr>"
     and ds: "s_att ds = Some (newAttachment RDaemon 1000 (\<lambda>a. a\<lparr>a_hello_at_ms := 1000\<rparr>))" "\<not> s_closed ds"
    using demo3_eq by blast
  have c: "countPendingHellos demo3 < MAX_PENDING_HELLO"
    by (simp add: d3 demo1_eq new_room_def countPendingHellos_def)
  show ?thesis
    unfolding demo4_def
    by (subst demo_upgrade_step [OF _ c], simp)
      (simp add: d3 demo1_eq new_room_def accept_socket_def attachSocket_def rebuildMaps_def comp_defs retainNewestDaemon_def ds
       att_def open_socket_def upgrade_att_def newAttachment_def isRegisteredDaemon_def route_of_def,
       rule exI [of _ ds], simp add: ds newAttachment_def)
qed

definition demo5 :: room where
  "demo5 = snd (webSocketMessage demo_env 1 (frame_message demo_hello) demo4)"

lemma demo5_eq:
  "\<exists>st k1 k2 k3 ds. demo5 = demo1\<lparr>rm_draws := k1, rm_writes := k2, rm_awaits := k3, rm_store := st,
     rm_socks := (\<lambda>_. blank_socket)(0 := ds, 1 := open_socket ((upgrade_att ''client'' [] [] 1000)\<lparr>a_hello_at_ms := 1000\<rparr>)),
     rm_live := [0, 1], rm_nextSock := 2, rm_daemon := Some 0\<rparr>
     \<and> s_att ds = Some (newAttachment RDaemon 1000 (\<lambda>a. a\<lparr>a_hello_at_ms := 1000\<rparr>)) \<and> \<not> s_closed ds"
proof -
  obtain st k1 k2 k3 ds where d4: "demo4 = demo1\<lparr>rm_draws := k1, rm_writes := k2, rm_awaits := k3, rm_store := st,
     rm_socks := (\<lambda>_. blank_socket)(0 := ds, 1 := open_socket (upgrade_att ''client'' [] [] 1000)),
     rm_live := [0, 1], rm_nextSock := 2, rm_daemon := Some 0\<rparr>"
     and ds: "s_att ds = Some (newAttachment RDaemon 1000 (\<lambda>a. a\<lparr>a_hello_at_ms := 1000\<rparr>))" "\<not> s_closed ds"
    using demo4_eq by blast
  obtain w where w: "encode demo_hello = Inr w"
    using demo_frame_encodes by (fastforce simp: demo_hello_def ZERO_ROUTE_def knownType_def KNOWN_TYPES_def)
  have z: "isZeroRoute (f_routeId demo_hello)" "f_typ demo_hello = Typ_HELLO_CLIENT"
    by (simp_all add: demo_hello_def demo_frame_def isZeroRoute_def ZERO_ROUTE_def list_all_iff)
  show ?thesis
    unfolding demo5_def
    by (subst message_of_frame [OF w])
      (simp_all add: z d4 ds role_of_def on_client_frame_def run_simps att_def open_socket_def upgrade_att_def newAttachment_def
        said_hello_def handleClientHello_def demo_hello_json jget_def writeAtt_def modifyM_def armHello_def
        quiet_schedule [OF demo_quiet] demo1_eq new_room_def writeAtt_state_def Let_def upd_sock_def route_of_def,
       rule exI [of _ ds], simp add: ds newAttachment_def)
qed

definition demo6 :: room where
  "demo6 = snd (webSocketMessage demo_env 1 (frame_message demo_attach) demo5)"

lemma demo6_props:
  "\<exists>a. att demo6 1 = Some a \<and> a_kind a = KResumehello \<and> a_route_id a = routeHex (replicate 16 7)
     \<and> a_role a = RPhone \<and> a_hello_at_ms a \<noteq> 0"
  "findByRoute (routeHex (replicate 16 7)) demo6 = Some 1" "rm_daemon demo6 = Some 0"
  "\<exists>st. rm_store demo6 = mem_store.sync (upsertAlarm Resume15s (routeHex (replicate 16 7)) 16000 st)"
  "\<not> s_closed (rm_socks demo6 0)" "\<not> s_closed (rm_socks demo6 1)" "rm_live demo6 = [0, 1]" "route_of (att demo6 0) = []"
proof -
  obtain st k1 k2 k3 ds where d5: "demo5 = demo1\<lparr>rm_draws := k1, rm_writes := k2, rm_awaits := k3, rm_store := st,
     rm_socks := (\<lambda>_. blank_socket)(0 := ds, 1 := open_socket ((upgrade_att ''client'' [] [] 1000)\<lparr>a_hello_at_ms := 1000\<rparr>)),
     rm_live := [0, 1], rm_nextSock := 2, rm_daemon := Some 0\<rparr>"
     and ds: "s_att ds = Some (newAttachment RDaemon 1000 (\<lambda>a. a\<lparr>a_hello_at_ms := 1000\<rparr>))" "\<not> s_closed ds"
    using demo5_eq by blast
  let ?a = "(upgrade_att ''client'' [] [] 1000)\<lparr>a_hello_at_ms := 1000\<rparr>"
  obtain w where w: "encode demo_attach = Inr w"
    using demo_frame_encodes by (fastforce simp: demo_attach_def ZERO_ROUTE_def knownType_def KNOWN_TYPES_def)
  have z: "isZeroRoute (f_routeId demo_attach)" "f_typ demo_attach = Typ_SESSION_ATTACH"
    by (simp_all add: demo_attach_def demo_frame_def isZeroRoute_def ZERO_ROUTE_def list_all_iff)
  have step: "demo6 = snd (handleSessionAttach demo_env 1 demo_attach demo5)"
    unfolding demo6_def
    by (subst message_of_frame [OF w])
      (simp_all add: z d5 ds role_of_def on_client_frame_def run_simps att_def open_socket_def upgrade_att_def newAttachment_def said_hello_def)
  have sel: "rm_daemon demo5 = Some 0" "rm_clock demo5 = 1000" "att demo5 1 = Some ?a" "rm_live demo5 = [0, 1]"
    "\<not> s_closed (rm_socks demo5 1)" "\<not> s_closed (rm_socks demo5 0)" "att demo5 0 = s_att ds"
    by (simp_all add: d5 demo1_eq new_room_def att_def open_socket_def ds)
  have may: "may_attach demo_env 1 demo_attach ?a demo5"
    by (simp add: may_attach_def z demo_attach_json jget_def jstr_def demo_ids sel [simplified] upgrade_att_def newAttachment_def ownerMismatch_def)
  have "kind_count KResumehello demo5 < MAX_RESUME"
    by (simp add: kind_count_def sel [simplified] ds newAttachment_def upgrade_att_def)
  from session_attach_success [OF demo_quiet may sel(1) _ this refl _ sel(5,6)]
  obtain t where t: "handleSessionAttach demo_env 1 demo_attach demo5 = (Inr (), t)"
    "att t = (att demo5)(1 := Some (?a\<lparr>a_mode := MSession, a_kind := KResumehello, a_route_id := routeHex (replicate 16 7), a_created_ms := rm_clock demo5\<rparr>))"
    "rm_daemon t = Some 0" "findByRoute (routeHex (replicate 16 7)) t = Some 1"
    "\<exists>st. rm_store t = mem_store.sync (upsertAlarm Resume15s (routeHex (replicate 16 7)) 16000 st)"
    "\<not> s_closed (rm_socks t 0)" "\<not> s_closed (rm_socks t 1)" "rm_live t = [0, 1]"
    using sel(4,5,6) by (auto simp: isZeroRoute_def list_all_iff sel(2))
  then show "\<exists>a. att demo6 1 = Some a \<and> a_kind a = KResumehello \<and> a_route_id a = routeHex (replicate 16 7)
     \<and> a_role a = RPhone \<and> a_hello_at_ms a \<noteq> 0"
    by (simp add: step upgrade_att_def newAttachment_def)
  show "findByRoute (routeHex (replicate 16 7)) demo6 = Some 1" "rm_daemon demo6 = Some 0"
    "\<exists>st. rm_store demo6 = mem_store.sync (upsertAlarm Resume15s (routeHex (replicate 16 7)) 16000 st)"
    "\<not> s_closed (rm_socks demo6 0)" "\<not> s_closed (rm_socks demo6 1)" "rm_live demo6 = [0, 1]" "route_of (att demo6 0) = []"
    using t by (simp_all add: step sel ds newAttachment_def route_of_def)
qed

lemma demo6_alarm: "\<exists>row. row \<in> set (listAlarms (rm_store demo6))"
proof -
  obtain st where "rm_store demo6 = mem_store.sync (upsertAlarm Resume15s (routeHex (replicate 16 7)) 16000 st)"
    using demo6_props(4) by blast
  then show ?thesis by (auto simp: listAlarms_def mem_store.sync_def setAlarmIfChanged_eq upsertAlarm_def)
qed

lemma demo_reach: "room_reach demo_env demo6" "room_reach demo_env demo1"
proof -
  show 1: "room_reach demo_env demo1"
    unfolding demo1_def by (rule room_reach.step [OF room_reach.start room_step.http]) simp
  show "room_reach demo_env demo6"
    unfolding demo6_def demo5_def demo4_def demo3_def demo2_def
    by (intro room_reach.step [OF _ room_step.message] room_reach.step [OF _ room_step.http] 1)
qed

lemma demo6_inv: "room_inv demo6"
  by (rule reach_inv [OF demo_reach(1) demo_interleaved])

text \<open>A sealed frame with the bytes of \<open>txt\<close> as its payload.\<close>

definition demo_fwd :: "byte list \<Rightarrow> frame" where
  "demo_fwd rid = demo_frame Typ_FWD rid ''sealed''"

lemma demo_fwd_message:
  assumes "length rid = 16"
  shows "\<exists>w. decodeFwdMessage (frame_message (demo_fwd rid)) = FwdWire w \<and> take 16 (drop 8 w) = rid"
proof -
  obtain w where w: "encode (demo_fwd rid) = Inr w"
    using demo_frame_encodes [OF assms, of "''sealed''" Typ_FWD] by (auto simp: demo_fwd_def knownType_def KNOWN_TYPES_def)
  then have d: "decode w = Inr (demo_fwd rid)" by (rule decode_encode)
  have "w ! 1 = word_of_nat Typ_FWD" "take 16 (drop 8 w) = rid" "\<not> length w < 2"
    using decode_fields [OF d] by (auto simp: demo_fwd_def demo_frame_def word_unat_eq_iff)
  with d w show ?thesis by (simp add: frame_message_def decodeFwdMessage_reference)
qed

end
