(* ===== verification/RoomProperties.thy ===== *)
theory RoomProperties
  imports Demo
begin

text \<open>
  What a room promises, over every state its events can reach: how many devices it binds
  and which, where a route leads, what survives hibernation, that no timer is lost, where a
  forwarded frame goes, and who may register, enrol, re-key or attach.
\<close>

section \<open>Reachable states\<close>

text \<open>(C1) In every state a room can reach, with its events interleaving at each \<^verbatim>\<open>await\<close>, at most
  ten sessions are established and at most one phone is pairing.\<close>

theorem room_capacity:
  assumes "room_reach en s" and "interleaved en"
  shows "case countKinds s of (est, resume, pairing) \<Rightarrow> est \<le> MAX_ESTABLISHED \<and> pairing \<le> MAX_PAIRING"
  using reach_inv [OF assms] by (simp add: room_inv_def base_inv_def countKinds_def)

theorem room_capacity_witness:
  "case countKinds demo6 of (est, resume, pairing) \<Rightarrow> est \<le> MAX_ESTABLISHED \<and> pairing \<le> MAX_PAIRING"
  by (rule room_capacity [OF demo_reach(1) demo_interleaved])

text \<open>(C18) In every reachable state a bound socket belongs to a phone that the device's owner check
  admits, and it carries a non-zero 16-byte route in hex.\<close>

theorem bound_sockets:
  assumes "room_reach en s" and "interleaved en" and "att s ws = Some a" and "a_kind a \<noteq> KNone"
  shows "a_role a = RPhone \<and> \<not> ownerMismatch a \<and>
    (\<exists>rid. length rid = 16 \<and> \<not> isZeroRoute rid \<and> a_route_id a = routeHex rid)"
  using reach_inv [OF assms(1,2)] assms(3,4) by (auto simp: room_inv_def base_inv_def att_ok_def valid_route_def)

theorem bound_sockets_witness:
  "\<exists>a. att demo6 1 = Some a \<and> a_role a = RPhone \<and> \<not> ownerMismatch a \<and>
    (\<exists>rid. length rid = 16 \<and> \<not> isZeroRoute rid \<and> a_route_id a = routeHex rid)"
proof -
  obtain a where "att demo6 1 = Some a" "a_kind a = KResumehello" using demo6_props(1) by blast
  then show ?thesis using bound_sockets [OF demo_reach(1) demo_interleaved, of 1 a] by simp
qed

text \<open>(C2) The route index never misroutes: a route that resolves leads to a phone bound to exactly
  that route, and the bytes kept for it are the ones the route names; and whenever the room has a
  daemon, it is a socket that was admitted as a daemon and has registered.\<close>

theorem routes_lead_to_their_phone:
  assumes "room_reach en s" and "interleaved en"
  shows "(case findByRoute hex s of None \<Rightarrow> True | Some ws \<Rightarrow>
      \<exists>a. att s ws = Some a \<and> a_role a = RPhone \<and> a_kind a \<noteq> KNone \<and> a_route_id a = hex \<and> routeHex (routeBytes hex s) = hex)
    \<and> (case rm_daemon s of None \<Rightarrow> True | Some d \<Rightarrow> isRegisteredDaemon (att s d))"
proof -
  have inv: "room_inv s" by (rule reach_inv [OF assms])
  have "\<exists>a. att s ws = Some a \<and> a_role a = RPhone \<and> a_kind a \<noteq> KNone \<and> a_route_id a = hex \<and> routeHex (routeBytes hex s) = hex"
    if f: "findByRoute hex s = Some ws" for ws
  proof -
    obtain r where r: "rm_routes s hex = Some (ws, r)" using f by (auto simp: findByRoute_def)
    with inv have h: "hex \<noteq> []" "route_of (att s ws) = hex" "r = hexToRoute hex"
      unfolding room_inv_def routes_ok_def by blast+
    then obtain a where a: "att s ws = Some a" "a_route_id a = hex"
      by (cases "att s ws") (auto simp: route_of_def)
    with inv have "att_ok a" by (auto simp: room_inv_def base_inv_def)
    with a h(1) have ok: "a_role a = RPhone" "a_kind a \<noteq> KNone" "valid_route hex" by (auto simp: att_ok_def)
    then obtain rid where "length rid = 16" "hex = routeHex rid" by (auto simp: valid_route_def)
    then have "routeHex (routeBytes hex s) = hex"
      using r h(3) by (simp add: routeBytes_def hexToRoute_bytesToHex routeHex_def)
    with a ok show ?thesis by blast
  qed
  moreover have "isRegisteredDaemon (att s d)" if "rm_daemon s = Some d" for d
    using inv that by (auto simp: room_inv_def daemon_ok_def)
  ultimately show ?thesis by (simp split: option.splits)
qed

theorem routes_lead_to_their_phone_witness:
  "(\<exists>a. att demo6 1 = Some a \<and> a_role a = RPhone \<and> a_kind a \<noteq> KNone \<and> a_route_id a = routeHex (replicate 16 7)
        \<and> routeHex (routeBytes (routeHex (replicate 16 7)) demo6) = routeHex (replicate 16 7))
    \<and> isRegisteredDaemon (att demo6 0)"
  using routes_lead_to_their_phone [OF demo_reach(1) demo_interleaved, of "routeHex (replicate 16 7)"] demo6_props(2,3) by simp

text \<open>(C9) No timer is lost: between events, every row of the alarm table has the platform alarm set
  at or before its time, as long as storage accepts its writes and no send throws.\<close>

theorem no_timer_lost:
  assumes "room_reach en s" and "interleaved en" and "reliable en" and "row \<in> set (listAlarms (rm_store s))"
  shows "\<exists>a. getAlarm (rm_store s) = Some a \<and> a \<le> al_at row"
  using reach_timely [OF assms(1-3)] assms(4) by (auto simp: timely_def armed_iff listAlarms_def getAlarm_def)

theorem no_timer_lost_witness:
  "\<exists>row. row \<in> set (listAlarms (rm_store demo6)) \<and> (\<exists>a. getAlarm (rm_store demo6) = Some a \<and> a \<le> al_at row)"
proof -
  obtain row where "row \<in> set (listAlarms (rm_store demo6))" using demo6_alarm by blast
  then show ?thesis using no_timer_lost [OF demo_reach(1) demo_interleaved demo_reliable, of row] by auto
qed

section \<open>Forwarding\<close>

lemma noteFwd_result: "\<exists>t. noteFwd n s = (Inr (), t) \<and> rm_socks t = rm_socks s \<and> view t = view s"
  by (auto simp: noteFwd_def comp_defs metricM_def view_def att_def)

lemma run_last: "(case r of (Inl e, t) \<Rightarrow> (Inl e, t) | (Inr x, t) \<Rightarrow> seqs [] t) = r"
  by (auto split: prod.splits sum.splits)

lemma fwd_wire_decodes: "decodeFwdMessage msg = FwdWire w \<Longrightarrow> \<exists>f. decode w = Inr f \<and> f_typ f = Typ_FWD"
  by (auto simp: decodeFwdMessage_reference decode_def Let_def unat_eq_iff_byte split: option.splits if_splits sum.splits)

lemma routeBytes_inv: "room_inv s \<Longrightarrow> routeBytes hex s = hexToRoute hex"
  by (auto simp: routeBytes_def room_inv_def routes_ok_def split: option.splits)

lemma quiet_advance:
  assumes "quiet en"
  shows "\<exists>t. advancePairFrames en hex n dl s = (Inr (), t) \<and> rm_socks t = rm_socks s \<and> rm_daemon t = rm_daemon s"
  by (simp add: advancePairFrames_def lookM_apply quiet_prims [OF assms] quiet_schedule [OF assms] syncHeapAlarm_def ret_def)

text \<open>
  A frame of a bound phone comes down to one forward, in a state whose sockets differ from those before at most in
  the phone's attachment.
\<close>

lemma pairing_forward:
  assumes inv: "room_inv s" and a: "att s ws = Some a" "a_role a = RPhone" "a_hello_at_ms a \<noteq> 0" "a_kind a = KPairing" "a_route_id a \<noteq> []"
    and q: "quiet en" and d: "rm_daemon s = Some d" and m: "decodeFwdMessage msg = FwdWire wire"
  shows "\<exists>v k. webSocketMessage en ws msg s = forwardWire en d (hexToRoute (a_route_id a)) wire v \<and>
    rm_socks v = (rm_socks s)(ws := k) \<and> s_sent k = s_sent (rm_socks s ws) \<and> s_closed k = s_closed (rm_socks s ws)"
proof -
  obtain u where u: "noteFwd (length wire - HEADER_SIZE) s = (Inr (), u)" "rm_socks u = rm_socks s" "view u = view s"
    using noteFwd_result by blast
  let ?b = "a\<lparr>a_pair_frames := a_pair_frames a + 1\<rparr>"
  let ?v = "writeAtt_state ws ?b u" and ?k = "(rm_socks s ws)\<lparr>s_att := Some ?b\<rparr>"
  have v: "rm_socks ?v = (rm_socks s)(ws := ?k)" "rm_daemon ?v = Some d" "att ?v ws = Some ?b"
    using u d by (auto simp: writeAtt_state_def Let_def upd_sock_def forgetRoute_def rememberRoute_def att_def view_def)
  define dl where "dl = (case loadSlot (rm_store ?v) of Some slot \<Rightarrow> deadline slot | None \<Rightarrow> rm_clock ?v + 180000)"
  have run: "webSocketMessage en ws msg s =
      (if a_pair_frames ?b = 1 \<or> a_pair_frames ?b = 2
       then advanceAndForward en ws d (a_route_id a) (a_pair_frames ?b) dl (hexToRoute (a_route_id a)) wire ?v
       else forwardWire en d (hexToRoute (a_route_id a)) wire ?v)"
    using m a d u
    by (simp add: webSocketMessage_def onMessage_def onFwdWire_def lookM_apply role_of_def said_hello_def fwdWireFromClient_def
        Let_def routeBytes_inv [OF inv] run_last writeAtt_def modifyM_def dl_def)
  obtain w where w: "advancePairFrames en (a_route_id a) (a_pair_frames ?b) dl ?v = (Inr (), w)" "rm_socks w = rm_socks ?v" "rm_daemon w = rm_daemon ?v"
    using quiet_advance [OF q] by blast
  have "advanceAndForward en ws d (a_route_id a) (a_pair_frames ?b) dl (hexToRoute (a_route_id a)) wire ?v = forwardWire en d (hexToRoute (a_route_id a)) wire w"
    using w v a(4) by (simp add: advanceAndForward_def lookM_apply att_def run_last)
  then show ?thesis
    using run v(1) w(2) by (intro exI [of _ "if a_pair_frames ?b = 1 \<or> a_pair_frames ?b = 2 then w else ?v"] exI [of _ ?k]) simp
qed

lemma bound_forward:
  assumes "room_inv s" and "att s ws = Some a" "a_role a = RPhone" "a_hello_at_ms a \<noteq> 0" "a_kind a \<noteq> KNone" "a_route_id a \<noteq> []"
    and "a_kind a = KPairing \<longrightarrow> quiet en" and "rm_daemon s = Some d" and "decodeFwdMessage msg = FwdWire wire"
  shows "\<exists>v k. webSocketMessage en ws msg s = forwardWire en d (hexToRoute (a_route_id a)) wire v \<and>
    rm_socks v = (rm_socks s)(ws := k) \<and> s_sent k = s_sent (rm_socks s ws) \<and> s_closed k = s_closed (rm_socks s ws)"
proof (cases "a_kind a = KPairing")
  case True
  then show ?thesis using pairing_forward assms by blast
next
  case False
  obtain u where u: "noteFwd (length wire - HEADER_SIZE) s = (Inr (), u)" "rm_socks u = rm_socks s" "view u = view s"
    using noteFwd_result by blast
  then have "webSocketMessage en ws msg s = forwardWire en d (hexToRoute (a_route_id a)) wire u"
    using False assms(2-6,8,9) by (cases "a_kind a")
      (auto simp: webSocketMessage_def onMessage_def onFwdWire_def lookM_apply role_of_def said_hello_def
        fwdWireFromClient_def Let_def routeBytes_inv [OF assms(1)] run_last)
  then show ?thesis using u(2) by (intro exI [of _ u] exI [of _ "rm_socks s ws"]) simp
qed

text \<open>(C3) A sealed frame that a bound phone sends, pairing, resuming or established, is delivered to the
  room's daemon, once, under the route the room gave that phone, whatever route the phone wrote into
  it: type, flags and payload are unchanged, no other socket sees anything and none is closed. The
  daemon's socket is open and takes the frame; the first frames of a pairing also move its timers,
  and for these storage accepts its writes and nothing else runs meanwhile.\<close>

theorem phone_frame_delivery:
  assumes inv: "room_inv s" and a: "att s ws = Some a" "a_role a = RPhone" "a_hello_at_ms a \<noteq> 0"
    and k: "a_kind a \<noteq> KNone" and q: "a_kind a = KPairing \<longrightarrow> quiet en"
    and d: "rm_daemon s = Some d" "\<not> s_closed (rm_socks s d)" "\<not> e_sendFails en (rm_socks s d)"
    and m: "decodeFwdMessage msg = FwdWire wire"
  shows "\<exists>t fr out. webSocketMessage en ws msg s = (Inr (), t) \<and>
    (\<forall>x. s_sent (rm_socks t x) = s_sent (rm_socks s x) @ (if x = d then [OutWire out] else []) \<and>
         s_closed (rm_socks t x) = s_closed (rm_socks s x)) \<and>
    decode wire = Inr fr \<and> decode out = Inr (fr\<lparr>f_routeId := hexToRoute (a_route_id a)\<rparr>) \<and>
    routeHex (hexToRoute (a_route_id a)) = a_route_id a"
proof -
  obtain fr where fr: "decode wire = Inr fr" using fwd_wire_decodes [OF m] by blast
  have ok: "att_ok a" using inv a(1) by (auto simp: room_inv_def base_inv_def)
  with k have "valid_route (a_route_id a)" "a_route_id a \<noteq> []" by (auto simp: att_ok_def)
  then have hex: "routeHex (hexToRoute (a_route_id a)) = a_route_id a" "a_route_id a \<noteq> []"
    by (auto simp: valid_route_def hexToRoute_bytesToHex routeHex_def)
  have wd: "ws \<noteq> d" using inv d(1) a(1,2) by (auto simp: room_inv_def daemon_ok_def isRegisteredDaemon_def)
  obtain v sk where run: "webSocketMessage en ws msg s = forwardWire en d (hexToRoute (a_route_id a)) wire v"
    and v: "rm_socks v = (rm_socks s)(ws := sk)" "s_sent sk = s_sent (rm_socks s ws)" "s_closed sk = s_closed (rm_socks s ws)"
    using bound_forward [OF inv a k hex(2) q d(1) m] by blast
  have "\<exists>t. webSocketMessage en ws msg s = (Inr (), t) \<and>
      (\<forall>x. s_sent (rm_socks t x) = s_sent (rm_socks s x) @ (if x = d then [OutWire (set_route (hexToRoute (a_route_id a)) wire)] else []) \<and>
           s_closed (rm_socks t x) = s_closed (rm_socks s x))"
    unfolding run using v d wd by (auto simp: forwardWire_def send_def upd_sock_def)
  with fr hex(1) decode_set_route [OF fr, of "hexToRoute (a_route_id a)"] show ?thesis by auto
qed

theorem phone_frame_delivery_witness:
  "\<exists>t fr out wire a. webSocketMessage demo_env 1 (frame_message (demo_fwd (replicate 16 9))) demo6 = (Inr (), t) \<and>
    s_sent (rm_socks t 0) = s_sent (rm_socks demo6 0) @ [OutWire out] \<and> s_sent (rm_socks t 1) = s_sent (rm_socks demo6 1) \<and>
    att demo6 1 = Some a \<and> decode wire = Inr fr \<and> decode out = Inr (fr\<lparr>f_routeId := hexToRoute (a_route_id a)\<rparr>)"
proof -
  obtain a where a: "att demo6 1 = Some a" "a_kind a = KResumehello" "a_role a = RPhone" "a_hello_at_ms a \<noteq> 0"
    using demo6_props(1) by blast
  obtain w where w: "decodeFwdMessage (frame_message (demo_fwd (replicate 16 9))) = FwdWire w"
    using demo_fwd_message [of "replicate 16 9"] by auto
  have ns: "\<not> e_sendFails demo_env (rm_socks demo6 0)" by (simp add: demo_env_def)
  have k: "a_kind a \<noteq> KNone" "a_kind a = KPairing \<longrightarrow> quiet demo_env" using a(2) by simp_all
  from phone_frame_delivery [OF demo6_inv a(1,3,4) k demo6_props(3,5) ns w] obtain t fr out where
    "webSocketMessage demo_env 1 (frame_message (demo_fwd (replicate 16 9))) demo6 = (Inr (), t)"
    "s_sent (rm_socks t 0) = s_sent (rm_socks demo6 0) @ [OutWire out]" "s_sent (rm_socks t 1) = s_sent (rm_socks demo6 1)"
    "decode w = Inr fr" "decode out = Inr (fr\<lparr>f_routeId := hexToRoute (a_route_id a)\<rparr>)" by auto
  with a(1) show ?thesis by blast
qed

text \<open>(C12) A sealed frame the registered daemon sends goes, byte for byte, to the one phone bound to the
  route in its header, and to nobody else.\<close>

theorem daemon_frame_delivery:
  assumes inv: "room_inv s" and d: "rm_daemon s = Some ws" and m: "decodeFwdMessage msg = FwdWire wire"
    and c: "findByRoute (routeHex (take 16 (drop 8 wire))) s = Some c" "\<not> s_closed (rm_socks s c)"
      "\<not> e_sendFails en (rm_socks s c)"
  shows "\<exists>t a. webSocketMessage en ws msg s = (Inr (), t) \<and>
    rm_socks t = (rm_socks s)(c := (rm_socks s c)\<lparr>s_sent := s_sent (rm_socks s c) @ [OutWire wire]\<rparr>) \<and>
    att s c = Some a \<and> a_role a = RPhone \<and> a_route_id a = routeHex (take 16 (drop 8 wire))"
proof -
  obtain fr where fr: "decode wire = Inr fr" using fwd_wire_decodes [OF m] by blast
  then have len: "24 \<le> length wire" by (auto simp: decode_def Let_def split: if_splits)
  obtain u where u: "noteFwd (length wire - HEADER_SIZE) s = (Inr (), u)" "rm_socks u = rm_socks s"
    using noteFwd_result by blast
  have reg: "role_of (att s ws) = RDaemon"
    using inv d by (auto simp: room_inv_def daemon_ok_def isRegisteredDaemon_def role_of_def split: option.splits)
  have hexat: "routeHexAt wire 8 = Inr (routeHex (take 16 (drop 8 wire)))"
    using len by (simp add: routeHexAt_def routeHex_def)
  have run: "webSocketMessage en ws msg s =
      try_catch (send en c (OutWire wire)) (closeBind en c ''unbound'' ''client send failed'' True) u"
    using m reg d c u
    by (simp add: webSocketMessage_def onMessage_def onFwdWire_def lookM_apply fwdWireFromDaemon_def bindM_apply
        liftE_def hexat run_last)
  obtain r where "rm_routes s (routeHex (take 16 (drop 8 wire))) = Some (c, r)" using c(1) by (auto simp: findByRoute_def)
  then have h: "routeHex (take 16 (drop 8 wire)) \<noteq> []" "route_of (att s c) = routeHex (take 16 (drop 8 wire))"
    using inv unfolding room_inv_def routes_ok_def by blast+
  then obtain a where a: "att s c = Some a" "a_route_id a = routeHex (take 16 (drop 8 wire))"
    by (cases "att s c") (auto simp: route_of_def)
  then have "a_role a = RPhone" using inv h(1) by (auto simp: room_inv_def base_inv_def att_ok_def)
  with a show ?thesis using c u by (simp add: run try_catch_def send_def upd_sock_def)
qed

theorem daemon_frame_delivery_witness:
  "\<exists>t a wire. webSocketMessage demo_env 0 (frame_message (demo_fwd (replicate 16 7))) demo6 = (Inr (), t) \<and>
    rm_socks t = (rm_socks demo6)(1 := (rm_socks demo6 1)\<lparr>s_sent := s_sent (rm_socks demo6 1) @ [OutWire wire]\<rparr>) \<and>
    att demo6 1 = Some a \<and> a_role a = RPhone \<and> a_route_id a = routeHex (replicate 16 7)"
proof -
  obtain w where w: "decodeFwdMessage (frame_message (demo_fwd (replicate 16 7))) = FwdWire w" "take 16 (drop 8 w) = replicate 16 7"
    using demo_fwd_message [of "replicate 16 7"] by auto
  have c: "findByRoute (routeHex (take 16 (drop 8 w))) demo6 = Some 1" using demo6_props(2) w(2) by simp
  have ns: "\<not> e_sendFails demo_env (rm_socks demo6 1)" by (simp add: demo_env_def)
  show ?thesis
    using daemon_frame_delivery [OF demo6_inv demo6_props(3) w(1) c demo6_props(6) ns] unfolding w(2) by blast
qed

end
