(* ===== verification/RoomAccess.thy ===== *)
theory RoomAccess
  imports Demo
begin

text \<open>
  Who may use a room: enrolment and re-keying, revocation, registration of the daemon, pairing
  tickets, and what a room recovers when it wakes from hibernation.
\<close>

section \<open>Enrolment\<close>

text \<open>(C14) A room belongs to the first key enrolled: while storage accepts its writes, enrolling succeeds
  exactly when the room is free or holds the same hash and grant already. A free room then holds what
  was asked for, in storage and in memory; a room that holds the same only recalls it into memory;
  and a refusal leaves the whole room as it was.\<close>

theorem enroll_first_wins:
  assumes "quiet en"
  shows "\<exists>t. enroll en h g s = (Inr (case loadMeta (rm_store s) of
        None \<Rightarrow> True | Some m \<Rightarrow> m_reconnect_hash m = h \<and> m_grant_id m = g), t) \<and>
    (case loadMeta (rm_store s) of
       None \<Rightarrow> map_option m_reconnect_hash (loadMeta (rm_store t)) = Some h \<and>
               map_option m_grant_id (loadMeta (rm_store t)) = Some g \<and> rm_reconnectHash t = h \<and> rm_grantId t = g
     | Some m \<Rightarrow> if m_reconnect_hash m = h \<and> m_grant_id m = g
         then t = s\<lparr>rm_enrolled := True, rm_reconnectHash := h, rm_grantId := g\<rparr> else t = s)"
  using quiet_prims(1) [OF assms]
  by (auto simp: enroll_def comp_defs loadMeta_def putMeta_def split: option.splits)

theorem enroll_first_wins_witness:
  "\<exists>t. enroll demo_env demo_hash ''g_1'' (new_room 1000 demo_index) = (Inr True, t) \<and>
    map_option m_reconnect_hash (loadMeta (rm_store t)) = Some demo_hash \<and>
    map_option m_grant_id (loadMeta (rm_store t)) = Some ''g_1'' \<and> rm_reconnectHash t = demo_hash \<and> rm_grantId t = ''g_1''"
  using enroll_first_wins [OF demo_quiet, of demo_hash "''g_1''" "new_room 1000 demo_index"]
  by (simp add: new_room_def new_MemoryStore_def loadMeta_def)

text \<open>Re-keying: it succeeds exactly when the room is enrolled with a non-empty hash and the caller
  proves the current hash, or the new one is in place already; afterwards the stored hash is
  the new one, and a refusal changes nothing.\<close>

theorem rekey_needs_current_hash:
  assumes "quiet en" and "loadMeta (rm_store s) = Some m"
    and "length oldHash < 2 ^ 32" and "length newHash < 2 ^ 32" and "length (m_reconnect_hash m) < 2 ^ 32"
  shows "\<exists>t. rekey en oldHash newHash s =
      (Inr (m_reconnect_hash m \<noteq> [] \<and> (m_reconnect_hash m = newHash \<or> m_reconnect_hash m = oldHash)), t) \<and>
    map_option m_reconnect_hash (loadMeta (rm_store t)) =
      Some (if m_reconnect_hash m \<noteq> [] \<and> m_reconnect_hash m = oldHash then newHash else m_reconnect_hash m)"
  using assms(2-) quiet_prims(1) [OF assms(1)]
  by (auto simp: rekey_def comp_defs timingSafeEqual_iff loadMeta_def setReconnectHash_def)

theorem rekey_needs_current_hash_witness:
  "\<exists>t. rekey demo_env demo_hash ''x'' demo1 = (Inr True, t) \<and>
    map_option m_reconnect_hash (loadMeta (rm_store t)) = Some ''x''"
proof -
  have m: "loadMeta (rm_store demo1) = Some demo_meta"
    by (simp add: demo1_eq loadMeta_def putMeta_def)
  show ?thesis
    using rekey_needs_current_hash [OF demo_quiet m, of demo_hash "''x''"]
    by (simp add: demo_meta_def demo_sha demo_ids)
qed

section \<open>Revocation\<close>

text \<open>What stays true from the first statement of \<^verbatim>\<open>kick\<close> on.\<close>

definition revoked :: "nat list \<Rightarrow> room \<Rightarrow> bool" where
  "revoked live s \<longleftrightarrow> rm_live s = live \<and> rm_reconnectHash s = [] \<and>
     (case loadMeta (rm_store s) of None \<Rightarrow> True | Some m \<Rightarrow> m_reconnect_hash m = [])"

lemma revoked_prims:
  "keeps (revoked L) (send en ws m)" "keeps (revoked L) (close ws r)" "keeps (revoked L) (storeM en deleteSlot)"
  "keeps (revoked L) (storeM en (store_deleteBind h))" "keeps (revoked L) (idx_remove_now en loc p)"
  "keeps (revoked L) (modifyM (forgetRoute h))" "keeps (revoked L) (modifyM (\<lambda>s. s\<lparr>rm_daemon := d\<rparr>))"
  by (auto intro!: keepsI simp: revoked_def send_def close_def storeM_def Let_def idx_remove_now_def modifyM_def upd_sock_def
      forgetRoute_def loadMeta_def deleteSlot_def store_deleteBind_def)

lemma revoked_dropDaemon: "keeps (revoked L) (dropDaemon en reason)"
  unfolding dropDaemon_def drop_slot_def deleteBind_def sendErr_def sendJSON_def
  by (intro keeps_intros revoked_prims)

lemma calm_sendErr_plain: "reliable en \<Longrightarrow> calm (sendErr en ws c m no_extra)"
  by (rule calm_sendErr) (simp_all add: no_extra_def)

lemma calm_dropDaemon: "reliable en \<Longrightarrow> calm (dropDaemon en reason)"
  unfolding dropDaemon_def drop_slot_def deleteBind_def by (intro calm_intros calm_sendErr_plain; assumption)

lemma drop_slot_empties: "reliable en \<Longrightarrow> loadSlot (rm_store (snd (drop_slot en s))) = None"
  by (auto simp: drop_slot_def comp_defs storeM_def reliable_def Let_def idx_remove_now_def loadSlot_def deleteSlot_def split: option.splits)

lemma dropDaemon_slot:
  assumes "reliable en"
  shows "loadSlot (rm_store (snd (dropDaemon en reason s))) = None \<and> rm_daemon (snd (dropDaemon en reason s)) = None"
proof -
  let ?loop = "lookM (\<lambda>s. for_each (rm_live s) (\<lambda>ws. lookM (\<lambda>t.
          case att t ws of
            None \<Rightarrow> ret ()
          | Some a \<Rightarrow>
              if a_role a = RDaemon then ret ()
              else seqs [sendErr en ws ''daemon_offline'' ''daemon websocket gone'' no_extra,
                         close ws ''daemon_offline'',
                         if a_route_id a \<noteq> [] then deleteBind en (a_route_id a) else ret ()])))"
  have "calm ?loop"
    unfolding deleteBind_def by (intro calm_intros calm_sendErr_plain assms)
  then obtain a t where t: "?loop s = (Inr a, t)" using calmE by blast
  have "calm (drop_slot en)" unfolding drop_slot_def by (intro calm_intros assms)
  then obtain b u where u: "drop_slot en t = (Inr b, u)" using calmE by blast
  then have "loadSlot (rm_store u) = None" using drop_slot_empties [OF assms, of t] by simp
  then show ?thesis
    unfolding dropDaemon_def lookM_apply [of _ s]
    using t u by (auto simp: lookM_apply comp_defs close_def upd_sock_def split: option.splits)
qed

lemma close_all:
  "\<exists>t. for_each wss (\<lambda>ws. close ws r) s = (Inr (), t) \<and> (\<forall>ws \<in> set wss. s_closed (rm_socks t ws)) \<and>
     (\<forall>ws. s_closed (rm_socks s ws) \<longrightarrow> s_closed (rm_socks t ws)) \<and> rm_store t = rm_store s"
proof (induction wss arbitrary: s)
  case (Cons w wss)
  obtain t where "for_each wss (\<lambda>ws. close ws r) (upd_sock w (\<lambda>k. k\<lparr>s_closed := True, s_reason := r\<rparr>) s) = (Inr (), t)"
    "\<forall>ws \<in> set wss. s_closed (rm_socks t ws)"
    "\<forall>ws. s_closed (rm_socks (upd_sock w (\<lambda>k. k\<lparr>s_closed := True, s_reason := r\<rparr>) s) ws) \<longrightarrow> s_closed (rm_socks t ws)"
    "rm_store t = rm_store s"
    using Cons [of "upd_sock w (\<lambda>k. k\<lparr>s_closed := True, s_reason := r\<rparr>) s"] by (auto simp: upd_sock_def)
  then show ?case by (auto simp: close_def modifyM_def upd_sock_def split: if_splits)
qed simp

text \<open>(C19) Kicking a computer revokes it: its hash is gone from memory and storage, the pairing slot is
  dropped, every socket of the room is closed, no daemon is left, and no computer can register
  afterwards until a hash is enrolled again.\<close>

theorem kick_revokes:
  assumes "quiet en"
  shows "\<exists>t. kick en s = (Inr (), t) \<and> rm_daemon t = None \<and> loadSlot (rm_store t) = None \<and>
    (case loadMeta (rm_store t) of None \<Rightarrow> True | Some m \<Rightarrow> m_reconnect_hash m = []) \<and>
    list_all (\<lambda>ws. s_closed (rm_socks t ws)) (rm_live t) \<and>
    rm_daemon (snd (handleDaemonHello en ws fr t)) = None"
proof -
  have r: "reliable en" using assms by (simp add: quiet_def)
  let ?s1 = "s\<lparr>rm_writes := Suc (rm_writes s), rm_store := clearReconnectHash (rm_store s), rm_reconnectHash := []\<rparr>"
  have rv: "revoked (rm_live s) ?s1"
    by (simp add: revoked_def clearReconnectHash_def loadMeta_def split: option.splits)
  obtain a u where u: "dropDaemon en ''kicked'' ?s1 = (Inr a, u)" using calmE [OF calm_dropDaemon [OF r]] by blast
  have ru: "revoked (rm_live s) u" using keepsD [OF revoked_dropDaemon rv] u by (metis snd_conv)
  have su: "loadSlot (rm_store u) = None" using dropDaemon_slot [OF r, of "''kicked''" ?s1] u by simp
  obtain v where v: "for_each (rm_live u) (\<lambda>ws. close ws ''kicked'') u = (Inr (), v)"
      "\<forall>ws \<in> set (rm_live u). s_closed (rm_socks v ws)" "rm_store v = rm_store u"
    using close_all [of "rm_live u" "''kicked''" u] by blast
  have rvv: "revoked (rm_live s) v"
  proof -
    have "keeps (revoked (rm_live s)) (for_each (rm_live u) (\<lambda>ws. close ws ''kicked''))"
      by (rule keeps_for_each) (rule revoked_prims)
    from keepsD [OF this ru] v(1) show ?thesis by simp
  qed
  have run: "kick en s = (Inr (), v\<lparr>rm_daemon := None\<rparr>)"
    using u v by (simp add: kick_def quiet_prims [OF assms] modifyM_def lookM_apply)
  have hello: "rm_daemon (snd (handleDaemonHello en ws fr (v\<lparr>rm_daemon := None\<rparr>))) = None"
  proof -
    have fr: "rm_daemon (snd (reject en w c m x)) = rm_daemon x" for w c m x
      using framesD [OF frames_reject, of en w c m x] by (simp add: view_def)
    have ld: "loadReconnectHash (v\<lparr>rm_daemon := None\<rparr>) = (Inr [], loadMeta_into (v\<lparr>rm_daemon := None\<rparr>))"
      using rvv by (auto simp: loadReconnectHash_def comp_defs revoked_def loadMeta_into_def split: option.splits)
    show ?thesis
      by (auto simp: handleDaemonHello_def lookM_apply bindM_apply Let_def fr ld split: option.splits)
        (simp add: loadMeta_into_def split: option.splits)+
  qed
  show ?thesis
    using run hello rvv ru v su by (simp add: revoked_def list_all_iff)
qed

theorem kick_revokes_witness:
  "\<exists>t. kick demo_env demo6 = (Inr (), t) \<and> rm_daemon t = None \<and> loadSlot (rm_store t) = None \<and>
    (case loadMeta (rm_store t) of None \<Rightarrow> True | Some m \<Rightarrow> m_reconnect_hash m = []) \<and>
    list_all (\<lambda>ws. s_closed (rm_socks t ws)) (rm_live t) \<and>
    rm_daemon (snd (handleDaemonHello demo_env 0 demo_register t)) = None"
  by (rule kick_revokes [OF demo_quiet])

section \<open>Registration\<close>

text \<open>
  The events that run at an \<^verbatim>\<open>await\<close> may do anything but register a daemon of their own: they may kick,
  re-key, close sockets, and storage and sends may fail. What else registers does so in a handler of its
  own, to which the same theorem applies.
\<close>

definition bystanders :: "env \<Rightarrow> bool" where
  "bystanders en \<longleftrightarrow> (\<forall>n s. rm_daemon (e_yield en n s) = rm_daemon s \<or> rm_daemon (e_yield en n s) = None)"

lemma bystanders_yield:
  assumes "bystanders en"
  shows "rm_daemon (e_yield en n (s\<lparr>rm_awaits := k\<rparr>)) = rm_daemon s \<or> rm_daemon (e_yield en n (s\<lparr>rm_awaits := k\<rparr>)) = None"
proof -
  have "rm_daemon (s\<lparr>rm_awaits := k\<rparr>) = rm_daemon s" by simp
  with assms show ?thesis unfolding bystanders_def by metis
qed

lemma quiet_bystanders: "quiet en \<Longrightarrow> bystanders en"
  by (simp add: quiet_def bystanders_def)

definition daemon_is :: "nat option \<Rightarrow> room \<Rightarrow> bool" where
  "daemon_is d s \<longleftrightarrow> rm_daemon s = d \<or> rm_daemon s = None"

named_theorems daemon_intros

lemma on_view_daemon_is: "on_view (daemon_is d)"
  by (auto simp: on_view_def daemon_is_def view_def)

lemmas daemon_frames [daemon_intros] =
  frames_send [THEN keeps_frame, OF on_view_daemon_is] frames_close [THEN keeps_frame, OF on_view_daemon_is]
  frames_storeM [THEN keeps_frame, OF on_view_daemon_is] frames_random [THEN keeps_frame, OF on_view_daemon_is]
  frames_sendJSON [THEN keeps_frame, OF on_view_daemon_is] frames_sendErr [THEN keeps_frame, OF on_view_daemon_is]
  frames_reject [THEN keeps_frame, OF on_view_daemon_is] frames_metricM [THEN keeps_frame, OF on_view_daemon_is]
  frames_idx_remove_now [THEN keeps_frame, OF on_view_daemon_is] frames_noteGateAttempt [THEN keeps_frame, OF on_view_daemon_is]
  frames_counters [THEN keeps_frame, OF on_view_daemon_is] frames_loadReconnectHash [THEN keeps_frame, OF on_view_daemon_is]
  frames_drop_slot [THEN keeps_frame, OF on_view_daemon_is]

lemma daemon_writes [daemon_intros]:
  "keeps (daemon_is d) (writeAtt ws a)" "keeps (daemon_is d) (modifyM (forgetRoute h))"
  by (auto intro!: keepsI simp: daemon_is_def writeAtt_def modifyM_def forgetRoute_def)

lemma daemon_await [daemon_intros]:
  assumes "bystanders en"
  shows "keeps (daemon_is d) (await en)"
proof (rule keepsI)
  fix s
  assume "daemon_is d s"
  then show "daemon_is d (snd (await en s))"
    using bystanders_yield [OF assms, where n = "rm_awaits s" and s = s and k = "Suc (rm_awaits s)"] by (auto simp: daemon_is_def await_def)
qed

lemma daemon_core [daemon_intros]:
  "bystanders en \<Longrightarrow> keeps (daemon_is d) (syncHeapAlarm en)" "bystanders en \<Longrightarrow> keeps (daemon_is d) (schedule en k r tm)"
  "bystanders en \<Longrightarrow> keeps (daemon_is d) (clearKindRef en k r)" "keeps (daemon_is d) (deleteBind en h)"
  "keeps (daemon_is d) (closeBind en ws c m b)" "bystanders en \<Longrightarrow> keeps (daemon_is d) (idx_remove en loc p)"
  unfolding schedule_def clearKindRef_def syncHeapAlarm_def closeBind_def deleteBind_def idx_remove_def Let_def
  by (intro keeps_intros daemon_intros; assumption)+

lemma daemon_idx_insert [daemon_intros]: "bystanders en \<Longrightarrow> keeps (daemon_is d) (idx_insert en row)"
proof -
  have "keeps (daemon_is d) (\<lambda>s. case client_insert (e_down en) (rm_clock s) row (rm_index s) of
                    (r, ns) \<Rightarrow> (Inr r, s\<lparr>rm_index := ns\<rparr>))"
    by (rule keepsI) (simp add: daemon_is_def split: prod.splits)
  then show "bystanders en \<Longrightarrow> keeps (daemon_is d) (idx_insert en row)"
    unfolding idx_insert_def by (intro keeps_intros daemon_intros)
qed

lemma daemon_newRouteId [daemon_intros]: "keeps (daemon_is d) (newRouteId (random en))" "keeps (daemon_is d) (mintLoc (random en))"
proof -
  have "keeps (daemon_is d) (newRouteId_loop n (random en))" for n
    by (induction n) (auto intro!: keeps_intros daemon_intros)
  then show "keeps (daemon_is d) (newRouteId (random en))" by (simp add: newRouteId_def)
  show "keeps (daemon_is d) (mintLoc (random en))" unfolding mintLoc_def by (intro keeps_intros daemon_intros)
qed

lemma daemon_session [daemon_intros]:
  "keeps (daemon_is d) (handlePing en ws fr)" "keeps (daemon_is d) (handlePong en ws fr)" "keeps (daemon_is d) (send_frame en ws fr)"
  "keeps (daemon_is d) (handleFakeEstablished en ws)" "bystanders en \<Longrightarrow> keeps (daemon_is d) (confirm_claim en ac r)"
  "bystanders en \<Longrightarrow> keeps (daemon_is d) (handleClientHello en ws fr)" "bystanders en \<Longrightarrow> keeps (daemon_is d) (handleSessionAttach en ws fr)"
  "bystanders en \<Longrightarrow> keeps (daemon_is d) (handleSessionEstablished en ws fr)" "keeps (daemon_is d) (handleDaemonError en ws fr)"
  unfolding handlePing_def handlePong_def send_frame_def handleFakeEstablished_def confirm_claim_def handleClientHello_def
    handleSessionAttach_def handleSessionEstablished_def handleDaemonError_def armHello_def armResume_def Let_def
  by (intro keeps_intros daemon_intros; (assumption | simp add: daemon_is_def))+

lemma daemon_close_pairings [daemon_intros]:
  "keeps (daemon_is d) (close_pairings en p c m)" "keeps (daemon_is d) (close_all_pairings en)" "keeps (daemon_is d) (restoreSlot en x)"
  unfolding close_pairings_def close_all_pairings_def restoreSlot_def by (intro keeps_intros daemon_intros)+

lemma daemon_mint_loop [daemon_intros]: "bystanders en \<Longrightarrow> keeps (daemon_is d) (mint_loop en ws fr p ttl dl x n)"
proof (induction n)
  case (Suc n)
  then have IH: "keeps (daemon_is d) (mint_loop en ws fr p ttl dl x n)" by simp
  show ?case unfolding mint_loop.simps by (intro keeps_intros daemon_intros IH; rule Suc)
qed (simp add: daemon_intros)

lemma daemon_pairing [daemon_intros]:
  "bystanders en \<Longrightarrow> keeps (daemon_is d) (refresh_slot en ws fr p ttl dl y)"
  "bystanders en \<Longrightarrow> keeps (daemon_is d) (handlePairOpen en ws fr)" "bystanders en \<Longrightarrow> keeps (daemon_is d) (handlePairClose en ws fr)"
  "bystanders en \<Longrightarrow> keeps (daemon_is d) (handlePairAttach en ws fr)"
  unfolding handlePairOpen_def handlePairOpenLocked_def handlePairClose_def handlePairCloseLocked_def withPairingLock_def
    handlePairAttach_def refresh_slot_def armPairFirst_def Let_def
  by (intro keeps_intros daemon_intros; assumption)+

lemma daemon_fwd [daemon_intros]:
  "keeps (daemon_is d) (forwardWire en e r w)" "bystanders en \<Longrightarrow> keeps (daemon_is d) (advanceAndForward en ws e hex n dl rb w)"
  "bystanders en \<Longrightarrow> keeps (daemon_is d) (fwdWireFromClient en ws ao w)" "keeps (daemon_is d) (fwdWireFromDaemon en ws w)"
  "bystanders en \<Longrightarrow> keeps (daemon_is d) (onFwdWire en ws w)"
  unfolding onFwdWire_def fwdWireFromClient_def fwdWireFromDaemon_def advanceAndForward_def advancePairFrames_def forwardWire_def Let_def
  by (intro keeps_intros daemon_intros; assumption)+

text \<open>Every message but a daemon's hello makes nobody the daemon of the room.\<close>

lemma message_keeps_daemon:
  assumes b: "bystanders en" and nh: "\<And>fr w. decodeMessage msg = Some (fr, w) \<Longrightarrow> f_typ fr = Typ_HELLO_DAEMON \<Longrightarrow> role_of (att s ws) \<noteq> RDaemon"
  shows "daemon_is (rm_daemon s) (snd (webSocketMessage en ws msg s))"
proof -
  have cl: "keeps (daemon_is d) (on_client_frame en ws fr w)" for d fr w
    unfolding on_client_frame_def by (intro keeps_intros daemon_intros b)
  have dm: "f_typ fr \<noteq> Typ_HELLO_DAEMON \<Longrightarrow> keeps (daemon_is d) (on_daemon_frame en ws fr w)" for d fr w
    unfolding on_daemon_frame_def by (simp only: if_False) (intro keeps_intros daemon_intros b)
  have use: "daemon_is (rm_daemon s) (snd (m s))" if "\<And>d. keeps (daemon_is d) m" for m :: "unit act"
    using keepsD [OF that, of "rm_daemon s" s] by (simp add: daemon_is_def)
  have dm': "f_typ fr \<noteq> Suc 0 \<Longrightarrow> daemon_is (rm_daemon s) (snd (on_daemon_frame en ws fr w s))" for fr w
    by (rule use, rule dm) simp
  show ?thesis
    using nh dm' use [OF daemon_frames(7)] use [OF daemon_fwd(5) [OF b]] use [OF daemon_session(1)] use [OF daemon_session(2)] use [OF cl]
    by (auto simp: webSocketMessage_def onMessage_def lookM_apply split: fwd_result.splits option.splits intro: use dm)
qed

definition current_hash :: "room \<Rightarrow> string" where
  "current_hash s =
     (if rm_reconnectHash s \<noteq> [] then rm_reconnectHash s
      else case loadMeta (rm_store s) of None \<Rightarrow> [] | Some m \<Rightarrow> m_reconnect_hash m)"

lemma loadReconnectHash_value:
  "\<exists>t. loadReconnectHash s = (Inr (current_hash s), t) \<and> rm_daemon t = rm_daemon s"
  by (auto simp: loadReconnectHash_def comp_defs current_hash_def loadMeta_into_def split: option.splits)

lemma register_daemon_sets:
  "rm_daemon (snd (register_daemon en ws fr token s)) = rm_daemon s \<or> rm_daemon (snd (register_daemon en ws fr token s)) = Some ws"
proof -
  let ?Q = "\<lambda>t. rm_daemon t = rm_daemon s \<or> rm_daemon t = Some ws"
  have v: "on_view ?Q" by (auto simp: on_view_def view_def)
  have w: "keeps ?Q (writeAtt u b)" for u b by (rule keepsI) (simp add: writeAtt_def modifyM_def)
  have d: "keeps ?Q (deleteBind en h)" for h
    unfolding deleteBind_def by (intro keeps_intros frames_storeM [THEN keeps_frame] v) (simp add: forgetRoute_def)
  have "keeps ?Q (register_daemon en ws fr token)"
    unfolding register_daemon_def notifyReplaced_def
    by (intro keeps_intros w d frames_close [THEN keeps_frame] frames_sendJSON [THEN keeps_frame] frames_drop_slot [THEN keeps_frame] v) simp
  from keepsD [OF this] show ?thesis by blast
qed



section \<open>Tickets\<close>

lemma ticket_upgrade_consumes:
  assumes q: "quiet en" and tk: "tk \<noteq> []"
    and ok: "consumeUpgrade en (Some tk) role account owner s = (Inr (Some a), t)"
  shows "gateAllowed s \<and> TICKET_RE tk \<and> role = ''client'' \<and>
    (\<exists>row. fst (consumeTicket tk (rm_clock s) (rm_store s)) = Some row) \<and>
    st_tickets (rm_store t) = st_tickets (snd (consumeTicket tk (rm_clock s) (rm_store s))) \<and>
    rm_clock t = rm_clock s"
  using ok tk
  by (auto simp: consumeUpgrade_def lookM_apply bindM_apply Let_def quiet_prims [OF q] noteGateAttempt_def modifyM_def ret_def
      mem_recordGateAttempt_def mem_pruneGateAttempts_def split: if_splits prod.splits option.splits)

text \<open>(C20) A pairing ticket opens the door once: it is honoured only for a client, only while its row is
  unexpired, and presenting it again right after is refused.\<close>

theorem ticket_opens_once:
  assumes q: "quiet en" and inv: "mem_invar (rm_store s)" and tk: "tk \<noteq> []"
    and ok: "consumeUpgrade en (Some tk) role account owner s = (Inr (Some a), t)"
  shows "role = ''client'' \<and> a_role a = RPhone \<and>
    (\<exists>row. mem_tickets (rm_store s) tk = Some row \<and> rm_clock s < t_deadline row) \<and>
    fst (consumeUpgrade en (Some tk) role' account' owner' t) = Inr None"
proof -
  note c = ticket_upgrade_consumes [OF q tk ok]
  then obtain row where row: "fst (consumeTicket tk (rm_clock s) (rm_store s)) = Some row" by blast
  then have live: "mem_tickets (rm_store s) tk = Some row" "rm_clock s < t_deadline row"
    using mem_store.consume_live [OF inv, of tk row "rm_clock s"] mem_store.consume_dead [OF inv, of tk "rm_clock s"]
    by (force simp: consumeTicket_def mem_tickets_def split: option.splits if_splits)+
  have gone: "mem_tickets (rm_store t) tk = None"
    using mem_store.consume_live [OF inv live] c by (simp add: mem_tickets_def)
  then have "fst (consumeTicket tk (rm_clock t) (rm_store t)) = None"
    by (simp add: consumeTicket_def mem_tickets_def)
  then have "fst (consumeUpgrade en (Some tk) role' account' owner' t) = Inr None"
    using tk by (cases "consumeTicket tk (rm_clock t) (rm_store t)")
      (auto simp: consumeUpgrade_def lookM_apply bindM_apply Let_def quiet_prims [OF q] noteGateAttempt_def modifyM_def ret_def)
  moreover have "a_role a = RPhone"
    using ok tk c by (auto simp: consumeUpgrade_def lookM_apply bindM_apply Let_def quiet_prims [OF q] noteGateAttempt_def
        modifyM_def ret_def upgrade_att_def newAttachment_def split: if_splits prod.splits option.splits)
  ultimately show ?thesis using c live by blast
qed

definition demo_ticket :: string where
  "demo_ticket = replicate 32 (CHR ''0'')"

definition demo_ticket_room :: room where
  "demo_ticket_room = (new_room 1000 demo_index)\<lparr>rm_store := insertTicket
     \<lparr> t_ticket = demo_ticket, t_pair_ref = ''p'', t_deadline = 2000 \<rparr> new_MemoryStore\<rparr>"

theorem ticket_opens_once_witness:
  "\<exists>a t. consumeUpgrade demo_env (Some demo_ticket) ''client'' [] [] demo_ticket_room = (Inr (Some a), t) \<and> a_role a = RPhone \<and>
    fst (consumeUpgrade demo_env (Some demo_ticket) ''client'' [] [] t) = Inr None"
proof -
  have inv: "mem_invar (rm_store demo_ticket_room)" and ne: "demo_ticket \<noteq> []"
    by (simp_all add: demo_ticket_room_def insertTicket_def new_MemoryStore_def mem_invar_def demo_ticket_def)
  have "TICKET_RE demo_ticket" by code_simp
  moreover have "gateAllowed demo_ticket_room" by code_simp
  ultimately obtain a t where ok: "consumeUpgrade demo_env (Some demo_ticket) ''client'' [] [] demo_ticket_room = (Inr (Some a), t)"
    using ne by (auto simp: consumeUpgrade_def lookM_apply bindM_apply Let_def quiet_prims [OF demo_quiet] noteGateAttempt_def
        modifyM_def ret_def demo_ticket_room_def insertTicket_def consumeTicket_def new_MemoryStore_def new_room_def)
  from ticket_opens_once [OF demo_quiet inv ne this, of "''client''" "[]" "[]"] ok show ?thesis by blast
qed

section \<open>Hibernation\<close>

lemma rememberRoute_fields [simp]:
  "att (rememberRoute h w s) = att s" "rm_routes (rememberRoute h w s) = (rm_routes s)(h \<mapsto> (w, hexToRoute h))"
  by (simp_all add: rememberRoute_def att_def fun_eq_iff)

lemma remember_all_routes:
  "hex \<noteq> [] \<Longrightarrow> rm_routes (remember_all wss s) hex =
     (case filter (\<lambda>w. route_of (att s w) = hex) wss of
        [] \<Rightarrow> rm_routes s hex | x # xs \<Rightarrow> Some (last (x # xs), hexToRoute hex))"
proof (induction wss arbitrary: s)
  case (Cons w wss)
  have "rm_routes (remember_all wss (rememberRoute h w s)) hex =
     (case filter (\<lambda>w. route_of (att s w) = hex) wss of
        [] \<Rightarrow> ((rm_routes s)(h \<mapsto> (w, hexToRoute h))) hex | x # xs \<Rightarrow> Some (last (x # xs), hexToRoute hex))" for h
    using Cons.IH [OF Cons.prems, of "rememberRoute h w s"] by (simp only: rememberRoute_fields)
  then show ?case
    using Cons.IH [OF Cons.prems, of s] Cons.prems
    by (cases "filter (\<lambda>w. route_of (att s w) = hex) wss") auto
qed simp

lemma remember_all_unique:
  assumes "hex \<noteq> []" and "\<And>v w. v \<in> set wss \<Longrightarrow> w \<in> set wss \<Longrightarrow> route_of (att s v) = hex \<Longrightarrow> route_of (att s w) = hex \<Longrightarrow> v = w"
  shows "rm_routes (remember_all wss (s\<lparr>rm_routes := Map.empty\<rparr>)) hex = Some (ws, r) \<longleftrightarrow>
    ws \<in> set wss \<and> route_of (att s ws) = hex \<and> r = hexToRoute hex"
proof -
  have at: "att (s\<lparr>rm_routes := Map.empty\<rparr>) = att s" by (simp add: att_def fun_eq_iff)
  let ?xs = "filter (\<lambda>w. route_of (att s w) = hex) wss"
  have "?xs \<noteq> [] \<Longrightarrow> last ?xs \<in> set ?xs" by (rule last_in_set)
  moreover have "\<And>v w. v \<in> set ?xs \<Longrightarrow> w \<in> set ?xs \<Longrightarrow> v = w" using assms(2) by auto
  moreover have "ws \<in> set ?xs \<longleftrightarrow> ws \<in> set wss \<and> route_of (att s ws) = hex" by simp
  ultimately show ?thesis
    unfolding remember_all_routes [OF assms(1)] at
    by (cases ?xs) (simp_all only: list.case, force+)
qed

definition hello_of :: "room \<Rightarrow> nat \<Rightarrow> number" where
  "hello_of s d = (case att s d of None \<Rightarrow> 0 | Some a \<Rightarrow> a_hello_at_ms a)"

lemma newest_daemon_max:
  "h = hello_of s d \<Longrightarrow> \<forall>e \<in> insert d (set ds). hello_of s e \<le> hello_of s (newest_daemon s ds d h)"
proof (induction s ds d h rule: newest_daemon.induct)
  case (2 s e ds best bestHello)
  then show ?case by (auto simp: Let_def hello_of_def split: if_splits)
qed simp

lemma rebuildMaps_result:
  "\<exists>t. rebuildMaps s = (Inr (), t) \<and> att t = att s \<and> rm_live t = rm_live s \<and>
     rm_routes t = rm_routes (remember_all (rm_live s) (s\<lparr>rm_routes := Map.empty\<rparr>)) \<and>
     (case filter (\<lambda>ws. isRegisteredDaemon (att s ws)) (rm_live s) of
        [] \<Rightarrow> rm_daemon t = None
      | d # ds \<Rightarrow> rm_daemon t = Some (newest_daemon s ds d (hello_of s d)))"
proof -
  define s1 where "s1 = remember_all (rm_live s) (s\<lparr>rm_routes := Map.empty\<rparr>)"
  define ds where "ds = filter (\<lambda>ws. isRegisteredDaemon (att s1 ws)) (rm_live s1)"
  have a1: "att s1 = att s" "rm_live s1 = rm_live s"
    by (simp_all add: s1_def) (simp add: att_def fun_eq_iff)
  have nd: "newest_daemon s1 xs x h = newest_daemon s xs x h" for xs x h
    by (induction xs arbitrary: x h) (simp_all add: a1 Let_def)
  obtain r t where rt: "retainNewestDaemon ds s1 = (r, t)" by fastforce
  have v: "view t = view s1"
    using framesD [OF frames_retainNewestDaemon, of ds s1] rt by simp
  have out: "rebuildMaps s = (case r of Inl e \<Rightarrow> (Inl e, t) | Inr d \<Rightarrow> (Inr (), t\<lparr>rm_daemon := d\<rparr>))"
    using rt by (simp add: rebuildMaps_def comp_defs s1_def [symmetric] ds_def [symmetric] split: sum.splits)
  have res: "r = Inr (case ds of [] \<Rightarrow> None | d # xs \<Rightarrow> Some (newest_daemon s xs d (hello_of s d)))"
  proof (cases ds)
    case (Cons x xs)
    then show ?thesis
      using rt retain_loop [of ds "newest_daemon s1 xs x (case att s1 x of None \<Rightarrow> 0 | Some a \<Rightarrow> a_hello_at_ms a)" s1]
      by (auto simp: retainNewestDaemon_def comp_defs Let_def nd hello_of_def a1 simp del: for_each.simps)
  qed (use rt in \<open>simp add: retainNewestDaemon_def comp_defs\<close>)
  show ?thesis
    using out res v a1 by (auto simp: view_def ds_def s1_def split: list.splits)
qed

text \<open>(C21) Waking from hibernation restores the routing state from what the sockets carry: attachments
  and sockets are untouched, a route resolves exactly to the live socket bound to it, and the
  daemon is a live registered daemon socket with the latest hello, if there is one.\<close>

theorem wake_restores_routes:
  assumes uniq: "\<And>v w. v \<in> set (rm_live s) \<Longrightarrow> w \<in> set (rm_live s) \<Longrightarrow> route_of (att s v) \<noteq> [] \<Longrightarrow>
      route_of (att s v) = route_of (att s w) \<Longrightarrow> v = w"
    and hex: "hex \<noteq> []" and t: "t = snd (new_DaemonRoom en s)"
  shows "att t = att s \<and> rm_live t = rm_live s \<and>
    (findByRoute hex t = Some ws \<longleftrightarrow> ws \<in> set (rm_live s) \<and> route_of (att s ws) = hex) \<and>
    (case rm_daemon t of
       None \<Rightarrow> filter (\<lambda>w. isRegisteredDaemon (att s w)) (rm_live s) = []
     | Some d \<Rightarrow> d \<in> set (rm_live s) \<and> isRegisteredDaemon (att s d) \<and>
         list_all (\<lambda>w. hello_of s w \<le> hello_of s d) (filter (\<lambda>w. isRegisteredDaemon (att s w)) (rm_live s)))"
proof -
  let ?f = "fresh_core s"
  have f: "att ?f = att s" "rm_live ?f = rm_live s" by (simp_all add: fresh_core_def att_def fun_eq_iff)
  have hf: "hello_of ?f = hello_of s" by (simp add: hello_of_def f fun_eq_iff)
  obtain u where u: "rebuildMaps ?f = (Inr (), u)" "att u = att s" "rm_live u = rm_live s"
      "rm_routes u = rm_routes (remember_all (rm_live s) (?f\<lparr>rm_routes := Map.empty\<rparr>))"
      "case filter (\<lambda>ws. isRegisteredDaemon (att s ws)) (rm_live s) of
        [] \<Rightarrow> rm_daemon u = None | d # ds \<Rightarrow> rm_daemon u = Some (newest_daemon ?f ds d (hello_of s d))"
    using rebuildMaps_result [of ?f] unfolding f hf by auto
  have "view t = view u"
    using u(1) framesD [OF frames_harvestControl, of en u]
    by (auto simp: t new_DaemonRoom_def coldStart_def comp_defs split: prod.splits sum.splits)
  then have v: "att t = att u" "rm_routes t = rm_routes u" "rm_daemon t = rm_daemon u" "rm_live t = rm_live u"
    by (simp_all add: view_def)
  have "rm_routes u hex = Some (ws, r) \<longleftrightarrow> ws \<in> set (rm_live s) \<and> route_of (att s ws) = hex \<and> r = hexToRoute hex" for r
  proof -
    have one: "\<And>v w. v \<in> set (rm_live s) \<Longrightarrow> w \<in> set (rm_live s) \<Longrightarrow> route_of (att ?f v) = hex \<Longrightarrow> route_of (att ?f w) = hex \<Longrightarrow> v = w"
      using uniq hex by (simp add: f)
    have "rm_routes u hex = Some (ws, r) \<longleftrightarrow> ws \<in> set (rm_live s) \<and> route_of (att ?f ws) = hex \<and> r = hexToRoute hex"
      unfolding u(4) by (rule remember_all_unique [OF hex], rule one)
    then show ?thesis by (simp only: f)
  qed
  then have "findByRoute hex t = Some ws \<longleftrightarrow> ws \<in> set (rm_live s) \<and> route_of (att s ws) = hex"
    by (auto simp: findByRoute_def v)
  moreover have "case rm_daemon u of
       None \<Rightarrow> filter (\<lambda>w. isRegisteredDaemon (att s w)) (rm_live s) = []
     | Some d \<Rightarrow> d \<in> set (rm_live s) \<and> isRegisteredDaemon (att s d) \<and>
         list_all (\<lambda>w. hello_of s w \<le> hello_of s d) (filter (\<lambda>w. isRegisteredDaemon (att s w)) (rm_live s))"
  proof (cases "filter (\<lambda>w. isRegisteredDaemon (att s w)) (rm_live s)")
    case (Cons d ds)
    let ?n = "newest_daemon ?f ds d (hello_of s d)"
    have "?n \<in> set (d # ds)" using newest_daemon_in [of ?f ds d "hello_of s d"] by simp
    then have "?n \<in> set (rm_live s) \<and> isRegisteredDaemon (att s ?n)" unfolding Cons [symmetric] by simp
    moreover have "\<forall>e \<in> set (d # ds). hello_of s e \<le> hello_of s ?n"
      using newest_daemon_max [of "hello_of s d" ?f d ds] by (simp add: hf)
    ultimately show ?thesis using u(5) Cons by (simp add: list_all_iff)
  qed (use u(5) in simp)
  ultimately show ?thesis using u v by simp
qed

theorem wake_restores_routes_witness:
  "findByRoute (routeHex (replicate 16 7)) (snd (new_DaemonRoom demo_env demo6)) = Some 1"
proof -
  obtain a where a: "att demo6 1 = Some a" "a_route_id a = routeHex (replicate 16 7)" using demo6_props(1) by blast
  have ne: "routeHex (replicate 16 7) \<noteq> []" by (rule routeHex_ne) simp
  have uq: "v = w" if "v \<in> set (rm_live demo6)" "w \<in> set (rm_live demo6)" "route_of (att demo6 v) \<noteq> []"
      "route_of (att demo6 v) = route_of (att demo6 w)" for v w
  proof -
    have "v = 0 \<or> v = 1" "w = 0 \<or> w = 1" using that(1,2) by (auto simp: demo6_props(7))
    moreover have "v \<noteq> 0" using that(3) demo6_props(8) by (intro notI) simp
    moreover have "w \<noteq> 0" using that(3,4) demo6_props(8) by (intro notI) simp
    ultimately show ?thesis by auto
  qed
  have "findByRoute (routeHex (replicate 16 7)) (snd (new_DaemonRoom demo_env demo6)) = Some 1 \<longleftrightarrow>
      1 \<in> set (rm_live demo6) \<and> route_of (att demo6 1) = routeHex (replicate 16 7)"
    by (rule wake_restores_routes [THEN conjunct2, THEN conjunct2, THEN conjunct1, OF _ ne refl], rule uq)
  then show ?thesis using a by (simp add: demo6_props(7) route_of_def)
qed

end
