(* ===== verification/RateLimits.thy ===== *)
theory RateLimits
  imports Constants
begin

text \<open>
  The in-memory sliding-window limiter of \<^verbatim>\<open>workers/pairfob-origin/src/limits.ts\<close>. The
  bucket map is the state; each call drops the hits that left the window, then admits
  the call when fewer than \<open>limit\<close> remain. The lemmas show the promise of a limiter:
  among the calls it admitted for one key, no window holds more than the limit.
\<close>

section \<open>The limiter\<close>

type_synonym buckets = "string \<rightharpoonup> number list"

definition allow :: "string \<Rightarrow> nat \<Rightarrow> number \<Rightarrow> number \<Rightarrow> buckets \<Rightarrow> bool \<times> buckets" where
  "allow key limit windowMs now b =
     (let hits = filter (\<lambda>t. now - t < windowMs) (case b key of None \<Rightarrow> [] | Some h \<Rightarrow> h)
      in if length hits \<ge> limit then (False, b(key \<mapsto> hits))
         else (True, b(key \<mapsto> hits @ [now])))"

definition resetLimits :: "buckets \<Rightarrow> buckets" where
  "resetLimits b = Map.empty"

definition allowEnrollIP :: "string \<Rightarrow> number \<Rightarrow> buckets \<Rightarrow> bool \<times> buckets" where
  "allowEnrollIP ip = allow (''enroll-ip:'' @ ip) 5 (60 * 60 * 1000)"

definition allowIntentIP :: "string \<Rightarrow> number \<Rightarrow> buckets \<Rightarrow> bool \<times> buckets" where
  "allowIntentIP ip = allow (''intent-ip:'' @ ip) 10 (10 * 60 * 1000)"

definition allowSessionIP :: "string \<Rightarrow> number \<Rightarrow> buckets \<Rightarrow> bool \<times> buckets" where
  "allowSessionIP ip = allow (''session-ip:'' @ ip) 60 (60 * 1000)"

definition allowEventsIP :: "string \<Rightarrow> number \<Rightarrow> buckets \<Rightarrow> bool \<times> buckets" where
  "allowEventsIP ip = allow (''events-ip:'' @ ip) 60 (60 * 1000)"

definition allowAuthIP :: "string \<Rightarrow> number \<Rightarrow> buckets \<Rightarrow> bool \<times> buckets" where
  "allowAuthIP ip = allow (''auth-ip:'' @ ip) 120 (10 * 60 * 1000)"

text \<open>
  A history of calls, each with its key, limit, window and clock, and the clocks of
  the calls admitted for one key.
\<close>

type_synonym limit_call = "string \<times> nat \<times> number \<times> number"

fun admitted :: "string \<Rightarrow> limit_call list \<Rightarrow> buckets \<Rightarrow> number list" where
  "admitted k [] b = []"
| "admitted k ((key, limit, w, now) # cs) b =
     (case allow key limit w now b of
        (ok, b') \<Rightarrow> (if key = k \<and> ok then now # admitted k cs b' else admitted k cs b'))"

section \<open>The window bound\<close>

text \<open>At every admission the window ending there holds at most \<open>n\<close> admissions.\<close>

definition window_ok :: "number \<Rightarrow> nat \<Rightarrow> number list \<Rightarrow> bool" where
  "window_ok w n as \<longleftrightarrow>
     (\<forall>i < length as. length (filter (\<lambda>t. as ! i - t < w) (take (Suc i) as)) \<le> n)"

lemma window_ok_Nil: "window_ok w n []"
  by (simp add: window_ok_def)

lemma window_ok_snoc:
  "window_ok w n (as @ [a]) \<longleftrightarrow>
     window_ok w n as \<and> length (filter (\<lambda>t. a - t < w) (as @ [a])) \<le> n"
  by (auto simp: window_ok_def less_Suc_eq nth_append)

lemma window_bound:
  assumes "window_ok w n as"
  shows "length (filter (\<lambda>t. x - w < t \<and> t \<le> x) as) \<le> n"
  using assms
proof (induction as rule: rev_induct)
  case Nil
  then show ?case by simp
next
  case (snoc a as)
  show ?case
  proof (cases "x - w < a \<and> a \<le> x")
    case True
    have "length (filter (\<lambda>t. x - w < t \<and> t \<le> x) (as @ [a]))
            \<le> length (filter (\<lambda>t. a - t < w) (as @ [a]))"
      unfolding length_filter_conv_card
      by (rule card_mono) (use True in \<open>auto\<close>)
    with snoc.prems show ?thesis by (simp add: window_ok_snoc)
  next
    case False
    with snoc show ?thesis by (auto simp: window_ok_snoc)
  qed
qed

text \<open>
  The bucket of a key holds the admissions still inside the window at the key's last
  call, so the count the limiter reads is the true one.
\<close>

definition bucket_of :: "buckets \<Rightarrow> string \<Rightarrow> number list" where
  "bucket_of b k = (case b k of None \<Rightarrow> [] | Some h \<Rightarrow> h)"

definition bucket_inv :: "string \<Rightarrow> number \<Rightarrow> number list \<Rightarrow> number \<Rightarrow> buckets \<Rightarrow> bool" where
  "bucket_inv k w as prev b \<longleftrightarrow> bucket_of b k = filter (\<lambda>t. prev - t < w) as"

lemma allow_other_key: "k \<noteq> key \<Longrightarrow> bucket_of (snd (allow key l w now b)) k = bucket_of b k"
  by (simp add: allow_def bucket_of_def Let_def)

lemma allow_step:
  assumes inv: "bucket_inv k w as prev b" and le: "prev \<le> now" and ok: "window_ok w n as"
    and w: "0 < w"
  defines "r \<equiv> allow k n w now b"
  defines "as' \<equiv> (if fst r then as @ [now] else as)"
  shows "bucket_inv k w as' now (snd r)" and "window_ok w n as'"
proof -
  have hits: "filter (\<lambda>t. now - t < w) (bucket_of b k) = filter (\<lambda>t. now - t < w) as"
  proof -
    have "prev - t < w \<and> now - t < w \<longleftrightarrow> now - t < w" for t using le by linarith
    then show ?thesis using inv by (simp add: bucket_inv_def)
  qed
  then have fold: "r = (if length (filter (\<lambda>t. now - t < w) as) \<ge> n
                        then (False, b(k \<mapsto> filter (\<lambda>t. now - t < w) as))
                        else (True, b(k \<mapsto> filter (\<lambda>t. now - t < w) as @ [now])))"
    unfolding r_def by (simp add: allow_def bucket_of_def Let_def)
  show "bucket_inv k w as' now (snd r)"
    unfolding as'_def using w by (auto simp: fold bucket_inv_def bucket_of_def)
  show "window_ok w n as'"
    unfolding as'_def using ok w by (auto simp: fold window_ok_snoc)
qed

lemma admitted_window_ok:
  assumes "bucket_inv k w as prev b" and "window_ok w n as" and "0 < w"
    and "sorted_wrt (\<le>) (prev # map (\<lambda>(_, _, _, t). t) cs)"
    and "\<And>c l v t. (c, l, v, t) \<in> set cs \<Longrightarrow> c = k \<Longrightarrow> l = n \<and> v = w"
  shows "window_ok w n (as @ admitted k cs b)"
  using assms
proof (induction cs arbitrary: as prev b)
  case Nil
  then show ?case by simp
next
  case (Cons call cs)
  obtain key l v now where c: "call = (key, l, v, now)" by (cases call) auto
  show ?case
  proof (cases "key = k")
    case True
    with Cons.prems(5) c have lv: "l = n" "v = w" by auto
    define r where "r = allow k n w now b"
    have le: "prev \<le> now" using Cons.prems(4) c by simp
    note st = allow_step [OF Cons.prems(1) le Cons.prems(2,3)]
    have "window_ok w n ((if fst r then as @ [now] else as) @ admitted k cs (snd r))"
      using Cons.prems st by (intro Cons.IH) (auto simp: c r_def)
    moreover have "as @ admitted k (call # cs) b
        = (if fst r then as @ [now] else as) @ admitted k cs (snd r)"
      using True by (simp add: c lv r_def split: prod.split)
    ultimately show ?thesis by simp
  next
    case False
    let ?b = "snd (allow key l v now b)"
    have "bucket_inv k w as prev ?b"
      using Cons.prems(1) False by (simp add: bucket_inv_def allow_other_key)
    then have "window_ok w n (as @ admitted k cs ?b)"
      using Cons.prems by (intro Cons.IH) (auto simp: c)
    with False show ?thesis by (cases "allow key l v now b") (simp add: c)
  qed
qed

end
