(* ===== verification/CfStore.thy ===== *)
theory CfStore
  imports Store
begin

text \<open>
  The production store, \<^verbatim>\<open>workers/pairfob-origin/src/room/cf-store.ts\<close>, over the tables of
  \<^verbatim>\<open>room/schema.ts\<close>. A table is the list of its rows; \<^verbatim>\<open>DELETE\<close> filters, \<^verbatim>\<open>UPDATE\<close> maps,
  \<^verbatim>\<open>INSERT\<close> appends and raises on a duplicate primary key, and an \<^verbatim>\<open>INTEGER PRIMARY KEY\<close>
  left out of an insert is one more than the largest key in the table, as SQLite
  documents. The store is shown to keep the same contract as \<^verbatim>\<open>MemoryStore\<close>
  (tickets, alarms, attempt ledger), with one difference that the last section makes
  precise: alarm row ids are reused.
\<close>

section \<open>Tables and statements\<close>

record cf_store =
  c_alarm :: "number option"
  c_schemed :: bool
  c_meta :: "meta_row list"
  c_pair_slot :: "pair_slot list"
  c_pair_tickets :: "ticket_row list"
  c_alarms :: "alarm_row list"
  c_binds :: "bind_row list"
  c_gate_attempts :: "(number \<times> bool) list"

definition first_row :: "'a list \<Rightarrow> 'a option" where
  "first_row rows = (case rows of [] \<Rightarrow> None | r # _ \<Rightarrow> Some r)"

definition cf_getAlarm :: "cf_store \<Rightarrow> number option" where
  "cf_getAlarm st = c_alarm st"

definition cf_setAlarm :: "number \<Rightarrow> cf_store \<Rightarrow> cf_store" where
  "cf_setAlarm tm st = st\<lparr>c_alarm := Some tm\<rparr>"

definition cf_deleteAlarm :: "cf_store \<Rightarrow> cf_store" where
  "cf_deleteAlarm st = st\<lparr>c_alarm := None\<rparr>"

definition cf_setAlarmIfChanged :: "number option \<Rightarrow> cf_store \<Rightarrow> cf_store" where
  "cf_setAlarmIfChanged nextAt st =
     (let cur = cf_getAlarm st in
      case nextAt of
        None \<Rightarrow> (if cur \<noteq> None then cf_deleteAlarm st else st)
      | Some tm \<Rightarrow> (if cur \<noteq> Some tm then cf_setAlarm tm st else st))"

text \<open>
  The DDL only creates what does not exist yet, and the tables of the model always exist:
  what remains of \<^verbatim>\<open>ensureSchema\<close> is the flag that keeps it from running twice. Every
  statement that writes runs it first; for the queries, whose result cannot depend on the
  flag, only the result is modelled.
\<close>

definition cf_ensureSchema :: "cf_store \<Rightarrow> cf_store" where
  "cf_ensureSchema st = (if c_schemed st then st else st\<lparr>c_schemed := True\<rparr>)"

definition cf_loadMeta :: "cf_store \<Rightarrow> meta_row option" where
  "cf_loadMeta st = first_row (c_meta st)"

definition cf_putMeta :: "meta_row \<Rightarrow> cf_store \<Rightarrow> cf_store" where
  "cf_putMeta row st = (cf_ensureSchema st)\<lparr>c_meta := [row]\<rparr>"

definition cf_deleteMeta :: "cf_store \<Rightarrow> cf_store" where
  "cf_deleteMeta st = (cf_ensureSchema st)\<lparr>c_meta := []\<rparr>"

definition cf_setReconnectHash :: "string \<Rightarrow> cf_store \<Rightarrow> cf_store" where
  "cf_setReconnectHash hash st = (cf_ensureSchema st)\<lparr>c_meta := map (\<lambda>m. m\<lparr>m_reconnect_hash := hash\<rparr>) (c_meta st)\<rparr>"

definition cf_clearReconnectHash :: "cf_store \<Rightarrow> cf_store" where
  "cf_clearReconnectHash st = (cf_ensureSchema st)\<lparr>c_meta := map (\<lambda>m. m\<lparr>m_reconnect_hash := []\<rparr>) (c_meta st)\<rparr>"

definition cf_loadSlot :: "cf_store \<Rightarrow> pair_slot option" where
  "cf_loadSlot st = first_row (c_pair_slot st)"

definition cf_putSlot :: "pair_slot \<Rightarrow> cf_store \<Rightarrow> cf_store" where
  "cf_putSlot slot st = (cf_ensureSchema st)\<lparr>c_pair_slot := [slot]\<rparr>"

definition cf_deleteSlot :: "cf_store \<Rightarrow> cf_store" where
  "cf_deleteSlot st = (cf_ensureSchema st)\<lparr>c_pair_slot := []\<rparr>"

definition cf_insertTicket :: "ticket_row \<Rightarrow> cf_store \<Rightarrow> exn + cf_store" where
  "cf_insertTicket row st =
     (if t_ticket row \<in> t_ticket ` set (c_pair_tickets st)
      then Inl (Error ''UNIQUE constraint failed: pair_tickets.ticket'')
      else Inr ((cf_ensureSchema st)\<lparr>c_pair_tickets := c_pair_tickets st @ [row]\<rparr>))"

definition cf_consumeTicket :: "string \<Rightarrow> number \<Rightarrow> cf_store \<Rightarrow> ticket_row option \<times> cf_store" where
  "cf_consumeTicket ticket now st =
     (let live = (\<lambda>r. t_ticket r = ticket \<and> t_deadline r > now) in
      case first_row (filter live (c_pair_tickets st)) of
        None \<Rightarrow> (None, cf_ensureSchema st)
      | Some row \<Rightarrow>
          let rowsWritten = length (filter live (c_pair_tickets st));
              st' = (cf_ensureSchema st)\<lparr>c_pair_tickets := filter (\<lambda>r. \<not> live r) (c_pair_tickets st)\<rparr>
          in if rowsWritten \<noteq> 1 then (None, st') else (Some row, st'))"

definition cf_expireTickets :: "number \<Rightarrow> cf_store \<Rightarrow> cf_store" where
  "cf_expireTickets now st =
     (cf_ensureSchema st)\<lparr>c_pair_tickets := filter (\<lambda>r. \<not> t_deadline r \<le> now) (c_pair_tickets st)\<rparr>"

definition cf_listAlarms :: "cf_store \<Rightarrow> alarm_row list" where
  "cf_listAlarms st = c_alarms st"

definition next_rowid :: "alarm_row list \<Rightarrow> nat" where
  "next_rowid rows = (case rows of [] \<Rightarrow> 1 | _ \<Rightarrow> Suc (foldl max 0 (map al_id rows)))"

definition cf_deleteAlarmsByKindRef :: "alarm_kind \<Rightarrow> string \<Rightarrow> cf_store \<Rightarrow> cf_store" where
  "cf_deleteAlarmsByKindRef kind ref st =
     (cf_ensureSchema st)\<lparr>c_alarms := filter (\<lambda>a. \<not> (al_kind a = kind \<and> al_ref a = ref)) (c_alarms st)\<rparr>"

definition cf_upsertAlarm :: "alarm_kind \<Rightarrow> string \<Rightarrow> number \<Rightarrow> cf_store \<Rightarrow> cf_store" where
  "cf_upsertAlarm kind ref tm st =
     (let rest = c_alarms (cf_deleteAlarmsByKindRef kind ref st)
      in (cf_ensureSchema st)\<lparr>c_alarms := rest @ [\<lparr> al_id = next_rowid rest, al_at = tm, al_kind = kind, al_ref = ref \<rparr>]\<rparr>)"

fun cf_deleteAlarmIds :: "nat list \<Rightarrow> cf_store \<Rightarrow> cf_store" where
  "cf_deleteAlarmIds [] st = st"
| "cf_deleteAlarmIds (i # ids) st =
     cf_deleteAlarmIds ids ((cf_ensureSchema st)\<lparr>c_alarms := filter (\<lambda>a. al_id a \<noteq> i) (c_alarms st)\<rparr>)"

definition cf_minAlarmAt :: "cf_store \<Rightarrow> number option" where
  "cf_minAlarmAt st = min_list_opt (map al_at (c_alarms st))"

definition cf_dueAlarms :: "number \<Rightarrow> cf_store \<Rightarrow> alarm_row list" where
  "cf_dueAlarms now st = filter (\<lambda>a. al_at a \<le> now) (c_alarms st)"

definition cf_upsertBind :: "bind_row \<Rightarrow> cf_store \<Rightarrow> cf_store" where
  "cf_upsertBind row st =
     (if b_route_id row \<in> b_route_id ` set (c_binds st)
      then (cf_ensureSchema st)\<lparr>c_binds := map (\<lambda>r. if b_route_id r = b_route_id row then row else r) (c_binds st)\<rparr>
      else (cf_ensureSchema st)\<lparr>c_binds := c_binds st @ [row]\<rparr>)"

definition cf_deleteBind :: "string \<Rightarrow> cf_store \<Rightarrow> cf_store" where
  "cf_deleteBind routeId st = (cf_ensureSchema st)\<lparr>c_binds := filter (\<lambda>r. b_route_id r \<noteq> routeId) (c_binds st)\<rparr>"

definition cf_listBinds :: "cf_store \<Rightarrow> bind_row list" where
  "cf_listBinds st = c_binds st"

fun cf_delete_dead :: "string list \<Rightarrow> bind_row list \<Rightarrow> cf_store \<Rightarrow> cf_store" where
  "cf_delete_dead live [] st = st"
| "cf_delete_dead live (r # rs) st =
     cf_delete_dead live rs (if b_route_id r \<notin> set live then cf_deleteBind (b_route_id r) st else st)"

definition cf_deleteGhostBinds :: "string list \<Rightarrow> cf_store \<Rightarrow> cf_store" where
  "cf_deleteGhostBinds live st = cf_delete_dead live (cf_listBinds st) st"

definition cf_recordGateAttempt :: "number \<Rightarrow> bool \<Rightarrow> cf_store \<Rightarrow> cf_store" where
  "cf_recordGateAttempt tm ok st = (cf_ensureSchema st)\<lparr>c_gate_attempts := c_gate_attempts st @ [(tm, ok)]\<rparr>"

text \<open>\<^verbatim>\<open>COUNT(*)\<close> and \<^verbatim>\<open>MAX(at)\<close> over the failures; an empty \<^verbatim>\<open>MAX\<close> is null, read as 0.\<close>

definition cf_gateFailuresSince :: "number \<Rightarrow> cf_store \<Rightarrow> nat \<times> number" where
  "cf_gateFailuresSince since st =
     (let hits = map fst (filter (\<lambda>(tm, ok). since \<le> tm \<and> \<not> ok) (c_gate_attempts st))
      in (length hits, case hits of [] \<Rightarrow> 0 | h # hs \<Rightarrow> foldl max h hs))"

definition cf_pruneGateAttempts :: "number \<Rightarrow> cf_store \<Rightarrow> cf_store" where
  "cf_pruneGateAttempts before st =
     (cf_ensureSchema st)\<lparr>c_gate_attempts := filter (\<lambda>(tm, _). \<not> tm < before) (c_gate_attempts st)\<rparr>"

definition cf_gate_port :: "cf_store gate_port" where
  "cf_gate_port =
     \<lparr> recordGateAttempt = cf_recordGateAttempt, gateFailuresSince = cf_gateFailuresSince,
       pruneGateAttempts = cf_pruneGateAttempts \<rparr>"

section \<open>The contract\<close>

definition cf_tickets :: "cf_store \<Rightarrow> string \<rightharpoonup> ticket_row" where
  "cf_tickets st = map_of (map (\<lambda>r. (t_ticket r, r)) (c_pair_tickets st))"

definition cf_rows :: "cf_store \<Rightarrow> alarm_kind \<times> string \<rightharpoonup> number" where
  "cf_rows st = map_of (map (\<lambda>a. ((al_kind a, al_ref a), al_at a)) (c_alarms st))"

definition cf_invar :: "cf_store \<Rightarrow> bool" where
  "cf_invar st \<longleftrightarrow>
     distinct (map t_ticket (c_pair_tickets st)) \<and>
     distinct (map (\<lambda>a. (al_kind a, al_ref a)) (c_alarms st)) \<and>
     distinct (map b_route_id (c_binds st)) \<and>
     (\<forall>(tm, _) \<in> set (c_gate_attempts st). 0 \<le> tm)"

lemma cf_ensureSchema_fields [simp]:
  "c_alarm (cf_ensureSchema st) = c_alarm st"
  "c_meta (cf_ensureSchema st) = c_meta st"
  "c_pair_slot (cf_ensureSchema st) = c_pair_slot st"
  "c_pair_tickets (cf_ensureSchema st) = c_pair_tickets st"
  "c_alarms (cf_ensureSchema st) = c_alarms st"
  "c_binds (cf_ensureSchema st) = c_binds st"
  "c_gate_attempts (cf_ensureSchema st) = c_gate_attempts st"
  by (simp_all add: cf_ensureSchema_def)

lemma cf_setAlarmIfChanged_eq: "cf_setAlarmIfChanged n st = st\<lparr>c_alarm := n\<rparr>"
  by (cases n) (simp_all add: cf_setAlarmIfChanged_def cf_getAlarm_def cf_deleteAlarm_def cf_setAlarm_def)

lemma cf_rows_drop: "cf_rows (cf_deleteAlarmsByKindRef k r st) = (cf_rows st)((k, r) := None)"
proof -
  have "(\<lambda>a. \<not> (al_kind a = k \<and> al_ref a = r)) = (\<lambda>a. fst ((al_kind a, al_ref a), al_at a) \<noteq> (k, r))"
    by auto
  then show ?thesis
    using map_of_filter_key [of "\<lambda>a. ((al_kind a, al_ref a), al_at a)" "(k, r)" "c_alarms st"]
    by (simp add: cf_rows_def cf_deleteAlarmsByKindRef_def)
qed

lemma cf_rows_upsert: "cf_rows (cf_upsertAlarm k r tm st) = (cf_rows st)((k, r) \<mapsto> tm)"
proof -
  let ?g = "\<lambda>a. ((al_kind a, al_ref a), al_at a)"
  let ?fs = "c_alarms (cf_deleteAlarmsByKindRef k r st)"
  have fs: "map_of (map ?g ?fs) = (cf_rows st)((k, r) := None)"
    using cf_rows_drop [of k r st] by (simp add: cf_rows_def)
  have "cf_rows (cf_upsertAlarm k r tm st) = map_of (map ?g ?fs @ [((k, r), tm)])"
    by (simp add: cf_rows_def cf_upsertAlarm_def Let_def)
  also have "\<dots> = (map_of (map ?g ?fs))((k, r) \<mapsto> tm)"
    by (rule map_of_append_fresh) (simp only: fs fun_upd_same)
  finally show ?thesis by (simp only: fs fun_upd_upd)
qed

lemma cf_ran_rows:
  assumes "cf_invar st"
  shows "ran (cf_rows st) = al_at ` set (c_alarms st)"
proof -
  have "distinct (map fst (map (\<lambda>a. ((al_kind a, al_ref a), al_at a)) (c_alarms st)))"
    using assms by (simp add: cf_invar_def comp_def)
  then show ?thesis
    unfolding cf_rows_def by (simp add: ran_distinct image_image)
qed

text \<open>A ticket is a primary key: at most one row matches, so the delete reports one row.\<close>

lemma live_ticket_rows:
  assumes "distinct (map t_ticket rows)"
  shows "filter (\<lambda>r. t_ticket r = t \<and> t_deadline r > now) rows
       = (case map_of (map (\<lambda>r. (t_ticket r, r)) rows) t of
            None \<Rightarrow> [] | Some row \<Rightarrow> if t_deadline row > now then [row] else [])"
  using assms
proof (induction rows)
  case (Cons a rows)
  then have IH: "filter (\<lambda>r. t_ticket r = t \<and> t_deadline r > now) rows
      = (case map_of (map (\<lambda>r. (t_ticket r, r)) rows) t of
           None \<Rightarrow> [] | Some row \<Rightarrow> if t_deadline row > now then [row] else [])" by simp
  show ?case
  proof (cases "t_ticket a = t")
    case True
    then have "filter (\<lambda>r. t_ticket r = t \<and> t_deadline r > now) rows = []"
      using Cons.prems by (metis (mono_tags, lifting) distinct.simps(2) filter_False image_eqI list.set_map list.simps(9))
    with True show ?thesis by simp
  next
    case False
    with IH show ?thesis by simp
  qed
qed simp

lemma cf_consumeTicket_eq:
  assumes "cf_invar st"
  shows "cf_consumeTicket t now st =
     (case cf_tickets st t of
        None \<Rightarrow> (None, cf_ensureSchema st)
      | Some row \<Rightarrow>
          if t_deadline row \<le> now then (None, cf_ensureSchema st)
          else (Some row, (cf_ensureSchema st)
                            \<lparr>c_pair_tickets := filter (\<lambda>r. t_ticket r \<noteq> t) (c_pair_tickets st)\<rparr>))"
proof -
  have d: "distinct (map t_ticket (c_pair_tickets st))" using assms by (simp add: cf_invar_def)
  note rows = live_ticket_rows [OF d, of t now]
  have sole: "(t_ticket r = t \<and> t_deadline r > now) = (t_ticket r = t)"
    if "cf_tickets st t = Some row" "t_deadline row > now" "r \<in> set (c_pair_tickets st)" for row r
  proof -
    have "cf_tickets st (t_ticket r) = Some r"
      unfolding cf_tickets_def using that(3) d by (intro map_of_is_SomeI) (auto simp: comp_def)
    with that show ?thesis by auto
  qed
  show ?thesis
  proof (cases "cf_tickets st t")
    case None
    then show ?thesis
      using rows by (simp add: cf_consumeTicket_def cf_tickets_def first_row_def)
  next
    case (Some row)
    then show ?thesis
      using rows sole [OF Some]
      by (auto simp: cf_consumeTicket_def cf_tickets_def first_row_def Let_def not_le
          intro!: arg_cong [where f = "\<lambda>x. (cf_ensureSchema st)\<lparr>c_pair_tickets := x\<rparr>"] filter_cong)
  qed
qed

lemma cf_tickets_filter_key:
  "cf_tickets ((cf_ensureSchema st)\<lparr>c_pair_tickets := filter (\<lambda>r. t_ticket r \<noteq> t) (c_pair_tickets st)\<rparr>)
     = (cf_tickets st)(t := None)"
  using map_of_filter_key [of "\<lambda>r. (t_ticket r, r)" t "c_pair_tickets st"] by (simp add: cf_tickets_def)

lemma cf_tickets_filter_val:
  assumes "distinct (map t_ticket rows)"
  shows "map_of (map (\<lambda>r. (t_ticket r, r)) (filter P rows)) t =
     (case map_of (map (\<lambda>r. (t_ticket r, r)) rows) t of None \<Rightarrow> None | Some v \<Rightarrow> if P v then Some v else None)"
  using assms by (induction rows) (auto simp: map_of_eq_None_iff split: option.splits)

interpretation cf_gate: gate_store cf_gate_port c_gate_attempts
proof unfold_locales
  fix since and st :: cf_store
  assume ck: "clock_ok (c_gate_attempts st)"
  let ?hits = "failures_since since (c_gate_attempts st)"
  have "(case ?hits of [] \<Rightarrow> 0 | h # hs \<Rightarrow> foldl max h hs) = foldl max 0 ?hits"
  proof (cases ?hits)
    case (Cons h hs)
    then have "h \<in> set ?hits" by simp
    then have "h \<in> fst ` set (c_gate_attempts st)" by (force simp: failures_since_def)
    then have "0 \<le> h" using ck by (auto simp: clock_ok_def)
    with Cons show ?thesis by (simp add: max_absorb2)
  qed simp
  then show "gateFailuresSince cf_gate_port since st = (length ?hits, foldl max 0 ?hits)"
    by (simp add: cf_gate_port_def cf_gateFailuresSince_def failures_since_def Let_def)
qed (simp_all add: cf_gate_port_def cf_recordGateAttempt_def cf_pruneGateAttempts_def not_less)

interpretation cf_store: room_store cf_tickets cf_insertTicket cf_consumeTicket cf_expireTickets
  cf_rows c_alarm cf_upsertAlarm cf_deleteAlarmsByKindRef cf_minAlarmAt cf_setAlarmIfChanged cf_invar
proof (unfold_locales, goal_cases)
  case (1 st row)
  then have "t_ticket row \<notin> t_ticket ` set (c_pair_tickets st)"
    by (auto simp: cf_tickets_def map_of_eq_None_iff image_image)
  with 1 show ?case
    using map_of_append_fresh [of "map (\<lambda>r. (t_ticket r, r)) (c_pair_tickets st)" "t_ticket row" row]
    by (auto simp: cf_insertTicket_def cf_tickets_def cf_invar_def)
next
  case (2 st t row now)
  then show ?case by (simp add: cf_consumeTicket_eq cf_tickets_filter_key)
next
  case (3 st t now)
  then show ?case
    by (cases "cf_tickets st t") (simp_all add: cf_consumeTicket_eq cf_tickets_def)
next
  case (4 st now t)
  then show ?case
    by (simp add: cf_expireTickets_def cf_tickets_def cf_invar_def cf_tickets_filter_val
        split: option.splits)
next
  case (5 st t now)
  then show ?case
    by (auto simp: cf_consumeTicket_eq cf_invar_def distinct_map_filter split: option.splits)
next
  case (6 st now)
  then show ?case by (auto simp: cf_expireTickets_def cf_invar_def distinct_map_filter)
next
  case (7 st k r tm)
  show ?case by (rule cf_rows_upsert)
next
  case (8 st k r)
  show ?case by (rule cf_rows_drop)
next
  case (13 st)
  then show ?case by (cases "c_alarms st") (auto simp: cf_minAlarmAt_def cf_rows_def)
next
  case (14 st m)
  then show ?case
    using min_list_opt_Some [of "map al_at (c_alarms st)" m] by (auto simp: cf_minAlarmAt_def cf_ran_rows)
next
  case (15 st k r tm)
  then show ?case
    by (auto simp: cf_invar_def cf_upsertAlarm_def cf_deleteAlarmsByKindRef_def Let_def distinct_map_filter)
next
  case (16 st k r)
  then show ?case by (simp add: cf_invar_def cf_deleteAlarmsByKindRef_def distinct_map_filter)
next
  case (20 t now st)
  then show ?case
    by (auto simp: cf_consumeTicket_def cf_rows_def Let_def split: option.splits)
next
  case (21 t now st)
  then show ?case
    by (auto simp: cf_consumeTicket_def Let_def split: option.splits)
qed (auto simp: cf_setAlarmIfChanged_eq cf_rows_def cf_upsertAlarm_def cf_deleteAlarmsByKindRef_def cf_invar_def
    cf_expireTickets_def Let_def)

section \<open>CfStore behaves as MemoryStore\<close>

text \<open>
  Every method of the interface \<^verbatim>\<open>RoomStore\<close> and of its gate ledger as a command with its answer. Two
  stores are related when they hold the same rows; the ids of the alarm rows, which the two
  implementations choose differently, are left out of the comparison. A caller learns an id only by
  reading the table, so a deletion by ids names the rows by their position in the table it read:
  \<open>ODeleteAlarmIds ps\<close> deletes with the ids that the rows at \<open>ps\<close> have now. Ids remembered from an older
  table are the subject of the last section.
\<close>

datatype store_op =
    OSetAlarmIfChanged "number option" | OGetAlarm | OSetAlarm number | ODeleteAlarm | OEnsureSchema
  | OLoadMeta | OPutMeta meta_row | ODeleteMeta | OSetReconnectHash string | OClearReconnectHash
  | OLoadSlot | OPutSlot pair_slot | ODeleteSlot
  | OInsertTicket ticket_row | OConsumeTicket string number | OExpireTickets number
  | OUpsertAlarm alarm_kind string number | ODeleteAlarmsByKindRef alarm_kind string
  | OMinAlarmAt | ODueAlarms number | OListAlarms | ODeleteAlarmIds "nat list"
  | OUpsertBind bind_row | ODeleteBind string | OListBinds | ODeleteGhostBinds "string list"
  | ORecordGateAttempt number bool | OGateFailuresSince number | OPruneGateAttempts number

datatype store_answer =
    ADone | ATime "number option" | AMeta "meta_row option" | ASlot "pair_slot option"
  | ATicket "ticket_row option" | ARows "(alarm_kind \<times> string \<times> number) list"
  | ABinds "bind_row list" | AFailures "nat \<times> number"

definition alarm_view :: "alarm_row \<Rightarrow> alarm_kind \<times> string \<times> number" where
  "alarm_view a = (al_kind a, al_ref a, al_at a)"

definition ids_at :: "nat list \<Rightarrow> alarm_row list \<Rightarrow> nat list" where
  "ids_at ps rows = map (\<lambda>i. al_id (rows ! i)) (filter (\<lambda>i. i < length rows) ps)"

fun mem_exec :: "store_op \<Rightarrow> mem_store \<Rightarrow> store_answer \<times> mem_store" where
  "mem_exec (OSetAlarmIfChanged n) st = (ADone, setAlarmIfChanged n st)"
| "mem_exec OGetAlarm st = (ATime (getAlarm st), st)"
| "mem_exec (OSetAlarm tm) st = (ADone, setAlarm tm st)"
| "mem_exec ODeleteAlarm st = (ADone, deleteAlarm st)"
| "mem_exec OEnsureSchema st = (ADone, ensureSchema st)"
| "mem_exec OLoadMeta st = (AMeta (loadMeta st), st)"
| "mem_exec (OPutMeta row) st = (ADone, putMeta row st)"
| "mem_exec ODeleteMeta st = (ADone, deleteMeta st)"
| "mem_exec (OSetReconnectHash h) st = (ADone, setReconnectHash h st)"
| "mem_exec OClearReconnectHash st = (ADone, clearReconnectHash st)"
| "mem_exec OLoadSlot st = (ASlot (loadSlot st), st)"
| "mem_exec (OPutSlot slot) st = (ADone, putSlot slot st)"
| "mem_exec ODeleteSlot st = (ADone, deleteSlot st)"
| "mem_exec (OInsertTicket row) st = (ADone, insertTicket row st)"
| "mem_exec (OConsumeTicket t now) st = (case consumeTicket t now st of (r, st') \<Rightarrow> (ATicket r, st'))"
| "mem_exec (OExpireTickets now) st = (ADone, expireTickets now st)"
| "mem_exec (OUpsertAlarm k r tm) st = (ADone, upsertAlarm k r tm st)"
| "mem_exec (ODeleteAlarmsByKindRef k r) st = (ADone, deleteAlarmsByKindRef k r st)"
| "mem_exec OMinAlarmAt st = (ATime (minAlarmAt st), st)"
| "mem_exec (ODueAlarms now) st = (ARows (map alarm_view (dueAlarms now st)), st)"
| "mem_exec OListAlarms st = (ARows (map alarm_view (listAlarms st)), st)"
| "mem_exec (ODeleteAlarmIds ps) st = (ADone, deleteAlarmIds (ids_at ps (listAlarms st)) st)"
| "mem_exec (OUpsertBind row) st = (ADone, upsertBind row st)"
| "mem_exec (ODeleteBind r) st = (ADone, store_deleteBind r st)"
| "mem_exec OListBinds st = (ABinds (listBinds st), st)"
| "mem_exec (ODeleteGhostBinds live) st = (ADone, deleteGhostBinds live st)"
| "mem_exec (ORecordGateAttempt tm ok) st = (ADone, mem_recordGateAttempt tm ok st)"
| "mem_exec (OGateFailuresSince since) st = (AFailures (mem_gateFailuresSince since st), st)"
| "mem_exec (OPruneGateAttempts before) st = (ADone, mem_pruneGateAttempts before st)"

fun cf_exec :: "store_op \<Rightarrow> cf_store \<Rightarrow> exn + store_answer \<times> cf_store" where
  "cf_exec (OSetAlarmIfChanged n) st = Inr (ADone, cf_setAlarmIfChanged n st)"
| "cf_exec OGetAlarm st = Inr (ATime (cf_getAlarm st), st)"
| "cf_exec (OSetAlarm tm) st = Inr (ADone, cf_setAlarm tm st)"
| "cf_exec ODeleteAlarm st = Inr (ADone, cf_deleteAlarm st)"
| "cf_exec OEnsureSchema st = Inr (ADone, cf_ensureSchema st)"
| "cf_exec OLoadMeta st = Inr (AMeta (cf_loadMeta st), st)"
| "cf_exec (OPutMeta row) st = Inr (ADone, cf_putMeta row st)"
| "cf_exec ODeleteMeta st = Inr (ADone, cf_deleteMeta st)"
| "cf_exec (OSetReconnectHash h) st = Inr (ADone, cf_setReconnectHash h st)"
| "cf_exec OClearReconnectHash st = Inr (ADone, cf_clearReconnectHash st)"
| "cf_exec OLoadSlot st = Inr (ASlot (cf_loadSlot st), st)"
| "cf_exec (OPutSlot slot) st = Inr (ADone, cf_putSlot slot st)"
| "cf_exec ODeleteSlot st = Inr (ADone, cf_deleteSlot st)"
| "cf_exec (OInsertTicket row) st =
     (case cf_insertTicket row st of Inl e \<Rightarrow> Inl e | Inr st' \<Rightarrow> Inr (ADone, st'))"
| "cf_exec (OConsumeTicket t now) st =
     (case cf_consumeTicket t now st of (r, st') \<Rightarrow> Inr (ATicket r, st'))"
| "cf_exec (OExpireTickets now) st = Inr (ADone, cf_expireTickets now st)"
| "cf_exec (OUpsertAlarm k r tm) st = Inr (ADone, cf_upsertAlarm k r tm st)"
| "cf_exec (ODeleteAlarmsByKindRef k r) st = Inr (ADone, cf_deleteAlarmsByKindRef k r st)"
| "cf_exec OMinAlarmAt st = Inr (ATime (cf_minAlarmAt st), st)"
| "cf_exec (ODueAlarms now) st = Inr (ARows (map alarm_view (cf_dueAlarms now st)), st)"
| "cf_exec OListAlarms st = Inr (ARows (map alarm_view (cf_listAlarms st)), st)"
| "cf_exec (ODeleteAlarmIds ps) st = Inr (ADone, cf_deleteAlarmIds (ids_at ps (cf_listAlarms st)) st)"
| "cf_exec (OUpsertBind row) st = Inr (ADone, cf_upsertBind row st)"
| "cf_exec (ODeleteBind r) st = Inr (ADone, cf_deleteBind r st)"
| "cf_exec OListBinds st = Inr (ABinds (cf_listBinds st), st)"
| "cf_exec (ODeleteGhostBinds live) st = Inr (ADone, cf_deleteGhostBinds live st)"
| "cf_exec (ORecordGateAttempt tm ok) st = Inr (ADone, cf_recordGateAttempt tm ok st)"
| "cf_exec (OGateFailuresSince since) st = Inr (AFailures (cf_gateFailuresSince since st), st)"
| "cf_exec (OPruneGateAttempts before) st = Inr (ADone, cf_pruneGateAttempts before st)"

fun mem_exec_all :: "store_op list \<Rightarrow> mem_store \<Rightarrow> store_answer list \<times> mem_store" where
  "mem_exec_all [] st = ([], st)"
| "mem_exec_all (x # xs) st =
     (case mem_exec x st of (a, st') \<Rightarrow> case mem_exec_all xs st' of (as, st'') \<Rightarrow> (a # as, st''))"

fun cf_exec_all :: "store_op list \<Rightarrow> cf_store \<Rightarrow> exn + store_answer list \<times> cf_store" where
  "cf_exec_all [] st = Inr ([], st)"
| "cf_exec_all (x # xs) st =
     (case cf_exec x st of
        Inl e \<Rightarrow> Inl e
      | Inr (a, st') \<Rightarrow>
          (case cf_exec_all xs st' of Inl e \<Rightarrow> Inl e | Inr (as, st'') \<Rightarrow> Inr (a # as, st'')))"

definition cf_rel :: "cf_store \<Rightarrow> mem_store \<Rightarrow> bool" where
  "cf_rel st m \<longleftrightarrow>
     cf_invar st \<and> length (c_meta st) \<le> 1 \<and> length (c_pair_slot st) \<le> 1 \<and>
     st_alarm m = c_alarm st \<and> st_meta m = first_row (c_meta st) \<and>
     st_slot m = first_row (c_pair_slot st) \<and>
     st_tickets m = map (\<lambda>r. (t_ticket r, r)) (c_pair_tickets st) \<and>
     map alarm_view (st_alarms m) = map alarm_view (c_alarms st) \<and>
     distinct (map al_id (c_alarms st)) \<and> distinct (map al_id (st_alarms m)) \<and>
     (\<forall>a \<in> set (st_alarms m). al_id a < st_nextAlarmId m) \<and>
     st_binds m = map (\<lambda>r. (b_route_id r, r)) (c_binds st) \<and>
     st_gateAttempts m = c_gate_attempts st"

definition new_CfStore :: cf_store where
  "new_CfStore =
     \<lparr> c_alarm = None, c_schemed = False, c_meta = [], c_pair_slot = [], c_pair_tickets = [],
       c_alarms = [], c_binds = [], c_gate_attempts = [] \<rparr>"

text \<open>The room stamps attempts with its clock, which is never negative.\<close>

fun op_clock_ok :: "store_op \<Rightarrow> bool" where
  "op_clock_ok (ORecordGateAttempt tm ok) = (0 \<le> tm)"
| "op_clock_ok _ = True"

lemma map_alarm_view_filter:
  assumes "map alarm_view xs = map alarm_view ys" and "\<And>a b. alarm_view a = alarm_view b \<Longrightarrow> P a = P b"
  shows "map alarm_view (filter P xs) = map alarm_view (filter P ys)"
  using assms(1)
proof (induction xs ys rule: list_induct2')
  case (4 x xs y ys)
  then show ?case using assms(2) [of x y] by simp
qed simp_all

lemma map_alarm_view_at:
  assumes "map alarm_view xs = map alarm_view ys"
  shows "map al_at xs = map al_at ys"
proof -
  have "map (snd \<circ> snd) (map alarm_view xs) = map (snd \<circ> snd) (map alarm_view ys)"
    using assms by simp
  then show ?thesis by (simp add: alarm_view_def comp_def)
qed

definition upsert_rows :: "bind_row \<Rightarrow> bind_row list \<Rightarrow> bind_row list" where
  "upsert_rows row rows =
     (if b_route_id row \<in> b_route_id ` set rows
      then map (\<lambda>r. if b_route_id r = b_route_id row then row else r) rows else rows @ [row])"

lemma cf_upsertBind_eq: "cf_upsertBind row st = (cf_ensureSchema st)\<lparr>c_binds := upsert_rows row (c_binds st)\<rparr>"
  by (simp add: cf_upsertBind_def upsert_rows_def)

lemma upsert_rows_distinct:
  assumes "distinct (map b_route_id rows)"
  shows "distinct (map b_route_id (upsert_rows row rows))"
proof -
  have "map b_route_id (map (\<lambda>r. if b_route_id r = b_route_id row then row else r) rows) = map b_route_id rows"
    by simp
  then show ?thesis using assms by (auto simp only: upsert_rows_def map_append distinct_append split: if_splits) auto
qed

lemma update_as_map:
  assumes "distinct (map b_route_id rows)"
  shows "AList.update (b_route_id row) row (map (\<lambda>r. (b_route_id r, r)) rows)
       = map (\<lambda>r. (b_route_id r, r)) (upsert_rows row rows)"
  using assms unfolding upsert_rows_def
proof (induction rows)
  case (Cons a rows)
  have "map (\<lambda>r. if b_route_id r = b_route_id a then row else r) rows = rows"
    if "b_route_id a = b_route_id row"
    using Cons.prems by (intro map_idI) (auto simp: image_iff)
  then show ?case using Cons by (auto simp: image_iff)
qed simp

lemma cf_delete_dead_binds:
  "c_binds (cf_delete_dead live rs st) =
     filter (\<lambda>r. b_route_id r \<notin> b_route_id ` set rs \<or> b_route_id r \<in> set live) (c_binds st)"
  by (induction live rs st rule: cf_delete_dead.induct)
    (auto simp: cf_deleteBind_def intro!: filter_cong)

lemma cf_delete_dead_other [simp]:
  "c_alarm (cf_delete_dead live rs st) = c_alarm st"
  "c_meta (cf_delete_dead live rs st) = c_meta st"
  "c_pair_slot (cf_delete_dead live rs st) = c_pair_slot st"
  "c_pair_tickets (cf_delete_dead live rs st) = c_pair_tickets st"
  "c_alarms (cf_delete_dead live rs st) = c_alarms st"
  "c_gate_attempts (cf_delete_dead live rs st) = c_gate_attempts st"
  by (induction live rs st rule: cf_delete_dead.induct) (simp_all add: cf_deleteBind_def)

lemma cf_deleteGhostBinds_binds:
  "c_binds (cf_deleteGhostBinds live st) = filter (\<lambda>r. b_route_id r \<in> set live) (c_binds st)"
  by (auto simp: cf_deleteGhostBinds_def cf_delete_dead_binds cf_listBinds_def intro!: filter_cong)

lemma first_row_map: "first_row (map f xs) = map_option f (first_row xs)"
  by (cases xs) (simp_all add: first_row_def)

lemma first_row_simps [simp]: "first_row [] = None" "first_row (x # xs) = Some x"
  by (simp_all add: first_row_def)

lemma alarm_rel_ops:
  assumes "map alarm_view xs = map alarm_view ys"
  shows "map alarm_view (filter (\<lambda>a. \<not> (al_kind a = k \<and> al_ref a = r)) xs)
       = map alarm_view (filter (\<lambda>a. \<not> (al_kind a = k \<and> al_ref a = r)) ys)"
    and "map alarm_view (filter (\<lambda>a. al_at a \<le> now) xs) = map alarm_view (filter (\<lambda>a. al_at a \<le> now) ys)"
  using assms by (auto intro!: map_alarm_view_filter simp: alarm_view_def)

lemma gate_failures_rel:
  "clock_ok (c_gate_attempts st) \<Longrightarrow> st_gateAttempts m = c_gate_attempts st \<Longrightarrow>
     mem_gateFailuresSince since m = cf_gateFailuresSince since st"
  using cf_gate.failures_query [of st since] mem_gate.failures_query [of m since]
  by (simp add: cf_gate_port_def mem_gate_port_def)

lemma delete_as_filter:
  "AList.delete t (map (\<lambda>r. (f r, r)) rows) = map (\<lambda>r. (f r, r)) (filter (\<lambda>r. f r \<noteq> t) rows)"
  by (induction rows) (auto simp: AList.delete_eq)

lemma update_fresh: "k \<notin> fst ` set al \<Longrightarrow> AList.update k v al = al @ [(k, v)]"
  by (induction al) auto

lemma next_rowid_fresh: "next_rowid rows \<notin> al_id ` set rows"
proof -
  have le: "x \<le> foldl max n xs" if "x \<in> set xs \<or> x \<le> n" for x n :: nat and xs
    using that by (induction xs arbitrary: n) (auto simp: le_max_iff_disj)
  have "al_id a \<le> foldl max 0 (map al_id rows)" if "a \<in> set rows" for a
    using that le [of "al_id a" "map al_id rows" 0] by simp
  then show ?thesis by (fastforce simp: next_rowid_def split: list.splits)
qed

lemma cf_deleteAlarmIds_alarms:
  "c_alarms (cf_deleteAlarmIds ids st) = filter (\<lambda>a. al_id a \<notin> set ids) (c_alarms st)"
  "c_alarm (cf_deleteAlarmIds ids st) = c_alarm st" "c_meta (cf_deleteAlarmIds ids st) = c_meta st"
  "c_pair_slot (cf_deleteAlarmIds ids st) = c_pair_slot st" "c_pair_tickets (cf_deleteAlarmIds ids st) = c_pair_tickets st"
  "c_binds (cf_deleteAlarmIds ids st) = c_binds st" "c_gate_attempts (cf_deleteAlarmIds ids st) = c_gate_attempts st"
  by (induction ids st rule: cf_deleteAlarmIds.induct) (auto intro!: filter_cong)

text \<open>Where ids are unique, deleting by the ids of the rows at some positions deletes just those rows.\<close>

lemma filter_ids_at:
  assumes "distinct (map al_id rows)"
  shows "filter (\<lambda>a. al_id a \<notin> set (ids_at ps rows)) rows = nths rows {i. i < length rows \<and> i \<notin> set ps}"
proof -
  have "al_id (rows ! i) \<notin> set (ids_at ps rows) \<longleftrightarrow> i \<notin> set ps" if "i < length rows" for i
    using assms that nth_eq_iff_index_eq [OF assms, of i] by (auto simp: ids_at_def)
  then show ?thesis unfolding filter_eq_nths by (intro arg_cong [where f = "nths rows"]) auto
qed

lemma ids_at_rel:
  assumes "map alarm_view xs = map alarm_view ys" and "distinct (map al_id xs)" and "distinct (map al_id ys)"
  shows "map alarm_view (filter (\<lambda>a. al_id a \<notin> set (ids_at ps xs)) xs) = map alarm_view (filter (\<lambda>a. al_id a \<notin> set (ids_at ps ys)) ys)"
  using assms map_eq_imp_length_eq [OF assms(1)] by (simp add: filter_ids_at nths_map [symmetric])

text \<open>One statement: the in-memory store takes the same step and gives the same answer.\<close>

lemma cf_step_rel:
  assumes rel: "cf_rel st m" and ck: "op_clock_ok x" and step: "cf_exec x st = Inr (a, st')"
  shows "fst (mem_exec x m) = a \<and> cf_rel st' (snd (mem_exec x m))"
proof (cases x)
  case (OConsumeTicket t now)
  then show ?thesis
    using rel step
    by (auto simp: cf_rel_def cf_consumeTicket_eq consumeTicket_def cf_tickets_def delete_as_filter
        cf_invar_def distinct_map_filter split: option.splits if_splits)
next
  case (OInsertTicket row)
  then show ?thesis
    using rel step
    by (auto simp: cf_rel_def cf_insertTicket_def insertTicket_def update_fresh image_image
        cf_invar_def split: if_splits)
next
  case (OUpsertBind row)
  then show ?thesis
    using rel step update_as_map [of "c_binds st" row] upsert_rows_distinct [of "c_binds st" row]
    by (auto simp: cf_rel_def cf_upsertBind_eq upsertBind_def cf_invar_def)
next
  case (OUpsertAlarm k r tm)
  then show ?thesis
    using rel step alarm_rel_ops [of "st_alarms m" "c_alarms st"]
      next_rowid_fresh [of "filter (\<lambda>a. \<not> (al_kind a = k \<and> al_ref a = r)) (c_alarms st)"]
    by (auto simp: cf_rel_def cf_upsertAlarm_def upsertAlarm_def cf_deleteAlarmsByKindRef_def Let_def
        cf_invar_def distinct_map_filter alarm_view_def less_Suc_eq)
next
  case (ODeleteAlarmIds ps)
  then show ?thesis
    using rel step ids_at_rel [of "st_alarms m" "c_alarms st" ps]
    by (auto simp: cf_rel_def cf_deleteAlarmIds_alarms cf_listAlarms_def listAlarms_def deleteAlarmIds_def cf_invar_def distinct_map_filter)
next
  case (OSetReconnectHash h)
  then show ?thesis
    using rel step by (cases "c_meta st") (auto simp: cf_rel_def cf_setReconnectHash_def setReconnectHash_def cf_invar_def)
next
  case OClearReconnectHash
  then show ?thesis
    using rel step by (cases "c_meta st") (auto simp: cf_rel_def cf_clearReconnectHash_def clearReconnectHash_def cf_invar_def)
next
  case (OGateFailuresSince since)
  then show ?thesis
    using rel step gate_failures_rel [of st m since]
    by (auto simp: cf_rel_def cf_invar_def clock_ok_def)
next
  case (ODeleteGhostBinds live)
  then show ?thesis
    using rel step
    by (auto simp: cf_rel_def cf_deleteGhostBinds_binds deleteGhostBinds_def cf_deleteGhostBinds_def
       cf_invar_def distinct_map_filter filter_map comp_def
       cf_deleteGhostBinds_binds [unfolded cf_deleteGhostBinds_def])
next
  case (ODeleteAlarmsByKindRef k r)
  then show ?thesis
    using rel step alarm_rel_ops [of "st_alarms m" "c_alarms st"]
    by (clarsimp simp: cf_rel_def deleteAlarmsByKindRef_def cf_deleteAlarmsByKindRef_def cf_invar_def distinct_map_filter)
next
  case OMinAlarmAt
  then show ?thesis
    using rel step map_alarm_view_at [of "st_alarms m" "c_alarms st"]
    by (clarsimp simp: cf_rel_def minAlarmAt_def cf_minAlarmAt_def)
next
  case (ODueAlarms now)
  then show ?thesis
    using rel step alarm_rel_ops [of "st_alarms m" "c_alarms st"]
    by (clarsimp simp: cf_rel_def dueAlarms_def cf_dueAlarms_def)
next
  case (OPruneGateAttempts before)
  then show ?thesis
    using rel step
    by (auto simp: cf_rel_def mem_pruneGateAttempts_def cf_pruneGateAttempts_def cf_invar_def not_less)
qed ((use rel step ck in
  \<open>clarsimp simp: cf_rel_def setAlarmIfChanged_eq cf_setAlarmIfChanged_eq setAlarm_def cf_setAlarm_def deleteAlarm_def cf_deleteAlarm_def
    ensureSchema_def listAlarms_def cf_listAlarms_def getAlarm_def cf_getAlarm_def loadMeta_def
    cf_loadMeta_def putMeta_def cf_putMeta_def deleteMeta_def cf_deleteMeta_def loadSlot_def cf_loadSlot_def
    putSlot_def cf_putSlot_def deleteSlot_def cf_deleteSlot_def expireTickets_def cf_expireTickets_def
    store_deleteBind_def cf_deleteBind_def listBinds_def cf_listBinds_def
    mem_recordGateAttempt_def cf_recordGateAttempt_def
    cf_invar_def distinct_map_filter filter_map comp_def delete_as_filter\<close>)+)

text \<open>(C22) The production store refines the in-memory one: from related stores, any sequence of calls of the
  store's interface gives the same answers from both, up to the ids of alarm rows, and leaves related
  stores. Alarm rows are deleted by ids read from the table as it is at that moment; times of attempts
  are not negative; and the sequence is one the database accepts, which refuses only the insertion of a
  ticket that is already there.\<close>

theorem cf_simulates_mem:
  assumes "cf_rel st m" and "list_all op_clock_ok xs" and "cf_exec_all xs st = Inr (as, st')"
  shows "fst (mem_exec_all xs m) = as \<and> cf_rel st' (snd (mem_exec_all xs m))"
  using assms
proof (induction xs arbitrary: st m as)
  case (Cons x xs)
  from Cons.prems(3) obtain a st1 as1 where x: "cf_exec x st = Inr (a, st1)"
    and xs: "cf_exec_all xs st1 = Inr (as1, st')" and as: "as = a # as1"
    by (auto split: sum.splits prod.splits)
  have fst: "fst (mem_exec x m) = a" and rel: "cf_rel st1 (snd (mem_exec x m))"
    using cf_step_rel [OF Cons.prems(1) _ x] Cons.prems(2) by simp_all
  from Cons.IH [OF rel _ xs] Cons.prems(2) fst as show ?case
    by (simp add: case_prod_beta)
qed auto

theorem cf_simulates_mem_witness:
  "cf_rel new_CfStore new_MemoryStore \<and>
   fst (mem_exec_all [OUpsertAlarm Hello5s ''r'' 5000, OInsertTicket \<lparr> t_ticket = ''t'', t_pair_ref = ''p'', t_deadline = 9 \<rparr>,
      OConsumeTicket ''t'' 3, OConsumeTicket ''t'' 4, OMinAlarmAt] new_MemoryStore)
     = [ADone, ADone, ATicket (Some \<lparr> t_ticket = ''t'', t_pair_ref = ''p'', t_deadline = 9 \<rparr>), ATicket None,
        ATime (Some 5000)]"
proof -
  have rel: "cf_rel new_CfStore new_MemoryStore"
    by (simp add: cf_rel_def cf_invar_def new_CfStore_def new_MemoryStore_def)
  have ok: "list_all op_clock_ok [OUpsertAlarm Hello5s ''r'' 5000,
      OInsertTicket \<lparr> t_ticket = ''t'', t_pair_ref = ''p'', t_deadline = 9 \<rparr>,
      OConsumeTicket ''t'' 3, OConsumeTicket ''t'' 4, OMinAlarmAt]" by simp
  from cf_simulates_mem [OF rel ok] rel show ?thesis
    by (simp add: new_CfStore_def cf_insertTicket_def cf_consumeTicket_def cf_upsertAlarm_def
        cf_deleteAlarmsByKindRef_def cf_ensureSchema_def cf_minAlarmAt_def Let_def)
qed

section \<open>Alarm ids\<close>

text \<open>\<^verbatim>\<open>harvestDue\<close> remembers the ids of the due rows and deletes them after the handlers ran.
  With \<^verbatim>\<open>MemoryStore\<close> this never removes a row armed in between: an id is used once, so
  the row a handler armed survives the deletion of any ids that were in use before.\<close>

theorem mem_rearmed_alarm_survives:
  assumes "\<forall>a \<in> set (st_alarms st). al_id a < st_nextAlarmId st"
    and "set ids \<subseteq> al_id ` set (st_alarms st)"
  shows "mem_rows (deleteAlarmIds ids (upsertAlarm k r tm st)) (k, r) = Some tm"
proof -
  have fresh: "st_nextAlarmId st \<notin> set ids" using assms by fastforce
  have "mem_rows (deleteAlarmIds ids (upsertAlarm k r tm st)) =
      map_of (map (\<lambda>a. ((al_kind a, al_ref a), al_at a))
         (filter (\<lambda>a. al_id a \<notin> set ids \<and> \<not> (al_kind a = k \<and> al_ref a = r)) (st_alarms st)) @ [((k, r), tm)])"
    using fresh by (simp add: mem_rows_def deleteAlarmIds_def upsertAlarm_def conj_commute)
  then show ?thesis
    by (auto simp: map_of_append map_add_def map_of_eq_None_iff split: option.splits dest: map_of_SomeD)
qed

theorem mem_rearmed_alarm_survives_witness:
  "mem_rows (deleteAlarmIds [1] (upsertAlarm Hello5s ''b'' 9000
     (upsertAlarm Hello5s ''a'' 5000 new_MemoryStore))) (Hello5s, ''b'') = Some 9000"
  by (rule mem_rearmed_alarm_survives) (simp_all add: upsertAlarm_def new_MemoryStore_def)

text \<open>With \<^verbatim>\<open>CfStore\<close> the same sequence can lose the row: SQLite gives a re-armed alarm the
  largest id plus one, which is the id of the row it replaced when that row was the last,
  so deleting the harvested ids deletes the alarm that was just armed.\<close>

theorem cf_rearmed_alarm_can_be_lost:
  "\<exists>st k r tm tm'.
     let before = cf_upsertAlarm k r tm st; ids = map al_id (cf_dueAlarms tm before);
         after = cf_deleteAlarmIds ids (cf_upsertAlarm k r tm' before)
     in cf_invar before \<and> tm < tm' \<and> cf_rows (cf_upsertAlarm k r tm' before) (k, r) = Some tm' \<and>
        cf_rows after (k, r) = None"
  by (intro exI [where x = new_CfStore] exI [where x = PairTtl] exI [where x = "''p''"]
        exI [where x = 1000] exI [where x = 2000])
    (simp add: Let_def new_CfStore_def cf_upsertAlarm_def cf_deleteAlarmsByKindRef_def cf_ensureSchema_def
      next_rowid_def cf_dueAlarms_def cf_rows_def cf_invar_def)

end
