(* ===== verification/CoreProperties.thy ===== *)
theory CoreProperties
  imports RateLimits Envelope CfStore Http PairIndex Attachment
begin

text \<open>
  The properties of the self-contained parts of the relay: the wire codec and its fast path, the
  hex forms, the constant-time comparison, pairing locations, socket attachments, the request
  limiter, the pairing gate over both of its ledgers, and the location index.
\<close>

section \<open>Wire format\<close>

text \<open>(C23) Decoding and encoding are inverse to each other, in both directions: the decoder accepts exactly
  the byte strings the encoder produces. The encoder accepts a frame exactly when its version is 1, its type
  is known, its flags are zero, its route has sixteen bytes and its payload at most 262144.\<close>

theorem envelope_bijection:
  "(decode bs = Inr f \<longleftrightarrow> encode f = Inr bs) \<and>
   ((\<exists>w. encode f = Inr w) \<longleftrightarrow>
      f_version f = 1 \<and> knownType (f_typ f) \<and> f_flags f = 0 \<and> length (f_routeId f) = 16 \<and>
      length (f_payload f) \<le> 262144)"
proof -
  have "(\<exists>w. encode f = Inr w) \<longleftrightarrow> validateFrame f = Inr ()"
    by (auto simp: encode_def split: sum.splits)
  then show ?thesis by (auto simp: decode_Inr_iff validateFrame_ok)
qed

text \<open>(C24) The forwarding fast path, which looks at a few header bytes only, classifies every message as
  the full decoder would: not a forward, a malformed forward, or a forward whose bytes are kept as they are.\<close>

theorem fwd_fast_path_is_decoder:
  "decodeFwdMessage m =
     (case asBytes m of
        None \<Rightarrow> NotFwd
      | Some w \<Rightarrow>
          if 2 \<le> length w \<and> w ! 1 = word_of_nat Typ_FWD
          then (case decode w of Inl _ \<Rightarrow> MalformedFwd | Inr _ \<Rightarrow> FwdWire w)
          else NotFwd)"
  by (auto simp: decodeFwdMessage_reference split: option.splits sum.splits)

text \<open>Bytes survive the trip through hex. A string passes the lower-hex test for n bytes exactly when it
  is the hex form of n bytes, and \<^verbatim>\<open>routeFromHex\<close> gives back a route of sixteen bytes and refuses every
  other length.\<close>

theorem hex_round_trip:
  "hexToBytes (bytesToHex bs) = Inr bs \<and>
   (isLowerHex s n \<longleftrightarrow> (\<exists>b. length b = n \<and> bytesToHex b = s)) \<and>
   routeFromHex (routeHex bs) =
     (if length bs = 16 then Inr bs else Inl (Error ''route_id must be 16 bytes''))"
proof -
  have "isLowerHex s n \<Longrightarrow> \<exists>b. length b = n \<and> bytesToHex b = s"
    by (auto simp: isLowerHex_def split: if_splits sum.splits)
  moreover have "isLowerHex (bytesToHex b) (length b)" for b
    by (simp add: isLowerHex_def)
  ultimately show ?thesis
    by (auto simp: routeFromHex_def routeHex_def)
qed

text \<open>The constant-time comparison decides equality of texts shorter than 4 GiB; the bound is where the
  32-bit difference of the lengths stops being exact.\<close>

theorem timingSafeEqual_correct:
  "length a < 2 ^ 32 \<Longrightarrow> length b < 2 ^ 32 \<Longrightarrow> timingSafeEqual a b \<longleftrightarrow> a = b"
  by (rule timingSafeEqual_iff)

theorem timingSafeEqual_correct_witness:
  "timingSafeEqual ''rt_0a'' ''rt_0a'' \<and> \<not> timingSafeEqual ''rt_0a'' ''rt_0b'' \<and> \<not> timingSafeEqual ''rt'' ''rt_''"
  using timingSafeEqual_correct [of "''rt_0a''" "''rt_0a''"] timingSafeEqual_correct [of "''rt_0a''" "''rt_0b''"]
    timingSafeEqual_correct [of "''rt''" "''rt_''"]
  by simp

section \<open>Route identifiers and pairing locations\<close>

lemma newRouteId_loop_find:
  "newRouteId_loop n (\<lambda>_ k. (Inr (d k), Suc k)) k =
     (case find (\<lambda>i. \<not> isZeroRoute (d i)) [k..<k + n] of
        None \<Rightarrow> (Inl (Error ''relay entropy unavailable''), k + n)
      | Some i \<Rightarrow> (Inr (d i), Suc i))"
proof (induction n arbitrary: k)
  case (Suc n)
  have "[k..<k + Suc n] = k # [Suc k..<Suc k + n]" by (subst upt_conv_Cons) simp_all
  then show ?case
    by (simp only: newRouteId_loop.simps bindM_def prod.case sum.case find.simps)
      (simp add: ret_def Suc.IH del: upt_Suc split: option.splits)
qed (simp add: throw_def)

text \<open>A new route is the first non-zero one among eight draws, and every draw up to it is used; the call
  fails, after exactly eight draws, only when all eight are zero.\<close>

theorem newRouteId_first_nonzero:
  "newRouteId (\<lambda>_ k. (Inr (d k), Suc k)) k =
     (case find (\<lambda>i. \<not> isZeroRoute (d i)) [k..<k + 8] of
        None \<Rightarrow> (Inl (Error ''relay entropy unavailable''), k + 8)
      | Some i \<Rightarrow> (Inr (d i), Suc i))"
  by (simp only: newRouteId_def newRouteId_loop_find)

text \<open>Normalisation of a typed pairing code is onto the codes of six Crockford characters and leaves each
  of them alone; so it is idempotent, and codes minted by the relay are their own normal form.\<close>

theorem normalizeLoc_normal_forms:
  "((\<exists>raw. normalizeLoc raw = Some t) \<longleftrightarrow> normalizeLoc t = Some t) \<and>
   (normalizeLoc t = Some t \<longleftrightarrow> length t = 6 \<and> set t \<subseteq> set CROCKFORD) \<and>
   (case mintLoc random s of (Inl _, _) \<Rightarrow> True | (Inr loc, _) \<Rightarrow> normalizeLoc loc = Some loc)"
proof -
  have "normalizeLoc raw = Some t \<Longrightarrow> normalizeLoc t = Some t" for raw t
    using normalizeLoc_shape normalizeLoc_fixed by blast
  moreover have "case mintLoc random s of (Inl _, _) \<Rightarrow> True | (Inr loc, _) \<Rightarrow> normalizeLoc loc = Some loc"
    by (auto split: prod.splits sum.splits dest!: mintLoc_shape intro!: normalizeLoc_fixed)
  ultimately show ?thesis
    using normalizeLoc_fixed normalizeLoc_shape by blast
qed

text \<open>What a hibernating socket is given to remember reads back as it was, for every role, mode and kind.\<close>

theorem attachment_round_trip: "readAttachment (Some (attachment_object a)) = Some a"
  by (rule readAttachment_object)

section \<open>Budgets\<close>

text \<open>(C25) Starting from an empty table, with a clock that does not run backwards, the limiter never admits
  more than n calls for a key within any window of w milliseconds, whatever other keys do in between.\<close>

theorem limiter_window_bound:
  assumes "0 < w" and "sorted_wrt (\<le>) (start # map (\<lambda>(_, _, _, t). t) calls)"
    and "list_all (\<lambda>(key, l, v, _). key = k \<longrightarrow> l = n \<and> v = w) calls"
  shows "length (filter (\<lambda>t. x - w < t \<and> t \<le> x) (admitted k calls Map.empty)) \<le> n"
proof -
  have "bucket_inv k w [] start Map.empty" by (simp add: bucket_inv_def bucket_of_def)
  from admitted_window_ok [OF this window_ok_Nil assms(1,2)] assms(3)
  have "window_ok w n (admitted k calls Map.empty)" by (fastforce simp: list_all_iff)
  then show ?thesis by (rule window_bound)
qed

theorem limiter_window_bound_witness:
  "let calls = [(''k'', 2, 10, 0), (''k'', 2, 10, 1), (''o'', 1, 5, 2), (''k'', 2, 10, 3), (''k'', 2, 10, 12)]
   in admitted ''k'' calls Map.empty = [0, 1, 12] \<and>
      length (filter (\<lambda>t. 12 - 10 < t \<and> t \<le> 12) (admitted ''k'' calls Map.empty)) \<le> 2"
  using limiter_window_bound [of 10 0 "[(''k'', 2, 10, 0), (''k'', 2, 10, 1), (''o'', 1, 5, 2), (''k'', 2, 10, 3), (''k'', 2, 10, 12)]" "''k''" 2 12]
  by (simp add: allow_def)

text \<open>(C26) Over either ledger, in memory or in SQLite, starting empty and with a clock that does not run
  backwards, no window of a minute sees more than eleven wrong pairing secrets, however attempts are
  spread and whatever their outcomes.\<close>

theorem gate_failures_per_minute:
  assumes "sorted (0 # map fst tries)" and "st_gateAttempts (snd g) = []" and "c_gate_attempts (snd h) = []"
  shows "length (window_at x (gate_run mem_gate_port tries g)) \<le> 11 \<and>
         length (window_at x (gate_run cf_gate_port tries h)) \<le> 11"
  using mem_gate.run_window_bound [OF assms(2,1)] cf_gate.run_window_bound [OF assms(3,1)] by blast

text \<open>Six wrong secrets in a row are let through; a seventh within the cooldown is not.\<close>

theorem gate_failures_per_minute_witness:
  "let tries = [(1 :: number, False), (2, False), (3, False), (4, False), (5, False), (6, False), (7, False)]
   in gate_run mem_gate_port tries (0, new_MemoryStore) = [1, 2, 3, 4, 5, 6] \<and>
      length (window_at 7 (gate_run mem_gate_port tries (0, new_MemoryStore))) \<le> 11 \<and>
      length (window_at 7 (gate_run cf_gate_port tries (0, new_CfStore))) \<le> 11"
proof -
  let ?tries = "[(1 :: number, False), (2, False), (3, False), (4, False), (5, False), (6, False), (7, False)]"
  have "gate_run mem_gate_port ?tries (0, new_MemoryStore) = [1, 2, 3, 4, 5, 6]"
    by (simp add: gate_try_def gate_check_def gate_record_def maybePrune_def gateCooldownMs_def Let_def new_MemoryStore_def
        mem_gate_port_def mem_recordGateAttempt_def mem_gateFailuresSince_def mem_pruneGateAttempts_def)
  moreover have "sorted (0 # map fst ?tries)" "st_gateAttempts (snd (0, new_MemoryStore)) = []"
      "c_gate_attempts (snd (0, new_CfStore)) = []"
    by (simp_all add: new_MemoryStore_def new_CfStore_def)
  from gate_failures_per_minute [OF this, of 7] calculation show ?thesis by simp
qed

text \<open>(C27) A refused attempt is told a positive waiting time, and waiting that long over an unchanged ledger is
  enough for the next attempt to be let through.\<close>

theorem gate_retry_hint_honest:
  assumes "clock_ok (c_gate_attempts st)" and "\<not> allowed (gate_check cf_gate_port st now)"
  shows "0 < retryAfterMs (gate_check cf_gate_port st now) \<and>
         allowed (gate_check cf_gate_port st (now + retryAfterMs (gate_check cf_gate_port st now)))"
  using cf_gate.retry_allowed [OF assms(2,1)] by blast

theorem gate_retry_hint_honest_witness:
  "let st = new_CfStore\<lparr>c_gate_attempts := [(1, False), (2, False), (3, False), (4, False), (5, False), (6, False)]\<rparr>
   in retryAfterMs (gate_check cf_gate_port st 7) = 999 \<and>
      allowed (gate_check cf_gate_port st (7 + retryAfterMs (gate_check cf_gate_port st 7)))"
proof -
  let ?st = "new_CfStore\<lparr>c_gate_attempts := [(1, False), (2, False), (3, False), (4, False), (5, False), (6, False)]\<rparr>"
  have "gate_check cf_gate_port ?st 7 = \<lparr> allowed = False, retryAfterMs = 999 \<rparr>"
    by (simp add: gate_check_def gateCooldownMs_def Let_def cf_gate_port_def cf_gateFailuresSince_def failures_since_def)
  moreover have "clock_ok (c_gate_attempts ?st)" by (simp add: clock_ok_def)
  ultimately show ?thesis using gate_retry_hint_honest [of ?st 7] by simp
qed

section \<open>The location index\<close>

text \<open>(C28) A location that a room could insert is resolved to that room by every lookup until it expires or the
  room itself takes it back: calls at other locations, calls of others at this one, and restarts of the
  shard in between do not matter.\<close>

theorem index_entry_resolves:
  assumes "mirrored ix" and "fst (index_insert now row ix) = IOk" and "now' < l_exp row"
    and "list_all (harmless (l_pair_loc row) row) calls"
  shows "\<exists>r. fst (index_lookup now' (l_pair_loc row)
                (new_IndexCore (ix_disk (fold index.serve calls (snd (index_insert now row ix)))))) = Some r \<and>
             l_daemon_id r = l_daemon_id row \<and> l_pair_ref r = l_pair_ref row \<and> l_exp r = l_exp row"
proof -
  let ?ix = "snd (index_insert now row ix)"
  obtain r where r: "ix_rows ?ix (l_pair_loc row) = Some r"
    and same: "l_daemon_id r = l_daemon_id row" "l_pair_ref r = l_pair_ref row" "l_exp r = l_exp row"
    using index.insert_ok [OF assms(2)] by blast
  have "harmless (l_pair_loc row) r c = harmless (l_pair_loc row) row c" for c
    by (cases c) (simp_all add: same)
  with assms(4) have kept: "ix_rows (fold index.serve calls ?ix) (l_pair_loc row) = Some r"
    by (intro index.entry_survives [OF r]) (simp add: list_all_iff)
  have "mirrored (index.serve c jx)" if "mirrored jx" for c jx
    using that by (cases c) (simp_all add: mirrored_lookup mirrored_insert mirrored_remove)
  then have "mirrored (fold index.serve calls jx)" if "mirrored jx" for jx
    using that by (induction calls arbitrary: jx) simp_all
  then have "mirrored (fold index.serve calls ?ix)" using mirrored_insert [OF assms(1)] by blast
  then show ?thesis
    using index.lookup_live [OF kept] assms(3) same by (simp add: restart_mirrored)
qed

theorem index_entry_resolves_witness:
  "let row = \<lparr> l_pair_loc = ''7K2M9Q'', l_daemon_id = ''d_1'', l_pair_ref = ''p_1'', l_exp = 100 \<rparr>;
       calls = [IInsert 10 (row\<lparr>l_daemon_id := ''d_2''\<rparr>), IRemove ''7K2M9Q'' ''d_2'' ''p_1'', ILookup 50 ''7K2M9Q'']
   in \<exists>r. fst (index_lookup 99 ''7K2M9Q''
            (new_IndexCore (ix_disk (fold index.serve calls (snd (index_insert 5 row (new_IndexCore Map.empty))))))) = Some r \<and>
          l_daemon_id r = ''d_1'' \<and> l_pair_ref r = ''p_1'' \<and> l_exp r = 100"
proof -
  let ?row = "\<lparr> l_pair_loc = ''7K2M9Q'', l_daemon_id = ''d_1'', l_pair_ref = ''p_1'', l_exp = 100 \<rparr>"
  have "mirrored (new_IndexCore Map.empty)" "fst (index_insert 5 ?row (new_IndexCore Map.empty)) = IOk"
    by (simp_all add: mirrored_def new_IndexCore_def index_insert_def)
  from index_entry_resolves [OF this, of 99
      "[IInsert 10 (?row\<lparr>l_daemon_id := ''d_2''\<rparr>), IRemove ''7K2M9Q'' ''d_2'' ''p_1'', ILookup 50 ''7K2M9Q'']"]
  show ?thesis by (simp add: Let_def del: fold.simps)
qed

end
