(* ===== verification/Database.thy ===== *)
theory Database
  imports Constants
begin

text \<open>
  The account database: its tables, as lists of rows in insertion order, and every SQL
  statement of \<^verbatim>\<open>account-store.ts\<close>, \<^verbatim>\<open>d1.ts\<close> and \<^verbatim>\<open>account-vault.ts\<close> under
  \<^verbatim>\<open>workers/pairfob-origin/src\<close>, each a function of the rows it binds. The columns and keys are those
  of \<^verbatim>\<open>migrations/0001\<close> to \<^verbatim>\<open>0011\<close>. A write returns the number of rows it changed; a violated
  key is the exception the driver raises, and a batch is a transaction: an exception undoes it.
\<close>

section \<open>Rows\<close>

record user_row =
  us_user_id :: string
  us_username :: string
  us_password_hash :: string
  us_role :: string
  us_created_at :: number

record session_row =
  se_token_hash :: string
  se_user_id :: string
  se_created_at :: number
  se_expires_at :: number

record invite_row =
  iv_code :: string
  iv_updated_by :: string
  iv_updated_at :: number
  iv_suspended_at :: number
  iv_version :: nat

record failure_row =
  af_id :: nat
  af_subject :: string
  af_at :: number

record claim_proof_row =
  cp_proof :: string
  cp_user_id :: string
  cp_daemon_id :: string
  cp_created_at :: number
  cp_expires_at :: number
  cp_ready_at :: number
  cp_route_id :: string

record device_owner_row =
  dv_daemon_id :: string
  dv_user_id :: string
  dv_label :: "string option"
  dv_bound_at :: number

record vault_row =
  va_user_id :: string
  va_ciphertext :: string
  va_nonce :: string
  va_kdf :: string
  va_version :: nat
  va_updated_at :: number

record grant_row =
  gr_grant_id :: string
  gr_grant_hash :: string
  gr_max_daemons :: nat
  gr_used :: nat
  gr_label :: "string option"
  gr_created_at :: number
  gr_revoked_at :: "number option"
  gr_last_enroll_at :: "number option"
  gr_enroll_nonce :: "string option"

record daemon_row =
  dm_daemon_id :: string
  dm_grant_id :: string
  dm_created_at :: number
  dm_kicked_at :: "number option"
  dm_enroll_ip_hash :: "string option"
  dm_quota_released_at :: "number option"

record self_grant_row =
  sg_grant_id :: string
  sg_ip_hash :: string
  sg_created_at :: number

text \<open>
  \<open>db_failure_seq\<close> is the AUTOINCREMENT counter of \<^verbatim>\<open>auth_failures\<close>: the largest id ever given,
  so an id is never used twice. The invite table is a single row, by its CHECK constraint.
\<close>

record d1 =
  db_users :: "user_row list"
  db_sessions :: "session_row list"
  db_invite :: "invite_row option"
  db_failures :: "failure_row list"
  db_failure_seq :: nat
  db_locks :: "(string \<times> number) list"
  db_proofs :: "claim_proof_row list"
  db_owners :: "device_owner_row list"
  db_vaults :: "vault_row list"
  db_grants :: "grant_row list"
  db_daemons :: "daemon_row list"
  db_self_grants :: "self_grant_row list"

definition empty_d1 :: d1 where
  "empty_d1 =
     \<lparr> db_users = [], db_sessions = [], db_invite = None, db_failures = [], db_failure_seq = 0, db_locks = [],
       db_proofs = [], db_owners = [], db_vaults = [], db_grants = [], db_daemons = [], db_self_grants = [] \<rparr>"

section \<open>Statements\<close>

type_synonym 'a sql = "(d1, 'a) comp"

text \<open>The first row of a query, if any, and the number of rows of a table that satisfy a condition.\<close>

definition row_where :: "('r \<Rightarrow> bool) \<Rightarrow> 'r list \<Rightarrow> 'r option" where
  "row_where p rows = List.find p rows"

definition count_where :: "('r \<Rightarrow> bool) \<Rightarrow> 'r list \<Rightarrow> nat" where
  "count_where p rows = length (filter p rows)"

definition query :: "(d1 \<Rightarrow> 'a) \<Rightarrow> 'a sql" where
  "query f = (\<lambda>d. (Inr (f d), d))"

text \<open>Writes, over a table given by its selector and its update: an insertion that fails on a repeated key,
  a deletion, and an update in place.\<close>

definition unique_violation :: exn where
  "unique_violation = Error ''D1_ERROR: UNIQUE constraint failed''"

definition insert_row ::
    "(d1 \<Rightarrow> 'r list) \<Rightarrow> (('r list \<Rightarrow> 'r list) \<Rightarrow> d1 \<Rightarrow> d1) \<Rightarrow> ('r \<Rightarrow> 'r \<Rightarrow> bool) \<Rightarrow> 'r \<Rightarrow> nat sql" where
  "insert_row tab upd clash r = (\<lambda>d.
     if list_ex (clash r) (tab d) then (Inl unique_violation, d)
     else (Inr 1, upd (\<lambda>rs. rs @ [r]) d))"

definition delete_rows ::
    "(d1 \<Rightarrow> 'r list) \<Rightarrow> (('r list \<Rightarrow> 'r list) \<Rightarrow> d1 \<Rightarrow> d1) \<Rightarrow> ('r \<Rightarrow> bool) \<Rightarrow> nat sql" where
  "delete_rows tab upd p = (\<lambda>d. (Inr (count_where p (tab d)), upd (filter (\<lambda>r. \<not> p r)) d))"

definition update_rows ::
    "(d1 \<Rightarrow> 'r list) \<Rightarrow> (('r list \<Rightarrow> 'r list) \<Rightarrow> d1 \<Rightarrow> d1) \<Rightarrow> ('r \<Rightarrow> bool) \<Rightarrow> ('r \<Rightarrow> 'r) \<Rightarrow> nat sql" where
  "update_rows tab upd p f = (\<lambda>d. (Inr (count_where p (tab d)), upd (map (\<lambda>r. if p r then f r else r)) d))"

text \<open>\<^verbatim>\<open>INSERT ... SELECT ... WHERE c\<close>: the row is inserted when the condition holds in the table as it is.\<close>

definition insert_when :: "(d1 \<Rightarrow> bool) \<Rightarrow> nat sql \<Rightarrow> nat sql" where
  "insert_when c m = (\<lambda>d. if c d then m d else (Inr 0, d))"

text \<open>\<^verbatim>\<open>db.batch([...])\<close>\<close>

definition transaction :: "'a sql \<Rightarrow> 'a sql" where
  "transaction m = (\<lambda>d. case m d of (Inl e, _) \<Rightarrow> (Inl e, d) | (Inr a, t) \<Rightarrow> (Inr a, t))"

section \<open>Accounts: account-store.ts\<close>

definition SELECT_USER_BY_NAME_SQL :: "string \<Rightarrow> user_row option sql" where
  "SELECT_USER_BY_NAME_SQL username = query (\<lambda>d. row_where (\<lambda>r. us_username r = username) (db_users d))"

definition SELECT_USER_BY_ID_SQL :: "string \<Rightarrow> user_row option sql" where
  "SELECT_USER_BY_ID_SQL userId = query (\<lambda>d. row_where (\<lambda>r. us_user_id r = userId) (db_users d))"

definition COUNT_USERS_SQL :: "nat sql" where
  "COUNT_USERS_SQL = query (\<lambda>d. length (db_users d))"

definition same_user :: "user_row \<Rightarrow> user_row \<Rightarrow> bool" where
  "same_user a b \<longleftrightarrow> us_user_id a = us_user_id b \<or> us_username a = us_username b"

definition INSERT_FIRST_USER_SQL :: "user_row \<Rightarrow> nat sql" where
  "INSERT_FIRST_USER_SQL row =
     insert_when (\<lambda>d. db_users d = []) (insert_row db_users db_users_update same_user row)"

definition INSERT_USER_SQL :: "user_row \<Rightarrow> nat sql" where
  "INSERT_USER_SQL row =
     insert_when (\<lambda>d. \<not> list_ex (\<lambda>r. us_username r = us_username row) (db_users d))
       (insert_row db_users db_users_update same_user row)"

definition INSERT_SESSION_SQL :: "session_row \<Rightarrow> nat sql" where
  "INSERT_SESSION_SQL row =
     insert_row db_sessions db_sessions_update (\<lambda>a b. se_token_hash a = se_token_hash b) row"

definition SELECT_SESSION_SQL :: "string \<Rightarrow> number \<Rightarrow> session_row option sql" where
  "SELECT_SESSION_SQL tokenHash now =
     query (\<lambda>d. row_where (\<lambda>r. se_token_hash r = tokenHash \<and> se_expires_at r > now) (db_sessions d))"

definition DELETE_SESSION_SQL :: "string \<Rightarrow> nat sql" where
  "DELETE_SESSION_SQL tokenHash = delete_rows db_sessions db_sessions_update (\<lambda>r. se_token_hash r = tokenHash)"

definition PRUNE_SESSIONS_SQL :: "number \<Rightarrow> nat sql" where
  "PRUNE_SESSIONS_SQL now = delete_rows db_sessions db_sessions_update (\<lambda>r. se_expires_at r \<le> now)"

definition SELECT_INVITE_SQL :: "invite_row option sql" where
  "SELECT_INVITE_SQL = query db_invite"

definition UPSERT_INVITE_SQL :: "string \<Rightarrow> string \<Rightarrow> number \<Rightarrow> nat sql" where
  "UPSERT_INVITE_SQL code updatedBy now = (\<lambda>d. (Inr 1, d\<lparr>db_invite := Some
     \<lparr> iv_code = code, iv_updated_by = updatedBy, iv_updated_at = now, iv_suspended_at = 0,
       iv_version = (case db_invite d of None \<Rightarrow> 1 | Some r \<Rightarrow> iv_version r + 1) \<rparr>\<rparr>))"

definition SUSPEND_INVITE_SQL :: "number \<Rightarrow> nat \<Rightarrow> nat sql" where
  "SUSPEND_INVITE_SQL now version = (\<lambda>d.
     case db_invite d of
       None \<Rightarrow> (Inr 0, d)
     | Some r \<Rightarrow>
         if iv_suspended_at r = 0 \<and> iv_version r = version
         then (Inr 1, d\<lparr>db_invite := Some (r\<lparr>iv_suspended_at := now\<rparr>)\<rparr>) else (Inr 0, d))"

definition strikes_since :: "string \<Rightarrow> number \<Rightarrow> failure_row \<Rightarrow> bool" where
  "strikes_since subject since r \<longleftrightarrow> af_subject r = subject \<and> af_at r > since"

definition INSERT_AUTH_FAILURE_SQL :: "string \<Rightarrow> number \<Rightarrow> nat sql" where
  "INSERT_AUTH_FAILURE_SQL subject now = (\<lambda>d. (Inr 1,
     d\<lparr>db_failures := db_failures d @ [\<lparr> af_id = Suc (db_failure_seq d), af_subject = subject, af_at = now \<rparr>],
       db_failure_seq := Suc (db_failure_seq d)\<rparr>))"

definition RESERVE_AUTH_FAILURE_SQL :: "string \<Rightarrow> number \<Rightarrow> number \<Rightarrow> nat \<Rightarrow> nat sql" where
  "RESERVE_AUTH_FAILURE_SQL subject now since limit =
     insert_when (\<lambda>d. count_where (strikes_since subject since) (db_failures d) < limit)
       (INSERT_AUTH_FAILURE_SQL subject now)"

definition RELEASE_AUTH_FAILURE_SQL :: "nat \<Rightarrow> nat sql" where
  "RELEASE_AUTH_FAILURE_SQL i = delete_rows db_failures db_failures_update (\<lambda>r. af_id r = i)"

definition COUNT_AUTH_FAILURES_SQL :: "string \<Rightarrow> number \<Rightarrow> nat sql" where
  "COUNT_AUTH_FAILURES_SQL subject since =
     query (\<lambda>d. count_where (strikes_since subject since) (db_failures d))"

definition DELETE_AUTH_FAILURES_SQL :: "string \<Rightarrow> nat sql" where
  "DELETE_AUTH_FAILURES_SQL subject = delete_rows db_failures db_failures_update (\<lambda>r. af_subject r = subject)"

definition PRUNE_AUTH_FAILURES_SQL :: "number \<Rightarrow> nat sql" where
  "PRUNE_AUTH_FAILURES_SQL since = delete_rows db_failures db_failures_update (\<lambda>r. af_at r \<le> since)"

definition SELECT_AUTH_LOCK_SQL :: "string \<Rightarrow> number \<Rightarrow> number option sql" where
  "SELECT_AUTH_LOCK_SQL subject now =
     query (\<lambda>d. map_option snd (row_where (\<lambda>(s, u). s = subject \<and> u > now) (db_locks d)))"

definition UPSERT_AUTH_LOCK_SQL :: "string \<Rightarrow> number \<Rightarrow> nat sql" where
  "UPSERT_AUTH_LOCK_SQL subject until = (\<lambda>d. (Inr 1,
     if list_ex (\<lambda>(s, _). s = subject) (db_locks d)
     then d\<lparr>db_locks := map (\<lambda>(s, u). if s = subject then (s, max u until) else (s, u)) (db_locks d)\<rparr>
     else d\<lparr>db_locks := db_locks d @ [(subject, until)]\<rparr>))"

definition DELETE_AUTH_LOCK_SQL :: "string \<Rightarrow> nat sql" where
  "DELETE_AUTH_LOCK_SQL subject = delete_rows db_locks db_locks_update (\<lambda>(s, _). s = subject)"

definition PRUNE_AUTH_LOCKS_SQL :: "number \<Rightarrow> nat sql" where
  "PRUNE_AUTH_LOCKS_SQL now = delete_rows db_locks db_locks_update (\<lambda>(_, u). u \<le> now)"

definition INSERT_CLAIM_PROOF_SQL :: "claim_proof_row \<Rightarrow> nat sql" where
  "INSERT_CLAIM_PROOF_SQL row =
     insert_row db_proofs db_proofs_update (\<lambda>a b. cp_proof a = cp_proof b) (row\<lparr>cp_ready_at := 0\<rparr>)"

definition READY_CLAIM_PROOF_SQL :: "number \<Rightarrow> string \<Rightarrow> string \<Rightarrow> string \<Rightarrow> nat sql" where
  "READY_CLAIM_PROOF_SQL now routeId userId daemonId =
     update_rows db_proofs db_proofs_update
       (\<lambda>r. cp_user_id r = userId \<and> cp_daemon_id r = daemonId \<and> cp_ready_at r = 0 \<and> cp_expires_at r > now)
       (\<lambda>r. r\<lparr>cp_ready_at := now, cp_route_id := routeId\<rparr>)"

definition SELECT_READY_PROOF_SQL :: "string \<Rightarrow> string \<Rightarrow> number \<Rightarrow> claim_proof_row option sql" where
  "SELECT_READY_PROOF_SQL userId daemonId now =
     query (\<lambda>d. row_where (\<lambda>r. cp_user_id r = userId \<and> cp_daemon_id r = daemonId \<and> cp_ready_at r > 0 \<and> cp_expires_at r > now)
       (db_proofs d))"

definition spendable :: "string \<Rightarrow> string \<Rightarrow> string \<Rightarrow> number \<Rightarrow> claim_proof_row \<Rightarrow> bool" where
  "spendable proof userId daemonId now r \<longleftrightarrow>
     cp_proof r = proof \<and> cp_user_id r = userId \<and> cp_daemon_id r = daemonId \<and> cp_ready_at r > 0 \<and> cp_expires_at r > now"

definition CONSUME_CLAIM_PROOF_SQL :: "string \<Rightarrow> string \<Rightarrow> string \<Rightarrow> number \<Rightarrow> nat sql" where
  "CONSUME_CLAIM_PROOF_SQL proof userId daemonId now =
     delete_rows db_proofs db_proofs_update (spendable proof userId daemonId now)"

definition PRUNE_CLAIM_PROOFS_SQL :: "number \<Rightarrow> nat sql" where
  "PRUNE_CLAIM_PROOFS_SQL now = delete_rows db_proofs db_proofs_update (\<lambda>r. cp_expires_at r \<le> now)"

definition INSERT_DEVICE_OWNER_SQL :: "device_owner_row \<Rightarrow> nat sql" where
  "INSERT_DEVICE_OWNER_SQL row =
     insert_when (\<lambda>d. \<not> list_ex (\<lambda>r. dv_daemon_id r = dv_daemon_id row) (db_owners d))
       (insert_row db_owners db_owners_update (\<lambda>a b. dv_daemon_id a = dv_daemon_id b) row)"

definition SELECT_DEVICE_OWNER_SQL :: "string \<Rightarrow> device_owner_row option sql" where
  "SELECT_DEVICE_OWNER_SQL daemonId = query (\<lambda>d. row_where (\<lambda>r. dv_daemon_id r = daemonId) (db_owners d))"

definition LIST_DEVICES_BY_USER_SQL :: "string \<Rightarrow> nat \<Rightarrow> device_owner_row list sql" where
  "LIST_DEVICES_BY_USER_SQL userId limit =
     query (\<lambda>d. take limit (sort_key dv_bound_at (filter (\<lambda>r. dv_user_id r = userId) (db_owners d))))"

definition DELETE_DEVICE_OWNER_SQL :: "string \<Rightarrow> string \<Rightarrow> nat sql" where
  "DELETE_DEVICE_OWNER_SQL daemonId userId =
     delete_rows db_owners db_owners_update (\<lambda>r. dv_daemon_id r = daemonId \<and> dv_user_id r = userId)"

section \<open>Vaults: account-vault.ts\<close>

definition SELECT_VAULT_SQL :: "string \<Rightarrow> vault_row option sql" where
  "SELECT_VAULT_SQL userId = query (\<lambda>d. row_where (\<lambda>r. va_user_id r = userId) (db_vaults d))"

definition INSERT_VAULT_SQL :: "vault_row \<Rightarrow> nat sql" where
  "INSERT_VAULT_SQL row =
     insert_when (\<lambda>d. \<not> list_ex (\<lambda>r. va_user_id r = va_user_id row) (db_vaults d))
       (insert_row db_vaults db_vaults_update (\<lambda>a b. va_user_id a = va_user_id b) row)"

definition UPDATE_VAULT_SQL :: "vault_row \<Rightarrow> nat \<Rightarrow> nat sql" where
  "UPDATE_VAULT_SQL row expected =
     update_rows db_vaults db_vaults_update (\<lambda>r. va_user_id r = va_user_id row \<and> va_version r = expected)
       (\<lambda>r. r\<lparr>va_ciphertext := va_ciphertext row, va_nonce := va_nonce row, va_kdf := va_kdf row,
               va_version := va_version row, va_updated_at := va_updated_at row\<rparr>)"

section \<open>Grants and computers: d1.ts\<close>

definition CAS_ENROLL_SQL :: "string \<Rightarrow> number \<Rightarrow> string \<Rightarrow> number \<Rightarrow> nat sql" where
  "CAS_ENROLL_SQL nonce now grantId before =
     update_rows db_grants db_grants_update
       (\<lambda>g. gr_grant_id g = grantId \<and> gr_revoked_at g = None \<and> gr_used g < gr_max_daemons g \<and> gr_enroll_nonce g = None
            \<and> (case gr_last_enroll_at g of None \<Rightarrow> True | Some t \<Rightarrow> t \<le> before))
       (\<lambda>g. g\<lparr>gr_used := gr_used g + 1, gr_enroll_nonce := Some nonce, gr_last_enroll_at := Some now\<rparr>)"

definition INSERT_DAEMON_SQL :: "daemon_row \<Rightarrow> string \<Rightarrow> nat sql" where
  "INSERT_DAEMON_SQL row nonce =
     insert_when (\<lambda>d. list_ex (\<lambda>g. gr_grant_id g = dm_grant_id row \<and> gr_enroll_nonce g = Some nonce) (db_grants d))
       (insert_row db_daemons db_daemons_update (\<lambda>a b. dm_daemon_id a = dm_daemon_id b) row)"

definition CLEAR_ENROLL_NONCE_SQL :: "string \<Rightarrow> string \<Rightarrow> nat sql" where
  "CLEAR_ENROLL_NONCE_SQL grantId nonce =
     update_rows db_grants db_grants_update (\<lambda>g. gr_grant_id g = grantId \<and> gr_enroll_nonce g = Some nonce)
       (\<lambda>g. g\<lparr>gr_enroll_nonce := None\<rparr>)"

text \<open>A grant gives a place back when the computer that holds it satisfies a condition.\<close>

definition give_back :: "string \<Rightarrow> string \<Rightarrow> (daemon_row \<Rightarrow> bool) \<Rightarrow> nat sql" where
  "give_back grantId daemonId p = (\<lambda>d.
     update_rows db_grants db_grants_update
       (\<lambda>g. gr_grant_id g = grantId \<and> gr_used g > 0 \<and>
            list_ex (\<lambda>r. dm_daemon_id r = daemonId \<and> dm_grant_id r = grantId \<and> p r) (db_daemons d))
       (\<lambda>g. g\<lparr>gr_used := gr_used g - 1\<rparr>) d)"

definition COMPENSATE_DAEMON_USED_SQL :: "string \<Rightarrow> string \<Rightarrow> nat sql" where
  "COMPENSATE_DAEMON_USED_SQL grantId daemonId = give_back grantId daemonId (\<lambda>r. dm_quota_released_at r = None)"

definition DELETE_DAEMON_SQL :: "string \<Rightarrow> nat sql" where
  "DELETE_DAEMON_SQL daemonId = delete_rows db_daemons db_daemons_update (\<lambda>r. dm_daemon_id r = daemonId)"

definition SELECT_GRANT_BY_ID_SQL :: "string \<Rightarrow> grant_row option sql" where
  "SELECT_GRANT_BY_ID_SQL grantId = query (\<lambda>d. row_where (\<lambda>g. gr_grant_id g = grantId) (db_grants d))"

definition SELECT_DAEMON_SQL :: "string \<Rightarrow> daemon_row option sql" where
  "SELECT_DAEMON_SQL daemonId = query (\<lambda>d. row_where (\<lambda>r. dm_daemon_id r = daemonId) (db_daemons d))"

definition LIST_LIVE_DAEMON_IDS_SQL :: "nat \<Rightarrow> string list sql" where
  "LIST_LIVE_DAEMON_IDS_SQL limit =
     query (\<lambda>d. take limit (map dm_daemon_id (filter (\<lambda>r. dm_kicked_at r = None) (db_daemons d))))"

definition KICK_DAEMON_SQL :: "number \<Rightarrow> string \<Rightarrow> nat sql" where
  "KICK_DAEMON_SQL now daemonId =
     update_rows db_daemons db_daemons_update (\<lambda>r. dm_daemon_id r = daemonId \<and> dm_kicked_at r = None)
       (\<lambda>r. r\<lparr>dm_kicked_at := Some now\<rparr>)"

definition RELEASE_KICK_QUOTA_SQL :: "string \<Rightarrow> string \<Rightarrow> nat sql" where
  "RELEASE_KICK_QUOTA_SQL grantId daemonId =
     give_back grantId daemonId (\<lambda>r. dm_kicked_at r \<noteq> None \<and> dm_quota_released_at r = None)"

definition MARK_QUOTA_RELEASED_SQL :: "number \<Rightarrow> string \<Rightarrow> nat sql" where
  "MARK_QUOTA_RELEASED_SQL now daemonId =
     update_rows db_daemons db_daemons_update
       (\<lambda>r. dm_daemon_id r = daemonId \<and> dm_kicked_at r \<noteq> None \<and> dm_quota_released_at r = None)
       (\<lambda>r. r\<lparr>dm_quota_released_at := Some now\<rparr>)"

definition INSERT_SELF_GRANT_SQL :: "self_grant_row \<Rightarrow> number \<Rightarrow> nat \<Rightarrow> nat sql" where
  "INSERT_SELF_GRANT_SQL row windowStart quota =
     insert_when (\<lambda>d. count_where (\<lambda>r. sg_ip_hash r = sg_ip_hash row \<and> sg_created_at r > windowStart) (db_self_grants d) < quota)
       (insert_row db_self_grants db_self_grants_update (\<lambda>a b. sg_grant_id a = sg_grant_id b) row)"

definition INSERT_SELF_GRANT_ROW_SQL :: "grant_row \<Rightarrow> nat sql" where
  "INSERT_SELF_GRANT_ROW_SQL row =
     insert_when (\<lambda>d. list_ex (\<lambda>r. sg_grant_id r = gr_grant_id row) (db_self_grants d))
       (insert_row db_grants db_grants_update
          (\<lambda>a b. gr_grant_id a = gr_grant_id b \<or> gr_grant_hash a = gr_grant_hash b)
          (row\<lparr>gr_used := 0, gr_revoked_at := None, gr_last_enroll_at := None, gr_enroll_nonce := None\<rparr>))"

definition PRUNE_SELF_GRANTS_SQL :: "number \<Rightarrow> nat sql" where
  "PRUNE_SELF_GRANTS_SQL windowStart =
     delete_rows db_self_grants db_self_grants_update (\<lambda>r. sg_created_at r \<le> windowStart)"

section \<open>Batches\<close>

text \<open>The statements each operation sends to the database in one transaction.\<close>

definition create_session_batch :: "session_row \<Rightarrow> nat sql" where
  "create_session_batch row =
     transaction (bindM (INSERT_SESSION_SQL row) (\<lambda>_. PRUNE_SESSIONS_SQL (se_created_at row)))"

definition lock_batch :: "string \<Rightarrow> number \<Rightarrow> number \<Rightarrow> nat sql" where
  "lock_batch subject until now = transaction (bindM (PRUNE_AUTH_LOCKS_SQL now) (\<lambda>_. UPSERT_AUTH_LOCK_SQL subject until))"

definition clear_domain_batch :: "string \<Rightarrow> nat sql" where
  "clear_domain_batch subject =
     transaction (bindM (DELETE_AUTH_FAILURES_SQL subject) (\<lambda>_. DELETE_AUTH_LOCK_SQL subject))"

definition spend_batch :: "string \<Rightarrow> number \<Rightarrow> number \<Rightarrow> nat sql" where
  "spend_batch subject now since =
     transaction (bindM (INSERT_AUTH_FAILURE_SQL subject now) (\<lambda>_.
       bindM (PRUNE_AUTH_FAILURES_SQL since) (\<lambda>_. COUNT_AUTH_FAILURES_SQL subject since)))"

text \<open>The reservation reports how many rows it inserted, the id given to the row and the count after it.\<close>

definition reserve_batch :: "string \<Rightarrow> number \<Rightarrow> number \<Rightarrow> nat \<Rightarrow> (nat \<times> nat \<times> nat) sql" where
  "reserve_batch subject now since limit =
     transaction (bindM (PRUNE_AUTH_FAILURES_SQL since) (\<lambda>_.
       bindM (RESERVE_AUTH_FAILURE_SQL subject now since limit) (\<lambda>changes.
         bindM (query db_failure_seq) (\<lambda>last_row_id.
           bindM (COUNT_AUTH_FAILURES_SQL subject since) (\<lambda>n. ret (changes, last_row_id, n))))))"

definition create_proof_batch :: "claim_proof_row \<Rightarrow> nat sql" where
  "create_proof_batch row =
     transaction (bindM (INSERT_CLAIM_PROOF_SQL row) (\<lambda>_. PRUNE_CLAIM_PROOFS_SQL (cp_created_at row)))"

definition enroll_batch :: "daemon_row \<Rightarrow> string \<Rightarrow> nat sql" where
  "enroll_batch row nonce =
     transaction (bindM (CAS_ENROLL_SQL nonce (dm_created_at row) (dm_grant_id row) (dm_created_at row - 60000)) (\<lambda>changes.
       bindM (INSERT_DAEMON_SQL row nonce) (\<lambda>_.
         bindM (CLEAR_ENROLL_NONCE_SQL (dm_grant_id row) nonce) (\<lambda>_. ret changes))))"

definition compensate_batch :: "string \<Rightarrow> string \<Rightarrow> nat sql" where
  "compensate_batch grantId daemonId =
     transaction (bindM (COMPENSATE_DAEMON_USED_SQL grantId daemonId) (\<lambda>_. DELETE_DAEMON_SQL daemonId))"

definition self_grant_batch :: "self_grant_row \<Rightarrow> grant_row \<Rightarrow> number \<Rightarrow> nat \<Rightarrow> (nat \<times> nat) sql" where
  "self_grant_batch claim row windowStart quota =
     transaction (bindM (INSERT_SELF_GRANT_SQL claim windowStart quota) (\<lambda>a.
       bindM (INSERT_SELF_GRANT_ROW_SQL row) (\<lambda>b.
         bindM (PRUNE_SELF_GRANTS_SQL windowStart) (\<lambda>_. ret (a, b)))))"

definition kick_batch :: "number \<Rightarrow> string \<Rightarrow> string \<Rightarrow> nat sql" where
  "kick_batch now daemonId grantId =
     transaction (bindM (KICK_DAEMON_SQL now daemonId) (\<lambda>kicked.
       bindM (RELEASE_KICK_QUOTA_SQL grantId daemonId) (\<lambda>_.
         bindM (MARK_QUOTA_RELEASED_SQL now daemonId) (\<lambda>_. ret kicked))))"

end
