(* ===== verification/Metrics.thy ===== *)
theory Metrics
  imports Room
begin

text \<open>
  What the relay reports about itself: \<^verbatim>\<open>workers/pairfob-origin/src/metrics.ts\<close>. The state is the
  counter table of the isolate, the data points handed to the analytics sink and the lines
  logged. The facts say that no label that leaves this module can carry a credential.
\<close>

section \<open>Labels\<close>

definition is_alnum :: "char \<Rightarrow> bool" where
  "is_alnum c \<longleftrightarrow> (let n = of_char c :: nat in (48 \<le> n \<and> n \<le> 57) \<or> (65 \<le> n \<and> n \<le> 90) \<or> (97 \<le> n \<and> n \<le> 122))"

definition is_word :: "char \<Rightarrow> bool" where
  "is_word c \<longleftrightarrow> is_alnum c \<or> c = CHR ''_''"

text \<open>\<^verbatim>\<open>/^[A-Za-z0-9._:-]{1,64}$/\<close>\<close>

definition LABEL_RE :: "string \<Rightarrow> bool" where
  "LABEL_RE s \<longleftrightarrow> s \<noteq> [] \<and> length s \<le> 64 \<and> list_all (\<lambda>c. is_alnum c \<or> c \<in> set ''._:-'') s"

text \<open>
  \<^verbatim>\<open>/\b(?:jg_|rt_|it_)[0-9a-f]+\b/i\<close>: a prefix that does not continue a word, then a run of hex
  digits that ends where the word ends. \<open>prev\<close> is the character before the place looked at.
\<close>

definition secret_here :: "char option \<Rightarrow> string \<Rightarrow> bool" where
  "secret_here prev s \<longleftrightarrow>
     (case prev of None \<Rightarrow> True | Some c \<Rightarrow> \<not> is_word c) \<and>
     map toUpper (take 3 s) \<in> set [''JG_'', ''RT_'', ''IT_''] \<and>
     (let rest = drop 3 s; run = takeWhile (\<lambda>c. hex_value c \<noteq> None) rest; after = drop (length run) rest
      in run \<noteq> [] \<and> (case after of [] \<Rightarrow> True | c # _ \<Rightarrow> \<not> is_word c))"

fun secret_from :: "char option \<Rightarrow> string \<Rightarrow> bool" where
  "secret_from prev [] = False"
| "secret_from prev (c # cs) \<longleftrightarrow> secret_here prev (c # cs) \<or> secret_from (Some c) cs"

definition SECRET_RE :: "string \<Rightarrow> bool" where
  "SECRET_RE s = secret_from None s"

fun contains :: "string \<Rightarrow> string \<Rightarrow> bool" where
  "contains p [] \<longleftrightarrow> p = []"
| "contains p (c # cs) \<longleftrightarrow> take (length p) (c # cs) = p \<or> contains p cs"

definition SECRET_KEY_RE :: "string \<Rightarrow> bool" where
  "SECRET_KEY_RE s =
     list_ex (\<lambda>p. contains p (map toUpper s)) [''PAIR_TICKET'', ''RECONNECT_TOKEN'', ''JOIN_GRANT'', ''NEW_RECONNECT_TOKEN'']"

definition sanitizeLabel :: "string option \<Rightarrow> string" where
  "sanitizeLabel v =
     (case v of
        None \<Rightarrow> []
      | Some s \<Rightarrow>
          if s = [] then []
          else if SECRET_RE s \<or> SECRET_KEY_RE s then ''redacted''
          else if \<not> LABEL_RE s then ''invalid''
          else s)"

definition sanitizeIndex :: "string option \<Rightarrow> string" where
  "sanitizeIndex v = (let label = sanitizeLabel v in if DAEMON_ID_RE label \<or> GRANT_ID_RE label then label else [])"

section \<open>Counters and points\<close>

record data_point =
  dp_indexes :: "string list"
  dp_blobs :: "string list"
  dp_doubles :: "number list"

record log_line =
  lg_event :: string
  lg_result :: string
  lg_dim :: string
  lg_extra :: string

record telemetry =
  tm_counters :: "(string \<times> number) list"
  tm_points :: "data_point list"
  tm_log :: "log_line list"

record metrics_env =
  me_sink :: bool
  me_build :: "string option"

record point =
  pt_event :: string
  pt_result :: "string option"
  pt_dim :: "string option"
  pt_extra :: "string option"
  pt_daemonId :: "string option"
  pt_n :: "number option"
  pt_bytes :: "number option"
  pt_ms :: "number option"
  pt_log :: "bool option"

definition BUILD_DEFAULT :: string where
  "BUILD_DEFAULT = ''dev''"

definition buildOf :: "string option \<Rightarrow> string" where
  "buildOf b = (case b of None \<Rightarrow> BUILD_DEFAULT | Some s \<Rightarrow> if s = [] then BUILD_DEFAULT else s)"

definition counter :: "telemetry \<Rightarrow> string \<Rightarrow> number" where
  "counter tm name = (case map_of (tm_counters tm) name of None \<Rightarrow> 0 | Some n \<Rightarrow> n)"

definition inc :: "string \<Rightarrow> number \<Rightarrow> telemetry \<Rightarrow> telemetry" where
  "inc name n tm = tm\<lparr>tm_counters := AList.update name (counter tm name + n) (tm_counters tm)\<rparr>"

definition snapshot :: "telemetry \<Rightarrow> (string \<times> number) list" where
  "snapshot tm = tm_counters tm"

definition resetMetrics :: "telemetry \<Rightarrow> telemetry" where
  "resetMetrics tm = tm\<lparr>tm_counters := []\<rparr>"

definition no_point :: point where
  "no_point = \<lparr> pt_event = [], pt_result = None, pt_dim = None, pt_extra = None, pt_daemonId = None, pt_n = None,
     pt_bytes = None, pt_ms = None, pt_log = None \<rparr>"

definition num_or :: "number option \<Rightarrow> number \<Rightarrow> number" where
  "num_or v d = (case v of None \<Rightarrow> d | Some n \<Rightarrow> n)"

definition emit_event :: "point \<Rightarrow> string" where
  "emit_event p = (let e = sanitizeLabel (Some (pt_event p)) in if e = [] then ''invalid'' else e)"

definition emit_count :: "point \<Rightarrow> telemetry \<Rightarrow> telemetry" where
  "emit_count p tm =
     (let event = emit_event p; result = sanitizeLabel (pt_result p); dim = sanitizeLabel (pt_dim p);
          n = num_or (pt_n p) 1; t = inc event n tm
      in if result \<noteq> [] then inc (event @ ''.'' @ result) n t
         else if dim \<noteq> [] then inc (event @ ''.'' @ dim) n t else t)"

definition emit_point :: "metrics_env \<Rightarrow> point \<Rightarrow> data_point" where
  "emit_point me p =
     \<lparr> dp_indexes = [sanitizeIndex (pt_daemonId p)],
       dp_blobs = [emit_event p, sanitizeLabel (pt_result p), sanitizeLabel (pt_dim p), sanitizeLabel (pt_extra p),
                   sanitizeLabel (Some (buildOf (me_build me)))],
       dp_doubles = [num_or (pt_n p) 1, num_or (pt_bytes p) 0, num_or (pt_ms p) 0] \<rparr>"

definition emit_line :: "point \<Rightarrow> log_line" where
  "emit_line p = \<lparr> lg_event = emit_event p, lg_result = sanitizeLabel (pt_result p), lg_dim = sanitizeLabel (pt_dim p),
     lg_extra = sanitizeLabel (pt_extra p) \<rparr>"

definition emit :: "metrics_env \<Rightarrow> point \<Rightarrow> telemetry \<Rightarrow> telemetry" where
  "emit me p tm =
     (let t = emit_count p tm;
          u = (if me_sink me then t\<lparr>tm_points := tm_points t @ [emit_point me p]\<rparr> else t)
      in if pt_log p = Some False \<or> me_build me = Some ''test'' then u
         else u\<lparr>tm_log := tm_log u @ [emit_line p]\<rparr>)"

section \<open>Observations\<close>

definition observeUpgrade :: "metrics_env \<Rightarrow> string \<Rightarrow> string \<Rightarrow> telemetry \<Rightarrow> telemetry" where
  "observeUpgrade me role daemonId = emit me (no_point\<lparr>pt_event := ''ws_open'', pt_dim := Some role, pt_daemonId := Some daemonId\<rparr>)"

definition observeEnroll :: "metrics_env \<Rightarrow> string \<Rightarrow> string \<Rightarrow> telemetry \<Rightarrow> telemetry" where
  "observeEnroll me result daemonId = emit me (no_point\<lparr>pt_event := ''enroll'', pt_result := Some result, pt_daemonId := Some daemonId\<rparr>)"

definition observeIntent :: "metrics_env \<Rightarrow> string \<Rightarrow> string \<Rightarrow> telemetry \<Rightarrow> telemetry" where
  "observeIntent me result daemonId =
     emit me (no_point\<lparr>pt_event := ''pair_intent'', pt_result := Some result, pt_daemonId := Some daemonId\<rparr>)"

definition observeError :: "metrics_env \<Rightarrow> string \<Rightarrow> string \<Rightarrow> telemetry \<Rightarrow> telemetry" where
  "observeError me code daemonId =
     emit me (no_point\<lparr>pt_event := ''error'', pt_result := Some code, pt_extra := Some code, pt_daemonId := Some daemonId\<rparr>)"

definition observePage :: "metrics_env \<Rightarrow> string \<Rightarrow> telemetry \<Rightarrow> telemetry" where
  "observePage me pathClass = emit me (no_point\<lparr>pt_event := ''page'', pt_dim := Some pathClass\<rparr>)"

definition observeBeacon :: "metrics_env \<Rightarrow> string \<Rightarrow> string \<Rightarrow> string \<Rightarrow> telemetry \<Rightarrow> telemetry" where
  "observeBeacon me name result extra =
     emit me (no_point\<lparr>pt_event := name, pt_result := Some result, pt_extra := Some extra\<rparr>)"

definition observeFwd :: "metrics_env \<Rightarrow> number \<Rightarrow> string \<Rightarrow> telemetry \<Rightarrow> telemetry" where
  "observeFwd me bytes daemonId tm =
     emit me (no_point\<lparr>pt_event := ''fwd'', pt_daemonId := Some daemonId, pt_n := Some 1, pt_bytes := Some bytes, pt_log := Some False\<rparr>)
       (inc ''fwd_bytes'' bytes (inc ''fwd_frames'' 1 tm))"

definition observeClose :: "metrics_env \<Rightarrow> string \<Rightarrow> string \<Rightarrow> string \<Rightarrow> telemetry \<Rightarrow> telemetry" where
  "observeClose me code kind daemonId =
     emit me (no_point\<lparr>pt_event := ''ws_close'', pt_result := Some (if code = [] then ''unknown'' else code), pt_dim := Some kind,
                        pt_daemonId := Some daemonId\<rparr>)"

definition observeBind :: "metrics_env \<Rightarrow> string \<Rightarrow> string \<Rightarrow> telemetry \<Rightarrow> telemetry" where
  "observeBind me kind daemonId = emit me (no_point\<lparr>pt_event := ''bind'', pt_dim := Some kind, pt_daemonId := Some daemonId\<rparr>)"

definition observeAlarmLate :: "metrics_env \<Rightarrow> number \<Rightarrow> string \<Rightarrow> telemetry \<Rightarrow> telemetry" where
  "observeAlarmLate me ms daemonId tm =
     (let t = inc ''alarm_late_sum_ms'' ms (inc ''alarm_late_count'' 1 tm);
          u = (if ms > counter t ''alarm_late_max_ms''
               then t\<lparr>tm_counters := AList.update ''alarm_late_max_ms'' ms (tm_counters t)\<rparr> else t)
      in emit me (no_point\<lparr>pt_event := ''alarm_late'', pt_daemonId := Some daemonId, pt_ms := Some ms,
                           pt_log := Some (ms \<ge> 1000)\<rparr>) u)"

text \<open>The reports a room makes, delivered.\<close>

fun roomMetrics :: "metrics_env \<Rightarrow> string \<Rightarrow> metric \<Rightarrow> telemetry \<Rightarrow> telemetry" where
  "roomMetrics me daemonId (MetricBind kind) = observeBind me kind daemonId"
| "roomMetrics me daemonId (MetricClose code kind) = observeClose me code kind daemonId"
| "roomMetrics me daemonId (MetricFwd bytes) = observeFwd me (of_nat bytes) daemonId"
| "roomMetrics me daemonId (MetricAlarmLate ms) = observeAlarmLate me ms daemonId"

definition adminStatsBody :: "telemetry \<Rightarrow> number option \<Rightarrow> jobject \<Rightarrow> json" where
  "adminStatsBody tm sampledWs extra =
     JObj ([(''ok'', JBool True), (''counters'', JObj (map (\<lambda>(k, n). (k, JNum n)) (snapshot tm))),
            (''sampled_ws'', case sampledWs of None \<Rightarrow> JNull | Some n \<Rightarrow> JNum n),
            (''note'', JStr ''isolate counters are per-Worker; durable series are Analytics Engine dataset pairfob. live websocket count is sampled from Durable Object getWebSockets()'')]
           @ extra)"

section \<open>Facts\<close>

definition clean_label :: "string \<Rightarrow> bool" where
  "clean_label s \<longleftrightarrow> (s = [] \<or> LABEL_RE s) \<and> \<not> SECRET_RE s \<and> \<not> SECRET_KEY_RE s"

lemma clean_constants: "clean_label []" "clean_label ''redacted''" "clean_label ''invalid''"
  unfolding clean_label_def by code_simp+

lemma sanitizeLabel_clean: "clean_label (sanitizeLabel v)"
proof (cases v)
  case None
  then show ?thesis by (simp add: sanitizeLabel_def clean_constants)
next
  case (Some s)
  show ?thesis
  proof (cases "s = [] \<or> SECRET_RE s \<or> SECRET_KEY_RE s \<or> \<not> LABEL_RE s")
    case True
    then have "sanitizeLabel v \<in> {[], ''redacted'', ''invalid''}" by (auto simp: Some sanitizeLabel_def)
    then show ?thesis using clean_constants by auto
  next
    case False
    then have "sanitizeLabel v = s" by (simp add: Some sanitizeLabel_def)
    with False show ?thesis by (simp add: clean_label_def)
  qed
qed

lemma emit_event_clean: "clean_label (emit_event p)"
  using sanitizeLabel_clean [of "Some (pt_event p)"] clean_constants by (simp add: emit_event_def Let_def)

lemma sanitizeIndex_shape: "sanitizeIndex v = [] \<or> DAEMON_ID_RE (sanitizeIndex v) \<or> GRANT_ID_RE (sanitizeIndex v)"
  by (simp add: sanitizeIndex_def Let_def)

lemma emit_count_frame [simp]: "tm_points (emit_count p tm) = tm_points tm" "tm_log (emit_count p tm) = tm_log tm"
  by (simp_all add: emit_count_def inc_def Let_def)

end
