(* ===== verification/JsonPrint.thy ===== *)
theory JsonPrint
  imports Json
begin

text \<open>
  \<^verbatim>\<open>JSON.stringify\<close>: first of an object whose values are strings, which is what the worker sends to its rooms
  and to the index, then of any value whose numbers are integers, which is what the phone sends. Both round-trip
  through the parser: the reader gets exactly what was written, whatever characters it contains.
\<close>

section \<open>Printing\<close>

definition escape_char :: "char \<Rightarrow> string" where
  "escape_char c =
     (if c = CHR 0x22 \<or> c = CHR 0x5C then [CHR 0x5C, c]
      else if c = CHR 0x08 then [CHR 0x5C, CHR ''b'']
      else if c = CHR 0x0C then [CHR 0x5C, CHR ''f'']
      else if c = CHR 0x0A then [CHR 0x5C, CHR ''n'']
      else if c = CHR 0x0D then [CHR 0x5C, CHR ''r'']
      else if c = CHR 0x09 then [CHR 0x5C, CHR ''t'']
      else if (of_char c :: nat) < 32
      then [CHR 0x5C, CHR ''u'', CHR ''0'', CHR ''0''] @ HEX_BYTE (word_of_nat (of_char c))
      else [c])"

definition json_quote :: "string \<Rightarrow> string" where
  "json_quote s = [CHR 0x22] @ concat (map escape_char s) @ [CHR 0x22]"

definition json_member :: "string \<times> string \<Rightarrow> string" where
  "json_member kv = json_quote (fst kv) @ '':'' @ json_quote (snd kv)"

fun json_members :: "(string \<times> string) list \<Rightarrow> string" where
  "json_members [] = []"
| "json_members [kv] = json_member kv"
| "json_members (kv # kvs) = json_member kv @ '','' @ json_members kvs"

definition JSON_stringify :: "(string \<times> string) list \<Rightarrow> string" where
  "JSON_stringify kvs = ''{'' @ json_members kvs @ ''}''"

definition str_object :: "(string \<times> string) list \<Rightarrow> jobject" where
  "str_object kvs = map (\<lambda>(k, v). (k, JStr v)) kvs"

text \<open>Any value, whose numbers are integers: what the phone's protocol code prints.\<close>

fun join_comma :: "string list \<Rightarrow> string" where
  "join_comma [] = []"
| "join_comma [t] = t"
| "join_comma (t # ts) = t @ '','' @ join_comma ts"

fun print_json :: "json \<Rightarrow> string" where
  "print_json JNull = ''null''"
| "print_json (JBool b) = (if b then ''true'' else ''false'')"
| "print_json (JNum n) = js_String n"
| "print_json (JStr s) = json_quote s"
| "print_json (JArr vs) = ''['' @ join_comma (map print_json vs) @ '']''"
| "print_json (JObj kvs) = ''{'' @ join_comma (map (\<lambda>kv. json_quote (fst kv) @ '':'' @ print_json (snd kv)) kvs) @ ''}''"

section \<open>Round trip\<close>

lemma hex4_byte: "hex4 (CHR ''0'' # CHR ''0'' # HEX_BYTE b) = Some (unat b)"
proof -
  have "hex_value (CHR ''0'') = Some 0" by code_simp
  then show ?thesis
    by (simp add: hex4_def HEX_BYTE_def hex_value_digit byte_div_lt)
qed

lemmas pstring_cons = pstring.simps [of "c # cs" for c cs, simplified]

lemma pstring_unicode:
  assumes "n < 32"
  shows "pstring ([CHR 0x5C, CHR ''u'', CHR ''0'', CHR ''0''] @ HEX_BYTE (word_of_nat n) @ r)
     = map_option (\<lambda>(t, u). (char_of n # t, u)) (pstring r)"
proof -
  have "take 4 (CHR ''0'' # CHR ''0'' # HEX_BYTE (word_of_nat n) @ r) = CHR ''0'' # CHR ''0'' # HEX_BYTE (word_of_nat n)"
    and "drop 4 (CHR ''0'' # CHR ''0'' # HEX_BYTE (word_of_nat n) @ r) = r"
    by (simp_all add: HEX_BYTE_def)
  moreover have "unat (word_of_nat n :: byte) = n" using assms by (simp add: unat_of_nat)
  ultimately show ?thesis
    using assms by (simp add: pstring_cons hex4_byte utf8_unit_def del: take_Suc_Cons drop_Suc_Cons)
qed

lemma pstring_escape:
  "pstring (escape_char c @ r) = map_option (\<lambda>(t, u). (c # t, u)) (pstring r)"
proof -
  consider (unicode) "escape_char c = [CHR 0x5C, CHR ''u'', CHR ''0'', CHR ''0''] @ HEX_BYTE (word_of_nat (of_char c))"
      "(of_char c :: nat) < 32"
    | (escaped) e where "escape_char c = [CHR 0x5C, e]" "e \<noteq> CHR ''u''" "simple_escape e = Some c"
    | (plain) "escape_char c = [c]" "(of_char c :: nat) \<ge> 32" "c \<noteq> CHR 0x22" "c \<noteq> CHR 0x5C"
  proof (cases "c = CHR 0x22 \<or> c = CHR 0x5C \<or> c = CHR 0x08 \<or> c = CHR 0x0C \<or> c = CHR 0x0A \<or> c = CHR 0x0D \<or> c = CHR 0x09")
    case True
    have cc: "char_of (8 :: nat) = CHR 0x08" "char_of (12 :: nat) = CHR 0x0C" "char_of (10 :: nat) = CHR 0x0A"
      "char_of (13 :: nat) = CHR 0x0D" "char_of (9 :: nat) = CHR 0x09"
      by code_simp+
    from True that(2) show ?thesis by (auto simp: escape_char_def simple_escape_def cc)
  next
    case False
    then show ?thesis
      using that(1,3) by (cases "(of_char c :: nat) < 32") (simp_all add: escape_char_def)
  qed
  then show ?thesis
  proof cases
    case unicode
    with pstring_unicode [OF unicode(2), of r] show ?thesis by simp
  next
    case escaped
    then show ?thesis by (simp add: pstring_cons)
  next
    case plain
    then show ?thesis by (simp add: pstring_cons)
  qed
qed

lemma pstring_quoted: "pstring (concat (map escape_char s) @ CHR 0x22 # r) = Some (s, r)"
proof (induction s)
  case Nil
  then show ?case by (simp add: pstring_cons)
next
  case (Cons c s)
  then show ?case by (simp add: pstring_escape)
qed

lemma skip_ws_plain: "\<not> json_ws c \<Longrightarrow> skip_ws (c # r) = c # r"
  by (simp add: skip_ws_def)

lemma json_ws_marks [simp]: "\<not> json_ws (CHR 0x22)" "\<not> json_ws (CHR ''{'')" "\<not> json_ws (CHR '','')"
  "\<not> json_ws (CHR '':'')" "\<not> json_ws (CHR ''}'')"
  by (simp_all add: json_ws_def)

lemma pvalue_quoted: "pvalue (json_quote v @ r) = Some (JStr v, r)"
  by (subst pvalue.simps) (simp add: json_quote_def skip_ws_plain pstring_quoted)

lemma pmembers_members:
  assumes "kvs \<noteq> []"
  shows "pmembers (json_members kvs @ CHR ''}'' # r) = Some (str_object kvs, r)"
  using assms
proof (induction kvs rule: json_members.induct)
  case (2 kv)
  then show ?case
    by (subst pmembers.simps)
      (simp add: json_member_def json_quote_def [of "fst kv"] skip_ws_plain pstring_quoted pvalue_quoted str_object_def split_beta)
next
  case (3 kv kv' kvs)
  have "pmembers (json_members (kv' # kvs) @ CHR ''}'' # r) = Some (str_object (kv' # kvs), r)"
    using 3 by simp
  then show ?case
    by (subst pmembers.simps)
      (simp add: json_member_def json_quote_def [of "fst kv"] skip_ws_plain pstring_quoted pvalue_quoted str_object_def split_beta
        del: json_members.simps(3) add: json_members.simps(3) [of kv])
qed simp

lemma json_members_quote: "kvs \<noteq> [] \<Longrightarrow> \<exists>t. json_members kvs = CHR 0x22 # t"
  by (cases kvs rule: json_members.cases) (auto simp: json_member_def json_quote_def)

lemma JSON_parse_stringify: "JSON_parse (JSON_stringify kvs) = Some (JObj (str_object kvs))"
proof (cases "kvs = []")
  case True
  then show ?thesis
    by (simp add: JSON_parse_def JSON_stringify_def str_object_def pvalue.simps [of "CHR ''{'' # t" for t] skip_ws_plain)
      (simp add: skip_ws_def)
next
  case False
  then obtain t where t: "json_members kvs = CHR 0x22 # t" using json_members_quote by blast
  have "pvalue (CHR ''{'' # json_members kvs @ [CHR ''}'']) = Some (JObj (str_object kvs), [])"
    using pmembers_members [OF False, of "[]"]
    by (subst pvalue.simps) (simp add: skip_ws_plain t)
  then show ?thesis by (simp add: JSON_parse_def JSON_stringify_def skip_ws_def)
qed

lemma map_of_rev_distinct: "distinct (map fst xs) \<Longrightarrow> map_of (rev xs) = map_of xs"
  by (rule map_of_inject_set [THEN iffD2]) (simp_all add: rev_map [symmetric])

text \<open>The fields of such an object, by name.\<close>

lemma jstr_str_object: "distinct (map fst kvs) \<Longrightarrow> jstr (str_object kvs) k = (case map_of kvs k of None \<Rightarrow> [] | Some v \<Rightarrow> v)"
proof -
  assume d: "distinct (map fst kvs)"
  have "map_of (rev (str_object kvs)) k = map_of (str_object kvs) k"
    using d by (simp add: map_of_rev_distinct str_object_def comp_def split_beta)
  moreover have "map_of (str_object kvs) k = map_option JStr (map_of kvs k)"
    unfolding str_object_def by (induction kvs) auto
  ultimately show ?thesis by (auto simp: jstr_def jget_def split: option.splits)
qed

section \<open>Round trip of any value\<close>

fun integral :: "json \<Rightarrow> bool" where
  "integral (JNum n) = (n = of_int \<lfloor>n\<rfloor>)"
| "integral (JArr vs) = list_all integral vs"
| "integral (JObj kvs) = list_all (\<lambda>kv. integral (snd kv)) kvs"
| "integral _ = True"

text \<open>What may follow a value.\<close>

definition follows :: "string \<Rightarrow> bool" where
  "follows r \<longleftrightarrow> r = [] \<or> hd r \<in> {CHR '','', CHR '']'', CHR ''}''}"

lemma follows_simps [simp]: "follows []" "follows (CHR '','' # r)" "follows (CHR '']'' # r)" "follows (CHR ''}'' # r)"
  by (simp_all add: follows_def)

lemma digit_char: "n < 10 \<Longrightarrow> is_digit (char_of (48 + n)) \<and> digit_value (char_of (48 + n)) = n"
  by (simp add: is_digit_def digit_value_def)

lemma decimal_digits: "list_all is_digit (decimal n) \<and> decimal n \<noteq> [] \<and> (n < 10 \<longrightarrow> length (decimal n) = 1)"
proof (induction n rule: decimal.induct)
  case (1 n)
  show ?case
  proof (cases "n < 10")
    case True
    then show ?thesis using digit_char [of n] by (simp add: decimal.simps [of n])
  next
    case False
    then show ?thesis using 1 digit_char [of "n mod 10"] by (simp add: decimal.simps [of n])
  qed
qed

lemma digits_value_snoc: "digits_value (ds @ [c]) = 10 * digits_value ds + digit_value c"
  by (simp add: digits_value_def)

lemma digits_value_decimal: "digits_value (decimal n) = n"
proof (induction n rule: decimal.induct)
  case (1 n)
  show ?case
  proof (cases "n < 10")
    case True
    then show ?thesis using digit_char [of n] by (simp add: decimal.simps [of n] digits_value_def)
  next
    case False
    then show ?thesis using 1 digit_char [of "n mod 10"] by (simp add: decimal.simps [of n] digits_value_snoc)
  qed
qed

lemma char_zero: "(n :: nat) < 10 \<Longrightarrow> char_of (48 + n) = CHR ''0'' \<Longrightarrow> n = 0"
proof -
  assume n: "n < 10" and "char_of (48 + n) = CHR ''0''"
  then have "of_char (char_of (48 + n) :: char) = (of_char (CHR ''0'') :: nat)" by simp
  then show "n = 0" using n by simp
qed

lemma decimal_head: "0 < n \<Longrightarrow> take 1 (decimal n) \<noteq> ''0''"
proof (induction n rule: decimal.induct)
  case (1 n)
  show ?case
  proof (cases "n < 10")
    case True
    then show ?thesis using 1(2) char_zero [of n] by (auto simp: decimal.simps [of n])
  next
    case False
    then show ?thesis using 1(1) decimal_digits [of "n div 10"] by (cases "decimal (n div 10)") (auto simp: decimal.simps [of n])
  qed
qed

lemma follows_not_digit: "follows r \<Longrightarrow> takeWhile is_digit r = [] \<and> dropWhile is_digit r = r \<and> take 1 r \<notin> {''.'', ''e'', ''E''}"
  by (cases r) (auto simp: follows_def is_digit_def)

lemma pnumber_decimal:
  assumes "follows r"
  shows "pnumber (js_String (of_int z) @ r) = Some (of_int z, r)"
proof -
  define n where "n = nat \<bar>z\<bar>"
  have s: "js_String (of_int z) = (if z < 0 then ''-'' else []) @ decimal n"
    by (simp add: js_String_def n_def nat_abs_int_diff of_int_abs [symmetric] del: of_int_abs)
  have d: "list_all is_digit (decimal n)" "decimal n \<noteq> []" using decimal_digits [of n] by simp_all
  note r = follows_not_digit [OF assms]
  have tw: "takeWhile is_digit (decimal n @ r) = decimal n" "dropWhile is_digit (decimal n @ r) = r"
    using d(1) r by (simp_all add: takeWhile_append dropWhile_append list_all_iff)
  have lead: "\<not> (take 1 (decimal n) = ''0'' \<and> length (decimal n) > 1)"
    using decimal_head [of n] decimal_digits [of n] by (cases "n = 0") auto
  have minus: "take 1 (decimal n @ r) \<noteq> ''-''" using d by (cases "decimal n") (auto simp: is_digit_def)
  have tail: "pfraction r = Some (0, r)" "pexponent r = Some (1, r)" using r by (simp_all add: pfraction_def pexponent_def)
  have z: "(if z < 0 then - of_nat n else of_nat n) = (of_int z :: rat)" by (auto simp: n_def)
  have "pnumber (js_String (of_int z) @ r) = Some (if z < 0 then - of_nat n else of_nat n, r)"
    using lead d(2) minus tail tw by (auto simp: pnumber_def s Let_def digits_value_decimal)
  then show ?thesis using z by simp
qed

lemma js_String_head: "\<exists>c t. js_String (of_int z) = c # t \<and> (is_digit c \<or> c = CHR ''-'')"
  using decimal_digits [of "nat \<lfloor>\<bar>of_int z :: rat\<bar>\<rfloor>"]
  by (cases "decimal (nat \<lfloor>\<bar>of_int z :: rat\<bar>\<rfloor>)") (auto simp: js_String_def)

lemma digit_marks:
  assumes "is_digit c \<or> c = CHR ''-''"
  shows "\<not> json_ws c" "c \<notin> {CHR ''{'', CHR ''['', CHR 0x22, CHR '']'', CHR ''}'', CHR ''t'', CHR ''f'', CHR ''n''}"
  using assms by (auto simp: is_digit_def json_ws_def Let_def)

lemma pvalue_number:
  assumes "follows r"
  shows "pvalue (js_String (of_int z) @ r) = Some (JNum (of_int z), r)"
proof -
  obtain c t where c: "js_String (of_int z) = c # t" "is_digit c \<or> c = CHR ''-''" using js_String_head by blast
  note m = digit_marks [OF c(2)]
  have "pnumber (c # t @ r) = Some (of_int z, r)" using pnumber_decimal [OF assms, of z] c(1) by simp
  then show ?thesis using m c(1) by (subst pvalue.simps) (simp add: skip_ws_plain)
qed

lemma print_json_head: "integral v \<Longrightarrow> \<exists>c t. print_json v = c # t \<and> \<not> json_ws c \<and> c \<noteq> CHR '']'' \<and> c \<noteq> CHR ''}''"
proof (cases v)
  case (JNum n)
  assume "integral v"
  then have "print_json v = js_String (of_int \<lfloor>n\<rfloor>)" using JNum by simp
  then show ?thesis using js_String_head [of "\<lfloor>n\<rfloor>"] digit_marks by force
qed (auto simp: json_ws_def json_quote_def)

lemma pelements_join:
  assumes "\<And>v r. v \<in> set vs \<Longrightarrow> follows r \<Longrightarrow> pvalue (print_json v @ r) = Some (v, r)" and "vs \<noteq> []"
  shows "pelements (join_comma (map print_json vs) @ CHR '']'' # r) = Some (vs, r)"
  using assms
proof (induction vs rule: induct_list012)
  case (2 v)
  then show ?case by (subst pelements.simps) (simp add: skip_ws_plain json_ws_def)
next
  case (3 v w vs)
  have "pelements (join_comma (map print_json (w # vs)) @ CHR '']'' # r) = Some (w # vs, r)" using 3 by simp
  then show ?case using 3(3) [of v] by (subst pelements.simps) (simp add: skip_ws_plain json_ws_def)
qed simp

lemma pmembers_join:
  assumes "\<And>kv r. kv \<in> set kvs \<Longrightarrow> follows r \<Longrightarrow> pvalue (print_json (snd kv) @ r) = Some (snd kv, r)" and "kvs \<noteq> []"
  shows "pmembers (join_comma (map (\<lambda>kv. json_quote (fst kv) @ '':'' @ print_json (snd kv)) kvs) @ CHR ''}'' # r) = Some (kvs, r)"
  using assms
proof (induction kvs rule: induct_list012)
  case (2 kv)
  then show ?case by (subst pmembers.simps) (simp add: json_quote_def [of "fst kv"] skip_ws_plain pstring_quoted)
next
  case (3 kv kw kvs)
  have "pmembers (join_comma (map (\<lambda>kv. json_quote (fst kv) @ '':'' @ print_json (snd kv)) (kw # kvs)) @ CHR ''}'' # r) = Some (kw # kvs, r)"
    using 3 by simp
  then show ?case using 3(3) [of kv] by (subst pmembers.simps) (simp add: json_quote_def [of "fst kv"] skip_ws_plain pstring_quoted)
qed simp

lemma join_comma_head: "xs \<noteq> [] \<Longrightarrow> hd xs \<noteq> [] \<Longrightarrow> \<exists>t. join_comma xs = hd (hd xs) # t"
  by (cases xs rule: join_comma.cases) (auto simp: neq_Nil_conv)

lemma pvalue_print: "integral v \<Longrightarrow> follows r \<Longrightarrow> pvalue (print_json v @ r) = Some (v, r)"
proof (induction v arbitrary: r)
  case JNull
  show ?case by (subst pvalue.simps) (simp add: skip_ws_plain json_ws_def)
next
  case (JBool b)
  show ?case by (cases b; subst pvalue.simps) (simp_all add: skip_ws_plain json_ws_def)
next
  case (JNum n)
  then show ?case using pvalue_number [of r "\<lfloor>n\<rfloor>"] by simp
next
  case (JStr s)
  show ?case by (simp add: pvalue_quoted)
next
  case (JArr vs)
  show ?case
  proof (cases "vs = []")
    case True
    then show ?thesis by (subst pvalue.simps) (simp add: skip_ws_plain json_ws_def)
  next
    case False
    have ints: "integral v" if "v \<in> set vs" for v using JArr.prems(1) that by (simp add: list_all_iff)
    obtain c t where c: "print_json (hd vs) = c # t" "\<not> json_ws c" "c \<noteq> CHR '']''" using print_json_head [OF ints [OF hd_in_set [OF False]]] by auto
    have "join_comma (map print_json vs) \<noteq> [] \<and> hd (join_comma (map print_json vs)) = c"
      using join_comma_head [of "map print_json vs"] False c(1) by (auto simp: hd_map)
    then obtain u where u: "join_comma (map print_json vs) = c # u" by (cases "join_comma (map print_json vs)") auto
    have "pelements (join_comma (map print_json vs) @ CHR '']'' # r) = Some (vs, r)"
      using JArr.IH ints False by (intro pelements_join) auto
    then show ?thesis using c u by (subst pvalue.simps) (simp add: skip_ws_plain json_ws_def)
  qed
next
  case (JObj kvs)
  show ?case
  proof (cases "kvs = []")
    case True
    then show ?thesis by (subst pvalue.simps) (simp add: skip_ws_plain json_ws_def)
  next
    case False
    let ?m = "\<lambda>kv. json_quote (fst kv) @ '':'' @ print_json (snd kv)"
    have ints: "integral (snd kv)" if "kv \<in> set kvs" for kv using JObj.prems(1) that by (simp add: list_all_iff)
    have "join_comma (map ?m kvs) \<noteq> [] \<and> hd (join_comma (map ?m kvs)) = CHR 0x22"
      using join_comma_head [of "map ?m kvs"] False by (auto simp: hd_map json_quote_def)
    then obtain u where u: "join_comma (map ?m kvs) = CHR 0x22 # u" by (cases "join_comma (map ?m kvs)") auto
    have "pmembers (join_comma (map ?m kvs) @ CHR ''}'' # r) = Some (kvs, r)"
      using JObj.IH ints False by (intro pmembers_join) (auto simp: prod_set_defs)
    then show ?thesis using u by (subst pvalue.simps) (simp add: skip_ws_plain json_ws_def)
  qed
qed

lemma JSON_parse_print: "integral v \<Longrightarrow> JSON_parse (print_json v) = Some v"
  using pvalue_print [of v "[]"] by (simp add: JSON_parse_def skip_ws_def)

end
