(* ===== verification/Edge.thy ===== *)
theory Edge
  imports Database Metrics DaemonRoom JsonPrint RateLimits
begin

text \<open>
  The worker's world: what a request handler of \<^verbatim>\<open>workers/pairfob-origin/src\<close> can read and change.
  It is the account database, the tables the isolate keeps in memory (the limiter's buckets, the
  counters, the decoy password record), the rooms and the shards of the pairing index, the clock
  and the entropy source. What surrounds it is the record \<open>venv\<close>: the deployment's secrets
  (\<^verbatim>\<open>env.ts\<close>), the platform's cryptography and URL parser, which calls to the database or to a
  room fail, and what other requests do at each \<^verbatim>\<open>await\<close>.
\<close>

section \<open>State\<close>

record world =
  w_db :: d1
  w_buckets :: buckets
  w_telemetry :: telemetry
  w_decoy :: "string option"
  w_rooms :: "string \<Rightarrow> room"
  w_index :: index_ns
  w_clock :: number
  w_draws :: nat
  w_awaits :: nat

text \<open>
  The URL library of the platform: \<open>v_parseUrl\<close> reads an absolute URL, \<open>v_href h req\<close> prints the URL of a
  request with the host name \<open>h\<close>, \<open>v_resolve loc req\<close> resolves a location against the URL of a request.
\<close>

record resolved_url =
  rv_sameOrigin :: bool
  rv_sameHref :: bool
  rv_path :: string
  rv_query :: "(string \<times> string) list"

text \<open>
  \<open>v_dbFails\<close> and \<open>v_dbLost\<close> tell, for each \<^verbatim>\<open>await\<close>, whether a database call fails before it has an
  effect, or after it (the answer is lost). \<open>v_assets\<close> is the asset store, when there is one.
\<close>

record venv =
  v_pepper :: string
  v_operatorToken :: string
  v_bootstrapToken :: string
  v_build :: "string option"
  v_sink :: bool
  v_p2pOpen :: bool
  v_random :: "nat \<Rightarrow> nat \<Rightarrow> byte list"
  v_sha256Hex :: "string \<Rightarrow> string"
  v_hmacSha256Hex :: "string \<Rightarrow> string \<Rightarrow> string"
  v_pbkdf2 :: "string \<Rightarrow> byte list \<Rightarrow> nat \<Rightarrow> byte list"
  v_parseUrl :: "string \<Rightarrow> url option"
  v_href :: "string \<Rightarrow> request \<Rightarrow> string"
  v_resolve :: "string \<Rightarrow> request \<Rightarrow> resolved_url option"
  v_dbFails :: "nat \<Rightarrow> bool"
  v_dbLost :: "nat \<Rightarrow> bool"
  v_roomFails :: "nat \<Rightarrow> bool"
  v_indexDown :: "string \<Rightarrow> bool"
  v_roomEnv :: "string \<Rightarrow> env"
  v_assets :: "(request \<Rightarrow> response) option"
  v_yield :: "nat \<Rightarrow> world \<Rightarrow> world"

type_synonym 'a handler = "(world, 'a) comp"

section \<open>Primitives\<close>

definition pause :: "venv \<Rightarrow> nat handler" where
  "pause en = (\<lambda>w. (Inr (w_awaits w), v_yield en (w_awaits w) (w\<lparr>w_awaits := Suc (w_awaits w)\<rparr>)))"

definition metrics_of :: "venv \<Rightarrow> metrics_env" where
  "metrics_of en = \<lparr> me_sink = v_sink en, me_build = v_build en \<rparr>"

definition observe :: "(telemetry \<Rightarrow> telemetry) \<Rightarrow> unit handler" where
  "observe f = modifyM (\<lambda>w. w\<lparr>w_telemetry := f (w_telemetry w)\<rparr>)"

definition note_error :: "venv \<Rightarrow> string \<Rightarrow> string \<Rightarrow> unit handler" where
  "note_error en code daemonId = observe (observeError (metrics_of en) code daemonId)"

definition randomBytes :: "venv \<Rightarrow> nat \<Rightarrow> byte list handler" where
  "randomBytes en n = (\<lambda>w. (Inr (v_random en (w_draws w) n), w\<lparr>w_draws := Suc (w_draws w)\<rparr>))"

definition randomHex :: "venv \<Rightarrow> nat \<Rightarrow> string handler" where
  "randomHex en n = bindM (randomBytes en n) (\<lambda>b. ret (bytesToHex b))"

text \<open>The functions of the platform's cryptography are asynchronous.\<close>

definition sha256Hex :: "venv \<Rightarrow> string \<Rightarrow> string handler" where
  "sha256Hex en text = bindM (pause en) (\<lambda>_. ret (v_sha256Hex en text))"

definition hmacSha256Hex :: "venv \<Rightarrow> string \<Rightarrow> string \<Rightarrow> string handler" where
  "hmacSha256Hex en pepper message =
     bindM (pause en) (\<lambda>_. bindM (pause en) (\<lambda>_. ret (v_hmacSha256Hex en pepper message)))"

text \<open>\<^verbatim>\<open>try { return m } catch { return a }\<close>\<close>

definition catch_ret :: "('s, 'a) comp \<Rightarrow> 'a \<Rightarrow> ('s, 'a) comp" where
  "catch_ret m a = (\<lambda>s. case m s of (Inl _, t) \<Rightarrow> (Inr a, t) | (Inr b, t) \<Rightarrow> (Inr b, t))"

text \<open>A statement or a batch sent to the database: other requests run first, then it takes effect at once.\<close>

definition on_db :: "'a sql \<Rightarrow> 'a handler" where
  "on_db op = (\<lambda>w. case op (w_db w) of (r, d) \<Rightarrow> (r, w\<lparr>w_db := d\<rparr>))"

definition dbM :: "venv \<Rightarrow> 'a sql \<Rightarrow> 'a handler" where
  "dbM en op = bindM (pause en) (\<lambda>k.
     if v_dbFails en k then throw (Error ''D1_ERROR'')
     else bindM (on_db op) (\<lambda>a. if v_dbLost en k then throw (Error ''D1_ERROR'') else ret a))"

text \<open>A budget of \<^verbatim>\<open>limits.ts\<close>, spent now.\<close>

definition limitM :: "(buckets \<Rightarrow> bool \<times> buckets) \<Rightarrow> bool handler" where
  "limitM f = (\<lambda>w. case f (w_buckets w) of (ok, b) \<Rightarrow> (Inr ok, w\<lparr>w_buckets := b\<rparr>))"

definition clock_now :: "number handler" where
  "clock_now = (\<lambda>w. (Inr (w_clock w), w))"

section \<open>Calls to rooms and to the index\<close>

definition body_request :: "string \<Rightarrow> (string \<times> string) list \<Rightarrow> request" where
  "body_request path kvs =
     \<lparr> rq_method = ''POST'', rq_host = ''pairfob.internal'', rq_path = path, rq_query = [],
       rq_headers = [(''content-type'', ''application/json'')], rq_text = JSON_stringify kvs \<rparr>"

definition bare_request :: "string \<Rightarrow> string \<Rightarrow> request" where
  "bare_request verb path =
     \<lparr> rq_method = verb, rq_host = ''pairfob.internal'', rq_path = path, rq_query = [], rq_headers = [], rq_text = [] \<rparr>"

text \<open>
  A room serves a request in its own object: it sees the shared clock and the shared index, its reports are
  delivered, and the claims it confirmed reach the account database (\<^verbatim>\<open>room/room.ts\<close>).
\<close>

fun confirm_claims :: "string \<Rightarrow> number \<Rightarrow> (string \<times> string) list \<Rightarrow> d1 \<Rightarrow> d1" where
  "confirm_claims daemonId now [] d = d"
| "confirm_claims daemonId now ((account, routeId) # cs) d =
     confirm_claims daemonId now cs (snd (READY_CLAIM_PROOF_SQL now routeId account daemonId d))"

definition enter_room :: "string \<Rightarrow> world \<Rightarrow> room" where
  "enter_room daemonId w = (w_rooms w daemonId)\<lparr>rm_clock := w_clock w, rm_index := w_index w\<rparr>"

definition leave_room :: "venv \<Rightarrow> string \<Rightarrow> room \<Rightarrow> world \<Rightarrow> world" where
  "leave_room en daemonId s w =
     (let old = w_rooms w daemonId;
          reports = drop (length (rm_metrics old)) (rm_metrics s);
          claims = drop (length (rm_confirmed old)) (rm_confirmed s)
      in w\<lparr>w_rooms := (w_rooms w)(daemonId := s), w_index := rm_index s,
            w_telemetry := fold (roomMetrics (metrics_of en) daemonId) reports (w_telemetry w),
            w_db := confirm_claims daemonId (w_clock w) claims (w_db w)\<rparr>)"

definition room_call :: "venv \<Rightarrow> string \<Rightarrow> 'a act \<Rightarrow> 'a handler" where
  "room_call en daemonId m = (\<lambda>w. case m (enter_room daemonId w) of (r, s) \<Rightarrow> (r, leave_room en daemonId s w))"

definition room_fetch :: "venv \<Rightarrow> string \<Rightarrow> request \<Rightarrow> response handler" where
  "room_fetch en daemonId req = bindM (pause en) (\<lambda>k.
     if v_roomFails en k then throw (Error ''room unreachable'')
     else room_call en daemonId (handleRoomFetch (v_roomEnv en daemonId) (buildOf (v_build en)) req))"

definition response_ok :: "response \<Rightarrow> bool" where
  "response_ok res \<longleftrightarrow> 200 \<le> rs_status res \<and> rs_status res < 300"

text \<open>The three calls that only ask whether the room agreed; an unreachable room did not.\<close>

definition room_agrees :: "venv \<Rightarrow> string \<Rightarrow> request \<Rightarrow> bool handler" where
  "room_agrees en daemonId req = catch_ret (bindM (room_fetch en daemonId req) (\<lambda>res. ret (response_ok res))) False"

section \<open>Rules for conditions on the database\<close>

text \<open>
  A condition on the database goes through a handler when every statement the handler sends keeps it,
  when other requests keep it, and when the claims that rooms confirm keep it.
\<close>

definition on_tables :: "(d1 \<Rightarrow> bool) \<Rightarrow> world \<Rightarrow> bool" where
  "on_tables J w \<longleftrightarrow> J (w_db w)"

definition rely :: "venv \<Rightarrow> (d1 \<Rightarrow> bool) \<Rightarrow> bool" where
  "rely en J \<longleftrightarrow>
     (\<forall>n w. on_tables J w \<longrightarrow> on_tables J (v_yield en n w)) \<and>
     (\<forall>now routeId userId daemonId. keeps J (READY_CLAIM_PROOF_SQL now routeId userId daemonId))"

named_theorems db_intros

lemma keeps_catch_ret [keeps_intros]: "keeps I m \<Longrightarrow> keeps I (catch_ret m a)"
  unfolding keeps_def catch_ret_def by (metis (mono_tags, lifting) case_prod_beta prod.collapse snd_conv sum.case_eq_if)

lemma on_tables_same: "w_db v = w_db w \<Longrightarrow> on_tables J w \<Longrightarrow> on_tables J v"
  by (simp add: on_tables_def)

lemma keeps_same_db: "(\<And>w. w_db (snd (m w)) = w_db w) \<Longrightarrow> keeps (on_tables J) m"
  by (rule keepsI) (simp add: on_tables_def)

lemma db_prims [db_intros]:
  "keeps (on_tables J) (observe f)" "keeps (on_tables J) (randomBytes en n)" "keeps (on_tables J) (limitM g)"
  "keeps (on_tables J) clock_now" "keeps (on_tables J) (note_error en c i)"
  by (rule keeps_same_db; simp add: observe_def randomBytes_def limitM_def clock_now_def modifyM_def note_error_def split: prod.splits)+

lemma db_pause [db_intros]: "rely en J \<Longrightarrow> keeps (on_tables J) (pause en)"
  by (rule keepsI) (simp add: pause_def rely_def on_tables_def)

lemma db_crypto [db_intros]:
  "rely en J \<Longrightarrow> keeps (on_tables J) (sha256Hex en t)" "rely en J \<Longrightarrow> keeps (on_tables J) (hmacSha256Hex en p t)"
  "keeps (on_tables J) (randomHex en n)"
  unfolding sha256Hex_def hmacSha256Hex_def randomHex_def by (intro keeps_intros db_intros; assumption)+

lemma db_on_db: "keeps J op \<Longrightarrow> keeps (on_tables J) (on_db op)"
  by (rule keepsI) (simp add: on_db_def on_tables_def keeps_def split_beta)

lemma db_dbM [db_intros]: "rely en J \<Longrightarrow> keeps J op \<Longrightarrow> keeps (on_tables J) (dbM en op)"
  unfolding dbM_def by (intro keeps_intros db_intros db_on_db)

lemma confirm_claims_keeps: "rely en J \<Longrightarrow> J d \<Longrightarrow> J (confirm_claims daemonId now cs d)"
  by (induction daemonId now cs d rule: confirm_claims.induct) (auto simp: rely_def keeps_def)

lemma db_room_call [db_intros]: "rely en J \<Longrightarrow> keeps (on_tables J) (room_call en daemonId m)"
  by (rule keepsI) (auto simp: room_call_def leave_room_def on_tables_def Let_def confirm_claims_keeps split: prod.splits)

lemma db_room [db_intros]:
  "rely en J \<Longrightarrow> keeps (on_tables J) (room_fetch en daemonId req)"
  "rely en J \<Longrightarrow> keeps (on_tables J) (room_agrees en daemonId req)"
  unfolding room_agrees_def room_fetch_def by (intro keeps_intros db_intros; assumption)+

end
