(* ===== verification/AccountStore.thy ===== *)
theory AccountStore
  imports Edge
begin

text \<open>
  The operations of \<^verbatim>\<open>account-store.ts\<close>, \<^verbatim>\<open>d1.ts\<close> and the storage half of \<^verbatim>\<open>account-vault.ts\<close> under
  \<^verbatim>\<open>workers/pairfob-origin/src\<close>: each sends its statements to the database and reads the answer.
\<close>

definition AUTH_LOCKOUT_STRIKES :: nat where [simp]: "AUTH_LOCKOUT_STRIKES = 3"
definition AUTH_LOCKOUT_MS :: number where [simp]: "AUTH_LOCKOUT_MS = 3600000"
definition LOGIN_LOCKOUT_STRIKES :: nat where [simp]: "LOGIN_LOCKOUT_STRIKES = 5"
definition INVITE_GLOBAL_STRIKES :: nat where [simp]: "INVITE_GLOBAL_STRIKES = 20"

section \<open>Users, sessions and the invite code\<close>

text \<open>A write that reports whether it changed exactly one row.\<close>

definition one_change :: "venv \<Rightarrow> nat sql \<Rightarrow> bool handler" where
  "one_change en op = bindM (dbM en op) (\<lambda>n. ret (n = 1))"

definition getUserByName :: "venv \<Rightarrow> string \<Rightarrow> user_row option handler" where
  "getUserByName en username = dbM en (SELECT_USER_BY_NAME_SQL username)"

definition getUserById :: "venv \<Rightarrow> string \<Rightarrow> user_row option handler" where
  "getUserById en userId = dbM en (SELECT_USER_BY_ID_SQL userId)"

definition countUsers :: "venv \<Rightarrow> nat handler" where
  "countUsers en = dbM en COUNT_USERS_SQL"

definition insertFirstUser :: "venv \<Rightarrow> user_row \<Rightarrow> bool handler" where
  "insertFirstUser en row = catch_ret (one_change en (INSERT_FIRST_USER_SQL row)) False"

definition insertUser :: "venv \<Rightarrow> user_row \<Rightarrow> bool handler" where
  "insertUser en row = catch_ret (one_change en (INSERT_USER_SQL row)) False"

definition createSession :: "venv \<Rightarrow> session_row \<Rightarrow> unit handler" where
  "createSession en row = bindM (dbM en (create_session_batch row)) (\<lambda>_. ret ())"

definition getLiveSession :: "venv \<Rightarrow> string \<Rightarrow> number \<Rightarrow> session_row option handler" where
  "getLiveSession en tokenHash now = dbM en (SELECT_SESSION_SQL tokenHash now)"

definition deleteSession :: "venv \<Rightarrow> string \<Rightarrow> unit handler" where
  "deleteSession en tokenHash = bindM (dbM en (DELETE_SESSION_SQL tokenHash)) (\<lambda>_. ret ())"

definition getInvite :: "venv \<Rightarrow> invite_row option handler" where
  "getInvite en = dbM en SELECT_INVITE_SQL"

definition putInvite :: "venv \<Rightarrow> string \<Rightarrow> string \<Rightarrow> number \<Rightarrow> unit handler" where
  "putInvite en code updatedBy now = bindM (dbM en (UPSERT_INVITE_SQL code updatedBy now)) (\<lambda>_. ret ())"

definition suspendInvite :: "venv \<Rightarrow> number \<Rightarrow> nat \<Rightarrow> bool handler" where
  "suspendInvite en now version = one_change en (SUSPEND_INVITE_SQL now version)"

section \<open>Locks and strikes\<close>

definition lockedUntil :: "venv \<Rightarrow> string \<Rightarrow> number \<Rightarrow> number handler" where
  "lockedUntil en subject now =
     bindM (dbM en (SELECT_AUTH_LOCK_SQL subject now)) (\<lambda>r. ret (case r of None \<Rightarrow> 0 | Some u \<Rightarrow> u))"

definition lockSubject :: "venv \<Rightarrow> string \<Rightarrow> number \<Rightarrow> number handler" where
  "lockSubject en subject now =
     (let until = now + AUTH_LOCKOUT_MS in bindM (dbM en (lock_batch subject until now)) (\<lambda>_. ret until))"

definition clearAuthDomain :: "venv \<Rightarrow> string \<Rightarrow> unit handler" where
  "clearAuthDomain en subject = bindM (dbM en (clear_domain_batch subject)) (\<lambda>_. ret ())"

definition spendFailureBudget :: "venv \<Rightarrow> string \<Rightarrow> number \<Rightarrow> nat handler" where
  "spendFailureBudget en subject now = dbM en (spend_batch subject now (now - AUTH_LOCKOUT_MS))"

record failure_reservation =
  fr_granted :: bool
  fr_strikes :: nat
  fr_id :: nat

definition reservation_of :: "nat \<Rightarrow> nat \<times> nat \<times> nat \<Rightarrow> failure_reservation" where
  "reservation_of limit r =
     (case r of (changes, last_row_id, n) \<Rightarrow>
        let granted = (changes = 1) in
        \<lparr> fr_granted = granted, fr_strikes = (if granted then n else limit), fr_id = (if granted then last_row_id else 0) \<rparr>)"

definition reserveFailureBudget :: "venv \<Rightarrow> string \<Rightarrow> number \<Rightarrow> nat \<Rightarrow> failure_reservation handler" where
  "reserveFailureBudget en subject now limit =
     bindM (dbM en (reserve_batch subject now (now - AUTH_LOCKOUT_MS) limit)) (\<lambda>r. ret (reservation_of limit r))"

definition releaseFailureBudget :: "venv \<Rightarrow> failure_reservation \<Rightarrow> unit handler" where
  "releaseFailureBudget en reservation =
     (if \<not> fr_granted reservation \<or> fr_id reservation \<le> 0 then ret ()
      else bindM (dbM en (RELEASE_AUTH_FAILURE_SQL (fr_id reservation))) (\<lambda>_. ret ()))"

definition countFailures :: "venv \<Rightarrow> string \<Rightarrow> number \<Rightarrow> nat handler" where
  "countFailures en subject now = dbM en (COUNT_AUTH_FAILURES_SQL subject (now - AUTH_LOCKOUT_MS))"

fun isLockedOut :: "venv \<Rightarrow> string list \<Rightarrow> number \<Rightarrow> bool handler" where
  "isLockedOut en [] now = ret False"
| "isLockedOut en (subject # subjects) now =
     bindM (countFailures en subject now) (\<lambda>n.
       if n \<ge> AUTH_LOCKOUT_STRIKES then ret True else isLockedOut en subjects now)"

section \<open>Claim proofs and owned devices\<close>

definition createClaimProof :: "venv \<Rightarrow> claim_proof_row \<Rightarrow> unit handler" where
  "createClaimProof en row = bindM (dbM en (create_proof_batch row)) (\<lambda>_. ret ())"

definition readyClaimProof :: "venv \<Rightarrow> string \<Rightarrow> string \<Rightarrow> string \<Rightarrow> number \<Rightarrow> nat handler" where
  "readyClaimProof en userId daemonId routeId now = dbM en (READY_CLAIM_PROOF_SQL now routeId userId daemonId)"

definition getReadyProof :: "venv \<Rightarrow> string \<Rightarrow> string \<Rightarrow> number \<Rightarrow> claim_proof_row option handler" where
  "getReadyProof en userId daemonId now = dbM en (SELECT_READY_PROOF_SQL userId daemonId now)"

definition consumeClaimProof :: "venv \<Rightarrow> string \<Rightarrow> string \<Rightarrow> string \<Rightarrow> number \<Rightarrow> bool handler" where
  "consumeClaimProof en proof userId daemonId now = one_change en (CONSUME_CLAIM_PROOF_SQL proof userId daemonId now)"

definition bindDevice :: "venv \<Rightarrow> device_owner_row \<Rightarrow> bool handler" where
  "bindDevice en row = catch_ret (one_change en (INSERT_DEVICE_OWNER_SQL row)) False"

definition getDeviceOwner :: "venv \<Rightarrow> string \<Rightarrow> device_owner_row option handler" where
  "getDeviceOwner en daemonId = dbM en (SELECT_DEVICE_OWNER_SQL daemonId)"

definition listDevicesByUser :: "venv \<Rightarrow> string \<Rightarrow> nat \<Rightarrow> device_owner_row list handler" where
  "listDevicesByUser en userId limit =
     (let cap = min (max 1 limit) 256 in dbM en (LIST_DEVICES_BY_USER_SQL userId cap))"

definition unbindDevice :: "venv \<Rightarrow> string \<Rightarrow> string \<Rightarrow> bool handler" where
  "unbindDevice en daemonId userId = one_change en (DELETE_DEVICE_OWNER_SQL daemonId userId)"

section \<open>Vaults\<close>

definition getVault :: "venv \<Rightarrow> string \<Rightarrow> vault_row option handler" where
  "getVault en userId = dbM en (SELECT_VAULT_SQL userId)"

definition insertVault :: "venv \<Rightarrow> vault_row \<Rightarrow> bool handler" where
  "insertVault en row = catch_ret (one_change en (INSERT_VAULT_SQL row)) False"

definition updateVault :: "venv \<Rightarrow> vault_row \<Rightarrow> nat \<Rightarrow> bool handler" where
  "updateVault en row expected = one_change en (UPDATE_VAULT_SQL row expected)"

section \<open>Grants and computers\<close>

definition getGrantById :: "venv \<Rightarrow> string \<Rightarrow> grant_row option handler" where
  "getGrantById en grantId = dbM en (SELECT_GRANT_BY_ID_SQL grantId)"

definition getDaemon :: "venv \<Rightarrow> string \<Rightarrow> daemon_row option handler" where
  "getDaemon en daemonId = dbM en (SELECT_DAEMON_SQL daemonId)"

text \<open>The nonce is \<^verbatim>\<open>crypto.randomUUID()\<close>: sixteen random bytes, here in hex.\<close>

definition enrollDaemonBatch :: "venv \<Rightarrow> string \<Rightarrow> string \<Rightarrow> number \<Rightarrow> string \<Rightarrow> nat handler" where
  "enrollDaemonBatch en daemonId grantId createdAt ipHash =
     bindM (randomHex en 16) (\<lambda>nonce.
       dbM en (enroll_batch \<lparr> dm_daemon_id = daemonId, dm_grant_id = grantId, dm_created_at = createdAt, dm_kicked_at = None,
                               dm_enroll_ip_hash = Some ipHash, dm_quota_released_at = None \<rparr> nonce))"

definition compensateEnroll :: "venv \<Rightarrow> string \<Rightarrow> string \<Rightarrow> unit handler" where
  "compensateEnroll en grantId daemonId = bindM (dbM en (compensate_batch grantId daemonId)) (\<lambda>_. ret ())"

definition insertSelfServeGrant ::
    "venv \<Rightarrow> string \<Rightarrow> string \<Rightarrow> string \<Rightarrow> nat \<Rightarrow> string option \<Rightarrow> number \<Rightarrow> number \<Rightarrow> nat \<Rightarrow> bool handler" where
  "insertSelfServeGrant en grantId grantHash ipHash maxDaemons label createdAt windowStart quota =
     bindM (dbM en (self_grant_batch
         \<lparr> sg_grant_id = grantId, sg_ip_hash = ipHash, sg_created_at = createdAt \<rparr>
         \<lparr> gr_grant_id = grantId, gr_grant_hash = grantHash, gr_max_daemons = maxDaemons, gr_used = 0, gr_label = label,
           gr_created_at = createdAt, gr_revoked_at = None, gr_last_enroll_at = None, gr_enroll_nonce = None \<rparr>
         windowStart quota)) (\<lambda>(a, b). ret (a = 1 \<and> b = 1))"

definition kickDaemonRow :: "venv \<Rightarrow> string \<Rightarrow> number \<Rightarrow> (bool \<times> string) option handler" where
  "kickDaemonRow en daemonId now =
     bindM (getDaemon en daemonId) (\<lambda>row.
       case row of
         None \<Rightarrow> ret None
       | Some r \<Rightarrow> bindM (dbM en (kick_batch now daemonId (dm_grant_id r))) (\<lambda>kicked. ret (Some (kicked = 1, dm_grant_id r))))"

definition listLiveDaemonIds :: "venv \<Rightarrow> nat \<Rightarrow> string list handler" where
  "listLiveDaemonIds en limit = (let cap = min (max 1 limit) 64 in dbM en (LIST_LIVE_DAEMON_IDS_SQL cap))"

definition classifyCasMiss :: "grant_row option \<Rightarrow> number \<Rightarrow> string" where
  "classifyCasMiss row now =
     (case row of
        None \<Rightarrow> ''bad_grant''
      | Some g \<Rightarrow>
          if gr_revoked_at g \<noteq> None then ''bad_grant''
          else if gr_used g \<ge> gr_max_daemons g then ''grant_exhausted''
          else case gr_last_enroll_at g of
              Some t \<Rightarrow> if now - t < 60000 then ''rate_limited'' else ''bad_grant''
            | None \<Rightarrow> ''bad_grant'')"

end
