(* ===== verification/AccountAuth.thy ===== *)
theory AccountAuth
  imports AccountStore
begin

text \<open>
  Passwords (\<^verbatim>\<open>crypto.ts\<close>) and the identity half of the account code
  (\<^verbatim>\<open>workers/pairfob-origin/src/account-auth.ts\<close>): normalisation of what people type, invite codes,
  the session cookie, and who a request speaks for. PBKDF2 and the hashes are the
  platform's, arguments of the environment.
\<close>

section \<open>Text\<close>

text \<open>\<^verbatim>\<open>s.split(c)\<close>\<close>

fun split_on :: "char \<Rightarrow> string \<Rightarrow> string list" where
  "split_on d [] = [[]]"
| "split_on d (c # cs) =
     (if c = d then [] # split_on d cs
      else case split_on d cs of [] \<Rightarrow> [[c]] | w # ws \<Rightarrow> (c # w) # ws)"

text \<open>\<^verbatim>\<open>Number.parseInt(s, 10)\<close>\<close>

definition parseInt10 :: "string \<Rightarrow> int option" where
  "parseInt10 s =
     (let t = dropWhile is_js_space s;
          u = (if take 1 t = ''-'' \<or> take 1 t = ''+'' then drop 1 t else t);
          ds = takeWhile is_digit u
      in if ds = [] then None
         else Some (if take 1 t = ''-'' then - int (digits_value ds) else int (digits_value ds)))"

definition is_control :: "char \<Rightarrow> bool" where
  "is_control c \<longleftrightarrow> (let n = of_char c :: nat in n < 32 \<or> n = 127)"

section \<open>Passwords\<close>

definition PASSWORD_SCHEME :: string where
  "PASSWORD_SCHEME = ''pbkdf2-sha256''"

definition PASSWORD_ITERATIONS :: nat where [simp]: "PASSWORD_ITERATIONS = 100000"
definition PASSWORD_ITERATIONS_MAX :: nat where [simp]: "PASSWORD_ITERATIONS_MAX = 100000"
definition PASSWORD_SALT_BYTES :: nat where [simp]: "PASSWORD_SALT_BYTES = 16"

definition pbkdf2Hex :: "venv \<Rightarrow> string \<Rightarrow> byte list \<Rightarrow> nat \<Rightarrow> string handler" where
  "pbkdf2Hex en password salt iterations =
     bindM (pause en) (\<lambda>_. bindM (pause en) (\<lambda>_. ret (bytesToHex (v_pbkdf2 en password salt iterations))))"

definition hashPassword :: "venv \<Rightarrow> string \<Rightarrow> string handler" where
  "hashPassword en password =
     bindM (randomBytes en PASSWORD_SALT_BYTES) (\<lambda>salt.
       bindM (pbkdf2Hex en password salt PASSWORD_ITERATIONS) (\<lambda>hash.
         ret (PASSWORD_SCHEME @ ''$'' @ decimal PASSWORD_ITERATIONS @ ''$'' @ bytesToHex salt @ ''$'' @ hash)))"

definition verifyPassword :: "venv \<Rightarrow> string \<Rightarrow> string \<Rightarrow> bool handler" where
  "verifyPassword en stored password =
     (case split_on (CHR ''$'') stored of
        [scheme, cost, salt_hex, want] \<Rightarrow>
          if scheme \<noteq> PASSWORD_SCHEME then ret False
          else (case parseInt10 cost of
              None \<Rightarrow> ret False
            | Some iterations \<Rightarrow>
                if iterations < 1 \<or> iterations > int PASSWORD_ITERATIONS_MAX then ret False
                else (case hexToBytes salt_hex of
                    Inl _ \<Rightarrow> ret False
                  | Inr salt \<Rightarrow>
                      if salt = [] then ret False
                      else bindM (pbkdf2Hex en password salt (nat iterations)) (\<lambda>hash. ret (timingSafeEqual hash want))))
      | _ \<Rightarrow> ret False)"

section \<open>What people type\<close>

definition name_char :: "char \<Rightarrow> bool" where
  "name_char c \<longleftrightarrow> (let n = of_char c :: nat in (97 \<le> n \<and> n \<le> 122) \<or> (48 \<le> n \<and> n \<le> 57))"

text \<open>\<^verbatim>\<open>/^[a-z0-9][a-z0-9._-]{2,31}$/\<close>\<close>

definition USERNAME_RE :: "string \<Rightarrow> bool" where
  "USERNAME_RE s \<longleftrightarrow>
     (case s of [] \<Rightarrow> False | c # cs \<Rightarrow> name_char c \<and> 2 \<le> length cs \<and> length cs \<le> 31
        \<and> list_all (\<lambda>d. name_char d \<or> d \<in> set ''._-'') cs)"

definition INVITE_ALPHABET :: string where
  "INVITE_ALPHABET = ''ABCDEFGHIJKLMNOPQRSTUVWXYZ''"

definition INVITE_CODE_LEN :: nat where [simp]: "INVITE_CODE_LEN = 4"

definition INVITE_CODE_RE :: "string \<Rightarrow> bool" where
  "INVITE_CODE_RE s \<longleftrightarrow> length s = 4 \<and> list_all (\<lambda>c. c \<in> set INVITE_ALPHABET) s"

definition PASSWORD_MIN :: nat where [simp]: "PASSWORD_MIN = 8"
definition PASSWORD_MAX :: nat where [simp]: "PASSWORD_MAX = 128"
definition DEVICE_LABEL_MAX :: nat where [simp]: "DEVICE_LABEL_MAX = 64"

text \<open>A field of a request body, as the handlers receive it: \<^verbatim>\<open>body?.k\<close>.\<close>

definition normalizeUsername :: "json option \<Rightarrow> string option" where
  "normalizeUsername v =
     (case v of
        Some (JStr s) \<Rightarrow> (let name = lower (js_trim s) in if USERNAME_RE name then Some name else None)
      | _ \<Rightarrow> None)"

definition normalizePassword :: "json option \<Rightarrow> string option" where
  "normalizePassword v =
     (case v of
        Some (JStr s) \<Rightarrow>
          (let password = js_trim s; bytes = length (text_bytes password) in
           if bytes < PASSWORD_MIN \<or> bytes > PASSWORD_MAX then None
           else if list_ex is_control password then None else Some password)
      | _ \<Rightarrow> None)"

definition normalizeInviteCode :: "json option \<Rightarrow> string option" where
  "normalizeInviteCode v =
     (case v of
        Some (JStr s) \<Rightarrow> (let code = map toUpper (js_trim s) in if INVITE_CODE_RE code then Some code else None)
      | _ \<Rightarrow> None)"

text \<open>\<^verbatim>\<open>s.replace(/\s+/g, " ")\<close>\<close>

function collapse_ws :: "string \<Rightarrow> string" where
  "collapse_ws [] = []"
| "collapse_ws (c # cs) =
     (if is_js_space c then CHR '' '' # collapse_ws (dropWhile is_js_space cs) else c # collapse_ws cs)"
  by pat_completeness auto
termination
  by (relation "measure length") (auto simp: less_Suc_eq_le length_dropWhile_le)

definition normalizeDeviceLabel :: "json option \<Rightarrow> string option" where
  "normalizeDeviceLabel v =
     (case v of
        Some (JStr s) \<Rightarrow>
          (let label = collapse_ws (js_trim s) in
           if label = [] then None
           else if utf16_length label > DEVICE_LABEL_MAX then None
           else if list_ex is_control label then None else Some label)
      | _ \<Rightarrow> None)"

section \<open>Identifiers\<close>

definition newUserId :: "venv \<Rightarrow> string handler" where
  "newUserId en = bindM (randomHex en 8) (\<lambda>h. ret (''u_'' @ h))"

definition newClaimProof :: "venv \<Rightarrow> string handler" where
  "newClaimProof en = bindM (randomHex en 16) (\<lambda>h. ret (''cp_'' @ h))"

text \<open>
  \<^verbatim>\<open>mintInviteCode\<close>: bytes at or above the largest multiple of 26 are thrown away, the others give a
  letter each. The loop ends when four letters are there; with a source that never gives a usable
  byte it would not end, which is the result \<^const>\<open>None\<close> of \<open>mint_from\<close>.
\<close>

definition usable_byte :: "byte \<Rightarrow> bool" where
  "usable_byte b \<longleftrightarrow> unat b < 256 - 256 mod length INVITE_ALPHABET"

definition letter_of :: "byte \<Rightarrow> char" where
  "letter_of b = INVITE_ALPHABET ! (unat b mod length INVITE_ALPHABET)"

fun mint_bytes :: "byte list \<Rightarrow> string \<Rightarrow> string" where
  "mint_bytes [] out = out"
| "mint_bytes (b # bs) out =
     (if \<not> usable_byte b then mint_bytes bs out
      else let out' = out @ [letter_of b] in if length out' = INVITE_CODE_LEN then out' else mint_bytes bs out')"

partial_function (option) mint_from :: "(nat \<Rightarrow> byte list) \<Rightarrow> nat \<Rightarrow> string \<Rightarrow> (string \<times> nat) option" where
  "mint_from draw k out =
     (if length out < INVITE_CODE_LEN then mint_from draw (Suc k) (mint_bytes (draw k) out) else Some (out, k))"

definition mintInviteCode :: "venv \<Rightarrow> string handler" where
  "mintInviteCode en = (\<lambda>w.
     case mint_from (\<lambda>k. v_random en k INVITE_CODE_LEN) (w_draws w) [] of
       None \<Rightarrow> (Inl (Error ''Worker exceeded CPU time limit''), w)
     | Some (code, k) \<Rightarrow> (Inr code, w\<lparr>w_draws := k\<rparr>))"

definition ROLE_ADMIN :: string where "ROLE_ADMIN = ''admin''"
definition ROLE_MEMBER :: string where "ROLE_MEMBER = ''member''"

definition isAdmin :: "user_row \<Rightarrow> bool" where
  "isAdmin user \<longleftrightarrow> us_role user = ROLE_ADMIN"

definition bootstrapUsername :: string where
  "bootstrapUsername = ''admin''"

section \<open>Sessions\<close>

definition SESSION_COOKIE :: string where
  "SESSION_COOKIE = ''pairfob_session''"

definition SESSION_TTL_MS :: number where [simp]: "SESSION_TTL_MS = 2592000000"

definition sessionCookie :: "string \<Rightarrow> number \<Rightarrow> string" where
  "sessionCookie token maxAgeMs =
     SESSION_COOKIE @ ''='' @ token @ ''; Path=/; Max-Age='' @ decimal (nat \<lfloor>maxAgeMs / 1000\<rfloor>)
       @ ''; HttpOnly; Secure; SameSite=Strict''"

definition clearedSessionCookie :: string where
  "clearedSessionCookie = SESSION_COOKIE @ ''=; Path=/; Max-Age=0; HttpOnly; Secure; SameSite=Strict''"

text \<open>The first cookie with the session's name decides; a value that is not 64 lower hex digits is no token.\<close>

fun cookie_value :: "string list \<Rightarrow> string option" where
  "cookie_value [] = None"
| "cookie_value (part # parts) =
     (if CHR ''='' \<notin> set part then cookie_value parts
      else if js_trim (takeWhile (\<lambda>c. c \<noteq> CHR ''='') part) \<noteq> SESSION_COOKIE then cookie_value parts
      else let v = js_trim (drop 1 (dropWhile (\<lambda>c. c \<noteq> CHR ''='') part)) in
        if is_lower_hex 64 v then Some v else None)"

definition readSessionToken :: "request \<Rightarrow> string option" where
  "readSessionToken req = cookie_value (split_on (CHR '';'') (header_or req ''Cookie'' []))"

definition issueSession :: "venv \<Rightarrow> string \<Rightarrow> number \<Rightarrow> (string \<times> number) handler" where
  "issueSession en userId now =
     bindM (randomHex en 32) (\<lambda>token.
       let expiresAt = now + SESSION_TTL_MS in
       bindM (sha256Hex en token) (\<lambda>h.
         bindM (createSession en \<lparr> se_token_hash = h, se_user_id = userId, se_created_at = now, se_expires_at = expiresAt \<rparr>)
           (\<lambda>_. ret (token, expiresAt))))"

record identity =
  id_user :: user_row
  id_tokenHash :: string

definition resolveIdentity :: "venv \<Rightarrow> request \<Rightarrow> number \<Rightarrow> identity option handler" where
  "resolveIdentity en req now =
     (case readSessionToken req of
        None \<Rightarrow> ret None
      | Some token \<Rightarrow>
          bindM (sha256Hex en token) (\<lambda>tokenHash.
            bindM (getLiveSession en tokenHash now) (\<lambda>session.
              case session of
                None \<Rightarrow> ret None
              | Some s \<Rightarrow>
                  bindM (getUserById en (se_user_id s)) (\<lambda>user.
                    case user of
                      None \<Rightarrow> bindM (deleteSession en tokenHash) (\<lambda>_. ret None)
                    | Some u \<Rightarrow> ret (Some \<lparr> id_user = u, id_tokenHash = tokenHash \<rparr>)))))"

section \<open>Failure budgets\<close>

datatype auth_domain = DInvite | DLogin | DBootstrap

fun domain_name :: "auth_domain \<Rightarrow> string" where
  "domain_name DInvite = ''invite''"
| "domain_name DLogin = ''login''"
| "domain_name DBootstrap = ''bootstrap''"

definition sourceSubject :: "venv \<Rightarrow> string \<Rightarrow> auth_domain \<Rightarrow> string \<Rightarrow> string handler" where
  "sourceSubject en pepper domain ip =
     bindM (hmacSha256Hex en pepper ip) (\<lambda>h. ret (domain_name domain @ '':ip:'' @ h))"

definition inviteGlobalSubject :: "nat \<Rightarrow> string" where
  "inviteGlobalSubject version = ''invite:global:v'' @ decimal version"

definition publicUser :: "user_row \<Rightarrow> json" where
  "publicUser user = JObj [(''user_id'', JStr (us_user_id user)), (''username'', JStr (us_username user)), (''role'', JStr (us_role user))]"

section \<open>Who may reach a device: account-authz.ts\<close>

definition deviceAccess :: "venv \<Rightarrow> string \<Rightarrow> request \<Rightarrow> number \<Rightarrow> device_access handler" where
  "deviceAccess en daemonId req now =
     bindM (getDeviceOwner en daemonId) (\<lambda>owner.
       bindM (resolveIdentity en req now) (\<lambda>who.
         let account = (case who of None \<Rightarrow> [] | Some i \<Rightarrow> us_user_id (id_user i)) in
         case owner of
           None \<Rightarrow> ret \<lparr> da_account = account, da_owner = [], da_allowed = (account \<noteq> []) \<rparr>
         | Some r \<Rightarrow> ret \<lparr> da_account = account, da_owner = dv_user_id r,
                           da_allowed = (account \<noteq> [] \<and> account = dv_user_id r) \<rparr>))"

end
