(* ===== verification/Account.thy ===== *)
theory Account
  imports AccountAuth
begin

text \<open>
  The account routes of \<^verbatim>\<open>workers/pairfob-origin/src/account.ts\<close> and the vault routes of
  \<^verbatim>\<open>account-vault.ts\<close>, one definition per handler, with every early return of the source in its order.
  Each handler is a computation over the world; an exception inside a route is answered 500 by
  \<^verbatim>\<open>handleAccount\<close>.
\<close>

section \<open>Answers\<close>

definition answer :: "venv \<Rightarrow> nat \<Rightarrow> json \<Rightarrow> response handler" where
  "answer en status body = ret (jsonResponse (buildOf (v_build en)) status body (noStore []))"

definition refuse :: "venv \<Rightarrow> nat \<Rightarrow> string \<Rightarrow> response handler" where
  "refuse en status code = ret (errorJson (buildOf (v_build en)) status code (noStore []))"

definition lockedOut :: "venv \<Rightarrow> response handler" where
  "lockedOut en = ret (errorJson (buildOf (v_build en)) 429 ''locked_out'' (noStore [(''Retry-After'', ''3600'')]))"

definition body_field :: "jobject option \<Rightarrow> string \<Rightarrow> json option" where
  "body_field body k = (case body of None \<Rightarrow> None | Some ob \<Rightarrow> jget ob k)"

text \<open>Reading the body of a request is an \<^verbatim>\<open>await\<close>.\<close>

definition read_body :: "venv \<Rightarrow> request \<Rightarrow> jobject option handler" where
  "read_body en req = bindM (pause en) (\<lambda>_. ret (readJSON req))"

definition signedIn :: "venv \<Rightarrow> user_row \<Rightarrow> number \<Rightarrow> nat \<Rightarrow> response handler" where
  "signedIn en user now status =
     bindM (issueSession en (us_user_id user) now) (\<lambda>(token, _).
       ret (jsonResponse (buildOf (v_build en)) status
         (JObj [(''ok'', JBool True), (''v'', JNum PROTOCOL), (''user'', publicUser user), (''expires_in'', JNum (SESSION_TTL_MS / 1000))])
         (noStore [(''Set-Cookie'', sessionCookie token SESSION_TTL_MS)])))"

text \<open>The record no password matches, made once per isolate; here it is kept when it is ready.\<close>

definition decoyHash :: "venv \<Rightarrow> string handler" where
  "decoyHash en = lookM (\<lambda>w.
     case w_decoy w of
       Some h \<Rightarrow> ret h
     | None \<Rightarrow> bindM (randomHex en 32) (\<lambda>p. bindM (hashPassword en p) (\<lambda>h.
         bindM (modifyM (\<lambda>v. v\<lparr>w_decoy := Some h\<rparr>)) (\<lambda>_. ret h))))"

definition with_identity :: "venv \<Rightarrow> request \<Rightarrow> number \<Rightarrow> (identity \<Rightarrow> response handler) \<Rightarrow> response handler" where
  "with_identity en req now k =
     bindM (resolveIdentity en req now) (\<lambda>who. case who of None \<Rightarrow> refuse en 401 ''unauthenticated'' | Some i \<Rightarrow> k i)"

definition requireAdmin :: "venv \<Rightarrow> request \<Rightarrow> number \<Rightarrow> identity option handler" where
  "requireAdmin en req now =
     bindM (resolveIdentity en req now) (\<lambda>who.
       ret (case who of None \<Rightarrow> None | Some i \<Rightarrow> if isAdmin (id_user i) then Some i else None))"

section \<open>Opening an account and signing in\<close>

definition account_state :: "venv \<Rightarrow> request \<Rightarrow> number \<Rightarrow> response handler" where
  "account_state en req now =
     bindM (resolveIdentity en req now) (\<lambda>who.
       bindM (case who of Some _ \<Rightarrow> ret True | None \<Rightarrow> bindM (countUsers en) (\<lambda>n. ret (n > 0))) (\<lambda>initialized.
         answer en 200 (JObj [(''ok'', JBool True), (''v'', JNum PROTOCOL), (''initialized'', JBool initialized),
           (''user'', case who of None \<Rightarrow> JNull | Some i \<Rightarrow> publicUser (id_user i))])))"

text \<open>What a wrong secret costs: the strike stays, and the last one of the budget bans the source.\<close>

definition ban_if :: "venv \<Rightarrow> failure_reservation \<Rightarrow> nat \<Rightarrow> string \<Rightarrow> number \<Rightarrow> unit handler" where
  "ban_if en reserved limit subject now =
     (if fr_strikes reserved \<ge> limit then bindM (lockSubject en subject now) (\<lambda>_. ret ()) else ret ())"

text \<open>The part of the three credential routes before the secret is looked at: a ban or an empty budget ends it.\<close>

definition with_strike ::
    "venv \<Rightarrow> string \<Rightarrow> number \<Rightarrow> nat \<Rightarrow> (failure_reservation \<Rightarrow> response handler) \<Rightarrow> response handler" where
  "with_strike en subject now limit k =
     bindM (lockedUntil en subject now) (\<lambda>until.
       if until > 0 then lockedOut en
       else bindM (reserveFailureBudget en subject now limit) (\<lambda>reserved.
         if \<not> fr_granted reserved then lockedOut en else k reserved))"

definition open_first :: "venv \<Rightarrow> string \<Rightarrow> string \<Rightarrow> number \<Rightarrow> response handler" where
  "open_first en ipKey password now =
     bindM (newUserId en) (\<lambda>uid. bindM (hashPassword en password) (\<lambda>h.
       let user = \<lparr> us_user_id = uid, us_username = bootstrapUsername, us_password_hash = h, us_role = ROLE_ADMIN,
                    us_created_at = now \<rparr> in
       bindM (insertFirstUser en user) (\<lambda>ok.
         if \<not> ok then refuse en 409 ''already_initialized''
         else bindM (mintInviteCode en) (\<lambda>code. bindM (putInvite en code uid now) (\<lambda>_.
           bindM (clearAuthDomain en ipKey) (\<lambda>_. signedIn en user now 201))))))"

definition bootstrap :: "venv \<Rightarrow> request \<Rightarrow> number \<Rightarrow> response handler" where
  "bootstrap en req now =
     (if v_bootstrapToken en = [] then refuse en 503 ''internal''
      else bindM (countUsers en) (\<lambda>n.
        if n > 0 then refuse en 409 ''already_initialized''
        else bindM (sourceSubject en (v_pepper en) DBootstrap (clientIP req)) (\<lambda>ipKey.
          bindM (read_body en req) (\<lambda>body.
            let token = body_str body ''service_token'' in
            case normalizePassword (body_field body ''password'') of
              None \<Rightarrow> refuse en 400 ''bad_token''
            | Some password \<Rightarrow>
                if body = None \<or> token = [] then refuse en 400 ''bad_token''
                else with_strike en ipKey now AUTH_LOCKOUT_STRIKES (\<lambda>reserved.
                  if \<not> timingSafeEqual token (v_bootstrapToken en)
                  then bindM (ban_if en reserved AUTH_LOCKOUT_STRIKES ipKey now) (\<lambda>_.
                    bindM (note_error en ''forbidden'' []) (\<lambda>_. refuse en 401 ''bad_credentials''))
                  else bindM (releaseFailureBudget en reserved) (\<lambda>_. open_first en ipKey password now))))))"

definition login :: "venv \<Rightarrow> request \<Rightarrow> number \<Rightarrow> response handler" where
  "login en req now =
     bindM (sourceSubject en (v_pepper en) DLogin (clientIP req)) (\<lambda>ipKey.
       bindM (read_body en req) (\<lambda>body.
         let password = js_trim (body_str body ''password'') in
         case normalizeUsername (body_field body ''username'') of
           None \<Rightarrow> refuse en 400 ''bad_token''
         | Some username \<Rightarrow>
             if body = None \<or> password = [] then refuse en 400 ''bad_token''
             else with_strike en ipKey now LOGIN_LOCKOUT_STRIKES (\<lambda>reserved.
               bindM (getUserByName en username) (\<lambda>user.
                 bindM (case user of Some u \<Rightarrow> ret (us_password_hash u) | None \<Rightarrow> decoyHash en) (\<lambda>stored.
                   bindM (verifyPassword en stored password) (\<lambda>ok.
                     case (user, ok) of
                       (Some u, True) \<Rightarrow>
                         bindM (releaseFailureBudget en reserved) (\<lambda>_. bindM (clearAuthDomain en ipKey) (\<lambda>_. signedIn en u now 200))
                     | _ \<Rightarrow>
                         bindM (ban_if en reserved LOGIN_LOCKOUT_STRIKES ipKey now) (\<lambda>_.
                           bindM (note_error en ''forbidden'' []) (\<lambda>_.
                             ret (errorJsonWithDetail (buildOf (v_build en)) 401 ''bad_credentials''
                               [(''remaining'', JNum (of_nat (LOGIN_LOCKOUT_STRIKES - fr_strikes reserved)))] (noStore []))))))))))"

definition open_member :: "venv \<Rightarrow> string \<Rightarrow> string \<Rightarrow> string \<Rightarrow> number \<Rightarrow> response handler" where
  "open_member en ipKey username password now =
     bindM (newUserId en) (\<lambda>uid. bindM (hashPassword en password) (\<lambda>h.
       let user = \<lparr> us_user_id = uid, us_username = username, us_password_hash = h, us_role = ROLE_MEMBER, us_created_at = now \<rparr> in
       bindM (insertUser en user) (\<lambda>ok.
         if \<not> ok then refuse en 409 ''username_taken''
         else bindM (clearAuthDomain en ipKey) (\<lambda>_. signedIn en user now 201))))"

definition refund :: "venv \<Rightarrow> failure_reservation \<Rightarrow> failure_reservation \<Rightarrow> unit handler" where
  "refund en src glob = bindM (releaseFailureBudget en src) (\<lambda>_. releaseFailureBudget en glob)"

definition wrong_invite ::
    "venv \<Rightarrow> failure_reservation \<Rightarrow> failure_reservation \<Rightarrow> nat \<Rightarrow> string \<Rightarrow> number \<Rightarrow> response handler" where
  "wrong_invite en src glob version ipKey now =
     bindM (if fr_strikes glob \<ge> INVITE_GLOBAL_STRIKES then bindM (suspendInvite en now version) (\<lambda>_. ret ()) else ret ()) (\<lambda>_.
       bindM (note_error en ''forbidden'' []) (\<lambda>_.
         if fr_strikes src \<ge> AUTH_LOCKOUT_STRIKES
         then bindM (lockSubject en ipKey now) (\<lambda>_. lockedOut en)
         else refuse en 401 ''bad_invite''))"

definition register :: "venv \<Rightarrow> request \<Rightarrow> number \<Rightarrow> response handler" where
  "register en req now =
     bindM (sourceSubject en (v_pepper en) DInvite (clientIP req)) (\<lambda>ipKey.
       bindM (read_body en req) (\<lambda>body.
         case (normalizeUsername (body_field body ''username''), normalizePassword (body_field body ''password''),
               normalizeInviteCode (body_field body ''invite_code'')) of
           (Some username, Some password, Some invite) \<Rightarrow>
             with_strike en ipKey now AUTH_LOCKOUT_STRIKES (\<lambda>src.
               bindM (getInvite en) (\<lambda>current.
                 case current of
                   None \<Rightarrow> bindM (releaseFailureBudget en src) (\<lambda>_. refuse en 409 ''not_initialized'')
                 | Some ic \<Rightarrow>
                     bindM (reserveFailureBudget en (inviteGlobalSubject (iv_version ic)) now INVITE_GLOBAL_STRIKES) (\<lambda>glob.
                       if \<not> fr_granted glob
                       then bindM (releaseFailureBudget en src) (\<lambda>_. refuse en 409 ''invite_suspended'')
                       else if iv_suspended_at ic > 0
                       then bindM (refund en src glob) (\<lambda>_. refuse en 409 ''invite_suspended'')
                       else if \<not> timingSafeEqual invite (iv_code ic)
                       then wrong_invite en src glob (iv_version ic) ipKey now
                       else bindM (refund en src glob) (\<lambda>_. open_member en ipKey username password now))))
         | _ \<Rightarrow> refuse en 400 ''bad_token''))"

definition logout :: "venv \<Rightarrow> request \<Rightarrow> number \<Rightarrow> response handler" where
  "logout en req now =
     bindM (resolveIdentity en req now) (\<lambda>who.
       bindM (case who of None \<Rightarrow> ret () | Some i \<Rightarrow> deleteSession en (id_tokenHash i)) (\<lambda>_.
         ret (jsonResponse (buildOf (v_build en)) 200 ok_true (noStore [(''Set-Cookie'', clearedSessionCookie)]))))"

section \<open>The invite code\<close>

definition readInvite :: "venv \<Rightarrow> request \<Rightarrow> number \<Rightarrow> response handler" where
  "readInvite en req now =
     bindM (requireAdmin en req now) (\<lambda>who.
       case who of
         None \<Rightarrow> refuse en 403 ''forbidden''
       | Some _ \<Rightarrow> bindM (getInvite en) (\<lambda>row.
           case row of
             None \<Rightarrow> refuse en 409 ''not_initialized''
           | Some r \<Rightarrow> answer en 200 (JObj [(''ok'', JBool True), (''invite_code'', JStr (iv_code r)), (''updated_at'', JNum (iv_updated_at r))])))"

definition rotateInvite :: "venv \<Rightarrow> request \<Rightarrow> number \<Rightarrow> response handler" where
  "rotateInvite en req now =
     bindM (requireAdmin en req now) (\<lambda>who.
       case who of
         None \<Rightarrow> refuse en 403 ''forbidden''
       | Some i \<Rightarrow>
           bindM (mintInviteCode en) (\<lambda>code. bindM (putInvite en code (us_user_id (id_user i)) now) (\<lambda>_.
             bindM (getInvite en) (\<lambda>row.
               answer en 200 (JObj [(''ok'', JBool True), (''invite_code'', JStr code), (''updated_at'', JNum now),
                 (''version'', JNum (case row of None \<Rightarrow> 0 | Some r \<Rightarrow> of_nat (iv_version r)))])))))"

section \<open>Devices\<close>

definition js_label :: "string option \<Rightarrow> json" where
  "js_label l = (case l of None \<Rightarrow> JNull | Some s \<Rightarrow> JStr s)"

fun device_rows :: "venv \<Rightarrow> device_owner_row list \<Rightarrow> json list handler" where
  "device_rows en [] = ret []"
| "device_rows en (row # rows) =
     bindM (getDaemon en (dv_daemon_id row)) (\<lambda>daemon.
       bindM (device_rows en rows) (\<lambda>rest.
         ret (JObj [(''daemon_id'', JStr (dv_daemon_id row)), (''label'', js_label (dv_label row)), (''bound_at'', JNum (dv_bound_at row)),
                    (''live'', JBool (case daemon of None \<Rightarrow> False | Some d \<Rightarrow> dm_kicked_at d = None))] # rest)))"

definition listDevices :: "venv \<Rightarrow> request \<Rightarrow> number \<Rightarrow> response handler" where
  "listDevices en req now = with_identity en req now (\<lambda>i.
     bindM (listDevicesByUser en (us_user_id (id_user i)) 64) (\<lambda>rows.
       bindM (device_rows en rows) (\<lambda>devices. answer en 200 (JObj [(''ok'', JBool True), (''devices'', JArr devices)]))))"

definition CLAIM_PROOF_RE :: "string \<Rightarrow> bool" where
  "CLAIM_PROOF_RE s = prefixed_hex ''cp_'' 32 s"

definition claim_answer :: "venv \<Rightarrow> nat \<Rightarrow> string \<Rightarrow> string option \<Rightarrow> number \<Rightarrow> response handler" where
  "claim_answer en status daemonId label boundAt =
     answer en status (JObj [(''ok'', JBool True), (''daemon_id'', JStr daemonId), (''label'', js_label label), (''bound_at'', JNum boundAt)])"

text \<open>What a claim does once its request is well formed: \<open>label\<close> is the name to record.\<close>

definition claim_with ::
    "venv \<Rightarrow> string \<Rightarrow> string \<Rightarrow> string \<Rightarrow> string option \<Rightarrow> number \<Rightarrow> response handler" where
  "claim_with en userId daemonId proof label now =
     bindM (getDeviceOwner en daemonId) (\<lambda>existing.
       if (case existing of None \<Rightarrow> False | Some e \<Rightarrow> dv_user_id e = userId)
       then (case existing of
               Some e \<Rightarrow> claim_answer en 200 daemonId (dv_label e) (dv_bound_at e)
             | None \<Rightarrow> refuse en 500 ''internal'')
       else if \<not> CLAIM_PROOF_RE proof
       then bindM (note_error en ''forbidden'' []) (\<lambda>_. refuse en 403 ''forbidden'')
       else bindM (consumeClaimProof en proof userId daemonId now) (\<lambda>spent.
         if \<not> spent then bindM (note_error en ''forbidden'' []) (\<lambda>_. refuse en 403 ''forbidden'')
         else if existing \<noteq> None then refuse en 409 ''already_bound''
         else bindM (getDaemon en daemonId) (\<lambda>daemon.
           if (case daemon of None \<Rightarrow> True | Some d \<Rightarrow> dm_kicked_at d \<noteq> None) then refuse en 404 ''bad_token''
           else bindM (bindDevice en \<lparr> dv_daemon_id = daemonId, dv_user_id = userId, dv_label = label, dv_bound_at = now \<rparr>) (\<lambda>ok.
             if \<not> ok then refuse en 409 ''already_bound'' else claim_answer en 201 daemonId label now))))"

definition claimDevice :: "venv \<Rightarrow> request \<Rightarrow> number \<Rightarrow> response handler" where
  "claimDevice en req now = with_identity en req now (\<lambda>i.
     bindM (read_body en req) (\<lambda>body.
       let daemonId = body_str body ''daemon_id''; proof = body_str body ''claim_proof'';
           given = body_field body ''label'';
           label = (if given = None \<or> given = Some JNull then None else normalizeDeviceLabel given) in
       if body = None \<or> \<not> DAEMON_ID_RE daemonId then refuse en 400 ''bad_token''
       else if given \<noteq> None \<and> given \<noteq> Some JNull \<and> label = None then refuse en 400 ''bad_token''
       else claim_with en (us_user_id (id_user i)) daemonId proof label now))"

definition readClaimProof :: "venv \<Rightarrow> request \<Rightarrow> number \<Rightarrow> response handler" where
  "readClaimProof en req now = with_identity en req now (\<lambda>i.
     let daemonId = (case query_get req ''daemon_id'' of None \<Rightarrow> [] | Some v \<Rightarrow> v) in
     if \<not> DAEMON_ID_RE daemonId then refuse en 400 ''bad_token''
     else bindM (getReadyProof en (us_user_id (id_user i)) daemonId now) (\<lambda>row.
       case row of
         None \<Rightarrow> answer en 200 (JObj [(''ok'', JBool True), (''ready'', JBool False)])
       | Some r \<Rightarrow> answer en 200 (JObj [(''ok'', JBool True), (''ready'', JBool True), (''claim_proof'', JStr (cp_proof r)),
           (''expires_in'', JNum (max 0 (js_round ((cp_expires_at r - now) / 1000))))])))"

definition releaseDevice :: "venv \<Rightarrow> string \<Rightarrow> request \<Rightarrow> number \<Rightarrow> response handler" where
  "releaseDevice en daemonId req now = with_identity en req now (\<lambda>i.
     if \<not> DAEMON_ID_RE daemonId then refuse en 400 ''bad_token''
     else bindM (unbindDevice en daemonId (us_user_id (id_user i))) (\<lambda>ok.
       if \<not> ok then refuse en 404 ''bad_token''
       else answer en 200 (JObj [(''ok'', JBool True), (''daemon_id'', JStr daemonId)])))"

section \<open>The vault: account-vault.ts\<close>

definition VAULT_MAX_BYTES :: nat where [simp]: "VAULT_MAX_BYTES = 65536"
definition VAULT_KDF_MAX :: nat where [simp]: "VAULT_KDF_MAX = 128"
definition VAULT_NONCE_MAX :: nat where [simp]: "VAULT_NONCE_MAX = 128"

text \<open>\<^verbatim>\<open>/^[A-Za-z0-9+/]+={0,2}$/\<close>\<close>

definition BASE64_RE :: "string \<Rightarrow> bool" where
  "BASE64_RE s \<longleftrightarrow>
     (let core = takeWhile (\<lambda>c. is_alnum c \<or> c \<in> set ''+/'') s; pad = drop (length core) s
      in core \<noteq> [] \<and> length pad \<le> 2 \<and> list_all (\<lambda>c. c = CHR ''='') pad)"

definition base64Field :: "json option \<Rightarrow> nat \<Rightarrow> string option" where
  "base64Field v cap =
     (case v of
        Some (JStr s) \<Rightarrow> if s = [] then None else if length s > cap * 2 then None else if BASE64_RE s then Some s else None
      | _ \<Rightarrow> None)"

definition opaqueField :: "json option \<Rightarrow> nat \<Rightarrow> string option" where
  "opaqueField v cap =
     (case v of
        Some (JStr s) \<Rightarrow> if s = [] then None else if utf16_length s > cap then None else if list_ex is_control s then None else Some s
      | _ \<Rightarrow> None)"

definition version_field :: "json option \<Rightarrow> nat option" where
  "version_field v =
     (case v of
        Some (JNum n) \<Rightarrow> if n < 0 \<or> n \<noteq> of_int \<lfloor>n\<rfloor> then None else Some (nat \<lfloor>n\<rfloor>)
      | _ \<Rightarrow> None)"

record vault_body =
  vb_ciphertext :: string
  vb_nonce :: string
  vb_kdf :: string
  vb_version :: nat

definition parseVaultBody :: "jobject option \<Rightarrow> vault_body option" where
  "parseVaultBody body =
     (case (base64Field (body_field body ''ciphertext'') VAULT_MAX_BYTES, base64Field (body_field body ''nonce'') VAULT_NONCE_MAX,
            opaqueField (body_field body ''kdf'') VAULT_KDF_MAX, version_field (body_field body ''version'')) of
        (Some c, Some n, Some k, Some v) \<Rightarrow> Some \<lparr> vb_ciphertext = c, vb_nonce = n, vb_kdf = k, vb_version = v \<rparr>
      | _ \<Rightarrow> None)"

definition utf8Length :: "string \<Rightarrow> nat" where
  "utf8Length s = length (text_bytes s)"

definition readVault :: "venv \<Rightarrow> identity \<Rightarrow> response handler" where
  "readVault en i =
     bindM (getVault en (us_user_id (id_user i))) (\<lambda>row.
       case row of
         None \<Rightarrow> refuse en 404 ''unbound''
       | Some r \<Rightarrow> answer en 200 (JObj [(''ok'', JBool True),
           (''vault'', JObj [(''ciphertext'', JStr (va_ciphertext r)), (''nonce'', JStr (va_nonce r)), (''kdf'', JStr (va_kdf r)),
                             (''version'', JNum (of_nat (va_version r))), (''updated_at'', JNum (va_updated_at r))])]))"

definition writeVault :: "venv \<Rightarrow> request \<Rightarrow> number \<Rightarrow> identity \<Rightarrow> response handler" where
  "writeVault en req now i =
     bindM (read_body en req) (\<lambda>raw.
       if utf8Length (body_str raw ''ciphertext'') > VAULT_MAX_BYTES then refuse en 413 ''too_large''
       else case parseVaultBody raw of
           None \<Rightarrow> refuse en 400 ''bad_token''
         | Some body \<Rightarrow>
             (let row = \<lparr> va_user_id = us_user_id (id_user i), va_ciphertext = vb_ciphertext body, va_nonce = vb_nonce body,
                          va_kdf = vb_kdf body, va_version = vb_version body + 1, va_updated_at = now \<rparr> in
              bindM (if vb_version body = 0 then insertVault en row else updateVault en row (vb_version body)) (\<lambda>won.
                if won then answer en 200 (JObj [(''ok'', JBool True), (''version'', JNum (of_nat (va_version row)))])
                else bindM (getVault en (us_user_id (id_user i))) (\<lambda>current.
                  answer en 409 (ok_false [(''code'', JStr ''conflict''),
                    (''version'', JNum (case current of None \<Rightarrow> 0 | Some c \<Rightarrow> of_nat (va_version c)))])))))"

definition vault_dispatch :: "venv \<Rightarrow> request \<Rightarrow> number \<Rightarrow> identity \<Rightarrow> response handler" where
  "vault_dispatch en req now i =
     (if rq_method req = ''GET'' then readVault en i
      else if rq_method req = ''PUT'' then writeVault en req now i
      else refuse en 405 ''bad_token'')"

definition handleVault :: "venv \<Rightarrow> request \<Rightarrow> number \<Rightarrow> response handler" where
  "handleVault en req now = with_identity en req now (vault_dispatch en req now)"

section \<open>Routing\<close>

definition ACCOUNT_PREFIX :: string where
  "ACCOUNT_PREFIX = ''/v2/account''"

text \<open>\<^verbatim>\<open>/^\/v2\/account\/devices\/([^/]+)$/\<close>\<close>

definition device_path :: "string \<Rightarrow> string option" where
  "device_path path =
     (let pre = ACCOUNT_PREFIX @ ''/devices/''; rest = drop (length pre) path in
      if take (length pre) path = pre \<and> rest \<noteq> [] \<and> CHR ''/'' \<notin> set rest then Some rest else None)"

text \<open>
  \<^verbatim>\<open>decodeURIComponent\<close>: percent escapes become bytes, a malformed one throws. That the bytes above 127
  form UTF-8 is not checked; the device identifier it is used for admits none of them.
\<close>

function decodeURIComponent :: "string \<Rightarrow> exn + string" where
  "decodeURIComponent s =
     (case s of
        [] \<Rightarrow> Inr []
      | c # cs \<Rightarrow>
          if c \<noteq> CHR ''%'' then (case decodeURIComponent cs of Inl e \<Rightarrow> Inl e | Inr t \<Rightarrow> Inr (c # t))
          else (case cs of
              h # l # r \<Rightarrow>
                (case (hex_value h, hex_value l) of
                   (Some m, Some n) \<Rightarrow>
                     (case decodeURIComponent r of Inl e \<Rightarrow> Inl e | Inr t \<Rightarrow> Inr (char_of (16 * m + n) # t))
                 | _ \<Rightarrow> Inl (Error ''URI malformed''))
            | _ \<Rightarrow> Inl (Error ''URI malformed'')))"
  by pat_completeness auto
termination
  by (relation "measure length") auto

declare decodeURIComponent.simps [simp del]

definition account_route :: "venv \<Rightarrow> request \<Rightarrow> number \<Rightarrow> response handler" where
  "account_route en req now =
     (let verb = rq_method req; here = (\<lambda>p. rq_path req = ACCOUNT_PREFIX @ p) in
      if here ''/state'' \<and> verb = ''GET'' then account_state en req now
      else if here ''/bootstrap'' \<and> verb = ''POST'' then bootstrap en req now
      else if here ''/login'' \<and> verb = ''POST'' then login en req now
      else if here ''/register'' \<and> verb = ''POST'' then register en req now
      else if here ''/logout'' \<and> verb = ''POST'' then logout en req now
      else if here ''/invite'' \<and> verb = ''GET'' then readInvite en req now
      else if here ''/invite/rotate'' \<and> verb = ''POST'' then rotateInvite en req now
      else if here ''/devices'' \<and> verb = ''GET'' then listDevices en req now
      else if here ''/devices'' \<and> verb = ''POST'' then claimDevice en req now
      else if here ''/claim-proof'' \<and> verb = ''GET'' then readClaimProof en req now
      else if here ''/vault'' then handleVault en req now
      else case device_path (rq_path req) of
          None \<Rightarrow> refuse en 404 ''unbound''
        | Some raw \<Rightarrow>
            if verb = ''DELETE'' then bindM (liftE (decodeURIComponent raw)) (\<lambda>daemonId. releaseDevice en daemonId req now)
            else refuse en 404 ''unbound'')"

definition is_account_path :: "string \<Rightarrow> bool" where
  "is_account_path path \<longleftrightarrow> path = ACCOUNT_PREFIX \<or> take (length ACCOUNT_PREFIX + 1) path = ACCOUNT_PREFIX @ ''/''"

text \<open>The route table inside \<^verbatim>\<open>try\<close>: an exception is counted and answered 500.\<close>

definition guarded_route :: "venv \<Rightarrow> request \<Rightarrow> number \<Rightarrow> response handler" where
  "guarded_route en req now = (\<lambda>w.
     case account_route en req now w of
       (Inr r, t) \<Rightarrow> (Inr r, t)
     | (Inl _, t) \<Rightarrow> bindM (note_error en ''internal'' []) (\<lambda>_. refuse en 500 ''internal'') t)"

definition handleAccount :: "venv \<Rightarrow> request \<Rightarrow> response option handler" where
  "handleAccount en req = bindM clock_now (\<lambda>now.
     if \<not> is_account_path (rq_path req) then ret None
     else bindM
       (if v_pepper en = [] then refuse en 500 ''internal''
        else if \<not> (if rq_method req = ''GET'' then isSameHostOrigin (v_parseUrl en) req
                    else requireSameHostBrowserOrigin (v_parseUrl en) req) then refuse en 403 ''forbidden''
        else bindM (limitM (allowAuthIP (clientIP req) now)) (\<lambda>ok.
          if \<not> ok then bindM (note_error en ''rate_limited'' []) (\<lambda>_. refuse en 429 ''rate_limited'')
          else guarded_route en req now)) (\<lambda>r. ret (Some r)))"

end
