(* ===== verification/Computers.thy ===== *)
theory Computers
  imports Account
begin

text \<open>
  The routes that speak for a computer, and those that lead a phone to one: enrolment
  (\<^verbatim>\<open>enroll.ts\<close>), key rotation (\<^verbatim>\<open>rekey.ts\<close>), release of a binding (\<^verbatim>\<open>device-release.ts\<close>), pairing codes
  (\<^verbatim>\<open>pair-intent.ts\<close>) and the operator's routes (\<^verbatim>\<open>admin.ts\<close>), all under
  \<^verbatim>\<open>workers/pairfob-origin/src\<close>. They call the database and, for everything a room decides, the room.
\<close>

section \<open>Enrolment\<close>

definition OPEN_ENROLL_MAX_DAEMONS :: nat where [simp]: "OPEN_ENROLL_MAX_DAEMONS = 1"
definition SELF_GRANT_WINDOW_MS :: number where [simp]: "SELF_GRANT_WINDOW_MS = 86400000"
definition SELF_GRANT_PER_IP :: nat where [simp]: "SELF_GRANT_PER_IP = 3"

definition note_enroll :: "venv \<Rightarrow> string \<Rightarrow> string \<Rightarrow> unit handler" where
  "note_enroll en result daemonId = observe (observeEnroll (metrics_of en) result daemonId)"

definition enrollSuccess :: "venv \<Rightarrow> string \<Rightarrow> string \<Rightarrow> string \<Rightarrow> response handler" where
  "enrollSuccess en daemonId reconnectToken grantId =
     answer en 200 (JObj [(''ok'', JBool True), (''v'', JNum PROTOCOL), (''daemon_id'', JStr daemonId),
       (''reconnect_token'', JStr reconnectToken), (''grant_id'', JStr grantId)])"

text \<open>The minted grant, a refusal because the address has used its share, or a failure.\<close>

datatype minted = Granted string | MintLimited | MintFailed

definition mintOpenGrant :: "venv \<Rightarrow> string \<Rightarrow> number \<Rightarrow> minted handler" where
  "mintOpenGrant en ip now =
     bindM (randomHex en 8) (\<lambda>h.
       let grantId = ''g_'' @ h in
       catch_ret
         (bindM (randomHex en 16) (\<lambda>secret. bindM (sha256Hex en secret) (\<lambda>grantHash.
            bindM (hmacSha256Hex en (v_pepper en) ip) (\<lambda>ipHash.
              bindM (insertSelfServeGrant en grantId grantHash ipHash OPEN_ENROLL_MAX_DAEMONS (Some ''open-enroll'') now
                       (now - SELF_GRANT_WINDOW_MS) SELF_GRANT_PER_IP)
                (\<lambda>claimed. ret (if claimed then Granted grantId else MintLimited))))))
         MintFailed)"

definition abortRoomEnroll :: "venv \<Rightarrow> string \<Rightarrow> string \<Rightarrow> string \<Rightarrow> unit handler" where
  "abortRoomEnroll en daemonId reconnectHash grantId =
     bindM (room_agrees en daemonId (body_request ''/internal/abort-enroll''
       [(''reconnect_hash'', reconnectHash), (''grant_id'', grantId)])) (\<lambda>_. ret ())"

definition enrollRoom :: "venv \<Rightarrow> string \<Rightarrow> string \<Rightarrow> string \<Rightarrow> bool handler" where
  "enrollRoom en daemonId reconnectHash grantId =
     room_agrees en daemonId (body_request ''/internal/enroll''
       [(''reconnect_hash'', reconnectHash), (''grant_id'', grantId), (''daemon_id'', daemonId)])"

definition verifyRoomEnroll :: "venv \<Rightarrow> string \<Rightarrow> string \<Rightarrow> string \<Rightarrow> bool handler" where
  "verifyRoomEnroll en daemonId reconnectHash grantId =
     room_agrees en daemonId (body_request ''/internal/verify-enroll''
       [(''reconnect_hash'', reconnectHash), (''grant_id'', grantId)])"

text \<open>A computer that is already listed: it is let in when its room holds its key, or can still take it.\<close>

definition enroll_again :: "venv \<Rightarrow> daemon_row \<Rightarrow> string \<Rightarrow> string \<Rightarrow> string \<Rightarrow> response handler" where
  "enroll_again en row daemonId reconnectToken reconnectHash =
     bindM (if dm_kicked_at row = None then verifyRoomEnroll en daemonId reconnectHash (dm_grant_id row) else ret False) (\<lambda>verified.
       bindM (if \<not> verified \<and> dm_kicked_at row = None then enrollRoom en daemonId reconnectHash (dm_grant_id row)
              else ret verified) (\<lambda>recovered.
         if \<not> recovered
         then bindM (note_enroll en ''bad_token'' daemonId) (\<lambda>_. refuse en 400 ''bad_token'')
         else bindM (note_enroll en ''ok_retry'' daemonId) (\<lambda>_.
           enrollSuccess en daemonId reconnectToken (dm_grant_id row))))"

text \<open>A new computer with a grant of its own: listed first, then its room; a room that refuses undoes the listing.\<close>

definition enroll_listed :: "venv \<Rightarrow> string \<Rightarrow> string \<Rightarrow> string \<Rightarrow> string \<Rightarrow> response handler" where
  "enroll_listed en daemonId reconnectToken reconnectHash grantId =
     bindM (enrollRoom en daemonId reconnectHash grantId) (\<lambda>ok.
       if \<not> ok
       then bindM (abortRoomEnroll en daemonId reconnectHash grantId) (\<lambda>_.
         bindM (compensateEnroll en grantId daemonId) (\<lambda>_.
           bindM (note_enroll en ''internal'' daemonId) (\<lambda>_. refuse en 500 ''internal'')))
       else bindM (note_enroll en ''ok'' daemonId) (\<lambda>_. enrollSuccess en daemonId reconnectToken grantId))"

definition enroll_missed :: "venv \<Rightarrow> grant_row \<Rightarrow> string \<Rightarrow> number \<Rightarrow> response handler" where
  "enroll_missed en grant daemonId now =
     bindM (getGrantById en (gr_grant_id grant)) (\<lambda>again.
       let code = classifyCasMiss (Some (case again of None \<Rightarrow> grant | Some g \<Rightarrow> g)) now in
       bindM (note_enroll en code daemonId) (\<lambda>_.
         if code = ''rate_limited''
         then bindM (note_error en ''rate_limited'' daemonId) (\<lambda>_. refuse en 429 ''rate_limited'')
         else refuse en 500 ''internal''))"

definition enroll_new :: "venv \<Rightarrow> string \<Rightarrow> string \<Rightarrow> string \<Rightarrow> string \<Rightarrow> number \<Rightarrow> response handler" where
  "enroll_new en ip daemonId reconnectToken reconnectHash now =
     bindM (mintOpenGrant en ip now) (\<lambda>m.
       case m of
         MintLimited \<Rightarrow> bindM (note_enroll en ''rate_limited'' daemonId) (\<lambda>_.
           bindM (note_error en ''rate_limited'' daemonId) (\<lambda>_. refuse en 429 ''rate_limited''))
       | MintFailed \<Rightarrow> bindM (note_enroll en ''internal'' daemonId) (\<lambda>_. refuse en 500 ''internal'')
       | Granted grantId \<Rightarrow>
           bindM (getGrantById en grantId) (\<lambda>found.
             case found of
               None \<Rightarrow> bindM (note_enroll en ''internal'' daemonId) (\<lambda>_. refuse en 500 ''internal'')
             | Some grant \<Rightarrow>
                 bindM (hmacSha256Hex en (v_pepper en) ip) (\<lambda>ipHash.
                   bindM (catch_ret (bindM (enrollDaemonBatch en daemonId (gr_grant_id grant) now ipHash) (\<lambda>n. ret (Some n))) None) (\<lambda>changes.
                     case changes of
                       None \<Rightarrow> bindM (note_enroll en ''internal'' daemonId) (\<lambda>_. refuse en 500 ''internal'')
                     | Some n \<Rightarrow>
                         if n \<noteq> 1 then enroll_missed en grant daemonId now
                         else enroll_listed en daemonId reconnectToken reconnectHash (gr_grant_id grant)))))"

definition wants_v2 :: "jobject option \<Rightarrow> bool" where
  "wants_v2 body \<longleftrightarrow> body_field body ''v'' = Some (JNum PROTOCOL)"

definition handleEnroll :: "venv \<Rightarrow> request \<Rightarrow> response handler" where
  "handleEnroll en req = bindM clock_now (\<lambda>now.
     if rq_method req \<noteq> ''POST'' then refuse en 405 ''bad_token''
     else if hasBrowserOrigin req then refuse en 403 ''forbidden''
     else if v_pepper en = [] then refuse en 500 ''internal''
     else bindM (limitM (allowEnrollIP (clientIP req) now)) (\<lambda>allowed.
       if \<not> allowed then bindM (note_enroll en ''rate_limited'' []) (\<lambda>_.
         bindM (note_error en ''rate_limited'' []) (\<lambda>_. refuse en 429 ''rate_limited''))
       else bindM (read_body en req) (\<lambda>body.
         let daemonId = body_str body ''daemon_id''; reconnectToken = body_str body ''reconnect_token'' in
         if body = None \<or> \<not> wants_v2 body \<or> \<not> DAEMON_ID_RE daemonId \<or> \<not> RECONNECT_TOKEN_RE reconnectToken
         then bindM (note_enroll en ''bad_token'' daemonId) (\<lambda>_. refuse en 400 ''bad_token'')
         else bindM (sha256Hex en reconnectToken) (\<lambda>reconnectHash.
           bindM (getDaemon en daemonId) (\<lambda>existing.
             case existing of
               Some row \<Rightarrow> enroll_again en row daemonId reconnectToken reconnectHash
             | None \<Rightarrow> enroll_new en (clientIP req) daemonId reconnectToken reconnectHash now)))))"

section \<open>Key rotation\<close>

text \<open>How the room answered: it agreed, it refused the old key, or it could not be reached.\<close>

definition rekey_room :: "venv \<Rightarrow> string \<Rightarrow> string \<Rightarrow> string \<Rightarrow> (bool \<times> bool) handler" where
  "rekey_room en daemonId oldHash newHash =
     catch_ret (bindM (room_fetch en daemonId (body_request ''/internal/rekey'' [(''old_hash'', oldHash), (''new_hash'', newHash)]))
       (\<lambda>res. ret (response_ok res, rs_status res = 400))) (False, False)"

definition handleRekey :: "venv \<Rightarrow> request \<Rightarrow> response handler" where
  "handleRekey en req =
     (if rq_method req \<noteq> ''POST'' then refuse en 405 ''bad_token''
      else if hasBrowserOrigin req then refuse en 403 ''forbidden''
      else bindM (read_body en req) (\<lambda>body.
        let daemonId = body_str body ''daemon_id''; oldToken = body_str body ''reconnect_token'';
            newToken = body_str body ''new_reconnect_token'';
            bad = bindM (note_error en ''bad_token'' daemonId) (\<lambda>_. refuse en 400 ''bad_token'') in
        if body = None \<or> \<not> wants_v2 body \<or> \<not> DAEMON_ID_RE daemonId \<or> \<not> RECONNECT_TOKEN_RE oldToken
           \<or> \<not> RECONNECT_TOKEN_RE newToken \<or> oldToken = newToken then bad
        else bindM (getDaemon en daemonId) (\<lambda>row.
          if (case row of None \<Rightarrow> True | Some r \<Rightarrow> dm_kicked_at r \<noteq> None) then bad
          else bindM (sha256Hex en oldToken) (\<lambda>oldHash. bindM (sha256Hex en newToken) (\<lambda>newHash.
            bindM (rekey_room en daemonId oldHash newHash) (\<lambda>(roomOk, roomRejected).
              if \<not> roomOk
              then (let code = (if roomRejected then ''bad_token'' else ''internal'') in
                    bindM (note_error en code daemonId) (\<lambda>_. refuse en (if roomRejected then 400 else 500) code))
              else answer en 200 (JObj [(''ok'', JBool True), (''v'', JNum PROTOCOL), (''daemon_id'', JStr daemonId),
                     (''reconnect_token'', JStr newToken)])))))))"

section \<open>Release of a binding\<close>

definition verifyToken :: "venv \<Rightarrow> string \<Rightarrow> string \<Rightarrow> string \<Rightarrow> bool handler" where
  "verifyToken en daemonId reconnectHash grantId =
     room_agrees en daemonId (body_request ''/internal/verify-enroll''
       [(''reconnect_hash'', reconnectHash), (''grant_id'', grantId)])"

definition release_owner :: "venv \<Rightarrow> string \<Rightarrow> number \<Rightarrow> response handler" where
  "release_owner en daemonId now =
     bindM (getDeviceOwner en daemonId) (\<lambda>owner.
       bindM (case owner of None \<Rightarrow> ret False | Some r \<Rightarrow> unbindDevice en daemonId (dv_user_id r)) (\<lambda>released.
         answer en 200 (JObj [(''ok'', JBool True), (''v'', JNum PROTOCOL), (''daemon_id'', JStr daemonId),
           (''released'', JBool released), (''at'', JNum now)])))"

definition handleDeviceRelease :: "venv \<Rightarrow> request \<Rightarrow> response handler" where
  "handleDeviceRelease en req = bindM clock_now (\<lambda>now.
     if rq_method req \<noteq> ''POST'' then refuse en 405 ''bad_token''
     else if hasBrowserOrigin req then refuse en 403 ''forbidden''
     else bindM (read_body en req) (\<lambda>body.
       let daemonId = body_str body ''daemon_id''; token = body_str body ''reconnect_token'';
           bad = bindM (note_error en ''bad_token'' daemonId) (\<lambda>_. refuse en 400 ''bad_token'') in
       if body = None \<or> \<not> wants_v2 body \<or> \<not> DAEMON_ID_RE daemonId \<or> \<not> RECONNECT_TOKEN_RE token then bad
       else bindM (getDaemon en daemonId) (\<lambda>row.
         case row of
           None \<Rightarrow> bad
         | Some r \<Rightarrow>
             if dm_kicked_at r \<noteq> None then bad
             else bindM (sha256Hex en token) (\<lambda>h.
               bindM (verifyToken en daemonId h (dm_grant_id r)) (\<lambda>ok.
                 if \<not> ok then bad else release_owner en daemonId now)))))"

section \<open>Pairing codes\<close>

definition CLAIM_PROOF_TTL_MS :: number where [simp]: "CLAIM_PROOF_TTL_MS = 600000"

definition note_intent :: "venv \<Rightarrow> string \<Rightarrow> string \<Rightarrow> unit handler" where
  "note_intent en result daemonId = observe (observeIntent (metrics_of en) result daemonId)"

text \<open>A miss waits until its time is up; only the \<^verbatim>\<open>await\<close> is visible here.\<close>

definition padMiss :: "venv \<Rightarrow> unit handler" where
  "padMiss en = bindM (pause en) (\<lambda>_. ret ())"

definition intent_miss :: "venv \<Rightarrow> string \<Rightarrow> response handler" where
  "intent_miss en daemonId =
     bindM (padMiss en) (\<lambda>_. bindM (note_intent en ''unpaired'' daemonId) (\<lambda>_.
       ret (unpairedJson (buildOf (v_build en)) (noStore []))))"

text \<open>\<^verbatim>\<open>j.ok\<close>: any true value will do.\<close>

definition js_true :: "json option \<Rightarrow> bool" where
  "js_true v = (case v of Some (JBool b) \<Rightarrow> b | Some (JNum n) \<Rightarrow> n \<noteq> 0 | Some (JStr s) \<Rightarrow> s \<noteq> []
     | Some (JArr _) \<Rightarrow> True | Some (JObj _) \<Rightarrow> True | _ \<Rightarrow> False)"

definition found_in :: "exn + response \<Rightarrow> (string \<times> string) option" where
  "found_in r =
     (case r of
        Inl _ \<Rightarrow> None
      | Inr res \<Rightarrow>
          if \<not> response_ok res then None
          else case rs_body res of
              Some (JObj j) \<Rightarrow>
                if js_true (jget j ''ok'') \<and> jstr j ''daemon_id'' \<noteq> [] \<and> jstr j ''pair_ref'' \<noteq> []
                then Some (jstr j ''daemon_id'', jstr j ''pair_ref'') else None
            | _ \<Rightarrow> None)"

definition lookupIndex :: "venv \<Rightarrow> string \<Rightarrow> (string \<times> string) option handler" where
  "lookupIndex en loc = bindM (pause en) (\<lambda>_. (\<lambda>w.
     case stub_fetch (v_indexDown en) (w_clock w) loc ''/lookup'' [(''pair_loc'', JStr loc)] (w_index w) of
       (r, ns) \<Rightarrow> (Inr (found_in r), w\<lparr>w_index := ns\<rparr>)))"

definition ticket_of :: "response \<Rightarrow> (string \<times> string) option" where
  "ticket_of res =
     (if \<not> response_ok res then None
      else case rs_body res of
          Some (JObj j) \<Rightarrow>
            if js_true (jget j ''ok'') \<and> jstr j ''pair_ticket'' \<noteq> [] \<and> jstr j ''pair_ref'' \<noteq> []
            then Some (jstr j ''pair_ticket'', jstr j ''pair_ref'') else None
        | _ \<Rightarrow> None)"

definition intent_issueTicket :: "venv \<Rightarrow> string \<Rightarrow> string \<Rightarrow> (string \<times> string) option handler" where
  "intent_issueTicket en daemonId loc =
     catch_ret (bindM (room_fetch en daemonId (body_request ''/internal/issue-ticket'' [(''pair_loc'', loc)]))
       (\<lambda>res. ret (ticket_of res))) None"

definition pending_proof :: "venv \<Rightarrow> string \<Rightarrow> string \<Rightarrow> number \<Rightarrow> unit handler" where
  "pending_proof en userId daemonId now =
     bindM (newClaimProof en) (\<lambda>p. createClaimProof en
       \<lparr> cp_proof = p, cp_user_id = userId, cp_daemon_id = daemonId, cp_created_at = now,
         cp_expires_at = now + CLAIM_PROOF_TTL_MS, cp_ready_at = 0, cp_route_id = [] \<rparr>)"

text \<open>A code that resolved: the device of someone else reads like a code that resolves to nothing.\<close>

definition intent_found :: "venv \<Rightarrow> request \<Rightarrow> string \<Rightarrow> string \<Rightarrow> number \<Rightarrow> response handler" where
  "intent_found en req loc daemonId now =
     bindM (resolveIdentity en req now) (\<lambda>who.
       bindM (getDeviceOwner en daemonId) (\<lambda>owner.
         let user = map_option (\<lambda>i. us_user_id (id_user i)) who in
         if (case owner of None \<Rightarrow> False | Some r \<Rightarrow> Some (dv_user_id r) \<noteq> user) then intent_miss en []
         else bindM (intent_issueTicket en daemonId loc) (\<lambda>ticket.
           case ticket of
             None \<Rightarrow> intent_miss en daemonId
           | Some (pair_ticket, ref) \<Rightarrow>
               bindM (case (user, owner) of (Some u, None) \<Rightarrow> pending_proof en u daemonId now | _ \<Rightarrow> ret ()) (\<lambda>_.
                 bindM (note_intent en ''ok'' daemonId) (\<lambda>_.
                   answer en 200 (JObj [(''ok'', JBool True), (''v'', JNum PROTOCOL), (''daemon_id'', JStr daemonId),
                     (''pair_ref'', JStr ref), (''pair_ticket'', JStr pair_ticket), (''expires_in'', JNum 15)]))))))"

definition handlePairIntent :: "venv \<Rightarrow> request \<Rightarrow> response handler" where
  "handlePairIntent en req = bindM clock_now (\<lambda>now.
     if rq_method req \<noteq> ''POST'' then refuse en 405 ''bad_token''
     else if \<not> requireSameHostBrowserOrigin (v_parseUrl en) req then refuse en 403 ''forbidden''
     else bindM (limitM (allowIntentIP (clientIP req) now)) (\<lambda>allowed.
       if \<not> allowed then bindM (note_intent en ''rate_limited'' []) (\<lambda>_.
         bindM (note_error en ''rate_limited'' []) (\<lambda>_. refuse en 429 ''rate_limited''))
       else bindM (read_body en req) (\<lambda>body.
         case (if wants_v2 body then normalizeLoc (body_str body ''pair_loc'') else None) of
           None \<Rightarrow> intent_miss en []
         | Some loc \<Rightarrow>
             bindM (lookupIndex en loc) (\<lambda>found.
               case found of
                 None \<Rightarrow> intent_miss en []
               | Some (daemonId, _) \<Rightarrow> intent_found en req loc daemonId now))))"

section \<open>The operator\<close>

definition unauthorized :: "venv \<Rightarrow> response handler" where
  "unauthorized en = refuse en 401 ''forbidden''"

definition allowAdmin :: "venv \<Rightarrow> request \<Rightarrow> bool" where
  "allowAdmin en req =
     (if v_operatorToken en = [] then False
      else case bearerToken req of None \<Rightarrow> False | Some tok \<Rightarrow> timingSafeEqual tok (v_operatorToken en))"

record live_sample =
  ls_sockets :: number
  ls_rooms :: nat
  ls_fwdBytes :: number
  ls_alarmLateMaxMs :: number

definition add_stats :: "response \<Rightarrow> live_sample \<Rightarrow> live_sample" where
  "add_stats res acc =
     (case rs_body res of
        Some (JObj j) \<Rightarrow>
          \<lparr> ls_sockets = ls_sockets acc + jnum_or j ''sockets'' 0, ls_rooms = ls_rooms acc + 1,
            ls_fwdBytes = ls_fwdBytes acc + jnum_or j ''fwd_bytes'' 0,
            ls_alarmLateMaxMs = max (ls_alarmLateMaxMs acc) (jnum_or j ''alarm_late_max_ms'' 0) \<rparr>
      | _ \<Rightarrow> acc)"

fun sample_rooms :: "venv \<Rightarrow> string list \<Rightarrow> live_sample \<Rightarrow> live_sample handler" where
  "sample_rooms en [] acc = ret acc"
| "sample_rooms en (daemonId # ids) acc =
     bindM (catch_ret (bindM (room_fetch en daemonId (bare_request ''GET'' ''/internal/stats''))
              (\<lambda>res. ret (if response_ok res then add_stats res acc else acc))) acc) (\<lambda>acc'.
       sample_rooms en ids acc')"

definition sampleLiveSockets :: "venv \<Rightarrow> live_sample handler" where
  "sampleLiveSockets en =
     bindM (listLiveDaemonIds en 32) (\<lambda>ids.
       sample_rooms en ids \<lparr> ls_sockets = 0, ls_rooms = 0, ls_fwdBytes = 0, ls_alarmLateMaxMs = 0 \<rparr>)"

text \<open>\<^verbatim>\<open>/^\/v2\/admin\/daemons\/([^/]+)\/kick$/\<close>\<close>

definition kick_path :: "string \<Rightarrow> string option" where
  "kick_path path =
     (let pre = ''/v2/admin/daemons/''; post = ''/kick''; rest = drop (length pre) path;
          mid = take (length rest - length post) rest in
      if take (length pre) path = pre \<and> length post < length rest \<and> drop (length rest - length post) rest = post \<and> CHR ''/'' \<notin> set mid
      then Some mid else None)"

definition kick_room :: "venv \<Rightarrow> string \<Rightarrow> bool handler" where
  "kick_room en daemonId = room_agrees en daemonId (bare_request ''POST'' ''/internal/kick'')"

definition admin_kick :: "venv \<Rightarrow> string \<Rightarrow> number \<Rightarrow> response handler" where
  "admin_kick en daemonId now =
     (if \<not> DAEMON_ID_RE daemonId then refuse en 400 ''bad_token''
      else bindM (getDaemon en daemonId) (\<lambda>existing.
        if existing = None then refuse en 404 ''bad_token''
        else bindM (kick_room en daemonId) (\<lambda>ok.
          if \<not> ok then refuse en 503 ''internal''
          else bindM (kickDaemonRow en daemonId now) (\<lambda>result.
            case result of
              None \<Rightarrow> refuse en 404 ''bad_token''
            | Some (kicked, grantId) \<Rightarrow>
                answer en 200 (JObj [(''ok'', JBool True), (''daemon_id'', JStr daemonId), (''kicked'', JBool kicked),
                  (''grant_id'', JStr grantId)])))))"

definition admin_stats :: "venv \<Rightarrow> response handler" where
  "admin_stats en =
     bindM (sampleLiveSockets en) (\<lambda>s. lookM (\<lambda>w.
       answer en 200 (adminStatsBody (w_telemetry w) (Some (ls_sockets s))
         [(''rooms_sampled'', JNum (of_nat (ls_rooms s))), (''fwd_bytes'', JNum (ls_fwdBytes s)),
          (''alarm_late_max_ms'', JNum (ls_alarmLateMaxMs s))])))"

definition handleAdmin :: "venv \<Rightarrow> request \<Rightarrow> response option handler" where
  "handleAdmin en req = bindM clock_now (\<lambda>now.
     if take 10 (rq_path req) \<noteq> ''/v2/admin/'' then ret None
     else bindM
       (if v_operatorToken en = [] then refuse en 503 ''internal''
        else if \<not> allowAdmin en req then unauthorized en
        else if rq_path req = ''/v2/admin/stats'' \<and> rq_method req = ''GET'' then admin_stats en
        else case kick_path (rq_path req) of
            None \<Rightarrow> refuse en 404 ''unbound''
          | Some raw \<Rightarrow>
              if rq_method req = ''POST'' then bindM (liftE (decodeURIComponent raw)) (\<lambda>daemonId. admin_kick en daemonId now)
              else refuse en 404 ''unbound'') (\<lambda>r. ret (Some r)))"

end
