(* ===== verification/Worker.thy ===== *)
theory Worker
  imports Computers
begin

text \<open>
  The entry of the worker, \<^verbatim>\<open>workers/pairfob-origin/src/worker.ts\<close>: the route table of \<^verbatim>\<open>handleFetch\<close>, the
  WebSocket route that decides who reaches a room, the redirects and the static pages, with the
  client beacons of \<^verbatim>\<open>events.ts\<close>. At the end, the world as a step relation: requests, events of
  rooms and time.
\<close>

section \<open>Beacons: events.ts\<close>

definition BEACON_EVENTS :: "string list" where
  "BEACON_EVENTS = [''pwa_boot'', ''pwa_pairing_start'', ''pwa_pairing_result'', ''pwa_resume'', ''pwa_live'', ''pwa_disconnect'',
     ''pwa_terminal'', ''pwa_agent_trace'', ''pwa_settings'', ''pwa_p2p'', ''pwa_add_computer'', ''site_copy'']"

definition MAX_EVENTS :: nat where [simp]: "MAX_EVENTS = 8"

definition RESULT_RE :: "string \<Rightarrow> bool" where
  "RESULT_RE s \<longleftrightarrow>
     (case s of [] \<Rightarrow> False | c # cs \<Rightarrow> (let n = of_char c :: nat in 97 \<le> n \<and> n \<le> 122) \<and> length cs \<le> 47
        \<and> list_all (\<lambda>d. name_char d \<or> d = CHR ''_'') cs)"

definition starts_with :: "string \<Rightarrow> string \<Rightarrow> bool" where
  "starts_with p s \<longleftrightarrow> take (length p) s = p"

definition SECRET_PREFIX :: "string \<Rightarrow> bool" where
  "SECRET_PREFIX s = list_ex (\<lambda>p. starts_with p s) [''jg_'', ''rt_'', ''it_'', ''d_'', ''g_'']"

definition tokenField :: "json option \<Rightarrow> string" where
  "tokenField v =
     (case v of Some (JStr s) \<Rightarrow> if \<not> RESULT_RE s \<or> SECRET_PREFIX s then [] else s | _ \<Rightarrow> [])"

definition pageClass :: "string \<Rightarrow> string option" where
  "pageClass path =
     (if path = ''/'' \<or> path = ''/index.html'' then Some ''home''
      else if path = ''/zh'' \<or> path = ''/zh/'' \<or> path = ''/zh/index.html'' then Some ''home_zh''
      else if path = ''/pair'' \<or> path = ''/pair/'' \<or> path = ''/pair.html'' then Some ''pair''
      else if path = ''/doc'' \<or> starts_with ''/doc/'' path then Some ''docs''
      else if path = ''/install.sh'' then Some ''install''
      else if starts_with ''/dl/'' path then Some ''download''
      else None)"

definition observeDocument :: "venv \<Rightarrow> string \<Rightarrow> string \<Rightarrow> nat \<Rightarrow> unit handler" where
  "observeDocument en verb path status =
     (if verb \<noteq> ''GET'' then ret ()
      else if status < 200 \<or> status \<ge> 300 then ret ()
      else case pageClass path of None \<Rightarrow> ret () | Some c \<Rightarrow> observe (observePage (metrics_of en) c))"

fun accept_events :: "venv \<Rightarrow> json list \<Rightarrow> nat \<Rightarrow> nat handler" where
  "accept_events en [] accepted = ret accepted"
| "accept_events en (item # items) accepted =
     (case item of
        JObj ob \<Rightarrow>
          (let name = jstr ob ''name'' in
           if name \<notin> set BEACON_EVENTS then accept_events en items accepted
           else bindM (observe (observeBeacon (metrics_of en) name (tokenField (jget ob ''result'')) (tokenField (jget ob ''extra''))))
             (\<lambda>_. accept_events en items (Suc accepted)))
      | _ \<Rightarrow> accept_events en items accepted)"

definition handleEvents :: "venv \<Rightarrow> request \<Rightarrow> response handler" where
  "handleEvents en req = bindM clock_now (\<lambda>now.
     if rq_method req \<noteq> ''POST'' then refuse en 405 ''bad_token''
     else if \<not> requireSameHostBrowserOrigin (v_parseUrl en) req then refuse en 403 ''forbidden''
     else bindM (limitM (allowEventsIP (clientIP req) now)) (\<lambda>ok.
       if \<not> ok then bindM (note_error en ''rate_limited'' []) (\<lambda>_. refuse en 429 ''rate_limited'')
       else bindM (read_body en req) (\<lambda>body.
         case body_field body ''events'' of
           Some (JArr raw) \<Rightarrow>
             if \<not> wants_v2 body \<or> raw = [] \<or> length raw > MAX_EVENTS then refuse en 400 ''bad_token''
             else bindM (accept_events en raw 0) (\<lambda>accepted.
               if accepted = 0 then refuse en 400 ''bad_token''
               else answer en 200 (JObj [(''ok'', JBool True), (''accepted'', JNum (of_nat accepted))]))
         | _ \<Rightarrow> refuse en 400 ''bad_token'')))"

section \<open>Redirects and static pages\<close>

definition movedTo :: "string \<Rightarrow> response" where
  "movedTo location =
     \<lparr> rs_status = 301, rs_headers = headers_set_all [(''Location'', location), (''Cache-Control'', ''max-age=3600'')] [],
       rs_body = None, rs_socket = False \<rparr>"

definition hostname :: "request \<Rightarrow> string" where
  "hostname req = takeWhile (\<lambda>c. c \<noteq> CHR '':'') (rq_host req)"

definition apexRedirect :: "venv \<Rightarrow> request \<Rightarrow> response option" where
  "apexRedirect en req =
     (if hostname req \<noteq> ''www.pairfob.com'' then None
      else if rq_method req \<noteq> ''GET'' \<and> rq_method req \<noteq> ''HEAD'' then None
      else if starts_with ''/v1/'' (rq_path req) \<or> starts_with ''/v2/'' (rq_path req) \<or> starts_with ''/api/'' (rq_path req) then None
      else Some (movedTo (v_href en ''pairfob.com'' req)))"

definition legacyEnRedirect :: "string \<Rightarrow> string \<Rightarrow> response option" where
  "legacyEnRedirect verb path =
     (if verb \<noteq> ''GET'' \<and> verb \<noteq> ''HEAD'' then None
      else if path = ''/en'' \<or> path = ''/en/'' \<or> path = ''/en/index.html'' then Some (movedTo ''/'')
      else if path = ''/doc/en'' \<or> path = ''/doc/en/'' then Some (movedTo ''/doc/'')
      else if starts_with ''/doc/en/'' path then Some (movedTo (''/doc/'' @ drop (length ''/doc/en/'') path))
      else None)"

definition isAltMarketingPath :: "string \<Rightarrow> bool" where
  "isAltMarketingPath path \<longleftrightarrow> path = ''/zh'' \<or> path = ''/zh/'' \<or> path = ''/zh/index.html''"

definition isPairAppPath :: "string \<Rightarrow> bool" where
  "isPairAppPath path \<longleftrightarrow> path = ''/pair'' \<or> path = ''/pair/'' \<or> path = ''/pair.html''"

definition isMarketingDocument :: "string \<Rightarrow> bool" where
  "isMarketingDocument path \<longleftrightarrow> path = ''/'' \<or> path = ''/index.html'' \<or> isAltMarketingPath path"

definition isDocPath :: "string \<Rightarrow> bool" where
  "isDocPath path \<longleftrightarrow> path = ''/doc'' \<or> starts_with ''/doc/'' path"

text \<open>The language: the cookie when it is set to one of the two, else the first of the two the browser names.\<close>

datatype lang = En | Zh

definition lang_cookie :: "string \<Rightarrow> lang option" where
  "lang_cookie cookie =
     (case split_on (CHR '';'') cookie of
        [] \<Rightarrow> None
      | p # ps \<Rightarrow>
          (case List.find (\<lambda>c. c = ''pairfob_lang=en'' \<or> c = ''pairfob_lang=zh'') (p # map (dropWhile is_js_space) ps) of
             None \<Rightarrow> None
           | Some c \<Rightarrow> Some (if c = ''pairfob_lang=en'' then En else Zh)))"

text \<open>\<^verbatim>\<open>s.search(/\bw\b/)\<close>: where a word of two letters first stands alone.\<close>

fun word_search :: "string \<Rightarrow> char option \<Rightarrow> nat \<Rightarrow> string \<Rightarrow> nat option" where
  "word_search u prev i [] = None"
| "word_search u prev i (c # cs) =
     (if take (length u) (c # cs) = u \<and> (case prev of None \<Rightarrow> True | Some p \<Rightarrow> \<not> is_word p)
         \<and> (case drop (length u) (c # cs) of [] \<Rightarrow> True | d # _ \<Rightarrow> \<not> is_word d)
      then Some i else word_search u (Some c) (Suc i) cs)"

definition requestLang :: "request \<Rightarrow> lang" where
  "requestLang req =
     (case lang_cookie (header_or req ''Cookie'' []) of
        Some l \<Rightarrow> l
      | None \<Rightarrow>
          (let accept = lower (header_or req ''Accept-Language'' []) in
           case (word_search ''zh'' None 0 accept, word_search ''en'' None 0 accept) of
             (Some _, None) \<Rightarrow> Zh
           | (Some z, Some e) \<Rightarrow> if z < e then Zh else En
           | _ \<Rightarrow> En))"

definition ZH_DESCRIPTION :: string where
  "ZH_DESCRIPTION = map char_of [0xE5, 0xAE, 0x89, 0xE5, 0x85, 0xA8, 0xE5, 0x9C, 0xB0, 0xE4, 0xBB, 0x8E, 0xE6, 0x89, 0x8B, 0xE6,
     0x9C, 0xBA, 0xE6, 0x8E, 0xA7, 0xE5, 0x88, 0xB6, 0xE7, 0x94, 0xB5, 0xE8, 0x84, 0x91, 0xE4, 0xB8, 0x8A, 0xE7, 0x9A, 0x84 :: nat] @ '' agent''"

definition localizeManifest :: "request \<Rightarrow> response \<Rightarrow> response" where
  "localizeManifest req res =
     (if \<not> response_ok res then res
      else case rs_body res of
          Some (JObj data) \<Rightarrow>
            \<lparr> rs_status = 200,
              rs_headers = headers_set_all [(''Content-Type'', ''application/manifest+json''), (''Cache-Control'', ''no-store'')] (rs_headers res),
              rs_body = Some (JObj (AList.update ''description''
                (JStr (if requestLang req = Zh then ZH_DESCRIPTION else ''Control agents on your computer from your phone.'')) data)),
              rs_socket = False \<rparr>
        | _ \<Rightarrow> res)"

definition CSP_SITE :: string where
  "CSP_SITE = ''default-src 'self'; connect-src 'self'; img-src 'self' data:; style-src 'self' https://fonts.googleapis.com; font-src 'self' https://fonts.gstatic.com; script-src 'self'; worker-src 'self'; frame-ancestors 'none'; base-uri 'self'; form-action 'self'; object-src 'none'; upgrade-insecure-requests;''"

definition staticAssetHeaders :: "string \<Rightarrow> bool \<Rightarrow> string option \<Rightarrow> (string \<times> string) list" where
  "staticAssetHeaders path ok contentType =
     (if \<not> ok then []
      else if isPairAppPath path
      then [(''Content-Type'', ''text/html; charset=utf-8''), (''Cache-Control'', ''no-store, no-transform'')]
      else if isMarketingDocument path \<or> isDocPath path
      then [(''Content-Security-Policy'', CSP_SITE)]
           @ (if isAltMarketingPath path then [(''Content-Type'', ''text/html; charset=utf-8'')] else [])
           @ (if isMarketingDocument path \<or> (case contentType of None \<Rightarrow> False | Some t \<Rightarrow> contains ''text/html'' (lower t))
              then [(''Cache-Control'', ''public, max-age=0, must-revalidate, no-transform'')] else [])
      else if path = ''/manifest.webmanifest''
      then [(''Content-Type'', ''application/manifest+json''), (''Cache-Control'', ''no-store'')]
      else if path = ''/install.sh''
      then [(''Content-Type'', ''text/plain; charset=utf-8''), (''Cache-Control'', ''max-age=300'')]
      else if path = ''/dl/VERSION'' \<or> path = ''/dl/SHA256SUMS''
      then [(''Content-Type'', ''text/plain; charset=utf-8''), (''Cache-Control'', ''no-store'')]
      else if starts_with ''/dl/'' path then [(''Cache-Control'', ''public, max-age=3600'')]
      else if starts_with ''/assets/'' path then [(''Cache-Control'', ''public, max-age=31536000, immutable'')]
      else [])"

definition followDocAsset :: "venv \<Rightarrow> (request \<Rightarrow> response) \<Rightarrow> request \<Rightarrow> response \<Rightarrow> response" where
  "followDocAsset en assets req res =
     (if \<not> isDocPath (rq_path req) \<or> rs_status res < 300 \<or> rs_status res \<ge> 400 then res
      else case headers_get (rs_headers res) ''Location'' of
          None \<Rightarrow> res
        | Some location \<Rightarrow>
            if location = [] then res
            else (case v_resolve en location req of
                None \<Rightarrow> res
              | Some next \<Rightarrow>
                  if \<not> rv_sameOrigin next \<or> \<not> isDocPath (rv_path next) \<or> rv_sameHref next then res
                  else (let followed = assets (req\<lparr>rq_path := rv_path next, rq_query := rv_query next, rq_text := []\<rparr>) in
                        if rs_status followed \<ge> 300 \<and> rs_status followed < 400 then res else followed)))"

definition asset_request :: "request \<Rightarrow> request" where
  "asset_request req =
     (if isPairAppPath (rq_path req) then req\<lparr>rq_path := ''/pair-shell.asset'', rq_query := []\<rparr>
      else if isAltMarketingPath (rq_path req) then req\<lparr>rq_path := ''/zh-shell.asset'', rq_query := []\<rparr>
      else req)"

definition placeholder_page :: "venv \<Rightarrow> response" where
  "placeholder_page en =
     \<lparr> rs_status = 200,
       rs_headers = applySecurityHeaders (buildOf (v_build en)) (headers_set ''Content-Type'' ''text/html; charset=utf-8'' []),
       rs_body = None, rs_socket = False \<rparr>"

definition staticOrPlaceholder :: "venv \<Rightarrow> request \<Rightarrow> response handler" where
  "staticOrPlaceholder en req =
     (case v_assets en of
        None \<Rightarrow> ret (placeholder_page en)
      | Some assets \<Rightarrow>
          bindM (pause en) (\<lambda>_.
            let res = followDocAsset en assets req (assets (asset_request req)) in
            bindM (observeDocument en (rq_method req) (rq_path req) (rs_status res)) (\<lambda>_.
              let localized = (if rq_path req = ''/manifest.webmanifest'' then localizeManifest req res else res) in
              ret (withSecurity (buildOf (v_build en)) localized
                (staticAssetHeaders (rq_path req) (response_ok localized) (headers_get (rs_headers localized) ''Content-Type''))))))"

section \<open>The WebSocket route\<close>

definition upgrade_required :: "venv \<Rightarrow> response handler" where
  "upgrade_required en = ret (errorJson (buildOf (v_build en)) 426 ''unbound'' [(''Sec-WebSocket-Protocol'', SUBPROTOCOL)])"

text \<open>The last leg: the decision is written into the request's headers and the room answers.\<close>

definition forward_ws :: "venv \<Rightarrow> request \<Rightarrow> string \<Rightarrow> string \<Rightarrow> device_access \<Rightarrow> response handler" where
  "forward_ws en req role daemonId access =
     (if role = ''client'' \<and> \<not> da_allowed access
      then bindM (note_error en ''forbidden'' daemonId) (\<lambda>_. refuse en 403 ''forbidden'')
      else bindM (room_fetch en daemonId (accessHeaders req access)) (\<lambda>res.
        if rs_status res = 101
        then bindM (observe (observeUpgrade (metrics_of en) role daemonId)) (\<lambda>_. ret res)
        else ret (withSecurity (buildOf (v_build en)) res [])))"

definition session_budget :: "request \<Rightarrow> string \<Rightarrow> bool handler" where
  "session_budget req role =
     (if role = ''client'' \<and> (query_get req ''pair_ticket'' = None \<or> query_get req ''pair_ticket'' = Some [])
      then lookM (\<lambda>w. limitM (allowSessionIP (clientIP req) (w_clock w))) else ret True)"

definition routeWs :: "venv \<Rightarrow> request \<Rightarrow> response handler" where
  "routeWs en req =
     (let role = query_or req ''role''; daemonId = query_or req ''daemon_id'' in
      if query_get req ''pair_loc'' \<noteq> None
      then bindM (note_error en ''unpaired'' []) (\<lambda>_. ret (unpairedJson (buildOf (v_build en)) (noStore [])))
      else if \<not> wantsUpgrade req \<and> rq_method req \<noteq> ''GET'' then refuse en 405 ''bad_token''
      else if \<not> offeredSubprotocol req SUBPROTOCOL then upgrade_required en
      else if role \<noteq> ''daemon'' \<and> role \<noteq> ''client'' then refuse en 400 ''bad_token''
      else if daemonId = [] then refuse en 400 ''bad_token''
      else if \<not> DAEMON_ID_RE daemonId then refuse en 400 ''bad_token''
      else if role = ''client'' \<and> (\<not> hasBrowserOrigin req \<or> \<not> isSameHostOrigin (v_parseUrl en) req) then refuse en 403 ''forbidden''
      else if role \<noteq> ''client'' \<and> \<not> isSameHostOrigin (v_parseUrl en) req then refuse en 403 ''forbidden''
      else bindM (getDaemon en daemonId) (\<lambda>daemon.
        if (case daemon of None \<Rightarrow> True | Some d \<Rightarrow> dm_kicked_at d \<noteq> None) then refuse en 400 ''bad_token''
        else bindM (session_budget req role) (\<lambda>ok.
          if \<not> ok then bindM (note_error en ''rate_limited'' daemonId) (\<lambda>_. refuse en 429 ''rate_limited'')
          else lookM (\<lambda>w. bindM (deviceAccess en daemonId req (w_clock w)) (\<lambda>access.
            forward_ws en req role daemonId access)))))"

section \<open>The route table\<close>

definition handleFetch :: "venv \<Rightarrow> request \<Rightarrow> response handler" where
  "handleFetch en req =
     (let path = rq_path req; verb = rq_method req; build = buildOf (v_build en) in
      case apexRedirect en req of
        Some r \<Rightarrow> ret r
      | None \<Rightarrow>
      (case legacyEnRedirect verb path of
         Some r \<Rightarrow> ret r
       | None \<Rightarrow>
         if path = ''/v1/ws'' then upgrade_required en
         else if path = ''/v2/health'' \<and> verb = ''GET''
         then ret (jsonResponse build 200 (JObj [(''ok'', JBool True), (''protocol'', JNum PROTOCOL)]) [])
         else if path = ''/api/config'' \<and> verb = ''GET''
         then answer en 200 (JObj [(''protocol'', JNum PROTOCOL), (''build'', JStr build), (''p2p'', JBool (v_p2pOpen en))])
         else if path = ''/v2/enroll'' then handleEnroll en req
         else if path = ''/v2/rekey'' then handleRekey en req
         else if path = ''/v2/device-release'' then handleDeviceRelease en req
         else if path = ''/v2/pair-intent'' then handlePairIntent en req
         else if path = ''/v2/events'' then handleEvents en req
         else if path = ''/v2/grants'' then refuse en 404 ''unbound''
         else bindM (handleAccount en req) (\<lambda>account.
           case account of
             Some r \<Rightarrow> ret r
           | None \<Rightarrow> bindM (handleAdmin en req) (\<lambda>admin.
               case admin of
                 Some r \<Rightarrow> ret r
               | None \<Rightarrow> if path = ''/v2/ws'' then routeWs en req else staticOrPlaceholder en req))))"

section \<open>The world as a step relation\<close>

text \<open>
  What can happen: a request is served, a room handles an event of one of its sockets, its alarm or
  its start, and time passes. A request may be abandoned half-way by an exception; its effects stay.
\<close>

inductive world_step :: "venv \<Rightarrow> world \<Rightarrow> world \<Rightarrow> bool" for en where
  request: "world_step en w (snd (handleFetch en req w))"
| message: "world_step en w (snd (room_call en d (webSocketMessage (v_roomEnv en d) ws msg) w))"
| closed: "world_step en w (snd (room_call en d (webSocketClose (v_roomEnv en d) ws reason) w))"
| fired: "world_step en w (snd (room_call en d (room_alarm (v_roomEnv en d)) w))"
| wake: "world_step en w (snd (room_call en d (new_DaemonRoom (v_roomEnv en d)) w))"
| restart: "world_step en w (w\<lparr>w_buckets := resetLimits (w_buckets w), w_telemetry := resetMetrics (w_telemetry w), w_decoy := None\<rparr>)"
| tick: "w_clock w \<le> now \<Longrightarrow> world_step en w (w\<lparr>w_clock := now\<rparr>)"

definition new_world :: "number \<Rightarrow> world" where
  "new_world clock =
     \<lparr> w_db = empty_d1, w_buckets = Map.empty, w_telemetry = \<lparr> tm_counters = [], tm_points = [], tm_log = [] \<rparr>,
       w_decoy = None, w_rooms = (\<lambda>_. new_room clock (\<lambda>_. new_IndexCore Map.empty)),
       w_index = (\<lambda>_. new_IndexCore Map.empty), w_clock = clock, w_draws = 0, w_awaits = 0 \<rparr>"

inductive world_reach :: "venv \<Rightarrow> world \<Rightarrow> bool" for en where
  start: "0 < clock \<Longrightarrow> world_reach en (new_world clock)"
| step: "world_reach en w \<Longrightarrow> world_step en w v \<Longrightarrow> world_reach en v"

text \<open>
  Requests run concurrently: what other requests do at an \<^verbatim>\<open>await\<close> is again a sequence of steps of the
  world, whose own awaits are interleaved one level further down.
\<close>

inductive concurrent :: "venv \<Rightarrow> bool" where
  solo: "(\<And>n w. v_yield en n w = w) \<Longrightarrow> concurrent en"
| nested: "concurrent inner \<Longrightarrow> en = inner\<lparr>v_yield := y\<rparr> \<Longrightarrow>
    (\<And>n w. (world_step inner)\<^sup>*\<^sup>* w (y n w)) \<Longrightarrow> concurrent en"

end
