(* ===== verification/Guarantee.thy ===== *)
theory Guarantee
  imports Worker
begin

text \<open>
  What the worker does to its database, whatever it is asked and however requests interleave: every
  write is one of the statements \<open>issued\<close> below. A condition on the tables that all of them keep
  therefore holds in every state the world can reach; the locale \<open>table_invariant\<close> states this once,
  and the components instantiate it with their invariants.
\<close>

section \<open>The statements the worker issues\<close>

definition effect :: "'a sql \<Rightarrow> d1 \<Rightarrow> d1" where
  "effect op = (\<lambda>d. snd (op d))"

text \<open>The budget each subject is reserved under.\<close>

definition budget_of :: "string \<Rightarrow> nat" where
  "budget_of subject =
     (if starts_with ''login:ip:'' subject then LOGIN_LOCKOUT_STRIKES
      else if starts_with ''invite:global:v'' subject then INVITE_GLOBAL_STRIKES
      else AUTH_LOCKOUT_STRIKES)"

inductive issued :: "(d1 \<Rightarrow> d1) \<Rightarrow> bool" where
  first_user: "us_role row = ROLE_ADMIN \<Longrightarrow> issued (effect (INSERT_FIRST_USER_SQL row))"
| member: "us_role row = ROLE_MEMBER \<Longrightarrow> issued (effect (INSERT_USER_SQL row))"
| session: "issued (effect (create_session_batch row))"
| end_session: "issued (effect (DELETE_SESSION_SQL h))"
| invite: "issued (effect (UPSERT_INVITE_SQL code author now))"
| suspend: "issued (effect (SUSPEND_INVITE_SQL now version))"
| lock: "issued (effect (lock_batch subject (now + AUTH_LOCKOUT_MS) now))"
| clear: "issued (effect (clear_domain_batch subject))"
| reserve: "limit = budget_of subject \<Longrightarrow> issued (effect (reserve_batch subject now (now - AUTH_LOCKOUT_MS) limit))"
| hand_back: "issued (effect (RELEASE_AUTH_FAILURE_SQL i))"
| new_proof: "issued (effect (create_proof_batch p))"
| arm: "issued (effect (READY_CLAIM_PROOF_SQL now r u dv))"
| consume: "issued (effect (CONSUME_CLAIM_PROOF_SQL q u dv now))"
| bind_device: "issued (effect (INSERT_DEVICE_OWNER_SQL own))"
| unbind: "issued (effect (DELETE_DEVICE_OWNER_SQL dv u))"
| new_vault: "va_version v = 1 \<Longrightarrow> issued (effect (INSERT_VAULT_SQL v))"
| next_vault: "va_version v = expected + 1 \<Longrightarrow> issued (effect (UPDATE_VAULT_SQL v expected))"
| enrol: "dm_kicked_at m = None \<Longrightarrow> dm_quota_released_at m = None \<Longrightarrow> issued (effect (enroll_batch m nonce))"
| compensate: "issued (effect (compensate_batch g dv))"
| self_grant: "gr_max_daemons row = OPEN_ENROLL_MAX_DAEMONS \<Longrightarrow> sg_grant_id claim = gr_grant_id row \<Longrightarrow> issued (effect
    (self_grant_batch claim row (sg_created_at claim - SELF_GRANT_WINDOW_MS) SELF_GRANT_PER_IP))"
| kick: "issued (effect (kick_batch now dv g))"

definition guaranteed :: "venv \<Rightarrow> (d1 \<Rightarrow> bool) \<Rightarrow> bool" where
  "guaranteed en J \<longleftrightarrow>
     (\<forall>n w. on_tables J w \<longrightarrow> on_tables J (v_yield en n w)) \<and> (\<forall>f d. issued f \<longrightarrow> J d \<longrightarrow> J (f d))"

lemma issued_keeps: "guaranteed en J \<Longrightarrow> issued (effect op) \<Longrightarrow> keeps J op"
  by (rule keepsI) (metis effect_def guaranteed_def)

lemma guaranteed_rely: "guaranteed en J \<Longrightarrow> rely en J"
  by (auto simp: rely_def intro: issued_keeps issued.arm) (simp add: guaranteed_def)

section \<open>Every handler keeps what the statements keep\<close>

named_theorems guar_intros

lemma guar_query [guar_intros]: "guaranteed en J \<Longrightarrow> keeps (on_tables J) (dbM en (query f))"
  by (intro db_dbM guaranteed_rely) (auto simp: keeps_def query_def)

lemma guar_issued: "guaranteed en J \<Longrightarrow> issued (effect op) \<Longrightarrow> keeps (on_tables J) (dbM en op)"
  by (intro db_dbM guaranteed_rely issued_keeps)

lemma guar_one_change: "guaranteed en J \<Longrightarrow> issued (effect op) \<Longrightarrow> keeps (on_tables J) (one_change en op)"
  unfolding one_change_def by (intro keeps_intros guar_issued)

lemma guar_prims [guar_intros]:
  "guaranteed en J \<Longrightarrow> keeps (on_tables J) (pause en)"
  "guaranteed en J \<Longrightarrow> keeps (on_tables J) (sha256Hex en t)"
  "guaranteed en J \<Longrightarrow> keeps (on_tables J) (hmacSha256Hex en p t)"
  "guaranteed en J \<Longrightarrow> keeps (on_tables J) (room_fetch en daemonId req)"
  "guaranteed en J \<Longrightarrow> keeps (on_tables J) (room_agrees en daemonId req)"
  by (intro db_intros guaranteed_rely; assumption)+

lemma guar_stateless [guar_intros]:
  "keeps (on_tables J) (observe f)" "keeps (on_tables J) (randomBytes en n)" "keeps (on_tables J) (randomHex en n)"
  "keeps (on_tables J) (limitM g)" "keeps (on_tables J) clock_now" "keeps (on_tables J) (note_error en c i)"
  "keeps (on_tables J) (note_enroll en c i)" "keeps (on_tables J) (note_intent en c i)"
  "keeps (on_tables J) (answer en s b)" "keeps (on_tables J) (refuse en s c)" "keeps (on_tables J) (lockedOut en)"
  "keeps (on_tables J) (unauthorized en)" "keeps (on_tables J) (upgrade_required en)"
  unfolding note_enroll_def note_intent_def answer_def refuse_def lockedOut_def unauthorized_def upgrade_required_def
  by (intro db_intros keeps_intros)+

lemma guar_local [guar_intros]:
  "keeps (on_tables J) (mintInviteCode en)" "keeps (on_tables J) (modifyM (w_decoy_update h))"
  by (auto simp: keeps_def on_tables_def mintInviteCode_def modifyM_def split: option.splits)

lemma guar_reads [guar_intros]:
  assumes "guaranteed en J"
  shows "keeps (on_tables J) (getUserByName en n)" "keeps (on_tables J) (getUserById en i)" "keeps (on_tables J) (countUsers en)"
    "keeps (on_tables J) (getLiveSession en h now)" "keeps (on_tables J) (getInvite en)" "keeps (on_tables J) (lockedUntil en s now)"
    "keeps (on_tables J) (getReadyProof en u dv now)" "keeps (on_tables J) (getDeviceOwner en dv)"
    "keeps (on_tables J) (listDevicesByUser en u l)" "keeps (on_tables J) (getVault en u)" "keeps (on_tables J) (getGrantById en g)"
    "keeps (on_tables J) (getDaemon en dv)" "keeps (on_tables J) (listLiveDaemonIds en l)"
  unfolding getUserByName_def SELECT_USER_BY_NAME_SQL_def getUserById_def SELECT_USER_BY_ID_SQL_def countUsers_def
    COUNT_USERS_SQL_def getLiveSession_def SELECT_SESSION_SQL_def getInvite_def SELECT_INVITE_SQL_def lockedUntil_def
    SELECT_AUTH_LOCK_SQL_def getReadyProof_def SELECT_READY_PROOF_SQL_def getDeviceOwner_def SELECT_DEVICE_OWNER_SQL_def
    listDevicesByUser_def LIST_DEVICES_BY_USER_SQL_def getVault_def SELECT_VAULT_SQL_def getGrantById_def
    SELECT_GRANT_BY_ID_SQL_def getDaemon_def SELECT_DAEMON_SQL_def listLiveDaemonIds_def LIST_LIVE_DAEMON_IDS_SQL_def Let_def
  by (intro keeps_intros guar_query assms)+

lemma guar_writes [guar_intros]:
  assumes "guaranteed en J"
  shows "us_role row = ROLE_ADMIN \<Longrightarrow> keeps (on_tables J) (insertFirstUser en row)"
    "us_role row = ROLE_MEMBER \<Longrightarrow> keeps (on_tables J) (insertUser en row)"
    "keeps (on_tables J) (createSession en s)" "keeps (on_tables J) (deleteSession en h)"
    "keeps (on_tables J) (putInvite en code u now)" "keeps (on_tables J) (suspendInvite en now version)"
    "keeps (on_tables J) (lockSubject en subject now)" "keeps (on_tables J) (clearAuthDomain en subject)"
    "limit = budget_of subject \<Longrightarrow> keeps (on_tables J) (reserveFailureBudget en subject now limit)"
    "keeps (on_tables J) (releaseFailureBudget en rv)" "keeps (on_tables J) (createClaimProof en p)"
    "keeps (on_tables J) (consumeClaimProof en q u dv now)" "keeps (on_tables J) (bindDevice en own)"
    "keeps (on_tables J) (unbindDevice en dv u)" "va_version v = 1 \<Longrightarrow> keeps (on_tables J) (insertVault en v)"
    "va_version v = expected + 1 \<Longrightarrow> keeps (on_tables J) (updateVault en v expected)"
    "keeps (on_tables J) (compensateEnroll en g dv)" "keeps (on_tables J) (enrollDaemonBatch en dv g now ip)"
    "keeps (on_tables J) (insertSelfServeGrant en g gh ip OPEN_ENROLL_MAX_DAEMONS l now (now - SELF_GRANT_WINDOW_MS) SELF_GRANT_PER_IP)"
    "keeps (on_tables J) (kickDaemonRow en dv now)"
proof -
  note w = guar_one_change [OF assms] guar_issued [OF assms]
  have self: "issued (effect (self_grant_batch \<lparr> sg_grant_id = g, sg_ip_hash = ip, sg_created_at = now \<rparr>
      \<lparr> gr_grant_id = g, gr_grant_hash = gh, gr_max_daemons = OPEN_ENROLL_MAX_DAEMONS, gr_used = 0, gr_label = l,
        gr_created_at = now, gr_revoked_at = None, gr_last_enroll_at = None, gr_enroll_nonce = None \<rparr>
      (now - SELF_GRANT_WINDOW_MS) SELF_GRANT_PER_IP))"
    using issued.self_grant [where claim = "\<lparr> sg_grant_id = g, sg_ip_hash = ip, sg_created_at = now \<rparr>"
        and row = "\<lparr> gr_grant_id = g, gr_grant_hash = gh, gr_max_daemons = OPEN_ENROLL_MAX_DAEMONS, gr_used = 0, gr_label = l,
        gr_created_at = now, gr_revoked_at = None, gr_last_enroll_at = None, gr_enroll_nonce = None \<rparr>"] by simp
  show "us_role row = ROLE_ADMIN \<Longrightarrow> keeps (on_tables J) (insertFirstUser en row)"
    "us_role row = ROLE_MEMBER \<Longrightarrow> keeps (on_tables J) (insertUser en row)"
    "keeps (on_tables J) (createSession en s)" "keeps (on_tables J) (deleteSession en h)"
    "keeps (on_tables J) (putInvite en code u now)" "keeps (on_tables J) (suspendInvite en now version)"
    "keeps (on_tables J) (lockSubject en subject now)" "keeps (on_tables J) (clearAuthDomain en subject)"
    "limit = budget_of subject \<Longrightarrow> keeps (on_tables J) (reserveFailureBudget en subject now limit)"
    "keeps (on_tables J) (releaseFailureBudget en rv)" "keeps (on_tables J) (createClaimProof en p)"
    "keeps (on_tables J) (consumeClaimProof en q u dv now)" "keeps (on_tables J) (bindDevice en own)"
    "keeps (on_tables J) (unbindDevice en dv u)" "va_version v = 1 \<Longrightarrow> keeps (on_tables J) (insertVault en v)"
    "va_version v = expected + 1 \<Longrightarrow> keeps (on_tables J) (updateVault en v expected)"
    "keeps (on_tables J) (compensateEnroll en g dv)" "keeps (on_tables J) (enrollDaemonBatch en dv g now ip)"
    "keeps (on_tables J) (insertSelfServeGrant en g gh ip OPEN_ENROLL_MAX_DAEMONS l now (now - SELF_GRANT_WINDOW_MS) SELF_GRANT_PER_IP)"
    "keeps (on_tables J) (kickDaemonRow en dv now)"
    unfolding insertFirstUser_def insertUser_def createSession_def deleteSession_def putInvite_def suspendInvite_def lockSubject_def
      clearAuthDomain_def reserveFailureBudget_def releaseFailureBudget_def createClaimProof_def consumeClaimProof_def bindDevice_def
      unbindDevice_def insertVault_def updateVault_def compensateEnroll_def enrollDaemonBatch_def insertSelfServeGrant_def
      kickDaemonRow_def Let_def
    by (intro keeps_intros w guar_stateless guar_reads assms issued.intros self; simp)+
qed

lemma keeps_bool [keeps_intros]: "keeps I m \<Longrightarrow> keeps I n \<Longrightarrow> keeps I (case b of True \<Rightarrow> m | False \<Rightarrow> n)"
  by (cases b) simp_all

lemma keeps_list [keeps_intros]:
  "keeps I m \<Longrightarrow> (\<And>x xs. keeps I (k x xs)) \<Longrightarrow> keeps I (case l of [] \<Rightarrow> m | x # xs \<Rightarrow> k x xs)"
  by (cases l) simp_all

lemma keeps_sum [keeps_intros]:
  "(\<And>e. keeps I (f e)) \<Longrightarrow> (\<And>a. keeps I (k a)) \<Longrightarrow> keeps I (case r of Inl e \<Rightarrow> f e | Inr a \<Rightarrow> k a)"
  by (cases r) simp_all

lemma guar_identity [guar_intros]:
  assumes "guaranteed en J"
  shows "keeps (on_tables J) (pbkdf2Hex en pw salt i)" "keeps (on_tables J) (newUserId en)" "keeps (on_tables J) (newClaimProof en)"
    "keeps (on_tables J) (read_body en req)" "keeps (on_tables J) (issueSession en u now)" "keeps (on_tables J) (resolveIdentity en req now)"
  unfolding pbkdf2Hex_def newUserId_def newClaimProof_def read_body_def issueSession_def resolveIdentity_def Let_def
  by (intro keeps_intros guar_intros assms)+

lemma guar_passwords [guar_intros]:
  assumes "guaranteed en J"
  shows "keeps (on_tables J) (hashPassword en pw)" "keeps (on_tables J) (verifyPassword en stored pw)"
  unfolding hashPassword_def verifyPassword_def by (intro keeps_intros guar_intros assms)+

lemma guar_account_parts [guar_intros]:
  assumes "guaranteed en J"
  shows "keeps (on_tables J) (decoyHash en)" "keeps (on_tables J) (deviceAccess en dv req now)"
    "keeps (on_tables J) (signedIn en u now st)" "keeps (on_tables J) (requireAdmin en req now)"
    "(\<And>i. keeps (on_tables J) (k i)) \<Longrightarrow> keeps (on_tables J) (with_identity en req now k)"
    "keeps (on_tables J) (refund en r1 r2)" "keeps (on_tables J) (ban_if en r1 l subject now)"
  unfolding decoyHash_def deviceAccess_def signedIn_def requireAdmin_def with_identity_def refund_def ban_if_def Let_def
  by (intro keeps_intros guar_intros assms; assumption?)+

text \<open>The three credential routes: the subject is one of the source's, under the budget of its domain.\<close>

lemma guar_source:
  assumes "guaranteed en J" and "\<And>h. keeps (on_tables J) (k (domain_name dm @ '':ip:'' @ h))"
  shows "keeps (on_tables J) (bindM (sourceSubject en p dm ip) k)"
proof -
  have "bindM (sourceSubject en p dm ip) k = bindM (hmacSha256Hex en p ip) (\<lambda>h. k (domain_name dm @ '':ip:'' @ h))"
    by (auto simp: sourceSubject_def bindM_def ret_def fun_eq_iff split: prod.splits sum.splits)
  then show ?thesis using assms by (auto intro!: keeps_intros guar_intros)
qed

lemma budget_of_subjects:
  "budget_of (domain_name DLogin @ '':ip:'' @ h) = LOGIN_LOCKOUT_STRIKES"
  "budget_of (domain_name DInvite @ '':ip:'' @ h) = AUTH_LOCKOUT_STRIKES"
  "budget_of (domain_name DBootstrap @ '':ip:'' @ h) = AUTH_LOCKOUT_STRIKES"
  "budget_of (inviteGlobalSubject v) = INVITE_GLOBAL_STRIKES"
  by (simp_all add: budget_of_def starts_with_def inviteGlobalSubject_def)

lemma guar_strike [guar_intros]:
  assumes "guaranteed en J" and "limit = budget_of subject" and "\<And>r. keeps (on_tables J) (k r)"
  shows "keeps (on_tables J) (with_strike en subject now limit k)"
  unfolding with_strike_def by (intro keeps_intros guar_intros assms)

lemma guar_credentials [guar_intros]:
  assumes "guaranteed en J"
  shows "keeps (on_tables J) (open_first en key pw now)" "keeps (on_tables J) (open_member en key n pw now)"
    "keeps (on_tables J) (wrong_invite en r1 r2 v key now)"
  unfolding open_first_def open_member_def wrong_invite_def Let_def
  by (intro keeps_intros guar_intros assms; simp)+

lemma guar_bootstrap [guar_intros]: "guaranteed en J \<Longrightarrow> keeps (on_tables J) (bootstrap en req now)"
  unfolding bootstrap_def Let_def
  by (intro keeps_if keeps_bindM [of _ "countUsers en"] guar_source keeps_bindM [of _ "read_body en req"] keeps_option guar_intros keeps_intros;
      simp only: budget_of_subjects)

lemma guar_login [guar_intros]: "guaranteed en J \<Longrightarrow> keeps (on_tables J) (login en req now)"
  unfolding login_def Let_def
  by (rule guar_source, assumption) (intro keeps_intros guar_intros; simp only: budget_of_subjects)

lemma guar_register [guar_intros]: "guaranteed en J \<Longrightarrow> keeps (on_tables J) (register en req now)"
  unfolding register_def Let_def
  by (rule guar_source, assumption) (intro keeps_intros guar_intros; simp only: budget_of_subjects)

lemma guar_device_rows [guar_intros]: "guaranteed en J \<Longrightarrow> keeps (on_tables J) (device_rows en rows)"
  by (induction rows) (auto intro!: keeps_intros guar_intros)

lemma guar_account_routes [guar_intros]:
  assumes "guaranteed en J"
  shows "keeps (on_tables J) (account_state en req now)" "keeps (on_tables J) (logout en req now)" "keeps (on_tables J) (readInvite en req now)"
    "keeps (on_tables J) (rotateInvite en req now)" "keeps (on_tables J) (listDevices en req now)" "keeps (on_tables J) (claimDevice en req now)"
    "keeps (on_tables J) (readClaimProof en req now)" "keeps (on_tables J) (releaseDevice en dv req now)"
  unfolding account_state_def logout_def readInvite_def rotateInvite_def listDevices_def claimDevice_def claim_with_def claim_answer_def
    readClaimProof_def releaseDevice_def Let_def
  by (intro keeps_intros guar_intros assms)+

lemma guar_vault [guar_intros]:
  assumes "guaranteed en J"
  shows "keeps (on_tables J) (handleVault en req now)"
  unfolding handleVault_def vault_dispatch_def readVault_def writeVault_def Let_def
  by (intro keeps_intros guar_intros assms; simp)

lemma guar_account_route: "guaranteed en J \<Longrightarrow> keeps (on_tables J) (account_route en req now)"
  unfolding account_route_def Let_def by (intro keeps_intros guar_intros)

lemma guar_guarded_route [guar_intros]:
  assumes "guaranteed en J"
  shows "keeps (on_tables J) (guarded_route en req now)"
proof (rule keepsI)
  fix w
  assume "on_tables J w"
  with guar_account_route [OF assms] have J: "on_tables J (snd (account_route en req now w))" by (rule keepsD)
  have fall: "keeps (on_tables J) (bindM (note_error en ''internal'' []) (\<lambda>_. refuse en 500 ''internal''))"
    by (intro keeps_intros guar_intros)
  show "on_tables J (snd (guarded_route en req now w))"
    using J keepsD [OF fall] by (cases "account_route en req now w"; cases "fst (account_route en req now w)") (auto simp: guarded_route_def)
qed

lemma guar_handleAccount [guar_intros]: "guaranteed en J \<Longrightarrow> keeps (on_tables J) (handleAccount en req)"
  unfolding handleAccount_def by (intro keeps_intros guar_intros)

lemma guar_enrolment [guar_intros]:
  assumes "guaranteed en J"
  shows "keeps (on_tables J) (mintOpenGrant en ip now)" "keeps (on_tables J) (enroll_again en row dv t h)"
    "keeps (on_tables J) (enroll_listed en dv t h g)" "keeps (on_tables J) (enroll_missed en gr dv now)"
  unfolding mintOpenGrant_def enroll_again_def enroll_listed_def enroll_missed_def verifyRoomEnroll_def enrollRoom_def abortRoomEnroll_def
    enrollSuccess_def Let_def
  by (intro keeps_intros guar_intros assms)+

lemma guar_handleEnroll [guar_intros]:
  assumes "guaranteed en J"
  shows "keeps (on_tables J) (handleEnroll en req)"
proof -
  have "keeps (on_tables J) (case m of MintLimited \<Rightarrow> a | MintFailed \<Rightarrow> b | Granted g \<Rightarrow> c g)"
    if "keeps (on_tables J) a" "keeps (on_tables J) b" "\<And>g. keeps (on_tables J) (c g)" for m and a b :: "response handler" and c
    using that by (cases m) simp_all
  note [keeps_intros] = this
  show ?thesis
    unfolding handleEnroll_def enroll_new_def Let_def by (intro keeps_intros guar_intros assms)
qed

lemma guar_computers [guar_intros]:
  assumes "guaranteed en J"
  shows "keeps (on_tables J) (handleRekey en req)" "keeps (on_tables J) (handleDeviceRelease en req)"
  unfolding handleRekey_def rekey_room_def handleDeviceRelease_def verifyToken_def release_owner_def Let_def
  by (intro keeps_intros guar_intros assms)+

lemma guar_lookupIndex [guar_intros]: "guaranteed en J \<Longrightarrow> keeps (on_tables J) (lookupIndex en loc)"
  unfolding lookupIndex_def
  by (intro keeps_bindM guar_intros) (auto simp: keeps_def on_tables_def split: prod.splits)

lemma guar_handlePairIntent [guar_intros]:
  assumes "guaranteed en J"
  shows "keeps (on_tables J) (handlePairIntent en req)"
  unfolding handlePairIntent_def intent_found_def intent_miss_def padMiss_def pending_proof_def intent_issueTicket_def Let_def
  by (intro keeps_intros guar_intros assms)

lemma guar_sample_rooms [guar_intros]: "guaranteed en J \<Longrightarrow> keeps (on_tables J) (sample_rooms en ids acc)"
  by (induction ids arbitrary: acc) (auto intro!: keeps_intros guar_intros)

lemma guar_handleAdmin [guar_intros]:
  assumes "guaranteed en J"
  shows "keeps (on_tables J) (handleAdmin en req)"
  unfolding handleAdmin_def admin_stats_def admin_kick_def kick_room_def sampleLiveSockets_def
  by (intro keeps_intros guar_intros assms)

lemma guar_accept_events [guar_intros]: "keeps (on_tables J) (accept_events en items n)"
proof (induction items arbitrary: n)
  case (Cons item items)
  then show ?case by (cases item) (auto simp: Let_def intro!: keeps_intros guar_intros)
qed (simp add: keeps_ret)

lemma guar_handleEvents [guar_intros]:
  assumes "guaranteed en J"
  shows "keeps (on_tables J) (handleEvents en req)"
proof -
  have js: "keeps (on_tables J) (case v of Some (JArr raw) \<Rightarrow> m raw | _ \<Rightarrow> r)"
    if "\<And>raw. keeps (on_tables J) (m raw)" "keeps (on_tables J) r" for v m and r :: "response handler"
    using that by (auto split: option.split json.split)
  show ?thesis
    unfolding handleEvents_def by (intro keeps_bindM keeps_if js guar_intros assms keeps_intros)
qed

lemma guar_static [guar_intros]: "guaranteed en J \<Longrightarrow> keeps (on_tables J) (staticOrPlaceholder en req)"
  unfolding staticOrPlaceholder_def observeDocument_def Let_def by (intro keeps_intros guar_intros)

lemma guar_routeWs [guar_intros]: "guaranteed en J \<Longrightarrow> keeps (on_tables J) (routeWs en req)"
  unfolding routeWs_def session_budget_def forward_ws_def Let_def by (intro keeps_intros guar_intros)

lemma guar_handleFetch: "guaranteed en J \<Longrightarrow> keeps (on_tables J) (handleFetch en req)"
  unfolding handleFetch_def Let_def by (intro keeps_intros guar_intros)

section \<open>Invariants of the tables\<close>

lemma guaranteed_step:
  assumes "guaranteed en J" and "on_tables J w" and "world_step en w v"
  shows "on_tables J v"
  using assms(3)
proof (cases rule: world_step.cases)
  case (request req)
  then show ?thesis using keepsD [OF guar_handleFetch [OF assms(1)] assms(2)] by simp
next
  case (tick now)
  then show ?thesis using assms(2) by (simp add: on_tables_def)
next
  case restart
  then show ?thesis using assms(2) by (simp add: on_tables_def)
qed (use keepsD [OF db_room_call [OF guaranteed_rely [OF assms(1)]] assms(2)] in simp_all)

lemma guaranteed_steps: "(world_step en)\<^sup>*\<^sup>* w v \<Longrightarrow> guaranteed en J \<Longrightarrow> on_tables J w \<Longrightarrow> on_tables J v"
  by (induction rule: rtranclp_induct) (auto intro: guaranteed_step)

lemma concurrent_guaranteed:
  assumes "concurrent en" and "\<And>f d. issued f \<Longrightarrow> J d \<Longrightarrow> J (f d)"
  shows "guaranteed en J"
  using assms(1)
proof (induction rule: concurrent.induct)
  case (solo en)
  then show ?case using assms(2) by (simp add: guaranteed_def)
next
  case (nested inner en y)
  then have "on_tables J w \<Longrightarrow> on_tables J (y n w)" for n w using guaranteed_steps by blast
  with nested(2) show ?case using assms(2) by (simp add: guaranteed_def)
qed

locale table_invariant =
  fixes J :: "d1 \<Rightarrow> bool"
  assumes initially: "J empty_d1"
    and kept: "issued f \<Longrightarrow> J d \<Longrightarrow> J (f d)"
begin

lemma in_every_world: "concurrent en \<Longrightarrow> world_reach en w \<Longrightarrow> J (w_db w)"
proof -
  assume c: "concurrent en" and r: "world_reach en w"
  have g: "guaranteed en J" using c kept by (rule concurrent_guaranteed)
  from r show ?thesis
  proof (induction rule: world_reach.induct)
    case (start clock)
    then show ?case by (simp add: new_world_def initially)
  next
    case (step w v)
    then show ?case using guaranteed_step [OF g] by (simp add: on_tables_def)
  qed
qed

lemma after_writes: "list_all issued fs \<Longrightarrow> J d \<Longrightarrow> J (fold (\<lambda>f. f) fs d)"
  by (induction fs arbitrary: d) (auto intro: kept)

end

end
