(* ===== verification/AccountInvariants.thy ===== *)
theory AccountInvariants
  imports Guarantee
begin

text \<open>
  The invariants of the account tables, each an instance of \<open>table_invariant\<close>: the strike ledger
  and the self-served grants never exceed their budgets in any window, accounts are unique with
  at most one administrator, a computer has at most one owner, and no grant carries more
  computers than it allows.
\<close>

section \<open>What each statement leaves alone\<close>

lemmas sql_defs = effect_def transaction_def bindM_def ret_def query_def insert_when_def insert_row_def delete_rows_def update_rows_def
  INSERT_FIRST_USER_SQL_def INSERT_USER_SQL_def create_session_batch_def INSERT_SESSION_SQL_def PRUNE_SESSIONS_SQL_def
  DELETE_SESSION_SQL_def UPSERT_INVITE_SQL_def SUSPEND_INVITE_SQL_def lock_batch_def PRUNE_AUTH_LOCKS_SQL_def UPSERT_AUTH_LOCK_SQL_def
  clear_domain_batch_def DELETE_AUTH_FAILURES_SQL_def DELETE_AUTH_LOCK_SQL_def reserve_batch_def PRUNE_AUTH_FAILURES_SQL_def
  RESERVE_AUTH_FAILURE_SQL_def INSERT_AUTH_FAILURE_SQL_def COUNT_AUTH_FAILURES_SQL_def RELEASE_AUTH_FAILURE_SQL_def create_proof_batch_def
  INSERT_CLAIM_PROOF_SQL_def PRUNE_CLAIM_PROOFS_SQL_def READY_CLAIM_PROOF_SQL_def CONSUME_CLAIM_PROOF_SQL_def
  INSERT_DEVICE_OWNER_SQL_def DELETE_DEVICE_OWNER_SQL_def INSERT_VAULT_SQL_def UPDATE_VAULT_SQL_def enroll_batch_def CAS_ENROLL_SQL_def
  INSERT_DAEMON_SQL_def CLEAR_ENROLL_NONCE_SQL_def compensate_batch_def COMPENSATE_DAEMON_USED_SQL_def give_back_def
  DELETE_DAEMON_SQL_def self_grant_batch_def INSERT_SELF_GRANT_SQL_def INSERT_SELF_GRANT_ROW_SQL_def PRUNE_SELF_GRANTS_SQL_def
  kick_batch_def KICK_DAEMON_SQL_def RELEASE_KICK_QUOTA_SQL_def MARK_QUOTA_RELEASED_SQL_def

lemmas sql_splits = prod.splits sum.splits option.splits if_splits

lemma users_only:
  assumes "issued f"
  shows "db_users (f d) = db_users d \<or> (\<exists>row. us_role row = ROLE_ADMIN \<and> f = effect (INSERT_FIRST_USER_SQL row))
     \<or> (\<exists>row. us_role row = ROLE_MEMBER \<and> f = effect (INSERT_USER_SQL row))"
  using assms by (cases rule: issued.cases) (auto simp: sql_defs split: sql_splits)

lemma failures_only:
  assumes "issued f"
  shows "(db_failures (f d) = db_failures d \<and> db_failure_seq (f d) = db_failure_seq d)
     \<or> (\<exists>s. f = effect (clear_domain_batch s)) \<or> (\<exists>i. f = effect (RELEASE_AUTH_FAILURE_SQL i))
     \<or> (\<exists>s now. f = effect (reserve_batch s now (now - AUTH_LOCKOUT_MS) (budget_of s)))"
  using assms by (cases rule: issued.cases) (auto simp: sql_defs split: sql_splits)

lemma owners_only:
  assumes "issued f"
  shows "db_owners (f d) = db_owners d \<or> (\<exists>r. f = effect (INSERT_DEVICE_OWNER_SQL r)) \<or> (\<exists>dv u. f = effect (DELETE_DEVICE_OWNER_SQL dv u))"
  using assms by (cases rule: issued.cases) (auto simp: sql_defs split: sql_splits)

lemma self_grants_only:
  assumes "issued f"
  shows "db_self_grants (f d) = db_self_grants d
     \<or> (\<exists>claim row. gr_max_daemons row = OPEN_ENROLL_MAX_DAEMONS \<and> sg_grant_id claim = gr_grant_id row
           \<and> f = effect (self_grant_batch claim row (sg_created_at claim - SELF_GRANT_WINDOW_MS) SELF_GRANT_PER_IP))"
  using assms
proof (cases rule: issued.cases)
  case (self_grant row claim)
  then show ?thesis by blast
qed (auto simp: sql_defs split: sql_splits)

lemma proofs_only:
  assumes "issued f"
  shows "db_proofs (f d) = db_proofs d \<or> (\<exists>p. f = effect (create_proof_batch p)) \<or> (\<exists>now r u dv. f = effect (READY_CLAIM_PROOF_SQL now r u dv))
     \<or> (\<exists>q u dv now. f = effect (CONSUME_CLAIM_PROOF_SQL q u dv now))"
  using assms
proof (cases rule: issued.cases)
  case new_proof
  then show ?thesis by blast
next
  case arm
  then show ?thesis by blast
next
  case consume
  then show ?thesis by blast
qed (auto simp: sql_defs split: sql_splits)

lemma vaults_only:
  assumes "issued f"
  shows "db_vaults (f d) = db_vaults d \<or> (\<exists>v. va_version v = 1 \<and> f = effect (INSERT_VAULT_SQL v))
     \<or> (\<exists>v e. va_version v = e + 1 \<and> f = effect (UPDATE_VAULT_SQL v e))"
  using assms
proof (cases rule: issued.cases)
  case new_vault
  then show ?thesis by blast
next
  case next_vault
  then show ?thesis by blast
qed (auto simp: sql_defs split: sql_splits)

section \<open>Budgets over windows\<close>

text \<open>
  Rows stamped with a time and filed under a key: in no window of length \<open>w\<close> are there more rows of a key
  than its budget. Deleting rows keeps this; so does adding one, when the rows of its key that are not older
  than a window before it are below the budget, also if some of them carry later stamps.
\<close>

definition windowed :: "('r \<Rightarrow> 'k) \<Rightarrow> ('r \<Rightarrow> number) \<Rightarrow> number \<Rightarrow> ('k \<Rightarrow> nat) \<Rightarrow> 'r list \<Rightarrow> bool" where
  "windowed key stamp w budget rows \<longleftrightarrow>
     (\<forall>k x. count_where (\<lambda>r. key r = k \<and> x - w < stamp r \<and> stamp r \<le> x) rows \<le> budget k)"

lemma windowedD: "windowed key stamp w budget rows \<Longrightarrow> count_where (\<lambda>r. key r = k \<and> x - w < stamp r \<and> stamp r \<le> x) rows \<le> budget k"
  by (simp add: windowed_def)

lemma count_where_mono: "(\<And>r. r \<in> set rows \<Longrightarrow> P r \<Longrightarrow> Q r) \<Longrightarrow> count_where P rows \<le> count_where Q rows"
  by (induction rows) (auto simp: count_where_def)

lemma count_where_filter: "count_where P (filter Q rows) \<le> count_where P rows"
  by (induction rows) (auto simp: count_where_def)

lemma count_where_append [simp]: "count_where P (xs @ ys) = count_where P xs + count_where P ys"
  by (simp add: count_where_def)

lemma windowed_Nil [simp]: "windowed key stamp w budget []"
  by (simp add: windowed_def count_where_def)

lemma windowed_filter: "windowed key stamp w budget rows \<Longrightarrow> windowed key stamp w budget (filter P rows)"
  unfolding windowed_def using count_where_filter le_trans by blast

lemma windowed_snoc:
  assumes rows: "windowed key stamp w budget rows"
    and below: "count_where (\<lambda>r. key r = key a \<and> stamp r > stamp a - w) rows < budget (key a)"
  shows "windowed key stamp w budget (rows @ [a])"
  unfolding windowed_def
proof (intro allI)
  fix k x
  let ?P = "\<lambda>r. key r = k \<and> x - w < stamp r \<and> stamp r \<le> x"
  show "count_where ?P (rows @ [a]) \<le> budget k"
  proof (cases "?P a")
    case True
    then have "count_where ?P rows \<le> count_where (\<lambda>r. key r = key a \<and> stamp r > stamp a - w) rows"
      by (intro count_where_mono) auto
    with below True show ?thesis by (simp add: count_where_def)
  next
    case False
    then have "count_where ?P (rows @ [a]) = count_where ?P rows" by (auto simp: count_where_def)
    with windowedD [OF rows, of k x] show ?thesis by simp
  qed
qed

section \<open>The strike ledger\<close>

definition ledger_ok :: "d1 \<Rightarrow> bool" where
  "ledger_ok d \<longleftrightarrow> windowed af_subject af_at AUTH_LOCKOUT_MS budget_of (db_failures d)
     \<and> distinct (map af_id (db_failures d)) \<and> (\<forall>r \<in> set (db_failures d). 0 < af_id r \<and> af_id r \<le> db_failure_seq d)"

lemma ledger_filter:
  "ledger_ok d \<Longrightarrow> db_failures e = filter P (db_failures d) \<Longrightarrow> db_failure_seq e = db_failure_seq d \<Longrightarrow> ledger_ok e"
  unfolding ledger_ok_def by (auto intro: windowed_filter distinct_map_filter)

lemma reserve_rows:
  "effect (reserve_batch s now since limit) d =
    (let kept = filter (\<lambda>r. \<not> af_at r \<le> since) (db_failures d) in
     if count_where (strikes_since s since) kept < limit
     then d\<lparr>db_failures := kept @ [\<lparr> af_id = Suc (db_failure_seq d), af_subject = s, af_at = now \<rparr>],
            db_failure_seq := Suc (db_failure_seq d)\<rparr>
     else d\<lparr>db_failures := kept\<rparr>)"
  by (simp add: sql_defs Let_def)

interpretation ledger: table_invariant ledger_ok
proof
  show "ledger_ok empty_d1" by (simp add: ledger_ok_def empty_d1_def)
next
  fix f d
  assume "issued f" and ok: "ledger_ok d"
  from failures_only [OF this(1), of d] show "ledger_ok (f d)"
  proof (elim disjE exE conjE)
    assume "db_failures (f d) = db_failures d" "db_failure_seq (f d) = db_failure_seq d"
    with ok show ?thesis by (simp add: ledger_ok_def)
  next
    fix s assume f: "f = effect (clear_domain_batch s)"
    show ?thesis by (rule ledger_filter [OF ok]) (simp_all add: f sql_defs)
  next
    fix i assume f: "f = effect (RELEASE_AUTH_FAILURE_SQL i)"
    show ?thesis by (rule ledger_filter [OF ok]) (simp_all add: f sql_defs)
  next
    fix s now assume f: "f = effect (reserve_batch s now (now - AUTH_LOCKOUT_MS) (budget_of s))"
    let ?kept = "filter (\<lambda>r. \<not> af_at r \<le> now - AUTH_LOCKOUT_MS) (db_failures d)"
    have "ledger_ok (d\<lparr>db_failures := ?kept\<rparr>)" by (rule ledger_filter [OF ok]) simp_all
    moreover from this have "windowed af_subject af_at AUTH_LOCKOUT_MS budget_of
        (?kept @ [\<lparr> af_id = Suc (db_failure_seq d), af_subject = s, af_at = now \<rparr>])"
      if "count_where (strikes_since s (now - AUTH_LOCKOUT_MS)) ?kept < budget_of s"
      using that by (intro windowed_snoc) (simp_all add: ledger_ok_def strikes_since_def [abs_def])
    ultimately show ?thesis
      unfolding f reserve_rows Let_def by (auto simp: ledger_ok_def)
  qed
qed

section \<open>Accounts and owners\<close>

definition users_ok :: "d1 \<Rightarrow> bool" where
  "users_ok d \<longleftrightarrow> distinct (map us_user_id (db_users d)) \<and> distinct (map us_username (db_users d))
     \<and> count_where isAdmin (db_users d) \<le> 1"

interpretation users: table_invariant users_ok
proof
  show "users_ok empty_d1" by (simp add: users_ok_def empty_d1_def count_where_def)
next
  fix f d
  assume "issued f" and ok: "users_ok d"
  from users_only [OF this(1), of d] ok show "users_ok (f d)"
    by (elim disjE exE)
      (auto simp: users_ok_def sql_defs count_where_def same_user_def list_ex_iff isAdmin_def ROLE_ADMIN_def ROLE_MEMBER_def split: sql_splits)
qed

definition owners_ok :: "d1 \<Rightarrow> bool" where
  "owners_ok d \<longleftrightarrow> distinct (map dv_daemon_id (db_owners d))"

interpretation owners: table_invariant owners_ok
proof
  show "owners_ok empty_d1" by (simp add: owners_ok_def empty_d1_def)
next
  fix f d
  assume "issued f" and ok: "owners_ok d"
  from owners_only [OF this(1), of d] ok show "owners_ok (f d)"
    by (elim disjE exE) (auto simp: owners_ok_def sql_defs list_ex_iff distinct_map_filter split: sql_splits)
qed

section \<open>Self-served grants\<close>

definition self_grants_ok :: "d1 \<Rightarrow> bool" where
  "self_grants_ok d \<longleftrightarrow> windowed sg_ip_hash sg_created_at SELF_GRANT_WINDOW_MS (\<lambda>_. SELF_GRANT_PER_IP) (db_self_grants d)"

interpretation self_grants: table_invariant self_grants_ok
proof
  show "self_grants_ok empty_d1" by (simp add: self_grants_ok_def empty_d1_def)
next
  fix f d
  assume "issued f" and ok: "self_grants_ok d"
  from self_grants_only [OF this(1), of d] show "self_grants_ok (f d)"
  proof (elim disjE exE conjE)
    assume "db_self_grants (f d) = db_self_grants d"
    with ok show ?thesis by (simp add: self_grants_ok_def)
  next
    fix claim row
    assume f: "f = effect (self_grant_batch claim row (sg_created_at claim - SELF_GRANT_WINDOW_MS) SELF_GRANT_PER_IP)"
    have "windowed sg_ip_hash sg_created_at SELF_GRANT_WINDOW_MS (\<lambda>_. SELF_GRANT_PER_IP) (db_self_grants d @ [claim])"
      if "count_where (\<lambda>r. sg_ip_hash r = sg_ip_hash claim \<and> sg_created_at r > sg_created_at claim - SELF_GRANT_WINDOW_MS)
            (db_self_grants d) < SELF_GRANT_PER_IP"
      using ok that by (intro windowed_snoc) (simp_all add: self_grants_ok_def)
    moreover have "db_self_grants (f d) = db_self_grants d \<or>
        db_self_grants (f d) = filter (\<lambda>r. \<not> sg_created_at r \<le> sg_created_at claim - SELF_GRANT_WINDOW_MS) (db_self_grants d) \<or>
        (db_self_grants (f d) = filter (\<lambda>r. \<not> sg_created_at r \<le> sg_created_at claim - SELF_GRANT_WINDOW_MS) (db_self_grants d @ [claim]) \<and>
         count_where (\<lambda>r. sg_ip_hash r = sg_ip_hash claim \<and> sg_created_at r > sg_created_at claim - SELF_GRANT_WINDOW_MS)
            (db_self_grants d) < SELF_GRANT_PER_IP)"
      unfolding f by (auto simp: sql_defs split: sql_splits)
    ultimately show ?thesis
      using ok unfolding self_grants_ok_def by (metis (no_types, lifting) windowed_filter)
  qed
qed

section \<open>Grants and the computers they carry\<close>

definition holds_place :: "string \<Rightarrow> daemon_row \<Rightarrow> bool" where
  "holds_place g m \<longleftrightarrow> dm_grant_id m = g \<and> dm_quota_released_at m = None"

definition grant_ok :: "daemon_row list \<Rightarrow> grant_row \<Rightarrow> bool" where
  "grant_ok ms g \<longleftrightarrow> gr_enroll_nonce g = None \<and> count_where (holds_place (gr_grant_id g)) ms \<le> gr_used g
     \<and> gr_used g \<le> gr_max_daemons g"

definition grants_ok :: "d1 \<Rightarrow> bool" where
  "grants_ok d \<longleftrightarrow> distinct (map gr_grant_id (db_grants d)) \<and> distinct (map dm_daemon_id (db_daemons d))
     \<and> list_all (grant_ok (db_daemons d)) (db_grants d)
     \<and> (\<forall>m \<in> set (db_daemons d). dm_grant_id m \<in> gr_grant_id ` set (db_grants d))"

lemma grants_only:
  assumes "issued f"
  shows "(db_grants (f d) = db_grants d \<and> db_daemons (f d) = db_daemons d)
     \<or> (\<exists>m nonce. dm_kicked_at m = None \<and> dm_quota_released_at m = None \<and> f = effect (enroll_batch m nonce))
     \<or> (\<exists>g dv. f = effect (compensate_batch g dv))
     \<or> (\<exists>claim row ws q. gr_max_daemons row = OPEN_ENROLL_MAX_DAEMONS \<and> f = effect (self_grant_batch claim row ws q))
     \<or> (\<exists>now dv g. f = effect (kick_batch now dv g))"
  using assms
proof (cases rule: issued.cases)
  case enrol
  then show ?thesis by blast
next
  case compensate
  then show ?thesis by blast
next
  case self_grant
  then show ?thesis by blast
next
  case kick
  then show ?thesis by blast
qed (auto simp: sql_defs split: sql_splits)

text \<open>The enrolment batch, on tables where no enrolment is half-way.\<close>

definition may_enroll :: "daemon_row \<Rightarrow> grant_row \<Rightarrow> bool" where
  "may_enroll m g \<longleftrightarrow> gr_grant_id g = dm_grant_id m \<and> gr_revoked_at g = None \<and> gr_used g < gr_max_daemons g \<and> gr_enroll_nonce g = None
     \<and> (case gr_last_enroll_at g of None \<Rightarrow> True | Some t \<Rightarrow> t \<le> dm_created_at m - 60000)"

lemma enroll_rows:
  assumes "\<forall>g \<in> set (db_grants d). gr_enroll_nonce g = None"
  shows "effect (enroll_batch m nonce) d =
    (if list_ex (may_enroll m) (db_grants d) \<and> \<not> list_ex (\<lambda>b. dm_daemon_id m = dm_daemon_id b) (db_daemons d)
     then d\<lparr>db_grants := map (\<lambda>g. if may_enroll m g then g\<lparr>gr_used := gr_used g + 1, gr_last_enroll_at := Some (dm_created_at m)\<rparr> else g) (db_grants d),
            db_daemons := db_daemons d @ [m]\<rparr>
     else d)"
proof -
  let ?cas = "\<lambda>g. g\<lparr>gr_used := gr_used g + 1, gr_enroll_nonce := Some nonce, gr_last_enroll_at := Some (dm_created_at m)\<rparr>"
  let ?gs1 = "map (\<lambda>g. if may_enroll m g then ?cas g else g) (db_grants d)"
  let ?clear = "map (\<lambda>g. if gr_grant_id g = dm_grant_id m \<and> gr_enroll_nonce g = Some nonce then g\<lparr>gr_enroll_nonce := None\<rparr> else g)"
  have clear: "?clear ?gs1 = map (\<lambda>g. if may_enroll m g then g\<lparr>gr_used := gr_used g + 1, gr_last_enroll_at := Some (dm_created_at m)\<rparr> else g) (db_grants d)"
    using assms by (auto simp: may_enroll_def intro!: grant_row.equality)
  have ex: "list_ex (\<lambda>g. gr_grant_id g = dm_grant_id m \<and> gr_enroll_nonce g = Some nonce) ?gs1 \<longleftrightarrow> list_ex (may_enroll m) (db_grants d)"
  proof -
    have "(gr_grant_id (if may_enroll m g then ?cas g else g) = dm_grant_id m \<and> gr_enroll_nonce (if may_enroll m g then ?cas g else g) = Some nonce)
        \<longleftrightarrow> may_enroll m g" if "g \<in> set (db_grants d)" for g
      using assms that by (auto simp: may_enroll_def)
    then show ?thesis unfolding list_ex_iff set_map by blast
  qed
  have none: "map (\<lambda>g. if may_enroll m g then h g else g) (db_grants d) = db_grants d" if "\<not> list_ex (may_enroll m) (db_grants d)" for h
    using that by (auto simp: list_ex_iff intro: map_idI)
  have cas: "CAS_ENROLL_SQL nonce (dm_created_at m) (dm_grant_id m) (dm_created_at m - 60000) d
      = (Inr (count_where (may_enroll m) (db_grants d)), d\<lparr>db_grants := ?gs1\<rparr>)"
    by (simp add: CAS_ENROLL_SQL_def update_rows_def may_enroll_def [abs_def])
  show ?thesis
  proof (cases "list_ex (may_enroll m) (db_grants d)")
    case True
    then show ?thesis
      by (auto simp: effect_def enroll_batch_def transaction_def bindM_def ret_def cas INSERT_DAEMON_SQL_def insert_when_def insert_row_def
          ex CLEAR_ENROLL_NONCE_SQL_def update_rows_def clear [symmetric])
  next
    case False
    then show ?thesis
      using ex none [OF False] clear
      by (simp add: effect_def enroll_batch_def transaction_def bindM_def ret_def cas INSERT_DAEMON_SQL_def insert_when_def
          CLEAR_ENROLL_NONCE_SQL_def update_rows_def)
  qed
qed

lemma count_where_map_le:
  assumes "\<And>r. r \<in> set rows \<Longrightarrow> P (h r) \<Longrightarrow> P r"
  shows "count_where P (map h rows) + (if \<exists>r \<in> set rows. P r \<and> \<not> P (h r) then 1 else 0) \<le> count_where P rows"
  using assms
proof (induction rows)
  case (Cons r rows)
  then have "count_where P (map h rows) + (if \<exists>r \<in> set rows. P r \<and> \<not> P (h r) then 1 else 0) \<le> count_where P rows" by simp
  with Cons.prems [of r] show ?case by (auto simp: count_where_def split: if_splits)
qed (simp add: count_where_def)

lemma weaken_if: "n + (if e then 1 else 0) \<le> (N :: nat) \<Longrightarrow> (b \<Longrightarrow> e) \<Longrightarrow> n + (if b then 1 else 0) \<le> N"
  by (auto split: if_splits)

lemma count_where_drop_le:
  "count_where P (filter (\<lambda>r. \<not> Q r) rows) + (if \<exists>r \<in> set rows. P r \<and> Q r then 1 else 0) \<le> count_where P rows"
proof (induction rows)
  case (Cons r rows)
  then show ?case by (auto simp: count_where_def split: if_splits)
qed (simp add: count_where_def)

text \<open>
  One place given back, while the rows that hold a place of a grant do not grow, and shrink where the
  place was given back: this is the shape of both compensation and kicking.
\<close>

lemma give_back_ok:
  assumes ok: "grants_ok d"
    and gs: "gs = map (\<lambda>g. if gr_grant_id g = gid \<and> gr_used g > 0 \<and> c then g\<lparr>gr_used := gr_used g - 1\<rparr> else g) (db_grants d)"
    and ids: "distinct (map dm_daemon_id ms)" "\<forall>m \<in> set ms. dm_grant_id m \<in> dm_grant_id ` set (db_daemons d)"
    and fewer: "\<And>g. count_where (holds_place g) ms + (if c \<and> g = gid then 1 else 0) \<le> count_where (holds_place g) (db_daemons d)"
  shows "grants_ok (d\<lparr>db_grants := gs, db_daemons := ms\<rparr>)"
proof -
  let ?h = "\<lambda>g. if gr_grant_id g = gid \<and> gr_used g > 0 \<and> c then g\<lparr>gr_used := gr_used g - 1\<rparr> else g"
  have id: "gr_grant_id (?h g) = gr_grant_id g" for g by simp
  have "map gr_grant_id gs = map gr_grant_id (db_grants d)" by (simp add: gs id)
  moreover from this have "gr_grant_id ` set gs = gr_grant_id ` set (db_grants d)" by (metis set_map)
  moreover have "grant_ok ms (?h g)" if "g \<in> set (db_grants d)" for g
  proof -
    have "grant_ok (db_daemons d) g" using ok that by (simp add: grants_ok_def list_all_iff)
    with fewer [of "gr_grant_id g"] show ?thesis by (auto simp: grant_ok_def split: if_splits)
  qed
  then have "list_all (grant_ok ms) gs" unfolding gs list_all_iff set_map by blast
  ultimately show ?thesis using ok ids unfolding grants_ok_def by auto
qed

lemma compensate_ok:
  assumes "grants_ok d"
  shows "grants_ok (effect (compensate_batch gid dv) d)"
proof -
  let ?c = "list_ex (\<lambda>r. dm_daemon_id r = dv \<and> dm_grant_id r = gid \<and> dm_quota_released_at r = None) (db_daemons d)"
  let ?ms = "filter (\<lambda>r. \<not> dm_daemon_id r = dv) (db_daemons d)"
  have "count_where (holds_place g) ?ms + (if ?c \<and> g = gid then 1 else 0) \<le> count_where (holds_place g) (db_daemons d)" for g
    using count_where_drop_le [of "holds_place g" "\<lambda>r. dm_daemon_id r = dv" "db_daemons d"]
    by (auto simp: list_ex_iff holds_place_def split: if_splits)
  moreover have "effect (compensate_batch gid dv) d =
      d\<lparr>db_grants := map (\<lambda>g. if gr_grant_id g = gid \<and> gr_used g > 0 \<and> ?c then g\<lparr>gr_used := gr_used g - 1\<rparr> else g) (db_grants d), db_daemons := ?ms\<rparr>"
    by (simp add: sql_defs)
  ultimately show ?thesis
    using assms by (simp only:) (rule give_back_ok [OF assms refl]; auto simp: grants_ok_def distinct_map_filter)
qed

lemma kick_ok:
  assumes "grants_ok d"
  shows "grants_ok (effect (kick_batch now dv gid) d)"
proof -
  let ?k = "\<lambda>r. if dm_daemon_id r = dv \<and> dm_kicked_at r = None then r\<lparr>dm_kicked_at := Some now\<rparr> else r"
  let ?m = "\<lambda>r. if dm_daemon_id r = dv \<and> dm_kicked_at r \<noteq> None \<and> dm_quota_released_at r = None
               then r\<lparr>dm_quota_released_at := Some now\<rparr> else r"
  let ?ms1 = "map ?k (db_daemons d)"
  let ?c = "list_ex (\<lambda>r. dm_daemon_id r = dv \<and> dm_grant_id r = gid \<and> dm_kicked_at r \<noteq> None \<and> dm_quota_released_at r = None) ?ms1"
  have keep: "dm_daemon_id (?m (?k r)) = dm_daemon_id r" "dm_grant_id (?m (?k r)) = dm_grant_id r" for r by simp_all
  define ms where "ms = map (\<lambda>r. ?m (?k r)) (db_daemons d)"
  have fewer: "count_where (holds_place g) ms + (if ?c \<and> g = gid then 1 else 0)
      \<le> count_where (holds_place g) (db_daemons d)" for g
  proof -
    have after: "holds_place g (?m (?k r)) \<longleftrightarrow> holds_place g r \<and> dm_daemon_id r \<noteq> dv" for r
      by (auto simp: holds_place_def)
    have "(dm_daemon_id (?k r) = dv \<and> dm_grant_id (?k r) = gid \<and> dm_kicked_at (?k r) \<noteq> None \<and> dm_quota_released_at (?k r) = None)
        \<longleftrightarrow> dm_daemon_id r = dv \<and> holds_place gid r" for r by (auto simp: holds_place_def)
    then have "?c \<longleftrightarrow> (\<exists>r \<in> set (db_daemons d). dm_daemon_id r = dv \<and> holds_place gid r)"
      by (simp only: list_ex_iff set_map bex_simps)
    then have "\<exists>r \<in> set (db_daemons d). holds_place g r \<and> \<not> holds_place g (?m (?k r))" if "?c \<and> g = gid"
      unfolding after using that by blast
    with after show ?thesis unfolding ms_def by (intro weaken_if [OF count_where_map_le]) blast+
  qed
  have rows: "effect (kick_batch now dv gid) d =
      d\<lparr>db_grants := map (\<lambda>g. if gr_grant_id g = gid \<and> gr_used g > 0 \<and> ?c then g\<lparr>gr_used := gr_used g - 1\<rparr> else g) (db_grants d),
        db_daemons := ms\<rparr>"
    by (simp add: sql_defs comp_def ms_def)
  have "map dm_daemon_id ms = map dm_daemon_id (db_daemons d)" and gids: "dm_grant_id ` set ms = dm_grant_id ` set (db_daemons d)"
    by (simp_all only: ms_def map_map comp_def keep set_map image_image)
  then have "distinct (map dm_daemon_id ms)" "\<forall>m \<in> set ms. dm_grant_id m \<in> dm_grant_id ` set (db_daemons d)"
    using assms by (auto simp: grants_ok_def)
  then show ?thesis unfolding rows by (rule give_back_ok [OF assms refl _ _ fewer])
qed

lemma enroll_ok:
  assumes ok: "grants_ok d" and m: "dm_quota_released_at m = None"
  shows "grants_ok (effect (enroll_batch m nonce) d)"
proof -
  have free: "\<forall>g \<in> set (db_grants d). gr_enroll_nonce g = None" and each: "\<forall>g \<in> set (db_grants d). grant_ok (db_daemons d) g"
    using ok by (auto simp: grants_ok_def list_all_iff grant_ok_def)
  show ?thesis
  proof (cases "list_ex (may_enroll m) (db_grants d) \<and> \<not> list_ex (\<lambda>b. dm_daemon_id m = dm_daemon_id b) (db_daemons d)")
    case False
    show ?thesis using ok unfolding enroll_rows [OF free] if_not_P [OF False] .
  next
    case True
    let ?h = "\<lambda>g. if may_enroll m g then g\<lparr>gr_used := gr_used g + 1, gr_last_enroll_at := Some (dm_created_at m)\<rparr> else g"
    obtain g0 where g0: "g0 \<in> set (db_grants d)" "may_enroll m g0" using True by (auto simp: list_ex_iff)
    have only: "g = g0" if "g \<in> set (db_grants d)" "gr_grant_id g = dm_grant_id m" for g
      using ok g0 that by (metis (no_types, lifting) distinct_map grants_ok_def inj_onD may_enroll_def)
    have "grant_ok (db_daemons d @ [m]) (?h g)" if "g \<in> set (db_grants d)" for g
    proof (cases "gr_grant_id g = dm_grant_id m")
      case True
      with only that g0 have "may_enroll m g" by blast
      moreover from each that have "grant_ok (db_daemons d) g" by blast
      ultimately show ?thesis by (auto simp: grant_ok_def may_enroll_def count_where_def)
    next
      case False
      then have "\<not> may_enroll m g" by (simp add: may_enroll_def)
      moreover from each that have "grant_ok (db_daemons d) g" by blast
      ultimately show ?thesis using False by (auto simp: grant_ok_def count_where_def holds_place_def)
    qed
    then have each': "list_all (grant_ok (db_daemons d @ [m])) (map ?h (db_grants d))" unfolding list_all_iff set_map by blast
    define gs where "gs = map ?h (db_grants d)"
    have "map gr_grant_id gs = map gr_grant_id (db_grants d)" by (simp add: gs_def)
    moreover from this have "gr_grant_id ` set gs = gr_grant_id ` set (db_grants d)" by (metis set_map)
    moreover have "dm_grant_id m \<in> gr_grant_id ` set (db_grants d)" using g0 by (auto simp: may_enroll_def intro!: image_eqI)
    moreover have "dm_daemon_id m \<notin> dm_daemon_id ` set (db_daemons d)" using True by (auto simp: list_ex_iff)
    ultimately have "grants_ok (d\<lparr>db_grants := gs, db_daemons := db_daemons d @ [m]\<rparr>)"
      using ok each' [folded gs_def] unfolding grants_ok_def by simp
    then show ?thesis unfolding enroll_rows [OF free] if_P [OF True] gs_def .
  qed
qed

lemma self_grant_grants:
  "\<exists>row'. gr_grant_id row' = gr_grant_id row \<and> gr_max_daemons row' = gr_max_daemons row \<and> gr_used row' = 0 \<and> gr_enroll_nonce row' = None \<and>
     db_daemons (effect (self_grant_batch claim row ws q) d) = db_daemons d \<and>
     (db_grants (effect (self_grant_batch claim row ws q) d) = db_grants d \<or>
      gr_grant_id row \<notin> gr_grant_id ` set (db_grants d) \<and> db_grants (effect (self_grant_batch claim row ws q) d) = db_grants d @ [row'])"
  by (rule exI [of _ "row\<lparr>gr_used := 0, gr_revoked_at := None, gr_last_enroll_at := None, gr_enroll_nonce := None\<rparr>"])
    (auto simp: sql_defs list_ex_iff split: sql_splits)

lemma self_grant_ok:
  assumes ok: "grants_ok d"
  shows "grants_ok (effect (self_grant_batch claim row ws q) d)"
proof -
  obtain row' where r: "gr_grant_id row' = gr_grant_id row" "gr_used row' = 0" "gr_enroll_nonce row' = None"
    and ms: "db_daemons (effect (self_grant_batch claim row ws q) d) = db_daemons d"
    and gs: "db_grants (effect (self_grant_batch claim row ws q) d) = db_grants d \<or>
      gr_grant_id row \<notin> gr_grant_id ` set (db_grants d) \<and> db_grants (effect (self_grant_batch claim row ws q) d) = db_grants d @ [row']"
    using self_grant_grants [of row claim ws q d] by blast
  from gs show ?thesis
  proof (elim disjE conjE)
    assume "db_grants (effect (self_grant_batch claim row ws q) d) = db_grants d"
    with ok ms show ?thesis by (simp add: grants_ok_def)
  next
    assume new: "gr_grant_id row \<notin> gr_grant_id ` set (db_grants d)"
      and g: "db_grants (effect (self_grant_batch claim row ws q) d) = db_grants d @ [row']"
    have "\<not> holds_place (gr_grant_id row) m" if "m \<in> set (db_daemons d)" for m
    proof -
      from ok that have "dm_grant_id m \<in> gr_grant_id ` set (db_grants d)" by (simp add: grants_ok_def)
      with new show ?thesis by (auto simp: holds_place_def)
    qed
    then have "count_where (holds_place (gr_grant_id row)) (db_daemons d) = 0" by (simp add: count_where_def filter_empty_conv)
    then have "grant_ok (db_daemons d) row'" using r by (simp add: grant_ok_def)
    with ok new ms r show ?thesis by (auto simp: grants_ok_def g)
  qed
qed

interpretation grants: table_invariant grants_ok
proof
  show "grants_ok empty_d1" by (simp add: grants_ok_def empty_d1_def)
next
  fix f d
  assume "issued f" and ok: "grants_ok d"
  from grants_only [OF this(1), of d] show "grants_ok (f d)"
  proof (elim disjE exE conjE)
    assume "db_grants (f d) = db_grants d" "db_daemons (f d) = db_daemons d"
    with ok show ?thesis by (simp add: grants_ok_def)
  qed (simp_all add: ok enroll_ok compensate_ok self_grant_ok kick_ok)
qed

section \<open>Bans, proofs and vaults, write by write\<close>

text \<open>
  The ban of a subject until some moment: kept by every write of other requests made before that moment, except
  by the one that forgives the subject.
\<close>

definition banned :: "string \<Rightarrow> number \<Rightarrow> d1 \<Rightarrow> bool" where
  "banned s t d \<longleftrightarrow> (\<exists>u \<ge> t. (s, u) \<in> set (db_locks d)) \<and> distinct (map fst (db_locks d))"

inductive unforgiving :: "string \<Rightarrow> number \<Rightarrow> (d1 \<Rightarrow> d1) \<Rightarrow> bool" for s t where
  locks: "now < t \<Longrightarrow> unforgiving s t (effect (lock_batch s' (now + AUTH_LOCKOUT_MS) now))"
| clears: "s' \<noteq> s \<Longrightarrow> unforgiving s t (effect (clear_domain_batch s'))"
| others: "issued f \<Longrightarrow> (\<And>d. db_locks (f d) = db_locks d) \<Longrightarrow> unforgiving s t f"

definition locks_ok :: "d1 \<Rightarrow> bool" where
  "locks_ok d \<longleftrightarrow> distinct (map fst (db_locks d))"

definition raise_lock :: "string \<Rightarrow> number \<Rightarrow> string \<times> number \<Rightarrow> string \<times> number" where
  "raise_lock s u r = (if fst r = s then (s, max (snd r) u) else r)"

lemma fst_raise_lock [simp]: "fst (raise_lock s u r) = fst r"
  by (simp add: raise_lock_def)

lemma lock_rows:
  "db_locks (effect (lock_batch s u now) d) =
     (let kept = filter (\<lambda>r. now < snd r) (db_locks d) in
      if s \<in> fst ` set kept then map (raise_lock s u) kept else kept @ [(s, u)])"
proof -
  have "(\<lambda>(x, v). if x = s then (x, max v u) else (x, v)) = raise_lock s u" by (auto simp: raise_lock_def)
  moreover have "list_ex (\<lambda>(x, _). x = s) rows \<longleftrightarrow> s \<in> fst ` set rows" for rows :: "(string \<times> number) list"
    by (induction rows) auto
  ultimately show ?thesis by (simp add: sql_defs Let_def split_beta not_le)
qed

lemma clear_rows: "db_locks (effect (clear_domain_batch s) d) = filter (\<lambda>r. fst r \<noteq> s) (db_locks d)"
  by (simp add: sql_defs split_beta)

lemma locks_distinct: "locks_ok d \<Longrightarrow> locks_ok (effect (lock_batch s u now) d)" "locks_ok d \<Longrightarrow> locks_ok (effect (clear_domain_batch s) d)"
  by (auto simp: locks_ok_def lock_rows clear_rows Let_def distinct_map_filter comp_def)

lemma lock_row_after:
  "\<exists>v \<ge> u. (s, v) \<in> set (db_locks (effect (lock_batch s u now) d))"
  "(s, v) \<in> set (db_locks d) \<Longrightarrow> now < v \<Longrightarrow> \<exists>v' \<ge> v. (s, v') \<in> set (db_locks (effect (lock_batch s' u now) d))"
proof -
  let ?kept = "filter (\<lambda>r. now < snd r) (db_locks d)"
  have up: "raise_lock x u r \<in> set (db_locks (effect (lock_batch x u now) d)) \<or> r \<in> set (db_locks (effect (lock_batch x u now) d))"
    if "r \<in> set ?kept" for r x using that by (auto simp: lock_rows Let_def)
  show "\<exists>v \<ge> u. (s, v) \<in> set (db_locks (effect (lock_batch s u now) d))"
  proof (cases "s \<in> fst ` set ?kept")
    case True
    then obtain v where v: "(s, v) \<in> set ?kept" by force
    have "raise_lock s u (s, v) = (s, max v u)" by (simp add: raise_lock_def)
    then have "(s, max v u) \<in> raise_lock s u ` set ?kept" using v by (metis imageI)
    with True have "(s, max v u) \<in> set (db_locks (effect (lock_batch s u now) d))" by (simp add: lock_rows)
    then show ?thesis by (meson max.cobounded2)
  qed (auto simp: lock_rows Let_def)
  assume "(s, v) \<in> set (db_locks d)" "now < v"
  then have "(s, v) \<in> set ?kept" by simp
  from up [OF this, of s'] show "\<exists>v' \<ge> v. (s, v') \<in> set (db_locks (effect (lock_batch s' u now) d))"
    by (cases "s' = s") (auto simp: raise_lock_def intro: max.cobounded1)
qed

interpretation locks: table_invariant locks_ok
proof
  show "locks_ok empty_d1" by (simp add: locks_ok_def empty_d1_def)
next
  fix f d
  assume "issued f" and ok: "locks_ok d"
  from this(1) show "locks_ok (f d)"
  proof (cases rule: issued.cases)
    case lock
    then show ?thesis using locks_distinct(1) [OF ok] by simp
  next
    case clear
    then show ?thesis using locks_distinct(2) [OF ok] by simp
  qed (use ok in \<open>auto simp: locks_ok_def sql_defs split: sql_splits\<close>)
qed

lemma ban_set: "locks_ok d \<Longrightarrow> banned s u (effect (lock_batch s u now) d)"
  using locks_distinct(1) [of d s u now] lock_row_after(1) [of u s now d] by (simp add: banned_def locks_ok_def)

lemma ban_kept: "unforgiving s t f \<Longrightarrow> banned s t d \<Longrightarrow> banned s t (f d)"
proof (induction rule: unforgiving.induct)
  case (locks now s')
  then obtain u where u: "u \<ge> t" "(s, u) \<in> set (db_locks d)" by (auto simp: banned_def)
  with locks lock_row_after(2) [OF u(2), of now s' "now + AUTH_LOCKOUT_MS"]
  have "\<exists>v \<ge> t. (s, v) \<in> set (db_locks (effect (lock_batch s' (now + AUTH_LOCKOUT_MS) now) d))"
    by (meson less_le_trans order_trans)
  then show ?case using locks locks_distinct(1) by (simp add: banned_def locks_ok_def)
next
  case (clears s')
  then show ?case using locks_distinct(2) by (auto simp: banned_def locks_ok_def clear_rows)
next
  case (others f)
  then show ?case by (simp add: banned_def)
qed

lemma bans_kept: "list_all (unforgiving s t) fs \<Longrightarrow> banned s t d \<Longrightarrow> banned s t (fold (\<lambda>f. f) fs d)"
  by (induction fs arbitrary: d) (auto intro: ban_kept)

subsection \<open>Claim proofs\<close>

definition proofs_ok :: "d1 \<Rightarrow> bool" where
  "proofs_ok d \<longleftrightarrow> distinct (map cp_proof (db_proofs d))"

lemma create_proof_rows:
  "db_proofs (effect (create_proof_batch p) d) =
     (if cp_proof p \<in> cp_proof ` set (db_proofs d) then db_proofs d
      else filter (\<lambda>r. \<not> cp_expires_at r \<le> cp_created_at p) (db_proofs d @ [p\<lparr>cp_ready_at := 0\<rparr>]))"
  by (auto simp: sql_defs list_ex_iff image_iff)

lemma ready_proofs: "map cp_proof (db_proofs (effect (READY_CLAIM_PROOF_SQL now r u dv) d)) = map cp_proof (db_proofs d)"
  by (simp add: sql_defs)

lemma consume_rows: "db_proofs (effect (CONSUME_CLAIM_PROOF_SQL q u dv now) d) = filter (\<lambda>r. \<not> spendable q u dv now r) (db_proofs d)"
  by (simp add: sql_defs)

interpretation proofs: table_invariant proofs_ok
proof
  show "proofs_ok empty_d1" by (simp add: proofs_ok_def empty_d1_def)
next
  fix f d
  assume "issued f" and ok: "proofs_ok d"
  from proofs_only [OF this(1), of d] ok show "proofs_ok (f d)"
    by (elim disjE exE) (auto simp: proofs_ok_def create_proof_rows ready_proofs consume_rows distinct_map_filter)
qed

text \<open>Writes that do not mint a given proof.\<close>

inductive unminting :: "string \<Rightarrow> (d1 \<Rightarrow> d1) \<Rightarrow> bool" for q where
  mints: "cp_proof p \<noteq> q \<Longrightarrow> unminting q (effect (create_proof_batch p))"
| arms: "unminting q (effect (READY_CLAIM_PROOF_SQL now r u dv))"
| spends: "unminting q (effect (CONSUME_CLAIM_PROOF_SQL q' u dv now))"
| elsewhere: "issued f \<Longrightarrow> (\<And>d. db_proofs (f d) = db_proofs d) \<Longrightarrow> unminting q f"

lemma absent_kept:
  assumes "unminting q f" and "q \<notin> cp_proof ` set (db_proofs d)"
  shows "q \<notin> cp_proof ` set (db_proofs (f d))"
  using assms
proof (induction rule: unminting.induct)
  case (arms now r u dv)
  then show ?case by (metis ready_proofs set_map)
qed (auto simp: create_proof_rows consume_rows)

lemma absent_after: "list_all (unminting q) fs \<Longrightarrow> q \<notin> cp_proof ` set (db_proofs d) \<Longrightarrow> q \<notin> cp_proof ` set (db_proofs (fold (\<lambda>f. f) fs d))"
  by (induction fs arbitrary: d) (auto dest: absent_kept)

lemma spent_absent:
  assumes "proofs_ok d" and "fst (CONSUME_CLAIM_PROOF_SQL q u dv now d) = Inr 1"
  shows "q \<notin> cp_proof ` set (db_proofs (effect (CONSUME_CLAIM_PROOF_SQL q u dv now) d))"
proof -
  have "count_where (spendable q u dv now) (db_proofs d) = 1" using assms(2) by (simp add: CONSUME_CLAIM_PROOF_SQL_def delete_rows_def)
  then obtain r where r: "r \<in> set (db_proofs d)" "spendable q u dv now r"
    by (metis count_where_def filter_False list.size(3) zero_neq_one)
  have "x = r" if "x \<in> set (db_proofs d)" "cp_proof x = q" for x
    using assms(1) r that by (metis distinct_map inj_onD proofs_ok_def spendable_def)
  then show ?thesis using r by (auto simp: consume_rows)
qed

lemma consume_absent: "q \<notin> cp_proof ` set (db_proofs d) \<Longrightarrow> fst (CONSUME_CLAIM_PROOF_SQL q u dv now d) = Inr 0"
  by (auto simp: CONSUME_CLAIM_PROOF_SQL_def delete_rows_def count_where_def filter_empty_conv spendable_def)

subsection \<open>Vaults\<close>

definition vaults_ok :: "d1 \<Rightarrow> bool" where
  "vaults_ok d \<longleftrightarrow> distinct (map va_user_id (db_vaults d)) \<and> (\<forall>r \<in> set (db_vaults d). 0 < va_version r)"

text \<open>The write \<^verbatim>\<open>writeVault\<close> sends: an insertion for version 0, else the update of the version the caller saw.\<close>

definition vault_write :: "vault_row \<Rightarrow> nat \<Rightarrow> nat sql" where
  "vault_write row expected = (if expected = 0 then INSERT_VAULT_SQL row else UPDATE_VAULT_SQL row expected)"

definition vault_version :: "string \<Rightarrow> d1 \<Rightarrow> nat" where
  "vault_version u d = (case row_where (\<lambda>r. va_user_id r = u) (db_vaults d) of None \<Rightarrow> 0 | Some r \<Rightarrow> va_version r)"

definition vault_put :: "vault_row \<Rightarrow> nat \<Rightarrow> vault_row \<Rightarrow> vault_row" where
  "vault_put v e r = (if va_user_id r = va_user_id v \<and> va_version r = e then v else r)"

lemma insert_vault_rows:
  "INSERT_VAULT_SQL v d = (if va_user_id v \<in> va_user_id ` set (db_vaults d) then (Inr 0, d) else (Inr 1, d\<lparr>db_vaults := db_vaults d @ [v]\<rparr>))"
  by (auto simp: sql_defs list_ex_iff image_iff) metis

lemma update_vault_rows:
  "UPDATE_VAULT_SQL v e d =
     (Inr (count_where (\<lambda>r. va_user_id r = va_user_id v \<and> va_version r = e) (db_vaults d)), d\<lparr>db_vaults := map (vault_put v e) (db_vaults d)\<rparr>)"
proof -
  have "(\<lambda>r. if va_user_id r = va_user_id v \<and> va_version r = e
       then r\<lparr>va_ciphertext := va_ciphertext v, va_nonce := va_nonce v, va_kdf := va_kdf v, va_version := va_version v, va_updated_at := va_updated_at v\<rparr>
       else r) = vault_put v e"
    by (auto simp: vault_put_def fun_eq_iff intro!: vault_row.equality)
  then show ?thesis by (simp add: UPDATE_VAULT_SQL_def update_rows_def)
qed

lemma vault_put_user [simp]: "va_user_id (vault_put v e r) = va_user_id r"
  by (simp add: vault_put_def)

lemma vault_put_version: "0 < va_version r \<Longrightarrow> va_version v = e + 1 \<Longrightarrow> 0 < va_version (vault_put v e r)"
  by (simp add: vault_put_def)

interpretation vaults: table_invariant vaults_ok
proof
  show "vaults_ok empty_d1" by (simp add: vaults_ok_def empty_d1_def)
next
  fix f d
  assume "issued f" and ok: "vaults_ok d"
  from vaults_only [OF this(1), of d] ok show "vaults_ok (f d)"
    by (elim disjE exE) (auto simp: vaults_ok_def effect_def insert_vault_rows update_vault_rows comp_def vault_put_version)
qed

lemma vault_found:
  assumes "vaults_ok d" and "r \<in> set (db_vaults d)"
  shows "vault_version (va_user_id r) d = va_version r"
proof -
  obtain r' where r': "row_where (\<lambda>x. va_user_id x = va_user_id r) (db_vaults d) = Some r'"
    using assms(2) by (metis (mono_tags, lifting) find_None_iff not_None_eq row_where_def)
  then have "r' \<in> set (db_vaults d)" "va_user_id r' = va_user_id r" by (auto simp: row_where_def find_Some_iff)
  with assms have "r' = r" by (metis distinct_map inj_onD vaults_ok_def)
  with r' show ?thesis by (simp add: vault_version_def)
qed

lemma vault_missing: "u \<notin> va_user_id ` set (db_vaults d) \<Longrightarrow> vault_version u d = 0"
  by (auto simp: vault_version_def row_where_def find_Some_iff split: option.splits)

lemma vault_version_zero: "vaults_ok d \<Longrightarrow> vault_version u d = 0 \<longleftrightarrow> u \<notin> va_user_id ` set (db_vaults d)"
  using vault_found vault_missing by (fastforce simp: vaults_ok_def)

text \<open>A write wins exactly when the caller saw the version that is stored, and then its row is stored.\<close>

lemma filter_the_one: "distinct xs \<Longrightarrow> r \<in> set xs \<Longrightarrow> filter (\<lambda>x. x = r) xs = [r]"
  by (induction xs) (auto simp: filter_empty_conv)

lemma vault_write_wins:
  assumes ok: "vaults_ok d" and next_v: "va_version v = e + 1"
  shows "fst (vault_write v e d) = Inr (if vault_version (va_user_id v) d = e then 1 else 0)"
    and "vault_version (va_user_id v) d \<noteq> e \<Longrightarrow> effect (vault_write v e) d = d"
    and "vault_version (va_user_id v) d = e \<Longrightarrow> v \<in> set (db_vaults (effect (vault_write v e) d))"
proof -
  have none: "\<not> (va_user_id r = va_user_id v \<and> va_version r = e)" if "vault_version (va_user_id v) d \<noteq> e" "r \<in> set (db_vaults d)" for r
    using vault_found [OF ok that(2)] that(1) by auto
  have one: "count_where (\<lambda>r. va_user_id r = va_user_id v \<and> va_version r = e) (db_vaults d) = 1"
    if "vault_version (va_user_id v) d = e" "e \<noteq> 0"
  proof -
    from that vault_missing obtain r where r: "r \<in> set (db_vaults d)" "va_user_id r = va_user_id v" by (metis imageE)
    then have "va_version r = e" using vault_found [OF ok r(1)] that by simp
    moreover have "filter (\<lambda>x. x = r) (db_vaults d) = [r]"
      using ok r by (auto simp: vaults_ok_def distinct_map intro: filter_the_one)
    moreover have "x = r" if "x \<in> set (db_vaults d)" "va_user_id x = va_user_id v" for x
      using ok r that by (metis distinct_map inj_onD vaults_ok_def)
    then have "filter (\<lambda>x. va_user_id x = va_user_id v \<and> va_version x = e) (db_vaults d) = filter (\<lambda>x. x = r) (db_vaults d)"
      using r \<open>va_version r = e\<close> by (intro filter_cong refl) blast
    ultimately have "filter (\<lambda>x. va_user_id x = va_user_id v \<and> va_version x = e) (db_vaults d) = [r]" by simp
    then show ?thesis by (simp add: count_where_def)
  qed
  show "fst (vault_write v e d) = Inr (if vault_version (va_user_id v) d = e then 1 else 0)"
    using none one vault_version_zero [OF ok, of "va_user_id v"]
    by (auto simp: vault_write_def insert_vault_rows update_vault_rows count_where_def filter_empty_conv)
  show "effect (vault_write v e) d = d" if "vault_version (va_user_id v) d \<noteq> e"
  proof (cases "e = 0")
    case True
    then show ?thesis
      using that vault_version_zero [OF ok, of "va_user_id v"] by (simp add: vault_write_def effect_def insert_vault_rows)
  next
    case False
    have "map (vault_put v e) (db_vaults d) = db_vaults d" using none [OF that] by (intro map_idI) (auto simp: vault_put_def)
    with False show ?thesis by (simp add: vault_write_def effect_def update_vault_rows)
  qed
  show "v \<in> set (db_vaults (effect (vault_write v e) d))" if "vault_version (va_user_id v) d = e"
  proof (cases "e = 0")
    case True
    with that vault_version_zero [OF ok] show ?thesis by (simp add: vault_write_def effect_def insert_vault_rows)
  next
    case False
    from that False vault_missing obtain r where r: "r \<in> set (db_vaults d)" "va_user_id r = va_user_id v" by (metis imageE)
    then have "vault_put v e r = v" using vault_found [OF ok r(1)] that by (simp add: vault_put_def)
    with r False show ?thesis by (auto simp: vault_write_def effect_def update_vault_rows intro!: image_eqI [of _ _ r])
  qed
qed

lemma vault_version_grows:
  assumes "issued f" and ok: "vaults_ok d"
  shows "vault_version u d \<le> vault_version u (f d)"
proof (cases "u \<in> va_user_id ` set (db_vaults d)")
  case False
  then show ?thesis by (simp add: vault_missing)
next
  case True
  then obtain r where r: "r \<in> set (db_vaults d)" "va_user_id r = u" by blast
  have ok': "vaults_ok (f d)" using vaults.kept assms by blast
  from vaults_only [OF assms(1), of d] have "\<exists>r' \<in> set (db_vaults (f d)). va_user_id r' = u \<and> va_version r \<le> va_version r'"
  proof (elim disjE exE conjE)
    fix v e assume v: "va_version v = e + 1" and f: "f = effect (UPDATE_VAULT_SQL v e)"
    have "vault_put v e r \<in> set (db_vaults (f d))" using r by (simp add: f effect_def update_vault_rows)
    moreover have "va_version r \<le> va_version (vault_put v e r)" using v by (simp add: vault_put_def)
    ultimately show ?thesis using r by (metis vault_put_user)
  qed (use r in \<open>auto simp: effect_def insert_vault_rows\<close>)
  then show ?thesis using vault_found [OF ok r(1)] vault_found [OF ok'] r by fastforce
qed

lemma vault_version_after: "list_all issued fs \<Longrightarrow> vaults_ok d \<Longrightarrow> vault_version u d \<le> vault_version u (fold (\<lambda>f. f) fs d)"
  by (induction fs arbitrary: d) (auto intro: order_trans [OF vault_version_grows] vaults.kept)

end
