(* ===== verification/AccountRuns.thy ===== *)
theory AccountRuns
  imports AccountInvariants Flows
begin

text \<open>
  Runs of the worker's handlers in a settled environment, where no other request runs at an
  \<^verbatim>\<open>await\<close> and no call fails: what each operation answers and what it leaves in the world, as
  rewrite rules.
\<close>

section \<open>Settled environments\<close>

definition settled :: "venv \<Rightarrow> bool" where
  "settled en \<longleftrightarrow> (\<forall>n w. v_yield en n w = w) \<and> (\<forall>n. \<not> v_dbFails en n \<and> \<not> v_dbLost en n \<and> \<not> v_roomFails en n)"

lemma settled_concurrent: "settled en \<Longrightarrow> concurrent en"
  by (rule concurrent.solo) (simp add: settled_def)

text \<open>The world after \<open>n\<close> awaits.\<close>

definition later :: "nat \<Rightarrow> world \<Rightarrow> world" where
  "later n w = w\<lparr>w_awaits := n + w_awaits w\<rparr>"

lemma later_fields [simp]:
  "w_db (later n w) = w_db w" "w_buckets (later n w) = w_buckets w" "w_telemetry (later n w) = w_telemetry w"
  "w_decoy (later n w) = w_decoy w" "w_rooms (later n w) = w_rooms w" "w_index (later n w) = w_index w"
  "w_clock (later n w) = w_clock w" "w_draws (later n w) = w_draws w" "later m (later n w) = later (m + n) w"
  by (simp_all add: later_def)

lemma settled_pause: "settled en \<Longrightarrow> pause en w = (Inr (w_awaits w), later 1 w)"
  by (simp add: pause_def settled_def later_def)

lemma settled_dbM: "settled en \<Longrightarrow> dbM en op w = (case op (w_db w) of (r, d) \<Rightarrow> (r, (later 1 w)\<lparr>w_db := d\<rparr>))"
  by (auto simp: dbM_def bindM_def settled_pause on_db_def throw_def ret_def settled_def split: prod.splits sum.splits)

lemma settled_query: "settled en \<Longrightarrow> dbM en (query f) w = (Inr (f (w_db w)), later 1 w)"
  by (simp add: settled_dbM query_def later_def)

lemma settled_hashes:
  assumes "settled en"
  shows "sha256Hex en t w = (Inr (v_sha256Hex en t), later 1 w)" "hmacSha256Hex en p t w = (Inr (v_hmacSha256Hex en p t), later 2 w)"
  by (simp_all add: sha256Hex_def hmacSha256Hex_def bindM_def settled_pause [OF assms] ret_def numeral_2_eq_2)

lemma settled_body: "settled en \<Longrightarrow> read_body en req w = (Inr (readJSON req), later 1 w)"
  by (simp add: read_body_def bindM_def settled_pause ret_def)

lemma settled_one_change:
  "settled en \<Longrightarrow> op (w_db w) = (Inr n, d) \<Longrightarrow> one_change en op w = (Inr (n = 1), (later 1 w)\<lparr>w_db := d\<rparr>)"
  by (simp add: one_change_def bindM_def settled_dbM ret_def)

lemma settled_reads:
  assumes "settled en"
  shows "getUserById en i w = (Inr (row_where (\<lambda>r. us_user_id r = i) (db_users (w_db w))), later 1 w)"
    "getLiveSession en h now w = (Inr (row_where (\<lambda>r. se_token_hash r = h \<and> se_expires_at r > now) (db_sessions (w_db w))), later 1 w)"
    "getDeviceOwner en dv w = (Inr (row_where (\<lambda>r. dv_daemon_id r = dv) (db_owners (w_db w))), later 1 w)"
    "getDaemon en dv w = (Inr (row_where (\<lambda>r. dm_daemon_id r = dv) (db_daemons (w_db w))), later 1 w)"
    "getVault en u w = (Inr (row_where (\<lambda>r. va_user_id r = u) (db_vaults (w_db w))), later 1 w)"
  by (simp_all add: getUserById_def SELECT_USER_BY_ID_SQL_def getLiveSession_def SELECT_SESSION_SQL_def getDeviceOwner_def
      SELECT_DEVICE_OWNER_SQL_def getDaemon_def SELECT_DAEMON_SQL_def getVault_def SELECT_VAULT_SQL_def settled_query assms)

lemmas settled_runs = settled_pause settled_hashes settled_body settled_reads settled_query

lemma refuse_apply [simp]: "refuse en s c w = (Inr (errorJson (buildOf (v_build en)) s c (noStore [])), w)"
  by (simp add: refuse_def ret_def)

lemma answer_apply [simp]: "answer en s b w = (Inr (jsonResponse (buildOf (v_build en)) s b (noStore [])), w)"
  by (simp add: answer_def ret_def)

lemma note_error_apply: "note_error en c i w = (Inr (), snd (note_error en c i w))"
  by (simp add: note_error_def observe_def modifyM_def)

section \<open>Identity\<close>

lemma find_row: "row_where P rows = Some r \<Longrightarrow> r \<in> set rows \<and> P r"
  by (auto simp: row_where_def find_Some_iff)

lemma no_row: "row_where P rows = None \<longleftrightarrow> (\<forall>r \<in> set rows. \<not> P r)"
  by (auto simp: row_where_def find_None_iff)

text \<open>A request speaks for the account \<open>u\<close>: its cookie names a session that is not over, of a user that exists.\<close>

definition speaks_for :: "venv \<Rightarrow> request \<Rightarrow> number \<Rightarrow> d1 \<Rightarrow> user_row \<Rightarrow> bool" where
  "speaks_for en req now d u \<longleftrightarrow>
     (case readSessionToken req of
        None \<Rightarrow> False
      | Some token \<Rightarrow>
          (case row_where (\<lambda>r. se_token_hash r = v_sha256Hex en token \<and> se_expires_at r > now) (db_sessions d) of
             None \<Rightarrow> False
           | Some s \<Rightarrow> row_where (\<lambda>r. us_user_id r = se_user_id s) (db_users d) = Some u))"

lemma settled_identity:
  assumes "settled en"
  shows "\<exists>who t. resolveIdentity en req now w = (Inr who, t)
      \<and> (case who of
           None \<Rightarrow> (\<forall>u. \<not> speaks_for en req now (w_db w) u)
         | Some i \<Rightarrow> speaks_for en req now (w_db w) (id_user i) \<and> (\<exists>token. readSessionToken req = Some token \<and> id_tokenHash i = v_sha256Hex en token))
      \<and> w_rooms t = w_rooms w \<and> w_clock t = w_clock w \<and> w_index t = w_index w \<and> db_owners (w_db t) = db_owners (w_db w)
      \<and> (who \<noteq> None \<longrightarrow> w_db t = w_db w)"
  unfolding resolveIdentity_def speaks_for_def
  by (auto simp: bindM_def settled_runs [OF assms] ret_def deleteSession_def settled_dbM [OF assms] DELETE_SESSION_SQL_def delete_rows_def
      split: option.splits)

text \<open>A session cookie as the browser sends it back.\<close>

definition carries :: "request \<Rightarrow> string \<Rightarrow> bool" where
  "carries req token \<longleftrightarrow> header_or req ''Cookie'' [] = SESSION_COOKIE @ ''='' @ token"

lemma split_on_none: "d \<notin> set s \<Longrightarrow> split_on d s = [s]"
  by (induction s) auto

lemma carried_token:
  assumes "carries req token" and "is_lower_hex 64 token"
  shows "readSessionToken req = Some token"
proof -
  have plain: "c \<notin> {CHR '';'', CHR ''=''} \<and> \<not> is_js_space c" if "c \<in> set (SESSION_COOKIE @ hex_digits)" for c
  proof -
    have "\<forall>c \<in> set (SESSION_COOKIE @ hex_digits). c \<notin> {CHR '';'', CHR ''=''} \<and> \<not> is_js_space c" by code_simp
    then show ?thesis using that by blast
  qed
  have token: "set token \<subseteq> set hex_digits" using assms(2) by (simp add: is_lower_hex_iff)
  have "CHR '';'' \<notin> set (SESSION_COOKIE @ ''='' @ token)" using plain [of "CHR '';''"] token by auto
  moreover have "takeWhile (\<lambda>c. c \<noteq> CHR ''='') (SESSION_COOKIE @ ''='' @ token) = SESSION_COOKIE"
    "dropWhile (\<lambda>c. c \<noteq> CHR ''='') (SESSION_COOKIE @ ''='' @ token) = ''='' @ token"
    by (simp_all add: SESSION_COOKIE_def)
  moreover have "js_trim SESSION_COOKIE = SESSION_COOKIE" "js_trim token = token" using plain token by (auto intro: js_trim_id)
  ultimately show ?thesis using assms by (simp add: readSessionToken_def carries_def split_on_none)
qed

text \<open>A session that was issued, and the table after it was ended.\<close>

lemma issued_session:
  assumes st: "settled en" and iss: "issueSession en uid now w = (Inr (token, expires), t)"
  shows "token = bytesToHex (v_random en (w_draws w) 32)" "expires = now + SESSION_TTL_MS" "db_users (w_db t) = db_users (w_db w)"
    "\<forall>r \<in> set (db_sessions (w_db w)). se_token_hash r \<noteq> v_sha256Hex en token"
    "db_sessions (w_db t) = filter (\<lambda>r. \<not> se_expires_at r \<le> now) (db_sessions (w_db w))
       @ [\<lparr> se_token_hash = v_sha256Hex en token, se_user_id = uid, se_created_at = now, se_expires_at = expires \<rparr>]"
  using iss
  by (auto simp: issueSession_def randomHex_def randomBytes_def bindM_def ret_def settled_runs [OF st] Let_def createSession_def
      settled_dbM [OF st] create_session_batch_def transaction_def INSERT_SESSION_SQL_def insert_row_def PRUNE_SESSIONS_SQL_def delete_rows_def
      list_ex_iff split: if_splits)

lemma row_where_snoc: "\<forall>r \<in> set rows. \<not> P r \<Longrightarrow> row_where P (rows @ [a]) = (if P a then Some a else None)"
  by (induction rows) (auto simp: row_where_def)

lemma issued_session_found:
  assumes st: "settled en" and iss: "issueSession en uid now w = (Inr (token, expires), t)"
  shows "row_where (\<lambda>r. se_token_hash r = v_sha256Hex en token \<and> se_expires_at r > x) (db_sessions (w_db t)) =
      (if x < expires then Some \<lparr> se_token_hash = v_sha256Hex en token, se_user_id = uid, se_created_at = now, se_expires_at = expires \<rparr> else None)"
  unfolding issued_session(5) [OF assms] using issued_session(4) [OF assms] by (subst row_where_snoc) auto

section \<open>Calls to rooms\<close>

definition room_meta :: "world \<Rightarrow> string \<Rightarrow> meta_row option" where
  "room_meta w dv = loadMeta (rm_store (w_rooms w dv))"

lemma body_request_fields:
  "rq_method (body_request path kvs) = ''POST''" "rq_path (body_request path kvs) = path"
  "readJSON (body_request path kvs) = Some (str_object kvs)"
proof -
  have "JSON_stringify kvs \<noteq> []" by (simp add: JSON_stringify_def)
  then show "rq_method (body_request path kvs) = ''POST''" "rq_path (body_request path kvs) = path"
    "readJSON (body_request path kvs) = Some (str_object kvs)"
    by (simp_all add: body_request_def readJSON_def JSON_parse_stringify)
qed

lemma statuses [simp]:
  "rs_status (jsonResponse b s j x) = s" "rs_status (errorJson b s c x) = s"
  by (simp_all add: jsonResponse_def errorJson_def)

text \<open>A call that answers and confirms no claim changes its own room and nothing in the tables.\<close>

lemma settled_room_agrees:
  assumes st: "settled en" and run: "handleRoomFetch (v_roomEnv en dv) (buildOf (v_build en)) req (enter_room dv (later 1 w)) = (Inr res, s)"
    and conf: "rm_confirmed s = rm_confirmed (w_rooms w dv)"
  shows "\<exists>t. room_agrees en dv req w = (Inr (response_ok res), t) \<and> w_db t = w_db w \<and> w_clock t = w_clock w
    \<and> w_draws t = w_draws w \<and> w_buckets t = w_buckets w \<and> room_meta t dv = loadMeta (rm_store s)"
  using st run conf
  by (simp add: room_agrees_def catch_ret_def bindM_def room_fetch_def settled_pause ret_def room_call_def leave_room_def Let_def room_meta_def
      settled_def)

lemma settled_verify:
  assumes st: "settled en" and q: "quiet (v_roomEnv en dv)"
  shows "\<exists>t. verifyRoomEnroll en dv h g w = (Inr (h \<noteq> [] \<and> g \<noteq> [] \<and>
        (case room_meta w dv of None \<Rightarrow> False | Some m \<Rightarrow> m_grant_id m = g \<and> timingSafeEqual (m_reconnect_hash m) h)), t)
    \<and> w_db t = w_db w \<and> w_clock t = w_clock w \<and> w_draws t = w_draws w \<and> w_buckets t = w_buckets w \<and> room_meta t dv = room_meta w dv"
proof -
  let ?req = "body_request ''/internal/verify-enroll'' [(''reconnect_hash'', h), (''grant_id'', g)]"
  let ?ok = "h \<noteq> [] \<and> g \<noteq> [] \<and> verifyEnroll (enter_room dv (later 1 w)) h g"
  let ?b = "buildOf (v_build en)"
  have body: "body_str (Some (str_object [(''reconnect_hash'', h), (''grant_id'', g)])) ''reconnect_hash'' = h"
    "body_str (Some (str_object [(''reconnect_hash'', h), (''grant_id'', g)])) ''grant_id'' = g"
    by (simp_all add: body_str_def jstr_str_object)
  have run: "handleRoomFetch (v_roomEnv en dv) ?b ?req (enter_room dv (later 1 w)) =
      (Inr (if ?ok then jsonResponse ?b 200 ok_true [] else errorJson ?b 400 ''bad_token'' []),
       (enter_room dv (later 1 w))\<lparr>rm_awaits := Suc (rm_awaits (enter_room dv (later 1 w)))\<rparr>)"
    by (simp add: handleRoomFetch_def Let_def with_body_def bindM_apply quiet_prims [OF q] body_request_fields body
        yes_no_def lookM_def ret_def verifyEnroll_def)
  have "verifyEnroll (enter_room dv (later 1 w)) h g \<longleftrightarrow>
      (case room_meta w dv of None \<Rightarrow> False | Some m \<Rightarrow> m_grant_id m = g \<and> timingSafeEqual (m_reconnect_hash m) h)"
    by (simp add: verifyEnroll_def room_meta_def enter_room_def)
  with settled_room_agrees [OF st run] show ?thesis
    by (auto simp: verifyRoomEnroll_def enter_room_def room_meta_def response_ok_def)
qed

lemma enroll_keeps_claims:
  assumes "quiet en"
  shows "\<exists>won t. enroll en h g s = (Inr won, t) \<and> rm_confirmed t = rm_confirmed s
    \<and> won = (case loadMeta (rm_store s) of None \<Rightarrow> True | Some m \<Rightarrow> m_reconnect_hash m = h \<and> m_grant_id m = g)
    \<and> (won \<longrightarrow> map_option m_reconnect_hash (loadMeta (rm_store t)) = Some h \<and> map_option m_grant_id (loadMeta (rm_store t)) = Some g)"
  using quiet_prims(1) [OF assms]
  by (auto simp: enroll_def comp_defs loadMeta_def putMeta_def split: option.splits)

lemma settled_enrollRoom:
  assumes st: "settled en" and q: "quiet (v_roomEnv en dv)"
    and run: "enrollRoom en dv h g w = (Inr ok, t)"
  shows "w_db t = w_db w \<and> w_clock t = w_clock w"
    and "ok \<longleftrightarrow> h \<noteq> [] \<and> g \<noteq> [] \<and> (dv = [] \<or> dv = e_daemonId (v_roomEnv en dv)) \<and>
      (case room_meta w dv of None \<Rightarrow> True | Some m \<Rightarrow> m_reconnect_hash m = h \<and> m_grant_id m = g)"
    and "ok \<Longrightarrow> map_option m_reconnect_hash (room_meta t dv) = Some h \<and> map_option m_grant_id (room_meta t dv) = Some g"
proof -
  let ?kvs = "[(''reconnect_hash'', h), (''grant_id'', g), (''daemon_id'', dv)]"
  let ?s = "enter_room dv (later 1 w)"
  let ?b = "buildOf (v_build en)"
  let ?fetch = "handleRoomFetch (v_roomEnv en dv) ?b (body_request ''/internal/enroll'' ?kvs) ?s"
  have body: "body_str (Some (str_object ?kvs)) ''reconnect_hash'' = h"
    "body_str (Some (str_object ?kvs)) ''grant_id'' = g" "body_str (Some (str_object ?kvs)) ''daemon_id'' = dv"
    by (simp_all add: body_str_def jstr_str_object)
  let ?s1 = "?s\<lparr>rm_awaits := Suc (rm_awaits ?s)\<rparr>"
  have unfold: "?fetch = (if h = [] \<or> g = [] \<or> (dv \<noteq> [] \<and> dv \<noteq> e_daemonId (v_roomEnv en dv))
      then (Inr (errorJson ?b 400 ''bad_token'' []), ?s1)
      else yes_no ?b (errorJson ?b 409 ''internal'' []) (enroll (v_roomEnv en dv) h g) ?s1)"
    by (simp add: handleRoomFetch_def Let_def with_body_def bindM_apply quiet_prims [OF q] body_request_fields body ret_def)
  obtain won s' where enr: "enroll (v_roomEnv en dv) h g ?s1 = (Inr won, s')" and conf': "rm_confirmed s' = rm_confirmed (w_rooms w dv)"
    and won: "won \<longleftrightarrow> (case room_meta w dv of None \<Rightarrow> True | Some m \<Rightarrow> m_reconnect_hash m = h \<and> m_grant_id m = g)"
    and meta': "won \<Longrightarrow> map_option m_reconnect_hash (loadMeta (rm_store s')) = Some h \<and> map_option m_grant_id (loadMeta (rm_store s')) = Some g"
    using enroll_keeps_claims [OF q, of h g ?s1] by (auto simp: enter_room_def room_meta_def)
  let ?no = "h = [] \<or> g = [] \<or> (dv \<noteq> [] \<and> dv \<noteq> e_daemonId (v_roomEnv en dv))"
  obtain res s where fetch: "?fetch = (Inr res, s)" and agreed: "response_ok res \<longleftrightarrow> \<not> ?no \<and> won" and conf: "rm_confirmed s = rm_confirmed (w_rooms w dv)"
    and meta: "response_ok res \<Longrightarrow> map_option m_reconnect_hash (loadMeta (rm_store s)) = Some h \<and> map_option m_grant_id (loadMeta (rm_store s)) = Some g"
  proof
    let ?res = "if ?no then errorJson ?b 400 ''bad_token'' [] else if won then jsonResponse ?b 200 ok_true [] else errorJson ?b 409 ''internal'' []"
    let ?fin = "if ?no then ?s1 else s'"
    show "?fetch = (Inr ?res, ?fin)" unfolding unfold by (simp add: yes_no_def bindM_apply enr ret_def del: One_nat_def)
    show "response_ok ?res \<longleftrightarrow> \<not> ?no \<and> won" by (auto simp: response_ok_def)
    show "rm_confirmed ?fin = rm_confirmed (w_rooms w dv)" using conf' by (simp add: enter_room_def)
    show "map_option m_reconnect_hash (loadMeta (rm_store ?fin)) = Some h \<and> map_option m_grant_id (loadMeta (rm_store ?fin)) = Some g"
      if "response_ok ?res" using that meta' by (auto simp: response_ok_def split: if_splits)
  qed
  from settled_room_agrees [OF st fetch conf] run
  have ok: "ok = response_ok res" "w_db t = w_db w" "w_clock t = w_clock w" "room_meta t dv = loadMeta (rm_store s)"
    by (auto simp: enrollRoom_def)
  then show "w_db t = w_db w \<and> w_clock t = w_clock w" by simp
  show "ok \<longleftrightarrow> h \<noteq> [] \<and> g \<noteq> [] \<and> (dv = [] \<or> dv = e_daemonId (v_roomEnv en dv)) \<and>
      (case room_meta w dv of None \<Rightarrow> True | Some m \<Rightarrow> m_reconnect_hash m = h \<and> m_grant_id m = g)"
    using ok(1) agreed won by blast
  show "map_option m_reconnect_hash (room_meta t dv) = Some h \<and> map_option m_grant_id (room_meta t dv) = Some g" if ok
    using meta that ok by simp
qed

section \<open>Enrolment\<close>

text \<open>The computer \<open>dv\<close> is listed, not kicked, and its room holds the hash \<open>h\<close> under the grant of the listing.\<close>

definition keyed :: "string \<Rightarrow> string \<Rightarrow> world \<Rightarrow> bool" where
  "keyed dv h w \<longleftrightarrow> (\<exists>row m. row \<in> set (db_daemons (w_db w)) \<and> dm_daemon_id row = dv \<and> dm_kicked_at row = None
     \<and> room_meta w dv = Some m \<and> m_grant_id m = dm_grant_id row \<and> timingSafeEqual (m_reconnect_hash m) h)"

lemma observe_apply: "observe f w = (Inr (), w\<lparr>w_telemetry := f (w_telemetry w)\<rparr>)"
  by (simp add: observe_def modifyM_def)

lemmas noted = note_enroll_def note_intent_def note_error_def observe_apply

lemma keyed_telemetry [simp]: "keyed dv h (w\<lparr>w_telemetry := tm\<rparr>) = keyed dv h w"
  by (simp add: keyed_def room_meta_def)

lemma count_where_one: "count_where P rows = 1 \<Longrightarrow> \<exists>r \<in> set rows. P r"
  by (metis (no_types, lifting) count_where_def filter_False list.size(3) zero_neq_one)

lemma bindM_InrE:
  assumes "bindM m k w = (Inr r, t)"
  obtains a s where "m w = (Inr a, s)" "k a s = (Inr r, t)"
  using assms by (auto simp: bindM_def split: prod.splits sum.splits)

lemma enroll_batch_lists:
  assumes "enroll_batch m nonce d = (Inr 1, d')"
  shows "m \<in> set (db_daemons d')"
proof -
  let ?cas = "\<lambda>g. g\<lparr>gr_used := gr_used g + 1, gr_enroll_nonce := Some nonce, gr_last_enroll_at := Some (dm_created_at m)\<rparr>"
  let ?gs = "map (\<lambda>g. if may_enroll m g then ?cas g else g) (db_grants d)"
  have cas: "CAS_ENROLL_SQL nonce (dm_created_at m) (dm_grant_id m) (dm_created_at m - 60000) d
      = (Inr (count_where (may_enroll m) (db_grants d)), d\<lparr>db_grants := ?gs\<rparr>)"
    by (simp add: CAS_ENROLL_SQL_def update_rows_def may_enroll_def [abs_def])
  have "count_where (may_enroll m) (db_grants d) = 1"
    using assms by (auto simp: enroll_batch_def transaction_def bindM_def ret_def cas split: prod.splits sum.splits)
  then obtain g where g: "g \<in> set (db_grants d)" "may_enroll m g" using count_where_one by blast
  then have "?cas g \<in> set ?gs" by force
  moreover have "gr_grant_id (?cas g) = dm_grant_id m" using g(2) by (simp add: may_enroll_def)
  ultimately have "list_ex (\<lambda>g. gr_grant_id g = dm_grant_id m \<and> gr_enroll_nonce g = Some nonce) ?gs"
    unfolding list_ex_iff by - (rule bexI [of _ "?cas g"], simp, assumption)
  then show ?thesis
    using assms by (auto simp: enroll_batch_def transaction_def bindM_def ret_def cas INSERT_DAEMON_SQL_def insert_when_def insert_row_def
      CLEAR_ENROLL_NONCE_SQL_def update_rows_def split: if_splits)
qed

lemma timingSafeEqual_refl: "timingSafeEqual h h"
  by (simp add: timingSafeEqual_def tse_loop_zero_iff)

lemma enroll_listed_keyed:
  assumes st: "settled en" and q: "quiet (v_roomEnv en dv)"
    and listed: "row \<in> set (db_daemons (w_db w))" "dm_daemon_id row = dv" "dm_kicked_at row = None" "dm_grant_id row = g"
    and run: "enroll_listed en dv token h g w = (Inr res, t)" and ok: "rs_status res = 200"
  shows "keyed dv h t"
proof -
  obtain won s where e: "enrollRoom en dv h g w = (Inr won, s)"
    using run by (auto simp: enroll_listed_def bindM_def split: prod.splits sum.splits)
  have won: won
    using run ok e by (rule_tac ccontr) (auto simp: enroll_listed_def bindM_def noted split: prod.splits sum.splits)
  have "t = s\<lparr>w_telemetry := w_telemetry t\<rparr>"
    using run e won by (auto simp: enroll_listed_def bindM_def noted enrollSuccess_def)
  moreover have "keyed dv h s"
    using settled_enrollRoom [OF st q e] won listed by (auto simp: keyed_def timingSafeEqual_refl)
  ultimately show ?thesis by (metis keyed_telemetry)
qed

lemma enroll_again_keyed:
  assumes st: "settled en" and q: "quiet (v_roomEnv en dv)"
    and listed: "row \<in> set (db_daemons (w_db w))" "dm_daemon_id row = dv"
    and run: "enroll_again en row dv token h w = (Inr res, t)" and ok: "rs_status res = 200"
  shows "keyed dv h t"
proof -
  have live: "dm_kicked_at row = None"
    using run ok by (rule_tac ccontr) (auto simp: enroll_again_def bindM_def noted ret_def split: prod.splits sum.splits)
  obtain v s where v: "verifyRoomEnroll en dv h (dm_grant_id row) w = (Inr v, s)" and frame: "w_db s = w_db w" "room_meta s dv = room_meta w dv"
    and holds: "v \<Longrightarrow> \<exists>m. room_meta s dv = Some m \<and> m_grant_id m = dm_grant_id row \<and> timingSafeEqual (m_reconnect_hash m) h"
    using settled_verify [OF st q, of h "dm_grant_id row" w] by (auto split: option.splits)
  show ?thesis
  proof (cases v)
    case True
    then have "t = s\<lparr>w_telemetry := w_telemetry t\<rparr>"
      using run v live by (auto simp: enroll_again_def bindM_def noted ret_def enrollSuccess_def)
    moreover have "keyed dv h s" using holds [OF True] live listed frame by (auto simp: keyed_def)
    ultimately show ?thesis by (metis keyed_telemetry)
  next
    case False
    obtain won s' where e: "enrollRoom en dv h (dm_grant_id row) s = (Inr won, s')"
      using run v live False by (auto simp: enroll_again_def bindM_def ret_def split: prod.splits sum.splits)
    have won: won
      using run ok v live False e by (rule_tac ccontr) (auto simp: enroll_again_def bindM_def ret_def noted)
    have "t = s'\<lparr>w_telemetry := w_telemetry t\<rparr>"
      using run v live False e won by (auto simp: enroll_again_def bindM_def ret_def noted enrollSuccess_def)
    moreover have "keyed dv h s'"
      using settled_enrollRoom [OF st q e] won listed live frame by (auto simp: keyed_def timingSafeEqual_refl)
    ultimately show ?thesis by (metis keyed_telemetry)
  qed
qed

lemma batch_lists:
  assumes st: "settled en" and run: "enrollDaemonBatch en dv g now ip w = (Inr (Suc 0), s)"
  shows "\<exists>row \<in> set (db_daemons (w_db s)). dm_daemon_id row = dv \<and> dm_kicked_at row = None \<and> dm_grant_id row = g"
proof -
  from run obtain nonce u where "randomHex en 16 w = (Inr nonce, u)"
    and "dbM en (enroll_batch \<lparr> dm_daemon_id = dv, dm_grant_id = g, dm_created_at = now, dm_kicked_at = None,
      dm_enroll_ip_hash = Some ip, dm_quota_released_at = None \<rparr> nonce) u = (Inr (Suc 0), s)"
    unfolding enrollDaemonBatch_def by (rule bindM_InrE)
  then have "\<lparr> dm_daemon_id = dv, dm_grant_id = g, dm_created_at = now, dm_kicked_at = None, dm_enroll_ip_hash = Some ip,
      dm_quota_released_at = None \<rparr> \<in> set (db_daemons (w_db s))"
    by (auto simp: settled_dbM [OF st] split: prod.splits dest!: enroll_batch_lists [unfolded One_nat_def])
  then show ?thesis by force
qed

lemma enroll_missed_status: "enroll_missed en grant dv now w = (Inr res, t) \<Longrightarrow> rs_status res \<noteq> 200"
  by (auto simp: enroll_missed_def Let_def noted bindM_def elim!: bindM_InrE split: if_splits prod.splits sum.splits option.splits)

lemma enroll_new_keyed:
  assumes st: "settled en" and q: "quiet (v_roomEnv en dv)"
    and run: "enroll_new en ip dv token h now w = (Inr res, t)" and ok: "rs_status res = 200"
  shows "keyed dv h t"
proof -
  have tail: "keyed dv h t"
    if "(if n \<noteq> Suc 0 then enroll_missed en grant dv now else enroll_listed en dv token h (gr_grant_id grant)) s = (Inr res, t)"
      and "catch_ret (bindM (enrollDaemonBatch en dv (gr_grant_id grant) now ipHash) (\<lambda>n. ret (Some n))) None u = (Inr (Some n), s)"
    for n grant ipHash s u
  proof -
    have n: "n = Suc 0" using that(1) ok by (auto dest: enroll_missed_status split: if_splits)
    with that(2) have "enrollDaemonBatch en dv (gr_grant_id grant) now ipHash u = (Inr (Suc 0), s)"
      by (auto simp: catch_ret_def bindM_def ret_def split: prod.splits sum.splits)
    with batch_lists [OF st this] that(1) n show ?thesis using enroll_listed_keyed [OF st q] ok by (auto simp: Bex_def)
  qed
  show ?thesis
    using run ok unfolding enroll_new_def
    by (auto elim!: bindM_InrE simp: noted split: minted.splits option.splits) (rule tail)
qed

lemma enrolled_keyed:
  assumes st: "settled en" and q: "quiet (v_roomEnv en dv)" and dv: "body_str (readJSON req) ''daemon_id'' = dv"
    and run: "handleEnroll en req w = (Inr res, t)" and ok: "rs_status res = 200"
  shows "keyed dv (v_sha256Hex en (body_str (readJSON req) ''reconnect_token'')) t"
proof -
  obtain y where y: "readJSON req = Some y"
    using run ok unfolding handleEnroll_def
    by (cases "readJSON req") (auto elim!: bindM_InrE simp: noted clock_now_def settled_runs [OF st] Let_def split: if_splits)
  show ?thesis
    using run ok dv q unfolding handleEnroll_def y
    by (auto elim!: bindM_InrE simp: noted clock_now_def settled_runs [OF st] Let_def y split: if_splits option.splits dest!: find_row)
      (metis st enroll_new_keyed, metis st enroll_again_keyed later_fields(1))
qed

end
