(* ===== verification/AccountDemo.thy ===== *)
theory AccountDemo
  imports AccountRuns Demo
begin

text \<open>
  A concrete worker and two requests it serves, for the witnesses: a wrong service token, which
  costs its sender a strike, and the enrolment of a computer.
\<close>

section \<open>The worker\<close>

definition demo_worker :: venv where
  "demo_worker =
     \<lparr> v_pepper = ''pepper'', v_operatorToken = ''operator'', v_bootstrapToken = ''service'', v_build = None, v_sink = False, v_p2pOpen = True,
       v_random = (\<lambda>k n. replicate n (word_of_nat k)), v_sha256Hex = (\<lambda>t. take 64 (t @ replicate 64 (CHR ''0''))),
       v_hmacSha256Hex = (\<lambda>p t. t), v_pbkdf2 = (\<lambda>p s n. map (\<lambda>c. word_of_nat (of_char c)) p),
       v_parseUrl = (\<lambda>_. Some \<lparr> u_protocol = ''https:'', u_username = [], u_password = [], u_host = ''pairfob.com'', u_pathname = ''/'',
         u_search = [], u_hash = [] \<rparr>),
       v_href = (\<lambda>h r. h @ rq_path r), v_resolve = (\<lambda>_ _. None),
       v_dbFails = (\<lambda>_. False), v_dbLost = (\<lambda>_. False), v_roomFails = (\<lambda>_. False), v_indexDown = (\<lambda>_. False),
       v_roomEnv = (\<lambda>_. demo_env), v_assets = None, v_yield = (\<lambda>_ w. w) \<rparr>"

lemma demo_settled: "settled demo_worker"
  by (simp add: settled_def demo_worker_def)

definition demo_post :: "string \<Rightarrow> string \<Rightarrow> request" where
  "demo_post path body =
     \<lparr> rq_method = ''POST'', rq_host = ''pairfob.com'', rq_path = path, rq_query = [],
       rq_headers = [(''origin'', ''https://pairfob.com'')], rq_text = body \<rparr>"

text \<open>A wrong service token: the address that sent it has one strike.\<close>

definition demo_bootstrap :: request where
  "demo_bootstrap = demo_post ''/v2/account/bootstrap'' ''{\"service_token\":\"wrong\",\"password\":\"correct horse\"}''"

definition demo_struck :: world where
  "demo_struck = snd (handleFetch demo_worker demo_bootstrap (new_world 1000))"

lemma demo_struck_reached: "world_reach demo_worker demo_struck"
  unfolding demo_struck_def by (rule world_reach.step [OF world_reach.start world_step.request]) simp

lemma demo_struck_failures: "db_failures (w_db demo_struck) = [\<lparr> af_id = 1, af_subject = ''bootstrap:ip:127.0.0.1'', af_at = 1000 \<rparr>]"
  by code_simp

section \<open>An enrolment\<close>

definition demo_enrol :: request where
  "demo_enrol = \<lparr> rq_method = ''POST'', rq_host = ''pairfob.com'', rq_path = ''/v2/enroll'', rq_query = [], rq_headers = [],
     rq_text = ''{\"v\":2,\"daemon_id\":\"d_00000000000000000000\",\"reconnect_token\":\"rt_00000000000000000000000000000000\"}'' \<rparr>"

lemma demo_enrol_json:
  "readJSON demo_enrol = Some [(''v'', JNum 2), (''daemon_id'', JStr demo_id), (''reconnect_token'', JStr demo_token)]"
  by code_simp

lemma demo_worker_sel [simp]:
  "v_pepper demo_worker = ''pepper''" "v_random demo_worker k n = replicate n (word_of_nat k)" "v_sha256Hex demo_worker demo_token = demo_hash"
  "v_hmacSha256Hex demo_worker p t = t" "v_roomEnv demo_worker dv = demo_env" "v_bootstrapToken demo_worker = ''service''"
  using demo_sha by (simp_all add: demo_worker_def demo_env_def)

definition demo_admitted :: world where
  "demo_admitted = later 3 (snd (limitM (allowEnrollIP ''127.0.0.1'' 1000) (new_world 1000)))"

lemma demo_admitted_fields:
  "w_db demo_admitted = empty_d1" "w_draws demo_admitted = 0" "w_rooms demo_admitted = (\<lambda>_. new_room 1000 demo_index)" "w_clock demo_admitted = 1000"
  by (simp_all add: demo_admitted_def limitM_def new_world_def demo_index_def split: prod.splits)

lemma demo_enrol_start:
  "handleEnroll demo_worker demo_enrol (new_world 1000) =
     enroll_new demo_worker ''127.0.0.1'' demo_id demo_token demo_hash 1000 demo_admitted"
proof -
  have ip: "clientIP demo_enrol = ''127.0.0.1''" "\<not> hasBrowserOrigin demo_enrol" "rq_method demo_enrol = ''POST''" by code_simp+
  obtain s where ok: "limitM (allowEnrollIP ''127.0.0.1'' 1000) (new_world 1000) = (Inr True, s)"
    by (simp add: limitM_def allowEnrollIP_def allow_def new_world_def Let_def split: prod.splits)
  have s: "demo_admitted = later 3 s" by (simp add: demo_admitted_def ok)
  have none: "db_daemons (w_db s) = []" using demo_admitted_fields(1) by (simp add: s empty_d1_def)
  have clock: "w_clock (new_world 1000) = 1000" by (simp add: new_world_def)
  have body: "body_str (readJSON demo_enrol) ''daemon_id'' = demo_id" "body_str (readJSON demo_enrol) ''reconnect_token'' = demo_token"
    "wants_v2 (readJSON demo_enrol)" "readJSON demo_enrol \<noteq> None"
    by (simp_all add: demo_enrol_json body_str_def jstr_def jget_def wants_v2_def body_field_def PROTOCOL_def)
  show ?thesis
    unfolding handleEnroll_def
    by (simp add: bindM_def clock_now_def clock ip ok settled_runs [OF demo_settled] Let_def body demo_ids none row_where_def
        s numeral_3_eq_3)
qed

definition demo_grant :: grant_row where
  "demo_grant = \<lparr> gr_grant_id = ''g_0000000000000000'', gr_grant_hash = v_sha256Hex demo_worker (bytesToHex (replicate 16 1)),
     gr_max_daemons = 1, gr_used = 0, gr_label = Some ''open-enroll'', gr_created_at = 1000, gr_revoked_at = None, gr_last_enroll_at = None,
     gr_enroll_nonce = None \<rparr>"

lemma demo_mint:
  "\<exists>w. mintOpenGrant demo_worker ''127.0.0.1'' 1000 demo_admitted = (Inr (Granted ''g_0000000000000000''), w)
    \<and> w_db w = empty_d1\<lparr>db_grants := [demo_grant], db_self_grants := [\<lparr> sg_grant_id = ''g_0000000000000000'', sg_ip_hash = ''127.0.0.1'', sg_created_at = 1000 \<rparr>]\<rparr>
    \<and> w_draws w = 2 \<and> w_rooms w = (\<lambda>_. new_room 1000 demo_index)"
proof -
  have hex: "bytesToHex (replicate 8 0) = ''0000000000000000''" by code_simp
  show ?thesis
    by (simp add: mintOpenGrant_def bindM_def randomHex_def randomBytes_def ret_def demo_admitted_fields hex catch_ret_def
        settled_runs [OF demo_settled] Let_def insertSelfServeGrant_def settled_dbM [OF demo_settled] self_grant_batch_def transaction_def
        INSERT_SELF_GRANT_SQL_def insert_when_def insert_row_def empty_d1_def INSERT_SELF_GRANT_ROW_SQL_def demo_grant_def
        PRUNE_SELF_GRANTS_SQL_def delete_rows_def count_where_def)
qed

definition demo_computer :: daemon_row where
  "demo_computer = \<lparr> dm_daemon_id = demo_id, dm_grant_id = ''g_0000000000000000'', dm_created_at = 1000, dm_kicked_at = None,
     dm_enroll_ip_hash = Some ''127.0.0.1'', dm_quota_released_at = None \<rparr>"

definition demo_tables :: d1 where
  "demo_tables = empty_d1\<lparr>db_grants := [demo_grant\<lparr>gr_used := 1, gr_last_enroll_at := Some 1000\<rparr>], db_daemons := [demo_computer],
     db_self_grants := [\<lparr> sg_grant_id = ''g_0000000000000000'', sg_ip_hash = ''127.0.0.1'', sg_created_at = 1000 \<rparr>]\<rparr>"

lemma demo_listing:
  assumes "w_db w = empty_d1\<lparr>db_grants := [demo_grant], db_self_grants := [\<lparr> sg_grant_id = ''g_0000000000000000'', sg_ip_hash = ''127.0.0.1'', sg_created_at = 1000 \<rparr>]\<rparr>"
  shows "\<exists>t. enrollDaemonBatch demo_worker demo_id ''g_0000000000000000'' 1000 ''127.0.0.1'' w = (Inr 1, t) \<and> w_db t = demo_tables \<and> w_rooms t = w_rooms w"
  by (simp add: enrollDaemonBatch_def randomHex_def randomBytes_def bindM_def ret_def settled_dbM [OF demo_settled] assms enroll_batch_def transaction_def
      CAS_ENROLL_SQL_def update_rows_def empty_d1_def demo_grant_def INSERT_DAEMON_SQL_def insert_when_def insert_row_def CLEAR_ENROLL_NONCE_SQL_def
      demo_tables_def demo_computer_def count_where_def)

lemma room_agrees_answers: "\<exists>ok t. room_agrees en dv req w = (Inr ok, t)"
  by (auto simp: room_agrees_def catch_ret_def split: prod.splits sum.splits)

lemma demo_enrol_run:
  "\<exists>res t. handleEnroll demo_worker demo_enrol (new_world 1000) = (Inr res, t) \<and> rs_status res = 200 \<and> w_db t = demo_tables"
proof -
  let ?g = "''g_0000000000000000''"
  obtain w1 where w1: "mintOpenGrant demo_worker ''127.0.0.1'' 1000 demo_admitted = (Inr (Granted ?g), w1)"
    and db: "w_db w1 = empty_d1\<lparr>db_grants := [demo_grant], db_self_grants := [\<lparr> sg_grant_id = ?g, sg_ip_hash = ''127.0.0.1'', sg_created_at = 1000 \<rparr>]\<rparr>"
    and rooms: "w_rooms w1 = (\<lambda>_. new_room 1000 demo_index)"
    using demo_mint by blast
  have g: "getGrantById demo_worker ?g w1 = (Inr (Some demo_grant), later 1 w1)" "gr_grant_id demo_grant = ?g"
    by (simp_all add: getGrantById_def SELECT_GRANT_BY_ID_SQL_def settled_query [OF demo_settled] db row_where_def demo_grant_def)
  obtain t where t: "enrollDaemonBatch demo_worker demo_id ?g 1000 ''127.0.0.1'' (later 3 w1) = (Inr 1, t)"
    and dbt: "w_db t = demo_tables" "w_rooms t = (\<lambda>_. new_room 1000 demo_index)"
    using demo_listing [of "later 3 w1"] db rooms by auto
  have "room_meta t demo_id = None" by (simp add: room_meta_def dbt new_room_def new_MemoryStore_def loadMeta_def)
  moreover obtain ok u where u: "enrollRoom demo_worker demo_id demo_hash ?g t = (Inr ok, u)"
    using room_agrees_answers unfolding enrollRoom_def by blast
  ultimately have "ok \<and> w_db u = demo_tables"
    using settled_enrollRoom [OF demo_settled _ u] demo_quiet by (simp add: demo_ids dbt)
  then show ?thesis
    using u t by (simp add: demo_enrol_start enroll_new_def bindM_def w1 g settled_hashes [OF demo_settled] catch_ret_def ret_def
        enroll_listed_def noted enrollSuccess_def)
qed

text \<open>The world after that request.\<close>

definition demo_enrolled :: world where
  "demo_enrolled = snd (handleFetch demo_worker demo_enrol (new_world 1000))"

lemma demo_enrolled_reached: "world_reach demo_worker demo_enrolled"
  unfolding demo_enrolled_def by (rule world_reach.step [OF world_reach.start world_step.request]) simp

lemma demo_enrolled_tables: "w_db demo_enrolled = demo_tables"
proof -
  have "apexRedirect demo_worker demo_enrol = None" "legacyEnRedirect (rq_method demo_enrol) (rq_path demo_enrol) = None"
    "rq_path demo_enrol = ''/v2/enroll''" "rq_method demo_enrol = ''POST''"
    by (simp_all add: demo_enrol_def apexRedirect_def hostname_def legacyEnRedirect_def starts_with_def)
  then have "handleFetch demo_worker demo_enrol = handleEnroll demo_worker demo_enrol" by (simp add: handleFetch_def Let_def)
  then show ?thesis using demo_enrol_run by (auto simp: demo_enrolled_def)
qed

end
