(* ===== verification/AccountProperties.thy ===== *)
theory AccountProperties
  imports AccountDemo
begin

text \<open>
  What the account side of the worker promises: budgets and ownership that hold in every reachable
  world, however requests interleave, and what the handlers of sessions, proofs, vaults and sockets
  do on every branch.
\<close>

section \<open>In every reachable world\<close>

text \<open>(C29) However requests interleave, no source is ever charged more strikes within an hour than the budget of its
  kind: five for a login, twenty for an invite code as a whole, three for the others.\<close>

theorem strike_ledger_bounded:
  assumes "concurrent en" and "world_reach en w"
  shows "count_where (\<lambda>r. af_subject r = subject \<and> x - AUTH_LOCKOUT_MS < af_at r \<and> af_at r \<le> x) (db_failures (w_db w))
    \<le> budget_of subject"
  using ledger.in_every_world [OF assms] by (auto simp: ledger_ok_def dest: windowedD)

theorem strike_ledger_bounded_witness:
  "count_where (\<lambda>r. af_subject r = ''bootstrap:ip:127.0.0.1'' \<and> 1000 - AUTH_LOCKOUT_MS < af_at r \<and> af_at r \<le> 1000)
     (db_failures (w_db demo_struck)) \<le> budget_of ''bootstrap:ip:127.0.0.1''
   \<and> length (db_failures (w_db demo_struck)) = 1 \<and> budget_of ''bootstrap:ip:127.0.0.1'' = 3"
  using strike_ledger_bounded [OF settled_concurrent [OF demo_settled] demo_struck_reached, of "''bootstrap:ip:127.0.0.1''" 1000]
  by (simp add: demo_struck_failures budget_of_def starts_with_def)

text \<open>(C30) In every reachable world there is at most one administrator, no two accounts share an identifier or a name, and
  a computer has at most one owner.\<close>

theorem accounts_unambiguous:
  assumes "concurrent en" and "world_reach en w"
  shows "count_where isAdmin (db_users (w_db w)) \<le> 1
    \<and> distinct (map us_user_id (db_users (w_db w))) \<and> distinct (map us_username (db_users (w_db w)))
    \<and> distinct (map dv_daemon_id (db_owners (w_db w)))"
  using users.in_every_world [OF assms] owners.in_every_world [OF assms] by (simp_all add: users_ok_def owners_ok_def)

theorem accounts_unambiguous_witness:
  "count_where isAdmin (db_users (w_db demo_struck)) \<le> 1 \<and> distinct (map dv_daemon_id (db_owners (w_db demo_struck)))"
  using accounts_unambiguous [OF settled_concurrent [OF demo_settled] demo_struck_reached] by simp

text \<open>(C31) In every reachable world a grant carries at most the computers it allows: those that hold a place of it are not
  more than the places counted as used, and these not more than its maximum; no enrolment is left half-way. And one
  address has taken at most three grants of its own within a day.\<close>

theorem grant_quota_respected:
  assumes "concurrent en" and "world_reach en w" and "g \<in> set (db_grants (w_db w))"
  shows "count_where (\<lambda>m. dm_grant_id m = gr_grant_id g \<and> dm_quota_released_at m = None) (db_daemons (w_db w)) \<le> gr_used g
    \<and> gr_used g \<le> gr_max_daemons g \<and> gr_enroll_nonce g = None
    \<and> count_where (\<lambda>r. sg_ip_hash r = ip \<and> x - SELF_GRANT_WINDOW_MS < sg_created_at r \<and> sg_created_at r \<le> x)
      (db_self_grants (w_db w)) \<le> SELF_GRANT_PER_IP"
  using grants.in_every_world [OF assms(1,2)] self_grants.in_every_world [OF assms(1,2)] assms(3)
  by (auto simp: grants_ok_def list_all_iff grant_ok_def holds_place_def [abs_def] self_grants_ok_def dest: windowedD)

theorem grant_quota_respected_witness:
  "count_where (\<lambda>m. dm_grant_id m = ''g_0000000000000000'' \<and> dm_quota_released_at m = None) (db_daemons (w_db demo_enrolled)) \<le> 1
   \<and> length (db_daemons (w_db demo_enrolled)) = 1 \<and> length (db_self_grants (w_db demo_enrolled)) = 1"
proof -
  have "demo_grant\<lparr>gr_used := 1, gr_last_enroll_at := Some 1000\<rparr> \<in> set (db_grants (w_db demo_enrolled))"
    by (simp add: demo_enrolled_tables demo_tables_def)
  from grant_quota_respected [OF settled_concurrent [OF demo_settled] demo_enrolled_reached this]
  show ?thesis by (simp add: demo_grant_def demo_enrolled_tables demo_tables_def)
qed

section \<open>Sessions\<close>

text \<open>(C32) Signing in and coming back: a request that carries the cookie of an issued session speaks for the user it was
  issued to until the session is over, and for nobody afterwards or once the session is ended.\<close>

theorem session_round_trip:
  assumes st: "settled en" and draw: "length (v_random en (w_draws w) 32) = 32"
    and user: "row_where (\<lambda>r. us_user_id r = us_user_id u) (db_users (w_db w)) = Some u"
    and iss: "issueSession en (us_user_id u) now w = (Inr (token, expires), t)" and req: "carries req token"
  shows "fst (resolveIdentity en req x t) =
      Inr (if x < expires then Some \<lparr> id_user = u, id_tokenHash = v_sha256Hex en token \<rparr> else None)
    \<and> fst (resolveIdentity en req x (snd (deleteSession en (v_sha256Hex en token) t))) = Inr None"
proof (intro conjI)
  have hex: "is_lower_hex 64 token"
    using is_lower_hex_bytesToHex [of "v_random en (w_draws w) 32"] issued_session(1) [OF st iss] draw by simp
  note token = carried_token [OF req hex]
  have "db_users (w_db t) = db_users (w_db w)" by (rule issued_session(3) [OF st iss])
  with user show "fst (resolveIdentity en req x t) = Inr (if x < expires then Some \<lparr> id_user = u, id_tokenHash = v_sha256Hex en token \<rparr> else None)"
    by (simp add: resolveIdentity_def token bindM_def settled_runs [OF st] issued_session_found [OF st iss] ret_def)
  have "row_where (\<lambda>r. se_token_hash r = v_sha256Hex en token \<and> se_expires_at r > x)
      (db_sessions (w_db (snd (deleteSession en (v_sha256Hex en token) t)))) = None"
    by (simp add: no_row deleteSession_def bindM_def settled_dbM [OF st] DELETE_SESSION_SQL_def delete_rows_def ret_def)
  then show "fst (resolveIdentity en req x (snd (deleteSession en (v_sha256Hex en token) t))) = Inr None"
    by (simp add: resolveIdentity_def token bindM_def settled_runs [OF st] ret_def)
qed

definition demo_user :: user_row where
  "demo_user = \<lparr> us_user_id = ''u_1'', us_username = ''admin'', us_password_hash = [], us_role = ROLE_ADMIN, us_created_at = 5 \<rparr>"

definition demo_home :: world where
  "demo_home = (new_world 1000)\<lparr>w_db := empty_d1\<lparr>db_users := [demo_user]\<rparr>\<rparr>"

definition demo_cookie :: "string \<Rightarrow> request" where
  "demo_cookie token = (demo_post ''/v2/account/state'' [])\<lparr>rq_headers := [(''cookie'', SESSION_COOKIE @ ''='' @ token)]\<rparr>"

theorem session_round_trip_witness:
  "let token = bytesToHex (replicate 32 0); t = snd (issueSession demo_worker ''u_1'' 1000 demo_home) in
   fst (resolveIdentity demo_worker (demo_cookie token) 2000 t) = Inr (Some \<lparr> id_user = demo_user, id_tokenHash = v_sha256Hex demo_worker token \<rparr>)
   \<and> fst (resolveIdentity demo_worker (demo_cookie token) 2000 (snd (deleteSession demo_worker (v_sha256Hex demo_worker token) t))) = Inr None"
proof -
  let ?token = "bytesToHex (replicate 32 0)"
  let ?t = "snd (issueSession demo_worker ''u_1'' 1000 demo_home)"
  have iss: "issueSession demo_worker (us_user_id demo_user) 1000 demo_home = (Inr (?token, 1000 + SESSION_TTL_MS), ?t)"
    by (simp add: issueSession_def randomHex_def randomBytes_def bindM_def ret_def settled_runs [OF demo_settled] Let_def createSession_def
      settled_dbM [OF demo_settled] create_session_batch_def transaction_def INSERT_SESSION_SQL_def insert_row_def PRUNE_SESSIONS_SQL_def
      delete_rows_def demo_home_def empty_d1_def new_world_def demo_user_def)
  have req: "carries (demo_cookie ?token) ?token"
  proof -
    have "lower ''Cookie'' = ''cookie''" by code_simp
    then show ?thesis by (simp add: carries_def demo_cookie_def header_or_def headers_get_def)
  qed
  have draw: "length (v_random demo_worker (w_draws demo_home) 32) = 32" by simp
  have user: "row_where (\<lambda>r. us_user_id r = us_user_id demo_user) (db_users (w_db demo_home)) = Some demo_user"
    by (simp add: demo_home_def row_where_def)
  show ?thesis
    using session_round_trip [OF demo_settled draw user iss req, of 2000] by (simp add: Let_def)
qed

section \<open>Claim proofs\<close>

text \<open>(C15) A claim proof is good for one claim: once it was spent, and whatever else is written unless that same proof is
  minted again, a claim by anyone who does not own the computer already is refused with 403.\<close>

theorem claim_proof_single_use:
  assumes st: "settled en" and ok: "proofs_ok d"
    and spent: "fst (CONSUME_CLAIM_PROOF_SQL q u dv now d) = Inr 1"
    and others: "list_all (unminting q) fs"
    and w: "w_db w = fold (\<lambda>f. f) fs (effect (CONSUME_CLAIM_PROOF_SQL q u dv now) d)"
    and stranger: "\<forall>r \<in> set (db_owners (w_db w)). dv_daemon_id r = dv' \<longrightarrow> dv_user_id r \<noteq> u'"
  shows "fst (claim_with en u' dv' q label now' w) = Inr (errorJson (buildOf (v_build en)) 403 ''forbidden'' (noStore []))"
proof -
  have "q \<notin> cp_proof ` set (db_proofs (w_db w))" unfolding w by (rule absent_after [OF others spent_absent [OF ok spent]])
  then obtain t where t: "consumeClaimProof en q u' dv' now' (later (Suc 0) w) = (Inr False, t)"
    using consume_absent [of q "w_db w" u' dv' now']
    by (cases "CONSUME_CLAIM_PROOF_SQL q u' dv' now' (w_db w)") (auto simp: consumeClaimProof_def one_change_def bindM_def settled_dbM [OF st] ret_def split: prod.splits)
  have "\<not> (case row_where (\<lambda>r. dv_daemon_id r = dv') (db_owners (w_db w)) of None \<Rightarrow> False | Some e \<Rightarrow> dv_user_id e = u')"
    using stranger find_row by (fastforce split: option.splits)
  then show ?thesis
    by (simp add: claim_with_def bindM_def settled_runs [OF st] noted t)
qed

definition demo_proof :: claim_proof_row where
  "demo_proof = \<lparr> cp_proof = ''cp_1'', cp_user_id = ''u_1'', cp_daemon_id = demo_id, cp_created_at = 5, cp_expires_at = 600005, cp_ready_at = 7,
     cp_route_id = [] \<rparr>"

theorem claim_proof_single_use_witness:
  "fst (claim_with demo_worker ''u_2'' demo_id ''cp_1'' None 10 ((new_world 10)\<lparr>w_db := empty_d1\<rparr>))
     = Inr (errorJson (buildOf (v_build demo_worker)) 403 ''forbidden'' (noStore []))
   \<and> fst (CONSUME_CLAIM_PROOF_SQL ''cp_1'' ''u_1'' demo_id 9 (empty_d1\<lparr>db_proofs := [demo_proof]\<rparr>)) = Inr 1"
proof -
  let ?d = "empty_d1\<lparr>db_proofs := [demo_proof]\<rparr>"
  have ok: "proofs_ok ?d" by (simp add: proofs_ok_def)
  have spent: "fst (CONSUME_CLAIM_PROOF_SQL ''cp_1'' ''u_1'' demo_id 9 ?d) = Inr 1"
    by (simp add: CONSUME_CLAIM_PROOF_SQL_def delete_rows_def count_where_def spendable_def demo_proof_def)
  have w: "w_db ((new_world 10)\<lparr>w_db := empty_d1\<rparr>) = fold (\<lambda>f. f) [] (effect (CONSUME_CLAIM_PROOF_SQL ''cp_1'' ''u_1'' demo_id 9) ?d)"
    by (simp add: effect_def CONSUME_CLAIM_PROOF_SQL_def delete_rows_def spendable_def demo_proof_def empty_d1_def)
  show ?thesis
    using claim_proof_single_use [OF demo_settled ok spent _ w, of demo_id "''u_2''" None 10] spent by (simp add: empty_d1_def)
qed

section \<open>Vaults\<close>

text \<open>(C16) No update of a vault is lost: of two writers who saw the same version, once the first has won, the second is told it
  lost and changes nothing, whatever is written in between; and the first one's row is what the vault holds until then.\<close>

theorem vault_no_lost_update:
  assumes ok: "vaults_ok d" and v: "va_version v = e + 1" and v': "va_version v' = e + 1" and same: "va_user_id v' = va_user_id v"
    and won: "fst (vault_write v e d) = Inr 1" and between: "list_all issued fs"
    and d': "d' = fold (\<lambda>f. f) fs (effect (vault_write v e) d)"
  shows "fst (vault_write v' e d') = Inr 0 \<and> effect (vault_write v' e) d' = d' \<and> v \<in> set (db_vaults (effect (vault_write v e) d))"
proof (intro conjI)
  let ?d1 = "effect (vault_write v e) d"
  have now: "vault_version (va_user_id v) d = e" by (rule ccontr) (use won vault_write_wins(1) [OF ok v] in simp)
  then show stored: "v \<in> set (db_vaults ?d1)" by (rule vault_write_wins(3) [OF ok v])
  have "issued (effect (vault_write v e))"
    using v issued.new_vault [of v] issued.next_vault [of v e] by (simp add: vault_write_def)
  then have ok1: "vaults_ok ?d1" using vaults.kept ok by blast
  have "vault_version (va_user_id v) ?d1 = e + 1" using vault_found [OF ok1 stored] v by simp
  then have "e + 1 \<le> vault_version (va_user_id v') d'" using vault_version_after [OF between ok1, of "va_user_id v"] by (simp add: d' same)
  then have later: "vault_version (va_user_id v') d' \<noteq> e" by simp
  have ok': "vaults_ok d'" unfolding d' by (rule vaults.after_writes [OF between ok1])
  show "fst (vault_write v' e d') = Inr 0" using vault_write_wins(1) [OF ok' v'] later by simp
  show "effect (vault_write v' e) d' = d'" by (rule vault_write_wins(2) [OF ok' v' later])
qed

definition demo_vault :: "string \<Rightarrow> vault_row" where
  "demo_vault text = \<lparr> va_user_id = ''u_1'', va_ciphertext = text, va_nonce = ''AAAA'', va_kdf = ''x'', va_version = 1, va_updated_at = 5 \<rparr>"

theorem vault_no_lost_update_witness:
  "fst (vault_write (demo_vault ''BBBB'') 0 (effect (vault_write (demo_vault ''AAAA'') 0) empty_d1)) = Inr 0
   \<and> demo_vault ''AAAA'' \<in> set (db_vaults (effect (vault_write (demo_vault ''AAAA'') 0) empty_d1))"
proof -
  have ok: "vaults_ok empty_d1" by (rule vaults.initially)
  have won: "fst (vault_write (demo_vault ''AAAA'') 0 empty_d1) = Inr 1"
    by (simp add: vault_write_def insert_vault_rows empty_d1_def)
  have v: "va_version (demo_vault ''AAAA'') = 0 + 1" "va_version (demo_vault ''BBBB'') = 0 + 1"
    "va_user_id (demo_vault ''BBBB'') = va_user_id (demo_vault ''AAAA'')" by (simp_all add: demo_vault_def)
  show ?thesis using vault_no_lost_update [OF ok v(1,2,3) won, of "[]"] by simp
qed
section \<open>Who reaches a computer\<close>

lemma session_budget_frame:
  "\<exists>ok t. session_budget req role w = (Inr ok, t) \<and> w_db t = w_db w \<and> w_clock t = w_clock w \<and> w_rooms t = w_rooms w"
  by (cases "allowSessionIP (clientIP req) (w_clock w) (w_buckets w)") (auto simp: session_budget_def lookM_def limitM_def ret_def)

lemma refused_access:
  assumes st: "settled en"
    and nobody: "\<And>u. speaks_for en req now (w_db w) u \<Longrightarrow>
      \<exists>r. row_where (\<lambda>r. dv_daemon_id r = dv) (db_owners (w_db w)) = Some r \<and> dv_user_id r \<noteq> us_user_id u"
  shows "\<exists>a t. deviceAccess en dv req now w = (Inr a, t) \<and> \<not> da_allowed a \<and> w_rooms t = w_rooms w"
proof -
  obtain who t where who: "resolveIdentity en req now (later 1 w) = (Inr who, t)" and t: "w_rooms t = w_rooms w"
    and speaks: "\<And>i. who = Some i \<Longrightarrow> speaks_for en req now (w_db w) (id_user i)"
    using settled_identity [OF st, of req now "later 1 w"] by (auto split: option.splits)
  show ?thesis
    using nobody speaks who t
    by (cases who; cases "row_where (\<lambda>r. dv_daemon_id r = dv) (db_owners (w_db w))")
      (fastforce simp: deviceAccess_def bindM_def settled_runs [OF st] Let_def ret_def)+
qed

text \<open>(C33) A browser's WebSocket reaches a computer only for its owner: when the request speaks for nobody, or the
  computer belongs to another account, the upgrade is refused and no room is touched.\<close>

theorem websocket_needs_the_owner:
  assumes st: "settled en" and role: "query_or req ''role'' = ''client''"
    and nobody: "\<And>u. speaks_for en req (w_clock w) (w_db w) u \<Longrightarrow>
      \<exists>r. row_where (\<lambda>r. dv_daemon_id r = query_or req ''daemon_id'') (db_owners (w_db w)) = Some r \<and> dv_user_id r \<noteq> us_user_id u"
  shows "\<exists>res t. routeWs en req w = (Inr res, t) \<and> rs_status res \<noteq> 101 \<and> w_rooms t = w_rooms w"
proof -
  let ?dv = "query_or req ''daemon_id''"
  obtain ok s where budget: "session_budget req ''client'' (later (Suc 0) w) = (Inr ok, s)"
    and s: "w_db s = w_db w" "w_clock s = w_clock w" "w_rooms s = w_rooms w"
    using session_budget_frame [of req "''client''" "later (Suc 0) w"] by auto
  obtain a t where a: "deviceAccess en ?dv req (w_clock w) s = (Inr a, t)" "\<not> da_allowed a" "w_rooms t = w_rooms w"
    using refused_access [OF st, of req "w_clock w" s ?dv] nobody s by metis
  show ?thesis
    by (auto simp: routeWs_def Let_def role bindM_def settled_runs [OF st] budget lookM_def s a forward_ws_def noted ret_def
        unpairedJson_def upgrade_required_def split: option.splits)
qed

definition demo_upgrade_request :: request where
  "demo_upgrade_request =
     \<lparr> rq_method = ''GET'', rq_host = ''pairfob.com'', rq_path = ''/v2/ws'', rq_query = [(''role'', ''client''), (''daemon_id'', demo_id)],
       rq_headers = [(''origin'', ''https://pairfob.com''), (''sec-websocket-protocol'', ''pairfob.v2'')], rq_text = [] \<rparr>"

theorem websocket_needs_the_owner_witness:
  "\<exists>res t. routeWs demo_worker demo_upgrade_request demo_enrolled = (Inr res, t) \<and> rs_status res \<noteq> 101 \<and> w_rooms t = w_rooms demo_enrolled"
proof -
  have none: "readSessionToken demo_upgrade_request = None" by code_simp
  have role: "query_or demo_upgrade_request ''role'' = ''client''" by code_simp
  have "\<not> speaks_for demo_worker demo_upgrade_request (w_clock demo_enrolled) (w_db demo_enrolled) u" for u
    by (simp add: speaks_for_def none)
  then show ?thesis using websocket_needs_the_owner [OF demo_settled role] by blast
qed

section \<open>Enrolment\<close>

text \<open>(C34) A computer told that it is enrolled is: when the request is answered 200, the computer is listed and not kicked,
  and its own room holds the hash of the token it presented, under the grant of the listing.\<close>

theorem enrolled_is_keyed:
  assumes "settled en" and "quiet (v_roomEnv en dv)" and "body_str (readJSON req) ''daemon_id'' = dv"
    and "handleEnroll en req w = (Inr res, t)" and "rs_status res = 200"
  shows "\<exists>row m. row \<in> set (db_daemons (w_db t)) \<and> dm_daemon_id row = dv \<and> dm_kicked_at row = None \<and> room_meta t dv = Some m
    \<and> m_grant_id m = dm_grant_id row
    \<and> timingSafeEqual (m_reconnect_hash m) (v_sha256Hex en (body_str (readJSON req) ''reconnect_token''))"
  using enrolled_keyed [OF assms] unfolding keyed_def .

theorem enrolled_is_keyed_witness:
  "\<exists>row (m :: meta_row). row \<in> set (db_daemons demo_tables) \<and> dm_daemon_id row = demo_id \<and> dm_kicked_at row = None
    \<and> m_grant_id m = dm_grant_id row \<and> timingSafeEqual (m_reconnect_hash m) demo_hash"
proof -
  obtain res t where run: "handleEnroll demo_worker demo_enrol (new_world 1000) = (Inr res, t)" and ok: "rs_status res = 200"
    and t: "w_db t = demo_tables" using demo_enrol_run by blast
  have q: "quiet (v_roomEnv demo_worker demo_id)" using demo_quiet by simp
  have body: "body_str (readJSON demo_enrol) ''daemon_id'' = demo_id" "body_str (readJSON demo_enrol) ''reconnect_token'' = demo_token"
    by (simp_all add: demo_enrol_json body_str_def jstr_def jget_def)
  show ?thesis using enrolled_is_keyed [OF demo_settled q body(1) run ok] by (simp add: t body) blast
qed

end
