(* ===== verification/ClientBytes.thy ===== *)
theory ClientBytes
  imports Envelope Constants
begin

text \<open>
  The byte routines of the phone's protocol library, \<^verbatim>\<open>pwa/src/lib/protocol/bytes.ts\<close>: length prefixes,
  hex, and unpadded base64 in its URL alphabet. The base64 loops keep their bits in a 32-bit integer
  that the source shifts left without masking, so the accumulator is a machine word here. The
  lemmas show that the decoder accepts exactly the encoder's outputs, and inverts it.
\<close>

section \<open>Length prefixes\<close>

definition setBigUint64_le :: "nat \<Rightarrow> byte list" where
  "setBigUint64_le n = map (\<lambda>i. word_of_nat (n div 256 ^ i)) [0..<8]"

definition setBigUint64_be :: "nat \<Rightarrow> byte list" where
  "setBigUint64_be n = rev (setBigUint64_le n)"

definition encStr :: "string \<Rightarrow> byte list" where
  "encStr s = setBigUint64_le (length (text_bytes s)) @ text_bytes s"

definition concat_bytes :: "byte list list \<Rightarrow> byte list" where
  "concat_bytes parts = concat parts"

definition u64be :: "nat \<Rightarrow> byte list" where
  "u64be n = setBigUint64_be n"

definition lenPref :: "byte list \<Rightarrow> byte list" where
  "lenPref b = setBigUint64_le (length b) @ b"

section \<open>Hex\<close>

text \<open>A pair that is not hex is stored as zero; a last odd digit is dropped.\<close>

definition pwa_hexToBytes :: "string \<Rightarrow> byte list" where
  "pwa_hexToBytes h =
     map (\<lambda>i. case parseInt16 (take 2 (drop (2 * i) h)) of None \<Rightarrow> 0 | Some n \<Rightarrow> word_of_int n) [0..<length h div 2]"

definition pwa_bytesToHex :: "byte list \<Rightarrow> string" where
  "pwa_bytesToHex b = concat (map HEX_BYTE b)"

section \<open>Base64, URL alphabet\<close>

definition B64 :: string where
  "B64 = ''ABCDEFGHIJKLMNOPQRSTUVWXYZabcdefghijklmnopqrstuvwxyz0123456789-_''"

text \<open>\<^verbatim>\<open>while (bits >= 6) { bits -= 6; out += B64[(acc >> bits) & 63] }\<close>\<close>

fun b64_emit :: "32 word \<Rightarrow> nat \<Rightarrow> string \<Rightarrow> nat \<times> string" where
  "b64_emit acc bits out =
     (if bits \<ge> 6 then b64_emit acc (bits - 6) (out @ [B64 ! unat (signed_drop_bit (bits - 6) acc AND 63)])
      else (bits, out))"

declare b64_emit.simps [simp del]

fun b64_loop :: "byte list \<Rightarrow> 32 word \<Rightarrow> nat \<Rightarrow> string \<Rightarrow> 32 word \<times> nat \<times> string" where
  "b64_loop [] acc bits out = (acc, bits, out)"
| "b64_loop (c # cs) acc bits out =
     (let acc' = push_bit 8 acc OR ucast c in
      case b64_emit acc' (bits + 8) out of (bits', out') \<Rightarrow> b64_loop cs acc' bits' out')"

definition b64url :: "byte list \<Rightarrow> string" where
  "b64url b =
     (case b64_loop b 0 0 [] of (acc, bits, out) \<Rightarrow>
        if bits \<noteq> 0 then out @ [B64 ! unat (push_bit (6 - bits) acc AND 63)] else out)"

text \<open>The map from characters to their places, built from the alphabet.\<close>

definition b64_value :: "char \<Rightarrow> nat option" where
  "b64_value ch = map_of (zip B64 [0..<length B64]) ch"

fun b64_read :: "string \<Rightarrow> 32 word \<Rightarrow> nat \<Rightarrow> byte list \<Rightarrow> exn + 32 word \<times> nat \<times> byte list" where
  "b64_read [] acc bits out = Inr (acc, bits, out)"
| "b64_read (ch # chs) acc bits out =
     (case b64_value ch of
        None \<Rightarrow> Inl (Error ''b64url'')
      | Some v \<Rightarrow>
          let acc' = push_bit 6 acc OR word_of_nat v; bits' = bits + 6 in
          if bits' \<ge> 8 then b64_read chs acc' (bits' - 8) (out @ [ucast (signed_drop_bit (bits' - 8) acc' AND 0xFF)])
          else b64_read chs acc' bits' out)"

definition b64urlDecode :: "string \<Rightarrow> exn + byte list" where
  "b64urlDecode s =
     (if length s mod 4 = 1 then Inl (Error ''b64url length'')
      else case b64_read s 0 0 [] of
          Inl e \<Rightarrow> Inl e
        | Inr (acc, bits, out) \<Rightarrow>
            if bits > 0 \<and> acc AND (push_bit bits 1 - 1) \<noteq> 0 then Inl (Error ''b64url tail bits'')
            else if b64url out \<noteq> s then Inl (Error ''b64url non-canonical'')
            else Inr out)"

section \<open>Codes people type\<close>

definition normalizeCrockford :: "string \<Rightarrow> string" where
  "normalizeCrockford s =
     map (\<lambda>c. if c = CHR ''I'' \<or> c = CHR ''L'' then CHR ''1'' else if c = CHR ''O'' then CHR ''0''
              else if c = CHR ''U'' then CHR ''V'' else c)
       (filter (\<lambda>c. c \<notin> set '' -/_'') (map toUpper s))"

section \<open>Base64 loses nothing\<close>

text \<open>The low \<open>n\<close> bits of a word, the most significant first, and the bits of a byte string.\<close>

definition low_bits :: "nat \<Rightarrow> 'a::len word \<Rightarrow> bool list" where
  "low_bits n w = map (bit w) (rev [0..<n])"

definition byte_bits :: "byte list \<Rightarrow> bool list" where
  "byte_bits bs = concat (map (low_bits 8) bs)"

definition char_bits :: "char \<Rightarrow> bool list" where
  "char_bits c = (case b64_value c of None \<Rightarrow> [] | Some v \<Rightarrow> low_bits 6 (word_of_nat v :: 32 word))"

definition text_bits :: "string \<Rightarrow> bool list" where
  "text_bits s = concat (map char_bits s)"

lemma length_low_bits [simp]: "length (low_bits n w) = n"
  by (simp add: low_bits_def)

lemma length_byte_bits [simp]: "length (byte_bits bs) = 8 * length bs"
  by (induction bs) (simp_all add: byte_bits_def)

lemma byte_bits_simps [simp]: "byte_bits [] = []" "byte_bits (b # bs) = low_bits 8 b @ byte_bits bs" "byte_bits (xs @ ys) = byte_bits xs @ byte_bits ys"
  by (simp_all add: byte_bits_def)

lemma text_bits_simps [simp]: "text_bits [] = []" "text_bits (c # cs) = char_bits c @ text_bits cs" "text_bits (xs @ ys) = text_bits xs @ text_bits ys"
  by (simp_all add: text_bits_def)

lemma low_bits_eqI: "(\<And>i. i < n \<Longrightarrow> bit v i = bit w i) \<Longrightarrow> low_bits n v = low_bits n w"
  by (simp add: low_bits_def)

lemma nth_low_bits [simp]: "i < n \<Longrightarrow> low_bits n w ! i = bit w (n - Suc i)"
  by (simp add: low_bits_def rev_nth)

lemma low_bits_inj: "low_bits 8 (v :: byte) = low_bits 8 w \<Longrightarrow> v = w"
  by (rule bit_word_eqI) (auto simp: low_bits_def)

lemma byte_bits_inj: "length xs = length ys \<Longrightarrow> byte_bits xs = byte_bits ys \<Longrightarrow> xs = ys"
  by (induction xs ys rule: list_induct2) (auto dest: low_bits_inj)

lemma low_bits_zero:
  assumes "n \<le> 32" and "low_bits n (w :: 32 word) = replicate n False"
  shows "w AND (push_bit n 1 - 1) = 0"
proof -
  have "push_bit n 1 - 1 = (mask n :: 32 word)" by (simp add: mask_eq_exp_minus_1 push_bit_eq_mult)
  moreover have "\<not> bit w i" if "i < n" for i
    using arg_cong [OF assms(2), where f = "\<lambda>xs. xs ! (n - Suc i)"] that by simp
  ultimately show ?thesis by (intro bit_word_eqI) (auto simp: bit_simps)
qed

lemma B64_value: "v < 64 \<Longrightarrow> b64_value (B64 ! v) = Some v"
proof -
  have "distinct B64" "length B64 = 64" by code_simp+
  then show "v < 64 \<Longrightarrow> b64_value (B64 ! v) = Some v"
    by (simp add: b64_value_def map_of_zip_nth)
qed

lemma char_bits_at: "char_bits (B64 ! unat (w AND 63)) = low_bits 6 (w :: 32 word)"
proof -
  have m: "w AND 63 = take_bit 6 w" by (simp add: take_bit_eq_mask mask_eq_exp_minus_1)
  have "unat (w AND 63) < 64" unfolding m using take_bit_nat_less_exp [of 6 "unat w"] by (simp add: unsigned_take_bit_eq)
  then have "char_bits (B64 ! unat (w AND 63)) = low_bits 6 (w AND 63)" by (simp add: char_bits_def B64_value)
  also have "\<dots> = low_bits 6 w" unfolding m by (rule low_bits_eqI) (simp add: bit_simps)
  finally show ?thesis .
qed

lemma accumulate:
  assumes "bits + n \<le> 32" and "\<And>i. n \<le> i \<Longrightarrow> \<not> bit (c :: 32 word) i"
  shows "low_bits (bits + n) (push_bit n acc OR c) = low_bits bits acc @ low_bits n c"
  using assms by (intro nth_equalityI) (auto simp: nth_append bit_simps add.commute [of bits])

lemma drop_bits: "m + n \<le> 32 \<Longrightarrow> low_bits m (signed_drop_bit n (w :: 32 word)) @ low_bits n w = low_bits (m + n) w"
  by (intro nth_equalityI) (auto simp: nth_append bit_simps add.commute [of m])

lemma b64_emit_bits:
  assumes "bits \<le> 32" and "b64_emit acc bits out = (bits', out')"
  shows "bits' < 6" and "text_bits out' @ low_bits bits' acc = text_bits out @ low_bits bits acc"
proof -
  have "bits' < 6 \<and> text_bits out' @ low_bits bits' acc = text_bits out @ low_bits bits acc"
    using assms
  proof (induction acc bits out rule: b64_emit.induct)
    case (1 acc bits out)
    show ?case
    proof (cases "bits \<ge> 6")
      case True
      then have "low_bits 6 (signed_drop_bit (bits - 6) acc) @ low_bits (bits - 6) acc = low_bits bits acc"
        using drop_bits [of 6 "bits - 6" acc] 1 by simp
      then show ?thesis using 1 True by (simp add: b64_emit.simps [of acc bits] char_bits_at)
    next
      case False
      then show ?thesis using 1 by (simp add: b64_emit.simps [of acc bits])
    qed
  qed
  then show "bits' < 6" "text_bits out' @ low_bits bits' acc = text_bits out @ low_bits bits acc" by auto
qed

lemma b64_loop_bits:
  assumes "bits < 6" and "b64_loop bs acc bits out = (acc', bits', out')"
  shows "bits' < 6 \<and> text_bits out' @ low_bits bits' acc' = text_bits out @ low_bits bits acc @ byte_bits bs"
  using assms
proof (induction bs arbitrary: acc bits out)
  case (Cons c cs)
  let ?acc = "push_bit 8 acc OR ucast c :: 32 word"
  obtain b o' where e: "b64_emit ?acc (bits + 8) out = (b, o')" by force
  have "low_bits (bits + 8) ?acc = low_bits bits acc @ low_bits 8 c"
  proof -
    have "low_bits (bits + 8) ?acc = low_bits bits acc @ low_bits 8 (ucast c :: 32 word)"
      using Cons.prems(1) by (intro accumulate) (auto simp: bit_simps dest: bit_imp_le_length)
    moreover have "low_bits 8 (ucast c :: 32 word) = low_bits 8 c" by (intro nth_equalityI) (auto simp: bit_simps)
    ultimately show ?thesis by simp
  qed
  with b64_emit_bits [OF _ e] Cons.prems Cons.IH [of b ?acc o'] e show ?case by (simp add: Let_def)
qed simp

lemma b64_value_less: "b64_value c = Some v \<Longrightarrow> v < 64"
proof -
  have "length B64 = 64" by code_simp
  then show "b64_value c = Some v \<Longrightarrow> v < 64" by (auto simp: b64_value_def dest!: map_of_SomeD set_zip_rightD)
qed

lemma low_byte: "low_bits 8 (ucast (w AND 0xFF) :: byte) = low_bits 8 (w :: 32 word)"
proof -
  have "w AND 0xFF = take_bit 8 w" by (simp add: take_bit_eq_mask mask_eq_exp_minus_1)
  then show ?thesis by (intro nth_equalityI) (auto simp: bit_simps)
qed

lemma b64_read_bits:
  assumes "bits < 8" and "b64_read s acc bits out = Inr (acc', bits', out')"
  shows "bits' < 8 \<and> byte_bits out' @ low_bits bits' acc' = byte_bits out @ low_bits bits acc @ text_bits s"
  using assms
proof (induction s arbitrary: acc bits out)
  case (Cons ch chs)
  then obtain v where v: "b64_value ch = Some v" by (auto split: option.splits)
  let ?acc = "push_bit 6 acc OR word_of_nat v :: 32 word"
  have small: "\<not> bit (word_of_nat v :: 32 word) i" if "6 \<le> i" for i
  proof -
    have "take_bit 6 v = v" using b64_value_less [OF v] by (simp add: take_bit_nat_eq_self)
    then have "take_bit 6 (word_of_nat v :: 32 word) = word_of_nat v" by (simp add: take_bit_of_nat)
    then show ?thesis using that by (metis bit_take_bit_iff not_le)
  qed
  have acc: "low_bits (bits + 6) ?acc = low_bits bits acc @ char_bits ch"
    using Cons.prems(1) accumulate [of bits 6 "word_of_nat v" acc] small by (simp add: char_bits_def v)
  show ?case
  proof (cases "bits + 6 \<ge> 8")
    case True
    let ?b = "ucast (signed_drop_bit (bits - 2) ?acc AND 0xFF) :: byte"
    have "low_bits 8 ?b = low_bits 8 (signed_drop_bit (bits - 2) ?acc)"
      by (rule low_byte)
    then have "low_bits 8 ?b @ low_bits (bits - 2) ?acc = low_bits (bits + 6) ?acc"
      using drop_bits [of 8 "bits - 2" ?acc] True Cons.prems(1) by (simp add: add.commute)
    then show ?thesis
      using Cons.IH [of "bits - 2" ?acc "out @ [?b]"] Cons.prems True acc by (simp add: v Let_def)
  next
    case False
    then show ?thesis using Cons.IH [of "bits + 6" ?acc out] Cons.prems acc by (simp add: v Let_def)
  qed
qed simp

lemma text_bits_b64url: "\<exists>z < 6. text_bits (b64url bs) = byte_bits bs @ replicate z False"
proof -
  obtain acc bits out where l: "b64_loop bs 0 0 [] = (acc, bits, out)" by (metis prod_cases3)
  then have b: "bits < 6" "text_bits out @ low_bits bits acc = byte_bits bs" using b64_loop_bits [OF _ l] by (auto simp: low_bits_def)
  show ?thesis
  proof (cases "bits = 0")
    case True
    then show ?thesis using b by (auto simp: b64url_def l low_bits_def)
  next
    case False
    have "low_bits 6 (push_bit (6 - bits) acc) = low_bits bits acc @ replicate (6 - bits) False"
      using b(1) by (intro nth_equalityI) (auto simp: nth_append bit_simps)
    then have "text_bits (b64url bs) = byte_bits bs @ replicate (6 - bits) False"
      using b False by (simp add: b64url_def l char_bits_at)
    moreover have "6 - bits < 6" using False b by simp
    ultimately show ?thesis by blast
  qed
qed

text \<open>Every character the encoder writes has a value.\<close>

definition b64_text :: "string \<Rightarrow> bool" where
  "b64_text s = list_all (\<lambda>c. b64_value c \<noteq> None) s"

lemma b64_char [simp]: "\<exists>v. b64_value (B64 ! unat (w AND 63 :: 32 word)) = Some v"
  using char_bits_at [of w] by (auto simp: char_bits_def low_bits_def split: option.splits)

lemma b64_emit_text: "b64_text out \<Longrightarrow> b64_emit acc bits out = (bits', out') \<Longrightarrow> b64_text out'"
proof (induction acc bits out rule: b64_emit.induct)
  case (1 acc bits out)
  then show ?case using b64_char by (simp add: b64_emit.simps [of acc bits] b64_text_def split: if_splits)
qed

lemma b64_loop_text: "b64_text out \<Longrightarrow> b64_loop bs acc bits out = (acc', bits', out') \<Longrightarrow> b64_text out'"
  by (induction bs arbitrary: acc bits out) (auto simp: Let_def dest: b64_emit_text split: prod.splits)

lemma b64url_text: "b64_text (b64url bs)"
proof -
  obtain acc bits out where l: "b64_loop bs 0 0 [] = (acc, bits, out)" by (metis prod_cases3)
  then have "b64_text out" using b64_loop_text [OF _ l] by (simp add: b64_text_def)
  then show ?thesis using b64_char [of "push_bit (6 - bits) acc"] by (simp add: b64url_def l b64_text_def)
qed

lemma text_bits_length: "b64_text s \<Longrightarrow> length (text_bits s) = 6 * length s"
  by (induction s) (auto simp: b64_text_def char_bits_def)

lemma b64_read_succeeds: "b64_text s \<Longrightarrow> \<exists>r. b64_read s acc bits out = Inr r"
  by (induction s arbitrary: acc bits out) (auto simp: b64_text_def Let_def)

lemma b64urlDecode_b64url: "b64urlDecode (b64url bs) = Inr bs"
proof -
  obtain z where z: "z < 6" "text_bits (b64url bs) = byte_bits bs @ replicate z False" using text_bits_b64url by blast
  have len: "6 * length (b64url bs) = 8 * length bs + z" using text_bits_length [OF b64url_text, of bs] z(2) by simp
  have mod4: "length (b64url bs) mod 4 \<noteq> 1"
  proof
    assume "length (b64url bs) mod 4 = 1"
    then obtain k where "length (b64url bs) = 4 * k + 1" by (metis mult_div_mod_eq)
    with len have "24 * k + 6 = 8 * length bs + z" by simp
    then have "(24 * k + 6) mod 8 = (8 * length bs + z) mod 8" by simp
    moreover have "(24 * k + 6) mod 8 = 6" by presburger
    ultimately show False using z(1) by simp
  qed
  obtain acc bits out where r: "b64_read (b64url bs) 0 0 [] = Inr (acc, bits, out)"
    using b64_read_succeeds [OF b64url_text] by (metis prod_cases3)
  then have b: "bits < 8" "byte_bits out @ low_bits bits acc = byte_bits bs @ replicate z False"
    using b64_read_bits [OF _ r] z(2) by (auto simp: low_bits_def)
  have "8 * length out + bits = 8 * length bs + z" using arg_cong [OF b(2), where f = length] by simp
  then have same: "length out = length bs" "bits = z" using b(1) z(1) by presburger+
  have "byte_bits out = byte_bits bs" "low_bits bits acc = replicate z False"
    using b(2) same by (auto simp: append_eq_append_conv)
  then have "out = bs" "acc AND (push_bit bits 1 - 1) = 0"
    using byte_bits_inj [OF same(1)] low_bits_zero [of bits acc] b(1) same by auto
  then show ?thesis using mod4 r by (simp add: b64urlDecode_def)
qed

lemma b64_length: "6 * length (b64url bs) < 8 * length bs + 6"
proof -
  obtain z where "z < 6" "text_bits (b64url bs) = byte_bits bs @ replicate z False" using text_bits_b64url by blast
  then show ?thesis using text_bits_length [OF b64url_text, of bs] by simp
qed

end
