(* ===== verification/ClientWire.thy ===== *)
theory ClientWire
  imports ClientBytes JsonPrint
begin

text \<open>
  The phone's half of the wire format, under \<^verbatim>\<open>pwa/src/lib/protocol\<close>: the envelope (\<^verbatim>\<open>envelope.ts\<close>), the
  bodies of the control frames (\<^verbatim>\<open>mux.ts\<close>), heartbeats, exact base64 fields and the queue of frames that
  arrive before anyone waits for them (\<^verbatim>\<open>frame-socket.ts\<close>). An error is the code the application acts
  on; the texts shown to people are not modelled.
\<close>

section \<open>Errors\<close>

datatype client_error = ProtocolError string | OtherError string

type_synonym 'a fallible = "client_error + 'a"

fun plain :: "exn \<Rightarrow> client_error" where
  "plain (Error m) = OtherError m"

section \<open>The envelope\<close>

text \<open>The phone declares its own version, header size and limit; none of them is shared with the relay's.\<close>

definition pwa_ENVELOPE_VERSION :: nat where [simp]: "pwa_ENVELOPE_VERSION = 1"
definition pwa_HEADER_SIZE :: nat where [simp]: "pwa_HEADER_SIZE = 24"
definition pwa_MAX_PAYLOAD :: nat where [simp]: "pwa_MAX_PAYLOAD = 262144"

definition pwa_KNOWN_TYPES :: "nat list" where
  "pwa_KNOWN_TYPES = [0x01, 0x02, 0x03, 0x04, 0x05, 0x06, 0x07, 0x08, 0x09, 0x0b, 0x0c, 0x0d, 0x0e, 0x0f]"

definition pwa_validateFrame :: "frame \<Rightarrow> unit fallible" where
  "pwa_validateFrame frame =
     (if f_version frame \<noteq> pwa_ENVELOPE_VERSION then Inl (OtherError ''unsupported envelope version'')
      else if f_flags frame \<noteq> 0 then Inl (OtherError ''unsupported envelope flags'')
      else if f_typ frame \<notin> set pwa_KNOWN_TYPES then Inl (OtherError ''unknown envelope type'')
      else if length (f_routeId frame) \<noteq> 16 then Inl (OtherError ''route_id must be 16 bytes'')
      else if length (f_payload frame) > pwa_MAX_PAYLOAD then Inl (OtherError ''payload length exceeds'')
      else Inr ())"

definition pwa_encode :: "frame \<Rightarrow> byte list fallible" where
  "pwa_encode frame =
     (case pwa_validateFrame frame of
        Inl e \<Rightarrow> Inl e
      | Inr _ \<Rightarrow> Inr ([word_of_nat (f_version frame), word_of_nat (f_typ frame)]
                    @ setUint16 (f_flags frame) @ setUint32 (length (f_payload frame))
                    @ f_routeId frame @ f_payload frame))"

definition pwa_decode :: "byte list \<Rightarrow> frame fallible" where
  "pwa_decode bytes =
     (if length bytes < pwa_HEADER_SIZE then Inl (OtherError ''short frame'')
      else let len = getUint32 bytes 4 in
        if len > pwa_MAX_PAYLOAD then Inl (OtherError ''payload length exceeds'')
        else if len + pwa_HEADER_SIZE \<noteq> length bytes then Inl (OtherError ''length mismatch'')
        else let frame = \<lparr> f_version = unat (bytes ! 0), f_typ = unat (bytes ! 1), f_flags = getUint16 bytes 2,
                           f_routeId = take 16 (drop 8 bytes), f_payload = drop pwa_HEADER_SIZE bytes \<rparr>
             in case pwa_validateFrame frame of Inl e \<Rightarrow> Inl e | Inr _ \<Rightarrow> Inr frame)"

text \<open>
  \<^verbatim>\<open>TextDecoder("utf-8", { fatal: true })\<close>: ill-formed bytes throw, a leading byte order mark is dropped. A
  string is the sequence of its UTF-8 bytes.
\<close>

definition cont :: "byte \<Rightarrow> bool" where
  "cont b \<longleftrightarrow> 0x80 \<le> b \<and> b \<le> 0xBF"

fun utf8_valid :: "byte list \<Rightarrow> bool" where
  "utf8_valid [] = True"
| "utf8_valid (a # bs) =
     (if a \<le> 0x7F then utf8_valid bs
      else if 0xC2 \<le> a \<and> a \<le> 0xDF then (case bs of b # r \<Rightarrow> cont b \<and> utf8_valid r | _ \<Rightarrow> False)
      else if 0xE0 \<le> a \<and> a \<le> 0xEF then
        (case bs of b # c # r \<Rightarrow> cont b \<and> cont c \<and> (a = 0xE0 \<longrightarrow> 0xA0 \<le> b) \<and> (a = 0xED \<longrightarrow> b \<le> 0x9F) \<and> utf8_valid r | _ \<Rightarrow> False)
      else if 0xF0 \<le> a \<and> a \<le> 0xF4 then
        (case bs of b # c # d # r \<Rightarrow> cont b \<and> cont c \<and> cont d \<and> (a = 0xF0 \<longrightarrow> 0x90 \<le> b) \<and> (a = 0xF4 \<longrightarrow> b \<le> 0x8F) \<and> utf8_valid r
         | _ \<Rightarrow> False)
      else False)"

definition decodeUTF8 :: "byte list \<Rightarrow> string fallible" where
  "decodeUTF8 bytes =
     (if \<not> utf8_valid bytes then Inl (OtherError ''invalid utf-8'')
      else Inr (utf8_decode (if take 3 bytes = [0xEF, 0xBB, 0xBF] then drop 3 bytes else bytes)))"

definition jsonFrame :: "nat \<Rightarrow> byte list \<Rightarrow> json \<Rightarrow> frame fallible" where
  "jsonFrame typ routeId ob =
     (let frame = \<lparr> f_version = pwa_ENVELOPE_VERSION, f_typ = typ, f_flags = 0, f_routeId = routeId,
                     f_payload = text_bytes (print_json ob) \<rparr>
      in case pwa_validateFrame frame of Inl e \<Rightarrow> Inl e | Inr _ \<Rightarrow> Inr frame)"

definition JSON_parse_bytes :: "byte list \<Rightarrow> json fallible" where
  "JSON_parse_bytes payload =
     (case decodeUTF8 payload of
        Inl e \<Rightarrow> Inl e
      | Inr text \<Rightarrow> (case JSON_parse text of None \<Rightarrow> Inl (OtherError ''JSON'') | Some v \<Rightarrow> Inr v))"

definition parseJSON :: "frame \<Rightarrow> json fallible" where
  "parseJSON frame = JSON_parse_bytes (f_payload frame)"

text \<open>\<^verbatim>\<open>value.k\<close> of a parsed value: \<^verbatim>\<open>null\<close> throws, what is not an object has no such property.\<close>

definition property_of :: "json \<Rightarrow> string \<Rightarrow> json option fallible" where
  "property_of v k =
     (case v of JNull \<Rightarrow> Inl (OtherError ''TypeError'') | JObj ob \<Rightarrow> Inr (jget ob k) | _ \<Rightarrow> Inr None)"

section \<open>Control frames\<close>

datatype mux_protocol = V1 | V2

fun mux_number :: "mux_protocol \<Rightarrow> number" where
  "mux_number V1 = 1"
| "mux_number V2 = 2"

definition SUBPROTOCOL_V1 :: string where "SUBPROTOCOL_V1 = ''pairfob.v1''"
definition SUBPROTOCOL_V2 :: string where "SUBPROTOCOL_V2 = ''pairfob.v2''"

fun muxSubprotocol :: "mux_protocol \<Rightarrow> string" where
  "muxSubprotocol V2 = SUBPROTOCOL_V2"
| "muxSubprotocol V1 = SUBPROTOCOL_V1"

text \<open>The path of the relay's URL, when it parses, decides the version.\<close>

definition muxProtocolFromRelayURL :: "(string \<Rightarrow> string option) \<Rightarrow> string \<Rightarrow> mux_protocol" where
  "muxProtocolFromRelayURL url_path relayWS = (if url_path relayWS = Some ''/v2/ws'' then V2 else V1)"

definition helloClientBody :: "mux_protocol \<Rightarrow> json" where
  "helloClientBody protocol = JObj [(''v'', JNum (mux_number protocol)), (''protocol'', JNum (mux_number protocol))]"

definition pairAttachBody :: "mux_protocol \<Rightarrow> string option \<Rightarrow> json fallible" where
  "pairAttachBody protocol pairRef =
     (let given = (case pairRef of None \<Rightarrow> False | Some r \<Rightarrow> r \<noteq> []) in
      case protocol of
        V2 \<Rightarrow> if \<not> given then Inl (ProtocolError ''invalid_pair_ref'')
              else Inr (JObj [(''v'', JNum 2), (''pair_ref'', JStr (the pairRef))])
      | V1 \<Rightarrow> Inr (JObj (if given then [(''v'', JNum 1), (''pair_ref'', JStr (the pairRef))] else [(''v'', JNum 1)])))"

definition sessionAttachBody :: "mux_protocol \<Rightarrow> string \<Rightarrow> json" where
  "sessionAttachBody protocol daemonId = JObj [(''v'', JNum (mux_number protocol)), (''daemon_id'', JStr daemonId)]"

section \<open>Fields and heartbeats\<close>

definition Z16 :: "byte list" where "Z16 = replicate 16 0"
definition HEARTBEAT_MS :: number where [simp]: "HEARTBEAT_MS = 25000"
definition MAX_HANDSHAKE_QUEUE :: nat where [simp]: "MAX_HANDSHAKE_QUEUE = 64"

definition enqueueHandshakeFrame :: "frame list \<Rightarrow> frame \<Rightarrow> frame list fallible" where
  "enqueueHandshakeFrame queue frame =
     (if length queue \<ge> MAX_HANDSHAKE_QUEUE then Inl (ProtocolError ''backpressure'') else Inr (queue @ [frame]))"

definition heartbeatPayload :: "nat \<Rightarrow> byte list fallible" where
  "heartbeatPayload counter =
     (if counter > 2 ^ 64 - 1 then Inl (OtherError ''heartbeat counter'') else Inr (setBigUint64_be counter))"

definition requireHeartbeatPayload :: "byte list \<Rightarrow> unit fallible" where
  "requireHeartbeatPayload payload = (if length payload \<noteq> 8 then Inl (ProtocolError ''bad_frame'') else Inr ())"

fun diff_bytes :: "byte list \<Rightarrow> byte list \<Rightarrow> byte \<Rightarrow> byte" where
  "diff_bytes (a # as) (b # bs) diff = diff_bytes as bs (diff OR (a XOR b))"
| "diff_bytes _ _ diff = diff"

definition sameBytes :: "byte list \<Rightarrow> byte list \<Rightarrow> bool" where
  "sameBytes a b = (if length a \<noteq> length b then False else diff_bytes a b 0 = 0)"

text \<open>\<^verbatim>\<open>/^[A-Za-z0-9_-]+$/\<close>, then the decoder, then the length and the encoding again.\<close>

definition parseExactB64 :: "json option \<Rightarrow> nat \<Rightarrow> byte list fallible" where
  "parseExactB64 value bytes =
     (case value of
        Some (JStr s) \<Rightarrow>
          if s = [] \<or> \<not> list_all (\<lambda>c. c \<in> set B64) s then Inl (ProtocolError ''bad_message'')
          else (case b64urlDecode s of
              Inl e \<Rightarrow> Inl (plain e)
            | Inr decoded \<Rightarrow>
                if length decoded \<noteq> bytes \<or> b64url decoded \<noteq> s then Inl (ProtocolError ''bad_message'') else Inr decoded)
      | _ \<Rightarrow> Inl (ProtocolError ''bad_message''))"

text \<open>\<^verbatim>\<open>String(x || d)\<close> on the code of an error body.\<close>

definition code_or :: "string \<Rightarrow> json option \<Rightarrow> string" where
  "code_or d v = (case v of Some (JStr s) \<Rightarrow> if s = [] then d else s | Some (JBool True) \<Rightarrow> ''true'' | None \<Rightarrow> d | Some JNull \<Rightarrow> d
     | Some (JBool False) \<Rightarrow> d | Some (JNum n) \<Rightarrow> if n = 0 then d else ''number'' | Some (JArr _) \<Rightarrow> ''list'' | Some (JObj _) \<Rightarrow> ''[object Object]'')"

definition envelopeError :: "frame \<Rightarrow> client_error" where
  "envelopeError frame =
     (case parseJSON frame of
        Inl _ \<Rightarrow> ProtocolError ''error''
      | Inr body \<Rightarrow> (case property_of body ''code'' of Inl _ \<Rightarrow> ProtocolError ''error'' | Inr c \<Rightarrow> ProtocolError (code_or ''error'' c)))"

section \<open>Facts\<close>

text \<open>The phone and the relay speak the same envelope: they accept the same frames and the same bytes.\<close>

lemma known_types_agree: "pwa_KNOWN_TYPES = KNOWN_TYPES"
  by (simp add: pwa_KNOWN_TYPES_def KNOWN_TYPES_def)

lemma pwa_validateFrame_iff: "pwa_validateFrame f = Inr u \<longleftrightarrow> validateFrame f = Inr u"
  by (simp add: known_types_agree pwa_validateFrame_def validateFrame_def knownType_def)

lemma pwa_encode_iff: "pwa_encode f = Inr w \<longleftrightarrow> encode f = Inr w"
  using pwa_validateFrame_iff [of f "()"]
  by (cases "pwa_validateFrame f"; cases "validateFrame f") (simp_all add: pwa_encode_def encode_def)

lemma pwa_decode_iff: "pwa_decode w = Inr f \<longleftrightarrow> decode w = Inr f"
proof -
  let ?g = "\<lparr> f_version = unat (w ! 0), f_typ = unat (w ! 1), f_flags = getUint16 w 2,
              f_routeId = take 16 (drop 8 w), f_payload = drop 24 w \<rparr>"
  have "(case pwa_validateFrame ?g of Inl e \<Rightarrow> Inl e | Inr _ \<Rightarrow> Inr ?g) = Inr f \<longleftrightarrow>
        (case validateFrame ?g of Inl e \<Rightarrow> Inl e | Inr _ \<Rightarrow> Inr ?g) = Inr f"
    using pwa_validateFrame_iff [of ?g "()"] by (cases "pwa_validateFrame ?g"; cases "validateFrame ?g") simp_all
  then show ?thesis unfolding pwa_decode_def decode_def Let_def pwa_HEADER_SIZE_def HEADER_SIZE_def by simp
qed

text \<open>What the phone puts on the wire is what the relay reads, by its decoder and by its fast path.\<close>

lemma pwa_wire_at_relay:
  assumes "pwa_encode f = Inr w"
  shows "decode w = Inr f" and "decodeFwdMessage (BinaryMessage w) = (if f_typ f = Typ_FWD then FwdWire w else NotFwd)"
proof -
  show d: "decode w = Inr f" using assms by (simp add: pwa_encode_iff decode_Inr_iff)
  have "validateFrame f = Inr ()" and w: "encode f = Inr w"
    using assms by (auto simp: pwa_encode_iff encode_def split: sum.splits)
  then have small: "f_typ f < 256" by (auto simp: validateFrame_ok intro: knownType_lt)
  have b: "2 \<le> length w" "w ! 1 = word_of_nat (f_typ f)" using w by (auto simp: encode_def split: sum.splits)
  have "w ! 1 = word_of_nat Typ_FWD \<longleftrightarrow> unat (w ! 1) = Typ_FWD" by (rule unat_eq_iff_byte [symmetric]) simp
  also have "\<dots> \<longleftrightarrow> f_typ f = Typ_FWD" using small by (simp only: b(2) unat_byte_of_nat mod_less)
  finally show "decodeFwdMessage (BinaryMessage w) = (if f_typ f = Typ_FWD then FwdWire w else NotFwd)"
    using d b(1) unfolding decodeFwdMessage_reference asBytes.simps by simp
qed

lemma diff_bytes_zero: "length a = length b \<Longrightarrow> diff_bytes a b d = 0 \<longleftrightarrow> d = 0 \<and> a = b"
proof (induction a b arbitrary: d rule: list_induct2)
  case (Cons x xs y ys)
  have "d OR (x XOR y) = 0 \<longleftrightarrow> d = 0 \<and> x = y" by (simp only: or_eq_0_iff word_xor_zero_iff)
  then show ?case by (simp only: diff_bytes.simps Cons.IH list.inject conj_assoc)
qed simp

lemma sameBytes_iff [simp]: "sameBytes a b \<longleftrightarrow> a = b"
  by (auto simp: sameBytes_def diff_bytes_zero)

lemma b64url_alphabet: "set (b64url bs) \<subseteq> set B64"
proof -
  have "c \<in> set B64" if "b64_value c \<noteq> None" for c
    using that by (auto simp: b64_value_def dest!: map_of_SomeD set_zip_leftD)
  then show ?thesis using b64url_text [of bs] by (auto simp: b64_text_def list_all_iff)
qed

lemma b64url_inj [simp]: "b64url a = b64url b \<longleftrightarrow> a = b"
proof
  assume "b64url a = b64url b"
  then show "a = b" by (metis b64urlDecode_b64url sum.inject(2))
qed simp

lemma b64url_empty [simp]: "b64url [] = []"
  by (simp add: b64url_def)

lemma b64url_Nil_iff [simp]: "b64url bs = [] \<longleftrightarrow> bs = []"
  using b64url_inj [of bs "[]"] by (simp del: b64url_inj)

lemma b64urlDecode_iff: "b64urlDecode s = Inr bs \<longleftrightarrow> s = b64url bs"
proof
  assume "b64urlDecode s = Inr bs"
  then show "s = b64url bs" by (simp add: b64urlDecode_def split: if_splits sum.splits prod.splits)
qed (simp add: b64urlDecode_b64url)

lemma parseExactB64_encoded:
  "bs \<noteq> [] \<Longrightarrow> parseExactB64 (Some (JStr (b64url bs))) (length bs) = Inr bs"
  using b64url_alphabet [of bs] by (auto simp: parseExactB64_def b64urlDecode_b64url list_all_iff)

lemma parseExactB64_ok:
  assumes "parseExactB64 v n = Inr bs"
  shows "v = Some (JStr (b64url bs)) \<and> length bs = n \<and> bs \<noteq> []"
proof -
  obtain s where s: "v = Some (JStr s)" "s \<noteq> []" "b64urlDecode s = Inr bs" "length bs = n"
    using assms by (auto simp: parseExactB64_def split: option.splits json.splits if_splits sum.splits)
  then have "s = b64url bs" by (simp add: b64urlDecode_iff)
  then show ?thesis using s by auto
qed

lemma parseExactB64_iff: "parseExactB64 v n = Inr bs \<longleftrightarrow> v = Some (JStr (b64url bs)) \<and> length bs = n \<and> bs \<noteq> []"
  using parseExactB64_ok [of v n bs] parseExactB64_encoded [of bs] by auto

text \<open>What one side prints in ASCII the other side parses.\<close>

lemma utf8_valid_ascii: "list_all (\<lambda>b. b \<le> 0x7F) bs \<Longrightarrow> utf8_valid bs"
  by (induction bs) simp_all

lemma utf8_decode_text_bytes [simp]: "utf8_decode (text_bytes s) = s"
  by (simp add: utf8_decode_def text_bytes_def unat_of_nat comp_def map_idI)

lemma JSON_parse_bytes_print:
  assumes "integral v" and "list_all (\<lambda>b. b \<le> 0x7F) (text_bytes (print_json v))"
  shows "JSON_parse_bytes (text_bytes (print_json v)) = Inr v"
proof -
  have "take 3 (text_bytes (print_json v)) \<noteq> [0xEF, 0xBB, 0xBF]"
    using assms(2) by (cases "text_bytes (print_json v)") auto
  then show ?thesis using utf8_valid_ascii [OF assms(2)] JSON_parse_print [OF assms(1)]
    by (simp add: JSON_parse_bytes_def decodeUTF8_def)
qed

end
