(* ===== verification/ClientSeal.thy ===== *)
theory ClientSeal
  imports ClientWire
begin

text \<open>
  Sealing the session: the numbered, authenticated records of \<^verbatim>\<open>aead.ts\<close>, the key schedule of \<^verbatim>\<open>kdf.ts\<close>
  and the transcripts and proofs of \<^verbatim>\<open>hello.ts\<close>, all under \<^verbatim>\<open>pwa/src/lib/protocol\<close>. The primitives come
  from the noble packages, which are not part of the sources: a record \<open>suite\<close> carries them, and
  what the code relies on is stated as \<open>sound_suite\<close>. The lemmas show that a direction delivers exactly
  what the other side sealed, in order, however the network replays, drops or forges.
\<close>

section \<open>Primitives\<close>

record suite =
  hkdf_sha256 :: "byte list \<Rightarrow> byte list \<Rightarrow> byte list \<Rightarrow> nat \<Rightarrow> byte list"
  hmac_sha256 :: "byte list \<Rightarrow> byte list \<Rightarrow> byte list"
  sha256_of :: "byte list \<Rightarrow> byte list"
  ed25519_verify :: "byte list \<Rightarrow> byte list \<Rightarrow> byte list \<Rightarrow> bool"
  x25519_public :: "byte list \<Rightarrow> byte list"
  x25519_shared :: "byte list \<Rightarrow> byte list \<Rightarrow> byte list option"
  chacha_encrypt :: "byte list \<Rightarrow> byte list \<Rightarrow> byte list \<Rightarrow> byte list \<Rightarrow> byte list option"
  chacha_decrypt :: "byte list \<Rightarrow> byte list \<Rightarrow> byte list \<Rightarrow> byte list \<Rightarrow> byte list option"

text \<open>
  ChaCha20-Poly1305 with a key of 32 and a nonce of 12 bytes encrypts everything, adds 16 bytes and is
  inverted by decryption.
\<close>

definition sound_suite :: "suite \<Rightarrow> bool" where
  "sound_suite su \<longleftrightarrow>
     (\<forall>k n a p. length k = 32 \<longrightarrow> length n = 12 \<longrightarrow>
        (\<exists>ct. chacha_encrypt su k n a p = Some ct \<and> length ct = length p + 16 \<and> chacha_decrypt su k n a ct = Some p))"

section \<open>Records\<close>

definition aead_MAX_PAYLOAD :: nat where [simp]: "aead_MAX_PAYLOAD = 262144"
definition MAX_PLAINTEXT :: nat where [simp]: "MAX_PLAINTEXT = 262116"
definition DIR_C :: nat where [simp]: "DIR_C = 0x63"
definition DIR_S :: nat where [simp]: "DIR_S = 0x73"

definition aad :: "byte list \<Rightarrow> nat \<Rightarrow> byte list fallible" where
  "aad routeId d =
     (if length routeId \<noteq> 16 then Inl (OtherError ''route_id must be 16 bytes'')
      else if d \<noteq> DIR_C \<and> d \<noteq> DIR_S then Inl (OtherError ''invalid AEAD direction'')
      else Inr ([0x01, 0x05, 0, 0] @ routeId @ [word_of_nat d]))"

record direction =
  dir_key :: "byte list"
  dir_dir :: nat
  dir_seq :: nat

definition new_direction :: "byte list \<Rightarrow> nat \<Rightarrow> direction" where
  "new_direction key d = \<lparr> dir_key = key, dir_dir = d, dir_seq = 0 \<rparr>"

definition getBigUint64_be :: "byte list \<Rightarrow> nat" where
  "getBigUint64_be bs = foldl (\<lambda>a b. a * 256 + unat b) 0 (take 8 bs)"

definition seal :: "suite \<Rightarrow> direction \<Rightarrow> byte list \<Rightarrow> byte list \<Rightarrow> (byte list \<times> direction) fallible" where
  "seal su d routeId plaintext =
     (if length plaintext > MAX_PLAINTEXT then Inl (OtherError ''plaintext exceeds 262116'')
      else if dir_seq d > 2 ^ 64 - 1 then Inl (OtherError ''aead seq overflow'')
      else let nonce = replicate 4 0 @ setBigUint64_be (dir_seq d) in
        case aad routeId (dir_dir d) of
          Inl e \<Rightarrow> Inl e
        | Inr a \<Rightarrow> (case chacha_encrypt su (dir_key d) nonce a plaintext of
              None \<Rightarrow> Inl (OtherError ''encrypt'')
            | Some ct \<Rightarrow> Inr (nonce @ ct, d\<lparr> dir_seq := dir_seq d + 1 \<rparr>)))"

definition open_payload :: "suite \<Rightarrow> direction \<Rightarrow> byte list \<Rightarrow> byte list \<Rightarrow> (byte list \<times> direction) fallible" where
  "open_payload su d routeId payload =
     (if length payload < 28 \<or> length payload > aead_MAX_PAYLOAD then Inl (OtherError ''aead payload length'')
      else let nonce = take 12 payload; rest = drop 12 payload in
        if take 4 nonce \<noteq> [0, 0, 0, 0] then Inl (OtherError ''aead seq mismatch'')
        else if getBigUint64_be (drop 4 nonce) \<noteq> dir_seq d then Inl (OtherError ''aead seq mismatch'')
        else case aad routeId (dir_dir d) of
          Inl e \<Rightarrow> Inl e
        | Inr a \<Rightarrow> (case chacha_decrypt su (dir_key d) nonce a rest of
              None \<Rightarrow> Inl (OtherError ''decrypt'')
            | Some pt \<Rightarrow> Inr (pt, d\<lparr> dir_seq := dir_seq d + 1 \<rparr>)))"

section \<open>Keys, transcripts and proofs\<close>

definition zeros32 :: "byte list" where "zeros32 = replicate 32 0"

definition pairfobHKDF :: "suite \<Rightarrow> byte list \<Rightarrow> byte list option \<Rightarrow> byte list \<Rightarrow> nat \<Rightarrow> byte list" where
  "pairfobHKDF su ikm salt info L = hkdf_sha256 su ikm (case salt of None \<Rightarrow> zeros32 | Some s \<Rightarrow> s) info L"

definition pairingKeys :: "suite \<Rightarrow> byte list \<Rightarrow> byte list \<times> byte list" where
  "pairingKeys su kShared =
     (let root = pairfobHKDF su kShared (Some zeros32) (text_bytes ''pairfob-v1/pair-root'') 32 in
      (pairfobHKDF su root (Some zeros32) (text_bytes ''pairfob-v1/pair-c2s'') 32,
       pairfobHKDF su root (Some zeros32) (text_bytes ''pairfob-v1/pair-s2c'') 32))"

text \<open>\<^verbatim>\<open>new Uint8Array(64)\<close> with the shared secret at 0 and the device's key at 32; more than 32 bytes of key throw.\<close>

definition sessionKeys :: "suite \<Rightarrow> byte list \<Rightarrow> byte list \<Rightarrow> (byte list \<times> byte list) fallible" where
  "sessionKeys su dh devicePsk =
     (if length dh > 64 \<or> length devicePsk > 32 then Inl (OtherError ''RangeError'')
      else let ikm = take 32 (dh @ replicate (64 - length dh) 0) @ devicePsk
                       @ drop (32 + length devicePsk) (dh @ replicate (64 - length dh) 0);
               root = pairfobHKDF su ikm (Some zeros32) (text_bytes ''pairfob-v1/sess-root'') 32 in
        Inr (pairfobHKDF su root (Some zeros32) (text_bytes ''pairfob-v1/sess-c2s'') 32,
             pairfobHKDF su root (Some zeros32) (text_bytes ''pairfob-v1/sess-s2c'') 32))"

text \<open>The two lists of 256 words come from \<^verbatim>\<open>proto/pgp-words.json\<close>.\<close>

definition sas :: "suite \<Rightarrow> string list \<Rightarrow> string list \<Rightarrow> byte list \<Rightarrow> string" where
  "sas su evenWords oddWords kShared =
     (let key = pairfobHKDF su kShared (Some zeros32) (text_bytes ''pairfob-v1/sas'') 4 in
      evenWords ! unat (key ! 0) @ ''-'' @ oddWords ! unat (key ! 1))"

definition fingerprint16 :: "suite \<Rightarrow> byte list \<Rightarrow> string" where
  "fingerprint16 su rawPk = b64url (take 16 (sha256_of su rawPk))"

text \<open>A timestamp is written as \<^verbatim>\<open>setBigUint64\<close> does, modulo \<open>2 ^ 64\<close>.\<close>

definition transcriptD ::
  "string \<Rightarrow> string \<Rightarrow> byte list \<Rightarrow> byte list \<Rightarrow> byte list \<Rightarrow> int \<Rightarrow> byte list \<Rightarrow> byte list" where
  "transcriptD daemonId deviceId ephP ephD nonce ts routeId =
     concat_bytes [encStr ''pairfob-v1/hello-d'', encStr daemonId, encStr deviceId, ephP, ephD, nonce, u64be (nat (ts mod 2 ^ 64)), routeId]"

definition transcriptP :: "byte list \<Rightarrow> byte list" where
  "transcriptP td = concat_bytes [encStr ''pairfob-v1/hello-p'', td]"

definition proof_of :: "suite \<Rightarrow> byte list \<Rightarrow> byte list \<Rightarrow> byte list" where
  "proof_of su psk transcript = hmac_sha256 su psk transcript"

definition verifyEd25519 :: "suite \<Rightarrow> byte list \<Rightarrow> byte list \<Rightarrow> byte list \<Rightarrow> bool" where
  "verifyEd25519 su pk msg sig = ed25519_verify su sig msg pk"

section \<open>Numbers on the wire\<close>

lemma foldl_be: "foldl (\<lambda>a b. a * 256 + unat (b :: byte)) n bs = n * 256 ^ length bs + foldl (\<lambda>a b. a * 256 + unat b) 0 bs"
proof (induction bs arbitrary: n)
  case (Cons b bs)
  show ?case using Cons.IH [of "n * 256 + unat b"] Cons.IH [of "unat b"] by (simp add: algebra_simps)
qed simp

lemma foldl_be_digits:
  "foldl (\<lambda>a b. a * 256 + unat (b :: byte)) 0 (rev (map (\<lambda>i. word_of_nat (n div 256 ^ i)) [0..<k])) = n mod 256 ^ k"
proof (induction k)
  case (Suc k)
  let ?bs = "rev (map (\<lambda>i. word_of_nat (n div 256 ^ i)) [0..<k]) :: byte list"
  have "n mod (256 ^ k * 256) = 256 ^ k * (n div 256 ^ k mod 256) + n mod 256 ^ k" by (rule mod_mult2_eq)
  then show ?case using Suc.IH foldl_be [of "unat (word_of_nat (n div 256 ^ k) :: byte)" ?bs]
    by (simp add: unat_of_nat mult.commute)
qed simp

lemma length_setBigUint64 [simp]: "length (setBigUint64_be n) = 8" "length (setBigUint64_le n) = 8"
  by (simp_all add: setBigUint64_be_def setBigUint64_le_def)

lemma getBigUint64_setBigUint64: "n < 2 ^ 64 \<Longrightarrow> getBigUint64_be (setBigUint64_be n @ r) = n"
  using foldl_be_digits [of n 8] by (simp add: getBigUint64_be_def setBigUint64_be_def setBigUint64_le_def)

section \<open>A direction delivers what was sealed, in order\<close>

text \<open>What one side sealed, and what the other side opens of whatever arrives; a refused payload changes nothing.\<close>

fun seal_all :: "suite \<Rightarrow> direction \<Rightarrow> byte list \<Rightarrow> byte list list \<Rightarrow> (byte list list \<times> direction) fallible" where
  "seal_all su d routeId [] = Inr ([], d)"
| "seal_all su d routeId (m # ms) =
     (case seal su d routeId m of
        Inl e \<Rightarrow> Inl e
      | Inr (w, d') \<Rightarrow> (case seal_all su d' routeId ms of Inl e \<Rightarrow> Inl e | Inr (ws, d'') \<Rightarrow> Inr (w # ws, d'')))"

fun open_each :: "suite \<Rightarrow> direction \<Rightarrow> byte list \<Rightarrow> byte list list \<Rightarrow> byte list list \<times> direction" where
  "open_each su d routeId [] = ([], d)"
| "open_each su d routeId (p # ps) =
     (case open_payload su d routeId p of
        Inl _ \<Rightarrow> open_each su d routeId ps
      | Inr (m, d') \<Rightarrow> (case open_each su d' routeId ps of (ms, d'') \<Rightarrow> (m # ms, d'')))"

text \<open>A payload is forged when the cipher refuses it under every additional data a route gives.\<close>

definition refused :: "suite \<Rightarrow> direction \<Rightarrow> byte list \<Rightarrow> byte list \<Rightarrow> bool" where
  "refused su d routeId payload \<longleftrightarrow>
     (case aad routeId (dir_dir d) of
        Inl _ \<Rightarrow> True | Inr a \<Rightarrow> chacha_decrypt su (dir_key d) (take 12 payload) a (drop 12 payload) = None)"

lemma aad_ok: "aad r d = Inr a \<longleftrightarrow> length r = 16 \<and> (d = DIR_C \<or> d = DIR_S) \<and> a = [0x01, 0x05, 0, 0] @ r @ [word_of_nat d]"
  by (auto simp: aad_def)

lemma seal_ok:
  assumes "seal su d r m = Inr (w, d')"
  obtains a ct where "aad r (dir_dir d) = Inr a"
    and "chacha_encrypt su (dir_key d) (replicate 4 0 @ setBigUint64_be (dir_seq d)) a m = Some ct"
    and "w = replicate 4 0 @ setBigUint64_be (dir_seq d) @ ct"
    and "d' = d\<lparr> dir_seq := dir_seq d + 1 \<rparr>" and "dir_seq d < 2 ^ 64" and "length m \<le> 262116"
  using assms by (auto simp: seal_def Let_def split: if_splits sum.splits option.splits)

lemma open_ok:
  assumes "open_payload su d r w = Inr (m, d')"
  shows "getBigUint64_be (drop 4 (take 12 w)) = dir_seq d" and "d' = d\<lparr> dir_seq := dir_seq d + 1 \<rparr>"
    and "\<not> refused su d r w"
  using assms by (auto simp: open_payload_def refused_def Let_def split: if_splits sum.splits option.splits)

lemma open_seal:
  assumes "sound_suite su" and "length (dir_key d) = 32" and "seal su d r m = Inr (w, d')"
    and "dir_key e = dir_key d" and "dir_dir e = dir_dir d"
  shows "open_payload su e r w =
    (if dir_seq e = dir_seq d then Inr (m, e\<lparr> dir_seq := dir_seq e + 1 \<rparr>) else Inl (OtherError ''aead seq mismatch''))"
proof -
  obtain a ct where s: "aad r (dir_dir d) = Inr a"
    "chacha_encrypt su (dir_key d) (replicate 4 0 @ setBigUint64_be (dir_seq d)) a m = Some ct"
    "w = replicate 4 0 @ setBigUint64_be (dir_seq d) @ ct" "dir_seq d < 2 ^ 64" "length m \<le> 262116"
    using assms(3) by (rule seal_ok)
  have n: "take 12 w = replicate 4 0 @ setBigUint64_be (dir_seq d)" "drop 12 w = ct" using s(3) by simp_all
  have "length (replicate 4 0 @ setBigUint64_be (dir_seq d)) = 12" by simp
  from assms(1) [unfolded sound_suite_def, rule_format, OF assms(2) this, of a m]
  have len: "length ct = length m + 16" and dec: "chacha_decrypt su (dir_key d) (take 12 w) a ct = Some m"
    using s(2) n(1) by auto
  have g: "getBigUint64_be (drop 4 (take 12 w)) = dir_seq d"
    using getBigUint64_setBigUint64 [OF s(4), of "[]"] n(1) by simp
  have z: "take 4 (take 12 w) = [0, 0, 0, 0]" using n(1) by (simp add: numeral_eq_Suc)
  have l: "length w = 28 + length m" using s(3) len by simp
  show ?thesis unfolding open_payload_def Let_def assms(4,5) g z n(2) s(1) using l s(5) dec by simp
qed

lemma seal_all_nth:
  "seal_all su d r ms = Inr (ws, d') \<Longrightarrow> length ws = length ms \<and>
     (\<forall>j < length ms. seal su (d\<lparr> dir_seq := dir_seq d + j \<rparr>) r (ms ! j) = Inr (ws ! j, d\<lparr> dir_seq := dir_seq d + j + 1 \<rparr>))"
proof (induction ms arbitrary: d ws)
  case (Cons m ms)
  from Cons.prems obtain w d1 ws1 where w: "seal su d r m = Inr (w, d1)" "seal_all su d1 r ms = Inr (ws1, d')" "ws = w # ws1"
    by (auto split: sum.splits prod.splits)
  have d1: "d1 = d\<lparr> dir_seq := dir_seq d + 1 \<rparr>" using w(1) by (rule seal_ok)
  show ?case using Cons.IH [OF w(2)] w d1 by (auto simp: nth_Cons' less_Suc_eq_0_disj)
qed simp

text \<open>
  Everything the receiver accepts continues, without a gap, where it stands in the stream: a replayed, reordered
  or skipped record is refused.
\<close>

lemma open_each_in_order:
  assumes "sound_suite su" and "length (dir_key d) = 32" and sealed: "seal_all su d r ms = Inr (ws, d')"
    and "\<forall>p \<in> set ps. p \<in> set ws \<or> refused su d r p"
  shows "dir_key e = dir_key d \<Longrightarrow> dir_dir e = dir_dir d \<Longrightarrow> dir_seq e = dir_seq d + i \<Longrightarrow>
    \<exists>n. open_each su e r ps = (take n (drop i ms), e\<lparr> dir_seq := dir_seq e + n \<rparr>) \<and> n \<le> length ms - i"
  using assms(4)
proof (induction ps arbitrary: e i)
  case Nil
  show ?case by (rule exI [of _ 0]) simp
next
  case (Cons p ps)
  note later = Cons.IH [OF Cons.prems(1-3)]
  show ?case
  proof (cases "open_payload su e r p")
    case (Inl x)
    then show ?thesis using later Cons.prems(4) by auto
  next
    case (Inr x)
    obtain m e' where o: "open_payload su e r p = Inr (m, e')" using Inr by (cases x) auto
    note ok = open_ok [OF o]
    have "refused su e r p = refused su d r p" using Cons.prems(1,2) by (simp add: refused_def split: sum.split)
    then have "p \<in> set ws" using Cons.prems(4) ok(3) by auto
    then obtain j where j: "j < length ms" "p = ws ! j"
      using seal_all_nth [OF sealed] by (auto simp: in_set_conv_nth)
    have "open_payload su e r p = (if dir_seq e = dir_seq d + j then Inr (ms ! j, e\<lparr> dir_seq := dir_seq e + 1 \<rparr>)
        else Inl (OtherError ''aead seq mismatch''))"
      using open_seal [OF assms(1) _ seal_all_nth [OF sealed, THEN conjunct2, rule_format, OF j(1)], of e]
        assms(2) Cons.prems(1,2) j(2) by simp
    then have ij: "i = j" and m: "m = ms ! i" "e' = e\<lparr> dir_seq := dir_seq e + 1 \<rparr>"
      using o Cons.prems(3) by (auto split: if_splits)
    obtain n where n: "open_each su e' r ps = (take n (drop (Suc i) ms), e'\<lparr> dir_seq := dir_seq e' + n \<rparr>)" "n \<le> length ms - Suc i"
      using Cons.IH [of e' "Suc i"] Cons.prems m(2) by auto
    have "ms ! i # take n (drop (Suc i) ms) = take (Suc n) (drop i ms)"
      using j(1) ij by (metis Cons_nth_drop_Suc take_Suc_Cons)
    then show ?thesis using o n m j(1) ij by (intro exI [of _ "Suc n"]) auto
  qed
qed

lemma open_each_sealed:
  assumes "sound_suite su" and "length (dir_key d) = 32"
  shows "seal_all su d r ms = Inr (ws, d') \<Longrightarrow> open_each su d r ws = (ms, d')"
  using assms(2)
proof (induction ms arbitrary: d ws)
  case (Cons m ms)
  from Cons.prems obtain w d1 ws1 where w: "seal su d r m = Inr (w, d1)" "seal_all su d1 r ms = Inr (ws1, d')" "ws = w # ws1"
    by (auto split: sum.splits prod.splits)
  have d1: "d1 = d\<lparr> dir_seq := dir_seq d + 1 \<rparr>" using w(1) by (rule seal_ok)
  have "open_each su d1 r ws1 = (ms, d')" using Cons.IH [OF w(2)] Cons.prems(2) d1 by simp
  moreover have "open_payload su d r w = Inr (m, d1)" using open_seal [OF assms(1) Cons.prems(2) w(1)] d1 by simp
  ultimately show ?case using w(3) by simp
qed simp

text \<open>Sealing fails only on a plaintext that is too long or after \<open>2 ^ 64\<close> records.\<close>

lemma seal_succeeds:
  assumes "sound_suite su" and "length (dir_key d) = 32" and "length r = 16" and "dir_dir d = DIR_C \<or> dir_dir d = DIR_S"
    and "length m \<le> 262116" and "dir_seq d < 2 ^ 64"
  obtains w where "seal su d r m = Inr (w, d\<lparr> dir_seq := dir_seq d + 1 \<rparr>)" and "length w = length m + 28"
proof -
  obtain a where a: "aad r (dir_dir d) = Inr a" using assms(3,4) by (simp add: aad_ok)
  have "length (replicate 4 0 @ setBigUint64_be (dir_seq d)) = 12" by simp
  from assms(1) [unfolded sound_suite_def, rule_format, OF assms(2) this, of a m] obtain ct
    where "chacha_encrypt su (dir_key d) (replicate 4 0 @ setBigUint64_be (dir_seq d)) a m = Some ct" "length ct = length m + 16" by blast
  then show thesis using a assms(5,6) that [of "replicate 4 0 @ setBigUint64_be (dir_seq d) @ ct"] by (simp add: seal_def)
qed

section \<open>Transcripts\<close>

text \<open>
  Length prefixes make the transcript injective: a proof or a signature over it fixes both names, both
  ephemeral keys, the nonce, the time and the route.
\<close>

lemma setBigUint64_le_inj: "n < 2 ^ 64 \<Longrightarrow> m < 2 ^ 64 \<Longrightarrow> setBigUint64_le n = setBigUint64_le m \<longleftrightarrow> n = m"
  by (metis append_Nil2 getBigUint64_setBigUint64 setBigUint64_be_def)

lemma encStr_prefix_inj:
  assumes "length s < 2 ^ 64" and "length t < 2 ^ 64" and "encStr s @ xs = encStr t @ ys"
  shows "s = t \<and> xs = ys"
proof -
  have len: "length (text_bytes s) < 2 ^ 64" "length (text_bytes t) < 2 ^ 64" using assms(1,2) by (simp_all add: text_bytes_def)
  have "setBigUint64_le (length (text_bytes s)) = setBigUint64_le (length (text_bytes t))"
    and r: "text_bytes s @ xs = text_bytes t @ ys"
    using assms(3) by (auto simp: encStr_def append_eq_append_conv)
  then have "length (text_bytes s) = length (text_bytes t)" using len by (simp add: setBigUint64_le_inj)
  then show ?thesis using r by (simp add: append_eq_append_conv text_bytes_inj)
qed

lemma transcriptD_inj:
  assumes "transcriptD da de p q n t r = transcriptD da' de' p' q' n' t' r'"
    and "length da < 2 ^ 64" "length da' < 2 ^ 64" "length de < 2 ^ 64" "length de' < 2 ^ 64"
    and "length p = 32" "length p' = 32" "length q = 32" "length q' = 32" "length n = 16" "length n' = 16"
  shows "da = da' \<and> de = de' \<and> p = p' \<and> q = q' \<and> n = n' \<and> t mod 2 ^ 64 = t' mod 2 ^ 64 \<and> r = r'"
proof -
  have "encStr da @ encStr de @ p @ q @ n @ u64be (nat (t mod 2 ^ 64)) @ r
      = encStr da' @ encStr de' @ p' @ q' @ n' @ u64be (nat (t' mod 2 ^ 64)) @ r'"
    using assms(1) by (simp add: transcriptD_def concat_bytes_def)
  then have "da = da'" and "encStr de @ p @ q @ n @ u64be (nat (t mod 2 ^ 64)) @ r
      = encStr de' @ p' @ q' @ n' @ u64be (nat (t' mod 2 ^ 64)) @ r'"
    using encStr_prefix_inj [OF assms(2,3)] by auto
  moreover from this(2) have "de = de'" and "p @ q @ n @ u64be (nat (t mod 2 ^ 64)) @ r = p' @ q' @ n' @ u64be (nat (t' mod 2 ^ 64)) @ r'"
    using encStr_prefix_inj [OF assms(4,5)] by auto
  moreover from this(2) have "p = p'" "q = q'" "n = n'" "u64be (nat (t mod 2 ^ 64)) = u64be (nat (t' mod 2 ^ 64))" "r = r'"
    using assms(6-11) by (simp_all add: u64be_def)
  moreover from this(4) have "nat (t mod 2 ^ 64) = nat (t' mod 2 ^ 64)"
    using setBigUint64_le_inj [of "nat (t mod 2 ^ 64)" "nat (t' mod 2 ^ 64)"] by (simp add: u64be_def setBigUint64_be_def nat_less_iff)
  ultimately show ?thesis by (simp add: eq_nat_nat_iff)
qed

end
