(* ===== verification/ClientMessages.thy ===== *)
theory ClientMessages
  imports ClientWire
begin

text \<open>
  What the phone accepts from the computer after decryption: \<^verbatim>\<open>pwa/src/lib/protocol/session-message.ts\<close>, which
  checks every message before it reaches the rest of the application, and \<^verbatim>\<open>terminal.ts\<close>, which checks the answers
  to terminal commands and assembles terminal frames. The lemmas show that a message is accepted only in
  one of the six shapes with its bounds, and that the assembler holds at most four megabytes. The length of a text is
  that of its UTF-16 form (\<^const>\<open>utf16_length\<close>), as \<^verbatim>\<open>length\<close> is in the source.
\<close>

section \<open>Base64 with padding\<close>

text \<open>\<^verbatim>\<open>btoa\<close> and \<^verbatim>\<open>atob\<close>: the standard alphabet, padded with \<^verbatim>\<open>=\<close> to a multiple of four.\<close>

definition to_std :: "char \<Rightarrow> char" where
  "to_std c = (if c = CHR ''-'' then CHR ''+'' else if c = CHR ''_'' then CHR ''/'' else c)"

definition of_std :: "char \<Rightarrow> char" where
  "of_std c = (if c = CHR ''+'' then CHR ''-'' else if c = CHR ''/'' then CHR ''_'' else c)"

definition base64Encode :: "byte list \<Rightarrow> string" where
  "base64Encode bytes =
     (let t = map to_std (b64url bytes) in t @ replicate ((4 - length t mod 4) mod 4) (CHR ''=''))"

definition base64_syntax :: "string \<Rightarrow> bool" where
  "base64_syntax value \<longleftrightarrow>
     (let body = takeWhile (\<lambda>c. c \<noteq> CHR ''='') value; pad = dropWhile (\<lambda>c. c \<noteq> CHR ''='') value in
      list_all (\<lambda>c. c \<in> set (map to_std B64)) body \<and> pad \<in> {[], ''='', ''==''})"

definition base64Decode :: "string \<Rightarrow> byte list fallible" where
  "base64Decode value =
     (if length value mod 4 \<noteq> 0 \<or> \<not> base64_syntax value then Inl (OtherError ''base64'')
      else case b64_read (map of_std (takeWhile (\<lambda>c. c \<noteq> CHR ''='') value)) 0 0 [] of
          Inl e \<Rightarrow> Inl (plain e)
        | Inr (acc, bits, out) \<Rightarrow> if base64Encode out \<noteq> value then Inl (OtherError ''base64 non-canonical'') else Inr out)"

section \<open>Checks on parsed values\<close>

definition isRecord :: "json \<Rightarrow> bool" where
  "isRecord v = (case v of JObj _ \<Rightarrow> True | _ \<Rightarrow> False)"

definition keys_of :: "jobject \<Rightarrow> string list" where
  "keys_of ob = map fst ob"

definition exactKeys :: "jobject \<Rightarrow> string list \<Rightarrow> string list \<Rightarrow> bool" where
  "exactKeys ob required optional \<longleftrightarrow>
     list_all (\<lambda>k. k \<in> set (keys_of ob)) required \<and> list_all (\<lambda>k. k \<in> set (required @ optional)) (keys_of ob)"

definition isSafeInteger :: "json option \<Rightarrow> bool" where
  "isSafeInteger v = (case v of Some (JNum n) \<Rightarrow> n = of_int \<lfloor>n\<rfloor> \<and> \<bar>n\<bar> \<le> 2 ^ 53 - 1 | _ \<Rightarrow> False)"

definition int_of :: "json option \<Rightarrow> int" where
  "int_of v = (case v of Some (JNum n) \<Rightarrow> \<lfloor>n\<rfloor> | _ \<Rightarrow> 0)"

definition str_of :: "json option \<Rightarrow> string option" where
  "str_of v = (case v of Some (JStr s) \<Rightarrow> Some s | _ \<Rightarrow> None)"

definition str_ok :: "json option \<Rightarrow> (string \<Rightarrow> bool) \<Rightarrow> bool" where
  "str_ok v p = (case str_of v of None \<Rightarrow> False | Some s \<Rightarrow> p s)"

definition the_str :: "json option \<Rightarrow> string" where
  "the_str v = (case str_of v of None \<Rightarrow> [] | Some s \<Rightarrow> s)"

definition int_in :: "json option \<Rightarrow> int \<Rightarrow> int \<Rightarrow> bool" where
  "int_in v lo hi \<longleftrightarrow> isSafeInteger v \<and> lo \<le> int_of v \<and> int_of v \<le> hi"

text \<open>\<^verbatim>\<open>/^term_[0-9a-f]{32}$/\<close>, \<^verbatim>\<open>/^[1-9][0-9]{0,19}$/\<close> and \<^verbatim>\<open>/^[A-Za-z0-9._:-]{1,256}$/\<close>.\<close>

definition TERMINAL_ID :: "string \<Rightarrow> bool" where
  "TERMINAL_ID = prefixed_hex ''term_'' 32"

definition TERMINAL_SEQUENCE :: "string \<Rightarrow> bool" where
  "TERMINAL_SEQUENCE s \<longleftrightarrow>
     (case s of [] \<Rightarrow> False | c # cs \<Rightarrow> c \<in> set ''123456789'' \<and> length cs \<le> 19 \<and> list_all (\<lambda>d. d \<in> set ''0123456789'') cs)"

definition RESOURCE_ID :: "string \<Rightarrow> bool" where
  "RESOURCE_ID s \<longleftrightarrow> 1 \<le> length s \<and> length s \<le> 256
     \<and> list_all (\<lambda>c. c \<in> set ''ABCDEFGHIJKLMNOPQRSTUVWXYZabcdefghijklmnopqrstuvwxyz0123456789._:-'') s"

section \<open>Messages of an established session\<close>

definition TERMINAL_MIN_COLS :: int where [simp]: "TERMINAL_MIN_COLS = 20"
definition TERMINAL_MAX_COLS :: int where [simp]: "TERMINAL_MAX_COLS = 320"
definition TERMINAL_MIN_ROWS :: int where [simp]: "TERMINAL_MIN_ROWS = 5"
definition TERMINAL_MAX_ROWS :: int where [simp]: "TERMINAL_MAX_ROWS = 160"
definition TERMINAL_FRAME_MAX_BYTES :: nat where [simp]: "TERMINAL_FRAME_MAX_BYTES = 4 * 1024 * 1024"

record terminal_part =
  tp_terminalId :: string
  tp_sequence :: string
  tp_width :: int
  tp_height :: int
  tp_full :: bool
  tp_index :: int
  tp_count :: int
  tp_data :: "byte list"

datatype session_message =
    Request string int
  | Success string "json option"
  | Failure string string string
  | Poke string "string option"
  | Terminal_frame terminal_part
  | Terminal_closed string string

definition RPC_ERROR_CODES :: "string list" where
  "RPC_ERROR_CODES =
     [''unpaired'', ''revoked'', ''pane_not_found'', ''tab_not_found'', ''workspace_not_found'', ''stale_prompt'',
      ''invalid_key'', ''herdr_offline'', ''too_large'', ''rate_limited'', ''unknown_op'', ''backpressure'',
      ''bad_token'', ''bad_frame'', ''internal'', ''pair_busy'', ''pair_timeout'', ''unbound'', ''wrong_ws'', ''too_many_devices'',
      ''kicked'', ''daemon_offline'', ''replay'', ''sas_required'', ''fp_mismatch'', ''forbidden'',
      ''invalid_argument'', ''unsupported'', ''conflict'', ''agent_not_found'', ''worktree_not_found'',
      ''transcript_unavailable'', ''unknown_outcome'', ''partial_failure'']"

definition POKE_REASONS :: "string list" where
  "POKE_REASONS = [''agent_status'', ''herdr_offline'', ''herdr_online'', ''daemon_replaced'']"

text \<open>The fields of \<^verbatim>\<open>value.params\<close>, when it is a record.\<close>

definition params_of :: "jobject \<Rightarrow> jobject option" where
  "params_of value = (case jget value ''params'' of Some (JObj p) \<Rightarrow> Some p | _ \<Rightarrow> None)"

definition bad_message :: "'a fallible" where
  "bad_message = Inl (ProtocolError ''bad_message'')"

definition validatePoke :: "jobject \<Rightarrow> session_message fallible" where
  "validatePoke value =
     (case params_of value of
        None \<Rightarrow> bad_message
      | Some p \<Rightarrow>
          if \<not> exactKeys value [''v'', ''op'', ''params''] [] \<or> \<not> exactKeys p [''reason''] [''pane_id'']
             \<or> \<not> str_ok (jget p ''reason'') (\<lambda>r. r \<in> set POKE_REASONS)
             \<or> jget p ''pane_id'' \<noteq> None \<and> \<not> str_ok (jget p ''pane_id'') (\<lambda>s. 1 \<le> utf16_length s \<and> utf16_length s \<le> 256)
          then bad_message
          else Inr (Poke (the_str (jget p ''reason'')) (str_of (jget p ''pane_id''))))"

definition validateTerminalFrame :: "jobject \<Rightarrow> session_message fallible" where
  "validateTerminalFrame value =
     (case params_of value of
        None \<Rightarrow> bad_message
      | Some p \<Rightarrow>
          if \<not> exactKeys value [''v'', ''op'', ''params''] []
             \<or> \<not> exactKeys p [''terminal_id'', ''seq'', ''width'', ''height'', ''full'', ''index'', ''count'', ''data''] []
             \<or> \<not> str_ok (jget p ''terminal_id'') TERMINAL_ID
             \<or> \<not> str_ok (jget p ''seq'') TERMINAL_SEQUENCE
             \<or> \<not> int_in (jget p ''width'') TERMINAL_MIN_COLS TERMINAL_MAX_COLS
             \<or> \<not> int_in (jget p ''height'') TERMINAL_MIN_ROWS TERMINAL_MAX_ROWS
             \<or> (case jget p ''full'' of Some (JBool _) \<Rightarrow> False | _ \<Rightarrow> True)
             \<or> \<not> (isSafeInteger (jget p ''index'') \<and> 0 \<le> int_of (jget p ''index''))
             \<or> \<not> int_in (jget p ''count'') 1 43
             \<or> int_of (jget p ''index'') \<ge> int_of (jget p ''count'')
             \<or> \<not> str_ok (jget p ''data'') (\<lambda>d. utf16_length d \<le> 131072)
          then bad_message
          else (case base64Decode (the_str (jget p ''data'')) of
              Inl _ \<Rightarrow> bad_message
            | Inr data \<Rightarrow> Inr (Terminal_frame
                \<lparr> tp_terminalId = the_str (jget p ''terminal_id''), tp_sequence = the_str (jget p ''seq''),
                  tp_width = int_of (jget p ''width''), tp_height = int_of (jget p ''height''),
                  tp_full = (jget p ''full'' = Some (JBool True)), tp_index = int_of (jget p ''index''),
                  tp_count = int_of (jget p ''count''), tp_data = data \<rparr>)))"

definition validateTerminalClosed :: "jobject \<Rightarrow> session_message fallible" where
  "validateTerminalClosed value =
     (case params_of value of
        None \<Rightarrow> bad_message
      | Some p \<Rightarrow>
          if \<not> exactKeys value [''v'', ''op'', ''params''] [] \<or> \<not> exactKeys p [''terminal_id'', ''reason''] []
             \<or> \<not> str_ok (jget p ''terminal_id'') TERMINAL_ID \<or> \<not> str_ok (jget p ''reason'') (\<lambda>r. utf16_length r \<le> 512)
          then bad_message
          else Inr (Terminal_closed (the_str (jget p ''terminal_id'')) (the_str (jget p ''reason''))))"

definition validateRequest :: "jobject \<Rightarrow> session_message fallible" where
  "validateRequest value =
     (case params_of value of
        None \<Rightarrow> bad_message
      | Some p \<Rightarrow>
          if \<not> exactKeys value [''v'', ''id'', ''op'', ''params''] [] \<or> jget value ''op'' \<noteq> Some (JStr ''Ping'')
             \<or> \<not> str_ok (jget value ''id'') (\<lambda>i. 1 \<le> utf16_length i \<and> utf16_length i \<le> 128)
             \<or> \<not> exactKeys p [''t_ms''] [] \<or> \<not> isSafeInteger (jget p ''t_ms'')
          then bad_message
          else Inr (Request (the_str (jget value ''id'')) (int_of (jget p ''t_ms''))))"

definition validateResponse :: "jobject \<Rightarrow> session_message fallible" where
  "validateResponse value =
     (if \<not> str_ok (jget value ''id'') (\<lambda>i. 1 \<le> utf16_length i \<and> utf16_length i \<le> 128) then bad_message
      else case jget value ''ok'' of
          Some (JBool True) \<Rightarrow>
            if \<not> exactKeys value [''v'', ''id'', ''ok'', ''result''] [] then bad_message
            else Inr (Success (the_str (jget value ''id'')) (jget value ''result''))
        | Some (JBool False) \<Rightarrow>
            (case jget value ''error'' of
               Some (JObj e) \<Rightarrow>
                 if \<not> exactKeys value [''v'', ''id'', ''ok'', ''error''] [] \<or> \<not> exactKeys e [''code'', ''message''] []
                    \<or> \<not> str_ok (jget e ''code'') (\<lambda>c. c \<in> set RPC_ERROR_CODES)
                    \<or> \<not> str_ok (jget e ''message'') (\<lambda>m. utf16_length m \<le> 4096)
                 then bad_message
                 else Inr (Failure (the_str (jget value ''id'')) (the_str (jget e ''code'')) (the_str (jget e ''message'')))
             | _ \<Rightarrow> bad_message)
        | _ \<Rightarrow> bad_message)"

definition validateSessionMessage :: "json \<Rightarrow> session_message fallible" where
  "validateSessionMessage v =
     (case v of
        JObj value \<Rightarrow>
          if jget value ''v'' \<noteq> Some (JNum 1) then bad_message
          else (case jget value ''op'' of
              Some (JStr op) \<Rightarrow>
                if op = ''Poke'' then validatePoke value
                else if op = ''TerminalFrame'' then validateTerminalFrame value
                else if op = ''TerminalClosed'' then validateTerminalClosed value
                else validateRequest value
            | _ \<Rightarrow> validateResponse value)
      | _ \<Rightarrow> bad_message)"

section \<open>Answers to terminal commands\<close>

definition exact_object :: "json \<Rightarrow> string list \<Rightarrow> jobject fallible" where
  "exact_object v keys =
     (case v of
        JObj ob \<Rightarrow>
          if \<not> list_all (\<lambda>k. k \<in> set (keys_of ob)) keys \<or> \<not> list_all (\<lambda>k. k \<in> set keys) (keys_of ob)
          then bad_message else Inr ob
      | _ \<Rightarrow> bad_message)"

definition dimension :: "json option \<Rightarrow> int \<Rightarrow> int \<Rightarrow> int fallible" where
  "dimension v lo hi = (if \<not> int_in v lo hi then bad_message else Inr (int_of v))"

record terminal_open_result =
  to_operationId :: string
  to_terminalId :: string
  to_paneId :: string
  to_cols :: int
  to_rows :: int

definition parseTerminalOpenResult :: "json \<Rightarrow> string \<Rightarrow> string \<Rightarrow> terminal_open_result fallible" where
  "parseTerminalOpenResult v expectedPaneId expectedOperationId =
     (case exact_object v [''operation_id'', ''terminal_id'', ''pane_id'', ''cols'', ''rows'', ''encoding''] of
        Inl e \<Rightarrow> Inl e
      | Inr ob \<Rightarrow>
          if jget ob ''operation_id'' \<noteq> Some (JStr expectedOperationId)
             \<or> \<not> str_ok (jget ob ''terminal_id'') TERMINAL_ID
             \<or> \<not> str_ok (jget ob ''pane_id'') (\<lambda>p. RESOURCE_ID p \<and> p = expectedPaneId)
             \<or> jget ob ''encoding'' \<noteq> Some (JStr ''ansi'')
          then bad_message
          else (case dimension (jget ob ''cols'') TERMINAL_MIN_COLS TERMINAL_MAX_COLS of
              Inl e \<Rightarrow> Inl e
            | Inr cols \<Rightarrow> (case dimension (jget ob ''rows'') TERMINAL_MIN_ROWS TERMINAL_MAX_ROWS of
                  Inl e \<Rightarrow> Inl e
                | Inr rows \<Rightarrow> Inr \<lparr> to_operationId = expectedOperationId, to_terminalId = the_str (jget ob ''terminal_id''),
                                    to_paneId = the_str (jget ob ''pane_id''), to_cols = cols, to_rows = rows \<rparr>)))"

definition encodeTerminalInput :: "byte list \<Rightarrow> string fallible" where
  "encodeTerminalInput data =
     (if data = [] \<or> length data > 32 * 1024 then Inl (ProtocolError ''too_large'') else Inr (base64Encode data))"

definition parseTerminalCommandResult :: "json \<Rightarrow> string \<Rightarrow> string \<Rightarrow> number \<Rightarrow> int fallible" where
  "parseTerminalCommandResult v expectedOperationId expectedTerminalId expectedSequence =
     (case exact_object v [''operation_id'', ''terminal_id'', ''accepted_seq'', ''duplicate''] of
        Inl e \<Rightarrow> Inl e
      | Inr ob \<Rightarrow>
          if jget ob ''operation_id'' \<noteq> Some (JStr expectedOperationId) \<or> jget ob ''terminal_id'' \<noteq> Some (JStr expectedTerminalId)
             \<or> jget ob ''accepted_seq'' \<noteq> Some (JNum expectedSequence) \<or> jget ob ''duplicate'' \<noteq> Some (JBool False)
          then bad_message
          else dimension (jget ob ''accepted_seq'') 1 (2 ^ 53 - 1))"

definition parseTerminalCloseResult :: "json \<Rightarrow> string \<Rightarrow> string \<Rightarrow> unit fallible" where
  "parseTerminalCloseResult v expectedOperationId expectedTerminalId =
     (case exact_object v [''operation_id'', ''terminal_id'', ''closed''] of
        Inl e \<Rightarrow> Inl e
      | Inr ob \<Rightarrow>
          if jget ob ''operation_id'' \<noteq> Some (JStr expectedOperationId) \<or> jget ob ''terminal_id'' \<noteq> Some (JStr expectedTerminalId)
             \<or> jget ob ''closed'' \<noteq> Some (JBool True)
          then bad_message else Inr ())"

section \<open>Assembling terminal frames\<close>

record pending_frame =
  pf_terminalId :: string
  pf_sequence :: string
  pf_width :: int
  pf_height :: int
  pf_full :: bool
  pf_count :: int
  pf_next :: int
  pf_bytes :: nat
  pf_parts :: "byte list list"

record terminal_frame =
  tf_terminalId :: string
  tf_sequence :: string
  tf_width :: int
  tf_height :: int
  tf_full :: bool
  tf_data :: "byte list"

text \<open>\<^verbatim>\<open>TerminalFrameAssembler.push\<close>: what it returns or throws, and \<^verbatim>\<open>this.pending\<close> after the call.\<close>

definition terminal_push :: "pending_frame option \<Rightarrow> terminal_part \<Rightarrow> terminal_frame option fallible \<times> pending_frame option" where
  "terminal_push current part =
     (if current = None \<and> tp_index part \<noteq> 0 then (bad_message, None)
      else if (case current of None \<Rightarrow> False | Some c \<Rightarrow>
             pf_terminalId c \<noteq> tp_terminalId part \<or> pf_sequence c \<noteq> tp_sequence part \<or> pf_width c \<noteq> tp_width part
             \<or> pf_height c \<noteq> tp_height part \<or> pf_full c \<noteq> tp_full part \<or> pf_count c \<noteq> tp_count part)
      then (bad_message, current)
      else let pending = (case current of
               None \<Rightarrow> \<lparr> pf_terminalId = tp_terminalId part, pf_sequence = tp_sequence part, pf_width = tp_width part,
                          pf_height = tp_height part, pf_full = tp_full part, pf_count = tp_count part, pf_next = 0,
                          pf_bytes = 0, pf_parts = [] \<rparr>
             | Some c \<Rightarrow> c) in
        if tp_index part \<noteq> pf_next pending then (bad_message, Some pending)
        else let pending = pending\<lparr> pf_parts := pf_parts pending @ [tp_data part],
                                    pf_bytes := pf_bytes pending + length (tp_data part),
                                    pf_next := pf_next pending + 1 \<rparr> in
          if pf_bytes pending > TERMINAL_FRAME_MAX_BYTES then (Inl (ProtocolError ''too_large''), None)
          else if pf_next pending < pf_count pending then (Inr None, Some pending)
          else (Inr (Some \<lparr> tf_terminalId = pf_terminalId pending, tf_sequence = pf_sequence pending,
                            tf_width = pf_width pending, tf_height = pf_height pending, tf_full = pf_full pending,
                            tf_data = concat_bytes (pf_parts pending) \<rparr>), None))"

section \<open>Facts\<close>

text \<open>Base64 with padding is canonical: one text for every byte string.\<close>

lemma of_to_std: "c \<in> set B64 \<Longrightarrow> of_std (to_std c) = c"
proof -
  have "\<forall>c \<in> set B64. of_std (to_std c) = c" by code_simp
  then show "c \<in> set B64 \<Longrightarrow> of_std (to_std c) = c" by blast
qed

lemma to_std_plain: "c \<in> set B64 \<Longrightarrow> to_std c \<noteq> CHR ''=''"
proof -
  have "\<forall>c \<in> set B64. to_std c \<noteq> CHR ''=''" by code_simp
  then show "c \<in> set B64 \<Longrightarrow> to_std c \<noteq> CHR ''=''" by blast
qed

lemma base64Decode_ok: "base64Decode s = Inr bs \<Longrightarrow> s = base64Encode bs"
  by (auto simp: base64Decode_def split: if_splits sum.splits)

lemma b64url_read: "\<exists>acc bits. b64_read (b64url bs) 0 0 [] = Inr (acc, bits, bs)" and b64url_length: "length (b64url bs) mod 4 \<noteq> 1"
  using b64urlDecode_b64url [of bs] by (auto simp: b64urlDecode_def split: if_splits sum.splits)

lemma before_pad:
  assumes "\<forall>c \<in> set t. c \<noteq> x"
  shows "takeWhile (\<lambda>c. c \<noteq> x) (t @ replicate n x) = t" and "dropWhile (\<lambda>c. c \<noteq> x) (t @ replicate n x) = replicate n x"
  using assms by (induction t) (cases n; simp)+

lemma pad_cases: "(k :: nat) mod 4 \<noteq> 1 \<Longrightarrow> (4 - k mod 4) mod 4 \<in> {0, 1, 2}"
  and pad_length: "(k + (4 - k mod 4) mod 4) mod 4 = 0"
proof -
  have "k mod 4 < 4" by simp
  then consider "k mod 4 = 0" | "k mod 4 = 1" | "k mod 4 = 2" | "k mod 4 = 3" by linarith
  then have "(k mod 4 \<noteq> 1 \<longrightarrow> (4 - k mod 4) mod 4 \<in> {0, 1, 2}) \<and> (k mod 4 + (4 - k mod 4) mod 4) mod 4 = 0"
    by cases simp_all
  then show "k mod 4 \<noteq> 1 \<Longrightarrow> (4 - k mod 4) mod 4 \<in> {0, 1, 2}" and "(k + (4 - k mod 4) mod 4) mod 4 = 0"
    by (simp_all add: mod_add_left_eq)
qed

lemma base64Decode_base64Encode: "base64Decode (base64Encode bs) = Inr bs"
proof -
  let ?t = "map to_std (b64url bs)" and ?n = "(4 - length (b64url bs) mod 4) mod 4"
  have alpha: "set (b64url bs) \<subseteq> set B64" by (rule b64url_alphabet)
  have body: "\<forall>c \<in> set ?t. c \<noteq> CHR ''=''" using alpha to_std_plain by auto
  have enc: "base64Encode bs = ?t @ replicate ?n (CHR ''='')" by (simp add: base64Encode_def Let_def)
  have tw: "takeWhile (\<lambda>c. c \<noteq> CHR ''='') (base64Encode bs) = ?t"
    and dw: "dropWhile (\<lambda>c. c \<noteq> CHR ''='') (base64Encode bs) = replicate ?n (CHR ''='')"
    unfolding enc using body by (rule before_pad)+
  have inverse: "map of_std ?t = b64url bs" using alpha of_to_std by (auto simp: map_idI subset_iff)
  have "?n \<in> {0, 1, 2}" using b64url_length by (rule pad_cases)
  then have pad: "replicate ?n (CHR ''='') \<in> {[], ''='', ''==''}" by (auto simp: numeral_2_eq_2)
  have "list_all (\<lambda>c. c \<in> set (map to_std B64)) ?t" using alpha by (auto simp: list_all_iff)
  then have syn: "base64_syntax (base64Encode bs)" unfolding base64_syntax_def Let_def tw dw using pad by blast
  have "(length (b64url bs) + ?n) mod 4 = 0" by (rule pad_length)
  then have len: "length (base64Encode bs) mod 4 = 0" by (simp add: enc)
  obtain acc bits where "b64_read (b64url bs) 0 0 [] = Inr (acc, bits, bs)" using b64url_read [of bs] by auto
  then show ?thesis using syn len unfolding base64Decode_def tw inverse by simp
qed

text \<open>What an accepted message can be.\<close>

definition id_ok :: "string \<Rightarrow> bool" where
  "id_ok i \<longleftrightarrow> 1 \<le> utf16_length i \<and> utf16_length i \<le> 128"

definition part_ok :: "terminal_part \<Rightarrow> bool" where
  "part_ok p \<longleftrightarrow> TERMINAL_ID (tp_terminalId p) \<and> TERMINAL_SEQUENCE (tp_sequence p)
     \<and> 20 \<le> tp_width p \<and> tp_width p \<le> 320 \<and> 5 \<le> tp_height p \<and> tp_height p \<le> 160
     \<and> 0 \<le> tp_index p \<and> tp_index p < tp_count p \<and> tp_count p \<le> 43
     \<and> utf16_length (base64Encode (tp_data p)) \<le> 131072"

fun message_ok :: "session_message \<Rightarrow> bool" where
  "message_ok (Request i t) = (id_ok i \<and> \<bar>t\<bar> \<le> 2 ^ 53 - 1)"
| "message_ok (Success i r) = (id_ok i \<and> r \<noteq> None)"
| "message_ok (Failure i c m) = (id_ok i \<and> c \<in> set RPC_ERROR_CODES \<and> utf16_length m \<le> 4096)"
| "message_ok (Poke r p) = (r \<in> set POKE_REASONS \<and> (case p of None \<Rightarrow> True | Some s \<Rightarrow> 1 \<le> utf16_length s \<and> utf16_length s \<le> 256))"
| "message_ok (Terminal_frame p) = part_ok p"
| "message_ok (Terminal_closed t r) = (TERMINAL_ID t \<and> utf16_length r \<le> 512)"

lemma str_ok_iff: "str_ok v p \<longleftrightarrow> (\<exists>s. v = Some (JStr s) \<and> p s)"
  by (auto simp: str_ok_def str_of_def split: option.splits json.splits)

lemma the_str_simp [simp]: "the_str (Some (JStr s)) = s" "str_of (Some (JStr s)) = Some s" "str_of None = None"
  by (simp_all add: the_str_def str_of_def)

lemma isSafeInteger_bound: "isSafeInteger v \<Longrightarrow> \<bar>int_of v\<bar> \<le> 2 ^ 53 - 1"
proof -
  assume "isSafeInteger v"
  then obtain n where n: "v = Some (JNum n)" "n = of_int \<lfloor>n\<rfloor>" "\<bar>n\<bar> \<le> 2 ^ 53 - 1"
    by (auto simp: isSafeInteger_def split: option.splits json.splits)
  have "\<bar>of_int \<lfloor>n\<rfloor> :: rat\<bar> \<le> of_int (2 ^ 53 - 1)" using n(2,3) by simp
  then have "\<bar>\<lfloor>n\<rfloor>\<bar> \<le> 2 ^ 53 - 1" by linarith
  then show "\<bar>int_of v\<bar> \<le> 2 ^ 53 - 1" using n(1) by (simp add: int_of_def)
qed

lemmas validators = validatePoke_def validateTerminalFrame_def validateTerminalClosed_def validateRequest_def validateResponse_def

lemma validate_fails: 
  "validatePoke ob = Inl e \<Longrightarrow> e = ProtocolError ''bad_message''"
  "validateTerminalFrame ob = Inl e \<Longrightarrow> e = ProtocolError ''bad_message''"
  "validateTerminalClosed ob = Inl e \<Longrightarrow> e = ProtocolError ''bad_message''"
  "validateRequest ob = Inl e \<Longrightarrow> e = ProtocolError ''bad_message''"
  "validateResponse ob = Inl e \<Longrightarrow> e = ProtocolError ''bad_message''"
  by (simp_all add: validators bad_message_def split: option.splits if_splits sum.splits json.splits bool.splits)

lemma validatePoke_ok: "validatePoke ob = Inr m \<Longrightarrow> message_ok m"
  by (auto simp: validatePoke_def bad_message_def str_ok_iff split: option.splits if_splits)

lemma validateTerminalFrame_ok: "validateTerminalFrame ob = Inr m \<Longrightarrow> message_ok m"
  by (auto simp: validateTerminalFrame_def bad_message_def str_ok_iff int_in_def part_ok_def split: option.splits if_splits sum.splits
      dest!: base64Decode_ok)

lemma validateTerminalClosed_ok: "validateTerminalClosed ob = Inr m \<Longrightarrow> message_ok m"
  by (auto simp: validateTerminalClosed_def bad_message_def str_ok_iff split: option.splits if_splits)

lemma validateRequest_ok: "validateRequest ob = Inr m \<Longrightarrow> message_ok m"
  by (auto simp: validateRequest_def bad_message_def str_ok_iff id_ok_def dest!: isSafeInteger_bound split: option.splits if_splits)

lemma exactKeys_get: "exactKeys ob ks os \<Longrightarrow> k \<in> set ks \<Longrightarrow> jget ob k \<noteq> None"
  by (auto simp: exactKeys_def keys_of_def jget_def list_all_iff map_of_eq_None_iff image_iff)

lemma validateResponse_ok: "validateResponse ob = Inr m \<Longrightarrow> message_ok m"
  using exactKeys_get [of ob "[''v'', ''id'', ''ok'', ''result'']" "[]" "''result''"]
  by (auto simp: validateResponse_def bad_message_def str_ok_iff id_ok_def split: option.splits json.splits bool.splits if_splits)

lemma validateSessionMessage_ok: "validateSessionMessage v = Inr m \<Longrightarrow> message_ok m"
  by (auto simp: validateSessionMessage_def bad_message_def split: json.splits option.splits if_splits
      dest: validatePoke_ok validateTerminalFrame_ok validateTerminalClosed_ok validateRequest_ok validateResponse_ok)

lemma validateSessionMessage_fails: "validateSessionMessage v = Inl e \<Longrightarrow> e = ProtocolError ''bad_message''"
  by (auto simp: validateSessionMessage_def bad_message_def split: json.splits option.splits if_splits dest: validate_fails)

text \<open>The assembler's memory is bounded, and a complete sequence of parts gives the frame.\<close>

definition pending_ok :: "pending_frame option \<Rightarrow> bool" where
  "pending_ok c = (case c of None \<Rightarrow> True | Some p \<Rightarrow>
     pf_bytes p = length (concat (pf_parts p)) \<and> pf_bytes p \<le> 4194304 \<and> pf_next p = int (length (pf_parts p)) \<and> pf_next p < pf_count p)"

lemma terminal_push_ok:
  assumes "pending_ok c" and "0 < tp_count part" and "terminal_push c part = (out, c')"
  shows "pending_ok c' \<and> (case out of Inr (Some f) \<Rightarrow> length (tf_data f) \<le> 4194304 | _ \<Rightarrow> True)"
  using assms by (auto simp: terminal_push_def pending_ok_def bad_message_def Let_def concat_bytes_def split: if_splits option.splits)

end
