(* ===== verification/ClientHandshake.thy ===== *)
theory ClientHandshake
  imports ClientSeal ClientMessages
begin

text \<open>
  The handshake that opens a session on a fresh route, \<^verbatim>\<open>pwa/src/lib/protocol/session-handshake.ts\<close>. The channel is
  the environment: it decides when a frame arrives, when the connection breaks and whether a send is refused. Every
  frame sent or received goes to a trace. The lemmas show that the phone proves who it is only after the computer did,
  over the transcript of this very exchange, and what a finished handshake implies.
\<close>

section \<open>The channel\<close>

datatype hs_event = Sent frame | Received frame | Observed string

text \<open>
  \<open>hs_refusals\<close> says for each coming \<^verbatim>\<open>send\<close> whether it throws; when the list ends they succeed. \<open>hs_arrivals\<close> lists
  what \<^verbatim>\<open>next\<close> will deliver, a frame or the error of a broken channel, each with the milliseconds it takes; when the
  list ends nothing comes any more. The clock is \<^verbatim>\<open>Date.now()\<close>.
\<close>

record hs =
  hs_refusals :: "client_error option list"
  hs_arrivals :: "(number \<times> frame fallible) list"
  hs_clock :: number
  hs_trace :: "hs_event list"

type_synonym 'a hs_comp = "hs \<Rightarrow> 'a fallible \<times> hs"

definition hs_bind :: "'a hs_comp \<Rightarrow> ('a \<Rightarrow> 'b hs_comp) \<Rightarrow> 'b hs_comp" where
  "hs_bind m k = (\<lambda>s. case m s of (Inl e, t) \<Rightarrow> (Inl e, t) | (Inr a, t) \<Rightarrow> k a t)"

definition hs_try :: "'a fallible \<Rightarrow> ('a \<Rightarrow> 'b hs_comp) \<Rightarrow> 'b hs_comp" where
  "hs_try r k = (\<lambda>s. case r of Inl e \<Rightarrow> (Inl e, s) | Inr a \<Rightarrow> k a s)"

definition hs_ret :: "'a \<Rightarrow> 'a hs_comp" where
  "hs_ret a = (\<lambda>s. (Inr a, s))"

definition hs_throw :: "client_error \<Rightarrow> 'a hs_comp" where
  "hs_throw e = (\<lambda>s. (Inl e, s))"

definition hs_log :: "hs_event \<Rightarrow> hs \<Rightarrow> hs" where
  "hs_log ev s = s\<lparr> hs_trace := hs_trace s @ [ev] \<rparr>"

definition hs_observe :: "string \<Rightarrow> unit hs_comp" where
  "hs_observe stage = (\<lambda>s. (Inr (), hs_log (Observed stage) s))"

definition channel_send :: "frame \<Rightarrow> unit hs_comp" where
  "channel_send f = (\<lambda>s. case hs_refusals s of
       Some e # rs \<Rightarrow> (Inl e, s\<lparr> hs_refusals := rs \<rparr>)
     | None # rs \<Rightarrow> (Inr (), hs_log (Sent f) (s\<lparr> hs_refusals := rs \<rparr>))
     | [] \<Rightarrow> (Inr (), hs_log (Sent f) s))"

text \<open>An arrival that takes longer than the caller waits stays for the next call, that much closer.\<close>

definition channel_next :: "number \<Rightarrow> frame hs_comp" where
  "channel_next timeoutMs = (\<lambda>s. case hs_arrivals s of
       [] \<Rightarrow> (Inl (ProtocolError ''timeout''), s\<lparr> hs_clock := hs_clock s + timeoutMs \<rparr>)
     | (d, r) # as \<Rightarrow>
         if max 0 d \<ge> timeoutMs
         then (Inl (ProtocolError ''timeout''), s\<lparr> hs_clock := hs_clock s + timeoutMs, hs_arrivals := (d - timeoutMs, r) # as \<rparr>)
         else let t = s\<lparr> hs_clock := hs_clock s + max 0 d, hs_arrivals := as \<rparr> in
              (case r of Inl e \<Rightarrow> (Inl e, t) | Inr f \<Rightarrow> (Inr f, hs_log (Received f) t)))"

section \<open>Reading the answers\<close>

definition truthy :: "json option \<Rightarrow> bool" where
  "truthy v = (case v of
       None \<Rightarrow> False | Some JNull \<Rightarrow> False | Some (JBool b) \<Rightarrow> b | Some (JNum n) \<Rightarrow> n \<noteq> 0 | Some (JStr s) \<Rightarrow> s \<noteq> []
     | Some (JArr _) \<Rightarrow> True | Some (JObj _) \<Rightarrow> True)"

text \<open>\<^verbatim>\<open>String(hello.error?.code || "unpaired")\<close>\<close>

definition refusal_code :: "json option \<Rightarrow> string" where
  "refusal_code err = code_or ''unpaired'' (case err of Some (JObj ob) \<Rightarrow> jget ob ''code'' | _ \<Rightarrow> None)"

record pair_result =
  pr_daemonId :: string
  pr_deviceId :: string
  pr_psk :: "byte list"
  pr_daemonPk :: "byte list"

record session_epoch =
  ep_routeId :: "byte list"
  ep_c2s :: direction
  ep_s2c :: direction

definition validateSessionEstablished :: "frame \<Rightarrow> byte list \<Rightarrow> mux_protocol \<Rightarrow> unit fallible" where
  "validateSessionEstablished f routeId protocol =
     (if f_typ f \<noteq> Typ_SESSION_ESTABLISHED \<or> \<not> sameBytes (f_routeId f) routeId then bad_message
      else case parseJSON f of
          Inl e \<Rightarrow> Inl e
        | Inr body \<Rightarrow> (case property_of body ''v'' of
              Inl e \<Rightarrow> Inl e
            | Inr v \<Rightarrow> (case property_of body ''route_id'' of
                  Inl e \<Rightarrow> Inl e
                | Inr r \<Rightarrow> if v \<noteq> Some (JNum (mux_number protocol)) \<or> r \<noteq> Some (JStr (pwa_bytesToHex routeId))
                           then bad_message else Inr ())))"

text \<open>A \<^verbatim>\<open>FWD\<close> before the session is established: the code of a refusal, or just a bad message.\<close>

definition unexpected_fwd :: "frame \<Rightarrow> client_error" where
  "unexpected_fwd f =
     (case parseJSON f of
        Inr (JObj ob) \<Rightarrow>
          if jget ob ''op'' = Some (JStr ''DeviceHello2'') \<and> \<not> truthy (jget ob ''ok'')
          then ProtocolError (refusal_code (jget ob ''error'')) else ProtocolError ''bad_message''
      | _ \<Rightarrow> ProtocolError ''bad_message'')"

section \<open>Waiting for the relay\<close>

text \<open>One frame of the loop: go on waiting, or the session is established, or throw.\<close>

datatype verdict = Go_on | Answer frame | Done | Fail client_error

definition wait_frame :: "byte list \<Rightarrow> mux_protocol \<Rightarrow> frame \<Rightarrow> verdict" where
  "wait_frame routeId protocol f =
     (if f_typ f = Typ_PING then
        (case requireHeartbeatPayload (f_payload f) of Inl e \<Rightarrow> Fail e | Inr _ \<Rightarrow> Answer (f\<lparr> f_typ := Typ_PONG \<rparr>))
      else if f_typ f = Typ_PONG then
        (case requireHeartbeatPayload (f_payload f) of Inl e \<Rightarrow> Fail e | Inr _ \<Rightarrow> Go_on)
      else if f_typ f = Typ_ERROR then Fail (envelopeError f)
      else if f_typ f = Typ_DAEMON_REPLACED then Fail (ProtocolError ''daemon_replaced'')
      else if f_typ f = Typ_FWD \<and> sameBytes (f_routeId f) routeId then Fail (unexpected_fwd f)
      else if f_typ f \<noteq> Typ_SESSION_ESTABLISHED then Fail (ProtocolError ''bad_message'')
      else case validateSessionEstablished f routeId protocol of Inl e \<Rightarrow> Fail e | Inr _ \<Rightarrow> Done)"

lemma channel_next_shorter:
  "channel_next n s = (Inr f, t) \<Longrightarrow> length (hs_arrivals t) < length (hs_arrivals s)"
  by (auto simp: channel_next_def hs_log_def Let_def split: list.splits prod.splits sum.splits if_splits)

lemma channel_send_arrivals: "channel_send f s = (r, t) \<Longrightarrow> hs_arrivals t = hs_arrivals s"
  by (auto simp: channel_send_def hs_log_def split: list.splits option.splits)

function wait_loop :: "byte list \<Rightarrow> mux_protocol \<Rightarrow> number \<Rightarrow> hs \<Rightarrow> unit fallible \<times> hs" where
  "wait_loop routeId protocol deadline s =
     (if \<not> hs_clock s < deadline then (Inl (ProtocolError ''timeout''), s)
      else case channel_next (max 1 (deadline - hs_clock s)) s of
          (Inl e, t) \<Rightarrow> (Inl e, t)
        | (Inr f, t) \<Rightarrow> (case wait_frame routeId protocol f of
              Fail e \<Rightarrow> (Inl e, t)
            | Done \<Rightarrow> (Inr (), t)
            | Go_on \<Rightarrow> wait_loop routeId protocol deadline t
            | Answer g \<Rightarrow> (case channel_send g t of
                  (Inl e, u) \<Rightarrow> (Inl e, u)
                | (Inr _, u) \<Rightarrow> wait_loop routeId protocol deadline u)))"
  by pat_completeness auto
termination
  by (relation "measure (\<lambda>(routeId, protocol, deadline, s). length (hs_arrivals s))")
    (auto dest!: channel_next_shorter [OF sym] channel_send_arrivals [OF sym])

declare wait_loop.simps [simp del]

definition waitSessionEstablished :: "byte list \<Rightarrow> mux_protocol \<Rightarrow> unit hs_comp" where
  "waitSessionEstablished routeId protocol = (\<lambda>s. wait_loop routeId protocol (hs_clock s + 15000) s)"

section \<open>The handshake\<close>

definition DeviceHello1 :: "pair_result \<Rightarrow> byte list \<Rightarrow> byte list \<Rightarrow> json" where
  "DeviceHello1 pair ephemeralPublic nonce =
     JObj [(''v'', JNum 1), (''op'', JStr ''DeviceHello1''), (''device_id'', JStr (pr_deviceId pair)),
           (''daemon_id'', JStr (pr_daemonId pair)), (''eph_x25519'', JStr (b64url ephemeralPublic)), (''nonce'', JStr (b64url nonce))]"

definition DeviceHello3 :: "suite \<Rightarrow> pair_result \<Rightarrow> byte list \<Rightarrow> json" where
  "DeviceHello3 su pair transcript =
     JObj [(''v'', JNum 1), (''op'', JStr ''DeviceHello3''),
           (''proof_p'', JStr (b64url (proof_of su (pr_psk pair) (transcriptP transcript))))]"

text \<open>The fields of \<^verbatim>\<open>DeviceHello2\<close>: the computer's ephemeral key, its proof, its signature and its clock.\<close>

definition read_hello2 :: "frame \<Rightarrow> byte list \<Rightarrow> (byte list \<times> byte list \<times> byte list \<times> int) fallible" where
  "read_hello2 f routeId =
     (if f_typ f = Typ_ERROR then Inl (envelopeError f)
      else if f_typ f \<noteq> Typ_FWD \<or> \<not> sameBytes (f_routeId f) routeId then bad_message
      else case parseJSON f of
          Inl e \<Rightarrow> Inl e
        | Inr JNull \<Rightarrow> Inl (OtherError ''TypeError'')
        | Inr v \<Rightarrow> (let ob = (case v of JObj ob \<Rightarrow> ob | _ \<Rightarrow> []) in
            if jget ob ''op'' \<noteq> Some (JStr ''DeviceHello2'') \<or> \<not> truthy (jget ob ''ok'')
            then Inl (ProtocolError (refusal_code (jget ob ''error'')))
            else case parseExactB64 (jget ob ''eph_x25519'') 32 of
                Inl e \<Rightarrow> Inl e
              | Inr eph \<Rightarrow> (case parseExactB64 (jget ob ''proof_d'') 32 of
                    Inl e \<Rightarrow> Inl e
                  | Inr prf \<Rightarrow> (case parseExactB64 (jget ob ''sig_d'') 64 of
                        Inl e \<Rightarrow> Inl e
                      | Inr sig \<Rightarrow> if \<not> isSafeInteger (jget ob ''ts'') then bad_message
                                   else Inr (eph, prf, sig, int_of (jget ob ''ts''))))))"

definition hello2_verified :: "suite \<Rightarrow> pair_result \<Rightarrow> byte list \<Rightarrow> byte list \<times> byte list \<Rightarrow> unit fallible" where
  "hello2_verified su pair transcript prf_sig =
     (if \<not> sameBytes (proof_of su (pr_psk pair) transcript) (fst prf_sig) then Inl (ProtocolError ''bad_proof'')
      else if \<not> verifyEd25519 su (pr_daemonPk pair) transcript (snd prf_sig) then Inl (ProtocolError ''bad_signature'')
      else Inr ())"

text \<open>From the check of the computer's proof to the end; the ephemeral secret and the nonce are random draws, arguments here.\<close>

definition finish_handshake ::
  "suite \<Rightarrow> byte list \<Rightarrow> pair_result \<Rightarrow> mux_protocol \<Rightarrow> byte list \<Rightarrow> byte list \<Rightarrow> byte list \<Rightarrow> byte list \<times> byte list \<Rightarrow> session_epoch hs_comp" where
  "finish_handshake su routeId pair protocol ephemeralSecret ephemeralDaemon transcript prf_sig =
     hs_try (hello2_verified su pair transcript prf_sig) (\<lambda>_.
     hs_bind (hs_observe ''hello_verified'') (\<lambda>_.
     hs_try (jsonFrame Typ_FWD routeId (DeviceHello3 su pair transcript)) (\<lambda>hello3.
     hs_bind (channel_send hello3) (\<lambda>_.
     hs_try (case x25519_shared su ephemeralSecret ephemeralDaemon of None \<Rightarrow> Inl (OtherError ''x25519'') | Some z \<Rightarrow> Inr z) (\<lambda>dh.
     hs_try (sessionKeys su dh (pr_psk pair)) (\<lambda>keys.
     hs_bind (waitSessionEstablished routeId protocol) (\<lambda>_.
     hs_bind (hs_observe ''session_established'') (\<lambda>_.
     hs_ret \<lparr> ep_routeId = routeId, ep_c2s = new_direction (fst keys) DIR_C, ep_s2c = new_direction (snd keys) DIR_S \<rparr>))))))))"

definition establishSessionEpoch ::
  "suite \<Rightarrow> byte list \<Rightarrow> pair_result \<Rightarrow> mux_protocol \<Rightarrow> byte list \<Rightarrow> byte list \<Rightarrow> session_epoch hs_comp" where
  "establishSessionEpoch su routeId pair protocol ephemeralSecret nonce =
     (let ephemeralPublic = x25519_public su ephemeralSecret in
      hs_try (jsonFrame Typ_FWD routeId (DeviceHello1 pair ephemeralPublic nonce)) (\<lambda>hello1.
      hs_bind (channel_send hello1) (\<lambda>_.
      hs_bind (channel_next 8000) (\<lambda>helloFrame.
      hs_try (read_hello2 helloFrame routeId) (\<lambda>(ephemeralDaemon, proofDaemon, signatureDaemon, ts).
      finish_handshake su routeId pair protocol ephemeralSecret ephemeralDaemon
        (transcriptD (pr_daemonId pair) (pr_deviceId pair) ephemeralPublic ephemeralDaemon nonce ts routeId)
        (proofDaemon, signatureDaemon))))))"

section \<open>What a run of the handshake shows\<close>

lemma hs_bindE:
  assumes "hs_bind m k s = (r, t)"
  obtains (throws) e where "m s = (Inl e, t)" "r = Inl e" | (returns) a u where "m s = (Inr a, u)" "k a u = (r, t)"
  using assms by (auto simp: hs_bind_def split: prod.splits sum.splits)

lemma hs_tryE:
  assumes "hs_try q k s = (r, t)"
  obtains (throws) e where "q = Inl e" "r = Inl e" "t = s" | (returns) a where "q = Inr a" "k a s = (r, t)"
  using assms by (auto simp: hs_try_def split: sum.splits)

lemma channel_send_trace:
  assumes "channel_send f s = (r, t)"
  shows "hs_trace t = hs_trace s @ (if r = Inr () then [Sent f] else [])"
  using assms by (auto simp: channel_send_def hs_log_def split: list.splits option.splits)

lemma channel_next_trace:
  assumes "channel_next n s = (r, t)"
  shows "hs_trace t = hs_trace s @ (case r of Inl _ \<Rightarrow> [] | Inr f \<Rightarrow> [Received f])"
  using assms by (auto simp: channel_next_def hs_log_def Let_def split: list.splits prod.splits sum.splits if_splits)

lemma hs_observe_trace: "hs_observe g s = (r, t) \<longleftrightarrow> r = Inr () \<and> t = hs_log (Observed g) s"
  by (auto simp: hs_observe_def)

lemma wait_frame_answer: "wait_frame r p f = Answer g \<Longrightarrow> g = f\<lparr> f_typ := Typ_PONG \<rparr>"
  and wait_frame_done: "wait_frame r p f = Done \<Longrightarrow> validateSessionEstablished f r p = Inr ()"
  by (auto simp: wait_frame_def split: if_splits sum.splits)

text \<open>While it waits the phone sends nothing but answers to pings.\<close>

lemma wait_loop_trace:
  "wait_loop r p d s = (res, t) \<Longrightarrow> \<exists>es. hs_trace t = hs_trace s @ es
     \<and> (\<forall>f. Sent f \<in> set es \<longrightarrow> f_typ f = Typ_PONG)
     \<and> (res = Inr () \<longrightarrow> (\<exists>f. Received f \<in> set es \<and> validateSessionEstablished f r p = Inr ()))"
proof (induction r p d s rule: wait_loop.induct)
  case (1 r p d s)
  show ?case
  proof (cases "hs_clock s < d")
    case False
    then show ?thesis using "1.prems" by (auto simp: wait_loop.simps [of r p d s])
  next
    case True
    obtain q u where n: "channel_next (max 1 (d - hs_clock s)) s = (q, u)" by (cases "channel_next (max 1 (d - hs_clock s)) s")
    note tr = channel_next_trace [OF n]
    show ?thesis
    proof (cases q)
      case (Inl e)
      then show ?thesis using "1.prems" True n tr by (auto simp: wait_loop.simps [of r p d s])
    next
      case (Inr f)
      show ?thesis
      proof (cases "wait_frame r p f")
        case Go_on
        then have "wait_loop r p d u = (res, t)" using "1.prems" True n Inr by (simp add: wait_loop.simps [of r p d s])
        then show ?thesis using "1.IH"(1) [OF _ n [symmetric] Inr Go_on] True Inr tr by fastforce
      next
        case (Answer g)
        obtain q' v where c: "channel_send g u = (q', v)" by (cases "channel_send g u")
        note g = wait_frame_answer [OF Answer] and trc = channel_send_trace [OF c]
        show ?thesis
        proof (cases q')
          case (Inl e)
          then show ?thesis using "1.prems" True n Inr Answer c tr trc \<open>q = Inr f\<close> by (auto simp: wait_loop.simps [of r p d s])
        next
          case Inr2: (Inr x)
          then have "wait_loop r p d v = (res, t)" using "1.prems" True n Inr Answer c by (simp add: wait_loop.simps [of r p d s])
          then obtain es where es: "hs_trace t = hs_trace v @ es" "\<forall>f. Sent f \<in> set es \<longrightarrow> f_typ f = Typ_PONG"
            "res = Inr () \<longrightarrow> (\<exists>f. Received f \<in> set es \<and> validateSessionEstablished f r p = Inr ())"
            using "1.IH"(2) [OF _ n [symmetric] Inr Answer c [symmetric] Inr2] True by auto
          have "hs_trace t = hs_trace s @ Received f # Sent g # es" using es(1) tr trc Inr Inr2 by simp
          then show ?thesis using es g by (intro exI [of _ "Received f # Sent g # es"]) auto
        qed
      next
        case Done
        then show ?thesis using "1.prems" True n Inr tr wait_frame_done [OF Done] by (auto simp: wait_loop.simps [of r p d s])
      next
        case (Fail e)
        then show ?thesis using "1.prems" True n Inr tr by (auto simp: wait_loop.simps [of r p d s])
      qed
    qed
  qed
qed

text \<open>
  \<open>vouched\<close>: this frame carries a proof under the pairing's key and a signature by the pairing's computer, both over
  the transcript with the phone's own ephemeral key, nonce and route.
\<close>

definition vouched :: "suite \<Rightarrow> pair_result \<Rightarrow> byte list \<Rightarrow> byte list \<Rightarrow> byte list \<Rightarrow> frame \<Rightarrow> byte list \<Rightarrow> byte list \<Rightarrow> bool" where
  "vouched su pair routeId ephemeralPublic nonce f ephemeralDaemon transcript \<longleftrightarrow>
     (case read_hello2 f routeId of
        Inl _ \<Rightarrow> False
      | Inr (eph, prf, sig, ts) \<Rightarrow> eph = ephemeralDaemon
          \<and> transcript = transcriptD (pr_daemonId pair) (pr_deviceId pair) ephemeralPublic eph nonce ts routeId
          \<and> hmac_sha256 su (pr_psk pair) transcript = prf \<and> ed25519_verify su sig transcript (pr_daemonPk pair))"

lemma hello2_verified_iff:
  "hello2_verified su pair tr (prf, sig) = Inr u \<longleftrightarrow> hmac_sha256 su (pr_psk pair) tr = prf \<and> ed25519_verify su sig tr (pr_daemonPk pair)"
  by (simp add: hello2_verified_def proof_of_def verifyEd25519_def)

text \<open>The trace of a run that starts with an empty one, by how far it got.\<close>

inductive hs_run for su routeId pair protocol sk nonce where
  nothing: "hs_run su routeId pair protocol sk nonce (Inl e) []"
| asked: "jsonFrame Typ_FWD routeId (DeviceHello1 pair (x25519_public su sk) nonce) = Inr h1 \<Longrightarrow>
     hs_run su routeId pair protocol sk nonce (Inl e) [Sent h1]"
| refused: "jsonFrame Typ_FWD routeId (DeviceHello1 pair (x25519_public su sk) nonce) = Inr h1 \<Longrightarrow>
     hs_run su routeId pair protocol sk nonce (Inl e) [Sent h1, Received f]"
| verified: "jsonFrame Typ_FWD routeId (DeviceHello1 pair (x25519_public su sk) nonce) = Inr h1 \<Longrightarrow>
     vouched su pair routeId (x25519_public su sk) nonce f eph tr \<Longrightarrow>
     hs_run su routeId pair protocol sk nonce (Inl e) [Sent h1, Received f, Observed ''hello_verified'']"
| proved: "jsonFrame Typ_FWD routeId (DeviceHello1 pair (x25519_public su sk) nonce) = Inr h1 \<Longrightarrow>
     vouched su pair routeId (x25519_public su sk) nonce f eph tr \<Longrightarrow>
     jsonFrame Typ_FWD routeId (DeviceHello3 su pair tr) = Inr h3 \<Longrightarrow>
     \<forall>g. Sent g \<in> set es \<longrightarrow> f_typ g = Typ_PONG \<Longrightarrow>
     hs_run su routeId pair protocol sk nonce (Inl e) ([Sent h1, Received f, Observed ''hello_verified'', Sent h3] @ es)"
| established: "jsonFrame Typ_FWD routeId (DeviceHello1 pair (x25519_public su sk) nonce) = Inr h1 \<Longrightarrow>
     vouched su pair routeId (x25519_public su sk) nonce f eph tr \<Longrightarrow>
     jsonFrame Typ_FWD routeId (DeviceHello3 su pair tr) = Inr h3 \<Longrightarrow>
     \<forall>g. Sent g \<in> set es \<longrightarrow> f_typ g = Typ_PONG \<Longrightarrow>
     Received fe \<in> set es \<Longrightarrow> validateSessionEstablished fe routeId protocol = Inr () \<Longrightarrow>
     x25519_shared su sk eph = Some dh \<Longrightarrow> sessionKeys su dh (pr_psk pair) = Inr keys \<Longrightarrow>
     hs_run su routeId pair protocol sk nonce
       (Inr \<lparr> ep_routeId = routeId, ep_c2s = new_direction (fst keys) DIR_C, ep_s2c = new_direction (snd keys) DIR_S \<rparr>)
       ([Sent h1, Received f, Observed ''hello_verified'', Sent h3] @ es @ [Observed ''session_established''])"

lemma finish_run:
  assumes run: "finish_handshake su routeId pair protocol sk eph tr (pd, sig) v = (r, t)"
    and h1: "jsonFrame Typ_FWD routeId (DeviceHello1 pair (x25519_public su sk) nonce) = Inr h1"
    and trace: "hs_trace v = [Sent h1, Received f]"
    and hello2: "read_hello2 f routeId = Inr (eph, pd, sig, ts)"
    and tr: "tr = transcriptD (pr_daemonId pair) (pr_deviceId pair) (x25519_public su sk) eph nonce ts routeId"
  shows "hs_run su routeId pair protocol sk nonce r (hs_trace t)"
proof -
  have vouch: "vouched su pair routeId (x25519_public su sk) nonce f eph tr" if "hello2_verified su pair tr (pd, sig) = Inr w" for w
    using that hello2 tr by (simp add: vouched_def hello2_verified_iff)
  note steps = hs_observe_trace hs_log_def hs_ret_def
  from run show ?thesis unfolding finish_handshake_def
  proof (elim hs_tryE hs_bindE, goal_cases)
    case (1 e)
    then show ?case using trace hs_run.refused [OF h1] by simp
  next
    case (3 x1 x2 u1 e)
    then show ?case using trace hs_run.verified [OF h1 vouch [OF 3(1)]] by (simp add: steps)
  next
    case (4 x1 x2 u1 h3 e)
    then show ?case using trace hs_run.verified [OF h1 vouch [OF 4(1)]] channel_send_trace [OF 4(4)] by (simp add: steps)
  next
    case (5 x1 x2 u1 h3 x3 u2 e)
    then show ?case using trace hs_run.proved [OF h1 vouch [OF 5(1)] 5(3), of "[]"] channel_send_trace [OF 5(4)] by (simp add: steps)
  next
    case (6 x1 x2 u1 h3 x3 u2 dh e)
    then show ?case using trace hs_run.proved [OF h1 vouch [OF 6(1)] 6(3), of "[]"] channel_send_trace [OF 6(4)] by (simp add: steps)
  next
    case (7 x1 x2 u1 h3 x3 u2 dh keys e)
    then obtain es where "hs_trace t = hs_trace u2 @ es" "\<forall>g. Sent g \<in> set es \<longrightarrow> f_typ g = Typ_PONG"
      using wait_loop_trace unfolding waitSessionEstablished_def by blast
    then show ?case using 7 trace hs_run.proved [OF h1 vouch [OF 7(1)] 7(3)] channel_send_trace [OF 7(4)] by (simp add: steps)
  next
    case (9 x1 x2 u1 h3 x3 u2 dh keys x4 u3 x5 u4)
    have dh: "x25519_shared su sk eph = Some dh" using 9(5) by (auto split: option.splits)
    obtain es fe where es: "hs_trace u3 = hs_trace u2 @ es" "\<forall>g. Sent g \<in> set es \<longrightarrow> f_typ g = Typ_PONG"
      "Received fe \<in> set es" "validateSessionEstablished fe routeId protocol = Inr ()"
      using 9(7) wait_loop_trace [of routeId protocol "hs_clock u2 + 15000" u2 "Inr ()" u3] unfolding waitSessionEstablished_def by auto
    then show ?case using 9 trace hs_run.established [OF h1 vouch [OF 9(1)] 9(3) es(2-4) dh 9(6)] channel_send_trace [OF 9(4)]
      by (auto simp: steps)
  qed (simp_all add: hs_observe_def)
qed

lemma establish_run:
  assumes "establishSessionEpoch su routeId pair protocol sk nonce s = (r, t)" and "hs_trace s = []"
  shows "hs_run su routeId pair protocol sk nonce r (hs_trace t)"
  using assms(1) unfolding establishSessionEpoch_def Let_def
proof (elim hs_tryE hs_bindE, goal_cases)
  case (1 e)
  then show ?case using assms(2) hs_run.nothing by simp
next
  case (2 h1 e)
  then show ?case using assms(2) channel_send_trace [OF 2(2)] hs_run.nothing by simp
next
  case (3 h1 x u e)
  then show ?case using assms(2) channel_send_trace [OF 3(2)] channel_next_trace [OF 3(3)] hs_run.asked by fastforce
next
  case (4 h1 x u f v e)
  then show ?case using assms(2) channel_send_trace [OF 4(2)] channel_next_trace [OF 4(3)] hs_run.refused by fastforce
next
  case (5 h1 x u f v ans)
  obtain eph pd sig ts where ans: "ans = (eph, pd, sig, ts)" by (cases ans)
  have trace: "hs_trace v = [Sent h1, Received f]" using assms(2) channel_send_trace [OF 5(2)] channel_next_trace [OF 5(3)] by simp
  show ?case using finish_run [OF _ 5(1) trace 5(4) [unfolded ans] refl] 5(5) ans by simp
qed

lemma hs_run_cases:
  assumes "hs_run su routeId pair protocol sk nonce r trace"
  shows "\<forall>g. Sent g \<in> set trace \<longrightarrow>
      jsonFrame Typ_FWD routeId (DeviceHello1 pair (x25519_public su sk) nonce) = Inr g \<or> f_typ g = Typ_PONG \<or>
      (\<exists>h1 f rest eph tr. trace = Sent h1 # Received f # rest \<and> vouched su pair routeId (x25519_public su sk) nonce f eph tr
         \<and> jsonFrame Typ_FWD routeId (DeviceHello3 su pair tr) = Inr g)"
    and "r = Inr ep \<Longrightarrow> \<exists>h1 f rest eph tr fe dh keys. trace = Sent h1 # Received f # rest
      \<and> vouched su pair routeId (x25519_public su sk) nonce f eph tr
      \<and> Received fe \<in> set rest \<and> validateSessionEstablished fe routeId protocol = Inr ()
      \<and> x25519_shared su sk eph = Some dh \<and> sessionKeys su dh (pr_psk pair) = Inr keys
      \<and> ep = \<lparr> ep_routeId = routeId, ep_c2s = new_direction (fst keys) DIR_C, ep_s2c = new_direction (snd keys) DIR_S \<rparr>"
  using assms by (induction rule: hs_run.induct) fastforce+

end
