(* ===== verification/ClientSpake.thy ===== *)
theory ClientSpake
  imports ClientSeal
begin

text \<open>
  The password-authenticated key exchange that pairs a phone: SPAKE2+ as \<^verbatim>\<open>pwa/src/lib/protocol/spake.ts\<close> runs the
  prover, and the verifier of \<^verbatim>\<open>internal/crypto/spake2plus/spake.go\<close> on the computer. The curve and the password
  hash come from packages: they are the record \<open>curve\<close> and an argument, and what the code relies on is
  \<open>sound_curve\<close>, the laws of a group of prime order with its point encoding. The lemmas show that the two sides
  hash the same transcript exactly when they started from the same record.
\<close>

section \<open>The curve\<close>

record 'p curve =
  point_fromHex :: "byte list \<Rightarrow> 'p option"
  point_toRawBytes :: "'p \<Rightarrow> byte list option"
  point_BASE :: 'p
  point_ZERO :: 'p
  point_add :: "'p \<Rightarrow> 'p \<Rightarrow> 'p"
  point_negate :: "'p \<Rightarrow> 'p"
  point_multiply :: "'p \<Rightarrow> nat \<Rightarrow> 'p option"
  curve_n :: nat

primrec times_of :: "'p curve \<Rightarrow> nat \<Rightarrow> 'p \<Rightarrow> 'p" where
  "times_of cv 0 p = point_ZERO cv"
| "times_of cv (Suc k) p = point_add cv p (times_of cv k p)"

definition M_bytes :: "byte list" where
  "M_bytes = pwa_hexToBytes ''04886e2f97ace46e55ba9dd7242579f2993b64e16ef3dcab95afd497333d8fa12f5ff355163e43ce224e0b0e65ff02ac8e5c7be09419c785e0ca547d55a12e2d20''"

definition N_bytes :: "byte list" where
  "N_bytes = pwa_hexToBytes ''04d8bbd6c639c62937b04d997f38c3770719c629d7014d49a24b4f98baa1292b4907d60aa6bfade45008a636337f5168c64d9bd36034808cd564490b1e656edbe7''"

text \<open>
  An abelian group whose every element has the prime order \<open>curve_n\<close>, generated by a base point that is not zero.
  \<^verbatim>\<open>multiply\<close> takes the scalars from 1 below the order; every point but zero has an encoding that is read back;
  and the two fixed points of the protocol are points.
\<close>

definition sound_curve :: "'p curve \<Rightarrow> bool" where
  "sound_curve cv \<longleftrightarrow>
     (\<forall>p q r. point_add cv (point_add cv p q) r = point_add cv p (point_add cv q r)) \<and>
     (\<forall>p q. point_add cv p q = point_add cv q p) \<and>
     (\<forall>p. point_add cv (point_ZERO cv) p = p) \<and>
     (\<forall>p. point_add cv p (point_negate cv p) = point_ZERO cv) \<and>
     1 < curve_n cv \<and> curve_n cv \<le> 2 ^ 256 \<and>
     (\<forall>a b. curve_n cv dvd a * b \<longrightarrow> curve_n cv dvd a \<or> curve_n cv dvd b) \<and>
     (\<forall>p. times_of cv (curve_n cv) p = point_ZERO cv) \<and>
     point_BASE cv \<noteq> point_ZERO cv \<and>
     (\<forall>p k. point_multiply cv p k = (if 1 \<le> k \<and> k < curve_n cv then Some (times_of cv k p) else None)) \<and>
     (\<forall>p. point_toRawBytes cv p = None \<longleftrightarrow> p = point_ZERO cv) \<and>
     (\<forall>p b. point_toRawBytes cv p = Some b \<longrightarrow> point_fromHex cv b = Some p \<and> length b = 65) \<and>
     point_fromHex cv M_bytes \<noteq> None \<and> point_fromHex cv N_bytes \<noteq> None"

section \<open>Scalars\<close>

definition os2ip :: "byte list \<Rightarrow> nat" where
  "os2ip b = foldl (\<lambda>n x. n * 256 + unat x) 0 b"

definition os2ipMod :: "nat \<Rightarrow> byte list \<Rightarrow> nat" where
  "os2ipMod ORDER b = os2ip b mod ORDER"

text \<open>The bytes of \<^verbatim>\<open>n.toString(16)\<close>, padded to an even number of digits.\<close>

fun hex_bytes :: "nat \<Rightarrow> byte list" where
  "hex_bytes n = (if n < 256 then [word_of_nat n] else hex_bytes (n div 256) @ [word_of_nat n])"

declare hex_bytes.simps [simp del]

definition pad32 :: "nat \<Rightarrow> byte list fallible" where
  "pad32 n =
     (let raw = hex_bytes n in
      if length raw > 32 then Inl (OtherError ''RangeError'') else Inr (replicate (32 - length raw) 0 @ raw))"

definition or_throw :: "string \<Rightarrow> 'a option \<Rightarrow> 'a fallible" where
  "or_throw m v = (case v of None \<Rightarrow> Inl (OtherError m) | Some x \<Rightarrow> Inr x)"

definition bindF :: "'a fallible \<Rightarrow> ('a \<Rightarrow> 'b fallible) \<Rightarrow> 'b fallible" where
  "bindF r k = (case r of Inl e \<Rightarrow> Inl e | Inr a \<Rightarrow> k a)"

definition pointMul :: "'p curve \<Rightarrow> byte list \<Rightarrow> nat \<Rightarrow> 'p fallible" where
  "pointMul cv p k = bindF (or_throw ''point'' (point_fromHex cv p)) (\<lambda>q. or_throw ''scalar'' (point_multiply cv q k))"

definition uncomp :: "'p curve \<Rightarrow> 'p \<Rightarrow> byte list fallible" where
  "uncomp cv p = or_throw ''point'' (point_toRawBytes cv p)"

section \<open>The record both sides derive from the code\<close>

record spake_record =
  sr_w0 :: nat
  sr_w1 :: nat
  sr_L :: "byte list"

text \<open>
  \<^verbatim>\<open>argon2id\<close>: password, salt, parallelism, iterations, memory in kilobytes, length of the hash.
\<close>

type_synonym argon = "string \<Rightarrow> byte list \<Rightarrow> nat \<Rightarrow> nat \<Rightarrow> nat \<Rightarrow> nat \<Rightarrow> byte list"

definition deriveRecord :: "suite \<Rightarrow> argon \<Rightarrow> 'p curve \<Rightarrow> string \<Rightarrow> string \<Rightarrow> string \<Rightarrow> spake_record fallible" where
  "deriveRecord su argon2id cv normalizedS daemonId pairRefHex =
     (let saltFull = sha256_of su (concat_bytes [encStr ''pairfob-v1/pake-salt'', encStr daemonId, encStr pairRefHex]);
          expanded = argon2id normalizedS (take 16 saltFull) 1 3 65536 80;
          w0 = os2ipMod (curve_n cv) (take 40 expanded);
          w1 = os2ipMod (curve_n cv) (take 40 (drop 40 expanded))
      in bindF (or_throw ''scalar'' (point_multiply cv (point_BASE cv) w1)) (\<lambda>p.
         bindF (uncomp cv p) (\<lambda>L. Inr \<lparr> sr_w0 = w0, sr_w1 = w1, sr_L = L \<rparr>)))"

section \<open>Keys\<close>

record spake_keys =
  sk_shared :: "byte list"
  sk_confirmP :: "byte list"
  sk_confirmV :: "byte list"

definition SPAKE_CONTEXT :: string where "SPAKE_CONTEXT = ''pairfob-v1/spake2plus''"

text \<open>The hashed transcript: every part carries its length.\<close>

definition spake_transcript ::
  "string \<Rightarrow> string \<Rightarrow> string \<Rightarrow> byte list \<Rightarrow> byte list \<Rightarrow> byte list \<Rightarrow> byte list \<Rightarrow> nat \<Rightarrow> byte list fallible" where
  "spake_transcript ctx idP idV shareP shareV Z V w0 =
     bindF (pad32 w0) (\<lambda>w. Inr (concat_bytes
       [encStr ctx, encStr idP, encStr idV, lenPref M_bytes, lenPref N_bytes, lenPref shareP, lenPref shareV, lenPref Z, lenPref V, lenPref w]))"

definition keys_of_transcript :: "suite \<Rightarrow> byte list \<Rightarrow> byte list \<Rightarrow> byte list \<Rightarrow> spake_keys" where
  "keys_of_transcript su tt shareP shareV =
     (let kMain = sha256_of su tt; conf = pairfobHKDF su kMain None (text_bytes ''ConfirmationKeys'') 64 in
      \<lparr> sk_shared = pairfobHKDF su kMain None (text_bytes ''SharedKey'') 32,
        sk_confirmP = hmac_sha256 su (take 32 conf) shareV, sk_confirmV = hmac_sha256 su (drop 32 conf) shareP \<rparr>)"

definition computeKeys ::
  "suite \<Rightarrow> string \<Rightarrow> string \<Rightarrow> string \<Rightarrow> byte list \<Rightarrow> byte list \<Rightarrow> byte list \<Rightarrow> byte list \<Rightarrow> nat \<Rightarrow> spake_keys fallible" where
  "computeKeys su ctx idP idV shareP shareV Z V w0 =
     bindF (spake_transcript ctx idP idV shareP shareV Z V w0) (\<lambda>tt. Inr (keys_of_transcript su tt shareP shareV))"

section \<open>The prover, on the phone\<close>

record prover =
  pv_rec :: spake_record
  pv_idP :: string
  pv_idV :: string
  pv_x :: nat
  pv_shareP :: "byte list"

text \<open>\<^verbatim>\<open>start\<close> draws 32 random bytes, an argument here.\<close>

definition prover_start :: "'p curve \<Rightarrow> spake_record \<Rightarrow> string \<Rightarrow> string \<Rightarrow> byte list \<Rightarrow> prover fallible" where
  "prover_start cv rc idP idV bytes =
     (let x0 = os2ipMod (curve_n cv) bytes; x = (if x0 = 0 then 1 else x0) in
      bindF (pointMul cv M_bytes (sr_w0 rc)) (\<lambda>wM.
      bindF (or_throw ''scalar'' (point_multiply cv (point_BASE cv) x)) (\<lambda>xP.
      bindF (uncomp cv (point_add cv xP wM)) (\<lambda>share.
      Inr \<lparr> pv_rec = rc, pv_idP = idP, pv_idV = idV, pv_x = x, pv_shareP = share \<rparr>))))"

text \<open>The shared points \<^verbatim>\<open>Z\<close> and \<^verbatim>\<open>V\<close> of the prover.\<close>

definition prover_points :: "'p curve \<Rightarrow> prover \<Rightarrow> byte list \<Rightarrow> (byte list \<times> byte list) fallible" where
  "prover_points cv pv shareV =
     bindF (or_throw ''point'' (point_fromHex cv shareV)) (\<lambda>Y.
     bindF (pointMul cv N_bytes (sr_w0 (pv_rec pv))) (\<lambda>wN.
     let tmp = point_add cv Y (point_negate cv wN) in
     bindF (or_throw ''scalar'' (point_multiply cv tmp (pv_x pv))) (\<lambda>zp.
     bindF (uncomp cv zp) (\<lambda>Z.
     bindF (or_throw ''scalar'' (point_multiply cv tmp (sr_w1 (pv_rec pv)))) (\<lambda>vp.
     bindF (uncomp cv vp) (\<lambda>V. Inr (Z, V)))))))"

definition prover_finish :: "suite \<Rightarrow> 'p curve \<Rightarrow> prover \<Rightarrow> byte list \<Rightarrow> spake_keys fallible" where
  "prover_finish su cv pv shareV =
     bindF (prover_points cv pv shareV) (\<lambda>(Z, V).
     computeKeys su SPAKE_CONTEXT (pv_idP pv) (pv_idV pv) (pv_shareP pv) shareV Z V (sr_w0 (pv_rec pv)))"

definition idProver :: "string \<Rightarrow> string" where
  "idProver pairRefHex = ''phone'' @ pairRefHex"

section \<open>The verifier, on the computer\<close>

text \<open>
  \<^verbatim>\<open>Verifier.FinishWithY\<close>: it holds \<open>w0\<close> and \<open>L\<close> of its record, not \<open>w1\<close>, and a scalar. Its curve multiplies by every scalar,
  zero included, where the phone's library refuses zero; encoding the point at infinity panics, which is an error here. Its
  \<^verbatim>\<open>DeriveRecord\<close> and \<^verbatim>\<open>ComputeKeys\<close> hash the same bytes in the same order as the phone's, so \<open>deriveRecord\<close> and \<open>computeKeys\<close> stand
  for both; its \<^verbatim>\<open>pad32\<close> differs only on numbers of more than 32 bytes, and \<open>w0\<close> is below the order of the curve.
\<close>

definition go_pointMul :: "'p curve \<Rightarrow> byte list \<Rightarrow> nat \<Rightarrow> 'p fallible" where
  "go_pointMul cv b k = bindF (or_throw ''invalid P-256 point'' (point_fromHex cv b)) (\<lambda>p. Inr (times_of cv k p))"

definition verifier_points ::
  "'p curve \<Rightarrow> nat \<Rightarrow> byte list \<Rightarrow> byte list \<Rightarrow> nat \<Rightarrow> (byte list \<times> byte list \<times> byte list) fallible" where
  "verifier_points cv w0 L shareP y =
     bindF (or_throw ''invalid P-256 point'' (point_fromHex cv shareP)) (\<lambda>X.
     bindF (go_pointMul cv N_bytes w0) (\<lambda>wN.
     let yP = times_of cv y (point_BASE cv) in
     bindF (uncomp cv (point_add cv yP wN)) (\<lambda>shareV.
     bindF (go_pointMul cv M_bytes w0) (\<lambda>wM.
     let zp = times_of cv y (point_add cv X (point_negate cv wM)) in
     bindF (go_pointMul cv L y) (\<lambda>vp.
     bindF (uncomp cv zp) (\<lambda>Z.
     bindF (uncomp cv vp) (\<lambda>V. Inr (shareV, Z, V))))))))"

definition verifier_finish ::
  "suite \<Rightarrow> 'p curve \<Rightarrow> nat \<Rightarrow> byte list \<Rightarrow> string \<Rightarrow> string \<Rightarrow> byte list \<Rightarrow> nat \<Rightarrow> (byte list \<times> spake_keys) fallible" where
  "verifier_finish su cv w0 L idP idV shareP y =
     bindF (verifier_points cv w0 L shareP y) (\<lambda>(shareV, Z, V).
     bindF (computeKeys su SPAKE_CONTEXT idP idV shareP shareV Z V w0) (\<lambda>ks. Inr (shareV, ks)))"

section \<open>The group\<close>

named_theorems group_laws

lemma sound_curve_group [group_laws]:
  assumes "sound_curve cv"
  shows "point_add cv (point_add cv p q) r = point_add cv p (point_add cv q r)"
    and "point_add cv p (point_negate cv p) = point_ZERO cv"
    and "point_add cv (point_ZERO cv) p = p"
    and "point_add cv p (point_ZERO cv) = p"
  using assms unfolding sound_curve_def by metis+

lemma sound_curve_commute: "sound_curve cv \<Longrightarrow> point_add cv p q = point_add cv q p"
  unfolding sound_curve_def by blast

lemma sound_curve_order:
  assumes "sound_curve cv"
  shows "1 < curve_n cv" "curve_n cv \<le> 2 ^ 256" "times_of cv (curve_n cv) p = point_ZERO cv" "point_BASE cv \<noteq> point_ZERO cv"
    and "curve_n cv dvd a * b \<Longrightarrow> curve_n cv dvd a \<or> curve_n cv dvd b"
  using assms unfolding sound_curve_def by blast+

lemma multiply_Some:
  "sound_curve cv \<Longrightarrow> point_multiply cv p k = Some q \<longleftrightarrow> 1 \<le> k \<and> k < curve_n cv \<and> q = times_of cv k p"
  unfolding sound_curve_def by auto

lemma toRawBytes_Some:
  assumes "sound_curve cv" and "point_toRawBytes cv p = Some b"
  shows "point_fromHex cv b = Some p" and "length b = 65" and "p \<noteq> point_ZERO cv"
proof -
  have "(\<forall>p. point_toRawBytes cv p = None \<longleftrightarrow> p = point_ZERO cv) \<and>
      (\<forall>p b. point_toRawBytes cv p = Some b \<longrightarrow> point_fromHex cv b = Some p \<and> length b = 65)"
    using assms(1) unfolding sound_curve_def by (elim conjE) (intro conjI)
  with assms(2) show "point_fromHex cv b = Some p" "length b = 65" "p \<noteq> point_ZERO cv" by (blast, blast, metis option.distinct(1))
qed

lemma toRawBytes_inj:
  assumes "sound_curve cv" and "point_toRawBytes cv p = Some b" and "point_toRawBytes cv q = Some b"
  shows "p = q"
  using toRawBytes_Some(1) [OF assms(1,2)] toRawBytes_Some(1) [OF assms(1,3)] by simp

lemma times_add:
  assumes "sound_curve cv"
  shows "times_of cv (a + b) p = point_add cv (times_of cv a p) (times_of cv b p)"
  by (induction a) (simp_all add: group_laws [OF assms])

lemma times_mult:
  assumes "sound_curve cv"
  shows "times_of cv (a * b) p = times_of cv a (times_of cv b p)"
  by (induction a) (simp_all add: times_add [OF assms])

lemma times_zero:
  assumes "sound_curve cv"
  shows "times_of cv k (point_ZERO cv) = point_ZERO cv"
  by (induction k) (simp_all add: group_laws [OF assms])

lemma times_zero_iff:
  assumes sound: "sound_curve cv" and "p \<noteq> point_ZERO cv"
  shows "times_of cv k p = point_ZERO cv \<longleftrightarrow> curve_n cv dvd k"
proof
  assume "curve_n cv dvd k"
  then obtain m where "k = m * curve_n cv" by (metis dvd_def mult.commute)
  then show "times_of cv k p = point_ZERO cv"
    by (simp add: times_mult [OF sound] sound_curve_order(3) [OF sound] times_zero [OF sound])
next
  assume zero: "times_of cv k p = point_ZERO cv"
  note n = sound_curve_order [OF sound]
  show "curve_n cv dvd k"
  proof (rule ccontr)
    assume no: "\<not> curve_n cv dvd k"
    define g where "g = gcd k (curve_n cv)"
    obtain h where h: "curve_n cv = g * h" unfolding g_def by (metis dvd_def gcd_dvd2)
    have "\<not> curve_n cv dvd g" using no unfolding g_def by (metis dvd_trans gcd_dvd1)
    then have "curve_n cv dvd h" using n(5) [of g h] h by simp
    then have "g = 1" using h n(1) by (metis dvd_triv_right dvd_antisym mult_cancel_right mult_1 less_numeral_extra(1) not_one_less_zero zero_less_one mult_0_right)
    moreover have "k \<noteq> 0" using no by (metis dvd_0_right)
    ultimately obtain a b where "k * a = curve_n cv * b + 1" using bezout_nat [of k "curve_n cv"] unfolding g_def by auto
    then have "times_of cv (a * k) p = times_of cv (b * curve_n cv + 1) p" by (simp add: mult.commute)
    then have "point_ZERO cv = p"
      by (simp add: times_add [OF sound] times_mult [OF sound] zero n(3) times_zero [OF sound] group_laws [OF sound])
    with assms(2) show False by simp
  qed
qed

lemma add_cancel: "sound_curve cv \<Longrightarrow> point_add cv p r = point_add cv q r \<longleftrightarrow> p = q"
  by (metis sound_curve_group(1,2,4))

lemma times_eq_iff:
  assumes sound: "sound_curve cv" and p: "p \<noteq> point_ZERO cv" and less: "a < curve_n cv" "b < curve_n cv"
  shows "times_of cv a p = times_of cv b p \<longleftrightarrow> a = b"
proof -
  have "a = b" if "a \<le> b" "b < curve_n cv" "times_of cv a p = times_of cv b p" for a b
  proof -
    have "times_of cv b p = point_add cv (times_of cv (b - a) p) (times_of cv a p)"
      using times_add [OF sound, of "b - a" a p] that(1) by simp
    then have "point_add cv (times_of cv (b - a) p) (times_of cv a p) = point_add cv (point_ZERO cv) (times_of cv a p)"
      using that(3) by (simp add: group_laws [OF sound])
    then have "curve_n cv dvd b - a" by (simp add: add_cancel [OF sound] times_zero_iff [OF sound p])
    then show "a = b" using that(1,2) by (auto dest!: dvd_imp_le)
  qed
  then show ?thesis using less by (metis nle_le)
qed

lemma remove_mask:
  assumes "sound_curve cv"
  shows "point_add cv (point_add cv p q) (point_negate cv q) = p"
  by (simp add: group_laws [OF assms])

section \<open>Both sides hash the same transcript\<close>

lemma bindF_Inr [simp]: "bindF r k = Inr b \<longleftrightarrow> (\<exists>a. r = Inr a \<and> k a = Inr b)"
  by (simp add: bindF_def split: sum.split)

lemma or_throw_Inr [simp]: "or_throw m v = Inr x \<longleftrightarrow> v = Some x"
  by (simp add: or_throw_def split: option.split)

lemma uncomp_Inr [simp]: "uncomp cv p = Inr b \<longleftrightarrow> point_toRawBytes cv p = Some b"
  by (simp add: uncomp_def)

lemma pointMul_Inr [simp]:
  "pointMul cv b k = Inr q \<longleftrightarrow> (\<exists>p. point_fromHex cv b = Some p \<and> point_multiply cv p k = Some q)"
  by (simp add: pointMul_def)

lemma hex_bytes_value: "os2ip (hex_bytes n) = n"
proof (induction n rule: hex_bytes.induct)
  case (1 n)
  show ?case
  proof (cases "n < 256")
    case True
    then show ?thesis by (simp add: hex_bytes.simps [of n] os2ip_def unat_of_nat)
  next
    case False
    then have "os2ip (hex_bytes n) = os2ip (hex_bytes (n div 256)) * 256 + n mod 256"
      by (simp add: hex_bytes.simps [of n] os2ip_def unat_of_nat)
    then show ?thesis using 1 [OF False] by simp
  qed
qed

lemma os2ip_zeros: "os2ip (replicate k 0 @ b) = os2ip b"
  by (induction k) (simp_all add: os2ip_def)

lemma pad32_value: "pad32 n = Inr w \<Longrightarrow> length w = 32 \<and> os2ip w = n"
  by (auto simp: pad32_def Let_def hex_bytes_value os2ip_zeros split: if_splits)

lemma hex_bytes_length: "n < 256 ^ k \<Longrightarrow> 0 < k \<Longrightarrow> length (hex_bytes n) \<le> k"
proof (induction n arbitrary: k rule: hex_bytes.induct)
  case (1 n)
  show ?case
  proof (cases "n < 256")
    case True
    then show ?thesis using 1(3) by (simp add: hex_bytes.simps [of n])
  next
    case False
    with 1(2,3) obtain j where j: "k = Suc j" "0 < j" by (cases k; cases "k - 1") auto
    have "n div 256 < 256 ^ j" using 1(2) j(1) by (simp add: div_less_iff_less_mult mult.commute)
    from 1(1) [OF False this j(2)] show ?thesis using j(1) False by (simp add: hex_bytes.simps [of n])
  qed
qed

lemma pad32_succeeds: "n < 2 ^ 256 \<Longrightarrow> \<exists>w. pad32 n = Inr w"
  using hex_bytes_length [of n 32] by (simp add: pad32_def Let_def)

lemma lenPref_inj:
  assumes "length a = length b" and "lenPref a @ xs = lenPref b @ ys"
  shows "a = b \<and> xs = ys"
  using assms by (simp add: lenPref_def)

text \<open>What the transcript fixes, apart from the identities and the shares, which both sides see.\<close>

lemma transcript_eq:
  assumes "length Z = length Z'" "length V = length V'"
    and "spake_transcript ctx idP idV shareP shareV Z V w0 = Inr tt" "spake_transcript ctx idP idV shareP shareV Z' V' w0' = Inr tt"
  shows "Z = Z' \<and> V = V' \<and> w0 = w0'"
proof -
  obtain w w' where w: "pad32 w0 = Inr w" "pad32 w0' = Inr w'"
    and tt: "lenPref Z @ lenPref V @ lenPref w = lenPref Z' @ lenPref V' @ lenPref w'"
    using assms(3,4) by (auto simp: spake_transcript_def concat_bytes_def)
  from lenPref_inj [OF assms(1) tt] have z: "Z = Z'" and r: "lenPref V @ lenPref w = lenPref V' @ lenPref w'" by auto
  from lenPref_inj [OF assms(2) r] have v: "V = V'" and "lenPref w = lenPref w'" by auto
  then have "w = w'" using pad32_value [OF w(1)] pad32_value [OF w(2)] by (simp add: lenPref_def)
  then show ?thesis using z v pad32_value [OF w(1)] pad32_value [OF w(2)] by auto
qed

lemma deriveRecord_ok:
  assumes "sound_curve cv" and "deriveRecord su a cv s d r = Inr rc"
  shows "sr_w0 rc < curve_n cv" and "1 \<le> sr_w1 rc" and "sr_w1 rc < curve_n cv"
    and "point_toRawBytes cv (times_of cv (sr_w1 rc) (point_BASE cv)) = Some (sr_L rc)"
  using assms(2) sound_curve_order(1) [OF assms(1)]
  by (auto simp: deriveRecord_def Let_def multiply_Some [OF assms(1)] os2ipMod_def)

lemma prover_start_ok:
  assumes "sound_curve cv" and "prover_start cv rc idP idV bytes = Inr pv"
  obtains m where "point_fromHex cv M_bytes = Some m" "pv_rec pv = rc" "1 \<le> pv_x pv" "pv_x pv < curve_n cv"
    "pv_idP pv = idP" "pv_idV pv = idV"
    "point_toRawBytes cv (point_add cv (times_of cv (pv_x pv) (point_BASE cv)) (times_of cv (sr_w0 rc) m)) = Some (pv_shareP pv)"
proof -
  obtain wM xP sh m where o: "point_fromHex cv M_bytes = Some m" "point_multiply cv m (sr_w0 rc) = Some wM"
    "point_multiply cv (point_BASE cv) (if os2ipMod (curve_n cv) bytes = 0 then 1 else os2ipMod (curve_n cv) bytes) = Some xP"
    "point_toRawBytes cv (point_add cv xP wM) = Some sh"
    "pv = \<lparr> pv_rec = rc, pv_idP = idP, pv_idV = idV,
            pv_x = (if os2ipMod (curve_n cv) bytes = 0 then 1 else os2ipMod (curve_n cv) bytes), pv_shareP = sh \<rparr>"
    using assms(2) unfolding prover_start_def Let_def by auto
  note x = o(2,3) [unfolded multiply_Some [OF assms(1)]]
  show thesis by (rule that [of m]) (use o x in simp_all)
qed

lemma verifier_points_ok:
  assumes "sound_curve cv" and "verifier_points cv w0 L shareP y = Inr (shareV, Z, V)"
  obtains X n m l where "point_fromHex cv shareP = Some X" "point_fromHex cv N_bytes = Some n" "point_fromHex cv M_bytes = Some m"
    "point_fromHex cv L = Some l" "\<not> curve_n cv dvd y"
    "point_toRawBytes cv (point_add cv (times_of cv y (point_BASE cv)) (times_of cv w0 n)) = Some shareV"
    "point_toRawBytes cv (times_of cv y (point_add cv X (point_negate cv (times_of cv w0 m)))) = Some Z"
    "point_toRawBytes cv (times_of cv y l) = Some V"
proof -
  obtain X n m l where o: "point_fromHex cv shareP = Some X" "point_fromHex cv N_bytes = Some n" "point_fromHex cv M_bytes = Some m"
    "point_fromHex cv L = Some l"
    "point_toRawBytes cv (point_add cv (times_of cv y (point_BASE cv)) (times_of cv w0 n)) = Some shareV"
    "point_toRawBytes cv (times_of cv y (point_add cv X (point_negate cv (times_of cv w0 m)))) = Some Z"
    "point_toRawBytes cv (times_of cv y l) = Some V"
    using assms(2) unfolding verifier_points_def by (auto simp: Let_def go_pointMul_def)
  have "times_of cv y l \<noteq> point_ZERO cv" using toRawBytes_Some(3) [OF assms(1) o(7)] .
  then have "\<not> curve_n cv dvd y" using times_zero_iff [OF assms(1)] times_zero [OF assms(1)] by metis
  from that [OF o(1-4) this o(5-7)] show thesis .
qed

lemma prover_points_ok:
  assumes "sound_curve cv" and "prover_points cv pv shareV = Inr (Z, V)"
  obtains Y n where "point_fromHex cv shareV = Some Y" "point_fromHex cv N_bytes = Some n"
    "point_toRawBytes cv (times_of cv (pv_x pv) (point_add cv Y (point_negate cv (times_of cv (sr_w0 (pv_rec pv)) n)))) = Some Z"
    "point_toRawBytes cv (times_of cv (sr_w1 (pv_rec pv)) (point_add cv Y (point_negate cv (times_of cv (sr_w0 (pv_rec pv)) n)))) = Some V"
  using assms(2) unfolding prover_points_def
  by (auto simp: multiply_Some [OF assms(1)] Let_def intro: that)

text \<open>
  With the same \<open>w0\<close> both masks come off, and what is left are the two Diffie-Hellman values: \<open>Z\<close> is common, and \<open>V\<close> is
  common exactly when \<open>w1\<close> is.
\<close>

lemma shared_points:
  assumes sound: "sound_curve cv"
    and rP: "deriveRecord su a cv s d r = Inr rP" and rV: "deriveRecord su a cv s' d r = Inr rV"
    and start: "prover_start cv rP idP idV bytes = Inr pv"
    and ver: "verifier_points cv (sr_w0 rV) (sr_L rV) (pv_shareP pv) y = Inr (shareV, Zv, Vv)"
    and pro: "prover_points cv pv shareV = Inr (Zp, Vp)"
    and same: "sr_w0 rP = sr_w0 rV"
  shows "Zp = Zv" and "Vp = Vv \<longleftrightarrow> sr_w1 rP = sr_w1 rV"
proof -
  obtain m where m: "point_fromHex cv M_bytes = Some m" "pv_rec pv = rP" "1 \<le> pv_x pv" "pv_x pv < curve_n cv"
    "point_toRawBytes cv (point_add cv (times_of cv (pv_x pv) (point_BASE cv)) (times_of cv (sr_w0 rP) m)) = Some (pv_shareP pv)"
    using prover_start_ok [OF sound start] by metis
  obtain X n l where v: "point_fromHex cv (pv_shareP pv) = Some X" "point_fromHex cv N_bytes = Some n" "point_fromHex cv (sr_L rV) = Some l"
    "\<not> curve_n cv dvd y" "point_toRawBytes cv (point_add cv (times_of cv y (point_BASE cv)) (times_of cv (sr_w0 rV) n)) = Some shareV"
    "point_toRawBytes cv (times_of cv y (point_add cv X (point_negate cv (times_of cv (sr_w0 rV) m)))) = Some Zv"
    "point_toRawBytes cv (times_of cv y l) = Some Vv"
    using verifier_points_ok [OF sound ver] m(1) by (metis option.inject)
  obtain Y where p: "point_fromHex cv shareV = Some Y"
    "point_toRawBytes cv (times_of cv (pv_x pv) (point_add cv Y (point_negate cv (times_of cv (sr_w0 rP) n)))) = Some Zp"
    "point_toRawBytes cv (times_of cv (sr_w1 rP) (point_add cv Y (point_negate cv (times_of cv (sr_w0 rP) n)))) = Some Vp"
    using prover_points_ok [OF sound pro] m(2) v(2) by (metis option.inject)
  let ?G = "point_BASE cv"
  have "X = point_add cv (times_of cv (pv_x pv) ?G) (times_of cv (sr_w0 rV) m)"
    using toRawBytes_Some(1) [OF sound m(5)] v(1) same by simp
  then have X: "point_add cv X (point_negate cv (times_of cv (sr_w0 rV) m)) = times_of cv (pv_x pv) ?G" by (simp add: remove_mask [OF sound])
  have "Y = point_add cv (times_of cv y ?G) (times_of cv (sr_w0 rV) n)" using toRawBytes_Some(1) [OF sound v(5)] p(1) by simp
  then have Y: "point_add cv Y (point_negate cv (times_of cv (sr_w0 rP) n)) = times_of cv y ?G" using same by (simp add: remove_mask [OF sound])
  have l: "l = times_of cv (sr_w1 rV) ?G" using toRawBytes_Some(1) [OF sound deriveRecord_ok(4) [OF sound rV]] v(3) by simp
  show "Zp = Zv" using p(2) v(6) unfolding X Y times_mult [OF sound, symmetric] by (simp add: mult.commute)
  have yG: "times_of cv y ?G \<noteq> point_ZERO cv"
    using v(4) times_zero_iff [OF sound sound_curve_order(4) [OF sound]] by simp
  have V: "point_toRawBytes cv (times_of cv (sr_w1 rP) (times_of cv y ?G)) = Some Vp"
    "point_toRawBytes cv (times_of cv (sr_w1 rV) (times_of cv y ?G)) = Some Vv"
    using p(3) v(7) unfolding Y l times_mult [OF sound, symmetric] by (simp_all add: mult.commute)
  have "Vp = Vv \<longleftrightarrow> times_of cv (sr_w1 rP) (times_of cv y ?G) = times_of cv (sr_w1 rV) (times_of cv y ?G)"
    using V toRawBytes_inj [OF sound] by (metis option.inject)
  then show "Vp = Vv \<longleftrightarrow> sr_w1 rP = sr_w1 rV"
    using times_eq_iff [OF sound yG deriveRecord_ok(3) [OF sound rP] deriveRecord_ok(3) [OF sound rV]] by simp
qed

lemma record_eq_iff:
  assumes "sound_curve cv" and "deriveRecord su a cv s d r = Inr rP" and "deriveRecord su a cv s' d r = Inr rV"
  shows "rP = rV \<longleftrightarrow> sr_w0 rP = sr_w0 rV \<and> sr_w1 rP = sr_w1 rV"
  using deriveRecord_ok(4) [OF assms(1,2)] deriveRecord_ok(4) [OF assms(1,3)] by (cases rP; cases rV) auto

lemma transcripts_agree_iff:
  assumes sound: "sound_curve cv"
    and rP: "deriveRecord su a cv s d r = Inr rP" and rV: "deriveRecord su a cv s' d r = Inr rV"
    and start: "prover_start cv rP idP idV bytes = Inr pv"
    and ver: "verifier_points cv (sr_w0 rV) (sr_L rV) (pv_shareP pv) y = Inr (shareV, Zv, Vv)"
    and pro: "prover_points cv pv shareV = Inr (Zp, Vp)"
  shows "spake_transcript SPAKE_CONTEXT idP idV (pv_shareP pv) shareV Zp Vp (sr_w0 rP)
       = spake_transcript SPAKE_CONTEXT idP idV (pv_shareP pv) shareV Zv Vv (sr_w0 rV) \<longleftrightarrow> rP = rV"
proof
  assume eq: "spake_transcript SPAKE_CONTEXT idP idV (pv_shareP pv) shareV Zp Vp (sr_w0 rP)
    = spake_transcript SPAKE_CONTEXT idP idV (pv_shareP pv) shareV Zv Vv (sr_w0 rV)"
  have "sr_w0 rP < 2 ^ 256" using deriveRecord_ok(1) [OF sound rP] sound_curve_order(2) [OF sound] by simp
  then obtain w where "pad32 (sr_w0 rP) = Inr w" using pad32_succeeds by blast
  then obtain tt where tt: "spake_transcript SPAKE_CONTEXT idP idV (pv_shareP pv) shareV Zp Vp (sr_w0 rP) = Inr tt"
    by (simp add: spake_transcript_def)
  have "length Zp = 65" "length Vp = 65" "length Zv = 65" "length Vv = 65"
    using prover_points_ok [OF sound pro] verifier_points_ok [OF sound ver] toRawBytes_Some(2) [OF sound] by metis+
  then have w: "Vp = Vv \<and> sr_w0 rP = sr_w0 rV" using transcript_eq [OF _ _ tt tt [unfolded eq]] by simp
  then show "rP = rV"
    using record_eq_iff [OF sound rP rV] shared_points(2) [OF sound rP rV start ver pro] by simp
next
  assume "rP = rV"
  then show "spake_transcript SPAKE_CONTEXT idP idV (pv_shareP pv) shareV Zp Vp (sr_w0 rP)
    = spake_transcript SPAKE_CONTEXT idP idV (pv_shareP pv) shareV Zv Vv (sr_w0 rV)"
    using shared_points [OF sound rP rV start ver pro] by simp
qed

lemma keys_agree:
  assumes sound: "sound_curve cv"
    and rP: "deriveRecord su a cv s d r = Inr rc"
    and start: "prover_start cv rc idP idV bytes = Inr pv"
    and ver: "verifier_points cv (sr_w0 rc) (sr_L rc) (pv_shareP pv) y = Inr (shareV, Zv, Vv)"
    and pro: "prover_points cv pv shareV = Inr (Zp, Vp)"
  shows "\<exists>ks. prover_finish su cv pv shareV = Inr ks \<and> verifier_finish su cv (sr_w0 rc) (sr_L rc) idP idV (pv_shareP pv) y = Inr (shareV, ks)"
proof -
  have "sr_w0 rc < 2 ^ 256" using deriveRecord_ok(1) [OF sound rP] sound_curve_order(2) [OF sound] by simp
  then obtain w where "pad32 (sr_w0 rc) = Inr w" using pad32_succeeds by blast
  moreover have "Zp = Zv" "Vp = Vv" using shared_points [OF sound rP rP start ver pro] by simp_all
  moreover have "pv_rec pv = rc" "pv_idP pv = idP" "pv_idV pv = idV" using prover_start_ok [OF sound start] by metis+
  ultimately show ?thesis
    using ver pro by (simp add: prover_finish_def verifier_finish_def computeKeys_def spake_transcript_def)
qed

end
