(* ===== verification/ClientInput.thy ===== *)
theory ClientInput
  imports ClientWire Http
begin

text \<open>
  What a person types or scans to pair a phone: identifiers (\<^verbatim>\<open>pwa/src/lib/identifiers.ts\<close>), passphrases
  (\<^verbatim>\<open>pairing-password.ts\<close>), codes, locators and the fragment of a QR code (\<^verbatim>\<open>pairing-input.ts\<close>), and the answer of the
  relay to a typed locator (\<^verbatim>\<open>pair-intent.ts\<close>). A passphrase is a list of code points here, since its rules are about
  them; a code is ASCII text.
\<close>

section \<open>Identifiers\<close>

definition DEVICE_ID_RE :: "string \<Rightarrow> bool" where
  "DEVICE_ID_RE s \<longleftrightarrow> take 4 s = ''dev_'' \<and> 8 \<le> length (drop 4 s) \<and> length (drop 4 s) \<le> 128 \<and> set (drop 4 s) \<subseteq> set B64"

definition validDaemonId :: "json option \<Rightarrow> bool" where
  "validDaemonId value = (case value of Some (JStr s) \<Rightarrow> DAEMON_ID_RE s | _ \<Rightarrow> False)"

definition validDeviceId :: "json option \<Rightarrow> bool" where
  "validDeviceId value = (case value of Some (JStr s) \<Rightarrow> DEVICE_ID_RE s | _ \<Rightarrow> False)"

section \<open>Passphrases\<close>

type_synonym points = "nat list"

definition MIN_PASSWORD_BYTES :: nat where [simp]: "MIN_PASSWORD_BYTES = 8"
definition MAX_PASSWORD_BYTES :: nat where [simp]: "MAX_PASSWORD_BYTES = 128"

definition surrogate :: "nat \<Rightarrow> bool" where
  "surrogate p \<longleftrightarrow> 0xD800 \<le> p \<and> p \<le> 0xDFFF"

text \<open>\<^verbatim>\<open>TextEncoder\<close>: a lone surrogate becomes U+FFFD.\<close>

definition utf8_point :: "nat \<Rightarrow> byte list" where
  "utf8_point p =
     (if p < 0x80 then [word_of_nat p]
      else if p < 0x800 then [word_of_nat (0xC0 + p div 64), word_of_nat (0x80 + p mod 64)]
      else if surrogate p then [0xEF, 0xBF, 0xBD]
      else if p < 0x10000 then [word_of_nat (0xE0 + p div 4096), word_of_nat (0x80 + p div 64 mod 64), word_of_nat (0x80 + p mod 64)]
      else [word_of_nat (0xF0 + p div 262144), word_of_nat (0x80 + p div 4096 mod 64),
            word_of_nat (0x80 + p div 64 mod 64), word_of_nat (0x80 + p mod 64)])"

definition utf8_encode :: "points \<Rightarrow> byte list" where
  "utf8_encode ps = concat (map utf8_point ps)"

definition passwordByteLength :: "points \<Rightarrow> nat" where
  "passwordByteLength value = length (utf8_encode value)"

definition GO_SPACE :: "nat list" where
  "GO_SPACE = [0x09, 0x0a, 0x0b, 0x0c, 0x0d, 0x20, 0x85, 0xa0, 0x1680,
     0x2000, 0x2001, 0x2002, 0x2003, 0x2004, 0x2005, 0x2006, 0x2007, 0x2008, 0x2009, 0x200a,
     0x2028, 0x2029, 0x202f, 0x205f, 0x3000]"

text \<open>The two loops of \<^verbatim>\<open>trimOuterSpace\<close> move an index past spaces, from the start and then from the end.\<close>

function trim_start :: "points \<Rightarrow> nat \<Rightarrow> nat \<Rightarrow> nat" where
  "trim_start ps start stop =
     (if start < stop \<and> ps ! start \<in> set GO_SPACE then trim_start ps (start + 1) stop else start)"
  by pat_completeness auto
termination
  by (relation "measure (\<lambda>(ps, start, stop). stop - start)") auto

fun trim_stop :: "points \<Rightarrow> nat \<Rightarrow> nat \<Rightarrow> nat" where
  "trim_stop ps start stop =
     (if stop > start \<and> ps ! (stop - 1) \<in> set GO_SPACE then trim_stop ps start (stop - 1) else stop)"

declare trim_start.simps [simp del] trim_stop.simps [simp del]

definition trimOuterSpace :: "points \<Rightarrow> points" where
  "trimOuterSpace value =
     (let start = trim_start value 0 (length value); stop = trim_stop value start (length value)
      in take (stop - start) (drop start value))"

definition hasControlCharacter :: "points \<Rightarrow> bool" where
  "hasControlCharacter value = list_ex (\<lambda>p. p \<le> 0x1f \<or> (0x7f \<le> p \<and> p \<le> 0x9f)) value"

datatype password_check = Password points nat | PasswordError string nat

definition normalizePassword :: "points \<Rightarrow> password_check" where
  "normalizePassword raw =
     (let password = trimOuterSpace raw; bytes = passwordByteLength password in
      if list_ex surrogate password then PasswordError ''password_invalid'' bytes
      else if bytes < MIN_PASSWORD_BYTES then PasswordError ''password_too_short'' bytes
      else if bytes > MAX_PASSWORD_BYTES then PasswordError ''password_too_long'' bytes
      else if hasControlCharacter password then PasswordError ''password_control_char'' bytes
      else Password password bytes)"

section \<open>Codes and locators\<close>

text \<open>\<^verbatim>\<open>[0-9A-HJKMNP-TV-Z]\<close> is the alphabet \<open>CROCKFORD\<close>.\<close>

definition crockford_text :: "nat \<Rightarrow> string \<Rightarrow> bool" where
  "crockford_text n s \<longleftrightarrow> length s = n \<and> set s \<subseteq> set CROCKFORD"

definition parsePairingCode :: "string \<Rightarrow> string option" where
  "parsePairingCode raw = (let code = normalizeCrockford raw in if crockford_text 8 code then Some code else None)"

definition parsePairLocator :: "string \<Rightarrow> string option" where
  "parsePairLocator raw = (let loc = normalizeCrockford raw in if crockford_text 6 loc then Some loc else None)"

definition parseCodeAndLocator :: "string \<Rightarrow> (string \<times> string) option" where
  "parseCodeAndLocator raw =
     (let normalized = normalizeCrockford raw in
      if length normalized \<noteq> 14 then None
      else case (parsePairingCode (take 8 normalized), parsePairLocator (drop 8 normalized)) of
          (Some code, Some loc) \<Rightarrow> Some (code, loc)
        | _ \<Rightarrow> None)"

datatype hand_pairing = HandPairing string "string option" | HandError string

definition resolveHandPairing :: "mux_protocol \<Rightarrow> string \<Rightarrow> bool \<Rightarrow> hand_pairing" where
  "resolveHandPairing protocol rawInput fromQR =
     (if protocol = V2 \<and> \<not> fromQR then
        (case parseCodeAndLocator rawInput of
           Some (code, loc) \<Rightarrow> HandPairing code (Some loc)
         | None \<Rightarrow> (let normalized = normalizeCrockford rawInput in
             if length normalized \<ge> 8 \<and> length normalized < 14 \<and> parsePairingCode (take 8 normalized) \<noteq> None
             then HandError ''locator_required'' else HandError ''invalid_pair_code''))
      else case parsePairingCode rawInput of Some code \<Rightarrow> HandPairing code None | None \<Rightarrow> HandError ''invalid_pair_code'')"

section \<open>QR codes\<close>

record fragment_pairing =
  fp_v :: mux_protocol
  fp_pairRef :: string
  fp_code :: string
  fp_daemonId :: "string option"
  fp_fingerprint :: "string option"
  fp_loc :: "string option"

definition fragmentUsableOnOrigin :: "fragment_pairing \<Rightarrow> mux_protocol \<Rightarrow> bool" where
  "fragmentUsableOnOrigin fragment protocol \<longleftrightarrow> fp_v fragment = protocol"

definition parseFingerprint :: "string \<Rightarrow> string option" where
  "parseFingerprint value =
     (case b64urlDecode value of
        Inl _ \<Rightarrow> None
      | Inr bytes \<Rightarrow> if length bytes \<noteq> 16 \<or> b64url bytes \<noteq> value then None else Some value)"

text \<open>\<^verbatim>\<open>x || undefined\<close> on a parameter: absent or empty is absent.\<close>

definition nonempty :: "string option \<Rightarrow> string option" where
  "nonempty v = (case v of Some [] \<Rightarrow> None | _ \<Rightarrow> v)"

text \<open>
  \<open>query raw k\<close> is \<^verbatim>\<open>new URLSearchParams(raw).get(k)\<close>. The optional fields that follow the required ones
  depend on the version.
\<close>

definition parsePairingFragment :: "(string \<Rightarrow> string \<Rightarrow> string option) \<Rightarrow> string \<Rightarrow> fragment_pairing option" where
  "parsePairingFragment query hash =
     (let raw = (if take 1 hash = ''#'' then drop 1 hash else hash) in
      if raw = [] then None
      else let version = query raw ''v'';
               pairRef = lower (case query raw ''r'' of None \<Rightarrow> [] | Some r \<Rightarrow> r);
               code = normalizeCrockford (case query raw ''c'' of None \<Rightarrow> [] | Some c \<Rightarrow> c);
               daemonId = nonempty (query raw ''d''); fingerprintRaw = nonempty (query raw ''fp'')
        in if version \<noteq> Some ''1'' \<and> version \<noteq> Some ''2'' then None
        else if \<not> PAIR_REF_RE pairRef \<or> \<not> crockford_text 8 code then None
        else if (case daemonId of None \<Rightarrow> False | Some d \<Rightarrow> \<not> DAEMON_ID_RE d) then None
        else if version = Some ''1'' then
          (case fingerprintRaw of
             None \<Rightarrow> Some \<lparr> fp_v = V1, fp_pairRef = pairRef, fp_code = code, fp_daemonId = daemonId, fp_fingerprint = None, fp_loc = None \<rparr>
           | Some f \<Rightarrow> (case parseFingerprint f of
                 None \<Rightarrow> None
               | Some fp \<Rightarrow> Some \<lparr> fp_v = V1, fp_pairRef = pairRef, fp_code = code, fp_daemonId = daemonId, fp_fingerprint = Some fp, fp_loc = None \<rparr>))
        else (case (daemonId, fingerprintRaw) of
            (Some d, Some f) \<Rightarrow> (case parseFingerprint f of
                None \<Rightarrow> None
              | Some fp \<Rightarrow>
                  let result = \<lparr> fp_v = V2, fp_pairRef = pairRef, fp_code = code, fp_daemonId = Some d, fp_fingerprint = Some fp, fp_loc = None \<rparr> in
                  (case nonempty (query raw ''loc'') of
                     None \<Rightarrow> Some result
                   | Some l \<Rightarrow> (case parsePairLocator l of None \<Rightarrow> None | Some loc \<Rightarrow> Some (result\<lparr> fp_loc := Some loc \<rparr>))))
          | _ \<Rightarrow> None))"

text \<open>\<open>parse_url raw base\<close> is \<^verbatim>\<open>new URL(raw, base)\<close>, which throws on what is not a URL.\<close>

record page_url =
  pu_origin :: string
  pu_search :: string
  pu_pathname :: string
  pu_hash :: string

definition parsePairingURL ::
  "(string \<Rightarrow> string \<Rightarrow> string option) \<Rightarrow> (string \<Rightarrow> string \<Rightarrow> page_url option) \<Rightarrow> string \<Rightarrow> string \<Rightarrow> fragment_pairing option" where
  "parsePairingURL query parse_url raw expectedOrigin =
     (case parse_url raw expectedOrigin of
        None \<Rightarrow> None
      | Some url \<Rightarrow>
          if pu_origin url \<noteq> expectedOrigin \<or> pu_search url \<noteq> [] then None
          else if pu_pathname url \<noteq> ''/pair'' \<and> pu_pathname url \<noteq> ''/pair/'' then None
          else parsePairingFragment query (pu_hash url))"

section \<open>The answer to a typed locator\<close>

record pair_intent =
  pi_daemonId :: string
  pi_pairRef :: string
  pi_pairTicket :: string

definition intentErrorCode :: "json option \<Rightarrow> string" where
  "intentErrorCode value =
     (case value of
        Some (JObj ob) \<Rightarrow> (case jget ob ''error'' of
            Some (JObj er) \<Rightarrow> (case jget er ''code'' of Some (JStr c) \<Rightarrow> c | _ \<Rightarrow> [])
          | _ \<Rightarrow> [])
      | _ \<Rightarrow> [])"

definition intentHit :: "json option \<Rightarrow> pair_intent option" where
  "intentHit value =
     (case value of
        Some (JObj ob) \<Rightarrow>
          (case (jget ob ''daemon_id'', jget ob ''pair_ref'', jget ob ''pair_ticket'') of
             (Some (JStr d), Some (JStr r), Some (JStr t)) \<Rightarrow>
               if jget ob ''ok'' = Some (JBool True) \<and> jget ob ''v'' = Some (JNum 2) \<and> DAEMON_ID_RE d \<and> PAIR_REF_RE r \<and> TICKET_RE t
               then Some \<lparr> pi_daemonId = d, pi_pairRef = r, pi_pairTicket = t \<rparr> else None
           | _ \<Rightarrow> None)
      | _ \<Rightarrow> None)"

text \<open>
  What \<^verbatim>\<open>requestPairIntent\<close> makes of a response: its status, and its body when that is JSON. \<^verbatim>\<open>response.ok\<close> is a
  status from 200 to 299.
\<close>

definition pair_intent_answer :: "nat \<Rightarrow> json option \<Rightarrow> pair_intent fallible" where
  "pair_intent_answer status body =
     (let code = intentErrorCode body in
      if status = 404 \<or> code = ''unpaired'' then Inl (ProtocolError ''unpaired'')
      else if status = 429 \<or> code = ''rate_limited'' then Inl (ProtocolError ''rate_limited'')
      else case (200 \<le> status \<and> status < 300, intentHit body) of
          (True, Some hit) \<Rightarrow> Inr hit
        | _ \<Rightarrow> Inl (ProtocolError (if code = [] then ''unpaired'' else code)))"

section \<open>Facts\<close>

lemma trim_start_spec:
  assumes "start \<le> stop"
  shows "start \<le> trim_start ps start stop \<and> trim_start ps start stop \<le> stop \<and>
    (trim_start ps start stop < stop \<longrightarrow> ps ! trim_start ps start stop \<notin> set GO_SPACE)"
  using assms
proof (induction ps start stop rule: trim_start.induct)
  case (1 ps start stop)
  then show ?case by (cases "start < stop \<and> ps ! start \<in> set GO_SPACE") (auto simp: trim_start.simps [of ps start])
qed

lemma trim_stop_spec:
  assumes "start \<le> stop"
  shows "start \<le> trim_stop ps start stop \<and> trim_stop ps start stop \<le> stop \<and>
    (trim_stop ps start stop > start \<longrightarrow> ps ! (trim_stop ps start stop - 1) \<notin> set GO_SPACE)"
  using assms
proof (induction ps start stop rule: trim_stop.induct)
  case (1 ps start stop)
  show ?case
  proof (cases "stop > start \<and> ps ! (stop - 1) \<in> set GO_SPACE")
    case True
    moreover from this have "start \<le> stop - 1" by auto
    note this 1(1) [OF True this]
    ultimately show ?thesis by (auto simp: trim_stop.simps [of ps start stop])
  next
    case False
    then show ?thesis using 1(2) by (auto simp: trim_stop.simps [of ps start stop])
  qed
qed

text \<open>What is left neither starts nor ends with a space.\<close>

lemma trimOuterSpace_ends:
  assumes "trimOuterSpace ps \<noteq> []"
  shows "hd (trimOuterSpace ps) \<notin> set GO_SPACE" and "last (trimOuterSpace ps) \<notin> set GO_SPACE"
proof -
  define a where "a = trim_start ps 0 (length ps)"
  define b where "b = trim_stop ps a (length ps)"
  note A = trim_start_spec [of 0 "length ps" ps, folded a_def]
  note B = trim_stop_spec [of a "length ps" ps, folded b_def]
  have t: "trimOuterSpace ps = take (b - a) (drop a ps)" by (simp add: trimOuterSpace_def a_def b_def Let_def)
  then have ab: "a < b" "b \<le> length ps" using assms A B by auto
  then have "hd (trimOuterSpace ps) = ps ! a" "last (trimOuterSpace ps) = ps ! (b - 1)"
    by (simp_all add: t hd_take hd_drop_conv_nth last_conv_nth)
  then show "hd (trimOuterSpace ps) \<notin> set GO_SPACE" "last (trimOuterSpace ps) \<notin> set GO_SPACE"
    using A B ab by simp_all
qed

lemma trimOuterSpace_fixed:
  assumes "ps \<noteq> [] \<Longrightarrow> hd ps \<notin> set GO_SPACE \<and> last ps \<notin> set GO_SPACE"
  shows "trimOuterSpace ps = ps"
proof (cases "ps = []")
  case False
  with assms have "ps ! 0 \<notin> set GO_SPACE" "ps ! (length ps - 1) \<notin> set GO_SPACE" by (simp_all add: hd_conv_nth last_conv_nth)
  then show ?thesis by (simp add: trimOuterSpace_def trim_start.simps trim_stop.simps [of ps 0])
qed (simp add: trimOuterSpace_def)

text \<open>An accepted passphrase is a fixed point of the rules, so deriving from it twice gives the same record.\<close>

lemma normalizePassword_stable:
  assumes "normalizePassword raw = Password password bytes"
  shows "normalizePassword password = Password password bytes" and "8 \<le> length (utf8_encode password)" "length (utf8_encode password) \<le> 128"
proof -
  have p: "password = trimOuterSpace raw" "bytes = passwordByteLength password" "\<not> list_ex surrogate password" "8 \<le> bytes" "bytes \<le> 128" "\<not> hasControlCharacter password"
    using assms by (auto simp: normalizePassword_def Let_def split: if_splits)
  have "trimOuterSpace password = password" using trimOuterSpace_ends [of raw] p(1) by (intro trimOuterSpace_fixed) simp
  then show "normalizePassword password = Password password bytes" using p by (simp add: normalizePassword_def Let_def)
  show "8 \<le> length (utf8_encode password)" "length (utf8_encode password) \<le> 128" using p by (simp_all add: passwordByteLength_def)
qed

lemma toUpper_idem: "toUpper (toUpper c) = toUpper c"
proof (cases "97 \<le> (of_char c :: nat) \<and> (of_char c :: nat) \<le> 122")
  case True
  define n where "n = (of_char c :: nat)"
  have "toUpper c = char_of (n - 32)" using True by (simp add: toUpper_def n_def)
  moreover have "(of_char (char_of (n - 32) :: char) :: nat) = n - 32"
    using True by (auto simp: n_def of_char_of intro!: mod_less)
  moreover have "\<not> (97 \<le> n - 32)" using True unfolding n_def by linarith
  ultimately show ?thesis by (simp add: toUpper_def)
next
  case False
  then have "toUpper c = c" by (auto simp: toUpper_def)
  then show ?thesis by simp
qed

lemma fold_char_fixed:
  assumes "toUpper c = c"
  shows "toUpper (fold_char c) = fold_char c" and "fold_char (fold_char c) = fold_char c"
proof -
  have k: "toUpper (CHR ''0'') = CHR ''0''" "toUpper (CHR ''1'') = CHR ''1''" "toUpper (CHR ''V'') = CHR ''V''" by code_simp+
  show "toUpper (fold_char c) = fold_char c" using k assms by (simp only: fold_char_def split: if_split) simp
  show "fold_char (fold_char c) = fold_char c" by (simp add: fold_char_def)
qed

lemma normalizeCrockford_alt: "normalizeCrockford s = map fold_char (filter (\<lambda>c. c \<notin> set '' -/_'') (map toUpper s))"
  by (simp only: normalizeCrockford_def fold_char_def [abs_def])

lemma normalizeCrockford_fixed:
  assumes "list_all (\<lambda>c. toUpper c = c \<and> fold_char c = c) s" and "length (normalizeCrockford s) = length s"
  shows "normalizeCrockford s = s"
proof -
  have m: "map toUpper s = s" "map fold_char s = s" using assms(1) by (simp_all add: list_all_iff map_idI)
  then have "length (filter (\<lambda>c. c \<notin> set '' -/_'') s) = length s"
    using assms(2) by (simp only: normalizeCrockford_alt length_map)
  then have "filter (\<lambda>c. c \<notin> set '' -/_'') s = s" by (metis filter_True length_filter_less less_irrefl)
  then show ?thesis by (simp only: normalizeCrockford_alt m)
qed

lemma normalizeCrockford_glyphs: "list_all (\<lambda>c. toUpper c = c \<and> fold_char c = c) (normalizeCrockford s)"
  by (simp only: normalizeCrockford_alt list_all_iff set_map set_filter) (blast intro: fold_char_fixed toUpper_idem)

lemma normalizeCrockford_id:
  assumes "set s \<subseteq> set CROCKFORD"
  shows "normalizeCrockford s = s"
proof -
  have "list_all (\<lambda>c. toUpper c = c \<and> c \<notin> set '' -/_'' \<and> fold_char c = c) CROCKFORD" by code_simp
  then have c: "list_all (\<lambda>c. toUpper c = c \<and> fold_char c = c) s" "filter (\<lambda>c. c \<notin> set '' -/_'') s = s"
    using assms by (auto simp only: list_all_iff filter_id_conv subset_iff)
  then have "map toUpper s = s" by (simp add: list_all_iff map_idI)
  then show ?thesis using c by (intro normalizeCrockford_fixed) (simp_all only: normalizeCrockford_alt length_map)
qed

text \<open>A typed code with its locator is read exactly when it normalises to eight and six glyphs of the alphabet.\<close>

lemma parseCodeAndLocator_iff:
  "parseCodeAndLocator raw = Some (code, loc) \<longleftrightarrow>
     normalizeCrockford raw = code @ loc \<and> crockford_text 8 code \<and> crockford_text 6 loc"
proof
  let ?n = "normalizeCrockford raw"
  assume "parseCodeAndLocator raw = Some (code, loc)"
  then have n: "length ?n = 14" "parsePairingCode (take 8 ?n) = Some code" "parsePairLocator (drop 8 ?n) = Some loc"
    by (auto simp: parseCodeAndLocator_def Let_def split: if_splits option.splits)
  then have c: "normalizeCrockford (take 8 ?n) = code" "crockford_text 8 code" "normalizeCrockford (drop 8 ?n) = loc" "crockford_text 6 loc"
    by (auto simp: parsePairingCode_def parsePairLocator_def Let_def split: if_splits)
  have g: "list_all (\<lambda>c. toUpper c = c \<and> fold_char c = c) (take 8 ?n)" "list_all (\<lambda>c. toUpper c = c \<and> fold_char c = c) (drop 8 ?n)"
    using normalizeCrockford_glyphs [of raw] by (metis append_take_drop_id list_all_append)+
  have "normalizeCrockford (take 8 ?n) = take 8 ?n" "normalizeCrockford (drop 8 ?n) = drop 8 ?n"
    using n(1) c by (auto intro!: normalizeCrockford_fixed g simp: crockford_text_def)
  then show "?n = code @ loc \<and> crockford_text 8 code \<and> crockford_text 6 loc" using c by (metis append_take_drop_id)
next
  assume "normalizeCrockford raw = code @ loc \<and> crockford_text 8 code \<and> crockford_text 6 loc"
  then show "parseCodeAndLocator raw = Some (code, loc)"
    by (simp add: parseCodeAndLocator_def parsePairingCode_def parsePairLocator_def crockford_text_def normalizeCrockford_id)
qed

text \<open>The relay reads a locator the phone accepted as it is, and the phone accepts what the relay mints.\<close>

lemma locator_agrees: "parsePairLocator raw = Some loc \<Longrightarrow> normalizeLoc loc = Some loc \<and> parsePairLocator loc = Some loc"
  by (auto simp: parsePairLocator_def crockford_text_def normalizeCrockford_id Let_def subset_iff
      intro!: normalizeLoc_fixed split: if_splits)

end
