(* ===== verification/ClientPairing.thy ===== *)
theory ClientPairing
  imports ClientHandshake ClientSpake ClientInput
begin

text \<open>
  Pairing from the phone's side, \<^verbatim>\<open>pwa/src/lib/protocol/pair-ws.ts\<close>: the exchange of key shares with the computer
  through the relay, the wait for a person at the computer to approve, and the sealed credential that comes
  back. The channel is that of \<open>ClientHandshake\<close>; around it run the heartbeat of the pairing socket and the caller's
  signal to give up. The lemmas show that the phone reveals its own confirmation only to a computer that proved
  knowledge of the code, and where each part of the credential it stores comes from.
\<close>

section \<open>Input\<close>

datatype pair_secret = CodeSecret string | PasswordSecret points

text \<open>The secret as text for the key exchange: a passphrase as its UTF-8 bytes.\<close>

definition normalizePairInput :: "string option \<Rightarrow> pair_secret \<Rightarrow> (string option \<times> string) fallible" where
  "normalizePairInput pair_ref secret =
     bindF (case secret of
        PasswordSecret raw \<Rightarrow> (case normalizePassword raw of
            PasswordError _ _ \<Rightarrow> Inl (ProtocolError ''invalid_pair_code'')
          | Password p _ \<Rightarrow> Inr (utf8_decode (utf8_encode p)))
      | CodeSecret raw \<Rightarrow> (let code = normalizeCrockford raw in
          if \<not> crockford_text 8 code then Inl (ProtocolError ''invalid_pair_code'') else Inr code)) (\<lambda>normalizedCode.
     let ref = map_option (\<lambda>r. lower (js_trim r)) pair_ref in
     if (case nonempty ref of None \<Rightarrow> False | Some r \<Rightarrow> \<not> PAIR_REF_RE r) then Inl (ProtocolError ''invalid_pair_ref'')
     else Inr (ref, normalizedCode))"

text \<open>\<^verbatim>\<open>String.prototype.trim\<close> and the control characters, over code points; the fallback is the text of the source.\<close>

definition JS_SPACE :: "nat list" where
  "JS_SPACE = [0x09, 0x0a, 0x0b, 0x0c, 0x0d, 0x20, 0xa0, 0x1680, 0x2000, 0x2001, 0x2002, 0x2003, 0x2004, 0x2005,
     0x2006, 0x2007, 0x2008, 0x2009, 0x200a, 0x2028, 0x2029, 0x202f, 0x205f, 0x3000, 0xfeff]"

definition trim_points :: "points \<Rightarrow> points" where
  "trim_points ps = rev (dropWhile (\<lambda>p. p \<in> set JS_SPACE) (rev (dropWhile (\<lambda>p. p \<in> set JS_SPACE) ps)))"

definition label_fallback :: points where
  "label_fallback = [0x6d4f, 0x89c8, 0x5668, 0x8bbe, 0x5907]"

fun label_loop :: "points \<Rightarrow> points \<Rightarrow> points" where
  "label_loop [] result = result"
| "label_loop (rune # rest) result =
     (if length (utf8_encode (result @ [rune])) > 120 then result else label_loop rest (result @ [rune]))"

definition normalizeDeviceLabel :: "points option \<Rightarrow> points" where
  "normalizeDeviceLabel raw =
     (let or_fallback = (\<lambda>ps. if ps = [] then label_fallback else ps);
          given = (case raw of None \<Rightarrow> label_fallback | Some r \<Rightarrow> or_fallback r);
          trimmed = or_fallback (filter (\<lambda>p. \<not> (p \<le> 0x1f \<or> (0x7f \<le> p \<and> p \<le> 0x9f))) (trim_points given))
      in if length (utf8_encode trimmed) \<le> 120 then trimmed else or_fallback (label_loop trimmed []))"

definition confirmationTagMatches :: "string \<Rightarrow> json option \<Rightarrow> bool" where
  "confirmationTagMatches localTag remoteTag \<longleftrightarrow> length localTag > 0 \<and> remoteTag = Some (JStr localTag)"

section \<open>The pairing socket\<close>

text \<open>
  \<open>ps_beat\<close> is the time of the next tick of the heartbeat interval while it runs, \<open>ps_abort\<close> the time at which the caller
  gives up, \<open>ps_opened\<close> and \<open>ps_closed\<close> whether the socket was opened and closed.
\<close>

record pairing =
  ps_channel :: hs
  ps_beat :: "number option"
  ps_counter :: nat
  ps_abort :: "number option"
  ps_opened :: bool
  ps_closed :: bool

type_synonym 'a ps_comp = "pairing \<Rightarrow> 'a fallible \<times> pairing"

definition ps_bind :: "'a ps_comp \<Rightarrow> ('a \<Rightarrow> 'b ps_comp) \<Rightarrow> 'b ps_comp" where
  "ps_bind m k = (\<lambda>s. case m s of (Inl e, t) \<Rightarrow> (Inl e, t) | (Inr a, t) \<Rightarrow> k a t)"

definition ps_try :: "'a fallible \<Rightarrow> ('a \<Rightarrow> 'b ps_comp) \<Rightarrow> 'b ps_comp" where
  "ps_try r k = (\<lambda>s. case r of Inl e \<Rightarrow> (Inl e, s) | Inr a \<Rightarrow> k a s)"

definition ps_ret :: "'a \<Rightarrow> 'a ps_comp" where
  "ps_ret a = (\<lambda>s. (Inr a, s))"

definition on_channel :: "'a hs_comp \<Rightarrow> 'a ps_comp" where
  "on_channel m = (\<lambda>s. case m (ps_channel s) of (r, c) \<Rightarrow> (r, s\<lparr> ps_channel := c \<rparr>))"

definition ps_clock :: "pairing \<Rightarrow> number" where
  "ps_clock s = hs_clock (ps_channel s)"

definition aborted :: "pairing \<Rightarrow> bool" where
  "aborted s = (case ps_abort s of None \<Rightarrow> False | Some t \<Rightarrow> t \<le> ps_clock s)"

definition ps_send :: "frame \<Rightarrow> unit ps_comp" where
  "ps_send f = on_channel (channel_send f)"

definition send_json :: "nat \<Rightarrow> byte list \<Rightarrow> json \<Rightarrow> unit ps_comp" where
  "send_json typ routeId body = ps_try (jsonFrame typ routeId body) ps_send"

text \<open>
  One tick of the interval: a ping, whose failure is swallowed. While the phone waits until some time, every tick due by
  then runs.
\<close>

definition beat_once :: "byte list \<Rightarrow> pairing \<Rightarrow> pairing" where
  "beat_once routeId s =
     (let n = ps_counter s + 1; s' = s\<lparr> ps_counter := n, ps_beat := map_option (\<lambda>b. b + HEARTBEAT_MS) (ps_beat s) \<rparr> in
      case heartbeatPayload n of
        Inl _ \<Rightarrow> s'
      | Inr p \<Rightarrow> snd (ps_send \<lparr> f_version = 1, f_typ = Typ_PING, f_flags = 0, f_routeId = routeId, f_payload = p \<rparr> s'))"

definition beats_due :: "number \<Rightarrow> pairing \<Rightarrow> nat" where
  "beats_due until s = (case ps_beat s of None \<Rightarrow> 0 | Some b \<Rightarrow> if b \<le> until then nat \<lfloor>(until - b) / HEARTBEAT_MS\<rfloor> + 1 else 0)"

definition beats :: "byte list \<Rightarrow> number \<Rightarrow> pairing \<Rightarrow> pairing" where
  "beats routeId until s = (beat_once routeId ^^ beats_due until s) s"

definition ps_next :: "byte list \<Rightarrow> number \<Rightarrow> frame ps_comp" where
  "ps_next routeId timeoutMs = (\<lambda>s.
     on_channel (channel_next timeoutMs) (beats routeId (hs_clock (snd (channel_next timeoutMs (ps_channel s)))) s))"

section \<open>Waiting for an operation\<close>

definition pong :: "frame \<Rightarrow> frame" where
  "pong f = f\<lparr> f_typ := Typ_PONG \<rparr>"

text \<open>One frame of \<^verbatim>\<open>receivePairOp\<close>: return its message, go on, answer a ping, or throw.\<close>

datatype 'a step = Return 'a | Skip | Reply frame | Throw client_error

definition pair_op_frame :: "byte list \<Rightarrow> string \<Rightarrow> frame \<Rightarrow> json step" where
  "pair_op_frame routeId op f =
     (if f_typ f = Typ_PING then
        (case requireHeartbeatPayload (f_payload f) of Inl e \<Rightarrow> Throw e | Inr _ \<Rightarrow> Reply (pong f))
      else if f_typ f = Typ_PONG then
        (case requireHeartbeatPayload (f_payload f) of Inl e \<Rightarrow> Throw e | Inr _ \<Rightarrow> Skip)
      else if f_typ f = Typ_ERROR then Throw (envelopeError f)
      else if f_typ f \<noteq> Typ_FWD then Throw (ProtocolError ''bad_frame'')
      else if \<not> sameBytes (f_routeId f) routeId then Throw (ProtocolError ''bad_frame'')
      else case parseJSON f of
          Inl e \<Rightarrow> Throw e
        | Inr message \<Rightarrow> (case property_of message ''op'' of
              Inl e \<Rightarrow> Throw e
            | Inr found \<Rightarrow> if found = Some (JStr op) then Return message else Skip))"

text \<open>One frame of the wait for approval: the first data frame of the route is the confirmation.\<close>

definition confirm_frame :: "byte list \<Rightarrow> frame \<Rightarrow> frame step" where
  "confirm_frame routeId f =
     (if f_typ f = Typ_PING then
        (case requireHeartbeatPayload (f_payload f) of Inl e \<Rightarrow> Throw e | Inr _ \<Rightarrow> Reply (pong f))
      else if f_typ f = Typ_PONG then
        (case requireHeartbeatPayload (f_payload f) of Inl e \<Rightarrow> Throw e | Inr _ \<Rightarrow> Skip)
      else if f_typ f = Typ_ERROR then Throw (envelopeError f)
      else if f_typ f = Typ_FWD then
        (if \<not> sameBytes (f_routeId f) routeId then Throw (ProtocolError ''bad_frame'') else Return f)
      else Throw (ProtocolError ''bad_frame''))"

text \<open>
  The loop both share: wait for a frame until the deadline and act on it. \<open>next\<close> is how it waits: \<open>ps_next\<close>, or, while
  the abort listener is installed, \<open>listening_next\<close>, which gives up when the caller does.
\<close>

lemma channel_next_same_arrivals:
  assumes "hs_arrivals c = hs_arrivals d" and "channel_next n c = (Inr f, e)"
  shows "length (hs_arrivals e) < length (hs_arrivals d)"
  using channel_next_shorter [OF assms(2)] assms(1) by simp

lemma ps_send_arrivals: "hs_arrivals (ps_channel (snd (ps_send f s))) = hs_arrivals (ps_channel s)"
  using channel_send_arrivals [of f "ps_channel s"] by (auto simp: ps_send_def on_channel_def split: prod.split)

lemma beats_arrivals: "hs_arrivals (ps_channel (beats r u s)) = hs_arrivals (ps_channel s)"
proof -
  have "hs_arrivals (ps_channel (beat_once r t)) = hs_arrivals (ps_channel t)" for t
    by (simp add: beat_once_def Let_def ps_send_arrivals split: sum.split)
  then have "hs_arrivals (ps_channel ((beat_once r ^^ k) s)) = hs_arrivals (ps_channel s)" for k by (induction k) simp_all
  then show ?thesis by (simp add: beats_def)
qed

lemma ps_next_shorter:
  assumes "ps_next r n s = (Inr f, t)"
  shows "length (hs_arrivals (ps_channel t)) < length (hs_arrivals (ps_channel s))"
proof -
  define u where "u = hs_clock (snd (channel_next n (ps_channel s)))"
  obtain c where "channel_next n (ps_channel (beats r u s)) = (Inr f, c)" "ps_channel t = c"
    using assms by (auto simp: ps_next_def on_channel_def u_def split: prod.splits)
  then show ?thesis using channel_next_same_arrivals [OF beats_arrivals [of r u s]] by simp
qed

text \<open>
  \<^verbatim>\<open>socket.next\<close> while the abort listener closes the socket: a signal that comes first ends the wait at its time, and
  every failure after the signal is the cancellation.
\<close>

definition listening_next :: "byte list \<Rightarrow> number \<Rightarrow> frame ps_comp" where
  "listening_next routeId timeoutMs = (\<lambda>s.
     let until = hs_clock (snd (channel_next timeoutMs (ps_channel s))) in
     case ps_abort s of
       Some t \<Rightarrow>
         if t \<le> until then
           (Inl (ProtocolError ''pairing_cancelled''),
            (beats routeId t s)\<lparr> ps_channel := (ps_channel (beats routeId t s))\<lparr> hs_clock := max t (ps_clock s) \<rparr>, ps_closed := True \<rparr>)
         else ps_next routeId timeoutMs s
     | None \<Rightarrow> ps_next routeId timeoutMs s)"

lemma listening_next_shorter:
  "listening_next r n s = (Inr f, t) \<Longrightarrow> length (hs_arrivals (ps_channel t)) < length (hs_arrivals (ps_channel s))"
  by (auto simp: listening_next_def Let_def dest: ps_next_shorter split: option.splits if_splits)

definition ps_wait :: "bool \<Rightarrow> byte list \<Rightarrow> number \<Rightarrow> frame ps_comp" where
  "ps_wait listening = (if listening then listening_next else ps_next)"

lemma ps_wait_shorter:
  "ps_wait l r n s = (Inr f, t) \<Longrightarrow> length (hs_arrivals (ps_channel t)) < length (hs_arrivals (ps_channel s))"
  by (auto simp: ps_wait_def dest: ps_next_shorter listening_next_shorter split: if_splits)

lemma ps_send_keeps_arrivals: "ps_send f s = (r, t) \<Longrightarrow> hs_arrivals (ps_channel t) = hs_arrivals (ps_channel s)"
  using ps_send_arrivals [of f s] by simp

function pair_loop :: "bool \<Rightarrow> byte list \<Rightarrow> (frame \<Rightarrow> 'a step) \<Rightarrow> number \<Rightarrow> pairing \<Rightarrow> 'a fallible \<times> pairing" where
  "pair_loop listening routeId act deadline s =
     (if \<not> ps_clock s < deadline then (Inl (ProtocolError ''timeout''), s)
      else if listening \<and> aborted s then (Inl (ProtocolError ''pairing_cancelled''), s)
      else case ps_wait listening routeId (max 1 (deadline - ps_clock s)) s of
          (Inl e, t) \<Rightarrow> (Inl e, t)
        | (Inr f, t) \<Rightarrow> (case act f of
              Throw e \<Rightarrow> (Inl e, t)
            | Return a \<Rightarrow> (Inr a, t)
            | Skip \<Rightarrow> pair_loop listening routeId act deadline t
            | Reply g \<Rightarrow> (case ps_send g t of
                  (Inl e, u) \<Rightarrow> (Inl e, u)
                | (Inr _, u) \<Rightarrow> pair_loop listening routeId act deadline u)))"
  by pat_completeness auto
termination
  by (relation "measure (\<lambda>(listening, routeId, act, deadline, s). length (hs_arrivals (ps_channel s)))")
    (auto dest!: ps_wait_shorter [OF sym] ps_send_keeps_arrivals [OF sym])

declare pair_loop.simps [simp del]

definition receivePairOp :: "byte list \<Rightarrow> string \<Rightarrow> number \<Rightarrow> json ps_comp" where
  "receivePairOp routeId op timeoutMs = (\<lambda>s. pair_loop False routeId (pair_op_frame routeId op) (ps_clock s + timeoutMs) s)"

definition await_confirmation :: "byte list \<Rightarrow> frame ps_comp" where
  "await_confirmation routeId = (\<lambda>s. pair_loop True routeId (confirm_frame routeId) (ps_clock s + 180000) s)"

section \<open>The exchange\<close>

text \<open>
  What a call of \<^verbatim>\<open>pairOverWS\<close> is given: primitives, the word lists of the tag, what the relay's URL says (its origin
  or an error, the protocol, whether it carries a ticket), whether the socket opens, the options, the random bytes of the
  prover and the milliseconds the password hash takes.
\<close>

record 'p pair_env =
  pe_suite :: suite
  pe_argon :: argon
  pe_curve :: "'p curve"
  pe_evenWords :: "string list"
  pe_oddWords :: "string list"
  pe_origin :: "string fallible"
  pe_protocol :: mux_protocol
  pe_ticket :: bool
  pe_open :: "unit fallible"
  pe_expectedDaemonId :: "string option"
  pe_expectedFingerprint :: "string option"
  pe_label :: "points option"
  pe_random :: "byte list"
  pe_hashMs :: number

record paired = pair_result +
  pr_fp :: string
  pr_relayOrigin :: string
  pr_label :: points
  pr_createdAt :: int

definition ps_throw :: "client_error \<Rightarrow> 'a ps_comp" where
  "ps_throw e = (\<lambda>s. (Inl e, s))"

definition ps_modify :: "(pairing \<Rightarrow> pairing) \<Rightarrow> unit ps_comp" where
  "ps_modify f = (\<lambda>s. (Inr (), f s))"

definition require :: "bool \<Rightarrow> string \<Rightarrow> unit fallible" where
  "require b code = (if b then Inr () else Inl (ProtocolError code))"

definition pair_attach :: "'p pair_env \<Rightarrow> string option \<Rightarrow> frame ps_comp" where
  "pair_attach en ref =
     ps_try (require (\<not> (pe_protocol en = V2 \<and> nonempty ref = None)) ''invalid_pair_ref'') (\<lambda>_.
     ps_try (pe_open en) (\<lambda>_.
     ps_bind (ps_modify (\<lambda>s. s\<lparr> ps_opened := True \<rparr>)) (\<lambda>_.
     ps_bind (send_json Typ_HELLO_CLIENT Z16 (helloClientBody (pe_protocol en))) (\<lambda>_.
     ps_try (pairAttachBody (pe_protocol en) ref) (\<lambda>body.
     ps_bind (send_json Typ_PAIR_ATTACH Z16 body) (\<lambda>_.
     ps_bind (on_channel (channel_next 8000)) (\<lambda>attached.
     if f_typ attached = Typ_ERROR then ps_throw (envelopeError attached)
     else if f_typ attached \<noteq> Typ_PAIR_ATTACHED then ps_throw (ProtocolError ''bad_message'')
     else ps_ret attached)))))))"

definition string_or_empty :: "json option \<Rightarrow> string" where
  "string_or_empty v = (case v of Some (JStr x) \<Rightarrow> x | _ \<Rightarrow> [])"

text \<open>The computer and the pairing the relay attached the phone to, checked against what the QR code said.\<close>

definition attached_to :: "'p pair_env \<Rightarrow> string option \<Rightarrow> json \<Rightarrow> (string \<times> string) fallible" where
  "attached_to en ref detail =
     bindF (property_of detail ''daemon_id'') (\<lambda>d.
     bindF (property_of detail ''pair_ref'') (\<lambda>r.
     let daemonId = string_or_empty d;
         pairRef = (case nonempty ref of Some x \<Rightarrow> x | None \<Rightarrow> lower (string_or_empty r)) in
     bindF (require (DAEMON_ID_RE daemonId \<and> PAIR_REF_RE pairRef) ''bad_message'') (\<lambda>_.
     bindF (require (case nonempty (pe_expectedDaemonId en) of None \<Rightarrow> True | Some x \<Rightarrow> x = daemonId) ''fp_mismatch'') (\<lambda>_.
     Inr (daemonId, pairRef)))))"

definition SpakeShareP :: "byte list \<Rightarrow> json" where
  "SpakeShareP share = JObj [(''v'', JNum 1), (''op'', JStr ''SpakeShareP''), (''share'', JStr (b64url share))]"

definition SpakeConfirmP :: "byte list \<Rightarrow> json" where
  "SpakeConfirmP tag = JObj [(''v'', JNum 1), (''op'', JStr ''SpakeConfirmP''), (''confirm_p'', JStr (b64url tag))]"

text \<open>The keys, once the computer's share and its confirmation are in.\<close>

definition confirmed_keys :: "'p pair_env \<Rightarrow> prover \<Rightarrow> json \<Rightarrow> spake_keys fallible" where
  "confirmed_keys en pv message =
     bindF (property_of message ''share'') (\<lambda>sv.
     bindF (parseExactB64 sv 65) (\<lambda>shareV.
     bindF (prover_finish (pe_suite en) (pe_curve en) pv shareV) (\<lambda>ks.
     bindF (property_of message ''confirm_v'') (\<lambda>cv.
     bindF (parseExactB64 cv 32) (\<lambda>confirmV.
     bindF (require (sameBytes (sk_confirmV ks) confirmV) ''bad_pair_code'') (\<lambda>_. Inr ks))))))"

text \<open>While the password is hashed the clock and the heartbeat run.\<close>

definition elapse :: "byte list \<Rightarrow> number \<Rightarrow> unit ps_comp" where
  "elapse routeId ms = (\<lambda>s. let t = beats routeId (ps_clock s + ms) s in
     (Inr (), t\<lparr> ps_channel := (ps_channel t)\<lparr> hs_clock := ps_clock s + ms \<rparr> \<rparr>))"

definition pair_exchange :: "'p pair_env \<Rightarrow> string option \<Rightarrow> string \<Rightarrow> frame \<Rightarrow> (string \<times> spake_keys) ps_comp" where
  "pair_exchange en ref code attached =
     ps_try (parseJSON attached) (\<lambda>detail.
     ps_bind (ps_modify (\<lambda>s. s\<lparr> ps_beat := Some (ps_clock s + HEARTBEAT_MS) \<rparr>)) (\<lambda>_.
     ps_try (attached_to en ref detail) (\<lambda>(daemonId, pairRef).
     ps_bind (elapse (f_routeId attached) (pe_hashMs en)) (\<lambda>_.
     ps_try (deriveRecord (pe_suite en) (pe_argon en) (pe_curve en) code daemonId pairRef) (\<lambda>rc.
     ps_try (prover_start (pe_curve en) rc (idProver pairRef) daemonId (pe_random en)) (\<lambda>pv.
     ps_bind (send_json Typ_FWD (f_routeId attached) (SpakeShareP (pv_shareP pv))) (\<lambda>_.
     ps_bind (receivePairOp (f_routeId attached) ''SpakeShareV'' 20000) (\<lambda>message.
     ps_try (confirmed_keys en pv message) (\<lambda>ks. ps_ret (daemonId, ks))))))))))"

section \<open>The credential\<close>

text \<open>\<^verbatim>\<open>JSON.parse(decodeUTF8(s2c.open(...)))\<close>, any failure of which is a bad message.\<close>

definition open_confirmation :: "suite \<Rightarrow> spake_keys \<Rightarrow> byte list \<Rightarrow> frame \<Rightarrow> json fallible" where
  "open_confirmation su ks routeId f =
     (case open_payload su (new_direction (snd (pairingKeys su (sk_shared ks))) DIR_S) routeId (f_payload f) of
        Inl _ \<Rightarrow> Inl (ProtocolError ''bad_message'')
      | Inr (pt, _) \<Rightarrow> (case JSON_parse_bytes pt of Inl _ \<Rightarrow> Inl (ProtocolError ''bad_message'') | Inr v \<Rightarrow> Inr v))"

definition fields_of :: "json option \<Rightarrow> (string \<times> json) list" where
  "fields_of v = (case v of Some (JObj ob) \<Rightarrow> ob | _ \<Rightarrow> [])"

text \<open>The id of the confirmation and the credential in its parameters; time and label are added by the caller.\<close>

definition read_confirmation :: "'p pair_env \<Rightarrow> string \<Rightarrow> string \<Rightarrow> string \<Rightarrow> json \<Rightarrow> (string \<times> pair_result \<times> string) fallible" where
  "read_confirmation en origin daemonId tag confirm =
     (let su = pe_suite en; ob = fields_of (Some confirm); params = fields_of (jget ob ''params'') in
      bindF (require (jget ob ''op'' = Some (JStr ''ConfirmPairing'') \<and> (case jget ob ''id'' of Some (JStr _) \<Rightarrow> True | _ \<Rightarrow> False) \<and> truthy (jget ob ''params'')) ''bad_message'') (\<lambda>_.
      bindF (require (confirmationTagMatches tag (jget params ''sas'')) ''bad_message'') (\<lambda>_.
      bindF (require (jget params ''daemon_id'' = Some (JStr daemonId)) ''bad_message'') (\<lambda>_.
      bindF (parseExactB64 (jget params ''daemon_pk'') 32) (\<lambda>daemonPk.
      bindF (parseExactB64 (jget params ''device_psk'') 32) (\<lambda>psk.
      let fp = fingerprint16 su daemonPk in
      bindF (require (jget params ''fp'' = Some (JStr fp)) ''fp_mismatch'') (\<lambda>_.
      bindF (require (case nonempty (pe_expectedFingerprint en) of None \<Rightarrow> True | Some x \<Rightarrow> x = fp) ''fp_mismatch'') (\<lambda>_.
      bindF (require (validDeviceId (jget params ''device_id'')) ''bad_message'') (\<lambda>_.
      bindF (require (\<not> truthy (jget params ''relay_origin'') \<or> jget params ''relay_origin'' = Some (JStr origin)) ''bad_relay'') (\<lambda>_.
      Inr (string_or_empty (jget ob ''id''),
           \<lparr> pr_daemonId = daemonId, pr_deviceId = string_or_empty (jget params ''device_id''), pr_psk = psk, pr_daemonPk = daemonPk \<rparr>, fp)))))))))))"

definition pair_ack :: "string \<Rightarrow> points \<Rightarrow> json" where
  "pair_ack i label = JObj [(''v'', JNum 1), (''id'', JStr i), (''ok'', JBool True), (''result'', JObj [(''label'', JStr (utf8_decode (utf8_encode label)))])]"

definition pair_approve :: "'p pair_env \<Rightarrow> string \<Rightarrow> byte list \<Rightarrow> string \<Rightarrow> spake_keys \<Rightarrow> paired ps_comp" where
  "pair_approve en origin routeId daemonId ks =
     (let su = pe_suite en; label = normalizeDeviceLabel (pe_label en); tag = sas su (pe_evenWords en) (pe_oddWords en) (sk_shared ks) in
      ps_bind (send_json Typ_FWD routeId (SpakeConfirmP (sk_confirmP ks))) (\<lambda>_.
      ps_bind (on_channel (hs_observe ''await_approval'')) (\<lambda>_.
      ps_bind (\<lambda>s. if aborted s then (Inl (ProtocolError ''pairing_cancelled''), s) else (Inr (), s)) (\<lambda>_.
      ps_bind (await_confirmation routeId) (\<lambda>confirmFrame.
      ps_try (open_confirmation su ks routeId confirmFrame) (\<lambda>confirm.
      ps_try (read_confirmation en origin daemonId tag confirm) (\<lambda>(i, cred, fp).
      ps_try (seal su (new_direction (fst (pairingKeys su (sk_shared ks))) DIR_C) routeId (text_bytes (print_json (pair_ack i label)))) (\<lambda>(ack, _).
      ps_bind (ps_send \<lparr> f_version = 1, f_typ = Typ_FWD, f_flags = 0, f_routeId = routeId, f_payload = ack \<rparr>) (\<lambda>_.
      \<lambda>s. (Inr (pair_result.extend cred (paired.fields fp origin label \<lfloor>ps_clock s / 1000\<rfloor>)), s))))))))))"

section \<open>The whole\<close>

definition isPreAttachFailure :: "client_error \<Rightarrow> bool" where
  "isPreAttachFailure e =
     (case e of OtherError _ \<Rightarrow> True | ProtocolError c \<Rightarrow> c \<in> set [''disconnected'', ''timeout'', ''ws_open_failed'', ''wrong_protocol''])"

definition pairing_failure :: "'p pair_env \<Rightarrow> bool \<Rightarrow> client_error \<Rightarrow> pairing \<Rightarrow> client_error" where
  "pairing_failure en attachedReceived e s =
     (if aborted s then ProtocolError ''pairing_cancelled''
      else if \<not> attachedReceived \<and> pe_protocol en = V2 \<and> pe_ticket en then
        (if e = ProtocolError ''unpaired'' then e else if isPreAttachFailure e then ProtocolError ''unpaired'' else e)
      else e)"

text \<open>\<^verbatim>\<open>finally\<close>: the heartbeat stops, and a socket that was opened is closed.\<close>

definition pair_cleanup :: "pairing \<Rightarrow> pairing" where
  "pair_cleanup s = s\<lparr> ps_beat := None, ps_closed := ps_closed s \<or> ps_opened s \<rparr>"

definition pair_body :: "'p pair_env \<Rightarrow> string option \<Rightarrow> string \<Rightarrow> string \<Rightarrow> paired ps_comp" where
  "pair_body en ref code origin = (\<lambda>s.
     case pair_attach en ref s of
       (Inl e, t) \<Rightarrow> (Inl (pairing_failure en False e t), t)
     | (Inr attached, t) \<Rightarrow>
         (case ps_bind (pair_exchange en ref code attached) (\<lambda>(daemonId, ks). pair_approve en origin (f_routeId attached) daemonId ks) t of
            (Inl e, u) \<Rightarrow> (Inl (pairing_failure en True e u), u)
          | (Inr res, u) \<Rightarrow> (Inr res, u)))"

definition pairOverWS :: "'p pair_env \<Rightarrow> string option \<Rightarrow> pair_secret \<Rightarrow> paired ps_comp" where
  "pairOverWS en pair_ref secret =
     ps_try (normalizePairInput pair_ref secret) (\<lambda>(ref, code).
     ps_try (pe_origin en) (\<lambda>origin.
     \<lambda>s. case pair_body en ref code origin s of (r, t) \<Rightarrow> (r, pair_cleanup t)))"

section \<open>What a run leaves in the trace\<close>

definition ps_trace :: "pairing \<Rightarrow> hs_event list" where
  "ps_trace s = hs_trace (ps_channel s)"

text \<open>\<open>emits A m\<close>: whatever happens, \<open>m\<close> appends only events of \<open>A\<close>.\<close>

definition emits :: "(hs_event \<Rightarrow> bool) \<Rightarrow> 'a ps_comp \<Rightarrow> bool" where
  "emits A m \<longleftrightarrow> (\<forall>s r t. m s = (r, t) \<longrightarrow> (\<exists>es. ps_trace t = ps_trace s @ es \<and> list_all A es))"

named_theorems emits_intros

lemma emitsI: "(\<And>s r t. m s = (r, t) \<Longrightarrow> \<exists>es. ps_trace t = ps_trace s @ es \<and> list_all A es) \<Longrightarrow> emits A m"
  by (simp add: emits_def)

lemma emits_mono: "emits A m \<Longrightarrow> (\<And>e. A e \<Longrightarrow> B e) \<Longrightarrow> emits B m"
  unfolding emits_def by (metis list.pred_mono_strong)

lemma emits_nothing: "(\<And>s. ps_trace (snd (m s)) = ps_trace s) \<Longrightarrow> emits A m"
  by (rule emitsI) (metis append_Nil2 list.pred_inject(1) snd_conv)

lemma emits_run: "emits A m \<Longrightarrow> \<exists>es. ps_trace (snd (m s)) = ps_trace s @ es \<and> list_all A es"
  unfolding emits_def by (metis prod.collapse)

lemma emits_bind [emits_intros]:
  assumes "emits A m" and "\<And>a. emits A (k a)"
  shows "emits A (ps_bind m k)"
proof (rule emitsI)
  fix s r t
  assume "ps_bind m k s = (r, t)"
  then consider e where "m s = (Inl e, t)" | a u where "m s = (Inr a, u)" "k a u = (r, t)"
    by (auto simp: ps_bind_def split: prod.splits sum.splits)
  then show "\<exists>es. ps_trace t = ps_trace s @ es \<and> list_all A es"
  proof cases
    case 1
    then show ?thesis using assms(1) unfolding emits_def by blast
  next
    case 2
    then obtain es fs where "ps_trace u = ps_trace s @ es" "list_all A es" "ps_trace t = ps_trace u @ fs" "list_all A fs"
      using assms unfolding emits_def by metis
    then show ?thesis by (intro exI [of _ "es @ fs"]) simp
  qed
qed

lemma emits_try [emits_intros]: "(\<And>a. r = Inr a \<Longrightarrow> emits A (k a)) \<Longrightarrow> emits A (ps_try r k)"
  by (cases r) (auto simp: emits_def ps_try_def)

lemma emits_simple [emits_intros]:
  "emits A (ps_ret a)" "emits A (ps_throw e)" "(\<And>s. ps_channel (f s) = ps_channel s) \<Longrightarrow> emits A (ps_modify f)"
  by (auto simp: emits_def ps_ret_def ps_throw_def ps_modify_def ps_trace_def)

lemma emits_if [emits_intros]: "(b \<Longrightarrow> emits A m) \<Longrightarrow> (\<not> b \<Longrightarrow> emits A n) \<Longrightarrow> emits A (if b then m else n)"
  by simp

lemma emits_send [emits_intros]: "A (Sent f) \<Longrightarrow> emits A (ps_send f)"
  by (rule emitsI) (auto simp: ps_send_def on_channel_def ps_trace_def dest!: channel_send_trace split: prod.splits if_splits)

lemma emits_send_json: "(\<And>g. jsonFrame typ r body = Inr g \<Longrightarrow> A (Sent g)) \<Longrightarrow> emits A (send_json typ r body)"
  unfolding send_json_def by (intro emits_intros)

lemma emits_channel_next [emits_intros]: "(\<And>f. A (Received f)) \<Longrightarrow> emits A (on_channel (channel_next n))"
  by (rule emitsI) (auto simp: on_channel_def ps_trace_def dest!: channel_next_trace split: prod.splits sum.splits)

text \<open>The frames that keep the socket alive.\<close>

definition aside :: "hs_event \<Rightarrow> bool" where
  "aside e = (case e of Sent g \<Rightarrow> f_typ g = Typ_PING \<or> f_typ g = Typ_PONG | _ \<Rightarrow> True)"

lemma beats_trace: "\<exists>es. ps_trace (beats r u s) = ps_trace s @ es \<and> list_all aside es"
proof -
  have one: "\<exists>es. ps_trace (beat_once r t) = ps_trace t @ es \<and> list_all aside es" for t
  proof (cases "heartbeatPayload (ps_counter t + 1)")
    case (Inr p)
    let ?f = "\<lparr> f_version = 1, f_typ = Typ_PING, f_flags = 0, f_routeId = r, f_payload = p \<rparr>"
    have "emits aside (ps_send ?f)" by (rule emits_send) (simp add: aside_def)
    from emits_run [OF this, of "t\<lparr> ps_counter := ps_counter t + 1, ps_beat := map_option (\<lambda>b. b + HEARTBEAT_MS) (ps_beat t) \<rparr>"]
    show ?thesis using Inr by (simp add: beat_once_def Let_def ps_trace_def)
  qed (simp add: beat_once_def ps_trace_def)
  have "\<exists>es. ps_trace ((beat_once r ^^ k) s) = ps_trace s @ es \<and> list_all aside es" for k
  proof (induction k)
    case (Suc k)
    then show ?case using one [of "(beat_once r ^^ k) s"] by (auto simp: list_all_append)
  qed simp
  then show ?thesis by (simp add: beats_def)
qed

lemma emits_next: "emits aside (ps_next r n)"
proof (rule emitsI)
  fix s x t
  assume run: "ps_next r n s = (x, t)"
  define v where "v = beats r (hs_clock (snd (channel_next n (ps_channel s)))) s"
  have "emits aside (on_channel (channel_next n))" by (rule emits_channel_next) (simp add: aside_def)
  with run obtain es where "ps_trace t = ps_trace v @ es" "list_all aside es"
    unfolding emits_def ps_next_def v_def by metis
  moreover obtain fs where "ps_trace v = ps_trace s @ fs" "list_all aside fs" using beats_trace unfolding v_def by blast
  ultimately show "\<exists>es. ps_trace t = ps_trace s @ es \<and> list_all aside es" by (intro exI [of _ "fs @ es"]) simp
qed

lemma emits_wait: "emits aside (ps_wait l r n)"
proof -
  have "emits aside (listening_next r n)"
  proof (rule emitsI)
    fix s x t
    assume run: "listening_next r n s = (x, t)"
    show "\<exists>es. ps_trace t = ps_trace s @ es \<and> list_all aside es"
    proof (cases "ps_next r n s = (x, t)")
      case True
      then show ?thesis using emits_next unfolding emits_def by blast
    next
      case False
      then obtain u where "ps_trace t = ps_trace (beats r u s)"
        using run by (auto simp: listening_next_def Let_def ps_trace_def split: option.splits if_splits)
      then show ?thesis using beats_trace [of r u s] by simp
    qed
  qed
  then show ?thesis using emits_next by (simp add: ps_wait_def)
qed

lemma wait_received:
  assumes "ps_wait l r n s = (Inr f, t)"
  shows "\<exists>es. ps_trace t = ps_trace s @ es @ [Received f] \<and> list_all aside es"
proof -
  have "ps_next r n s = (Inr f, t)"
    using assms by (auto simp: ps_wait_def listening_next_def Let_def split: if_splits option.splits)
  then obtain u where "ps_trace t = ps_trace (beats r u s) @ [Received f]"
    by (auto simp: ps_next_def on_channel_def ps_trace_def dest!: channel_next_trace split: prod.splits)
  then show ?thesis using beats_trace [of r u s] by auto
qed

text \<open>While it waits the phone sends nothing but pings and answers to them; a value comes from a frame that was received.\<close>

definition waited :: "(frame \<Rightarrow> 'a step) \<Rightarrow> pairing \<Rightarrow> 'a fallible \<Rightarrow> pairing \<Rightarrow> bool" where
  "waited act s x t \<longleftrightarrow> (\<exists>es. ps_trace t = ps_trace s @ es \<and> list_all aside es \<and>
     (\<forall>a. x = Inr a \<longrightarrow> (\<exists>f. Received f \<in> set es \<and> act f = Return a)))"

lemma waited_after:
  assumes "ps_trace v = ps_trace s @ es" "list_all aside es" "waited act v x t"
  shows "waited act s x t"
proof -
  obtain fs where "ps_trace t = ps_trace v @ fs" "list_all aside fs" "\<forall>a. x = Inr a \<longrightarrow> (\<exists>f. Received f \<in> set fs \<and> act f = Return a)"
    using assms(3) unfolding waited_def by blast
  with assms(1,2) show ?thesis unfolding waited_def by (intro exI [of _ "es @ fs"]) auto
qed

lemma waited_emitted: "emits aside m \<Longrightarrow> m s = (y, v) \<Longrightarrow> waited act v x t \<Longrightarrow> waited act s x t"
  using waited_after unfolding emits_def by blast

lemma waited_error: "waited act s (Inl e) s"
  by (simp add: waited_def)

lemma waited_return: "ps_wait l r n s = (Inr f, t) \<Longrightarrow> act f = Return a \<Longrightarrow> waited act s (Inr a) t"
  using wait_received [of l r n s f t] unfolding waited_def by (fastforce simp: aside_def)

lemma pair_loop_waits:
  assumes "pair_loop l r act d s = (x, t)" and "\<forall>f g. act f = Reply g \<longrightarrow> f_typ g = Typ_PONG"
  shows "waited act s x t"
  using assms
proof (induction l r act d s arbitrary: x t rule: pair_loop.induct)
  case (1 l r act d s)
  note step = 1(3) [unfolded pair_loop.simps [of l r act d s]]
  obtain y v where w: "ps_wait l r (max 1 (d - ps_clock s)) s = (y, v)" by force
  note after = waited_emitted [OF emits_wait w]
  have failed: "waited act s (Inl e) v" for e by (rule after [OF waited_error])
  show ?case
  proof (cases "\<not> ps_clock s < d \<or> (l \<and> aborted s)")
    case True
    then show ?thesis using step waited_error by (auto split: if_splits)
  next
    case False
    then have go: "ps_clock s < d" "\<not> (l \<and> aborted s)" by auto
    have go': "\<not> \<not> ps_clock s < d" using go(1) by simp
    show ?thesis
    proof (cases y)
      case (Inl e)
      then show ?thesis using step go w failed by auto
    next
      case (Inr f)
      note w' = w [unfolded Inr]
      show ?thesis
      proof (cases "act f")
        case (Return a)
        then show ?thesis using step go w' waited_return [OF w'] by auto
      next
        case (Throw e)
        then show ?thesis using step go w' failed by auto
      next
        case Skip
        then have "pair_loop l r act d v = (x, t)" using step go w' by simp
        then show ?thesis by (rule after [OF 1(1) [OF go' go(2) w' [symmetric] refl Skip _ 1(4)]])
      next
        case (Reply g)
        obtain z u where z: "ps_send g v = (z, u)" by force
        have "emits aside (ps_send g)" by (rule emits_send) (use 1(4) Reply in \<open>simp add: aside_def\<close>)
        note sent = waited_emitted [OF this z, THEN after]
        show ?thesis
          using 1(2) [OF go' go(2) w' [symmetric] refl Reply z [symmetric] _ _ 1(4)] step go w' Reply z sent sent [OF waited_error]
          by (cases z) auto
      qed
    qed
  qed
qed

section \<open>Who the phone talks to\<close>

lemma ps_bindE:
  assumes "ps_bind m k s = (r, t)"
  obtains (throws) e where "m s = (Inl e, t)" "r = Inl e" | (returns) a u where "m s = (Inr a, u)" "k a u = (r, t)"
  using assms by (auto simp: ps_bind_def split: prod.splits sum.splits)

lemma ps_bind_Inr: "ps_bind m k s = (Inr b, t) \<longleftrightarrow> (\<exists>a u. m s = (Inr a, u) \<and> k a u = (Inr b, t))"
  by (auto simp: ps_bind_def split: prod.splits sum.splits)

lemma ps_try_Inr: "ps_try q k s = (Inr b, t) \<longleftrightarrow> (\<exists>a. q = Inr a \<and> k a s = (Inr b, t))"
  by (auto simp: ps_try_def split: sum.splits)

lemmas ps_success = ps_bind_Inr ps_try_Inr

text \<open>What the phone sends before the computer has proved itself.\<close>

definition introductory :: "byte list \<Rightarrow> hs_event \<Rightarrow> bool" where
  "introductory routeId e = (case e of
       Sent g \<Rightarrow> f_typ g \<in> {Typ_PING, Typ_PONG, Typ_HELLO_CLIENT, Typ_PAIR_ATTACH} \<or>
                (\<exists>share. jsonFrame Typ_FWD routeId (SpakeShareP share) = Inr g)
     | _ \<Rightarrow> True)"

lemma introductory_aside: "aside e \<Longrightarrow> introductory r e"
  by (auto simp: aside_def introductory_def split: hs_event.splits)

lemma emits_introductory: "emits aside m \<Longrightarrow> emits (introductory r) m"
  by (erule emits_mono) (rule introductory_aside)

lemma jsonFrame_typ: "jsonFrame typ r body = Inr g \<Longrightarrow> f_typ g = typ"
  by (auto simp: jsonFrame_def Let_def split: sum.splits)

lemma emits_elapse: "emits aside (elapse r ms)"
  by (rule emitsI) (use beats_trace in \<open>fastforce simp: elapse_def Let_def ps_trace_def\<close>)

lemma emits_receivePairOp: "emits aside (receivePairOp r op ms)"
  and receivePairOp_received: "receivePairOp r op ms s = (Inr m, t) \<Longrightarrow> \<exists>f. Received f \<in> set (ps_trace t) \<and> pair_op_frame r op f = Return m"
proof -
  have "waited (pair_op_frame r op) s x t" if "receivePairOp r op ms s = (x, t)" for s x t
    using that unfolding receivePairOp_def
    by (rule pair_loop_waits) (auto simp: pair_op_frame_def pong_def split: if_splits sum.splits)
  then show "emits aside (receivePairOp r op ms)"
    and "receivePairOp r op ms s = (Inr m, t) \<Longrightarrow> \<exists>f. Received f \<in> set (ps_trace t) \<and> pair_op_frame r op f = Return m"
    unfolding emits_def waited_def by (blast, fastforce)
qed

lemma await_confirmation_received:
  assumes "await_confirmation r s = (Inr f, t)"
  shows "\<exists>es. ps_trace t = ps_trace s @ es \<and> Received f \<in> set es" and "f_typ f = Typ_FWD" and "f_routeId f = r"
proof -
  have "waited (confirm_frame r) s (Inr f) t"
    using assms unfolding await_confirmation_def
    by (rule pair_loop_waits) (auto simp: confirm_frame_def pong_def split: if_splits sum.splits)
  then obtain es g where g: "ps_trace t = ps_trace s @ es" "Received g \<in> set es" "confirm_frame r g = Return f" by (auto simp: waited_def)
  then have "g = f" "f_typ f = Typ_FWD" "f_routeId f = r" by (auto simp: confirm_frame_def split: if_splits sum.splits)
  with g show "\<exists>es. ps_trace t = ps_trace s @ es \<and> Received f \<in> set es" "f_typ f = Typ_FWD" "f_routeId f = r" by auto
qed

lemma emits_pair_attach: "emits (introductory r) (pair_attach en ref)"
  unfolding pair_attach_def
  by (intro emits_intros emits_send_json) (auto simp: introductory_def dest: jsonFrame_typ)

lemma emits_pair_exchange: "emits (introductory (f_routeId att)) (pair_exchange en ref code att)"
proof -
  have send: "emits (introductory (f_routeId att)) (send_json Typ_FWD (f_routeId att) (SpakeShareP share))" for share
    by (rule emits_send_json) (auto simp: introductory_def)
  show ?thesis unfolding pair_exchange_def split_def
    by (intro emits_intros send emits_introductory emits_elapse emits_receivePairOp) simp
qed

text \<open>
  A frame that proves knowledge of the code: it carries a share and the confirmation that a computer with the record of this
  code, this name and this pairing computes from it.
\<close>

definition share_proved :: "'p pair_env \<Rightarrow> byte list \<Rightarrow> string \<Rightarrow> string \<Rightarrow> frame \<Rightarrow> spake_keys \<Rightarrow> bool" where
  "share_proved en routeId code daemonId f ks \<longleftrightarrow>
     (\<exists>pairRef rc pv message shareV. PAIR_REF_RE pairRef
        \<and> deriveRecord (pe_suite en) (pe_argon en) (pe_curve en) code daemonId pairRef = Inr rc
        \<and> prover_start (pe_curve en) rc (idProver pairRef) daemonId (pe_random en) = Inr pv
        \<and> f_typ f = Typ_FWD \<and> f_routeId f = routeId \<and> parseJSON f = Inr message
        \<and> property_of message ''op'' = Inr (Some (JStr ''SpakeShareV''))
        \<and> property_of message ''share'' = Inr (Some (JStr (b64url shareV))) \<and> length shareV = 65
        \<and> prover_finish (pe_suite en) (pe_curve en) pv shareV = Inr ks
        \<and> property_of message ''confirm_v'' = Inr (Some (JStr (b64url (sk_confirmV ks)))))"

lemma pair_op_frame_Return:
  "pair_op_frame r op f = Return m \<Longrightarrow> f_typ f = Typ_FWD \<and> f_routeId f = r \<and> parseJSON f = Inr m \<and> property_of m ''op'' = Inr (Some (JStr op))"
  by (auto simp: pair_op_frame_def split: if_splits sum.splits)

lemma confirmed_keys_Inr:
  "confirmed_keys en pv message = Inr ks \<Longrightarrow>
     \<exists>shareV. property_of message ''share'' = Inr (Some (JStr (b64url shareV))) \<and> length shareV = 65
        \<and> prover_finish (pe_suite en) (pe_curve en) pv shareV = Inr ks
        \<and> property_of message ''confirm_v'' = Inr (Some (JStr (b64url (sk_confirmV ks))))"
  by (auto simp: confirmed_keys_def require_def parseExactB64_iff split: if_splits)

lemma attached_to_Inr:
  "attached_to en ref detail = Inr (d, p) \<Longrightarrow> DAEMON_ID_RE d \<and> PAIR_REF_RE p \<and> nonempty (pe_expectedDaemonId en) \<in> {None, Some d}"
  by (auto simp: attached_to_def require_def Let_def split: if_splits option.splits)

lemma pair_exchange_proved:
  assumes "pair_exchange en ref code att s = (Inr (d, ks), t)"
  shows "\<exists>f. Received f \<in> set (ps_trace t) \<and> share_proved en (f_routeId att) code d f ks"
    and "DAEMON_ID_RE d" and "nonempty (pe_expectedDaemonId en) \<in> {None, Some d}"
proof -
  obtain detail p rc pv m u where run: "attached_to en ref detail = Inr (d, p)"
    "deriveRecord (pe_suite en) (pe_argon en) (pe_curve en) code d p = Inr rc"
    "prover_start (pe_curve en) rc (idProver p) d (pe_random en) = Inr pv"
    "receivePairOp (f_routeId att) ''SpakeShareV'' 20000 u = (Inr m, t)" "confirmed_keys en pv m = Inr ks"
    using assms unfolding pair_exchange_def by (auto simp: ps_success ps_ret_def)
  from receivePairOp_received [OF run(4)] obtain f where f: "Received f \<in> set (ps_trace t)" "pair_op_frame (f_routeId att) ''SpakeShareV'' f = Return m" by blast
  then have "share_proved en (f_routeId att) code d f ks"
    using run pair_op_frame_Return [OF f(2)] confirmed_keys_Inr [OF run(5)] attached_to_Inr [OF run(1)] unfolding share_proved_def by blast
  with f show "\<exists>f. Received f \<in> set (ps_trace t) \<and> share_proved en (f_routeId att) code d f ks" by blast
  show "DAEMON_ID_RE d" "nonempty (pe_expectedDaemonId en) \<in> {None, Some d}" using attached_to_Inr [OF run(1)] by auto
qed

text \<open>Where the parts of the stored credential come from: the sealed confirmation, checked against the tag and the fingerprints.\<close>

definition credential_of :: "'p pair_env \<Rightarrow> string \<Rightarrow> spake_keys \<Rightarrow> json \<Rightarrow> paired \<Rightarrow> bool" where
  "credential_of en daemonId ks confirm res \<longleftrightarrow>
     (let params = fields_of (jget (fields_of (Some confirm)) ''params'') in
      jget (fields_of (Some confirm)) ''op'' = Some (JStr ''ConfirmPairing'')
      \<and> jget params ''sas'' = Some (JStr (sas (pe_suite en) (pe_evenWords en) (pe_oddWords en) (sk_shared ks)))
      \<and> jget params ''daemon_id'' = Some (JStr daemonId) \<and> pr_daemonId res = daemonId
      \<and> jget params ''daemon_pk'' = Some (JStr (b64url (pr_daemonPk res))) \<and> length (pr_daemonPk res) = 32
      \<and> jget params ''device_psk'' = Some (JStr (b64url (pr_psk res))) \<and> length (pr_psk res) = 32
      \<and> jget params ''device_id'' = Some (JStr (pr_deviceId res)) \<and> DEVICE_ID_RE (pr_deviceId res)
      \<and> jget params ''fp'' = Some (JStr (pr_fp res)) \<and> pr_fp res = fingerprint16 (pe_suite en) (pr_daemonPk res)
      \<and> nonempty (pe_expectedFingerprint en) \<in> {None, Some (pr_fp res)})"

lemma read_confirmation_Inr:
  assumes "read_confirmation en origin daemonId (sas (pe_suite en) (pe_evenWords en) (pe_oddWords en) (sk_shared ks)) confirm = Inr (i, cred, fp)"
  shows "credential_of en daemonId ks confirm (pair_result.extend cred (paired.fields fp origin label time))"
  using assms unfolding read_confirmation_def credential_of_def Let_def
  by (auto simp: require_def parseExactB64_iff confirmationTagMatches_def validDeviceId_def string_or_empty_def paired.defs pair_result.defs
      split: if_splits option.splits json.splits)

lemma pair_approve_credential:
  assumes "pair_approve en origin routeId daemonId ks s = (Inr res, t)"
  shows "\<exists>es fc confirm. ps_trace t = ps_trace s @ es \<and> Received fc \<in> set es \<and> f_routeId fc = routeId
    \<and> open_confirmation (pe_suite en) ks routeId fc = Inr confirm \<and> credential_of en daemonId ks confirm res
    \<and> pr_relayOrigin res = origin \<and> pr_label res = normalizeDeviceLabel (pe_label en)"
proof -
  let ?tag = "sas (pe_suite en) (pe_evenWords en) (pe_oddWords en) (sk_shared ks)"
  obtain u1 u2 u3 u4 fc confirm i cred fp ack where
    sent: "send_json Typ_FWD routeId (SpakeConfirmP (sk_confirmP ks)) s = (Inr (), u1)"
    and obs: "on_channel (hs_observe ''await_approval'') u1 = (Inr (), u2)"
    and fc: "await_confirmation routeId u2 = (Inr fc, u3)"
    and conf: "open_confirmation (pe_suite en) ks routeId fc = Inr confirm"
    and read: "read_confirmation en origin daemonId ?tag confirm = Inr (i, cred, fp)"
    and ack: "ps_send \<lparr> f_version = 1, f_typ = Typ_FWD, f_flags = 0, f_routeId = routeId, f_payload = ack \<rparr> u3 = (Inr (), t)"
    and res: "res = pair_result.extend cred (paired.fields fp origin (normalizeDeviceLabel (pe_label en)) \<lfloor>ps_clock t / 1000\<rfloor>)"
    using assms unfolding pair_approve_def Let_def by (auto simp: ps_success split: if_splits prod.splits)
  have any: "emits (\<lambda>_. True) (send_json Typ_FWD routeId (SpakeConfirmP (sk_confirmP ks)))"
    "emits (\<lambda>_. True) (ps_send \<lparr> f_version = 1, f_typ = Typ_FWD, f_flags = 0, f_routeId = routeId, f_payload = ack \<rparr>)"
    by (auto intro: emits_send_json emits_send)
  obtain es1 es3 where "ps_trace u1 = ps_trace s @ es1" "ps_trace t = ps_trace u3 @ es3"
    using any sent ack unfolding emits_def by metis
  moreover have "ps_trace u2 = ps_trace u1 @ [Observed ''await_approval'']"
    using obs by (auto simp: on_channel_def hs_observe_def hs_log_def ps_trace_def)
  moreover obtain es2 where "ps_trace u3 = ps_trace u2 @ es2" "Received fc \<in> set es2" using await_confirmation_received(1) [OF fc] by blast
  ultimately have "\<exists>es. ps_trace t = ps_trace s @ es \<and> Received fc \<in> set es" by auto
  moreover have "f_routeId fc = routeId" by (rule await_confirmation_received(3) [OF fc])
  moreover have "credential_of en daemonId ks confirm res" using read_confirmation_Inr [OF read] res by simp
  moreover have "pr_relayOrigin res = origin" "pr_label res = normalizeDeviceLabel (pe_label en)"
    by (simp_all add: res pair_result.defs paired.defs)
  ultimately show ?thesis using conf by blast
qed

lemma emits_pair_approve: "emits (\<lambda>_. True) (pair_approve en origin r d k)"
proof -
  have "waited (confirm_frame r) s x t" if "await_confirmation r s = (x, t)" for s x t
    using that unfolding await_confirmation_def
    by (rule pair_loop_waits) (auto simp: confirm_frame_def pong_def split: if_splits sum.splits)
  then have "emits aside (await_confirmation r)" unfolding emits_def waited_def by blast
  then have "emits (\<lambda>_. True) (await_confirmation r)" by (rule emits_mono) simp
  moreover have "emits (\<lambda>_. True) (on_channel (hs_observe g))" for g
    by (rule emitsI) (auto simp: on_channel_def hs_observe_def hs_log_def ps_trace_def)
  moreover have "emits (\<lambda>_. True) (\<lambda>s. if aborted s then (Inl e, s) else (Inr (), s))" for e
    by (rule emits_nothing) simp
  moreover have "emits (\<lambda>_. True) (\<lambda>s. (Inr (f s), s))" for f :: "pairing \<Rightarrow> paired" by (rule emits_nothing) simp
  ultimately show ?thesis unfolding pair_approve_def Let_def split_def
    by (intro emits_intros emits_send_json) auto
qed

text \<open>The body of the exchange, from the trace of its caller.\<close>

lemma pair_body_trace:
  assumes "pair_body en ref code origin s = (r, t)"
  shows "\<exists>routeId es fs. ps_trace t = ps_trace s @ es @ fs \<and> list_all (introductory routeId) es
    \<and> (fs \<noteq> [] \<longrightarrow> (\<exists>f daemonId ks. Received f \<in> set (ps_trace s @ es) \<and> share_proved en routeId code daemonId f ks))"
proof -
  obtain x u where att: "pair_attach en ref s = (x, u)" by force
  show ?thesis
  proof (cases x)
    case (Inl e)
    then have "t = u" using assms att by (simp add: pair_body_def)
    moreover obtain es where "ps_trace u = ps_trace s @ es" "list_all (introductory []) es"
      using att emits_pair_attach unfolding emits_def by blast
    ultimately show ?thesis by (intro exI [of _ "[]"] exI [of _ es]) simp
  next
    case (Inr a)
    obtain es where es: "ps_trace u = ps_trace s @ es" "list_all (introductory (f_routeId a)) es"
      using att emits_pair_attach unfolding emits_def by blast
    obtain y v where ex: "pair_exchange en ref code a u = (y, v)" by force
    obtain fs where fs: "ps_trace v = ps_trace u @ fs" "list_all (introductory (f_routeId a)) fs"
      using ex emits_pair_exchange unfolding emits_def by blast
    have *: "\<exists>gs. ps_trace t = ps_trace v @ gs \<and> (gs \<noteq> [] \<longrightarrow> (\<exists>d ks. y = Inr (d, ks)))"
    proof (cases y)
      case (Inl e)
      then show ?thesis using assms att \<open>x = Inr a\<close> ex by (auto simp: pair_body_def ps_bind_def)
    next
      case (Inr p)
      obtain d k z w where p: "p = (d, k)" and ap: "pair_approve en origin (f_routeId a) d k v = (z, w)" by (metis surj_pair)
      have "t = w" using assms att \<open>x = Inr a\<close> ex Inr p ap by (cases z) (auto simp: pair_body_def ps_bind_def)
      then show ?thesis using ap emits_pair_approve Inr p unfolding emits_def by blast
    qed
    then obtain gs where gs: "ps_trace t = ps_trace v @ gs" "gs \<noteq> [] \<Longrightarrow> \<exists>d ks. y = Inr (d, ks)" by blast
    have "\<exists>f daemonId ks. Received f \<in> set (ps_trace v) \<and> share_proved en (f_routeId a) code daemonId f ks" if "gs \<noteq> []"
      using gs(2) [OF that] ex pair_exchange_proved(1) by blast
    then show ?thesis using es fs gs(1) by (intro exI [of _ "f_routeId a"] exI [of _ "es @ fs"] exI [of _ gs]) auto
  qed
qed

lemma pair_body_credential:
  assumes "pair_body en ref code origin s = (Inr res, t)"
  shows "\<exists>f fc routeId ks confirm. Received f \<in> set (ps_trace t) \<and> Received fc \<in> set (ps_trace t)
    \<and> share_proved en routeId code (pr_daemonId res) f ks \<and> f_routeId fc = routeId
    \<and> open_confirmation (pe_suite en) ks routeId fc = Inr confirm \<and> credential_of en (pr_daemonId res) ks confirm res
    \<and> nonempty (pe_expectedDaemonId en) \<in> {None, Some (pr_daemonId res)} \<and> pr_relayOrigin res = origin"
proof -
  obtain a u where "pair_attach en ref s = (Inr a, u)"
    "ps_bind (pair_exchange en ref code a) (\<lambda>(daemonId, ks). pair_approve en origin (f_routeId a) daemonId ks) u = (Inr res, t)"
    using assms by (auto simp: pair_body_def split: prod.splits sum.splits)
  then obtain d ks v where ex: "pair_exchange en ref code a u = (Inr (d, ks), v)" and ap: "pair_approve en origin (f_routeId a) d ks v = (Inr res, t)"
    by (auto simp: ps_bind_Inr)
  from pair_exchange_proved [OF ex] pair_approve_credential [OF ap] show ?thesis
    unfolding credential_of_def Let_def by (metis UnI1 UnI2 set_append)
qed

lemma pairOverWS_run:
  assumes "pairOverWS en pair_ref secret s = (r, t)"
  shows "(\<exists>e. r = Inl e \<and> t = s) \<or> (\<exists>ref code origin u. normalizePairInput pair_ref secret = Inr (ref, code) \<and> pe_origin en = Inr origin
    \<and> pair_body en ref code origin s = (r, u) \<and> t = pair_cleanup u)"
  using assms unfolding pairOverWS_def by (auto simp: ps_try_def split: sum.splits prod.splits)

lemma pair_cleanup_trace [simp]: "ps_trace (pair_cleanup s) = ps_trace s" "ps_beat (pair_cleanup s) = None"
  by (simp_all add: pair_cleanup_def ps_trace_def)

end
