(* ===== verification/ClientTransport.thy ===== *)
theory ClientTransport
  imports ClientHandshake ClientDirect "HOL-Library.AList"
begin

text \<open>
  An established session on one channel, \<^verbatim>\<open>pwa/src/lib/protocol/session-transport.ts\<close>: remote calls with their
  timeouts, late answers, heartbeats, page visibility, and the ways an epoch ends. The transport is a state; every
  entry point of the class (calls, timers, frames, closing) is one step, and what it does to the outside is appended
  to \<open>st_out\<close>. A call's promise is a number, which also names its timer. Diagnostics are not modelled. The listeners the
  transport calls are outputs, and what they do in return is a later step; a listener, a late callback or \<^verbatim>\<open>onSent\<close> that throws
  does so through the parameter \<open>thrown\<close>, and the transport's own \<^verbatim>\<open>catch\<close> sees it. The handlers of \<^verbatim>\<open>onDisconnect\<close> do not throw. The lemmas show that every promise is settled
  at most once and never forgotten, that memory is bounded, that no nonce is used twice, and that nothing happens
  after the end.
\<close>

section \<open>State\<close>

datatype session_event =
    Latency number
  | Poke_event string "string option"
  | Terminal_frame_event terminal_part
  | Terminal_closed_event string string

datatype st_output =
    Frame_sent frame
  | Channel_closed nat
  | Emitted session_event
  | Resolved nat "json option"
  | Rejected nat client_error
  | Late_called nat "json option"
  | Disconnected client_error
  | Ice_paused
  | Ice_resumed

record transport =
  st_routeId :: "byte list"
  st_direct :: bool
  st_c2s :: direction
  st_s2c :: direction
  st_pending :: "(string \<times> nat) list"
  st_timers :: "(nat \<times> string \<times> bool) list"
  st_late :: "(string \<times> nat) list"
  st_expiries :: "(nat \<times> string) list"
  st_heartbeat :: bool
  st_counter :: nat
  st_expectedPong :: "byte list option"
  st_expectedPongAt :: number
  st_stopped :: bool
  st_hidden :: bool
  st_resumeUntil :: number
  st_resumeTimer :: bool
  st_stopError :: "client_error option"
  st_fresh :: nat
  st_out :: "st_output list"

definition MAX_IN_FLIGHT :: nat where [simp]: "MAX_IN_FLIGHT = 32"
definition MAX_LATE_CALLBACKS :: nat where [simp]: "MAX_LATE_CALLBACKS = MAX_IN_FLIGHT"
definition READ_RPC_TIMEOUT_MS :: number where "READ_RPC_TIMEOUT_MS = 8000"
definition LATE_CALLBACK_TTL_MS :: number where "LATE_CALLBACK_TTL_MS = 60000"

definition report :: "st_output \<Rightarrow> transport \<Rightarrow> transport" where
  "report ev t = t\<lparr> st_out := st_out t @ [ev] \<rparr>"

section \<open>Ending an epoch\<close>

definition stopLifecycle :: "transport \<Rightarrow> transport" where
  "stopLifecycle t = t\<lparr> st_heartbeat := False, st_resumeTimer := False \<rparr>"

definition dropLate :: "string \<Rightarrow> transport \<Rightarrow> transport" where
  "dropLate i t =
     (case map_of (st_late t) i of
        None \<Rightarrow> t
      | Some k \<Rightarrow> t\<lparr> st_late := AList.delete i (st_late t), st_expiries := filter (\<lambda>x. fst x \<noteq> k) (st_expiries t) \<rparr>)"

definition clear_timer :: "nat \<Rightarrow> transport \<Rightarrow> transport" where
  "clear_timer k t = t\<lparr> st_timers := filter (\<lambda>x. fst x \<noteq> k) (st_timers t) \<rparr>"

definition settle :: "st_output \<Rightarrow> nat \<Rightarrow> transport \<Rightarrow> transport" where
  "settle ev k t = report ev (clear_timer k t)"

definition rejectPending :: "client_error \<Rightarrow> transport \<Rightarrow> transport" where
  "rejectPending e t =
     (let t = fold (\<lambda>(i, k). settle (Rejected k e) k) (st_pending t) t;
          t = t\<lparr> st_pending := [] \<rparr>;
          t = fold dropLate (map fst (st_late t)) t in
      t\<lparr> st_late := [] \<rparr>)"

definition disconnect :: "client_error \<Rightarrow> transport \<Rightarrow> transport" where
  "disconnect e t =
     (if st_stopped t then t
      else report (Disconnected e) (rejectPending e (stopLifecycle (t\<lparr> st_stopped := True, st_stopError := Some e \<rparr>))))"

definition failEpoch :: "client_error \<Rightarrow> transport \<Rightarrow> transport" where
  "failEpoch e t = report (Channel_closed 1011) (disconnect e t)"

definition close_transport :: "transport \<Rightarrow> transport" where
  "close_transport t =
     (if st_stopped t then t
      else report (Channel_closed 1000) (rejectPending (ProtocolError ''closed'') (stopLifecycle (t\<lparr> st_stopped := True \<rparr>))))"

definition suspend :: "client_error \<Rightarrow> transport \<Rightarrow> transport" where
  "suspend e t = report (Channel_closed 1001) (disconnect e t)"

section \<open>Sending\<close>

text \<open>The channel refuses a send with an error, or takes the frame.\<close>

definition transport_send :: "client_error option \<Rightarrow> frame \<Rightarrow> transport \<Rightarrow> unit fallible \<times> transport" where
  "transport_send refusal f t = (case refusal of Some e \<Rightarrow> (Inl e, t) | None \<Rightarrow> (Inr (), report (Frame_sent f) t))"

definition sendSealed :: "suite \<Rightarrow> client_error option \<Rightarrow> byte list \<Rightarrow> transport \<Rightarrow> unit fallible \<times> transport" where
  "sendSealed su refusal plaintext t =
     (case seal su (st_c2s t) (st_routeId t) plaintext of
        Inl e \<Rightarrow> (Inl e, t)
      | Inr (payload, d) \<Rightarrow>
          transport_send refusal \<lparr> f_version = 1, f_typ = Typ_FWD, f_flags = 0, f_routeId = st_routeId t, f_payload = payload \<rparr>
            (t\<lparr> st_c2s := d \<rparr>))"

definition sendResponse :: "suite \<Rightarrow> client_error option \<Rightarrow> string \<Rightarrow> json \<Rightarrow> transport \<Rightarrow> transport" where
  "sendResponse su refusal i result t =
     (case sendSealed su refusal (text_bytes (print_json
            (JObj [(''v'', JNum 1), (''id'', JStr i), (''ok'', JBool True), (''result'', result)]))) t of
        (Inr _, t) \<Rightarrow> t
      | (Inl _, t) \<Rightarrow> failEpoch (ProtocolError ''disconnected'') t)"

section \<open>Calls\<close>

definition as_protocol :: "string \<Rightarrow> client_error \<Rightarrow> client_error" where
  "as_protocol c e = (case e of ProtocolError _ \<Rightarrow> e | OtherError _ \<Rightarrow> ProtocolError c)"

text \<open>A function of the caller returns, or throws.\<close>

definition heard :: "client_error option \<Rightarrow> transport \<Rightarrow> unit fallible \<times> transport" where
  "heard thrown t = (case thrown of None \<Rightarrow> (Inr (), t) | Some e \<Rightarrow> (Inl e, t))"

definition rpc ::
  "suite \<Rightarrow> client_error option \<Rightarrow> client_error option \<Rightarrow> byte list \<Rightarrow> string \<Rightarrow> json \<Rightarrow> bool \<Rightarrow> transport \<Rightarrow> nat fallible \<times> transport" where
  "rpc su refusal thrown random op params onLate t =
     (if st_stopped t then (Inl (ProtocolError ''disconnected''), t)
      else if length (st_pending t) \<ge> MAX_IN_FLIGHT then (Inl (ProtocolError ''backpressure''), t)
      else let i = ''req_'' @ b64url random;
               plaintext = text_bytes (print_json (JObj [(''v'', JNum 1), (''id'', JStr i), (''op'', JStr op), (''params'', params)]));
               k = st_fresh t;
               t = t\<lparr> st_fresh := k + 1, st_timers := st_timers t @ [(k, i, onLate)], st_pending := AList.update i k (st_pending t) \<rparr> in
        case (case sendSealed su refusal plaintext t of (Inr _, t) \<Rightarrow> heard thrown t | (Inl e, t) \<Rightarrow> (Inl e, t)) of
          (Inr _, t) \<Rightarrow> (Inr k, t)
        | (Inl e, t) \<Rightarrow>
            let t = clear_timer k t; t = t\<lparr> st_pending := AList.delete i (st_pending t) \<rparr>; t = dropLate i t;
                t = report (Rejected k (as_protocol ''disconnected'' e)) t in
            (Inr k, failEpoch (ProtocolError ''disconnected'') t))"

definition rememberLate :: "nat \<Rightarrow> string \<Rightarrow> bool \<Rightarrow> transport \<Rightarrow> transport" where
  "rememberLate k i fn t =
     (if \<not> fn then t
      else let t = (if length (st_late t) \<ge> MAX_LATE_CALLBACKS
                    then (case st_late t of [] \<Rightarrow> t | (oldest, _) # _ \<Rightarrow> dropLate oldest t) else t) in
        t\<lparr> st_expiries := st_expiries t @ [(k, i)], st_late := AList.update i k (st_late t) \<rparr>)"

text \<open>The timer of call \<open>k\<close> goes off; a timer that was cleared does not.\<close>

definition rpc_timeout :: "nat \<Rightarrow> transport \<Rightarrow> transport" where
  "rpc_timeout k t =
     (case map_of (st_timers t) k of
        None \<Rightarrow> t
      | Some (i, onLate) \<Rightarrow>
          let t = clear_timer k t; t = t\<lparr> st_pending := AList.delete i (st_pending t) \<rparr> in
          report (Rejected k (ProtocolError ''timeout'')) (rememberLate k i onLate t))"

definition late_expired :: "nat \<Rightarrow> transport \<Rightarrow> transport" where
  "late_expired k t =
     (case map_of (st_expiries t) k of
        None \<Rightarrow> t
      | Some i \<Rightarrow> dropLate i (t\<lparr> st_expiries := filter (\<lambda>x. fst x \<noteq> k) (st_expiries t) \<rparr>))"

datatype idle = Idle | Still_waiting | Idle_failed client_error

definition waitIdle_poll :: "number \<Rightarrow> number \<Rightarrow> transport \<Rightarrow> idle" where
  "waitIdle_poll deadline now t =
     (if st_pending t = [] then Idle
      else if st_stopped t then Idle_failed (case st_stopError t of Some e \<Rightarrow> e | None \<Rightarrow> ProtocolError ''disconnected'')
      else if now \<ge> deadline then Idle_failed (ProtocolError ''timeout'')
      else Still_waiting)"

section \<open>Receiving\<close>

definition validateEstablishedFWD :: "frame \<Rightarrow> byte list \<Rightarrow> unit fallible" where
  "validateEstablishedFWD f routeId =
     (if f_typ f \<noteq> Typ_FWD then Inl (ProtocolError ''bad_frame'')
      else if \<not> sameBytes (f_routeId f) routeId then Inl (ProtocolError ''bad_frame'') else Inr ())"

definition settle_response ::
  "client_error option \<Rightarrow> string \<Rightarrow> client_error + json option \<Rightarrow> transport \<Rightarrow> unit fallible \<times> transport" where
  "settle_response thrown i r t =
     (case map_of (st_pending t) i of
        None \<Rightarrow> (case map_of (st_late t) i of
            None \<Rightarrow> (Inr (), t)
          | Some k \<Rightarrow> let t = dropLate i t in (case r of Inl _ \<Rightarrow> (Inr (), t) | Inr v \<Rightarrow> heard thrown (report (Late_called k v) t)))
      | Some k \<Rightarrow>
          let t = clear_timer k t; t = t\<lparr> st_pending := AList.delete i (st_pending t) \<rparr>; t = dropLate i t in
          (Inr (), report (case r of Inr v \<Rightarrow> Resolved k v | Inl e \<Rightarrow> Rejected k e) t))"

definition deliver ::
  "suite \<Rightarrow> client_error option \<Rightarrow> client_error option \<Rightarrow> session_message \<Rightarrow> transport \<Rightarrow> unit fallible \<times> transport" where
  "deliver su refusal thrown m t =
     (case m of
        Request i tMs \<Rightarrow> (Inr (), sendResponse su refusal i (JObj [(''t_echo_ms'', JNum (of_int tMs))]) t)
      | Poke r p \<Rightarrow> heard thrown (report (Emitted (Poke_event r p)) t)
      | Terminal_frame p \<Rightarrow> heard thrown (report (Emitted (Terminal_frame_event p)) t)
      | Terminal_closed i r \<Rightarrow> heard thrown (report (Emitted (Terminal_closed_event i r)) t)
      | Success i v \<Rightarrow> settle_response thrown i (Inr v) t
      | Failure i c text \<Rightarrow> settle_response thrown i (Inl (ProtocolError c)) t)"

definition receive_pong :: "client_error option \<Rightarrow> number \<Rightarrow> frame \<Rightarrow> transport \<Rightarrow> unit fallible \<times> transport" where
  "receive_pong thrown now f t =
     (case requireHeartbeatPayload (f_payload f) of
        Inl e \<Rightarrow> (Inl e, t)
      | Inr _ \<Rightarrow>
          if (case st_expectedPong t of None \<Rightarrow> True | Some p \<Rightarrow> \<not> sameBytes (f_payload f) p) then (Inl (ProtocolError ''bad_frame''), t)
          else heard thrown (report (Emitted (Latency (max 0 (now - st_expectedPongAt t)))) (t\<lparr> st_expectedPong := None, st_expectedPongAt := 0 \<rparr>)))"

definition receive_sealed :: "suite \<Rightarrow> client_error option \<Rightarrow> client_error option \<Rightarrow> frame \<Rightarrow> transport \<Rightarrow> unit fallible \<times> transport" where
  "receive_sealed su refusal thrown f t =
     (case validateEstablishedFWD f (st_routeId t) of
        Inl e \<Rightarrow> (Inl e, t)
      | Inr _ \<Rightarrow> (case open_payload su (st_s2c t) (st_routeId t) (f_payload f) of
            Inl e \<Rightarrow> (Inl e, t)
          | Inr (pt, d) \<Rightarrow> (let t = t\<lparr> st_s2c := d \<rparr> in
              case JSON_parse_bytes pt of
                Inl e \<Rightarrow> (Inl e, t)
              | Inr v \<Rightarrow> (case validateSessionMessage v of
                    Inl e \<Rightarrow> (Inl e, t)
                  | Inr m \<Rightarrow> deliver su refusal thrown m t))))"

definition receive_body :: "suite \<Rightarrow> client_error option \<Rightarrow> client_error option \<Rightarrow> number \<Rightarrow> frame \<Rightarrow> transport \<Rightarrow> unit fallible \<times> transport" where
  "receive_body su refusal thrown now f t =
     (if f_typ f = Typ_PING then
        (case requireHeartbeatPayload (f_payload f) of
           Inl e \<Rightarrow> (Inl e, t)
         | Inr _ \<Rightarrow> (case transport_send refusal (f\<lparr> f_typ := Typ_PONG \<rparr>) t of
               (Inr _, t) \<Rightarrow> (Inr (), t)
             | (Inl _, t) \<Rightarrow> (Inr (), failEpoch (ProtocolError ''disconnected'') t)))
      else if f_typ f = Typ_PONG then receive_pong thrown now f t
      else if f_typ f = Typ_DAEMON_REPLACED then
        (Inr (), report (Channel_closed 1012) (disconnect (ProtocolError ''daemon_replaced'') t))
      else if f_typ f = Typ_ERROR then (Inr (), report (Channel_closed 1008) (disconnect (envelopeError f) t))
      else receive_sealed su refusal thrown f t)"

definition receive :: "suite \<Rightarrow> client_error option \<Rightarrow> client_error option \<Rightarrow> number \<Rightarrow> frame \<Rightarrow> transport \<Rightarrow> transport" where
  "receive su refusal thrown now f t =
     (if st_stopped t then t
      else case receive_body su refusal thrown now f t of
          (Inr _, t) \<Rightarrow> t
        | (Inl e, t) \<Rightarrow> report (Channel_closed 1002) (disconnect (as_protocol ''bad_message'' e) t))"

section \<open>Heartbeats and visibility\<close>

definition beat :: "client_error option \<Rightarrow> number \<Rightarrow> bool \<Rightarrow> transport \<Rightarrow> transport" where
  "beat refusal now pageHidden t =
     (if st_stopped t \<or> pageHidden \<or> st_hidden t \<or> now < st_resumeUntil t then t
      else if st_expectedPong t \<noteq> None then report (Channel_closed 1011) (disconnect (ProtocolError ''heartbeat_timeout'') t)
      else let t = t\<lparr> st_counter := st_counter t + 1 \<rparr> in
        case heartbeatPayload (st_counter t) of
          Inl _ \<Rightarrow> report (Channel_closed 1011) (disconnect (ProtocolError ''disconnected'') t)
        | Inr payload \<Rightarrow>
            (let t = t\<lparr> st_expectedPong := Some payload, st_expectedPongAt := now \<rparr> in
             case transport_send refusal
                    \<lparr> f_version = 1, f_typ = Typ_PING, f_flags = 0, f_routeId = st_routeId t, f_payload = payload \<rparr> t of
               (Inr _, t) \<Rightarrow> t
             | (Inl _, t) \<Rightarrow> report (Channel_closed 1011) (disconnect (ProtocolError ''disconnected'') t)))"

definition setPageHidden :: "number \<Rightarrow> bool \<Rightarrow> transport \<Rightarrow> transport" where
  "setPageHidden now hidden t =
     (if st_stopped t then t
      else let wasHidden = st_hidden t in
        if \<not> hidden \<and> \<not> wasHidden then t
        else let t = t\<lparr> st_hidden := hidden, st_resumeTimer := False \<rparr> in
          if hidden then (if st_direct t then report Ice_paused t else t)
          else if wasHidden then t\<lparr> st_resumeUntil := now + DIRECT_RESUME_GRACE_MS, st_resumeTimer := True \<rparr>
          else t)"

definition resume_fired :: "bool \<Rightarrow> transport \<Rightarrow> transport" where
  "resume_fired pageHidden t =
     (if \<not> st_resumeTimer t then t
      else let t = t\<lparr> st_resumeTimer := False \<rparr> in
        if \<not> st_stopped t \<and> \<not> pageHidden \<and> st_direct t then report Ice_resumed t else t)"

section \<open>A transport's life\<close>

text \<open>
  The constructor: frames that waited in the channel are received first, and a channel that had already ended says so at once
  (\<open>ended\<close>); either may end the epoch before it starts.
\<close>

definition fresh_transport :: "bool \<Rightarrow> session_epoch \<Rightarrow> bool \<Rightarrow> transport" where
  "fresh_transport direct epoch pageHidden =
     \<lparr> st_routeId = ep_routeId epoch, st_direct = direct, st_c2s = ep_c2s epoch, st_s2c = ep_s2c epoch, st_pending = [],
       st_timers = [], st_late = [], st_expiries = [], st_heartbeat = False, st_counter = 0, st_expectedPong = None,
       st_expectedPongAt = 0, st_stopped = False, st_hidden = pageHidden, st_resumeUntil = 0, st_resumeTimer = False,
       st_stopError = None, st_fresh = 0, st_out = [] \<rparr>"

fun receive_all :: "suite \<Rightarrow> (client_error option \<times> client_error option \<times> frame) list \<Rightarrow> number \<Rightarrow> transport \<Rightarrow> transport" where
  "receive_all su [] now t = t"
| "receive_all su ((refusal, thrown, f) # fs) now t = receive_all su fs now (receive su refusal thrown now f t)"

definition new_transport ::
  "suite \<Rightarrow> bool \<Rightarrow> session_epoch \<Rightarrow> (client_error option \<times> client_error option \<times> frame) list \<Rightarrow> client_error option \<Rightarrow>
   client_error option \<Rightarrow> number \<Rightarrow> bool \<Rightarrow> transport" where
  "new_transport su direct epoch queued ended refusal now pageHidden =
     (let t = receive_all su queued now (fresh_transport direct epoch pageHidden);
          t = (case ended of None \<Rightarrow> t | Some e \<Rightarrow> disconnect e t) in
      if st_stopped t then t
      else beat refusal now pageHidden ((setPageHidden now (st_hidden t) t)\<lparr> st_heartbeat := True \<rparr>))"

datatype st_input =
    Rpc "client_error option" "client_error option" "byte list" string json bool
  | Rpc_timer nat
  | Late_timer nat
  | Frame_in "client_error option" "client_error option" number frame
  | Beat "client_error option" number bool
  | Visibility number bool
  | Resume_timer bool
  | Close
  | Suspend client_error
  | Channel_ended client_error

fun transport_step :: "suite \<Rightarrow> st_input \<Rightarrow> transport \<Rightarrow> transport" where
  "transport_step su (Rpc refusal thrown random op params onLate) t = snd (rpc su refusal thrown random op params onLate t)"
| "transport_step su (Rpc_timer k) t = rpc_timeout k t"
| "transport_step su (Late_timer k) t = late_expired k t"
| "transport_step su (Frame_in refusal thrown now f) t = receive su refusal thrown now f t"
| "transport_step su (Beat refusal now pageHidden) t = (if st_heartbeat t then beat refusal now pageHidden t else t)"
| "transport_step su (Visibility now hidden) t = setPageHidden now hidden t"
| "transport_step su (Resume_timer pageHidden) t = resume_fired pageHidden t"
| "transport_step su Close t = close_transport t"
| "transport_step su (Suspend e) t = suspend e t"
| "transport_step su (Channel_ended e) t = disconnect e t"

inductive transport_reach :: "suite \<Rightarrow> session_epoch \<Rightarrow> transport \<Rightarrow> bool" for su epoch where
  opened: "transport_reach su epoch (new_transport su direct epoch queued ended refusal now pageHidden)"
| stepped: "transport_reach su epoch t \<Longrightarrow> transport_reach su epoch (transport_step su i t)"

section \<open>Every call is settled once\<close>

text \<open>The calls that were answered, and the nonces that were used, as the outside saw them.\<close>

fun settles :: "st_output \<Rightarrow> nat list" where
  "settles (Resolved k v) = [k]"
| "settles (Rejected k e) = [k]"
| "settles _ = []"

definition settled_calls :: "transport \<Rightarrow> nat list" where
  "settled_calls t = concat (map settles (st_out t))"

definition timers_armed :: "transport \<Rightarrow> nat set" where
  "timers_armed t = fst ` set (st_timers t)"

text \<open>
  A call that has a number is either settled, exactly once, or has its timer armed; what waits for an answer has a
  timer; and at most 32 calls wait.
\<close>

definition calls_ok :: "transport \<Rightarrow> bool" where
  "calls_ok t \<longleftrightarrow>
     distinct (settled_calls t) \<and> set (settled_calls t) \<inter> timers_armed t = {} \<and> set (settled_calls t) \<union> timers_armed t = {..< st_fresh t}
     \<and> distinct (map fst (st_timers t)) \<and> distinct (map fst (st_pending t)) \<and> length (st_pending t) \<le> 32
     \<and> (\<forall>(i, k) \<in> set (st_pending t). \<exists>b. (k, i, b) \<in> set (st_timers t))"

definition late_ok :: "transport \<Rightarrow> bool" where
  "late_ok t \<longleftrightarrow> distinct (map fst (st_late t)) \<and> length (st_late t) \<le> 32"

definition stop_ok :: "transport \<Rightarrow> bool" where
  "stop_ok t \<longleftrightarrow> (st_stopped t \<longrightarrow> st_pending t = [] \<and> \<not> st_heartbeat t \<and> \<not> st_resumeTimer t)"

lemma settled_report [simp]: "settled_calls (report ev t) = settled_calls t @ settles ev"
  by (simp add: settled_calls_def report_def)

lemma report_simps [simp]:
  "st_timers (report ev t) = st_timers t" "st_pending (report ev t) = st_pending t" "st_fresh (report ev t) = st_fresh t"
  "st_late (report ev t) = st_late t" "st_stopped (report ev t) = st_stopped t" "st_heartbeat (report ev t) = st_heartbeat t"
  "st_resumeTimer (report ev t) = st_resumeTimer t" "st_c2s (report ev t) = st_c2s t" "st_routeId (report ev t) = st_routeId t"
  "st_out (report ev t) = st_out t @ [ev]" "timers_armed (report ev t) = timers_armed t"
  by (simp_all add: report_def timers_armed_def)

lemma dropLate_simps [simp]:
  "st_timers (dropLate i t) = st_timers t" "st_pending (dropLate i t) = st_pending t" "st_fresh (dropLate i t) = st_fresh t"
  "st_stopped (dropLate i t) = st_stopped t" "st_heartbeat (dropLate i t) = st_heartbeat t"
  "st_resumeTimer (dropLate i t) = st_resumeTimer t" "st_c2s (dropLate i t) = st_c2s t" "st_out (dropLate i t) = st_out t"
  "st_routeId (dropLate i t) = st_routeId t"
  by (simp_all add: dropLate_def split: option.splits)

lemma clear_timer_simps [simp]:
  "st_timers (clear_timer k t) = filter (\<lambda>x. fst x \<noteq> k) (st_timers t)" "st_pending (clear_timer k t) = st_pending t"
  "st_fresh (clear_timer k t) = st_fresh t" "st_late (clear_timer k t) = st_late t" "st_stopped (clear_timer k t) = st_stopped t"
  "st_heartbeat (clear_timer k t) = st_heartbeat t" "st_resumeTimer (clear_timer k t) = st_resumeTimer t"
  "st_c2s (clear_timer k t) = st_c2s t" "st_out (clear_timer k t) = st_out t" "st_routeId (clear_timer k t) = st_routeId t"
  by (simp_all add: clear_timer_def)

lemma stopLifecycle_simps [simp]:
  "st_timers (stopLifecycle t) = st_timers t" "st_pending (stopLifecycle t) = st_pending t" "st_fresh (stopLifecycle t) = st_fresh t"
  "st_late (stopLifecycle t) = st_late t" "st_stopped (stopLifecycle t) = st_stopped t" "\<not> st_heartbeat (stopLifecycle t)"
  "\<not> st_resumeTimer (stopLifecycle t)" "st_c2s (stopLifecycle t) = st_c2s t" "st_out (stopLifecycle t) = st_out t"
  "st_routeId (stopLifecycle t) = st_routeId t"
  by (simp_all add: stopLifecycle_def)

lemma calls_ok_cong:
  "calls_ok t \<Longrightarrow> settled_calls u = settled_calls t \<Longrightarrow> st_timers u = st_timers t \<Longrightarrow> st_fresh u = st_fresh t \<Longrightarrow> st_pending u = st_pending t \<Longrightarrow> calls_ok u"
  by (simp add: calls_ok_def timers_armed_def)

lemma delete_distinct [simp]: "distinct (map fst xs) \<Longrightarrow> distinct (map fst (AList.delete k xs))"
  by (simp add: AList.delete_eq distinct_map_filter)

lemma delete_length: "length (AList.delete k xs) \<le> length xs"
  by (simp add: AList.delete_eq)

lemma delete_length_present: "k \<in> fst ` set xs \<Longrightarrow> length (AList.delete k xs) < length xs"
  by (auto simp: AList.delete_eq intro: length_filter_less)

lemma update_length: "length (AList.update k v xs) \<le> Suc (length xs)"
  by (induction xs) auto

text \<open>A call leaves the table and its promise is settled.\<close>

lemma calls_ok_finish:
  assumes "calls_ok t" and timer: "(k, i, b) \<in> set (st_timers t)" and "settled_calls u = settled_calls t @ [k]"
    and "st_timers u = filter (\<lambda>x. fst x \<noteq> k) (st_timers t)" and "st_fresh u = st_fresh t"
    and "st_pending u = AList.delete i (st_pending t)"
  shows "calls_ok u"
proof -
  note t = assms(1) [unfolded calls_ok_def]
  have a: "timers_armed u = timers_armed t - {k}" "k \<in> timers_armed t" using timer assms(4) by (force simp: timers_armed_def)+
  have left: "\<exists>b. (k', i', b) \<in> set (st_timers u)" if "(i', k') \<in> set (st_pending u)" for i' k'
  proof -
    have p: "(i', k') \<in> set (st_pending t)" "i' \<noteq> i" using that assms(6) by (auto simp: AList.delete_eq)
    then obtain b' where b': "(k', i', b') \<in> set (st_timers t)" using t by fast
    have "k' \<noteq> k" using b' timer p(2) t eq_key_imp_eq_value [of "st_timers t" k "(i', b')" "(i, b)"] by auto
    then show ?thesis using b' assms(4) by auto
  qed
  have "length (st_pending u) \<le> 32" using t assms(6) delete_length [of i "st_pending t"] by simp
  then show ?thesis using t a left assms(3-6) unfolding calls_ok_def by (auto simp: distinct_map_filter)
qed

text \<open>A new call gets a number and a timer.\<close>

lemma calls_ok_start:
  assumes "calls_ok t" and "length (st_pending t) < 32" and "settled_calls u = settled_calls t"
    and "st_timers u = st_timers t @ [(st_fresh t, i, b)]" and "st_fresh u = st_fresh t + 1"
    and "st_pending u = AList.update i (st_fresh t) (st_pending t)"
  shows "calls_ok u"
proof -
  note t = assms(1) [unfolded calls_ok_def]
  have a: "timers_armed u = insert (st_fresh t) (timers_armed t)" using assms(4) by (simp add: timers_armed_def)
  have new: "st_fresh t \<notin> timers_armed t" "st_fresh t \<notin> set (settled_calls t)" using t by auto
  have "length (st_pending u) \<le> 32" using assms(2,6) update_length [of i "st_fresh t" "st_pending t"] by simp
  moreover have "\<exists>b. (k', i', b) \<in> set (st_timers u)" if "(i', k') \<in> set (st_pending u)" for i' k'
  proof -
    have "map_of (st_pending u) i' = Some k'" using that t assms(6) by (simp add: distinct_update map_of_eq_Some_iff)
    then have "i' = i \<and> k' = st_fresh t \<or> (i', k') \<in> set (st_pending t)"
      using assms(6) by (auto simp: update_conv split: if_splits dest: map_of_SomeD)
    then show ?thesis using t assms(4) by fastforce
  qed
  moreover have "distinct (map fst (st_timers u))" using t new(1) assms(4) by (auto simp: timers_armed_def)
  moreover have "set (settled_calls t) \<union> insert (st_fresh t) (timers_armed t) = {..< st_fresh t + 1}" using t by (auto simp: lessThan_Suc)
  ultimately show ?thesis using t a new assms(3,5,6) unfolding calls_ok_def by (auto simp: distinct_update)
qed

section \<open>No nonce is used twice\<close>

fun nonce_of :: "st_output \<Rightarrow> byte list list" where
  "nonce_of (Frame_sent f) = (if f_typ f = Typ_FWD then [take 12 (f_payload f)] else [])"
| "nonce_of _ = []"

definition used_nonces :: "transport \<Rightarrow> byte list list" where
  "used_nonces t = concat (map nonce_of (st_out t))"

definition nonce_ok :: "transport \<Rightarrow> bool" where
  "nonce_ok t \<longleftrightarrow> distinct (used_nonces t) \<and> dir_seq (st_c2s t) \<le> 2 ^ 64
     \<and> (\<forall>n \<in> set (used_nonces t). \<exists>q < dir_seq (st_c2s t). n = replicate 4 0 @ setBigUint64_be q)"

definition transport_ok :: "transport \<Rightarrow> bool" where
  "transport_ok t \<longleftrightarrow> calls_ok t \<and> late_ok t \<and> stop_ok t \<and> nonce_ok t"

lemma used_nonces_report [simp]: "used_nonces (report ev t) = used_nonces t @ nonce_of ev"
  by (simp add: used_nonces_def report_def)

lemma setBigUint64_be_inj: "n < 2 ^ 64 \<Longrightarrow> m < 2 ^ 64 \<Longrightarrow> setBigUint64_be n = setBigUint64_be m \<longleftrightarrow> n = m"
  by (simp add: setBigUint64_be_def setBigUint64_le_inj)

text \<open>Sealing takes the next number; whether the frame then leaves or not, the number is spent.\<close>

lemma nonce_ok_seal:
  assumes ok: "nonce_ok t" and s: "seal su (st_c2s t) r m = Inr (w, d)"
    and u: "st_c2s u = d" "used_nonces u = used_nonces t \<or> used_nonces u = used_nonces t @ [take 12 w]"
  shows "nonce_ok u"
proof -
  obtain a ct where w: "w = replicate 4 0 @ setBigUint64_be (dir_seq (st_c2s t)) @ ct"
    and d: "d = (st_c2s t)\<lparr> dir_seq := dir_seq (st_c2s t) + 1 \<rparr>" and lt: "dir_seq (st_c2s t) < 2 ^ 64"
    using s by (rule seal_ok) blast
  have n: "take 12 w = replicate 4 0 @ setBigUint64_be (dir_seq (st_c2s t))" using w by simp
  have "take 12 w \<notin> set (used_nonces t)"
  proof
    assume "take 12 w \<in> set (used_nonces t)"
    then obtain q where "q < dir_seq (st_c2s t)" "take 12 w = replicate 4 0 @ setBigUint64_be q" using ok by (auto simp: nonce_ok_def)
    then show False using n lt setBigUint64_be_inj [of q "dir_seq (st_c2s t)"] by simp
  qed
  then have dist: "distinct (used_nonces u)" and mem: "set (used_nonces u) \<subseteq> insert (take 12 w) (set (used_nonces t))"
    using u(2) ok by (auto simp: nonce_ok_def)
  have "\<exists>q < dir_seq (st_c2s t) + 1. x = replicate 4 0 @ setBigUint64_be q" if "x \<in> set (used_nonces u)" for x
  proof (cases "x = take 12 w")
    case True
    then show ?thesis using n by auto
  next
    case False
    then have "x \<in> set (used_nonces t)" using that mem by auto
    then obtain q where "q < dir_seq (st_c2s t)" "x = replicate 4 0 @ setBigUint64_be q" using ok by (auto simp: nonce_ok_def)
    then show ?thesis by (intro exI [of _ q]) simp
  qed
  then show ?thesis using dist u(1) d lt by (auto simp: nonce_ok_def)
qed

lemma nonce_ok_cong: "nonce_ok t \<Longrightarrow> used_nonces u = used_nonces t \<Longrightarrow> st_c2s u = st_c2s t \<Longrightarrow> nonce_ok u"
  by (simp add: nonce_ok_def)

section \<open>The invariant of a transport\<close>

lemma transport_ok_report: "transport_ok t \<Longrightarrow> settles ev = [] \<Longrightarrow> nonce_of ev = [] \<Longrightarrow> transport_ok (report ev t)"
  unfolding transport_ok_def by (auto intro: calls_ok_cong nonce_ok_cong simp: late_ok_def stop_ok_def)

lemma late_ok_dropLate: "late_ok t \<Longrightarrow> late_ok (dropLate i t)"
  using delete_length [of i "st_late t"] by (auto simp: late_ok_def dropLate_def split: option.splits)

lemma dropLate_settled [simp]: "settled_calls (dropLate i t) = settled_calls t" "used_nonces (dropLate i t) = used_nonces t"
  by (simp_all add: settled_calls_def used_nonces_def)

lemma fold_dropLate [simp]:
  "st_timers (fold dropLate xs t) = st_timers t" "st_pending (fold dropLate xs t) = st_pending t"
  "st_fresh (fold dropLate xs t) = st_fresh t" "st_stopped (fold dropLate xs t) = st_stopped t"
  "st_heartbeat (fold dropLate xs t) = st_heartbeat t" "st_resumeTimer (fold dropLate xs t) = st_resumeTimer t"
  "st_c2s (fold dropLate xs t) = st_c2s t" "st_out (fold dropLate xs t) = st_out t"
  by (induction xs arbitrary: t) simp_all

lemma fold_settle:
  "fold (\<lambda>(i, k). settle (Rejected k e) k) ps t =
     t\<lparr> st_timers := filter (\<lambda>x. fst x \<notin> snd ` set ps) (st_timers t), st_out := st_out t @ map (\<lambda>(i, k). Rejected k e) ps \<rparr>"
  by (induction ps arbitrary: t) (auto simp: settle_def report_def clear_timer_def intro: filter_cong)

lemma rejectPending_simps [simp]:
  "st_timers (rejectPending e t) = filter (\<lambda>x. fst x \<notin> snd ` set (st_pending t)) (st_timers t)"
  "st_pending (rejectPending e t) = []" "st_late (rejectPending e t) = []" "st_fresh (rejectPending e t) = st_fresh t"
  "st_stopped (rejectPending e t) = st_stopped t" "st_heartbeat (rejectPending e t) = st_heartbeat t"
  "st_resumeTimer (rejectPending e t) = st_resumeTimer t" "st_c2s (rejectPending e t) = st_c2s t"
  "st_out (rejectPending e t) = st_out t @ map (\<lambda>(i, k). Rejected k e) (st_pending t)"
  by (simp_all add: rejectPending_def fold_settle Let_def)

lemma settled_rejectPending [simp]: "settled_calls (rejectPending e t) = settled_calls t @ map snd (st_pending t)"
proof -
  have "concat (map settles (map (\<lambda>(i, k). Rejected k e) ps)) = map snd ps" for ps :: "(string \<times> nat) list"
    by (induction ps) auto
  then show ?thesis by (simp add: settled_calls_def)
qed

lemma used_nonces_rejectPending [simp]: "used_nonces (rejectPending e t) = used_nonces t"
proof -
  have "concat (map nonce_of (map (\<lambda>(i, k). Rejected k e) ps)) = []" for ps :: "(string \<times> nat) list"
    by (induction ps) auto
  then show ?thesis by (simp add: used_nonces_def)
qed

lemma pending_timer: "calls_ok t \<Longrightarrow> (i, k) \<in> set (st_pending t) \<Longrightarrow> \<exists>b. (k, i, b) \<in> set (st_timers t)"
  by (auto simp: calls_ok_def)

lemma pending_numbers:
  assumes "calls_ok t"
  shows "distinct (map snd (st_pending t))" and "snd ` set (st_pending t) \<subseteq> timers_armed t"
proof -
  note t = assms [unfolded calls_ok_def]
  have "i = i'" if both: "(i, k) \<in> set (st_pending t)" "(i', k) \<in> set (st_pending t)" for i i' k
  proof -
    obtain b where b: "(k, i, b) \<in> set (st_timers t)" using pending_timer [OF assms both(1)] ..
    obtain b' where b': "(k, i', b') \<in> set (st_timers t)" using pending_timer [OF assms both(2)] ..
    show ?thesis using b b' t eq_key_imp_eq_value [of "st_timers t" k "(i, b)" "(i', b')"] by auto
  qed
  then have "inj_on snd (set (st_pending t))" by (auto simp: inj_on_def)
  moreover have "distinct (st_pending t)" using t by (simp add: distinct_map)
  ultimately show "distinct (map snd (st_pending t))" by (simp add: distinct_map)
  show "snd ` set (st_pending t) \<subseteq> timers_armed t"
  proof
    fix k
    assume "k \<in> snd ` set (st_pending t)"
    then obtain i where "(i, k) \<in> set (st_pending t)" by auto
    then obtain b where "(k, i, b) \<in> set (st_timers t)" using pending_timer [OF assms] by blast
    then have "fst (k, i, b) \<in> timers_armed t" unfolding timers_armed_def by (rule imageI)
    then show "k \<in> timers_armed t" by simp
  qed
qed

lemma calls_ok_rejectPending:
  assumes "calls_ok t"
  shows "calls_ok (rejectPending e t)"
proof -
  note t = assms [unfolded calls_ok_def] and p = pending_numbers [OF assms]
  have "timers_armed (rejectPending e t) = timers_armed t - snd ` set (st_pending t)" by (auto simp: timers_armed_def)
  then show ?thesis using t p unfolding calls_ok_def by (auto simp: distinct_map_filter)
qed

text \<open>Stopping, whatever the reason.\<close>

lemma transport_ok_stop:
  assumes "transport_ok t" and "u = t\<lparr> st_stopped := True, st_stopError := x \<rparr> \<or> u = t\<lparr> st_stopped := True \<rparr>"
  shows "transport_ok (rejectPending e (stopLifecycle u))"
proof -
  have same: "calls_ok (stopLifecycle u)" "nonce_ok (stopLifecycle u)"
    using assms by (auto simp: transport_ok_def settled_calls_def used_nonces_def intro!: calls_ok_cong [of t] nonce_ok_cong [of t])
  have "calls_ok (rejectPending e (stopLifecycle u))" using same(1) by (rule calls_ok_rejectPending)
  moreover have "nonce_ok (rejectPending e (stopLifecycle u))" using same(2) by (auto intro: nonce_ok_cong)
  ultimately show ?thesis using assms by (simp add: transport_ok_def late_ok_def stop_ok_def)
qed

lemma transport_ok_disconnect: "transport_ok t \<Longrightarrow> transport_ok (disconnect e t)"
  by (auto simp: disconnect_def intro!: transport_ok_report intro: transport_ok_stop)

lemma transport_ok_close: "transport_ok t \<Longrightarrow> transport_ok (close_transport t)"
  by (auto simp: close_transport_def intro!: transport_ok_report intro: transport_ok_stop)

lemma transport_ok_failEpoch: "transport_ok t \<Longrightarrow> transport_ok (failEpoch e t)"
  by (simp add: failEpoch_def transport_ok_report transport_ok_disconnect)

lemma transport_ok_suspend: "transport_ok t \<Longrightarrow> transport_ok (suspend e t)"
  by (simp add: suspend_def transport_ok_report transport_ok_disconnect)

lemmas transport_ok_intros = transport_ok_report transport_ok_disconnect transport_ok_failEpoch

section \<open>Every step keeps it\<close>

lemma transport_ok_sealed:
  assumes "transport_ok t" and "sendSealed su refusal m t = (r, u)"
  shows "transport_ok u \<and> st_pending u = st_pending t \<and> st_timers u = st_timers t \<and> st_late u = st_late t"
proof (cases "seal su (st_c2s t) (st_routeId t) m")
  case (Inl e)
  then show ?thesis using assms by (auto simp: sendSealed_def)
next
  case (Inr x)
  obtain w d where s: "seal su (st_c2s t) (st_routeId t) m = Inr (w, d)" using Inr by (cases x) auto
  let ?f = "\<lparr> f_version = 1, f_typ = Typ_FWD, f_flags = 0, f_routeId = st_routeId t, f_payload = w \<rparr>"
  have u: "u = (case refusal of Some e \<Rightarrow> t\<lparr> st_c2s := d \<rparr> | None \<Rightarrow> report (Frame_sent ?f) (t\<lparr> st_c2s := d \<rparr>))"
    using assms(2) s by (auto simp: sendSealed_def transport_send_def split: option.splits)
  have "used_nonces u = used_nonces t \<or> used_nonces u = used_nonces t @ [take 12 w]" "st_c2s u = d"
    by (auto simp: u used_nonces_def split: option.splits)
  then have "nonce_ok u" using nonce_ok_seal [OF _ s] assms(1) by (simp add: transport_ok_def)
  moreover have "calls_ok u" using assms(1) unfolding transport_ok_def
    by (auto simp: u settled_calls_def split: option.splits intro: calls_ok_cong)
  ultimately show ?thesis using assms(1) by (auto simp: u transport_ok_def late_ok_def stop_ok_def split: option.splits)
qed

lemma transport_ok_sendResponse: "transport_ok t \<Longrightarrow> transport_ok (sendResponse su refusal i v t)"
  unfolding sendResponse_def
  by (auto split: prod.splits sum.splits intro: transport_ok_failEpoch dest: transport_ok_sealed)

lemma transport_ok_finish:
  assumes "transport_ok t" and "(k, i, b) \<in> set (st_timers t)" and "settles ev = [k]" and "nonce_of ev = []" and "late_ok v"
    and v: "st_timers v = filter (\<lambda>x. fst x \<noteq> k) (st_timers t)" "st_fresh v = st_fresh t" "st_pending v = AList.delete i (st_pending t)"
      "st_out v = st_out t" "st_c2s v = st_c2s t" "st_stopped v = st_stopped t" "st_heartbeat v = st_heartbeat t" "st_resumeTimer v = st_resumeTimer t"
  shows "transport_ok (report ev v)"
proof -
  have "calls_ok (report ev v)" using assms calls_ok_finish [of t k i b "report ev v"] by (simp add: transport_ok_def settled_calls_def)
  moreover have "nonce_ok (report ev v)" using assms by (auto simp: transport_ok_def used_nonces_def intro: nonce_ok_cong)
  ultimately show ?thesis using assms by (auto simp: transport_ok_def late_ok_def stop_ok_def)
qed

lemma rememberLate_simps [simp]:
  "st_timers (rememberLate k i b t) = st_timers t" "st_pending (rememberLate k i b t) = st_pending t"
  "st_fresh (rememberLate k i b t) = st_fresh t" "st_stopped (rememberLate k i b t) = st_stopped t"
  "st_heartbeat (rememberLate k i b t) = st_heartbeat t" "st_resumeTimer (rememberLate k i b t) = st_resumeTimer t"
  "st_c2s (rememberLate k i b t) = st_c2s t" "st_out (rememberLate k i b t) = st_out t"
  by (auto simp: rememberLate_def Let_def split: list.splits prod.splits)

lemma late_ok_rememberLate:
  assumes "late_ok t"
  shows "late_ok (rememberLate k i b t)"
proof (cases "b \<and> 32 \<le> length (st_late t)")
  case True
  then obtain j x r where l: "st_late t = (j, x) # r" by (cases "st_late t") auto
  have "st_late (dropLate j t) = AList.delete j (st_late t)" by (simp add: dropLate_def l)
  moreover have "length (AList.delete j (st_late t)) < length (st_late t)" using l by (intro delete_length_present) simp
  ultimately show ?thesis using True assms l update_length [of i k "st_late (dropLate j t)"]
    by (simp add: rememberLate_def late_ok_def Let_def distinct_update)
next
  case False
  then show ?thesis using assms update_length [of i k "st_late t"] by (auto simp: rememberLate_def late_ok_def Let_def distinct_update)
qed

lemma transport_ok_rpc: "transport_ok t \<Longrightarrow> transport_ok (snd (rpc su refusal thrown random op params b t))"
proof -
  assume ok: "transport_ok t"
  define i where "i = ''req_'' @ b64url random"
  define m where "m = text_bytes (print_json (JObj [(''v'', JNum 1), (''id'', JStr i), (''op'', JStr op), (''params'', params)]))"
  define u where "u = t\<lparr> st_fresh := st_fresh t + 1, st_timers := st_timers t @ [(st_fresh t, i, b)], st_pending := AList.update i (st_fresh t) (st_pending t) \<rparr>"
  show ?thesis
  proof (cases "st_stopped t \<or> 32 \<le> length (st_pending t)")
    case True
    then show ?thesis using ok by (auto simp: rpc_def)
  next
    case False
    have u_ok: "transport_ok u"
      using ok False calls_ok_start [of t u i b] by (auto simp: transport_ok_def u_def settled_calls_def used_nonces_def late_ok_def stop_ok_def intro: nonce_ok_cong)
    obtain r v where v: "sendSealed su refusal m u = (r, v)" by (cases "sendSealed su refusal m u")
    note sealed = transport_ok_sealed [OF u_ok v]
    let ?w = "dropLate i ((clear_timer (st_fresh t) v)\<lparr> st_pending := AList.delete i (st_pending v) \<rparr>)"
    have step: "snd (rpc su refusal thrown random op params b t) =
        (case (case r of Inr _ \<Rightarrow> fst (heard thrown v) | Inl e \<Rightarrow> Inl e) of Inr _ \<Rightarrow> v | Inl e \<Rightarrow> failEpoch (ProtocolError ''disconnected'') (report (Rejected (st_fresh t) (as_protocol ''disconnected'' e)) ?w))"
      unfolding rpc_def Let_def i_def [symmetric] m_def [symmetric] u_def [symmetric] v
      using False by (auto simp: heard_def split: sum.splits option.splits)
    have "late_ok ?w" using sealed by (intro late_ok_dropLate) (auto simp: transport_ok_def late_ok_def)
    then have "transport_ok (report (Rejected (st_fresh t) e) ?w)" for e
      using sealed by (intro transport_ok_finish [of v "st_fresh t" i b]) (auto simp: u_def)
    then show ?thesis using step sealed by (auto split: sum.splits intro: transport_ok_failEpoch)
  qed
qed

lemma transport_ok_rpc_timeout: "transport_ok t \<Longrightarrow> transport_ok (rpc_timeout k t)"
proof (cases "map_of (st_timers t) k")
  case (Some x)
  assume ok: "transport_ok t"
  obtain i b where x: "x = (i, b)" by (cases x)
  let ?v = "rememberLate k i b ((clear_timer k t)\<lparr> st_pending := AList.delete i (st_pending (clear_timer k t)) \<rparr>)"
  have "late_ok ?v" using ok by (intro late_ok_rememberLate) (simp add: transport_ok_def late_ok_def)
  then have "transport_ok (report (Rejected k (ProtocolError ''timeout'')) ?v)"
    using ok map_of_SomeD [OF Some] x by (intro transport_ok_finish [of t k i b]) auto
  then show ?thesis by (simp add: rpc_timeout_def Some x Let_def)
qed (simp add: rpc_timeout_def)

lemma transport_ok_late:
  "transport_ok t \<Longrightarrow> late_ok u \<Longrightarrow> st_timers u = st_timers t \<Longrightarrow> st_fresh u = st_fresh t \<Longrightarrow> st_pending u = st_pending t \<Longrightarrow>
   st_out u = st_out t \<Longrightarrow> st_c2s u = st_c2s t \<Longrightarrow> st_stopped u = st_stopped t \<Longrightarrow> st_heartbeat u = st_heartbeat t \<Longrightarrow>
   st_resumeTimer u = st_resumeTimer t \<Longrightarrow> transport_ok u"
  by (auto simp: transport_ok_def stop_ok_def settled_calls_def used_nonces_def intro: calls_ok_cong nonce_ok_cong)

lemma transport_ok_dropLate: "transport_ok t \<Longrightarrow> transport_ok (dropLate i t)"
  by (rule transport_ok_late) (auto simp: late_ok_dropLate transport_ok_def)

lemma transport_ok_late_expired:
  assumes "transport_ok t"
  shows "transport_ok (late_expired k t)"
proof -
  have "transport_ok (t\<lparr> st_expiries := x \<rparr>)" for x
    using assms by (rule transport_ok_late) (use assms in \<open>auto simp: transport_ok_def late_ok_def\<close>)
  then show ?thesis using assms by (auto simp: late_expired_def split: option.splits intro: transport_ok_dropLate)
qed

lemma heard_state [simp]: "snd (heard thrown t) = t"
  by (simp add: heard_def split: option.splits)

lemma transport_ok_response: "transport_ok t \<Longrightarrow> transport_ok (snd (settle_response thrown i r t))"
proof (cases "map_of (st_pending t) i")
  case None
  assume "transport_ok t"
  then show ?thesis using None
    by (auto simp: settle_response_def Let_def split: option.splits sum.splits intro: transport_ok_report transport_ok_dropLate)
next
  case (Some k)
  assume ok: "transport_ok t"
  let ?v = "dropLate i ((clear_timer k t)\<lparr> st_pending := AList.delete i (st_pending (clear_timer k t)) \<rparr>)"
  obtain b where b: "(k, i, b) \<in> set (st_timers t)" using ok map_of_SomeD [OF Some] by (fastforce simp: transport_ok_def calls_ok_def)
  have "late_ok ?v" using ok by (intro late_ok_dropLate) (simp add: transport_ok_def late_ok_def)
  then have "transport_ok (report (case r of Inr v \<Rightarrow> Resolved k v | Inl e \<Rightarrow> Rejected k e) ?v)"
    using ok b by (intro transport_ok_finish [of t k i b]) (auto split: sum.splits)
  then show ?thesis by (simp add: settle_response_def Some Let_def)
qed

lemma transport_ok_deliver: "transport_ok t \<Longrightarrow> transport_ok (snd (deliver su refusal thrown m t))"
  by (cases m) (auto simp: deliver_def intro: transport_ok_report transport_ok_response transport_ok_sendResponse)

text \<open>Fields the invariant does not speak of.\<close>

lemma transport_ok_other [simp]:
  "transport_ok (t\<lparr> st_s2c := d \<rparr>) = transport_ok t" "transport_ok (t\<lparr> st_counter := n \<rparr>) = transport_ok t"
  "transport_ok (t\<lparr> st_expectedPong := p, st_expectedPongAt := a \<rparr>) = transport_ok t"
  "transport_ok (t\<lparr> st_hidden := h \<rparr>) = transport_ok t" "transport_ok (t\<lparr> st_resumeUntil := a \<rparr>) = transport_ok t"
  by (simp_all add: transport_ok_def calls_ok_def late_ok_def stop_ok_def nonce_ok_def settled_calls_def used_nonces_def timers_armed_def)

lemma transport_ok_timers_off: "transport_ok t \<Longrightarrow> transport_ok (t\<lparr> st_resumeTimer := False \<rparr>)"
  and transport_ok_timers_on: "transport_ok t \<Longrightarrow> \<not> st_stopped t \<Longrightarrow> transport_ok (t\<lparr> st_resumeTimer := True \<rparr>)"
  and transport_ok_heart_on: "transport_ok t \<Longrightarrow> \<not> st_stopped t \<Longrightarrow> transport_ok (t\<lparr> st_heartbeat := True \<rparr>)"
  by (simp_all add: transport_ok_def calls_ok_def late_ok_def stop_ok_def nonce_ok_def settled_calls_def used_nonces_def timers_armed_def)

lemma transport_ok_heartbeat:
  "transport_send refusal (f\<lparr> f_typ := 9 \<rparr>) t = (r, u) \<Longrightarrow> transport_ok t \<Longrightarrow> transport_ok u"
  "transport_send refusal \<lparr> f_version = n, f_typ = 8, f_flags = 0, f_routeId = i, f_payload = p \<rparr> v = (r, u) \<Longrightarrow>
     transport_ok v \<Longrightarrow> transport_ok u"
  by (auto simp: transport_send_def split: option.splits intro: transport_ok_report)

lemma deliver_ok: "deliver su refusal thrown m t = (r, u) \<Longrightarrow> transport_ok t \<Longrightarrow> transport_ok u"
  using transport_ok_deliver [of t su refusal thrown m] by simp

lemma heard_ok: "heard thrown t = (r, u) \<Longrightarrow> transport_ok t \<Longrightarrow> transport_ok u"
  using heard_state [of thrown t] by simp

lemma transport_ok_receive_sealed: "transport_ok t \<Longrightarrow> receive_sealed su refusal thrown f t = (r, u) \<Longrightarrow> transport_ok u"
  by (auto simp: receive_sealed_def Let_def split: sum.splits prod.splits dest!: deliver_ok)

lemma transport_ok_receive_pong: "transport_ok t \<Longrightarrow> receive_pong thrown now f t = (r, u) \<Longrightarrow> transport_ok u"
  by (auto simp: receive_pong_def split: sum.splits if_splits intro: transport_ok_report dest!: heard_ok)

lemma transport_ok_receive_body: "transport_ok t \<Longrightarrow> receive_body su refusal thrown now f t = (r, u) \<Longrightarrow> transport_ok u"
  unfolding receive_body_def
  by (auto split: if_splits sum.splits prod.splits intro!: transport_ok_intros intro: transport_ok_receive_sealed transport_ok_receive_pong
      dest: transport_ok_heartbeat)

lemma transport_ok_receive: "transport_ok t \<Longrightarrow> transport_ok (receive su refusal thrown now f t)"
  by (auto simp: receive_def split: prod.splits sum.splits intro!: transport_ok_intros dest: transport_ok_receive_body)

lemma transport_ok_beat: "transport_ok t \<Longrightarrow> transport_ok (beat refusal now h t)"
  unfolding beat_def Let_def
  by (auto split: sum.splits prod.splits intro!: transport_ok_intros dest!: transport_ok_heartbeat)

lemma transport_ok_visibility: "transport_ok t \<Longrightarrow> transport_ok (setPageHidden now h t)"
  unfolding setPageHidden_def Let_def
  by (auto intro!: transport_ok_report transport_ok_timers_off transport_ok_timers_on)

lemma transport_ok_resume: "transport_ok t \<Longrightarrow> transport_ok (resume_fired h t)"
  unfolding resume_fired_def Let_def by (auto intro!: transport_ok_report transport_ok_timers_off)

lemma transport_ok_step: "transport_ok t \<Longrightarrow> transport_ok (transport_step su i t)"
  by (cases i) (auto intro: transport_ok_rpc transport_ok_rpc_timeout transport_ok_late_expired transport_ok_receive transport_ok_beat
      transport_ok_visibility transport_ok_resume transport_ok_close transport_ok_suspend transport_ok_disconnect)

lemma transport_ok_receive_all: "transport_ok t \<Longrightarrow> transport_ok (receive_all su fs now t)"
  by (induction su fs now t rule: receive_all.induct) (simp_all add: transport_ok_receive)

lemma transport_ok_fresh: "dir_seq (ep_c2s epoch) \<le> 2 ^ 64 \<Longrightarrow> transport_ok (fresh_transport direct epoch h)"
  by (simp add: transport_ok_def fresh_transport_def calls_ok_def late_ok_def stop_ok_def nonce_ok_def settled_calls_def used_nonces_def timers_armed_def)

lemma setPageHidden_stopped [simp]: "st_stopped (setPageHidden now h t) = st_stopped t"
  by (simp add: setPageHidden_def Let_def)

lemma transport_ok_new: "dir_seq (ep_c2s epoch) \<le> 2 ^ 64 \<Longrightarrow> transport_ok (new_transport su direct epoch queued ended refusal now h)"
  unfolding new_transport_def Let_def
  by (auto intro!: transport_ok_beat transport_ok_heart_on transport_ok_visibility transport_ok_disconnect transport_ok_receive_all transport_ok_fresh
      split: option.splits)

lemma transport_reach_ok: "transport_reach su epoch t \<Longrightarrow> dir_seq (ep_c2s epoch) \<le> 2 ^ 64 \<Longrightarrow> transport_ok t"
  by (induction rule: transport_reach.induct) (simp_all add: transport_ok_new transport_ok_step)

section \<open>After the end\<close>

text \<open>A stopped transport sends nothing, emits nothing and resolves nothing.\<close>

fun silent_output :: "st_output \<Rightarrow> bool" where
  "silent_output (Channel_closed n) = True"
| "silent_output (Rejected k e) = True"
| "silent_output _ = False"

lemma stopped_simps:
  assumes "st_stopped t"
  shows "disconnect e t = t" "close_transport t = t" "suspend e t = report (Channel_closed 1001) t"
    "receive su refusal thrown now f t = t" "beat refusal now h t = t" "setPageHidden now h t = t"
    "snd (rpc su refusal thrown random op params b t) = t"
  using assms by (simp_all add: disconnect_def close_transport_def suspend_def receive_def beat_def setPageHidden_def rpc_def)

lemma stopped_stays:
  assumes "st_stopped t"
  shows "st_stopped (transport_step su i t)
    \<and> (\<exists>es. st_out (transport_step su i t) = st_out t @ es \<and> list_all silent_output es)"
proof (cases i)
  case (Rpc_timer k)
  then show ?thesis using assms by (auto simp: rpc_timeout_def Let_def split: option.splits)
next
  case (Late_timer k)
  then show ?thesis using assms by (auto simp: late_expired_def split: option.splits)
next
  case (Resume_timer h)
  then show ?thesis using assms by (auto simp: resume_fired_def Let_def)
qed (use assms in \<open>simp_all add: stopped_simps\<close>)

section \<open>A frame is accepted, or the epoch ends\<close>

lemma JSON_parse_bytes_error: "JSON_parse_bytes pt = Inl e \<Longrightarrow> as_protocol c e = ProtocolError c"
  by (auto simp: JSON_parse_bytes_def decodeUTF8_def as_protocol_def split: if_splits option.splits)

lemma open_payload_error: "open_payload su d r w = Inl e \<Longrightarrow> as_protocol c e = ProtocolError c"
  by (auto simp: open_payload_def aad_def as_protocol_def Let_def split: if_splits option.splits sum.splits)

lemma receive_sealed_cases:
  assumes "receive_sealed su refusal thrown f t = (r, u)"
  obtains (accepted) pt d v m where "f_typ f = Typ_FWD" "f_routeId f = st_routeId t"
      "open_payload su (st_s2c t) (st_routeId t) (f_payload f) = Inr (pt, d)" "JSON_parse_bytes pt = Inr v"
      "validateSessionMessage v = Inr m" "deliver su refusal thrown m (t\<lparr> st_s2c := d \<rparr>) = (r, u)"
    | (failed) e c where "r = Inl e" "as_protocol ''bad_message'' e = ProtocolError c" "c \<in> {''bad_frame'', ''bad_message''}"
      "st_pending u = st_pending t" "st_out u = st_out t" "st_stopped u = st_stopped t"
proof (cases "validateEstablishedFWD f (st_routeId t)")
  case (Inl e)
  then have "as_protocol ''bad_message'' e = ProtocolError ''bad_frame''" by (auto simp: validateEstablishedFWD_def as_protocol_def split: if_splits)
  then show ?thesis using assms Inl failed [of e "''bad_frame''"] by (simp add: receive_sealed_def)
next
  case fwd: (Inr x)
  then have f: "f_typ f = Typ_FWD" "f_routeId f = st_routeId t" by (simp_all add: validateEstablishedFWD_def split: if_splits)
  show ?thesis
  proof (cases "open_payload su (st_s2c t) (st_routeId t) (f_payload f)")
    case (Inl e)
    then show ?thesis using assms fwd open_payload_error [OF Inl] failed [of e "''bad_message''"] by (auto simp: receive_sealed_def)
  next
    case (Inr y)
    obtain pt d where o: "open_payload su (st_s2c t) (st_routeId t) (f_payload f) = Inr (pt, d)" using Inr by (cases y) auto
    show ?thesis
    proof (cases "JSON_parse_bytes pt")
      case (Inl e)
      then show ?thesis using assms fwd o JSON_parse_bytes_error [OF Inl] failed [of e "''bad_message''"] by (auto simp: receive_sealed_def Let_def)
    next
      case v: (Inr v)
      show ?thesis
      proof (cases "validateSessionMessage v")
        case (Inl e)
        then have "as_protocol ''bad_message'' e = ProtocolError ''bad_message''"
          using validateSessionMessage_fails [OF Inl] by (simp add: as_protocol_def)
        then show ?thesis using assms fwd o v Inl failed [of e "''bad_message''"] by (auto simp: receive_sealed_def Let_def)
      next
        case m: (Inr m)
        then show ?thesis using assms fwd f o v accepted by (auto simp: receive_sealed_def Let_def)
      qed
    qed
  qed
qed

lemma disconnect_out:
  "\<not> st_stopped t \<Longrightarrow> st_stopped (disconnect e t) \<and> st_pending (disconnect e t) = []
     \<and> st_out (disconnect e t) = st_out t @ map (\<lambda>(i, k). Rejected k e) (st_pending t) @ [Disconnected e]"
  by (simp add: disconnect_def)

text \<open>Only a function of the application makes the delivery of a checked message fail.\<close>

lemma deliver_fails: "deliver su refusal thrown m t = (Inl e, u) \<Longrightarrow> thrown = Some e"
  by (cases m) (auto simp: deliver_def settle_response_def heard_def Let_def split: option.splits sum.splits)

text \<open>A sealed frame the session takes: its route, its number, its text and its message.\<close>

definition takes :: "suite \<Rightarrow> transport \<Rightarrow> frame \<Rightarrow> direction \<Rightarrow> session_message \<Rightarrow> bool" where
  "takes su t f d m \<longleftrightarrow> f_routeId f = st_routeId t \<and>
     (\<exists>pt v. open_payload su (st_s2c t) (st_routeId t) (f_payload f) = Inr (pt, d) \<and> JSON_parse_bytes pt = Inr v \<and> validateSessionMessage v = Inr m)"

lemma receive_taken:
  assumes "\<not> st_stopped t" and "f_typ f = Typ_FWD" and "takes su t f d m"
  shows "message_ok m \<and> receive su refusal thrown now f t =
    (case deliver su refusal thrown m (t\<lparr> st_s2c := d \<rparr>) of
       (Inr _, u) \<Rightarrow> u
     | (Inl e, u) \<Rightarrow> report (Channel_closed 1002) (disconnect (as_protocol ''bad_message'' e) u))"
proof -
  obtain pt v where x: "f_routeId f = st_routeId t" "open_payload su (st_s2c t) (st_routeId t) (f_payload f) = Inr (pt, d)"
      "JSON_parse_bytes pt = Inr v" "validateSessionMessage v = Inr m"
    using assms(3) by (auto simp: takes_def)
  then have "receive_body su refusal thrown now f t = deliver su refusal thrown m (t\<lparr> st_s2c := d \<rparr>)"
    using assms(2) by (simp add: receive_body_def receive_sealed_def validateEstablishedFWD_def Let_def)
  then show ?thesis using assms(1) validateSessionMessage_ok [OF x(4)] by (simp add: receive_def)
qed

lemma receive_not_taken:
  assumes "\<not> st_stopped t" and "f_typ f = Typ_FWD" and "\<And>d m. \<not> takes su t f d m" and "u = receive su refusal thrown now f t"
  shows "\<exists>c. c \<in> {''bad_frame'', ''bad_message''} \<and> st_stopped u \<and> st_pending u = []
    \<and> st_out u = st_out t @ map (\<lambda>(i, k). Rejected k (ProtocolError c)) (st_pending t) @ [Disconnected (ProtocolError c), Channel_closed 1002]"
proof -
  obtain r v where r: "receive_sealed su refusal thrown f t = (r, v)" by (cases "receive_sealed su refusal thrown f t")
  have body: "receive_body su refusal thrown now f t = (r, v)" using assms(2) r by (simp add: receive_body_def)
  show ?thesis using r
  proof (cases rule: receive_sealed_cases)
    case (accepted pt d w m)
    then show ?thesis using assms(3) [of d m] by (auto simp: takes_def)
  next
    case (failed e c)
    then have "u = report (Channel_closed 1002) (disconnect (ProtocolError c) v)" using assms(1,4) body by (simp add: receive_def)
    then show ?thesis using failed assms(1) disconnect_out [of v "ProtocolError c"] by (intro exI [of _ c]) simp
  qed
qed

end
