(* ===== verification/ClientDemo.thy ===== *)
theory ClientDemo
  imports ClientTransport
begin

text \<open>
  A concrete set of primitives and a concrete handshake, for the witnesses of the phone's properties. The cipher
  appends a tag of sixteen zero bytes, which is sound and rejects everything else; it protects nothing.
\<close>

definition pad_to :: "nat \<Rightarrow> byte list \<Rightarrow> byte list" where
  "pad_to n bs = take n (bs @ replicate n 0)"

definition demo_suite :: suite where
  "demo_suite =
     \<lparr> hkdf_sha256 = (\<lambda>ikm salt info n. pad_to n (drop 11 info)),
       hmac_sha256 = (\<lambda>k m. pad_to 32 (drop 8 m)),
       sha256_of = pad_to 32,
       ed25519_verify = (\<lambda>sig msg pk. sig = pad_to 64 pk),
       x25519_public = pad_to 32,
       x25519_shared = (\<lambda>sk pk. if pk = replicate 32 0 then None else Some (pad_to 32 pk)),
       chacha_encrypt = (\<lambda>k n a p. if length k = 32 \<and> length n = 12 then Some (p @ replicate 16 0) else None),
       chacha_decrypt = (\<lambda>k n a c. if length c \<ge> 16 \<and> drop (length c - 16) c = replicate 16 0 then Some (take (length c - 16) c) else None) \<rparr>"

definition demo_route :: "byte list" where
  "demo_route = replicate 15 0 @ [7]"

definition demo_pair :: pair_result where
  "demo_pair = \<lparr> pr_daemonId = ''d'', pr_deviceId = ''p'', pr_psk = replicate 32 1, pr_daemonPk = replicate 32 2 \<rparr>"

definition demo_nonce :: "byte list" where
  "demo_nonce = replicate 16 3"

definition demo_transcript :: "byte list" where
  "demo_transcript = transcriptD ''d'' ''p'' (pad_to 32 [4]) (pad_to 32 [5]) demo_nonce 9 demo_route"

definition demo_hello2 :: frame where
  "demo_hello2 =
     \<lparr> f_version = 1, f_typ = Typ_FWD, f_flags = 0, f_routeId = demo_route,
       f_payload = text_bytes (print_json (JObj [(''op'', JStr ''DeviceHello2''), (''ok'', JBool True),
         (''eph_x25519'', JStr (b64url (pad_to 32 [5]))), (''proof_d'', JStr (b64url (pad_to 32 (drop 8 demo_transcript)))),
         (''sig_d'', JStr (b64url (pad_to 64 (replicate 32 2)))), (''ts'', JNum 9)])) \<rparr>"

definition demo_established :: frame where
  "demo_established =
     \<lparr> f_version = 1, f_typ = Typ_SESSION_ESTABLISHED, f_flags = 0, f_routeId = demo_route,
       f_payload = text_bytes (print_json (JObj [(''v'', JNum 1), (''route_id'', JStr (pwa_bytesToHex demo_route))])) \<rparr>"

definition demo_handshake :: hs where
  "demo_handshake =
     \<lparr> hs_refusals = [], hs_arrivals = [(40, Inr demo_hello2), (60, Inr demo_established)], hs_clock = 1000, hs_trace = [] \<rparr>"

definition demo_epoch :: session_epoch where
  "demo_epoch =
     \<lparr> ep_routeId = demo_route, ep_c2s = new_direction (pad_to 32 (text_bytes ''sess-c2s'')) DIR_C,
       ep_s2c = new_direction (pad_to 32 (text_bytes ''sess-s2c'')) DIR_S \<rparr>"

lemma length_pad_to [simp]: "length (pad_to n bs) = n"
  by (simp add: pad_to_def)

lemma demo_sound: "sound_suite demo_suite"
  by (simp add: sound_suite_def demo_suite_def)

definition demo_h1 :: frame where
  "demo_h1 =
     \<lparr> f_version = 1, f_typ = Typ_FWD, f_flags = 0, f_routeId = demo_route,
       f_payload = text_bytes (print_json (DeviceHello1 demo_pair (pad_to 32 [4]) demo_nonce)) \<rparr>"

definition demo_h3 :: frame where
  "demo_h3 =
     \<lparr> f_version = 1, f_typ = Typ_FWD, f_flags = 0, f_routeId = demo_route,
       f_payload = text_bytes (print_json (DeviceHello3 demo_suite demo_pair demo_transcript)) \<rparr>"

text \<open>Texts without quotes, backslashes and control characters are printed as they are.\<close>

definition plain_char :: "char \<Rightarrow> bool" where
  "plain_char c \<longleftrightarrow> 32 \<le> (of_char c :: nat) \<and> (of_char c :: nat) < 128 \<and> c \<noteq> CHR 0x22 \<and> c \<noteq> CHR 0x5C"

definition ascii :: "string \<Rightarrow> bool" where
  "ascii s \<longleftrightarrow> list_all (\<lambda>c. (of_char c :: nat) < 128) s"

lemma ascii_simps [simp]: "ascii []" "ascii (c # cs) \<longleftrightarrow> (of_char c :: nat) < 128 \<and> ascii cs" "ascii (xs @ ys) \<longleftrightarrow> ascii xs \<and> ascii ys"
  by (simp_all add: ascii_def)

lemma escape_plain: "plain_char c \<Longrightarrow> escape_char c = [c]"
  by (auto simp: plain_char_def escape_char_def)

lemma quote_plain: "list_all plain_char s \<Longrightarrow> json_quote s = [CHR 0x22] @ s @ [CHR 0x22]"
  by (induction s) (simp_all add: json_quote_def escape_plain)

lemma plain_ascii: "list_all plain_char s \<Longrightarrow> ascii s"
  by (induction s) (simp_all add: plain_char_def)

lemma plain_b64url: "list_all plain_char (b64url bs)"
proof -
  have "list_all plain_char B64" by code_simp
  then show ?thesis using b64url_alphabet [of bs] by (auto simp: list_all_iff)
qed

lemma text_bytes_ascii: "ascii s \<Longrightarrow> list_all (\<lambda>b. b \<le> 0x7F) (text_bytes s)"
  by (induction s) (simp_all add: text_bytes_def word_le_nat_alt unat_of_nat)

lemma length_text_bytes [simp]: "length (text_bytes s) = length s"
  by (simp add: text_bytes_def)

lemma js_String_digit: "js_String 1 = ''1''" "js_String 9 = ''9''"
  by code_simp+

lemma plain_texts:
  "list_all plain_char ''v''" "list_all plain_char ''op''" "list_all plain_char ''ok''" "list_all plain_char ''ts''"
  "list_all plain_char ''d''" "list_all plain_char ''p''" "list_all plain_char ''nonce''" "list_all plain_char ''route_id''"
  "list_all plain_char ''device_id''" "list_all plain_char ''daemon_id''" "list_all plain_char ''eph_x25519''"
  "list_all plain_char ''proof_d''" "list_all plain_char ''proof_p''" "list_all plain_char ''sig_d''"
  "list_all plain_char ''DeviceHello1''" "list_all plain_char ''DeviceHello2''" "list_all plain_char ''DeviceHello3''"
  by code_simp+

lemmas printing = plain_texts [THEN quote_plain] plain_b64url [THEN quote_plain] plain_b64url [THEN plain_ascii] js_String_digit

lemma b64_lengths:
  "length (b64url (pad_to 32 [4])) < 100" "length (b64url demo_nonce) < 100"
  "length (b64url (proof_of demo_suite (pr_psk demo_pair) (transcriptP demo_transcript))) < 100"
  using b64_length [of "pad_to 32 [4]"] b64_length [of demo_nonce]
    b64_length [of "proof_of demo_suite (pr_psk demo_pair) (transcriptP demo_transcript)"]
  by (simp_all add: demo_nonce_def proof_of_def demo_suite_def)

text \<open>The handshake succeeds and gives the epoch of these primitives.\<close>

lemma demo_frames:
  "jsonFrame Typ_FWD demo_route (DeviceHello1 demo_pair (pad_to 32 [4]) demo_nonce) = Inr demo_h1"
  "jsonFrame Typ_FWD demo_route (DeviceHello3 demo_suite demo_pair demo_transcript) = Inr demo_h3"
  by (simp_all add: jsonFrame_def pwa_validateFrame_def pwa_KNOWN_TYPES_def demo_h1_def demo_h3_def demo_route_def DeviceHello1_def
      DeviceHello3_def demo_pair_def [THEN arg_cong, of pr_deviceId] demo_pair_def [THEN arg_cong, of pr_daemonId] printing)
    (use b64_lengths in linarith)+

lemma demo_hello2_read:
  "read_hello2 demo_hello2 demo_route = Inr (pad_to 32 [5], pad_to 32 (drop 8 demo_transcript), pad_to 64 (replicate 32 2), 9)"
proof -
  let ?v = "JObj [(''op'', JStr ''DeviceHello2''), (''ok'', JBool True), (''eph_x25519'', JStr (b64url (pad_to 32 [5]))),
    (''proof_d'', JStr (b64url (pad_to 32 (drop 8 demo_transcript)))), (''sig_d'', JStr (b64url (pad_to 64 (replicate 32 2)))), (''ts'', JNum 9)]"
  have "ascii (print_json ?v)" by (simp add: printing)
  then have "list_all (\<lambda>b. b \<le> 0x7F) (text_bytes (print_json ?v))" by (rule text_bytes_ascii)
  then have "parseJSON demo_hello2 = Inr ?v" by (simp add: parseJSON_def demo_hello2_def JSON_parse_bytes_print del: print_json.simps)
  moreover have "pad_to 32 x \<noteq> []" "pad_to 64 x \<noteq> []" for x using length_pad_to [of 32 x] length_pad_to [of 64 x] by (metis list.size(3) zero_neq_numeral)+
  ultimately show ?thesis
    using parseExactB64_encoded [of "pad_to 32 [5]"] parseExactB64_encoded [of "pad_to 32 (drop 8 demo_transcript)"]
      parseExactB64_encoded [of "pad_to 64 (replicate 32 2)"]
    by (simp add: read_hello2_def demo_hello2_def jget_def truthy_def isSafeInteger_def int_of_def)
qed

lemma demo_established_read: "wait_frame demo_route V1 demo_established = Done"
proof -
  let ?v = "JObj [(''v'', JNum 1), (''route_id'', JStr (pwa_bytesToHex demo_route))]"
  have "list_all plain_char (pwa_bytesToHex demo_route)" by code_simp
  from quote_plain [OF this] plain_ascii [OF this] have "ascii (print_json ?v)" by (simp add: printing)
  then have "list_all (\<lambda>b. b \<le> 0x7F) (text_bytes (print_json ?v))" by (rule text_bytes_ascii)
  then have "parseJSON demo_established = Inr ?v" by (simp add: parseJSON_def demo_established_def JSON_parse_bytes_print del: print_json.simps)
  then show ?thesis by (simp add: wait_frame_def validateSessionEstablished_def demo_established_def property_of_def jget_def)
qed

lemma demo_verified: "hello2_verified demo_suite demo_pair demo_transcript (pad_to 32 (drop 8 demo_transcript), pad_to 64 (replicate 32 2)) = Inr ()"
  by (simp add: hello2_verified_iff demo_suite_def demo_pair_def)

lemma demo_keys:
  "x25519_shared demo_suite [4] (pad_to 32 [5]) = Some (pad_to 32 (pad_to 32 [5]))"
  "sessionKeys demo_suite (pad_to 32 (pad_to 32 [5])) (pr_psk demo_pair) = Inr (pad_to 32 (text_bytes ''sess-c2s''), pad_to 32 (text_bytes ''sess-s2c''))"
  by code_simp+

lemma demo_handshake_ok:
  "establishSessionEpoch demo_suite demo_route demo_pair V1 [4] demo_nonce demo_handshake =
     (Inr demo_epoch, \<lparr> hs_refusals = [], hs_arrivals = [], hs_clock = 1100,
        hs_trace = [Sent demo_h1, Received demo_hello2, Observed ''hello_verified'', Sent demo_h3, Received demo_established,
                    Observed ''session_established''] \<rparr>)"
proof -
  have pub: "x25519_public demo_suite [4] = pad_to 32 [4]" by (simp add: demo_suite_def)
  have tr: "transcriptD (pr_daemonId demo_pair) (pr_deviceId demo_pair) (pad_to 32 [4]) (pad_to 32 [5]) demo_nonce 9 demo_route = demo_transcript"
    by (simp add: demo_transcript_def demo_pair_def)
  show ?thesis
    by (simp add: establishSessionEpoch_def finish_handshake_def pub tr demo_frames [simplified] Let_def demo_hello2_read demo_verified demo_keys
        hs_try_def hs_bind_def hs_ret_def hs_observe_def hs_log_def channel_send_def channel_next_def demo_handshake_def
        waitSessionEstablished_def wait_loop.simps demo_established_read demo_epoch_def)
qed

text \<open>A sealed message the session takes.\<close>

definition demo_poke :: json where
  "demo_poke = JObj [(''v'', JNum 1), (''op'', JStr ''Poke''), (''params'', JObj [(''reason'', JStr ''herdr_online'')])]"

lemma demo_poke_read:
  "JSON_parse_bytes (text_bytes (print_json demo_poke)) = Inr demo_poke"
  "validateSessionMessage demo_poke = Inr (Poke ''herdr_online'' None)"
proof -
  have plain: "list_all plain_char ''op''" "list_all plain_char ''Poke''" "list_all plain_char ''params''" "list_all plain_char ''reason''"
    "list_all plain_char ''herdr_online''" "list_all plain_char ''v''" by code_simp+
  have "ascii (print_json demo_poke)" by (simp add: demo_poke_def plain [THEN quote_plain] printing)
  then have "list_all (\<lambda>b. b \<le> 0x7F) (text_bytes (print_json demo_poke))" by (rule text_bytes_ascii)
  then show "JSON_parse_bytes (text_bytes (print_json demo_poke)) = Inr demo_poke"
    by (simp add: JSON_parse_bytes_print demo_poke_def del: print_json.simps)
  show "validateSessionMessage demo_poke = Inr (Poke ''herdr_online'' None)" by code_simp
qed

lemma demo_poke_taken:
  "\<exists>w d. takes demo_suite (fresh_transport False demo_epoch False)
     \<lparr> f_version = 1, f_typ = Typ_FWD, f_flags = 0, f_routeId = demo_route, f_payload = w \<rparr> d (Poke ''herdr_online'' None)"
proof -
  let ?d = "ep_s2c demo_epoch" and ?m = "text_bytes (print_json demo_poke)"
  have d: "length (dir_key ?d) = 32" "dir_dir ?d = DIR_S" "dir_seq ?d = 0" by (simp_all add: demo_epoch_def new_direction_def)
  have "length (print_json demo_poke) \<le> 60" by code_simp
  then obtain w where "seal demo_suite ?d demo_route ?m = Inr (w, ?d\<lparr> dir_seq := dir_seq ?d + 1 \<rparr>)"
    using seal_succeeds [OF demo_sound d(1), of demo_route ?m] d by (auto simp: demo_route_def)
  from open_seal [OF demo_sound d(1) this refl refl] show ?thesis
    using demo_poke_read by (auto simp: takes_def fresh_transport_def demo_epoch_def)
qed

end
