(* ===== verification/ClientPairDemo.thy ===== *)
theory ClientPairDemo
  imports ClientPairing ClientDemo
begin

text \<open>
  A group of order three in the place of the curve, and a pairing that runs over it, for the witnesses.
\<close>

datatype point3 = P0 | P1 | P2

fun add3 :: "point3 \<Rightarrow> point3 \<Rightarrow> point3" where
  "add3 P0 q = q"
| "add3 p P0 = p"
| "add3 P1 P1 = P2"
| "add3 P2 P2 = P1"
| "add3 P1 P2 = P0"
| "add3 P2 P1 = P0"

fun neg3 :: "point3 \<Rightarrow> point3" where
  "neg3 P0 = P0"
| "neg3 P1 = P2"
| "neg3 P2 = P1"

primrec times3 :: "nat \<Rightarrow> point3 \<Rightarrow> point3" where
  "times3 0 p = P0"
| "times3 (Suc k) p = add3 p (times3 k p)"

fun raw3 :: "point3 \<Rightarrow> byte list option" where
  "raw3 P0 = None"
| "raw3 P1 = Some (4 # replicate 63 0 @ [1])"
| "raw3 P2 = Some (4 # replicate 63 0 @ [2])"

lemma last_hexToBytes:
  assumes "length h = 2 * Suc k"
  shows "last (pwa_hexToBytes h) = (case parseInt16 (drop (2 * k) h) of None \<Rightarrow> 0 | Some n \<Rightarrow> word_of_int n)"
  using assms by (simp add: pwa_hexToBytes_def)

lemma masks:
  "length M_bytes = 65" "length N_bytes = 65" "last M_bytes = 0x20" "last N_bytes = 0xe7"
proof -
  have "parseInt16 ''20'' = Some 0x20" "parseInt16 ''e7'' = Some 0xe7" by code_simp+
  then show "last M_bytes = 0x20" "last N_bytes = 0xe7" by (simp_all add: M_bytes_def N_bytes_def last_hexToBytes [where k = 64])
  show "length M_bytes = 65" "length N_bytes = 65" by (simp_all add: M_bytes_def N_bytes_def pwa_hexToBytes_def)
qed

definition demo_curve :: "point3 curve" where
  "demo_curve =
     \<lparr> point_fromHex = (\<lambda>b. if length b \<noteq> 65 then None else if last b = 2 then Some P2 else Some P1),
       point_toRawBytes = raw3, point_BASE = P1, point_ZERO = P0, point_add = add3, point_negate = neg3,
       point_multiply = (\<lambda>p k. if 1 \<le> k \<and> k < 3 then Some (times3 k p) else None), curve_n = 3 \<rparr>"

lemma times_of_demo: "times_of demo_curve k p = times3 k p"
  by (induction k) (simp_all add: demo_curve_def)

lemma three_prime: "3 dvd a * b \<Longrightarrow> 3 dvd a \<or> 3 dvd (b :: nat)"
proof -
  assume "3 dvd a * b"
  then have "(a mod 3) * (b mod 3) mod 3 = 0" by (simp add: mod_mult_eq dvd_eq_mod_eq_0)
  moreover have "a mod 3 = 0 \<or> a mod 3 = 1 \<or> a mod 3 = 2" "b mod 3 = 0 \<or> b mod 3 = 1 \<or> b mod 3 = 2" by auto
  ultimately show ?thesis by (auto simp: dvd_eq_mod_eq_0)
qed

lemma demo_curve_sound: "sound_curve demo_curve"
proof -
  have "add3 (add3 p q) r = add3 p (add3 q r)" "add3 p q = add3 q p" "add3 p (neg3 p) = P0" "times3 3 p = P0" "add3 p P0 = p" for p q r
    by (cases p; cases q; cases r; simp add: numeral_3_eq_3)+
  moreover have "(raw3 p = None) = (p = P0)" for p by (cases p) simp_all
  moreover have "raw3 p = Some b \<Longrightarrow> length b = 65 \<and> (if last b = 2 then Some P2 else Some P1) = Some p" for p b by (cases p) auto
  ultimately show ?thesis
    unfolding sound_curve_def times_of_demo using three_prime by (simp add: demo_curve_def masks)
qed

definition demo_argon :: argon where
  "demo_argon = (\<lambda>password salt p i m n. replicate 39 0 @ [1] @ replicate 39 0 @ [1])"

definition demo_record :: spake_record where
  "demo_record = \<lparr> sr_w0 = 1, sr_w1 = 1, sr_L = 4 # replicate 63 0 @ [1] \<rparr>"

definition demo_prover :: prover where
  "demo_prover = \<lparr> pv_rec = demo_record, pv_idP = ''phone'', pv_idV = ''d'', pv_x = 1, pv_shareP = 4 # replicate 63 0 @ [2] \<rparr>"

lemma demo_spake:
  "deriveRecord demo_suite demo_argon demo_curve s d r = Inr demo_record"
  "prover_start demo_curve demo_record p v [1] = Inr (demo_prover\<lparr> pv_idP := p, pv_idV := v \<rparr>)"
  "verifier_points demo_curve 1 (4 # replicate 63 0 @ [1]) (4 # replicate 63 0 @ [2]) 1
     = Inr (4 # replicate 63 0 @ [2], 4 # replicate 63 0 @ [1], 4 # replicate 63 0 @ [1])"
  "prover_points demo_curve demo_prover (4 # replicate 63 0 @ [2]) = Inr (4 # replicate 63 0 @ [1], 4 # replicate 63 0 @ [1])"
proof -
  have w: "os2ipMod 3 (replicate 39 0 @ [1]) = 1" "os2ipMod 3 [1] = 1" by code_simp+
  have mn: "point_fromHex demo_curve M_bytes = Some P1" "point_fromHex demo_curve N_bytes = Some P1" by (simp_all add: demo_curve_def masks)
  note defs = or_throw_def uncomp_def pointMul_def bindF_def Let_def
  show "deriveRecord demo_suite demo_argon demo_curve s d r = Inr demo_record"
    using w by (simp add: deriveRecord_def demo_argon_def demo_curve_def demo_record_def defs)
  show "prover_start demo_curve demo_record p v [1] = Inr (demo_prover\<lparr> pv_idP := p, pv_idV := v \<rparr>)"
    using w mn by (simp add: prover_start_def demo_curve_def demo_record_def demo_prover_def defs)
  show "verifier_points demo_curve 1 (4 # replicate 63 0 @ [1]) (4 # replicate 63 0 @ [2]) 1
     = Inr (4 # replicate 63 0 @ [2], 4 # replicate 63 0 @ [1], 4 # replicate 63 0 @ [1])"
    using mn by (simp add: verifier_points_def go_pointMul_def demo_curve_def defs)
  show "prover_points demo_curve demo_prover (4 # replicate 63 0 @ [2]) = Inr (4 # replicate 63 0 @ [1], 4 # replicate 63 0 @ [1])"
    using mn by (simp add: prover_points_def demo_curve_def demo_prover_def demo_record_def defs)
qed

section \<open>A pairing\<close>

definition demo_daemon :: string where
  "demo_daemon = ''d_00000000000000000000''"

definition demo_keys_pair :: spake_keys where
  "demo_keys_pair = \<lparr> sk_shared = replicate 32 0, sk_confirmP = replicate 32 0, sk_confirmV = replicate 32 0 \<rparr>"

definition demo_attached :: frame where
  "demo_attached =
     \<lparr> f_version = 1, f_typ = Typ_PAIR_ATTACHED, f_flags = 0, f_routeId = demo_route,
       f_payload = text_bytes (print_json (JObj [(''daemon_id'', JStr demo_daemon), (''pair_ref'', JStr (replicate 32 (CHR ''0'')))])) \<rparr>"

definition demo_shareV :: frame where
  "demo_shareV =
     \<lparr> f_version = 1, f_typ = Typ_FWD, f_flags = 0, f_routeId = demo_route,
       f_payload = text_bytes (print_json (JObj [(''op'', JStr ''SpakeShareV''), (''share'', JStr (b64url (4 # replicate 63 0 @ [2]))),
         (''confirm_v'', JStr (b64url (replicate 32 0)))])) \<rparr>"

definition demo_confirm :: json where
  "demo_confirm = JObj [(''op'', JStr ''ConfirmPairing''), (''id'', JStr ''i''),
     (''params'', JObj [(''sas'', JStr ''w-w''), (''daemon_id'', JStr demo_daemon), (''daemon_pk'', JStr (b64url (replicate 32 2))),
        (''device_psk'', JStr (b64url (replicate 32 1))), (''fp'', JStr (b64url (replicate 16 2))), (''device_id'', JStr ''dev_aaaaaaaa'')])]"

definition demo_confirm_frame :: frame where
  "demo_confirm_frame =
     \<lparr> f_version = 1, f_typ = Typ_FWD, f_flags = 0, f_routeId = demo_route,
       f_payload = replicate 12 0 @ text_bytes (print_json demo_confirm) @ replicate 16 0 \<rparr>"

definition demo_pair_env :: "point3 pair_env" where
  "demo_pair_env =
     \<lparr> pe_suite = demo_suite, pe_argon = demo_argon, pe_curve = demo_curve, pe_evenWords = replicate 256 ''w'', pe_oddWords = replicate 256 ''w'',
       pe_origin = Inr ''o'', pe_protocol = V1, pe_ticket = False, pe_open = Inr (), pe_expectedDaemonId = None,
       pe_expectedFingerprint = None, pe_label = Some [97], pe_random = [1], pe_hashMs = 500 \<rparr>"

definition demo_pairing :: pairing where
  "demo_pairing =
     \<lparr> ps_channel = \<lparr> hs_refusals = [], hs_arrivals = [(40, Inr demo_attached), (60, Inr demo_shareV), (90, Inr demo_confirm_frame)],
                      hs_clock = 1000, hs_trace = [] \<rparr>,
       ps_beat = None, ps_counter = 0, ps_abort = None, ps_opened = False, ps_closed = False \<rparr>"

text \<open>A state of the pairing: what is still to arrive, the time, the trace and the heartbeat.\<close>

definition demo_at :: "(number \<times> frame fallible) list \<Rightarrow> number \<Rightarrow> hs_event list \<Rightarrow> number option \<Rightarrow> pairing" where
  "demo_at arrivals now trace tick =
     \<lparr> ps_channel = \<lparr> hs_refusals = [], hs_arrivals = arrivals, hs_clock = now, hs_trace = trace \<rparr>,
       ps_beat = tick, ps_counter = 0, ps_abort = None, ps_opened = True, ps_closed = False \<rparr>"

lemma jsonFrame_ok:
  assumes "length r = 16" and "typ \<in> set pwa_KNOWN_TYPES" and "length (print_json v) \<le> 262144"
  shows "jsonFrame typ r v = Inr \<lparr> f_version = 1, f_typ = typ, f_flags = 0, f_routeId = r, f_payload = text_bytes (print_json v) \<rparr>"
  using assms by (simp add: jsonFrame_def pwa_validateFrame_def)

lemma demo_at_send: "ps_send f (demo_at as now tr b) = (Inr (), demo_at as now (tr @ [Sent f]) b)"
  by (simp add: ps_send_def on_channel_def channel_send_def demo_at_def hs_log_def)

lemma demo_at_beats: "now < u \<Longrightarrow> beats r now (demo_at as t tr (Some u)) = demo_at as t tr (Some u)"
  "beats r now (demo_at as t tr None) = demo_at as t tr None"
  by (simp_all add: beats_def beats_due_def demo_at_def)

lemma demo_at_next:
  assumes "0 \<le> d" and "d < n" and "now + d < u"
  shows "ps_next r n (demo_at ((d, Inr f) # as) now tr (Some u)) = (Inr f, demo_at as (now + d) (tr @ [Received f]) (Some u))"
proof -
  have "hs_clock (snd (channel_next n (ps_channel (demo_at ((d, Inr f) # as) now tr (Some u))))) = now + d"
    using assms by (simp add: channel_next_def demo_at_def hs_log_def)
  then have "ps_next r n (demo_at ((d, Inr f) # as) now tr (Some u)) = on_channel (channel_next n) (demo_at ((d, Inr f) # as) now tr (Some u))"
    using assms by (simp add: ps_next_def demo_at_beats)
  then show ?thesis using assms by (simp add: on_channel_def channel_next_def demo_at_def hs_log_def)
qed

lemma demo_at_wait:
  assumes "0 \<le> d" and "d < n" and "now + d < u"
  shows "ps_wait l r n (demo_at ((d, Inr f) # as) now tr (Some u)) = (Inr f, demo_at as (now + d) (tr @ [Received f]) (Some u))"
  using demo_at_next [OF assms, of r f as tr] by (simp add: ps_wait_def listening_next_def Let_def) (simp add: demo_at_def)

lemma demo_at_loop:
  assumes "0 \<le> d" and "1 \<le> w" and "d < w" and "now + d < u" and "act f = Return a"
  shows "pair_loop l r act (now + w) (demo_at ((d, Inr f) # as) now tr (Some u)) = (Inr a, demo_at as (now + d) (tr @ [Received f]) (Some u))"
proof -
  have "\<not> aborted (demo_at as' t tr' b)" "ps_clock (demo_at as' t tr' b) = t" for as' t tr' b
    by (simp_all add: aborted_def demo_at_def ps_clock_def)
  then show ?thesis using assms by (simp add: pair_loop.simps [of l r act] demo_at_wait)
qed

lemma demo_texts:
  "list_all plain_char demo_daemon" "list_all plain_char (replicate 32 (CHR ''0''))" "list_all plain_char ''share''" "list_all plain_char ''confirm_v''"
  "list_all plain_char ''confirm_p''" "list_all plain_char ''SpakeShareP''" "list_all plain_char ''SpakeShareV''" "list_all plain_char ''SpakeConfirmP''"
  "list_all plain_char ''pair_ref''" "list_all plain_char ''ConfirmPairing''" "list_all plain_char ''id''" "list_all plain_char ''i''"
  "list_all plain_char ''params''" "list_all plain_char ''sas''" "list_all plain_char ''w-w''" "list_all plain_char ''daemon_pk''"
  "list_all plain_char ''device_psk''" "list_all plain_char ''fp''" "list_all plain_char ''dev_aaaaaaaa''" "list_all plain_char ''protocol''"
  "list_all plain_char ''ok''" "list_all plain_char ''result''" "list_all plain_char ''label''" "list_all plain_char ''a''"
  by code_simp+

lemmas pair_printing = demo_texts [THEN quote_plain] demo_texts [THEN plain_ascii] printing

lemma parse_printed: "integral v \<Longrightarrow> ascii (print_json v) \<Longrightarrow> JSON_parse_bytes (text_bytes (print_json v)) = Inr v"
  by (rule JSON_parse_bytes_print) (auto intro: text_bytes_ascii)

lemma demo_attached_json:
  "parseJSON demo_attached = Inr (JObj [(''daemon_id'', JStr demo_daemon), (''pair_ref'', JStr (replicate 32 (CHR ''0'')))])"
  by code_simp

lemma demo_shareV_json:
  "parseJSON demo_shareV = Inr (JObj [(''op'', JStr ''SpakeShareV''), (''share'', JStr (b64url (4 # replicate 63 0 @ [2]))),
     (''confirm_v'', JStr (b64url (replicate 32 0)))])"
proof -
  have "ascii (print_json (JObj [(''op'', JStr ''SpakeShareV''), (''share'', JStr (b64url (4 # replicate 63 0 @ [2]))), (''confirm_v'', JStr (b64url (replicate 32 0)))]))"
    by (simp add: pair_printing)
  then show ?thesis by (simp add: parseJSON_def demo_shareV_def parse_printed del: print_json.simps)
qed

lemma demo_confirm_ascii: "ascii (print_json demo_confirm)"
  unfolding demo_confirm_def by (simp add: pair_printing)

lemma demo_lengths:
  "length (print_json (SpakeShareP (4 # replicate 63 0 @ [2]))) \<le> 262144"
  "length (print_json (SpakeConfirmP (replicate 32 0))) \<le> 262144"
  using b64_length [of "4 # replicate 63 0 @ [2]"] b64_length [of "replicate 32 0"]
  by (simp_all add: SpakeShareP_def SpakeConfirmP_def pair_printing)

lemma demo_finish: "prover_finish demo_suite demo_curve (demo_prover\<lparr> pv_idP := p, pv_idV := v \<rparr>) (4 # replicate 63 0 @ [2]) = Inr demo_keys_pair"
proof -
  have "prover_points demo_curve (demo_prover\<lparr> pv_idP := p, pv_idV := v \<rparr>) (4 # replicate 63 0 @ [2]) = Inr (4 # replicate 63 0 @ [1], 4 # replicate 63 0 @ [1])"
    using demo_spake(4) by (simp add: prover_points_def)
  moreover have "pad32 1 = Inr (replicate 31 0 @ [1])" by (simp add: pad32_def hex_bytes.simps)
  moreover have "text_bytes ''SharedKey'' = drop 0 (text_bytes ''SharedKey'')" "length (text_bytes ''SharedKey'') = 9" by simp_all
  ultimately show ?thesis
    by (simp add: prover_finish_def computeKeys_def spake_transcript_def keys_of_transcript_def bindF_def Let_def demo_prover_def demo_record_def
        demo_keys_pair_def demo_suite_def pairfobHKDF_def pad_to_def)
qed

lemma demo_send_json:
  assumes "length r = 16" and "typ \<in> set pwa_KNOWN_TYPES" and "length (print_json v) \<le> 262144"
  shows "\<exists>ev. send_json typ r v (demo_at as now tr b) = (Inr (), demo_at as now (tr @ [ev]) b)"
  by (auto simp: send_json_def ps_try_def jsonFrame_ok [OF assms] demo_at_send)

lemma demo_attach: "\<exists>tr. pair_attach demo_pair_env None demo_pairing =
    (Inr demo_attached, demo_at [(60, Inr demo_shareV), (90, Inr demo_confirm_frame)] 1040 tr None)"
proof -
  let ?as = "[(60, Inr demo_shareV), (90, Inr demo_confirm_frame)] :: (number \<times> frame fallible) list"
  have z: "length Z16 = 16" "Typ_HELLO_CLIENT \<in> set pwa_KNOWN_TYPES" "Typ_PAIR_ATTACH \<in> set pwa_KNOWN_TYPES"
    by (simp_all add: Z16_def pwa_KNOWN_TYPES_def)
  have l: "length (print_json (helloClientBody V1)) \<le> 262144" "length (print_json (JObj [(''v'', JNum 1)])) \<le> 262144"
    by (simp_all add: helloClientBody_def pair_printing)
  have start: "demo_pairing\<lparr> ps_opened := True \<rparr> = demo_at ((40, Inr demo_attached) # ?as) 1000 [] None"
    by (simp add: demo_pairing_def demo_at_def)
  obtain e1 where h: "send_json Typ_HELLO_CLIENT Z16 (helloClientBody V1) (demo_pairing\<lparr> ps_opened := True \<rparr>) = (Inr (), demo_at ((40, Inr demo_attached) # ?as) 1000 ([] @ [e1]) None)"
    using demo_send_json [OF z(1,2) l(1)] unfolding start by blast
  obtain e2 where a: "send_json Typ_PAIR_ATTACH Z16 (JObj [(''v'', JNum 1)]) (demo_at ((40, Inr demo_attached) # ?as) 1000 ([] @ [e1]) None)
      = (Inr (), demo_at ((40, Inr demo_attached) # ?as) 1000 (([] @ [e1]) @ [e2]) None)"
    using demo_send_json [OF z(1,3) l(2)] by blast
  have n: "on_channel (channel_next 8000) (demo_at ((40, Inr demo_attached) # ?as) 1000 tr None) = (Inr demo_attached, demo_at ?as 1040 (tr @ [Received demo_attached]) None)" for tr
    by (simp add: on_channel_def channel_next_def demo_at_def hs_log_def)
  have env: "pe_protocol demo_pair_env = V1" "pe_open demo_pair_env = Inr ()" by (simp_all add: demo_pair_env_def)
  have t: "f_typ demo_attached = Typ_PAIR_ATTACHED" "Typ_PAIR_ATTACHED \<noteq> Typ_ERROR" by (simp_all add: demo_attached_def)
  have "pair_attach demo_pair_env None demo_pairing = (Inr demo_attached, demo_at ?as 1040 ((([] @ [e1]) @ [e2]) @ [Received demo_attached]) None)"
    unfolding pair_attach_def env ps_try_def ps_bind_def ps_modify_def
    by (simp only: require_def nonempty_def pairAttachBody_def mux_protocol.distinct mux_protocol.case if_False if_True simp_thms sum.case prod.case option.case Let_def h a n t ps_ret_def)
  then show ?thesis by blast
qed

lemma demo_exchange: "\<exists>tr'. pair_exchange demo_pair_env None code demo_attached (demo_at [(60, Inr demo_shareV), (90, Inr demo_confirm_frame)] 1040 tr None) =
    (Inr (demo_daemon, demo_keys_pair), demo_at [(90, Inr demo_confirm_frame)] 1600 tr' (Some 26040))"
proof -
  let ?as = "[(90, Inr demo_confirm_frame)] :: (number \<times> frame fallible) list"
  let ?pv = "demo_prover\<lparr> pv_idP := idProver (replicate 32 (CHR ''0'')), pv_idV := demo_daemon \<rparr>"
  have r: "f_routeId demo_attached = demo_route" "length demo_route = 16" by (simp_all add: demo_attached_def demo_route_def)
  have env: "pe_suite demo_pair_env = demo_suite" "pe_argon demo_pair_env = demo_argon" "pe_curve demo_pair_env = demo_curve"
    "pe_random demo_pair_env = [1]" "pe_hashMs demo_pair_env = 500" by (simp_all add: demo_pair_env_def)
  have beat: "(demo_at ((60, Inr demo_shareV) # ?as) 1040 tr None)\<lparr> ps_beat := Some (ps_clock (demo_at ((60, Inr demo_shareV) # ?as) 1040 tr None) + HEARTBEAT_MS) \<rparr>
      = demo_at ((60, Inr demo_shareV) # ?as) 1040 tr (Some 26040)" by (simp add: demo_at_def ps_clock_def)
  have at: "attached_to demo_pair_env None (JObj [(''daemon_id'', JStr demo_daemon), (''pair_ref'', JStr (replicate 32 (CHR ''0'')))]) = Inr (demo_daemon, replicate 32 (CHR ''0''))"
    by code_simp
  have el: "elapse demo_route 500 (demo_at ((60, Inr demo_shareV) # ?as) 1040 tr (Some 26040)) = (Inr (), demo_at ((60, Inr demo_shareV) # ?as) 1540 tr (Some 26040))"
    by (simp add: elapse_def Let_def ps_clock_def demo_at_def [of _ 1040, THEN arg_cong, of "\<lambda>s. hs_clock (ps_channel s)"] demo_at_beats)
      (simp add: demo_at_def)
  have share: "pv_shareP ?pv = 4 # replicate 63 0 @ [2]" by (simp add: demo_prover_def)
  obtain ev where se: "send_json Typ_FWD demo_route (SpakeShareP (4 # replicate 63 0 @ [2])) (demo_at ((60, Inr demo_shareV) # ?as) 1540 tr (Some 26040))
      = (Inr (), demo_at ((60, Inr demo_shareV) # ?as) 1540 (tr @ [ev]) (Some 26040))"
    using demo_send_json [OF r(2) _ demo_lengths(1), of Typ_FWD] by (fastforce simp: pwa_KNOWN_TYPES_def)
  let ?m = "JObj [(''op'', JStr ''SpakeShareV''), (''share'', JStr (b64url (4 # replicate 63 0 @ [2]))), (''confirm_v'', JStr (b64url (replicate 32 0)))]"
  have "pair_op_frame demo_route ''SpakeShareV'' demo_shareV = Return ?m"
    by (simp add: pair_op_frame_def demo_shareV_json property_of_def jget_def) (simp add: demo_shareV_def)
  then have rec: "receivePairOp demo_route ''SpakeShareV'' 20000 (demo_at ((60, Inr demo_shareV) # ?as) 1540 (tr @ [ev]) (Some 26040))
      = (Inr ?m, demo_at ?as (1540 + 60) ((tr @ [ev]) @ [Received demo_shareV]) (Some 26040))"
    unfolding receivePairOp_def
    by (subst demo_at_def [THEN arg_cong, of ps_clock]) (simp only: ps_clock_def pairing.simps hs.simps demo_at_loop; simp)
  have ck: "confirmed_keys demo_pair_env ?pv ?m = Inr demo_keys_pair"
    using parseExactB64_encoded [of "4 # replicate 63 0 @ [2]"] parseExactB64_encoded [of "replicate 32 0"]
    by (simp add: confirmed_keys_def property_of_def jget_def env demo_finish require_def) (simp add: demo_keys_pair_def)
  have "pair_exchange demo_pair_env None code demo_attached (demo_at ((60, Inr demo_shareV) # ?as) 1040 tr None)
      = (Inr (demo_daemon, demo_keys_pair), demo_at ?as (1540 + 60) ((tr @ [ev]) @ [Received demo_shareV]) (Some 26040))"
    unfolding pair_exchange_def r env ps_try_def ps_bind_def ps_modify_def demo_attached_json
    by (simp only: sum.case prod.case beat at el demo_spake(1,2) share se rec ck ps_ret_def)
  then show ?thesis by (simp add: exI)
qed

lemma demo_confirmation: "open_confirmation demo_suite demo_keys_pair demo_route demo_confirm_frame = Inr demo_confirm"
proof -
  have key: "length (snd (pairingKeys demo_suite (sk_shared demo_keys_pair))) = 32"
    by (simp add: pairingKeys_def pairfobHKDF_def demo_suite_def Let_def)
  have len: "length (print_json demo_confirm) < 1000"
    using b64_length [of "replicate 32 2"] b64_length [of "replicate 32 1"] b64_length [of "replicate 16 2"]
    unfolding demo_confirm_def by (simp add: pair_printing) (simp add: demo_daemon_def)
  have "aad demo_route DIR_S = Inr ([0x01, 0x05, 0, 0] @ demo_route @ [word_of_nat DIR_S])" by (simp add: aad_def demo_route_def)
  moreover have "getBigUint64_be (replicate 8 0) = 0" by code_simp
  moreover have "take 12 (f_payload demo_confirm_frame) = replicate 12 0" "drop 12 (f_payload demo_confirm_frame) = text_bytes (print_json demo_confirm) @ replicate 16 0"
    "length (f_payload demo_confirm_frame) = 28 + length (print_json demo_confirm)"
    by (simp_all add: demo_confirm_frame_def)
  moreover have "take 4 (replicate 12 0) = [0, 0, 0, 0 :: byte]" "drop 4 (replicate 12 0) = replicate 8 (0 :: byte)"
    by (simp_all add: numeral_eq_Suc)
  moreover have "chacha_decrypt demo_suite k n a (text_bytes (print_json demo_confirm) @ replicate 16 0) = Some (text_bytes (print_json demo_confirm))" for k n a
    by (simp add: demo_suite_def)
  ultimately have "\<exists>d. open_payload demo_suite (new_direction (snd (pairingKeys demo_suite (sk_shared demo_keys_pair))) DIR_S) demo_route (f_payload demo_confirm_frame)
      = Inr (text_bytes (print_json demo_confirm), d)"
    using len unfolding open_payload_def Let_def new_direction_def direction.simps by simp
  then show ?thesis
    using parse_printed [OF _ demo_confirm_ascii] by (auto simp: open_confirmation_def demo_confirm_def simp del: print_json.simps)
qed

lemma demo_read: "\<exists>cred. read_confirmation demo_pair_env ''o'' demo_daemon ''w-w'' demo_confirm = Inr (''i'', cred, b64url (replicate 16 2))"
proof -
  have "DEVICE_ID_RE ''dev_aaaaaaaa''" by code_simp
  moreover have "fingerprint16 demo_suite (replicate 32 2) = b64url (replicate 16 2)" by (simp add: fingerprint16_def demo_suite_def pad_to_def)
  ultimately show ?thesis
    using parseExactB64_encoded [of "replicate 32 2"] parseExactB64_encoded [of "replicate 32 1"]
    by (simp add: read_confirmation_def demo_confirm_def fields_of_def jget_def truthy_def confirmationTagMatches_def require_def bindF_def Let_def
        demo_pair_env_def nonempty_def validDeviceId_def string_or_empty_def)
qed

lemma demo_approve: "\<exists>res t. pair_approve demo_pair_env ''o'' demo_route demo_daemon demo_keys_pair (demo_at [(90, Inr demo_confirm_frame)] 1600 tr (Some 26040)) = (Inr res, t)"
proof -
  have env: "pe_suite demo_pair_env = demo_suite" "pe_evenWords demo_pair_env = replicate 256 ''w''" "pe_oddWords demo_pair_env = replicate 256 ''w''"
    "pe_label demo_pair_env = Some [97]" by (simp_all add: demo_pair_env_def)
  have tag: "sas demo_suite (replicate 256 ''w'') (replicate 256 ''w'') (sk_shared demo_keys_pair) = ''w-w''" by code_simp
  have label: "normalizeDeviceLabel (Some [97]) = [97]"
    by (simp add: normalizeDeviceLabel_def trim_points_def JS_SPACE_def utf8_encode_def utf8_point_def Let_def)
  have r: "length demo_route = 16" by (simp add: demo_route_def)
  have keys: "sk_confirmP demo_keys_pair = replicate 32 0" by (simp add: demo_keys_pair_def)
  obtain ev where se: "send_json Typ_FWD demo_route (SpakeConfirmP (replicate 32 0)) (demo_at [(90, Inr demo_confirm_frame)] 1600 tr (Some 26040))
      = (Inr (), demo_at [(90, Inr demo_confirm_frame)] 1600 (tr @ [ev]) (Some 26040))"
    using demo_send_json [OF r _ demo_lengths(2), of Typ_FWD] by (fastforce simp: pwa_KNOWN_TYPES_def)
  have ob: "on_channel (hs_observe g) (demo_at as n tr b) = (Inr (), demo_at as n (tr @ [Observed g]) b)" for g as n tr b
    by (simp add: on_channel_def hs_observe_def hs_log_def demo_at_def)
  have ab: "aborted (demo_at as n tr b) = False" for as n tr b by (simp add: aborted_def demo_at_def)
  have "confirm_frame demo_route demo_confirm_frame = Return demo_confirm_frame" by (simp add: confirm_frame_def demo_confirm_frame_def)
  then have aw: "await_confirmation demo_route (demo_at [(90, Inr demo_confirm_frame)] 1600 tr (Some 26040))
      = (Inr demo_confirm_frame, demo_at [] (1600 + 90) (tr @ [Received demo_confirm_frame]) (Some 26040))" for tr
    unfolding await_confirmation_def
    by (subst demo_at_def [THEN arg_cong, of ps_clock]) (simp only: ps_clock_def pairing.simps hs.simps demo_at_loop; simp)
  obtain cred where cred: "read_confirmation demo_pair_env ''o'' demo_daemon ''w-w'' demo_confirm = Inr (''i'', cred, b64url (replicate 16 2))" using demo_read by blast
  let ?d = "new_direction (fst (pairingKeys demo_suite (sk_shared demo_keys_pair))) DIR_C"
  have "utf8_decode (utf8_encode [97]) = ''a''" by code_simp
  then have "length (text_bytes (print_json (pair_ack ''i'' [97]))) \<le> 262116" by (simp add: pair_ack_def pair_printing)
  note small = this
  have "length (dir_key ?d) = 32" "dir_dir ?d = DIR_C \<or> dir_dir ?d = DIR_S" "dir_seq ?d < 2 ^ 64"
    by (simp_all add: new_direction_def pairingKeys_def pairfobHKDF_def demo_suite_def Let_def)
  then obtain w where seal: "seal demo_suite ?d demo_route (text_bytes (print_json (pair_ack ''i'' [97]))) = Inr (w, ?d\<lparr> dir_seq := dir_seq ?d + 1 \<rparr>)"
    using seal_succeeds [OF demo_sound _ r _ small] by blast
  show ?thesis
    unfolding pair_approve_def env ps_try_def ps_bind_def Let_def tag label keys
    by (simp only: sum.case prod.case se ob ab if_False aw demo_confirmation cred seal demo_at_send) blast
qed

theorem demo_pairing_runs: "\<exists>res t. pairOverWS demo_pair_env None (CodeSecret ''ABCD2345'') demo_pairing = (Inr res, t)"
proof -
  have "normalizePairInput None (CodeSecret ''ABCD2345'') = Inr (None, ''ABCD2345'')" by code_simp
  moreover have "pe_origin demo_pair_env = Inr ''o''" "f_routeId demo_attached = demo_route" by (simp_all add: demo_pair_env_def demo_attached_def)
  moreover obtain tr where "pair_attach demo_pair_env None demo_pairing
      = (Inr demo_attached, demo_at [(60, Inr demo_shareV), (90, Inr demo_confirm_frame)] 1040 tr None)" using demo_attach by blast
  moreover obtain tr' where "pair_exchange demo_pair_env None ''ABCD2345'' demo_attached (demo_at [(60, Inr demo_shareV), (90, Inr demo_confirm_frame)] 1040 tr None)
      = (Inr (demo_daemon, demo_keys_pair), demo_at [(90, Inr demo_confirm_frame)] 1600 tr' (Some 26040))" using demo_exchange by blast
  moreover obtain res t where "pair_approve demo_pair_env ''o'' demo_route demo_daemon demo_keys_pair (demo_at [(90, Inr demo_confirm_frame)] 1600 tr' (Some 26040)) = (Inr res, t)"
    using demo_approve by blast
  ultimately show ?thesis by (simp add: pairOverWS_def pair_body_def ps_try_def ps_bind_def)
qed

end
