(* ===== verification/ClientSocket.thy ===== *)
theory ClientSocket
  imports ClientDirect "HOL-Library.Sublist"
begin

text \<open>
  The two frame channels of the phone, both behind the interface \<^verbatim>\<open>FrameChannel\<close> of \<^verbatim>\<open>pwa/src/lib/protocol/frame-channel.ts\<close>: the
  WebSocket to the relay (\<^verbatim>\<open>FrameSocket\<close> in \<^verbatim>\<open>frame-socket.ts\<close>) and the data channel to the computer
  (\<^verbatim>\<open>DataFrameChannel\<close> in \<^verbatim>\<open>data-channel.ts\<close>). Before a session takes over with \<^verbatim>\<open>use\<close>, frames wait in a queue or are
  handed to whoever called \<^verbatim>\<open>next\<close>. The two classes repeat this code, so it is modelled once, on the part of the
  state they share. The contract is a locale, interpreted on both: frames are delivered in the order they arrived, each at
  most once, and none is lost while the channel is open. Callbacks are outputs and do not throw.
\<close>

section \<open>What both channels share\<close>

datatype ch_output =
    Handled frame
  | Returned frame
  | Resolved_waiter nat frame
  | Rejected_waiter nat client_error
  | Close_called nat client_error
  | Wire_sent "byte list"
  | Wire_closed
  | Peer_closed
  | Ice_unhealthy

text \<open>Waiters and close handlers are numbered in the order they came; a waiter's timer is armed as long as it waits.\<close>

record inbox =
  ch_queue :: "frame list"
  ch_waiters :: "nat list"
  ch_handler :: bool
  ch_closers :: "nat list"
  ch_ended :: bool
  ch_fresh :: nat
  ch_out :: "ch_output list"

definition ch_emit :: "ch_output list \<Rightarrow> 'a inbox_scheme \<Rightarrow> 'a inbox_scheme" where
  "ch_emit evs s = s\<lparr> ch_out := ch_out s @ evs \<rparr>"

definition accept_frame :: "frame \<Rightarrow> 'a inbox_scheme \<Rightarrow> unit fallible \<times> 'a inbox_scheme" where
  "accept_frame f s =
     (if ch_handler s then (Inr (), ch_emit [Handled f] s)
      else case ch_waiters s of
          k # ks \<Rightarrow> (Inr (), ch_emit [Resolved_waiter k f] (s\<lparr> ch_waiters := ks \<rparr>))
        | [] \<Rightarrow> (case enqueueHandshakeFrame (ch_queue s) f of Inl e \<Rightarrow> (Inl e, s) | Inr q \<Rightarrow> (Inr (), s\<lparr> ch_queue := q \<rparr>)))"

definition next_frame :: "'a inbox_scheme \<Rightarrow> frame option fallible \<times> 'a inbox_scheme" where
  "next_frame s =
     (if ch_ended s then (Inl (ProtocolError ''disconnected''), s)
      else case ch_queue s of
          f # q \<Rightarrow> (Inr (Some f), ch_emit [Returned f] (s\<lparr> ch_queue := q \<rparr>))
        | [] \<Rightarrow> (Inr None, s\<lparr> ch_waiters := ch_waiters s @ [ch_fresh s], ch_fresh := ch_fresh s + 1 \<rparr>))"

definition waiter_timeout :: "nat \<Rightarrow> 'a inbox_scheme \<Rightarrow> 'a inbox_scheme" where
  "waiter_timeout k s =
     (if k \<in> set (ch_waiters s) then ch_emit [Rejected_waiter k (ProtocolError ''timeout'')] (s\<lparr> ch_waiters := remove1 k (ch_waiters s) \<rparr>)
      else s)"

definition use_frames :: "'a inbox_scheme \<Rightarrow> unit fallible \<times> 'a inbox_scheme" where
  "use_frames s =
     (if ch_waiters s \<noteq> [] then (Inl (OtherError ''pending frame waiter''), s)
      else (Inr (), ch_emit (map Handled (ch_queue s)) (s\<lparr> ch_handler := True, ch_queue := [] \<rparr>)))"

definition add_closer :: "'a inbox_scheme \<Rightarrow> 'a inbox_scheme" where
  "add_closer s = s\<lparr> ch_closers := ch_closers s @ [ch_fresh s], ch_fresh := ch_fresh s + 1 \<rparr>"

definition remove_closer :: "nat \<Rightarrow> 'a inbox_scheme \<Rightarrow> 'a inbox_scheme" where
  "remove_closer k s = s\<lparr> ch_closers := remove1 k (ch_closers s) \<rparr>"

text \<open>Everyone who waits is told, then everyone who listens.\<close>

definition end_waits :: "client_error \<Rightarrow> 'a inbox_scheme \<Rightarrow> 'a inbox_scheme" where
  "end_waits e s =
     ch_emit (map (\<lambda>k. Rejected_waiter k e) (ch_waiters s) @ map (\<lambda>k. Close_called k e) (ch_closers s)) (s\<lparr> ch_waiters := [] \<rparr>)"

definition as_bad_frame :: "client_error \<Rightarrow> client_error" where
  "as_bad_frame e = (case e of ProtocolError _ \<Rightarrow> e | OtherError _ \<Rightarrow> ProtocolError ''bad_frame'')"

definition toBytes :: "ws_message \<Rightarrow> byte list fallible" where
  "toBytes m = (case asBytes m of None \<Rightarrow> Inl (ProtocolError ''bad_frame'') | Some b \<Rightarrow> Inr b)"

section \<open>The socket to the relay\<close>

definition fs_fail :: "client_error \<Rightarrow> inbox \<Rightarrow> inbox" where
  "fs_fail e s = (if ch_ended s then s else end_waits e (s\<lparr> ch_ended := True, ch_queue := [] \<rparr>))"

definition fs_receive :: "ws_message \<Rightarrow> inbox \<Rightarrow> unit fallible \<times> inbox" where
  "fs_receive m s =
     (case toBytes m of
        Inl e \<Rightarrow> (Inl e, s)
      | Inr b \<Rightarrow> (case pwa_decode b of
            Inl e \<Rightarrow> (Inl e, s)
          | Inr f \<Rightarrow> if f_version f \<noteq> 1 then (Inl (ProtocolError ''bad_frame''), s) else accept_frame f s))"

definition fs_message :: "ws_message \<Rightarrow> inbox \<Rightarrow> inbox" where
  "fs_message m s =
     (if ch_ended s then s
      else case fs_receive m s of
          (Inr _, t) \<Rightarrow> t
        | (Inl e, t) \<Rightarrow> ch_emit [Wire_closed] (fs_fail (as_bad_frame e) t))"

definition fs_send :: "bool \<Rightarrow> frame \<Rightarrow> inbox \<Rightarrow> unit fallible \<times> inbox" where
  "fs_send opened f s =
     (if ch_ended s then (Inl (ProtocolError ''disconnected''), s)
      else if \<not> opened then (Inl (ProtocolError ''disconnected''), s)
      else case pwa_encode f of Inl e \<Rightarrow> (Inl e, s) | Inr b \<Rightarrow> (Inr (), ch_emit [Wire_sent b] s))"

definition fs_close :: "inbox \<Rightarrow> inbox" where
  "fs_close s = ch_emit [Wire_closed] (fs_fail (ProtocolError ''disconnected'') s)"

definition fs_use :: "inbox \<Rightarrow> unit fallible \<times> inbox" where
  "fs_use s = (if ch_ended s then (Inl (ProtocolError ''disconnected''), s) else use_frames s)"

datatype fs_input =
    Fs_message ws_message
  | Fs_lost
  | Fs_send bool frame
  | Fs_close
  | Fs_next
  | Fs_timer nat
  | Fs_use
  | Fs_onClose
  | Fs_offClose nat

fun fs_step :: "fs_input \<Rightarrow> inbox \<Rightarrow> inbox" where
  "fs_step (Fs_message m) s = fs_message m s"
| "fs_step Fs_lost s = fs_fail (ProtocolError ''disconnected'') s"
| "fs_step (Fs_send opened f) s = snd (fs_send opened f s)"
| "fs_step Fs_close s = fs_close s"
| "fs_step Fs_next s = snd (next_frame s)"
| "fs_step (Fs_timer k) s = waiter_timeout k s"
| "fs_step Fs_use s = snd (fs_use s)"
| "fs_step Fs_onClose s = add_closer s"
| "fs_step (Fs_offClose k) s = remove_closer k s"

definition new_inbox :: inbox where
  "new_inbox = \<lparr> ch_queue = [], ch_waiters = [], ch_handler = False, ch_closers = [], ch_ended = False, ch_fresh = 0, ch_out = [] \<rparr>"

section \<open>The data channel to the computer\<close>

text \<open>
  The platform's side: the states of the peer connection and of the channel, the bytes it has buffered, and whether a
  send throws. \<open>dc_listening\<close>: the peer's state changes are still observed.
\<close>

datatype ice_state = Ice_new | Ice_checking | Ice_connected | Ice_completed | Ice_disconnected | Ice_failed | Ice_closed

record data_channel = inbox +
  dc_assembler :: assembler
  dc_restart_pause :: bool
  dc_page_pause :: bool
  dc_grace :: bool
  dc_unhealthy :: bool
  dc_listening :: bool

definition MAX_BUFFERED_BYTES :: nat where [simp]: "MAX_BUFFERED_BYTES = 2 * 1024 * 1024"

definition detachPeer :: "data_channel \<Rightarrow> data_channel" where
  "detachPeer s = s\<lparr> dc_grace := False, dc_listening := False \<rparr>"

definition closeUnderlying :: "data_channel \<Rightarrow> data_channel" where
  "closeUnderlying s = ch_emit [Wire_closed, Peer_closed] (detachPeer s)"

definition dc_fail :: "client_error \<Rightarrow> data_channel \<Rightarrow> data_channel" where
  "dc_fail e s = (if ch_ended s then s else end_waits e (detachPeer (s\<lparr> ch_ended := True \<rparr>)))"

definition dc_close :: "data_channel \<Rightarrow> data_channel" where
  "dc_close s = closeUnderlying (dc_fail (ProtocolError ''closed'') s)"

definition dc_receive :: "ws_message \<Rightarrow> data_channel \<Rightarrow> unit fallible \<times> data_channel" where
  "dc_receive m s =
     (case toBytes m of
        Inl e \<Rightarrow> (Inl e, s)
      | Inr b \<Rightarrow> (case push (dc_assembler s) b of
            Inl e \<Rightarrow> (Inl e, s)
          | Inr (None, a) \<Rightarrow> (Inr (), s\<lparr> dc_assembler := a \<rparr>)
          | Inr (Some whole, a) \<Rightarrow> (case pwa_decode whole of
                Inl e \<Rightarrow> (Inl e, s\<lparr> dc_assembler := a \<rparr>)
              | Inr f \<Rightarrow> if f_version f \<noteq> 1 then (Inl (ProtocolError ''bad_frame''), s\<lparr> dc_assembler := a \<rparr>)
                         else accept_frame f (s\<lparr> dc_assembler := a \<rparr>))))"

definition dc_message :: "ws_message \<Rightarrow> data_channel \<Rightarrow> data_channel" where
  "dc_message m s =
     (case dc_receive m s of
        (Inr _, t) \<Rightarrow> t
      | (Inl e, t) \<Rightarrow> dc_close (dc_fail (as_bad_frame e) t))"

definition dc_send :: "bool \<Rightarrow> nat \<Rightarrow> nat option \<Rightarrow> frame \<Rightarrow> data_channel \<Rightarrow> unit fallible \<times> data_channel" where
  "dc_send opened buffered throws f s =
     (if ch_ended s \<or> \<not> opened then (Inl (ProtocolError ''disconnected''), s)
      else case pwa_encode f of
          Inl e \<Rightarrow> (Inl e, s)
        | Inr b \<Rightarrow> (case splitDirectFrame b of
              Inl e \<Rightarrow> (Inl e, s)
            | Inr chunks \<Rightarrow>
                if buffered + sum_list (map length chunks) > MAX_BUFFERED_BYTES
                then (Inl (ProtocolError ''backpressure''), closeUnderlying (dc_fail (ProtocolError ''disconnected'') s))
                else (case throws of
                    None \<Rightarrow> (Inr (), ch_emit (map Wire_sent chunks) s)
                  | Some n \<Rightarrow> (Inl (OtherError ''send''),
                      closeUnderlying (dc_fail (ProtocolError ''disconnected'') (ch_emit (map Wire_sent (take n chunks)) s))))))"

definition handleICE :: "ice_state \<Rightarrow> bool \<Rightarrow> data_channel \<Rightarrow> data_channel" where
  "handleICE ice connection_over s =
     (if ch_ended s \<or> dc_restart_pause s \<or> dc_page_pause s then s
      else if ice = Ice_failed \<or> ice = Ice_closed \<or> connection_over then
        dc_close (dc_fail (ProtocolError ''disconnected'') (s\<lparr> dc_grace := False \<rparr>))
      else if ice = Ice_connected \<or> ice = Ice_completed then s\<lparr> dc_grace := False \<rparr>
      else if ice \<noteq> Ice_disconnected then s
      else s\<lparr> dc_grace := True \<rparr>)"

definition grace_fired :: "ice_state \<Rightarrow> data_channel \<Rightarrow> data_channel" where
  "grace_fired ice s =
     (if \<not> dc_grace s then s
      else let s = s\<lparr> dc_grace := False \<rparr> in
        if ch_ended s \<or> dc_restart_pause s \<or> dc_page_pause s \<or> ice = Ice_connected \<or> ice = Ice_completed then s
        else if dc_unhealthy s then ch_emit [Ice_unhealthy] s
        else dc_close (dc_fail (ProtocolError ''disconnected'') s))"

definition pauseIceWatch :: "bool \<Rightarrow> data_channel \<Rightarrow> data_channel" where
  "pauseIceWatch page s = (if page then s\<lparr> dc_page_pause := True, dc_grace := False \<rparr> else s\<lparr> dc_restart_pause := True, dc_grace := False \<rparr>)"

definition resumeIceWatch :: "bool \<Rightarrow> ice_state \<Rightarrow> bool \<Rightarrow> data_channel \<Rightarrow> data_channel" where
  "resumeIceWatch page ice over s =
     handleICE ice over (if page then s\<lparr> dc_page_pause := False \<rparr> else s\<lparr> dc_restart_pause := False \<rparr>)"

datatype dc_input =
    Dc_message ws_message
  | Dc_lost
  | Dc_error
  | Dc_send bool nat "nat option" frame
  | Dc_close
  | Dc_next
  | Dc_timer nat
  | Dc_use
  | Dc_onClose
  | Dc_offClose nat
  | Dc_ice ice_state bool
  | Dc_grace ice_state
  | Dc_pause bool
  | Dc_resume bool ice_state bool
  | Dc_onUnhealthy bool

fun dc_step :: "dc_input \<Rightarrow> data_channel \<Rightarrow> data_channel" where
  "dc_step (Dc_message m) s = dc_message m s"
| "dc_step Dc_lost s = ch_emit [Peer_closed] (dc_fail (ProtocolError ''disconnected'') s)"
| "dc_step Dc_error s = dc_close (dc_fail (ProtocolError ''disconnected'') s)"
| "dc_step (Dc_send opened buffered throws f) s = snd (dc_send opened buffered throws f s)"
| "dc_step Dc_close s = dc_close s"
| "dc_step Dc_next s = snd (next_frame s)"
| "dc_step (Dc_timer k) s = waiter_timeout k s"
| "dc_step Dc_use s = snd (use_frames s)"
| "dc_step Dc_onClose s = add_closer s"
| "dc_step (Dc_offClose k) s = remove_closer k s"
| "dc_step (Dc_ice ice over) s = (if dc_listening s then handleICE ice over s else s)"
| "dc_step (Dc_grace ice) s = grace_fired ice s"
| "dc_step (Dc_pause page) s = pauseIceWatch page s"
| "dc_step (Dc_resume page ice over) s = resumeIceWatch page ice over s"
| "dc_step (Dc_onUnhealthy on) s = s\<lparr> dc_unhealthy := on \<rparr>"

definition new_data_channel :: "ice_state \<Rightarrow> bool \<Rightarrow> data_channel" where
  "new_data_channel ice over =
     handleICE ice over \<lparr> ch_queue = [], ch_waiters = [], ch_handler = False, ch_closers = [], ch_ended = False, ch_fresh = 0, ch_out = [],
       dc_assembler = new_assembler, dc_restart_pause = False, dc_page_pause = False, dc_grace = False, dc_unhealthy = False, dc_listening = True \<rparr>"

section \<open>The contract of a frame channel\<close>

fun arrivals :: "('i \<Rightarrow> 's \<Rightarrow> 's) \<Rightarrow> ('i \<Rightarrow> 's \<Rightarrow> frame list) \<Rightarrow> 'i list \<Rightarrow> 's \<Rightarrow> frame list" where
  "arrivals step arrival [] s = []"
| "arrivals step arrival (i # is) s = arrival i s @ arrivals step arrival is (step i s)"

locale frame_channel =
  fixes ok :: "'s \<Rightarrow> bool" and ended :: "'s \<Rightarrow> bool" and queue :: "'s \<Rightarrow> frame list" and delivered :: "'s \<Rightarrow> frame list"
    and step :: "'i \<Rightarrow> 's \<Rightarrow> 's" and arrival :: "'i \<Rightarrow> 's \<Rightarrow> frame list"
  assumes step_ok: "ok s \<Longrightarrow> ok (step i s)"
    and queue_bounded: "ok s \<Longrightarrow> length (queue s) \<le> 64"
    and ended_stays: "ok s \<Longrightarrow> ended s \<Longrightarrow> ended (step i s)"
    and step_order: "ok s \<Longrightarrow> subseq (delivered (step i s) @ queue (step i s)) (delivered s @ queue s @ arrival i s)"
    and step_exact: "ok s \<Longrightarrow> \<not> ended (step i s) \<Longrightarrow> delivered (step i s) @ queue (step i s) = delivered s @ queue s @ arrival i s"
begin

lemma run_ok: "ok s \<Longrightarrow> ok (fold step is s)"
  by (induction "is" arbitrary: s) (simp_all add: step_ok)

lemma run_ended: "ok s \<Longrightarrow> ended s \<Longrightarrow> ended (fold step is s)"
  by (induction "is" arbitrary: s) (simp_all add: ended_stays step_ok)

text \<open>In order and at most once, whatever happens.\<close>

lemma run_order:
  "ok s \<Longrightarrow> subseq (delivered (fold step is s) @ queue (fold step is s)) (delivered s @ queue s @ arrivals step arrival is s)"
proof (induction "is" arbitrary: s)
  case (Cons i "is")
  let ?t = "step i s"
  have "subseq (delivered (fold step is ?t) @ queue (fold step is ?t)) ((delivered ?t @ queue ?t) @ arrivals step arrival is ?t)"
    using Cons step_ok by simp
  also have "subseq ((delivered ?t @ queue ?t) @ arrivals step arrival is ?t) ((delivered s @ queue s @ arrival i s) @ arrivals step arrival is ?t)"
    using step_order [OF Cons.prems] by (rule list_emb_append_mono) simp
  finally show ?case by simp
qed simp

text \<open>Nothing lost while the channel is open.\<close>

lemma run_exact:
  "ok s \<Longrightarrow> \<not> ended (fold step is s) \<Longrightarrow>
     delivered (fold step is s) @ queue (fold step is s) = delivered s @ queue s @ arrivals step arrival is s"
proof (induction "is" arbitrary: s)
  case (Cons i "is")
  have "\<not> ended (step i s)" using Cons.prems run_ended [of "step i s" "is"] step_ok by auto
  then show ?case using Cons.IH [of "step i s"] Cons.prems step_ok step_exact [OF Cons.prems(1)] by simp
qed simp

end

section \<open>Both channels keep it\<close>

fun frames_of :: "ch_output \<Rightarrow> frame list" where
  "frames_of (Handled f) = [f]"
| "frames_of (Returned f) = [f]"
| "frames_of (Resolved_waiter k f) = [f]"
| "frames_of _ = []"

definition ch_delivered :: "'a inbox_scheme \<Rightarrow> frame list" where
  "ch_delivered s = concat (map frames_of (ch_out s))"

definition inbox_ok :: "'a inbox_scheme \<Rightarrow> bool" where
  "inbox_ok s \<longleftrightarrow> length (ch_queue s) \<le> 64 \<and> (ch_queue s = [] \<or> ch_waiters s = []) \<and> (ch_handler s \<longrightarrow> ch_queue s = [])
     \<and> (ch_ended s \<longrightarrow> ch_waiters s = [])"

lemma ch_emit_simps [simp]:
  "ch_queue (ch_emit evs s) = ch_queue s" "ch_waiters (ch_emit evs s) = ch_waiters s" "ch_handler (ch_emit evs s) = ch_handler s"
  "ch_ended (ch_emit evs s) = ch_ended s" "ch_delivered (ch_emit evs s) = ch_delivered s @ concat (map frames_of evs)"
  "inbox_ok (ch_emit evs s) = inbox_ok s"
  by (simp_all add: ch_emit_def ch_delivered_def inbox_ok_def)

lemma frames_of_none [simp]:
  "concat (map (frames_of \<circ> (\<lambda>k. Rejected_waiter k e)) ks) = []" "concat (map (frames_of \<circ> (\<lambda>k. Close_called k e)) ks) = []"
  "concat (map (frames_of \<circ> Wire_sent) bs) = []" "concat (map (frames_of \<circ> Handled) fs) = fs"
proof -
  show "concat (map (frames_of \<circ> (\<lambda>k. Rejected_waiter k e)) ks) = []" by (induction ks) simp_all
  show "concat (map (frames_of \<circ> (\<lambda>k. Close_called k e)) ks) = []" by (induction ks) simp_all
  show "concat (map (frames_of \<circ> Wire_sent) bs) = []" by (induction bs) simp_all
  show "concat (map (frames_of \<circ> Handled) fs) = fs" by (induction fs) simp_all
qed

lemma end_waits_simps [simp]:
  "ch_queue (end_waits e s) = ch_queue s" "ch_delivered (end_waits e s) = ch_delivered s" "ch_ended (end_waits e s) = ch_ended s"
  "ch_waiters (end_waits e s) = []" "ch_handler (end_waits e s) = ch_handler s"
  by (simp_all add: end_waits_def) (simp_all add: ch_delivered_def)

text \<open>One frame goes to the handler, to the first who waits, or to the end of the queue.\<close>

lemma accept_frame_ok:
  assumes "inbox_ok s" and "accept_frame f s = (r, t)"
  shows "inbox_ok t \<and> ch_ended t = ch_ended s
    \<and> ch_delivered t @ ch_queue t = ch_delivered s @ ch_queue s @ (if r = Inr () then [f] else [])"
  using assms
  by (auto simp: accept_frame_def enqueueHandshakeFrame_def inbox_ok_def ch_emit_def ch_delivered_def split: if_splits list.splits)

lemma next_frame_ok:
  "inbox_ok s \<Longrightarrow> inbox_ok (snd (next_frame s)) \<and> ch_ended (snd (next_frame s)) = ch_ended s
     \<and> ch_delivered (snd (next_frame s)) @ ch_queue (snd (next_frame s)) = ch_delivered s @ ch_queue s"
  by (auto simp: next_frame_def inbox_ok_def ch_emit_def ch_delivered_def split: list.splits)

lemma waiter_timeout_ok:
  "inbox_ok s \<Longrightarrow> inbox_ok (waiter_timeout k s) \<and> ch_ended (waiter_timeout k s) = ch_ended s
     \<and> ch_delivered (waiter_timeout k s) @ ch_queue (waiter_timeout k s) = ch_delivered s @ ch_queue s"
  by (auto simp: waiter_timeout_def inbox_ok_def ch_emit_def ch_delivered_def)

lemma use_frames_ok:
  "inbox_ok s \<Longrightarrow> inbox_ok (snd (use_frames s)) \<and> ch_ended (snd (use_frames s)) = ch_ended s
     \<and> ch_delivered (snd (use_frames s)) @ ch_queue (snd (use_frames s)) = ch_delivered s @ ch_queue s"
  by (auto simp: use_frames_def inbox_ok_def ch_emit_def ch_delivered_def)

lemma closer_ok:
  "inbox_ok s \<Longrightarrow> inbox_ok (add_closer s) \<and> ch_ended (add_closer s) = ch_ended s \<and> ch_delivered (add_closer s) @ ch_queue (add_closer s) = ch_delivered s @ ch_queue s"
  "inbox_ok s \<Longrightarrow> inbox_ok (remove_closer k s) \<and> ch_ended (remove_closer k s) = ch_ended s \<and> ch_delivered (remove_closer k s) @ ch_queue (remove_closer k s) = ch_delivered s @ ch_queue s"
  by (auto simp: add_closer_def remove_closer_def inbox_ok_def ch_delivered_def)

lemmas inbox_steps = next_frame_ok waiter_timeout_ok use_frames_ok closer_ok

definition frame_in :: "ws_message \<Rightarrow> frame list" where
  "frame_in m = (case toBytes m of Inl _ \<Rightarrow> [] | Inr b \<Rightarrow> (case pwa_decode b of Inl _ \<Rightarrow> [] | Inr f \<Rightarrow> [f]))"

fun fs_arrival :: "fs_input \<Rightarrow> inbox \<Rightarrow> frame list" where
  "fs_arrival (Fs_message m) s = (if ch_ended s then [] else if fst (fs_receive m s) = Inr () then frame_in m else [])"
| "fs_arrival _ s = []"

lemma fs_fail_ok:
  "inbox_ok s \<Longrightarrow> inbox_ok (fs_fail e s) \<and> ch_ended (fs_fail e s) \<and> ch_delivered (fs_fail e s) = ch_delivered s
     \<and> subseq (ch_queue (fs_fail e s)) (ch_queue s)"
  by (auto simp: fs_fail_def inbox_ok_def) (simp_all add: ch_delivered_def)

lemma fs_receive_ok:
  assumes "inbox_ok s" and "fs_receive m s = (r, t)"
  shows "inbox_ok t \<and> ch_ended t = ch_ended s \<and> ch_delivered t @ ch_queue t = ch_delivered s @ ch_queue s @ (if r = Inr () then frame_in m else [])"
  using assms by (auto simp: fs_receive_def frame_in_def split: sum.splits if_splits dest: accept_frame_ok)

lemma fs_step_ok:
  assumes "inbox_ok s"
  shows "inbox_ok (fs_step i s) \<and> (ch_ended s \<longrightarrow> ch_ended (fs_step i s))
    \<and> subseq (ch_delivered (fs_step i s) @ ch_queue (fs_step i s)) (ch_delivered s @ ch_queue s @ fs_arrival i s)
    \<and> (\<not> ch_ended (fs_step i s) \<longrightarrow> ch_delivered (fs_step i s) @ ch_queue (fs_step i s) = ch_delivered s @ ch_queue s @ fs_arrival i s)"
proof (cases i)
  case (Fs_message m)
  obtain r t where r: "fs_receive m s = (r, t)" by (cases "fs_receive m s")
  note t = fs_receive_ok [OF assms r] and e = fs_fail_ok [of t]
  show ?thesis
  proof (cases r)
    case (Inl x)
    have "ch_delivered t @ ch_queue t = ch_delivered s @ ch_queue s" using t Inl by simp
    moreover have "subseq (ch_delivered t @ ch_queue (fs_fail (as_bad_frame x) t)) (ch_delivered t @ ch_queue t)"
      unfolding subseq_append' using e t by blast
    ultimately show ?thesis using Fs_message r Inl t e assms by (auto simp: fs_message_def)
  next
    case (Inr u)
    then show ?thesis using Fs_message r t assms by (auto simp: fs_message_def)
  qed
next
  case Fs_lost
  then show ?thesis using fs_fail_ok [OF assms] by (auto simp: subseq_append')
next
  case Fs_close
  then show ?thesis using fs_fail_ok [OF assms] by (auto simp: fs_close_def subseq_append')
next
  case (Fs_send opened f)
  then show ?thesis using assms by (auto simp: fs_send_def split: sum.splits)
qed (use inbox_steps [OF assms] assms in \<open>auto simp: fs_use_def\<close>)

interpretation relay: frame_channel "inbox_ok :: inbox \<Rightarrow> bool" ch_ended ch_queue ch_delivered fs_step fs_arrival
  by unfold_locales (use fs_step_ok in \<open>auto simp: inbox_ok_def\<close>)

fun dc_arrival :: "dc_input \<Rightarrow> data_channel \<Rightarrow> frame list" where
  "dc_arrival (Dc_message m) s =
     (if fst (dc_receive m s) \<noteq> Inr () then []
      else case toBytes m of Inl _ \<Rightarrow> [] | Inr b \<Rightarrow> (case push (dc_assembler s) b of
          Inr (Some w, a) \<Rightarrow> (case pwa_decode w of Inl _ \<Rightarrow> [] | Inr f \<Rightarrow> [f])
        | _ \<Rightarrow> []))"
| "dc_arrival _ s = []"

text \<open>What the data channel does besides receiving leaves the frames alone.\<close>

definition same_frames :: "data_channel \<Rightarrow> data_channel \<Rightarrow> bool" where
  "same_frames s t \<longleftrightarrow> inbox_ok t \<and> (ch_ended s \<longrightarrow> ch_ended t) \<and> ch_delivered t @ ch_queue t = ch_delivered s @ ch_queue s"

lemma same_frames_trans: "same_frames s t \<Longrightarrow> same_frames t u \<Longrightarrow> same_frames s u"
  by (simp add: same_frames_def)

lemma same_frames_inbox:
  "inbox_ok s \<Longrightarrow> same_frames s (snd (next_frame s))" "inbox_ok s \<Longrightarrow> same_frames s (waiter_timeout k s)"
  "inbox_ok s \<Longrightarrow> same_frames s (snd (use_frames s))" "inbox_ok s \<Longrightarrow> same_frames s (add_closer s)"
  "inbox_ok s \<Longrightarrow> same_frames s (remove_closer k s)"
  using inbox_steps [of s] by (simp_all add: same_frames_def)

lemma same_frames_simple:
  "inbox_ok s \<Longrightarrow> same_frames s s" "inbox_ok s \<Longrightarrow> same_frames s (s\<lparr> dc_grace := g \<rparr>)" "inbox_ok s \<Longrightarrow> same_frames s (s\<lparr> dc_unhealthy := g \<rparr>)"
  "inbox_ok s \<Longrightarrow> same_frames s (detachPeer s)" "inbox_ok s \<Longrightarrow> same_frames s (closeUnderlying s)"
  "inbox_ok s \<Longrightarrow> same_frames s (s\<lparr> dc_restart_pause := g \<rparr>)" "inbox_ok s \<Longrightarrow> same_frames s (s\<lparr> dc_page_pause := g \<rparr>)"
  "inbox_ok s \<Longrightarrow> same_frames s (s\<lparr> dc_assembler := a \<rparr>)" "inbox_ok s \<Longrightarrow> concat (map frames_of evs) = [] \<Longrightarrow> same_frames s (ch_emit evs s)"
  by (simp_all add: same_frames_def detachPeer_def closeUnderlying_def) (simp_all add: inbox_ok_def ch_delivered_def)

lemma same_frames_fail: "inbox_ok s \<Longrightarrow> same_frames s (dc_fail e s)"
  by (auto simp: same_frames_def dc_fail_def inbox_ok_def detachPeer_def) (simp_all add: ch_delivered_def)

lemma same_frames_ok: "same_frames s t \<Longrightarrow> inbox_ok t"
  by (simp add: same_frames_def)

lemma same_frames_close: "inbox_ok s \<Longrightarrow> same_frames s (dc_close s)"
  unfolding dc_close_def
  by (meson same_frames_trans same_frames_fail same_frames_simple(5) same_frames_ok)

lemma same_frames_end: "inbox_ok s \<Longrightarrow> same_frames s (dc_close (dc_fail e s))"
  by (meson same_frames_trans same_frames_fail same_frames_close same_frames_ok)

lemma same_frames_over: "inbox_ok s \<Longrightarrow> same_frames s (closeUnderlying (dc_fail e s))"
  by (meson same_frames_trans same_frames_fail same_frames_simple(5) same_frames_ok)

lemma same_frames_ice:
  assumes "inbox_ok s"
  shows "same_frames s (handleICE ice over s)"
proof -
  have "same_frames s (dc_close (dc_fail e (s\<lparr> dc_grace := False \<rparr>)))" for e
    using same_frames_trans [OF same_frames_simple(2) [OF assms] same_frames_end] same_frames_ok [OF same_frames_simple(2) [OF assms]] by blast
  then show ?thesis using same_frames_simple [OF assms] by (simp add: handleICE_def)
qed

lemma same_frames_grace:
  assumes "inbox_ok s"
  shows "same_frames s (grace_fired ice s)"
proof -
  have g: "same_frames s (s\<lparr> dc_grace := False \<rparr>)" using assms by (rule same_frames_simple(2))
  have "same_frames s (dc_close (dc_fail e (s\<lparr> dc_grace := False \<rparr>)))" for e
    using same_frames_trans [OF g same_frames_end] same_frames_ok [OF g] by blast
  moreover have "same_frames s (ch_emit [Ice_unhealthy] (s\<lparr> dc_grace := False \<rparr>))"
    using same_frames_trans [OF g same_frames_simple(9)] same_frames_ok [OF g] by simp
  ultimately show ?thesis using g same_frames_simple(1) [OF assms] by (simp add: grace_fired_def Let_def)
qed

lemma same_frames_send:
  assumes "inbox_ok s"
  shows "same_frames s (snd (dc_send opened buffered throws f s))"
proof -
  have e: "same_frames s (ch_emit (map Wire_sent bs) s)" for bs using assms by (intro same_frames_simple(9)) simp_all
  have "same_frames s (closeUnderlying (dc_fail x (ch_emit (map Wire_sent bs) s)))" for x bs
    using same_frames_trans [OF e same_frames_over] same_frames_ok [OF e] by blast
  then show ?thesis using e same_frames_over [OF assms] same_frames_simple(1) [OF assms]
    by (simp add: dc_send_def split: sum.splits option.splits)
qed

lemma same_frames_pause: "inbox_ok s \<Longrightarrow> same_frames s (pauseIceWatch page s)"
  by (simp add: pauseIceWatch_def same_frames_def) (simp add: inbox_ok_def ch_delivered_def)

lemma same_frames_resume:
  assumes "inbox_ok s"
  shows "same_frames s (resumeIceWatch page ice over s)"
proof -
  have "inbox_ok (s\<lparr> dc_page_pause := False \<rparr>)" "inbox_ok (s\<lparr> dc_restart_pause := False \<rparr>)"
    using same_frames_simple(6,7) [OF assms, of False] by (simp_all add: same_frames_def)
  then show ?thesis using same_frames_trans [OF same_frames_simple(6) [OF assms] same_frames_ice]
      same_frames_trans [OF same_frames_simple(7) [OF assms] same_frames_ice] by (simp add: resumeIceWatch_def)
qed

lemma dc_receive_ok:
  assumes "inbox_ok s" and "dc_receive m s = (r, t)"
  shows "inbox_ok t \<and> ch_ended t = ch_ended s \<and> ch_delivered t @ ch_queue t = ch_delivered s @ ch_queue s @ (if r = Inr () then dc_arrival (Dc_message m) s else [])"
proof (cases "\<exists>b w a f. toBytes m = Inr b \<and> push (dc_assembler s) b = Inr (Some w, a) \<and> pwa_decode w = Inr f \<and> f_version f = 1")
  case True
  then obtain b w a f where x: "toBytes m = Inr b" "push (dc_assembler s) b = Inr (Some w, a)" "pwa_decode w = Inr f" "f_version f = 1" by blast
  then have "accept_frame f (s\<lparr> dc_assembler := a \<rparr>) = (r, t)" using assms(2) by (simp add: dc_receive_def)
  moreover have "inbox_ok (s\<lparr> dc_assembler := a \<rparr>)" using assms(1) by (simp add: inbox_ok_def)
  ultimately show ?thesis using accept_frame_ok [of "s\<lparr> dc_assembler := a \<rparr>" f r t] x assms(2)
    by (simp add: ch_delivered_def [of "s\<lparr> dc_assembler := a \<rparr>"] ch_delivered_def [of s])
next
  case False
  have "inbox_ok (s\<lparr> dc_assembler := a \<rparr>) \<and> ch_delivered (s\<lparr> dc_assembler := a \<rparr>) = ch_delivered s" for a
    using assms(1) by (simp add: inbox_ok_def ch_delivered_def)
  then show ?thesis using False assms
    by (auto simp: dc_receive_def split: sum.splits option.splits prod.splits if_splits)
qed

lemma dc_step_ok:
  assumes "inbox_ok s"
  shows "inbox_ok (dc_step i s) \<and> (ch_ended s \<longrightarrow> ch_ended (dc_step i s))
    \<and> ch_delivered (dc_step i s) @ ch_queue (dc_step i s) = ch_delivered s @ ch_queue s @ dc_arrival i s"
proof (cases "\<exists>m. i = Dc_message m")
  case True
  then obtain m where m: "i = Dc_message m" by blast
  obtain r t where r: "dc_receive m s = (r, t)" by (cases "dc_receive m s")
  note t = dc_receive_ok [OF assms r]
  show ?thesis
  proof (cases r)
    case (Inl e)
    have "same_frames t (dc_close (dc_fail (as_bad_frame e) t))" using t by (intro same_frames_end) simp
    then show ?thesis using t r Inl m by (simp add: dc_message_def same_frames_def)
  next
    case (Inr u)
    then show ?thesis using t r m by (simp add: dc_message_def)
  qed
next
  case False
  have "same_frames s (dc_step i s)"
  proof (cases i)
    case Dc_lost
    then show ?thesis using same_frames_trans [OF same_frames_fail [OF assms] same_frames_simple(9)] same_frames_ok [OF same_frames_fail [OF assms]] by simp
  qed (use False assms in \<open>simp_all add: same_frames_inbox same_frames_simple(1,3) same_frames_end same_frames_close same_frames_ice same_frames_grace
      same_frames_send same_frames_pause same_frames_resume\<close>)
  moreover have "dc_arrival i s = []" using False by (cases i) simp_all
  ultimately show ?thesis by (simp add: same_frames_def)
qed

interpretation direct: frame_channel "inbox_ok :: data_channel \<Rightarrow> bool" ch_ended ch_queue ch_delivered dc_step dc_arrival
  by unfold_locales (use dc_step_ok in \<open>auto simp: inbox_ok_def\<close>)

lemma new_channels_ok: "inbox_ok new_inbox" "ch_delivered new_inbox = []" "ch_queue new_inbox = []"
  "inbox_ok (new_data_channel ice over)" "ch_delivered (new_data_channel ice over) @ ch_queue (new_data_channel ice over) = []"
proof -
  show "inbox_ok new_inbox" "ch_delivered new_inbox = []" "ch_queue new_inbox = []" by (simp_all add: new_inbox_def inbox_ok_def ch_delivered_def)
  let ?s = "\<lparr> ch_queue = [], ch_waiters = [], ch_handler = False, ch_closers = [], ch_ended = False, ch_fresh = 0, ch_out = [],
       dc_assembler = new_assembler, dc_restart_pause = False, dc_page_pause = False, dc_grace = False, dc_unhealthy = False, dc_listening = True \<rparr>"
  have "inbox_ok ?s" by (simp add: inbox_ok_def)
  from same_frames_ice [OF this, of ice over]
  show "inbox_ok (new_data_channel ice over)" "ch_delivered (new_data_channel ice over) @ ch_queue (new_data_channel ice over) = []"
    by (simp_all add: new_data_channel_def same_frames_def ch_delivered_def)
qed

end
