(* ===== verification/ClientProperties.thy ===== *)
theory ClientProperties
  imports ClientPairDemo ClientSocket
begin

text \<open>
  What the phone's protocol library guarantees: whom it talks to, in which order it delivers, how a session's calls end,
  and that it speaks the relay's envelope. Each property is stated over the definitions that model the source; the
  witnesses run it on the primitives and the handshake of \<open>ClientDemo\<close>.
\<close>

section \<open>The handshake\<close>

text \<open>(C4) Whatever the channel does, the phone sends only its opening message, answers to pings, and its own proof; and the
  proof leaves only after the first frame that arrived carried a proof under the pairing's key and a signature of the
  pairing's computer, both over the transcript with this handshake's ephemeral key, nonce and route. When the handshake
  returns, that exchange happened, the relay confirmed this very route, and the two directions start at zero with keys
  derived from the shared secret with the key the computer vouched for.
\<close>

theorem handshake_authenticates:
  assumes "establishSessionEpoch su routeId pair protocol sk nonce s = (r, t)" and "hs_trace s = []"
  shows "(\<forall>g. Sent g \<in> set (hs_trace t) \<longrightarrow>
      jsonFrame Typ_FWD routeId (DeviceHello1 pair (x25519_public su sk) nonce) = Inr g \<or> f_typ g = Typ_PONG \<or>
      (\<exists>h1 f rest eph tr. hs_trace t = Sent h1 # Received f # rest \<and> vouched su pair routeId (x25519_public su sk) nonce f eph tr
         \<and> jsonFrame Typ_FWD routeId (DeviceHello3 su pair tr) = Inr g))
    \<and> (\<forall>ep. r = Inr ep \<longrightarrow> (\<exists>h1 f rest eph tr fe dh keys. hs_trace t = Sent h1 # Received f # rest
         \<and> vouched su pair routeId (x25519_public su sk) nonce f eph tr
         \<and> Received fe \<in> set rest \<and> validateSessionEstablished fe routeId protocol = Inr ()
         \<and> x25519_shared su sk eph = Some dh \<and> sessionKeys su dh (pr_psk pair) = Inr keys
         \<and> ep = \<lparr> ep_routeId = routeId, ep_c2s = new_direction (fst keys) DIR_C, ep_s2c = new_direction (snd keys) DIR_S \<rparr>))"
  using hs_run_cases [OF establish_run [OF assms]] by blast

theorem handshake_authenticates_witness:
  "\<exists>h1 f rest eph tr fe dh keys.
     [Sent demo_h1, Received demo_hello2, Observed ''hello_verified'', Sent demo_h3, Received demo_established, Observed ''session_established'']
       = Sent h1 # Received f # rest
     \<and> vouched demo_suite demo_pair demo_route (x25519_public demo_suite [4]) demo_nonce f eph tr
     \<and> Received fe \<in> set rest \<and> validateSessionEstablished fe demo_route V1 = Inr ()
     \<and> x25519_shared demo_suite [4] eph = Some dh \<and> sessionKeys demo_suite dh (pr_psk demo_pair) = Inr keys
     \<and> demo_epoch = \<lparr> ep_routeId = demo_route, ep_c2s = new_direction (fst keys) DIR_C, ep_s2c = new_direction (snd keys) DIR_S \<rparr>"
proof -
  have "hs_trace demo_handshake = []" by (simp add: demo_handshake_def)
  from handshake_authenticates [OF demo_handshake_ok this, THEN conjunct2, rule_format, OF refl] show ?thesis by simp
qed

section \<open>The stream\<close>

text \<open>(C5) With a sound cipher, whatever the network makes of the sealed records of one direction, replaying, dropping and
  reordering them and adding forgeries the cipher refuses, the receiver opens a prefix of what was sealed, each message once
  and in order; and when the records arrive as they were sealed it opens all of them.
\<close>

theorem sealed_stream_in_order:
  assumes "sound_suite su" and "length key = 32" and "seal_all su (new_direction key d) routeId ms = Inr (ws, d')"
    and "\<forall>p \<in> set ps. p \<in> set ws \<or> refused su (new_direction key d) routeId p"
  shows "(\<exists>n. fst (open_each su (new_direction key d) routeId ps) = take n ms) \<and> fst (open_each su (new_direction key d) routeId ws) = ms"
proof -
  have key: "length (dir_key (new_direction key d)) = 32" using assms(2) by (simp add: new_direction_def)
  show ?thesis
    using open_each_in_order [OF assms(1) key assms(3,4) refl refl, of 0] open_each_sealed [OF assms(1) key assms(3)] by auto
qed

theorem sealed_stream_in_order_witness:
  "\<exists>ws d'. seal_all demo_suite (new_direction (replicate 32 0) DIR_S) demo_route [[1], [2]] = Inr (ws, d')
     \<and> (\<exists>n. fst (open_each demo_suite (new_direction (replicate 32 0) DIR_S) demo_route ([9] # rev ws)) = take n [[1], [2]])
     \<and> fst (open_each demo_suite (new_direction (replicate 32 0) DIR_S) demo_route ws) = [[1], [2]]"
proof -
  let ?d = "new_direction (replicate 32 0) DIR_S"
  have r: "length demo_route = 16" by (simp add: demo_route_def)
  obtain w1 where w1: "seal demo_suite ?d demo_route [1] = Inr (w1, ?d\<lparr> dir_seq := dir_seq ?d + 1 \<rparr>)"
    by (rule seal_succeeds [OF demo_sound, of ?d demo_route "[1]"]) (use r in \<open>auto simp: new_direction_def\<close>)
  obtain w2 where w2: "seal demo_suite (?d\<lparr> dir_seq := 1 \<rparr>) demo_route [2] = Inr (w2, ?d\<lparr> dir_seq := 2 \<rparr>)"
    by (rule seal_succeeds [OF demo_sound, of "?d\<lparr> dir_seq := 1 \<rparr>" demo_route "[2]"]) (use r in \<open>auto simp: new_direction_def\<close>)
  have s: "seal_all demo_suite ?d demo_route [[1], [2]] = Inr ([w1, w2], ?d\<lparr> dir_seq := 2 \<rparr>)"
    using w1 w2 by (simp add: new_direction_def)
  have f: "refused demo_suite ?d demo_route [9]" by (simp add: refused_def aad_def r demo_suite_def new_direction_def)
  have arrivals: "\<forall>p \<in> set ([9] # rev [w1, w2]). p \<in> set [w1, w2] \<or> refused demo_suite ?d demo_route p" using f by auto
  from sealed_stream_in_order [OF demo_sound length_replicate s arrivals] s show ?thesis by blast
qed

section \<open>A session's life\<close>

text \<open>(C10) In every state a session can reach, whatever calls, timers, frames and refusals come in whatever order: each call is
  settled at most once, and a call that is not settled has its timer armed, so none is forgotten; at most 32 calls and 32
  late callbacks are held; no nonce is used for two frames; and once the epoch has ended no call waits, and no step sends,
  emits or resolves anything any more.
\<close>

theorem transport_epoch_sound:
  assumes "transport_reach su epoch t" and "dir_seq (ep_c2s epoch) = 0"
  shows "distinct (settled_calls t) \<and> set (settled_calls t) \<inter> timers_armed t = {} \<and> set (settled_calls t) \<union> timers_armed t = {..< st_fresh t}
    \<and> snd ` set (st_pending t) \<subseteq> timers_armed t \<and> length (st_pending t) \<le> 32 \<and> length (st_late t) \<le> 32
    \<and> distinct (used_nonces t)
    \<and> (st_stopped t \<longrightarrow> st_pending t = [] \<and> (\<forall>i. st_stopped (transport_step su i t)
         \<and> (\<exists>es. st_out (transport_step su i t) = st_out t @ es \<and> list_all silent_output es)))"
proof -
  have ok: "transport_ok t" using transport_reach_ok [OF assms(1)] assms(2) by simp
  then have "calls_ok t" by (simp add: transport_ok_def)
  from pending_numbers(2) [OF this] ok show ?thesis
    using stopped_stays [of t su] by (simp add: transport_ok_def calls_ok_def late_ok_def stop_ok_def nonce_ok_def)
qed

theorem transport_epoch_sound_witness:
  "\<exists>t. transport_reach demo_suite demo_epoch t \<and> st_stopped t \<and> st_pending t = [] \<and> distinct (settled_calls t) \<and> distinct (used_nonces t)
     \<and> st_stopped (transport_step demo_suite (Rpc None None [] ''Ping'' JNull False) t)"
proof -
  define t where "t = transport_step demo_suite Close
    (transport_step demo_suite (Rpc None None [1] ''Ping'' JNull True) (new_transport demo_suite False demo_epoch [] None None 0 False))"
  have r: "transport_reach demo_suite demo_epoch t" unfolding t_def by (intro transport_reach.intros)
  have s: "st_stopped t" by (simp add: t_def close_transport_def)
  have "dir_seq (ep_c2s demo_epoch) = 0" by (simp add: demo_epoch_def new_direction_def)
  from transport_epoch_sound [OF r this] r s show ?thesis by (intro exI [of _ t]) (simp del: transport_step.simps)
qed



section \<open>The wire\<close>

text \<open>(C36) Frames cut for the data channel come out of the assembler as they went in, however many follow each other, and every
  chunk fits in sixteen kilobytes. Whatever chunks arrive, what the assembler has handed out and what it still holds are
  together exactly the bytes received, and it never holds more than the largest frame.
\<close>

theorem direct_frames_reassemble:
  assumes "list_all2 (\<lambda>frame cs. splitDirectFrame frame = Inr cs) frames css"
  shows "push_all new_assembler (concat css) = Inr (frames, new_assembler)
    \<and> list_all (list_all (\<lambda>c. length c \<le> 16384)) css
    \<and> (\<forall>cs fs a. push_all new_assembler cs = Inr (fs, a) \<longrightarrow>
         concat fs @ received a = concat (map (drop 12) cs) \<and> length (asm_data a) \<le> 262168)"
proof -
  have "list_all (list_all (\<lambda>c. length c \<le> 16384)) css"
    using assms by (induction rule: list_all2_induct) (auto simp: list_all_iff splitDirectFrame_ok dest: split_loop_chunks)
  moreover have "assembler_ok new_assembler" by (simp add: assembler_ok_def)
  ultimately show ?thesis using push_split_frames [OF assms] push_all_ok [of new_assembler] by (fastforce simp: assembler_ok_def)
qed

theorem direct_frames_reassemble_witness:
  "\<exists>css. length css = 2 \<and> push_all new_assembler (concat css) = Inr ([replicate 40000 7, replicate 24 1], new_assembler)"
proof -
  have "list_all2 (\<lambda>frame cs. splitDirectFrame frame = Inr cs) [replicate 40000 7, replicate 24 1]
      [split_loop (replicate 40000 7) 0, split_loop (replicate 24 1) 0]"
    by (simp add: splitDirectFrame_ok valid_frame_length_def)
  from direct_frames_reassemble [OF this] show ?thesis by (intro exI [of _ "[_, _]"]) auto
qed

text \<open>(C38) The phone and the relay, written separately with their own version, types, header size and limit, speak the same
  envelope: they encode the same frames to the same bytes and accept the same bytes as the same frames. So a frame survives the
  way through the relay: what the phone encodes the relay decodes to that frame, its forwarding path takes the bytes exactly when the
  type is FWD, and once the relay has written any route of sixteen bytes into the header, the far end reads the frame with that
  route and nothing else changed.
\<close>

theorem phone_and_relay_agree:
  assumes "length r = 16"
  shows "(pwa_encode f = Inr w \<longleftrightarrow> encode f = Inr w) \<and> (pwa_decode w = Inr f \<longleftrightarrow> decode w = Inr f)
    \<and> (case pwa_encode f of Inl _ \<Rightarrow> f_version f \<noteq> 1 \<or> f_typ f \<notin> set KNOWN_TYPES \<or> f_flags f \<noteq> 0 \<or> length (f_routeId f) \<noteq> 16
            \<or> 262144 < length (f_payload f)
        | Inr b \<Rightarrow> decode b = Inr f \<and> decodeFwdMessage (BinaryMessage b) = (if f_typ f = Typ_FWD then FwdWire b else NotFwd)
            \<and> pwa_decode (set_route r b) = Inr (f\<lparr>f_routeId := r\<rparr>))"
proof (cases "pwa_encode f")
  case (Inl e)
  then have "pwa_validateFrame f \<noteq> Inr ()" by (auto simp: pwa_encode_def split: sum.splits)
  then have "f_version f \<noteq> 1 \<or> f_typ f \<notin> set KNOWN_TYPES \<or> f_flags f \<noteq> 0 \<or> length (f_routeId f) \<noteq> 16 \<or> 262144 < length (f_payload f)"
    by (auto simp: pwa_validateFrame_def known_types_agree split: if_splits)
  with Inl show ?thesis by (simp add: pwa_encode_iff [symmetric] pwa_decode_iff)
next
  case (Inr b)
  from pwa_wire_at_relay [OF this] decode_set_route [OF pwa_wire_at_relay(1) [OF this] assms] Inr
  show ?thesis by (simp add: pwa_encode_iff [symmetric] pwa_decode_iff)
qed

theorem phone_and_relay_agree_witness:
  "\<exists>b. pwa_encode \<lparr> f_version = 1, f_typ = Typ_FWD, f_flags = 0, f_routeId = Z16, f_payload = [7] \<rparr> = Inr b \<and>
       pwa_decode (set_route (replicate 16 3) b)
         = Inr \<lparr> f_version = 1, f_typ = Typ_FWD, f_flags = 0, f_routeId = replicate 16 3, f_payload = [7] \<rparr>"
proof -
  let ?f = "\<lparr> f_version = 1, f_typ = Typ_FWD, f_flags = 0, f_routeId = Z16, f_payload = [7] \<rparr>"
  obtain b where b: "pwa_encode ?f = Inr b"
    by (simp add: pwa_encode_def pwa_validateFrame_def pwa_KNOWN_TYPES_def Z16_def)
  then show ?thesis using phone_and_relay_agree [of "replicate 16 3" ?f b] by auto
qed

text \<open>(C37) Both frame channels, the socket to the relay and the data channel to the computer, deliver frames in the order they arrived and
  each at most once, whatever messages, waits, timeouts, failures and hand-overs come in between; never more than 64 frames
  wait; and as long as the channel is open every frame that arrived was delivered or still waits, in order.
\<close>

theorem channels_deliver_in_order:
  "(let s = fold fs_step is new_inbox; fs = arrivals fs_step fs_arrival is new_inbox in
      subseq (ch_delivered s @ ch_queue s) fs \<and> length (ch_queue s) \<le> 64 \<and> (ch_ended s \<or> ch_delivered s @ ch_queue s = fs))
   \<and> (let d = new_data_channel ice over; s = fold dc_step js d; fs = arrivals dc_step dc_arrival js d in
      subseq (ch_delivered s @ ch_queue s) fs \<and> length (ch_queue s) \<le> 64 \<and> (ch_ended s \<or> ch_delivered s @ ch_queue s = fs))"
proof -
  note n = new_channels_ok(1-3) new_channels_ok(4,5) [of ice over]
  have d: "ch_delivered (new_data_channel ice over) = []" "ch_queue (new_data_channel ice over) = []" using n(5) by simp_all
  show ?thesis unfolding Let_def
    using relay.run_order [OF n(1), of "is"] relay.run_exact [OF n(1), of "is"] relay.queue_bounded [OF relay.run_ok [OF n(1)], of "is"]
      direct.run_order [OF n(4), of js] direct.run_exact [OF n(4), of js] direct.queue_bounded [OF direct.run_ok [OF n(4)], of js] n(2,3) d
    by (intro conjI) auto
qed

section \<open>Pairing\<close>

text \<open>(C6) Until a computer has proved that it knows the code, the phone sends only greetings, heartbeats and its key share; and
  a pairing that succeeds rests on such a proof: the stored key, secret, name and fingerprint are those of the message that
  opened under the key the two sides share, bearing the tag of that key, the name the relay announced and the expected
  fingerprint. In every case the heartbeat has stopped.\<close>

theorem pairing_authenticates:
  assumes "pairOverWS en pair_ref secret s = (r, t)" and "ps_trace s = []" and "ps_beat s = None"
  shows "(\<exists>routeId es fs. ps_trace t = es @ fs \<and> list_all (introductory routeId) es
      \<and> (fs \<noteq> [] \<longrightarrow> (\<exists>f ref code daemonId ks. normalizePairInput pair_ref secret = Inr (ref, code)
           \<and> Received f \<in> set es \<and> share_proved en routeId code daemonId f ks)))
    \<and> (\<forall>res. r = Inr res \<longrightarrow> (\<exists>f fc routeId ref code ks confirm. normalizePairInput pair_ref secret = Inr (ref, code)
         \<and> Received f \<in> set (ps_trace t) \<and> share_proved en routeId code (pr_daemonId res) f ks
         \<and> Received fc \<in> set (ps_trace t) \<and> f_routeId fc = routeId
         \<and> open_confirmation (pe_suite en) ks routeId fc = Inr confirm \<and> credential_of en (pr_daemonId res) ks confirm res
         \<and> nonempty (pe_expectedDaemonId en) \<in> {None, Some (pr_daemonId res)} \<and> pe_origin en = Inr (pr_relayOrigin res)))
    \<and> ps_beat t = None"
proof -
  consider e where "r = Inl e" "t = s"
    | ref code origin u where "normalizePairInput pair_ref secret = Inr (ref, code)" "pe_origin en = Inr origin"
        "pair_body en ref code origin s = (r, u)" "t = pair_cleanup u"
    using pairOverWS_run [OF assms(1)] by blast
  then show ?thesis
  proof cases
    case 1
    then show ?thesis using assms(2,3) by simp
  next
    case 2
    obtain routeId es fs where tr: "ps_trace u = es @ fs" "list_all (introductory routeId) es"
      "fs \<noteq> [] \<longrightarrow> (\<exists>f daemonId ks. Received f \<in> set es \<and> share_proved en routeId code daemonId f ks)"
      using pair_body_trace [OF 2(3)] unfolding assms(2) append_Nil by blast
    have "\<exists>routeId es fs. ps_trace t = es @ fs \<and> list_all (introductory routeId) es
        \<and> (fs \<noteq> [] \<longrightarrow> (\<exists>f ref code daemonId ks. normalizePairInput pair_ref secret = Inr (ref, code)
             \<and> Received f \<in> set es \<and> share_proved en routeId code daemonId f ks))"
      using tr 2(1,4) by (metis pair_cleanup_trace(1))
    moreover have "\<exists>f fc routeId ref code ks confirm. normalizePairInput pair_ref secret = Inr (ref, code)
         \<and> Received f \<in> set (ps_trace t) \<and> share_proved en routeId code (pr_daemonId res) f ks
         \<and> Received fc \<in> set (ps_trace t) \<and> f_routeId fc = routeId
         \<and> open_confirmation (pe_suite en) ks routeId fc = Inr confirm \<and> credential_of en (pr_daemonId res) ks confirm res
         \<and> nonempty (pe_expectedDaemonId en) \<in> {None, Some (pr_daemonId res)} \<and> pe_origin en = Inr (pr_relayOrigin res)" if "r = Inr res" for res
      using pair_body_credential [OF 2(3) [unfolded that]] 2(1,2,4) by simp blast
    ultimately show ?thesis using 2(4) by simp
  qed
qed

theorem pairing_authenticates_witness:
  "\<exists>res t f fc routeId code ks confirm. pairOverWS demo_pair_env None (CodeSecret ''ABCD2345'') demo_pairing = (Inr res, t)
     \<and> Received f \<in> set (ps_trace t) \<and> share_proved demo_pair_env routeId code (pr_daemonId res) f ks
     \<and> Received fc \<in> set (ps_trace t) \<and> open_confirmation (pe_suite demo_pair_env) ks routeId fc = Inr confirm
     \<and> credential_of demo_pair_env (pr_daemonId res) ks confirm res \<and> ps_beat t = None"
proof -
  obtain res t where run: "pairOverWS demo_pair_env None (CodeSecret ''ABCD2345'') demo_pairing = (Inr res, t)" using demo_pairing_runs by blast
  have "ps_trace demo_pairing = []" "ps_beat demo_pairing = None" by (simp_all add: demo_pairing_def ps_trace_def)
  from pairing_authenticates [OF run this] run show ?thesis by blast
qed

text \<open>(C13) The key exchange of pairing separates codes: a phone and a computer that both finished their halves hashed the same
  transcript exactly when they derived the same record from the code, and then they have the same keys.\<close>

theorem spake_agrees_iff_same_record:
  assumes "sound_curve cv"
    and "deriveRecord su argon cv code daemonId ref = Inr rP" and "deriveRecord su argon cv code' daemonId ref = Inr rV"
    and "prover_start cv rP (idProver ref) daemonId bytes = Inr pv"
    and "verifier_points cv (sr_w0 rV) (sr_L rV) (pv_shareP pv) y = Inr (shareV, Zv, Vv)"
    and "prover_points cv pv shareV = Inr (Zp, Vp)"
  shows "(spake_transcript SPAKE_CONTEXT (idProver ref) daemonId (pv_shareP pv) shareV Zp Vp (sr_w0 rP)
        = spake_transcript SPAKE_CONTEXT (idProver ref) daemonId (pv_shareP pv) shareV Zv Vv (sr_w0 rV) \<longleftrightarrow> rP = rV)
    \<and> (rP = rV \<longrightarrow> (\<exists>ks. prover_finish su cv pv shareV = Inr ks
        \<and> verifier_finish su cv (sr_w0 rV) (sr_L rV) (idProver ref) daemonId (pv_shareP pv) y = Inr (shareV, ks)))"
  using transcripts_agree_iff [OF assms] keys_agree [OF assms(1,2,4) _ assms(6)] assms(5) by blast

theorem spake_agrees_iff_same_record_witness:
  "\<exists>ks pv shareV. prover_start demo_curve demo_record (idProver ''r'') ''d'' [1] = Inr pv
     \<and> prover_finish demo_suite demo_curve pv shareV = Inr ks
     \<and> verifier_finish demo_suite demo_curve (sr_w0 demo_record) (sr_L demo_record) (idProver ''r'') ''d'' (pv_shareP pv) 1 = Inr (shareV, ks)"
proof -
  let ?pv = "demo_prover\<lparr> pv_idP := idProver ''r'', pv_idV := ''d'' \<rparr>"
  have v: "verifier_points demo_curve (sr_w0 demo_record) (sr_L demo_record) (pv_shareP ?pv) 1
      = Inr (4 # replicate 63 0 @ [2], 4 # replicate 63 0 @ [1], 4 # replicate 63 0 @ [1])"
    using demo_spake(3) by (simp add: demo_record_def demo_prover_def)
  have p: "prover_points demo_curve ?pv (4 # replicate 63 0 @ [2]) = Inr (4 # replicate 63 0 @ [1], 4 # replicate 63 0 @ [1])"
    using demo_spake(4) by (simp add: prover_points_def)
  show ?thesis
    using spake_agrees_iff_same_record [OF demo_curve_sound demo_spake(1) [of "''c''" "''d''" "''r''"] demo_spake(1) [of "''c''" "''d''" "''r''"] demo_spake(2) v p]
      demo_spake(2) by blast
qed

end
