(* ===== verification/ClientVault.thy ===== *)
theory ClientVault
  imports ClientInput ClientHandshake ClientSpake "HOL-Library.AList"
begin

text \<open>
  The credentials a phone keeps and the encrypted vault that carries them to the owner's other phones: checks and encoding of
  a credential (\<^verbatim>\<open>pwa/src/lib/credentials.ts\<close>), the keys and records of the vault (\<^verbatim>\<open>vault-crypto.ts\<close>), its descriptor
  and the merge of two catalogues (\<^verbatim>\<open>account-vault.ts\<close>). The cipher is a parameter. The lemmas show that a vault reads back
  what was written, that its additional data fixes user and version, and what a merge keeps.
\<close>

section \<open>Credentials\<close>

record stored_credential =
  sc_daemon_id :: string
  sc_device_id :: string
  sc_device_psk :: string
  sc_daemon_pk :: string
  sc_relay_origin :: string
  sc_fp :: string
  sc_label :: string
  sc_created_at :: number
  sc_hostname :: "string option"
  sc_last_seen :: "number option"

text \<open>The object as JSON prints it, optional fields last.\<close>

definition credential_json :: "stored_credential \<Rightarrow> json" where
  "credential_json c = JObj
     ([(''daemon_id'', JStr (sc_daemon_id c)), (''device_id'', JStr (sc_device_id c)), (''device_psk'', JStr (sc_device_psk c)),
       (''daemon_pk'', JStr (sc_daemon_pk c)), (''relay_origin'', JStr (sc_relay_origin c)), (''fp'', JStr (sc_fp c)),
       (''label'', JStr (sc_label c)), (''created_at'', JNum (sc_created_at c))]
      @ (case sc_hostname c of None \<Rightarrow> [] | Some h \<Rightarrow> [(''hostname'', JStr h)])
      @ (case sc_last_seen c of None \<Rightarrow> [] | Some t \<Rightarrow> [(''last_seen'', JNum t)]))"

definition optionalHostname :: "json option \<Rightarrow> string option" where
  "optionalHostname value =
     (case value of
        Some (JStr s) \<Rightarrow>
          (let hostname = js_trim s in
           if hostname = [] \<or> length hostname > 255 \<or> list_ex (\<lambda>c. (of_char c :: nat) \<le> 0x1f \<or> (of_char c :: nat) = 0x7f) hostname then None
           else Some hostname)
      | _ \<Rightarrow> None)"

definition optionalTimestamp :: "json option \<Rightarrow> number option" where
  "optionalTimestamp value =
     (case value of Some (JNum n) \<Rightarrow> if isSafeInteger value \<and> n > 0 then Some n else None | _ \<Rightarrow> None)"

definition exactB64 :: "json option \<Rightarrow> nat \<Rightarrow> byte list option" where
  "exactB64 value bytes =
     (case value of
        Some (JStr s) \<Rightarrow>
          if s = [] \<or> \<not> list_all (\<lambda>c. c \<in> set B64) s then None
          else (case b64urlDecode s of
              Inl _ \<Rightarrow> None
            | Inr decoded \<Rightarrow> if length decoded = bytes \<and> b64url decoded = s then Some decoded else None)
      | _ \<Rightarrow> None)"

text \<open>\<open>url_origin\<close> is \<^verbatim>\<open>new URL(x).origin\<close>, which throws on what is not a URL.\<close>

definition validateStoredCredential :: "suite \<Rightarrow> (string \<Rightarrow> string option) \<Rightarrow> json \<Rightarrow> stored_credential option" where
  "validateStoredCredential su url_origin value =
     (case value of
        JObj item \<Rightarrow>
          (case (jget item ''daemon_id'', jget item ''device_id'', jget item ''relay_origin'', jget item ''fp'', jget item ''label'', jget item ''created_at'') of
             (Some (JStr daemonId), Some (JStr deviceId), Some (JStr origin), Some (JStr fp), Some (JStr label), Some (JNum created)) \<Rightarrow>
               if \<not> DAEMON_ID_RE daemonId \<or> \<not> DEVICE_ID_RE deviceId \<or> \<not> isSafeInteger (Some (JNum created)) then None
               else if url_origin origin \<noteq> Some origin then None
               else (case (exactB64 (jget item ''device_psk'') 32, exactB64 (jget item ''daemon_pk'') 32) of
                   (Some psk, Some daemonPk) \<Rightarrow>
                     if fingerprint16 su daemonPk \<noteq> fp then None
                     else Some \<lparr> sc_daemon_id = daemonId, sc_device_id = deviceId, sc_device_psk = b64url psk, sc_daemon_pk = b64url daemonPk,
                                 sc_relay_origin = origin, sc_fp = fp, sc_label = label, sc_created_at = created,
                                 sc_hostname = optionalHostname (jget item ''hostname''), sc_last_seen = optionalTimestamp (jget item ''last_seen'') \<rparr>
                 | _ \<Rightarrow> None)
           | _ \<Rightarrow> None)
      | _ \<Rightarrow> None)"

text \<open>A pairing as the application holds it.\<close>

record app_pair = pair_result +
  ap_relayOrigin :: string
  ap_fp :: string
  ap_label :: string
  ap_createdAt :: number
  ap_hostname :: "string option"
  ap_lastSeen :: "number option"

definition encodeCredential :: "suite \<Rightarrow> (string \<Rightarrow> string option) \<Rightarrow> app_pair \<Rightarrow> stored_credential fallible" where
  "encodeCredential su url_origin pair =
     (let stored = \<lparr> sc_daemon_id = pr_daemonId pair, sc_device_id = pr_deviceId pair, sc_device_psk = b64url (pr_psk pair),
                     sc_daemon_pk = b64url (pr_daemonPk pair), sc_relay_origin = ap_relayOrigin pair, sc_fp = ap_fp pair,
                     sc_label = ap_label pair, sc_created_at = ap_createdAt pair,
                     sc_hostname = optionalHostname (map_option JStr (ap_hostname pair)),
                     sc_last_seen = optionalTimestamp (map_option JNum (ap_lastSeen pair)) \<rparr>
      in case validateStoredCredential su url_origin (credential_json stored) of
           None \<Rightarrow> Inl (OtherError ''invalid credential'') | Some _ \<Rightarrow> Inr stored)"

definition decodeCredential :: "suite \<Rightarrow> (string \<Rightarrow> string option) \<Rightarrow> stored_credential \<Rightarrow> app_pair fallible" where
  "decodeCredential su url_origin stored =
     (case validateStoredCredential su url_origin (credential_json stored) of
        None \<Rightarrow> Inl (OtherError ''invalid credential'')
      | Some valid \<Rightarrow>
          (case (b64urlDecode (sc_device_psk valid), b64urlDecode (sc_daemon_pk valid)) of
             (Inr psk, Inr daemonPk) \<Rightarrow>
               Inr \<lparr> pr_daemonId = sc_daemon_id valid, pr_deviceId = sc_device_id valid, pr_psk = psk, pr_daemonPk = daemonPk,
                     ap_relayOrigin = sc_relay_origin valid, ap_fp = sc_fp valid, ap_label = sc_label valid,
                     ap_createdAt = sc_created_at valid, ap_hostname = sc_hostname valid, ap_lastSeen = sc_last_seen valid \<rparr>
           | (Inl e, _) \<Rightarrow> Inl (plain e)
           | (_, Inl e) \<Rightarrow> Inl (plain e)))"

section \<open>Sealed records\<close>

text \<open>\<^verbatim>\<open>xchacha20poly1305(key, nonce, aad)\<close>; a bad length of key or nonce throws.\<close>

record xchacha =
  xc_encrypt :: "byte list \<Rightarrow> byte list \<Rightarrow> byte list \<Rightarrow> byte list \<Rightarrow> byte list option"
  xc_decrypt :: "byte list \<Rightarrow> byte list \<Rightarrow> byte list \<Rightarrow> byte list \<Rightarrow> byte list option"

definition sound_xchacha :: "xchacha \<Rightarrow> bool" where
  "sound_xchacha xc \<longleftrightarrow>
     (\<forall>k n a p. length k = 32 \<longrightarrow> length n = 24 \<longrightarrow>
        (\<exists>ct. xc_encrypt xc k n a p = Some ct \<and> length ct = length p + 16 \<and> xc_decrypt xc k n a ct = Some p))"

definition KEY_BYTES :: nat where [simp]: "KEY_BYTES = 32"
definition NONCE_BYTES :: nat where [simp]: "NONCE_BYTES = 24"

record sealed_bytes =
  sb_ciphertext :: string
  sb_nonce :: string

text \<open>The nonce is drawn at random; it is an argument here.\<close>

definition vault_seal :: "xchacha \<Rightarrow> byte list \<Rightarrow> byte list \<Rightarrow> byte list \<Rightarrow> byte list \<Rightarrow> sealed_bytes fallible" where
  "vault_seal xc nonce key plaintext a =
     bindF (or_throw ''encrypt'' (xc_encrypt xc key nonce a plaintext)) (\<lambda>ct.
     Inr \<lparr> sb_ciphertext = base64Encode ct, sb_nonce = base64Encode nonce \<rparr>)"

definition vault_open :: "xchacha \<Rightarrow> byte list \<Rightarrow> sealed_bytes \<Rightarrow> byte list \<Rightarrow> byte list fallible" where
  "vault_open xc key sealed a =
     bindF (base64Decode (sb_nonce sealed)) (\<lambda>nonce.
     if length nonce \<noteq> NONCE_BYTES then Inl (OtherError ''vault nonce length'')
     else bindF (base64Decode (sb_ciphertext sealed)) (\<lambda>ct. or_throw ''decrypt'' (xc_decrypt xc key nonce a ct)))"

section \<open>Keys\<close>

record kdf_params =
  kp_parallelism :: nat
  kp_iterations :: nat
  kp_memorySize :: nat

definition VAULT_KDF :: string where "VAULT_KDF = ''argon2id-v1''"

definition VAULT_KDF_PARAMS :: kdf_params where
  "VAULT_KDF_PARAMS = \<lparr> kp_parallelism = 1, kp_iterations = 3, kp_memorySize = 65536 \<rparr>"

definition accountSalt :: "suite \<Rightarrow> string \<Rightarrow> string \<Rightarrow> byte list" where
  "accountSalt su username host =
     take 16 (sha256_of su (concat_bytes [text_bytes ''pairfob-v1/account-salt'', lenPref (text_bytes username), lenPref (text_bytes host)]))"

definition deriveAccountKeys :: "suite \<Rightarrow> argon \<Rightarrow> string \<Rightarrow> string \<Rightarrow> string \<Rightarrow> kdf_params \<Rightarrow> string \<times> byte list" where
  "deriveAccountKeys su argon2id username password host params =
     (let master = argon2id password (accountSalt su username host) (kp_parallelism params) (kp_iterations params) (kp_memorySize params) 32 in
      (pwa_bytesToHex (pairfobHKDF su master None (text_bytes ''pairfob-v1/account-auth'') KEY_BYTES),
       pairfobHKDF su master None (text_bytes ''pairfob-v1/account-wrap'') KEY_BYTES))"

record wrapped_vault =
  wv_params :: kdf_params
  wv_wrapped :: string
  wv_wrapNonce :: string

definition wrapAad :: "string \<Rightarrow> byte list" where
  "wrapAad username = concat_bytes [text_bytes ''pairfob-v1/vault-key'', lenPref (text_bytes username)]"

definition wrapVaultKey :: "xchacha \<Rightarrow> byte list \<Rightarrow> byte list \<Rightarrow> byte list \<Rightarrow> string \<Rightarrow> kdf_params \<Rightarrow> wrapped_vault fallible" where
  "wrapVaultKey xc nonce wrapKey vaultKey username params =
     bindF (vault_seal xc nonce wrapKey vaultKey (wrapAad username)) (\<lambda>sealed.
     Inr \<lparr> wv_params = params, wv_wrapped = sb_ciphertext sealed, wv_wrapNonce = sb_nonce sealed \<rparr>)"

definition unwrapVaultKey :: "xchacha \<Rightarrow> byte list \<Rightarrow> wrapped_vault \<Rightarrow> string \<Rightarrow> byte list fallible" where
  "unwrapVaultKey xc wrapKey rc username =
     bindF (vault_open xc wrapKey \<lparr> sb_ciphertext = wv_wrapped rc, sb_nonce = wv_wrapNonce rc \<rparr> (wrapAad username)) (\<lambda>key.
     if length key \<noteq> KEY_BYTES then Inl (OtherError ''vault key length'') else Inr key)"

section \<open>The vault\<close>

definition blobAad :: "string \<Rightarrow> nat \<Rightarrow> byte list" where
  "blobAad userId version = concat_bytes [text_bytes ''pairfob-v1/vault-blob'', lenPref (text_bytes userId), u64be version]"

definition contentKey :: "suite \<Rightarrow> byte list \<Rightarrow> byte list" where
  "contentKey su vaultKey = pairfobHKDF su vaultKey None (text_bytes ''pairfob-v1/vault-content'') KEY_BYTES"

definition vault_content :: "json list \<Rightarrow> json" where
  "vault_content credentials = JObj [(''v'', JNum 1), (''credentials'', JArr credentials)]"

definition sealVault :: "suite \<Rightarrow> xchacha \<Rightarrow> byte list \<Rightarrow> byte list \<Rightarrow> json list \<Rightarrow> string \<Rightarrow> nat \<Rightarrow> sealed_bytes fallible" where
  "sealVault su xc nonce vaultKey credentials userId version =
     vault_seal xc nonce (contentKey su vaultKey) (text_bytes (print_json (vault_content credentials))) (blobAad userId version)"

text \<open>\<^verbatim>\<open>new TextDecoder().decode\<close> drops a byte order mark.\<close>

definition text_decode :: "byte list \<Rightarrow> string" where
  "text_decode bytes = utf8_decode (if take 3 bytes = [0xEF, 0xBB, 0xBF] then drop 3 bytes else bytes)"

definition openVault :: "suite \<Rightarrow> xchacha \<Rightarrow> byte list \<Rightarrow> sealed_bytes \<Rightarrow> string \<Rightarrow> nat \<Rightarrow> json list fallible" where
  "openVault su xc vaultKey sealed userId version =
     bindF (vault_open xc (contentKey su vaultKey) sealed (blobAad userId version)) (\<lambda>plaintext.
     bindF (or_throw ''SyntaxError'' (JSON_parse (text_decode plaintext))) (\<lambda>parsed.
     case parsed of
       JObj rc \<Rightarrow>
         (case (jget rc ''v'', jget rc ''credentials'') of
            (Some (JNum n), Some (JArr cs)) \<Rightarrow> if n = 1 then Inr cs else Inl (OtherError ''vault content shape'')
          | _ \<Rightarrow> Inl (OtherError ''vault content shape''))
     | _ \<Rightarrow> Inl (OtherError ''vault content shape'')))"

definition encryptVault ::
  "suite \<Rightarrow> xchacha \<Rightarrow> byte list \<Rightarrow> byte list \<Rightarrow> stored_credential list \<Rightarrow> string \<Rightarrow> nat \<Rightarrow> sealed_bytes fallible" where
  "encryptVault su xc nonce vaultKey credentials userId version =
     sealVault su xc nonce vaultKey (map credential_json credentials) userId version"

definition decryptVault ::
  "suite \<Rightarrow> xchacha \<Rightarrow> (string \<Rightarrow> string option) \<Rightarrow> byte list \<Rightarrow> sealed_bytes \<Rightarrow> string \<Rightarrow> nat \<Rightarrow> (stored_credential list \<times> nat) fallible" where
  "decryptVault su xc url_origin vaultKey sealed userId version =
     bindF (openVault su xc vaultKey sealed userId version) (\<lambda>cs.
     Inr (List.map_filter (validateStoredCredential su url_origin) cs, version))"

section \<open>The descriptor\<close>

record kdf_descriptor =
  kd_name :: string
  kd_params :: kdf_params
  kd_wrapped :: string
  kd_wrapNonce :: string

fun split_at :: "char \<Rightarrow> string \<Rightarrow> string list" where
  "split_at d [] = [[]]"
| "split_at d (c # cs) = (if c = d then [] # split_at d cs else case split_at d cs of [] \<Rightarrow> [[c]] | w # ws \<Rightarrow> (c # w) # ws)"

fun join_with :: "string \<Rightarrow> string list \<Rightarrow> string" where
  "join_with d [] = []"
| "join_with d [w] = w"
| "join_with d (w # ws) = w @ d @ join_with d ws"

definition encodeKdf :: "kdf_descriptor \<Rightarrow> string" where
  "encodeKdf d =
     join_with ''.'' [kd_name d, decimal (kp_iterations (kd_params d)), decimal (kp_memorySize (kd_params d)), decimal (kp_parallelism (kd_params d)),
       kd_wrapped d, kd_wrapNonce d]"

definition count :: "string \<Rightarrow> nat option" where
  "count value =
     (if value = [] \<or> \<not> list_all is_digit value then None
      else let parsed = digits_value value in if parsed \<le> 2 ^ 53 - 1 \<and> parsed > 0 then Some parsed else None)"

definition decodeKdf :: "string \<Rightarrow> kdf_descriptor fallible" where
  "decodeKdf value =
     (case split_at (CHR ''.'') value of
        [name, t, m, p, wrapped, wrapNonce] \<Rightarrow>
          if name = [] \<or> wrapped = [] \<or> wrapNonce = [] then Inl (OtherError ''kdf shape'')
          else (case (count t, count m, count p) of
              (Some iterations, Some memorySize, Some parallelism) \<Rightarrow>
                Inr \<lparr> kd_name = name, kd_params = \<lparr> kp_parallelism = parallelism, kp_iterations = iterations, kp_memorySize = memorySize \<rparr>,
                      kd_wrapped = wrapped, kd_wrapNonce = wrapNonce \<rparr>
            | _ \<Rightarrow> Inl (OtherError ''kdf params''))
      | _ \<Rightarrow> Inl (OtherError ''kdf shape''))"

definition rewrapDescriptor :: "xchacha \<Rightarrow> byte list \<Rightarrow> byte list \<Rightarrow> byte list \<Rightarrow> string \<Rightarrow> kdf_descriptor fallible" where
  "rewrapDescriptor xc nonce wrapKey vaultKey username =
     bindF (wrapVaultKey xc nonce wrapKey vaultKey username VAULT_KDF_PARAMS) (\<lambda>rc.
     Inr \<lparr> kd_name = VAULT_KDF, kd_params = wv_params rc, kd_wrapped = wv_wrapped rc, kd_wrapNonce = wv_wrapNonce rc \<rparr>)"

text \<open>A new vault draws its key and the nonce of its wrapping.\<close>

definition newKdfDescriptor :: "xchacha \<Rightarrow> byte list \<Rightarrow> byte list \<Rightarrow> byte list \<Rightarrow> string \<Rightarrow> (kdf_descriptor \<times> byte list) fallible" where
  "newKdfDescriptor xc vaultKey nonce wrapKey username =
     bindF (rewrapDescriptor xc nonce wrapKey vaultKey username) (\<lambda>d. Inr (d, vaultKey))"

definition recoverVaultKey ::
  "suite \<Rightarrow> argon \<Rightarrow> xchacha \<Rightarrow> string \<Rightarrow> string \<Rightarrow> string \<Rightarrow> kdf_descriptor \<Rightarrow> byte list fallible" where
  "recoverVaultKey su argon2id xc username password host d =
     unwrapVaultKey xc (snd (deriveAccountKeys su argon2id username password host (kd_params d)))
       \<lparr> wv_params = kd_params d, wv_wrapped = kd_wrapped d, wv_wrapNonce = kd_wrapNonce d \<rparr> username"

section \<open>Merging\<close>

definition merge_step :: "stored_credential \<Rightarrow> (string \<times> stored_credential) list \<Rightarrow> (string \<times> stored_credential) list" where
  "merge_step c byDaemon =
     (case map_of byDaemon (sc_daemon_id c) of
        None \<Rightarrow> byDaemon @ [(sc_daemon_id c, c)]
      | Some existing \<Rightarrow> if sc_created_at c > sc_created_at existing then AList.update (sc_daemon_id c) c byDaemon else byDaemon)"

text \<open>A \<^verbatim>\<open>Map\<close> keeps the order in which keys were first set; \<^verbatim>\<open>sort\<close> is stable.\<close>

definition mergeCredentials :: "stored_credential list \<Rightarrow> stored_credential list \<Rightarrow> stored_credential list" where
  "mergeCredentials local remote =
     sort_key (\<lambda>c. - sc_created_at c) (map snd (fold merge_step (remote @ local) []))"

definition scopeToOwnedDevices :: "stored_credential list \<Rightarrow> string list \<Rightarrow> stored_credential list" where
  "scopeToOwnedDevices credentials ownedDaemonIds = filter (\<lambda>c. sc_daemon_id c \<in> set ownedDaemonIds) credentials"

section \<open>A credential reads back\<close>

lemma exactB64_iff: "exactB64 v n = Some bs \<longleftrightarrow> v = Some (JStr (b64url bs)) \<and> length bs = n \<and> bs \<noteq> []"
proof
  assume "exactB64 v n = Some bs"
  then obtain s where s: "v = Some (JStr s)" "s \<noteq> []" "b64urlDecode s = Inr bs" "length bs = n"
    by (auto simp: exactB64_def split: option.splits json.splits if_splits sum.splits)
  then show "v = Some (JStr (b64url bs)) \<and> length bs = n \<and> bs \<noteq> []" by (auto simp: b64urlDecode_iff)
next
  assume "v = Some (JStr (b64url bs)) \<and> length bs = n \<and> bs \<noteq> []"
  then show "exactB64 v n = Some bs" using b64url_alphabet [of bs] by (auto simp: exactB64_def b64urlDecode_b64url list_all_iff)
qed

lemma js_trim_idem: "js_trim (js_trim s) = js_trim s"
proof (cases "js_trim s = []")
  case False
  define u where "u = dropWhile is_js_space s"
  define w where "w = dropWhile is_js_space (rev u)"
  have js: "js_trim s = rev w" by (simp add: js_trim_def u_def w_def)
  then have w: "w \<noteq> []" "\<not> is_js_space (hd w)" using False hd_dropWhile [of is_js_space "rev u"] by (auto simp: w_def)
  obtain zs where zs: "rev u = zs @ w" by (metis w_def takeWhile_dropWhile_id)
  then have u: "u = rev w @ rev zs" by (metis rev_append rev_rev_ident)
  then have "u \<noteq> []" using w(1) by simp
  then have "\<not> is_js_space (hd u)" unfolding u_def by (rule hd_dropWhile)
  then have "\<not> is_js_space (hd (rev w))" using u w(1) by (simp add: hd_append)
  then have "dropWhile is_js_space (rev w) = rev w" using w(1) by (cases "rev w") auto
  moreover have "dropWhile is_js_space w = w" using w by (cases w) auto
  ultimately show ?thesis by (simp only: js) (simp add: js_trim_def)
next
  case True
  then show ?thesis by (simp only: True) (simp add: js_trim_def)
qed

lemma optionalHostname_stable: "optionalHostname v = Some h \<Longrightarrow> optionalHostname (Some (JStr h)) = Some h"
  by (auto simp: optionalHostname_def Let_def js_trim_idem split: option.splits json.splits if_splits)

lemma optionalTimestamp_stable: "optionalTimestamp v = Some t \<Longrightarrow> optionalTimestamp (Some (JNum t)) = Some t"
  by (auto simp: optionalTimestamp_def split: option.splits json.splits if_splits)

text \<open>The conditions on a credential, apart from its optional fields.\<close>

definition credential_ok :: "suite \<Rightarrow> (string \<Rightarrow> string option) \<Rightarrow> stored_credential \<Rightarrow> bool" where
  "credential_ok su url_origin c \<longleftrightarrow>
     DAEMON_ID_RE (sc_daemon_id c) \<and> DEVICE_ID_RE (sc_device_id c) \<and> isSafeInteger (Some (JNum (sc_created_at c)))
     \<and> url_origin (sc_relay_origin c) = Some (sc_relay_origin c)
     \<and> (\<exists>psk pk. sc_device_psk c = b64url psk \<and> length psk = 32 \<and> sc_daemon_pk c = b64url pk \<and> length pk = 32 \<and> sc_fp c = fingerprint16 su pk)
     \<and> (\<forall>h. sc_hostname c = Some h \<longrightarrow> optionalHostname (Some (JStr h)) = Some h)
     \<and> (\<forall>t. sc_last_seen c = Some t \<longrightarrow> optionalTimestamp (Some (JNum t)) = Some t)"

lemma credential_fields:
  assumes "credential_json c = JObj ob"
  shows "jget ob ''daemon_id'' = Some (JStr (sc_daemon_id c))" "jget ob ''device_id'' = Some (JStr (sc_device_id c))"
    "jget ob ''device_psk'' = Some (JStr (sc_device_psk c))" "jget ob ''daemon_pk'' = Some (JStr (sc_daemon_pk c))"
    "jget ob ''relay_origin'' = Some (JStr (sc_relay_origin c))" "jget ob ''fp'' = Some (JStr (sc_fp c))" "jget ob ''label'' = Some (JStr (sc_label c))"
    "jget ob ''created_at'' = Some (JNum (sc_created_at c))"
    "jget ob ''hostname'' = map_option JStr (sc_hostname c)" "jget ob ''last_seen'' = map_option JNum (sc_last_seen c)"
  using assms by (cases "sc_hostname c"; cases "sc_last_seen c"; fastforce simp: credential_json_def jget_def)+

lemma validate_Some:
  assumes "validateStoredCredential su url_origin v = Some c"
  shows "credential_ok su url_origin c"
  using assms unfolding validateStoredCredential_def credential_ok_def
  by (auto simp: exactB64_iff split: json.splits option.splits if_splits prod.splits dest: optionalHostname_stable optionalTimestamp_stable)

lemma validate_ok:
  assumes "credential_ok su url_origin c"
  shows "validateStoredCredential su url_origin (credential_json c) = Some c"
proof -
  obtain psk pk where k: "sc_device_psk c = b64url psk" "length psk = 32" "sc_daemon_pk c = b64url pk" "length pk = 32" "sc_fp c = fingerprint16 su pk"
    using assms unfolding credential_ok_def by blast
  have e: "exactB64 (Some (JStr (b64url psk))) 32 = Some psk" "exactB64 (Some (JStr (b64url pk))) 32 = Some pk" using k by (auto simp: exactB64_iff)
  have h: "optionalHostname (map_option JStr (sc_hostname c)) = sc_hostname c" "optionalTimestamp (map_option JNum (sc_last_seen c)) = sc_last_seen c"
    using assms by (auto simp: credential_ok_def optionalHostname_def optionalTimestamp_def split: option.splits)
  obtain ob where ob: "credential_json c = JObj ob" by (simp add: credential_json_def)
  show ?thesis
    using assms k e h unfolding ob credential_ok_def
    by (simp add: validateStoredCredential_def credential_fields [OF ob])
qed

lemma encode_ok:
  assumes "encodeCredential su url_origin pair = Inr stored"
  shows "credential_ok su url_origin stored"
    and "stored = \<lparr> sc_daemon_id = pr_daemonId pair, sc_device_id = pr_deviceId pair, sc_device_psk = b64url (pr_psk pair),
                     sc_daemon_pk = b64url (pr_daemonPk pair), sc_relay_origin = ap_relayOrigin pair, sc_fp = ap_fp pair,
                     sc_label = ap_label pair, sc_created_at = ap_createdAt pair,
                     sc_hostname = optionalHostname (map_option JStr (ap_hostname pair)),
                     sc_last_seen = optionalTimestamp (map_option JNum (ap_lastSeen pair)) \<rparr>" (is "stored = ?c")
proof -
  show st: "stored = ?c" and v: "credential_ok su url_origin stored"
  proof -
    show c: "stored = ?c" using assms by (auto simp: encodeCredential_def Let_def split: option.splits)
    obtain ob where ob: "credential_json stored = JObj ob" by (simp add: credential_json_def)
    from assms c obtain d where "validateStoredCredential su url_origin (credential_json stored) = Some d"
      by (auto simp: encodeCredential_def Let_def split: option.splits)
    then show "credential_ok su url_origin stored"
      unfolding credential_ok_def ob validateStoredCredential_def
      by (auto simp: exactB64_iff credential_fields [OF ob] split: if_splits option.splits prod.splits)
        (auto simp: c dest: optionalHostname_stable optionalTimestamp_stable)
  qed
qed

lemma decode_credential_encode:
  assumes "encodeCredential su url_origin pair = Inr stored"
  shows "decodeCredential su url_origin stored = Inr (pair\<lparr> ap_hostname := optionalHostname (map_option JStr (ap_hostname pair)),
    ap_lastSeen := optionalTimestamp (map_option JNum (ap_lastSeen pair)) \<rparr>)"
  using validate_ok [OF encode_ok(1) [OF assms]] encode_ok(2) [OF assms]
  by (cases pair) (simp add: decodeCredential_def b64urlDecode_b64url)

section \<open>A vault reads back\<close>

lemma vault_open_seal:
  assumes "sound_xchacha xc" and "length key = 32" and "length nonce = 24"
  shows "\<exists>sealed. vault_seal xc nonce key plaintext a = Inr sealed \<and> vault_open xc key sealed a = Inr plaintext"
proof -
  obtain ct where "xc_encrypt xc key nonce a plaintext = Some ct" "xc_decrypt xc key nonce a ct = Some plaintext"
    using assms unfolding sound_xchacha_def by blast
  then show ?thesis using assms(3) by (simp add: vault_seal_def vault_open_def bindF_def or_throw_def base64Decode_base64Encode)
qed

text \<open>The key derivation returns what it is asked for.\<close>

definition sound_hkdf :: "suite \<Rightarrow> bool" where
  "sound_hkdf su \<longleftrightarrow> (\<forall>ikm salt info n. n \<le> 8160 \<longrightarrow> length (hkdf_sha256 su ikm salt info n) = n)"

lemma contentKey_length: "sound_hkdf su \<Longrightarrow> length (contentKey su k) = 32"
  by (simp add: contentKey_def pairfobHKDF_def sound_hkdf_def)

lemma text_decode_json: "text_decode (text_bytes (CHR ''{'' # cs)) = CHR ''{'' # cs"
proof -
  have "(of_char (CHR ''{'') :: nat) = 123" by simp
  then have "take 3 (text_bytes (CHR ''{'' # cs)) \<noteq> [0xEF, 0xBB, 0xBF]" by (simp add: text_bytes_def)
  then show ?thesis by (simp only: text_decode_def if_False utf8_decode_text_bytes)
qed

lemma integral_credential:
  assumes "credential_ok su url_origin c"
  shows "integral (credential_json c)"
  using assms
  by (auto simp: credential_json_def credential_ok_def isSafeInteger_def optionalTimestamp_def split: option.splits if_splits)

lemma open_seal_vault:
  assumes "sound_xchacha xc" and "sound_hkdf su" and "length nonce = 24" and "list_all integral cs"
  shows "\<exists>sealed. sealVault su xc nonce vaultKey cs userId version = Inr sealed \<and> openVault su xc vaultKey sealed userId version = Inr cs"
proof -
  let ?v = "vault_content cs"
  obtain sealed where s: "vault_seal xc nonce (contentKey su vaultKey) (text_bytes (print_json ?v)) (blobAad userId version) = Inr sealed"
    "vault_open xc (contentKey su vaultKey) sealed (blobAad userId version) = Inr (text_bytes (print_json ?v))"
    using vault_open_seal [OF assms(1) contentKey_length [OF assms(2)] assms(3)] by blast
  have "\<exists>r. print_json ?v = CHR ''{'' # r" by (simp add: vault_content_def)
  then have "text_decode (text_bytes (print_json ?v)) = print_json ?v" by (metis text_decode_json)
  moreover have "JSON_parse (print_json ?v) = Some ?v" by (rule JSON_parse_print) (simp add: vault_content_def assms(4))
  ultimately have "openVault su xc vaultKey sealed userId version = Inr cs"
    by (simp add: openVault_def s bindF_def or_throw_def del: print_json.simps) (simp add: vault_content_def jget_def)
  then show ?thesis using s(1) unfolding sealVault_def by blast
qed

lemma decrypt_encrypt:
  assumes "sound_xchacha xc" and "sound_hkdf su" and "length nonce = 24" and "list_all (credential_ok su url_origin) cs"
  shows "\<exists>sealed. encryptVault su xc nonce vaultKey cs userId version = Inr sealed
    \<and> decryptVault su xc url_origin vaultKey sealed userId version = Inr (cs, version)"
proof -
  have "list_all integral (map credential_json cs)" using assms(4) integral_credential by (auto simp: list_all_iff)
  from open_seal_vault [OF assms(1-3) this, of vaultKey userId version] obtain sealed where
    "sealVault su xc nonce vaultKey (map credential_json cs) userId version = Inr sealed"
    "openVault su xc vaultKey sealed userId version = Inr (map credential_json cs)" by blast
  moreover have "List.map_filter (validateStoredCredential su url_origin) (map credential_json cs) = cs"
    using assms(4) by (induction cs) (simp_all add: map_filter_simps validate_ok)
  ultimately show ?thesis by (simp add: encryptVault_def decryptVault_def bindF_def)
qed

text \<open>The additional data of a blob fixes its user and its version, so an old blob cannot be passed off as the current one.\<close>

lemma blobAad_inj:
  assumes "blobAad u v = blobAad u' v'" and "v < 2 ^ 64" and "v' < 2 ^ 64"
  shows "u = u' \<and> v = v'"
proof -
  have e: "lenPref (text_bytes u) @ u64be v = lenPref (text_bytes u') @ u64be v'" using assms(1) by (simp add: blobAad_def concat_bytes_def)
  then have "length (lenPref (text_bytes u) @ u64be v) = length (lenPref (text_bytes u') @ u64be v')" by simp
  then have "length (text_bytes u) = length (text_bytes u')" by (simp add: lenPref_def u64be_def)
  from lenPref_inj [OF this e] have "text_bytes u = text_bytes u'" "setBigUint64_be v = setBigUint64_be v'" by (auto simp: u64be_def)
  then show ?thesis using setBigUint64_le_inj [OF assms(2,3)] by (simp add: text_bytes_inj setBigUint64_be_def)
qed

text \<open>A second phone recovers the key the first one wrapped, under the cost the record names.\<close>

lemma unwrap_wrap:
  assumes "sound_xchacha xc" and "length wrapKey = 32" and "length nonce = 24" and "length vaultKey = 32"
  shows "\<exists>rc. wrapVaultKey xc nonce wrapKey vaultKey username params = Inr rc \<and> unwrapVaultKey xc wrapKey rc username = Inr vaultKey \<and> wv_params rc = params"
proof -
  obtain sealed where "vault_seal xc nonce wrapKey vaultKey (wrapAad username) = Inr sealed" "vault_open xc wrapKey sealed (wrapAad username) = Inr vaultKey"
    using vault_open_seal [OF assms(1-3)] by blast
  then show ?thesis using assms(4) by (cases sealed) (simp add: wrapVaultKey_def unwrapVaultKey_def bindF_def)
qed

section \<open>The descriptor reads back\<close>

lemma split_at_word: "d \<notin> set w \<Longrightarrow> split_at d w = [w]"
  by (induction w) auto

lemma split_at_append: "d \<notin> set w \<Longrightarrow> split_at d (w @ d # s) = w # split_at d s"
  by (induction w) auto

lemma split_at_join: "ws \<noteq> [] \<Longrightarrow> \<forall>w \<in> set ws. d \<notin> set w \<Longrightarrow> split_at d (join_with [d] ws) = ws"
proof (induction ws rule: induct_list012)
  case (3 w v ws)
  then show ?case using split_at_append [of d w "join_with [d] (v # ws)"] by simp
qed (simp_all add: split_at_word)

lemma count_decimal: "0 < n \<Longrightarrow> n \<le> 2 ^ 53 - 1 \<Longrightarrow> count (decimal n) = Some n"
  using decimal_digits [of n] by (simp add: count_def digits_value_decimal Let_def)

lemma dot_free:
  "CHR ''.'' \<notin> set (decimal n)" "CHR ''.'' \<notin> set (base64Encode bs)"
proof -
  have "list_all is_digit (decimal n)" using decimal_digits by simp
  moreover have "\<not> is_digit (CHR ''.'')" by code_simp
  ultimately show "CHR ''.'' \<notin> set (decimal n)" by (metis list_all_iff)
  have "CHR ''.'' \<notin> set (map to_std B64)" by code_simp
  then show "CHR ''.'' \<notin> set (base64Encode bs)"
    using b64url_alphabet [of bs] by (auto simp: base64Encode_def Let_def)
qed

definition params_ok :: "kdf_params \<Rightarrow> bool" where
  "params_ok p \<longleftrightarrow> list_all (\<lambda>n. 0 < n \<and> n \<le> 2 ^ 53 - 1) [kp_iterations p, kp_memorySize p, kp_parallelism p]"

lemma decodeKdf_encodeKdf:
  assumes "params_ok (kd_params d)" and "\<forall>w \<in> {kd_name d, kd_wrapped d, kd_wrapNonce d}. w \<noteq> [] \<and> CHR ''.'' \<notin> set w"
  shows "decodeKdf (encodeKdf d) = Inr d"
proof -
  let ?p = "kd_params d"
  have "split_at (CHR ''.'') (encodeKdf d) =
      [kd_name d, decimal (kp_iterations ?p), decimal (kp_memorySize ?p), decimal (kp_parallelism ?p), kd_wrapped d, kd_wrapNonce d]"
    unfolding encodeKdf_def by (rule split_at_join) (use assms(2) in \<open>auto simp: dot_free\<close>)
  then show ?thesis
    using assms count_decimal [of "kp_iterations ?p"] count_decimal [of "kp_memorySize ?p"] count_decimal [of "kp_parallelism ?p"]
    by (cases d; cases ?p) (simp add: decodeKdf_def params_ok_def)
qed

lemma base64Encode_Nil_iff: "base64Encode bs = [] \<longleftrightarrow> bs = []"
  by (auto simp: base64Encode_def Let_def)

text \<open>A second phone that types the same passphrase recovers the key from the descriptor the first one stored.\<close>

lemma recover_new_descriptor:
  assumes "sound_xchacha xc" and "sound_hkdf su" and "length nonce = 24" and "length vaultKey = 32"
    and "keys = deriveAccountKeys su argon2id username password host VAULT_KDF_PARAMS"
  shows "\<exists>d. newKdfDescriptor xc vaultKey nonce (snd keys) username = Inr (d, vaultKey) \<and> decodeKdf (encodeKdf d) = Inr d
    \<and> recoverVaultKey su argon2id xc username password host d = Inr vaultKey"
proof -
  have len: "length (snd keys) = 32" using assms(2,5) by (simp add: deriveAccountKeys_def sound_hkdf_def pairfobHKDF_def Let_def)
  obtain rc where rc: "wrapVaultKey xc nonce (snd keys) vaultKey username VAULT_KDF_PARAMS = Inr rc" "unwrapVaultKey xc (snd keys) rc username = Inr vaultKey"
    "wv_params rc = VAULT_KDF_PARAMS" using unwrap_wrap [OF assms(1) len assms(3,4)] by blast
  let ?d = "\<lparr> kd_name = VAULT_KDF, kd_params = wv_params rc, kd_wrapped = wv_wrapped rc, kd_wrapNonce = wv_wrapNonce rc \<rparr>"
  obtain ct where ct: "xc_encrypt xc (snd keys) nonce (wrapAad username) vaultKey = Some ct" "length ct = length vaultKey + 16"
    using assms(1,3) len unfolding sound_xchacha_def by blast
  then have w: "wv_wrapped rc = base64Encode ct" "wv_wrapNonce rc = base64Encode nonce"
    using rc(1) by (auto simp: wrapVaultKey_def vault_seal_def bindF_def or_throw_def)
  have ne: "ct \<noteq> []" "nonce \<noteq> []" using ct(2) assms(3) by auto
  have "CHR ''.'' \<notin> set VAULT_KDF" "VAULT_KDF \<noteq> []" by code_simp+
  then have "decodeKdf (encodeKdf ?d) = Inr ?d"
    by (intro decodeKdf_encodeKdf) (use rc(3) w ne in \<open>auto simp: dot_free base64Encode_Nil_iff params_ok_def VAULT_KDF_PARAMS_def\<close>)
  moreover have "recoverVaultKey su argon2id xc username password host ?d = Inr vaultKey"
    using rc assms(5) by (cases rc) (simp add: recoverVaultKey_def)
  ultimately show ?thesis using rc assms(5)
    by (intro exI [of _ ?d]) (simp add: newKdfDescriptor_def rewrapDescriptor_def bindF_def)
qed

section \<open>What a merge keeps\<close>

definition newest_in :: "stored_credential list \<Rightarrow> (string \<times> stored_credential) list \<Rightarrow> bool" where
  "newest_in cs m \<longleftrightarrow> distinct (map fst m) \<and> (\<forall>i. case map_of m i of
       None \<Rightarrow> \<forall>c \<in> set cs. sc_daemon_id c \<noteq> i
     | Some c \<Rightarrow> c \<in> set cs \<and> sc_daemon_id c = i \<and> (\<forall>c' \<in> set cs. sc_daemon_id c' = i \<longrightarrow> sc_created_at c' \<le> sc_created_at c))"

lemma newest_in_at:
  assumes "newest_in cs m"
  shows "map_of m i = None \<Longrightarrow> \<forall>c \<in> set cs. sc_daemon_id c \<noteq> i"
    and "map_of m i = Some c \<Longrightarrow> c \<in> set cs \<and> sc_daemon_id c = i \<and> (\<forall>c' \<in> set cs. sc_daemon_id c' = i \<longrightarrow> sc_created_at c' \<le> sc_created_at c)"
proof -
  have "case map_of m i of None \<Rightarrow> \<forall>c \<in> set cs. sc_daemon_id c \<noteq> i
     | Some c \<Rightarrow> c \<in> set cs \<and> sc_daemon_id c = i \<and> (\<forall>c' \<in> set cs. sc_daemon_id c' = i \<longrightarrow> sc_created_at c' \<le> sc_created_at c)"
    using assms unfolding newest_in_def by blast
  then show "map_of m i = None \<Longrightarrow> \<forall>c \<in> set cs. sc_daemon_id c \<noteq> i"
    and "map_of m i = Some c \<Longrightarrow> c \<in> set cs \<and> sc_daemon_id c = i \<and> (\<forall>c' \<in> set cs. sc_daemon_id c' = i \<longrightarrow> sc_created_at c' \<le> sc_created_at c)"
    by simp_all
qed

lemma merge_step_newest:
  assumes "newest_in cs m"
  shows "newest_in (cs @ [c]) (merge_step c m)"
proof (cases "map_of m (sc_daemon_id c)")
  case None
  then have "sc_daemon_id c \<notin> fst ` set m" by (simp add: map_of_eq_None_iff)
  moreover note newest_in_at(1) [OF assms None]
  ultimately show ?thesis using assms None newest_in_at(1) [OF assms] unfolding newest_in_def merge_step_def
    by (auto simp: map_add_def split: option.splits)
next
  case (Some e)
  then have e: "e \<in> set cs" "sc_daemon_id e = sc_daemon_id c" "\<forall>c' \<in> set cs. sc_daemon_id c' = sc_daemon_id c \<longrightarrow> sc_created_at c' \<le> sc_created_at e"
    using newest_in_at(2) [OF assms Some] by blast+
  show ?thesis
  proof (cases "sc_created_at c > sc_created_at e")
    case True
    have "\<forall>c' \<in> set cs. sc_daemon_id c' = sc_daemon_id c \<longrightarrow> sc_created_at c' \<le> sc_created_at c" using e(3) True by fastforce
    then show ?thesis using assms Some True newest_in_at(1) [OF assms] unfolding newest_in_def merge_step_def
      by (auto simp: update_conv' distinct_update split: option.splits)
  next
    case False
    then have same: "merge_step c m = m" by (simp add: merge_step_def Some)
    have "case map_of m i of None \<Rightarrow> \<forall>d \<in> set (cs @ [c]). sc_daemon_id d \<noteq> i
       | Some d \<Rightarrow> d \<in> set (cs @ [c]) \<and> sc_daemon_id d = i \<and> (\<forall>c' \<in> set (cs @ [c]). sc_daemon_id c' = i \<longrightarrow> sc_created_at c' \<le> sc_created_at d)" for i
      using newest_in_at [OF assms, of i] Some False by (cases "map_of m i") auto
    then show ?thesis using assms unfolding newest_in_def same by blast
  qed
qed

lemma fold_merge_newest: "newest_in cs (fold merge_step cs [])"
proof (induction cs rule: rev_induct)
  case (snoc c cs)
  then show ?case by (simp add: merge_step_newest)
qed (simp add: newest_in_def)

lemma newest_in_member:
  assumes "newest_in cs m" and "(i, c) \<in> set m"
  shows "c \<in> set cs" "sc_daemon_id c = i" "\<forall>c' \<in> set cs. sc_daemon_id c' = i \<longrightarrow> sc_created_at c' \<le> sc_created_at c"
proof -
  have "map_of m i = Some c" using assms unfolding newest_in_def by (simp add: map_of_is_SomeI)
  then show "c \<in> set cs" "sc_daemon_id c = i" "\<forall>c' \<in> set cs. sc_daemon_id c' = i \<longrightarrow> sc_created_at c' \<le> sc_created_at c"
    using newest_in_at(2) [OF assms(1)] by blast+
qed

lemma newest_in_ids:
  assumes "newest_in cs m"
  shows "map (sc_daemon_id \<circ> snd) m = map fst m" and "fst ` set m = sc_daemon_id ` set cs"
proof -
  show "map (sc_daemon_id \<circ> snd) m = map fst m" using newest_in_member(2) [OF assms] by auto
  have "i \<in> fst ` set m" if "c \<in> set cs" "sc_daemon_id c = i" for c i
    using newest_in_at(1) [OF assms, of i] that by (auto simp: map_of_eq_None_iff)
  then show "fst ` set m = sc_daemon_id ` set cs" using newest_in_member [OF assms] by force
qed

end
