(* ===== verification/ClientApi.thy ===== *)
theory ClientApi
  imports ClientVault
begin

text \<open>
  The phone's client of the account routes: \<^verbatim>\<open>pwa/src/lib/account-api.ts\<close> over \<^verbatim>\<open>request-timeout.ts\<close>. The network is a
  parameter that answers each request from a world of its own; every call leaves its request and the answer in a trace.
\<close>

section \<open>Errors and actions\<close>

text \<open>
  \<^verbatim>\<open>ProtocolError\<close> with the refusal's own fields, its subclass for a lost race, the refusal to write over a vault that does not
  open, and whatever else is thrown.
\<close>

datatype api_error = ApiError string "jobject option" | VaultConflictError number | VaultSealedError | Thrown client_error

type_synonym ('s, 'a) api_act = "'s \<Rightarrow> (api_error + 'a) \<times> 's"

definition act_ret :: "'a \<Rightarrow> ('s, 'a) api_act" where
  "act_ret a = (\<lambda>s. (Inr a, s))"

definition act_throw :: "api_error \<Rightarrow> ('s, 'a) api_act" where
  "act_throw e = (\<lambda>s. (Inl e, s))"

definition act_bind :: "('s, 'a) api_act \<Rightarrow> ('a \<Rightarrow> ('s, 'b) api_act) \<Rightarrow> ('s, 'b) api_act" where
  "act_bind m k = (\<lambda>s. case m s of (Inl e, t) \<Rightarrow> (Inl e, t) | (Inr a, t) \<Rightarrow> k a t)"

definition act_catch :: "('s, 'a) api_act \<Rightarrow> (api_error \<Rightarrow> ('s, 'a) api_act) \<Rightarrow> ('s, 'a) api_act" where
  "act_catch m h = (\<lambda>s. case m s of (Inl e, t) \<Rightarrow> h e t | (Inr a, t) \<Rightarrow> (Inr a, t))"

definition act_finally :: "('s, 'a) api_act \<Rightarrow> ('s \<Rightarrow> 's) \<Rightarrow> ('s, 'a) api_act" where
  "act_finally m f = (\<lambda>s. case m s of (r, t) \<Rightarrow> (r, f t))"

definition act_get :: "('s \<Rightarrow> 'a) \<Rightarrow> ('s, 'a) api_act" where
  "act_get f = (\<lambda>s. (Inr (f s), s))"

definition act_modify :: "('s \<Rightarrow> 's) \<Rightarrow> ('s, unit) api_act" where
  "act_modify f = (\<lambda>s. (Inr (), f s))"

definition act_lift :: "'a fallible \<Rightarrow> ('s, 'a) api_act" where
  "act_lift r = (\<lambda>s. case r of Inl e \<Rightarrow> (Inl (Thrown e), s) | Inr a \<Rightarrow> (Inr a, s))"

lemmas act_defs = act_ret_def act_throw_def act_bind_def act_catch_def act_finally_def act_get_def act_modify_def act_lift_def

section \<open>Requests\<close>

record api_request =
  ar_method :: string
  ar_path :: string
  ar_body :: "string option"

text \<open>What \<^verbatim>\<open>fetch\<close> settles with: a status and the text of the body, or a rejection; and how long it took.\<close>

datatype fetched = Responded nat string | Rejected client_error

record 'w fetcher =
  fe_fetch :: "api_request \<Rightarrow> 'w \<Rightarrow> (fetched \<times> number) \<times> 'w"
  fe_aborted :: "'w \<Rightarrow> bool"

record 'w net =
  nt_world :: 'w
  nt_trace :: "(api_request \<times> (nat \<times> json) option) list"

definition HTTP_REQUEST_TIMEOUT_MS :: number where [simp]: "HTTP_REQUEST_TIMEOUT_MS = 12000"

text \<open>A request its caller gave up is not sent; one that takes too long is aborted and reported as a timeout.\<close>

definition fetchWithTimeout :: "'w fetcher \<Rightarrow> api_request \<Rightarrow> bool \<Rightarrow> 'w \<Rightarrow> (client_error + nat \<times> string) \<times> 'w" where
  "fetchWithTimeout fe req signal w =
     (if signal \<and> fe_aborted fe w then (Inl (OtherError ''AbortError''), w)
      else case fe_fetch fe req w of
          ((out, elapsed), w') \<Rightarrow>
            if elapsed \<ge> HTTP_REQUEST_TIMEOUT_MS then (Inl (ProtocolError ''timeout''), w')
            else (case out of Responded status text \<Rightarrow> (Inr (status, text), w') | Rejected e \<Rightarrow> (Inl e, w')))"

definition PREFIX :: string where "PREFIX = ''/v2/account''"

text \<open>A body that is not JSON counts as \<^verbatim>\<open>null\<close>.\<close>

definition call :: "'w fetcher \<Rightarrow> bool \<Rightarrow> string \<Rightarrow> string \<Rightarrow> string option \<Rightarrow> (('w, 'z) net_scheme, nat \<times> json) api_act" where
  "call fe signal verb path payload = (\<lambda>s.
     let req = \<lparr> ar_method = verb, ar_path = PREFIX @ path, ar_body = payload \<rparr> in
     case fetchWithTimeout fe req signal (nt_world s) of
       (Inl e, w) \<Rightarrow>
         (Inl (case e of ProtocolError c \<Rightarrow> ApiError c None | OtherError _ \<Rightarrow> ApiError ''bad_relay'' None),
          s\<lparr> nt_world := w, nt_trace := nt_trace s @ [(req, None)] \<rparr>)
     | (Inr (status, text), w) \<Rightarrow>
         (let body = (case JSON_parse text of None \<Rightarrow> JNull | Some v \<Rightarrow> v) in
          (Inr (status, body), s\<lparr> nt_world := w, nt_trace := nt_trace s @ [(req, Some (status, body))] \<rparr>)))"

definition post :: "'w fetcher \<Rightarrow> string \<Rightarrow> json \<Rightarrow> (('w, 'z) net_scheme, nat \<times> json) api_act" where
  "post fe path payload = call fe False ''POST'' path (Some (print_json payload))"

section \<open>Reading answers\<close>

definition as_record :: "json option \<Rightarrow> jobject option" where
  "as_record v = (case v of Some (JObj ob) \<Rightarrow> Some ob | _ \<Rightarrow> None)"

definition at_record :: "jobject option \<Rightarrow> string \<Rightarrow> json option" where
  "at_record r k = (case r of None \<Rightarrow> None | Some ob \<Rightarrow> jget ob k)"

definition api_errorCode :: "json \<Rightarrow> string" where
  "api_errorCode body =
     (case at_record (as_record (at_record (as_record (Some body)) ''error'')) ''code'' of Some (JStr c) \<Rightarrow> c | _ \<Rightarrow> [])"

definition statusCode :: "nat \<Rightarrow> string" where
  "statusCode status =
     (if status = 401 then ''bad_credentials'' else if status = 403 then ''forbidden'' else if status = 404 then ''unbound''
      else if status = 409 then ''conflict'' else if status = 429 then ''rate_limited'' else ''internal'')"

definition api_fail :: "nat \<Rightarrow> json \<Rightarrow> api_error" where
  "api_fail status body =
     ApiError (if api_errorCode body \<noteq> [] then api_errorCode body else statusCode status)
       (as_record (at_record (as_record (Some body)) ''error''))"

text \<open>The object of an answer that says \<^verbatim>\<open>ok: true\<close>.\<close>

definition ok_record :: "json \<Rightarrow> jobject option" where
  "ok_record body = (case as_record (Some body) of None \<Rightarrow> None | Some ob \<Rightarrow> if jget ob ''ok'' = Some (JBool True) then Some ob else None)"

datatype account_role = Admin | Member

record account_user =
  au_userId :: string
  au_username :: string
  au_role :: account_role

definition parseUser :: "json option \<Rightarrow> account_user option" where
  "parseUser value =
     (case as_record value of
        None \<Rightarrow> None
      | Some user \<Rightarrow>
          (case (jget user ''user_id'', jget user ''username'', jget user ''role'') of
             (Some (JStr userId), Some (JStr username), Some (JStr role)) \<Rightarrow>
               if role = ''admin'' then Some \<lparr> au_userId = userId, au_username = username, au_role = Admin \<rparr>
               else if role = ''member'' then Some \<lparr> au_userId = userId, au_username = username, au_role = Member \<rparr>
               else None
           | _ \<Rightarrow> None))"

record bound_device =
  bd_daemonId :: string
  bd_label :: "string option"
  bd_boundAt :: number
  bd_live :: bool

definition parseDevice :: "json option \<Rightarrow> bound_device option" where
  "parseDevice value =
     (case as_record value of
        None \<Rightarrow> None
      | Some device \<Rightarrow>
          (case (jget device ''daemon_id'', jget device ''bound_at'') of
             (Some (JStr daemonId), Some (JNum boundAt)) \<Rightarrow>
               if \<not> validDaemonId (Some (JStr daemonId)) \<or> \<not> isSafeInteger (Some (JNum boundAt)) then None
               else (case jget device ''label'' of
                   Some (JStr l) \<Rightarrow> Some \<lparr> bd_daemonId = daemonId, bd_label = Some l, bd_boundAt = boundAt, bd_live = (jget device ''live'' = Some (JBool True)) \<rparr>
                 | v \<Rightarrow> if v \<in> {None, Some JNull}
                         then Some \<lparr> bd_daemonId = daemonId, bd_label = None, bd_boundAt = boundAt, bd_live = (jget device ''live'' = Some (JBool True)) \<rparr>
                         else None)
           | _ \<Rightarrow> None))"

record vault_record =
  vr_ciphertext :: string
  vr_nonce :: string
  vr_kdf :: string
  vr_version :: number
  vr_updatedAt :: number

definition parseVault :: "json option \<Rightarrow> vault_record option" where
  "parseVault value =
     (case as_record value of
        None \<Rightarrow> None
      | Some vault \<Rightarrow>
          (case (jget vault ''ciphertext'', jget vault ''nonce'', jget vault ''kdf'', jget vault ''version'', jget vault ''updated_at'') of
             (Some (JStr ciphertext), Some (JStr nonce), Some (JStr kdf), Some (JNum version), Some (JNum updatedAt)) \<Rightarrow>
               if \<not> isSafeInteger (Some (JNum version)) \<or> version < 1 then None
               else if \<not> isSafeInteger (Some (JNum updatedAt)) then None
               else Some \<lparr> vr_ciphertext = ciphertext, vr_nonce = nonce, vr_kdf = kdf, vr_version = version, vr_updatedAt = updatedAt \<rparr>
           | _ \<Rightarrow> None))"

definition api_signedIn :: "nat \<Rightarrow> json \<Rightarrow> ('s, account_user) api_act" where
  "api_signedIn status body =
     (case (case ok_record body of None \<Rightarrow> None | Some ob \<Rightarrow> parseUser (jget ob ''user'')) of
        None \<Rightarrow> act_throw (api_fail status body) | Some user \<Rightarrow> act_ret user)"

section \<open>Sessions\<close>

definition api_readAccountState :: "'w fetcher \<Rightarrow> (('w, 'z) net_scheme, bool \<times> account_user option) api_act" where
  "api_readAccountState fe =
     act_bind (call fe False ''GET'' ''/state'' None) (\<lambda>(status, body).
     case ok_record body of
       None \<Rightarrow> act_throw (api_fail status body)
     | Some ob \<Rightarrow>
         (case jget ob ''initialized'' of
            Some (JBool initialized) \<Rightarrow> act_ret (initialized, parseUser (jget ob ''user''))
          | _ \<Rightarrow> act_throw (api_fail status body)))"

definition bootstrapAccount :: "'w fetcher \<Rightarrow> string \<Rightarrow> string \<Rightarrow> (('w, 'z) net_scheme, account_user) api_act" where
  "bootstrapAccount fe serviceToken password =
     act_bind (post fe ''/bootstrap'' (JObj [(''service_token'', JStr serviceToken), (''password'', JStr password)])) (\<lambda>(status, body).
     api_signedIn status body)"

definition loginAccount :: "'w fetcher \<Rightarrow> string \<Rightarrow> string \<Rightarrow> (('w, 'z) net_scheme, account_user) api_act" where
  "loginAccount fe username password =
     act_bind (post fe ''/login'' (JObj [(''username'', JStr username), (''password'', JStr password)])) (\<lambda>(status, body). api_signedIn status body)"

definition registerAccount :: "'w fetcher \<Rightarrow> string \<Rightarrow> string \<Rightarrow> string \<Rightarrow> (('w, 'z) net_scheme, account_user) api_act" where
  "registerAccount fe username password inviteCode =
     act_bind (post fe ''/register'' (JObj [(''username'', JStr username), (''password'', JStr password), (''invite_code'', JStr inviteCode)]))
       (\<lambda>(status, body). api_signedIn status body)"

definition logoutAccount :: "'w fetcher \<Rightarrow> (('w, 'z) net_scheme, unit) api_act" where
  "logoutAccount fe =
     act_bind (post fe ''/logout'' (JObj [])) (\<lambda>(status, body).
     if status \<noteq> 200 \<or> ok_record body = None then act_throw (api_fail status body) else act_ret ())"

section \<open>Invitations\<close>

definition api_INVITE_CODE_RE :: "string \<Rightarrow> bool" where
  "api_INVITE_CODE_RE s \<longleftrightarrow> length s = 4 \<and> list_all (\<lambda>c. let n = of_char c :: nat in 65 \<le> n \<and> n \<le> 90) s"

definition parseInvite :: "nat \<Rightarrow> json \<Rightarrow> ('s, string \<times> number) api_act" where
  "parseInvite status body =
     (case ok_record body of
        None \<Rightarrow> act_throw (api_fail status body)
      | Some ob \<Rightarrow>
          (case jget ob ''invite_code'' of
             Some (JStr code) \<Rightarrow>
               if api_INVITE_CODE_RE code then act_ret (code, case jget ob ''updated_at'' of Some (JNum n) \<Rightarrow> n | _ \<Rightarrow> 0)
               else act_throw (api_fail status body)
           | _ \<Rightarrow> act_throw (api_fail status body)))"

definition readInviteCode :: "'w fetcher \<Rightarrow> (('w, 'z) net_scheme, string \<times> number) api_act" where
  "readInviteCode fe = act_bind (call fe False ''GET'' ''/invite'' None) (\<lambda>(status, body). parseInvite status body)"

definition rotateInviteCode :: "'w fetcher \<Rightarrow> (('w, 'z) net_scheme, string \<times> number) api_act" where
  "rotateInviteCode fe = act_bind (post fe ''/invite/rotate'' (JObj [])) (\<lambda>(status, body). parseInvite status body)"

section \<open>Computers\<close>

definition listBoundDevices :: "'w fetcher \<Rightarrow> (('w, 'z) net_scheme, bound_device list) api_act" where
  "listBoundDevices fe =
     act_bind (call fe False ''GET'' ''/devices'' None) (\<lambda>(status, body).
     case ok_record body of
       None \<Rightarrow> act_throw (api_fail status body)
     | Some ob \<Rightarrow>
         (case jget ob ''devices'' of
            Some (JArr ds) \<Rightarrow> act_ret (List.map_filter (\<lambda>d. parseDevice (Some d)) ds)
          | _ \<Rightarrow> act_throw (api_fail status body)))"

text \<open>\<^verbatim>\<open>encodeURIComponent\<close>: all but letters, digits and nine marks become percent escapes of their UTF-8 bytes.\<close>

definition uri_plain :: "char \<Rightarrow> bool" where
  "uri_plain c \<longleftrightarrow> c \<in> set B64 \<or> c \<in> set [CHR ''.'', CHR ''!'', CHR ''~'', CHR ''*'', CHR 0x27, CHR ''('', CHR '')'']"

definition uri_escape :: "byte \<Rightarrow> string" where
  "uri_escape b = CHR ''%'' # [''0123456789ABCDEF'' ! (unat b div 16), ''0123456789ABCDEF'' ! (unat b mod 16)]"

definition encodeURIComponent :: "string \<Rightarrow> string" where
  "encodeURIComponent s = concat (map (\<lambda>c. if uri_plain c then [c] else concat (map uri_escape (text_bytes [c]))) s)"

definition api_CLAIM_PROOF_RE :: "string \<Rightarrow> bool" where
  "api_CLAIM_PROOF_RE s \<longleftrightarrow> take 3 s = ''cp_'' \<and> length s = 35 \<and> list_all (\<lambda>c. c \<in> set ''0123456789abcdef'') (drop 3 s)"

text \<open>\<open>Some (proof, expiresIn)\<close> when the relay says it is ready.\<close>

definition api_readClaimProof :: "'w fetcher \<Rightarrow> string \<Rightarrow> (('w, 'z) net_scheme, (string \<times> number) option) api_act" where
  "api_readClaimProof fe daemonId =
     act_bind (call fe True ''GET'' (''/claim-proof?daemon_id='' @ encodeURIComponent daemonId) None) (\<lambda>(status, body).
     case ok_record body of
       None \<Rightarrow> act_throw (api_fail status body)
     | Some ob \<Rightarrow>
         if jget ob ''ready'' \<noteq> Some (JBool True) then act_ret None
         else (case jget ob ''claim_proof'' of
             Some (JStr proof) \<Rightarrow>
               if api_CLAIM_PROOF_RE proof then act_ret (Some (proof, case jget ob ''expires_in'' of Some (JNum n) \<Rightarrow> n | _ \<Rightarrow> 0))
               else act_throw (api_fail status body)
           | _ \<Rightarrow> act_throw (api_fail status body)))"

definition api_claimDevice :: "'w fetcher \<Rightarrow> string \<Rightarrow> string \<Rightarrow> string option \<Rightarrow> (('w, 'z) net_scheme, bound_device) api_act" where
  "api_claimDevice fe daemonId claimProof label =
     (let payload = JObj ([(''daemon_id'', JStr daemonId), (''claim_proof'', JStr claimProof)]
                          @ (case label of None \<Rightarrow> [] | Some l \<Rightarrow> [(''label'', JStr l)])) in
      act_bind (post fe ''/devices'' payload) (\<lambda>(status, body).
      case ok_record body of
        None \<Rightarrow> act_throw (api_fail status body)
      | Some ob \<Rightarrow>
          act_ret (case parseDevice (Some (JObj (ob @ [(''live'', JBool True)]))) of
              Some d \<Rightarrow> d
            | None \<Rightarrow> \<lparr> bd_daemonId = daemonId, bd_label = label, bd_boundAt = 0, bd_live = True \<rparr>)))"

definition api_releaseDevice :: "'w fetcher \<Rightarrow> string \<Rightarrow> (('w, 'z) net_scheme, unit) api_act" where
  "api_releaseDevice fe daemonId =
     act_bind (call fe False ''DELETE'' (''/devices/'' @ encodeURIComponent daemonId) None) (\<lambda>(status, body).
     if ok_record body = None then act_throw (api_fail status body) else act_ret ())"

section \<open>The vault\<close>

definition api_readVault :: "'w fetcher \<Rightarrow> (('w, 'z) net_scheme, vault_record option) api_act" where
  "api_readVault fe =
     act_bind (call fe False ''GET'' ''/vault'' None) (\<lambda>(status, body).
     if status = 404 \<and> api_errorCode body = ''unbound'' then act_ret None
     else case (case ok_record body of None \<Rightarrow> None | Some ob \<Rightarrow> parseVault (jget ob ''vault'')) of
         None \<Rightarrow> act_throw (api_fail status body)
       | Some vault \<Rightarrow> act_ret (Some vault))"

record api_vault_write =
  vw_ciphertext :: string
  vw_nonce :: string
  vw_kdf :: string
  vw_version :: number

definition vault_payload :: "api_vault_write \<Rightarrow> json" where
  "vault_payload v =
     JObj [(''ciphertext'', JStr (vw_ciphertext v)), (''nonce'', JStr (vw_nonce v)), (''kdf'', JStr (vw_kdf v)), (''version'', JNum (vw_version v))]"

text \<open>A lost race is its own error and carries the version the relay holds.\<close>

definition api_writeVault :: "'w fetcher \<Rightarrow> api_vault_write \<Rightarrow> (('w, 'z) net_scheme, number) api_act" where
  "api_writeVault fe v =
     act_bind (call fe False ''PUT'' ''/vault'' (Some (print_json (vault_payload v)))) (\<lambda>(status, body).
     if status = 409 \<or> api_errorCode body = ''conflict'' then
       act_throw (VaultConflictError
         (case at_record (as_record (at_record (as_record (Some body)) ''error'')) ''version'' of Some (JNum n) \<Rightarrow> n | _ \<Rightarrow> 0))
     else case ok_record body of
         None \<Rightarrow> act_throw (api_fail status body)
       | Some ob \<Rightarrow> (case jget ob ''version'' of Some (JNum n) \<Rightarrow> act_ret n | _ \<Rightarrow> act_throw (api_fail status body)))"

section \<open>Looking up a typed locator\<close>

text \<open>\<^verbatim>\<open>pwa/src/lib/pair-intent.ts\<close>; what goes wrong after the caller gave up counts as a cancelled pairing.\<close>

definition requestPairIntent :: "'w fetcher \<Rightarrow> string \<Rightarrow> (('w, 'z) net_scheme, pair_intent) api_act" where
  "requestPairIntent fe pairLoc = (\<lambda>s.
     let req = \<lparr> ar_method = ''POST'', ar_path = ''/v2/pair-intent'', ar_body = Some (print_json (JObj [(''v'', JNum 2), (''pair_loc'', JStr pairLoc)])) \<rparr> in
     case fetchWithTimeout fe req True (nt_world s) of
       (Inl e, w) \<Rightarrow>
         (Inl (if fe_aborted fe w then ApiError ''pairing_cancelled'' None else case e of ProtocolError c \<Rightarrow> ApiError c None | OtherError _ \<Rightarrow> Thrown e),
          s\<lparr> nt_world := w, nt_trace := nt_trace s @ [(req, None)] \<rparr>)
     | (Inr (status, text), w) \<Rightarrow>
         ((case pair_intent_answer status (JSON_parse text) of Inl e \<Rightarrow> Inl (case e of ProtocolError c \<Rightarrow> ApiError c None | OtherError _ \<Rightarrow> Thrown e) | Inr hit \<Rightarrow> Inr hit),
          s\<lparr> nt_world := w, nt_trace := nt_trace s @ [(req, Some (status, case JSON_parse text of None \<Rightarrow> JNull | Some v \<Rightarrow> v))] \<rparr>))"

end
