(* ===== verification/ClientAccount.thy ===== *)
theory ClientAccount
  imports ClientApi
begin

text \<open>
  The account of a phone: what it remembers of the session (\<^verbatim>\<open>pwa/src/features/account/account-store.ts\<close>) and what it does
  with it (\<^verbatim>\<open>actions.ts\<close>): sign in, fetch the vault, publish credentials, wait for a claim proof and bind a computer. The
  lemmas follow every vault write of a publication back to what the phone had read.
\<close>

section \<open>The account record\<close>

datatype account_gate = GateOff | GateEntry

datatype sync_outcome = SyncIdle | SyncOk | SyncSealed | SyncFailed

record account_record =
  ac_initialized :: "bool option"
  ac_userId :: "string option"
  ac_username :: "string option"
  ac_role :: "account_role option"
  ac_devices :: "bound_device list"
  ac_vaultVersion :: number
  ac_vaultKdf :: "string option"
  ac_vaultSealed :: bool
  ac_busy :: bool
  ac_gate :: account_gate
  ac_errorCode :: "string option"
  ac_errorRemaining :: "number option"
  ac_wantsRegister :: bool
  ac_syncOutcome :: sync_outcome
  ac_syncCode :: "string option"
  ac_syncSeq :: nat
  ac_wrapKey :: "byte list option"
  ac_vaultKey :: "byte list option"

definition accountDomain :: account_record where
  "accountDomain =
     \<lparr> ac_initialized = None, ac_userId = None, ac_username = None, ac_role = None, ac_devices = [], ac_vaultVersion = 0,
       ac_vaultKdf = None, ac_vaultSealed = False, ac_busy = False, ac_gate = GateOff, ac_errorCode = None,
       ac_errorRemaining = None, ac_wantsRegister = False, ac_syncOutcome = SyncIdle, ac_syncCode = None, ac_syncSeq = 0,
       ac_wrapKey = None, ac_vaultKey = None \<rparr>"

definition setAccountInitialized :: "bool \<Rightarrow> account_record \<Rightarrow> account_record" where
  "setAccountInitialized b r = r\<lparr> ac_initialized := Some b \<rparr>"

definition setAccountSession :: "account_user \<Rightarrow> byte list \<Rightarrow> account_record \<Rightarrow> account_record" where
  "setAccountSession account wrapKey r =
     r\<lparr> ac_initialized := Some True, ac_userId := Some (au_userId account), ac_username := Some (au_username account),
        ac_role := Some (au_role account), ac_devices := [], ac_vaultVersion := 0, ac_vaultKdf := None, ac_vaultSealed := False,
        ac_wrapKey := Some wrapKey, ac_vaultKey := None, ac_errorCode := None, ac_errorRemaining := None,
        ac_wantsRegister := False, ac_syncOutcome := SyncIdle, ac_syncCode := None \<rparr>"

definition clearAccountSession :: "account_record \<Rightarrow> account_record" where
  "clearAccountSession r =
     r\<lparr> ac_userId := None, ac_username := None, ac_role := None, ac_devices := [], ac_vaultVersion := 0, ac_vaultKdf := None,
        ac_vaultSealed := False, ac_busy := False, ac_wrapKey := None, ac_vaultKey := None, ac_errorCode := None,
        ac_errorRemaining := None, ac_wantsRegister := False, ac_syncOutcome := SyncIdle, ac_syncCode := None,
        ac_gate := (if ac_gate r \<noteq> GateOff then GateEntry else ac_gate r) \<rparr>"

definition adoptAccountIdentity :: "account_user \<Rightarrow> account_record \<Rightarrow> account_record" where
  "adoptAccountIdentity account r =
     (let changed = ac_userId r \<noteq> Some (au_userId account);
          r' = r\<lparr> ac_initialized := Some True, ac_userId := Some (au_userId account), ac_username := Some (au_username account),
                  ac_role := Some (au_role account) \<rparr>
      in if changed
         then r'\<lparr> ac_devices := [], ac_vaultVersion := 0, ac_vaultKdf := None, ac_vaultSealed := False, ac_wrapKey := None, ac_vaultKey := None \<rparr>
         else r')"

definition setAccountGate :: "account_gate \<Rightarrow> account_record \<Rightarrow> account_record" where
  "setAccountGate g r = r\<lparr> ac_gate := g \<rparr>"

definition setAccountError :: "string option \<Rightarrow> number option \<Rightarrow> account_record \<Rightarrow> account_record" where
  "setAccountError code remaining r = r\<lparr> ac_errorCode := code, ac_errorRemaining := remaining \<rparr>"

definition setAccountWantsRegister :: "bool \<Rightarrow> account_record \<Rightarrow> account_record" where
  "setAccountWantsRegister b r =
     (if ac_wantsRegister r = b then r else r\<lparr> ac_wantsRegister := b, ac_errorCode := None, ac_errorRemaining := None \<rparr>)"

definition setAccountSyncOutcome :: "sync_outcome \<Rightarrow> string option \<Rightarrow> account_record \<Rightarrow> account_record" where
  "setAccountSyncOutcome outcome code r =
     r\<lparr> ac_syncOutcome := outcome, ac_syncCode := (if outcome = SyncFailed then code else None), ac_syncSeq := ac_syncSeq r + 1 \<rparr>"

definition setAccountDevices :: "bound_device list \<Rightarrow> account_record \<Rightarrow> account_record" where
  "setAccountDevices ds r = r\<lparr> ac_devices := ds \<rparr>"

definition setAccountVaultState :: "number \<Rightarrow> string option \<Rightarrow> bool \<Rightarrow> account_record \<Rightarrow> account_record" where
  "setAccountVaultState version kdf sealed r = r\<lparr> ac_vaultVersion := version, ac_vaultKdf := kdf, ac_vaultSealed := sealed \<rparr>"

definition setAccountBusy :: "bool \<Rightarrow> account_record \<Rightarrow> account_record" where
  "setAccountBusy b r = r\<lparr> ac_busy := b \<rparr>"

definition setAccountVaultKey :: "byte list option \<Rightarrow> account_record \<Rightarrow> account_record" where
  "setAccountVaultKey k r = r\<lparr> ac_vaultKey := k, ac_vaultSealed := (if k \<noteq> None then False else ac_vaultSealed r) \<rparr>"

definition signedInAccount :: "account_record \<Rightarrow> account_user option" where
  "signedInAccount r =
     (case (nonempty (ac_userId r), nonempty (ac_username r), ac_role r) of
        (Some u, Some n, Some ro) \<Rightarrow> Some \<lparr> au_userId = u, au_username = n, au_role = ro \<rparr>
      | _ \<Rightarrow> None)"

definition ownedDaemonIds :: "account_record \<Rightarrow> string list" where
  "ownedDaemonIds r = map bd_daemonId (ac_devices r)"

definition adoptWrapKey :: "byte list \<Rightarrow> account_record \<Rightarrow> account_record" where
  "adoptWrapKey k r = r\<lparr> ac_wrapKey := Some k \<rparr>"

section \<open>A phone\<close>

text \<open>
  What the actions rely on: the network, the primitives, the page's host, and \<^verbatim>\<open>crypto.getRandomValues\<close>, the \<open>i\<close>-th draw of
  \<open>n\<close> bytes being \<open>ae_random i n\<close>. A phone is its account record, its side of the network and how often it drew.
\<close>

record 'w account_env =
  ae_fetch :: "'w fetcher"
  ae_suite :: suite
  ae_xchacha :: xchacha
  ae_argon :: argon
  ae_origin :: "string \<Rightarrow> string option"
  ae_host :: string
  ae_random :: "nat \<Rightarrow> nat \<Rightarrow> byte list"

record 'w phone = "'w net" +
  ph_account :: account_record
  ph_drawn :: nat

type_synonym ('w, 'a) phone_act = "('w phone, 'a) api_act"

definition on_account :: "(account_record \<Rightarrow> account_record) \<Rightarrow> ('w, unit) phone_act" where
  "on_account f = act_modify (\<lambda>s. s\<lparr> ph_account := f (ph_account s) \<rparr>)"

definition account_of :: "(account_record \<Rightarrow> 'a) \<Rightarrow> ('w, 'a) phone_act" where
  "account_of f = act_get (\<lambda>s. f (ph_account s))"

definition draw :: "'w account_env \<Rightarrow> nat \<Rightarrow> ('w, byte list) phone_act" where
  "draw en n = (\<lambda>s. (Inr (ae_random en (ph_drawn s) n), s\<lparr> ph_drawn := ph_drawn s + 1 \<rparr>))"

definition newVaultKey :: "'w account_env \<Rightarrow> ('w, byte list) phone_act" where
  "newVaultKey en = draw en KEY_BYTES"

section \<open>Signing in and out\<close>

definition descriptorFor :: "string option \<Rightarrow> kdf_descriptor option" where
  "descriptorFor kdf = (case nonempty kdf of None \<Rightarrow> None | Some k \<Rightarrow> (case decodeKdf k of Inl _ \<Rightarrow> None | Inr d \<Rightarrow> Some d))"

definition refreshAccountState :: "'w account_env \<Rightarrow> ('w, unit) phone_act" where
  "refreshAccountState en =
     act_bind (api_readAccountState (ae_fetch en)) (\<lambda>(initialized, user).
     act_bind (on_account (setAccountInitialized initialized)) (\<lambda>_.
     case user of
       None \<Rightarrow> on_account clearAccountSession
     | Some u \<Rightarrow> on_account (adoptAccountIdentity u)))"

datatype account_submission =
  Bootstrap (sub_serviceToken: string) (sub_password: string)
| Login (sub_username: string) (sub_password: string)
| Register (sub_username: string) (sub_password: string) (sub_inviteCode: string)

definition authenticate :: "'w account_env \<Rightarrow> account_submission \<Rightarrow> string \<Rightarrow> ('w, account_user) phone_act" where
  "authenticate en submission authSecret =
     (case submission of
        Bootstrap serviceToken _ \<Rightarrow> bootstrapAccount (ae_fetch en) serviceToken authSecret
      | Login username _ \<Rightarrow> loginAccount (ae_fetch en) username authSecret
      | Register username _ inviteCode \<Rightarrow> registerAccount (ae_fetch en) username authSecret inviteCode)"

definition submitted_name :: "account_submission \<Rightarrow> string" where
  "submitted_name submission = (case submission of Bootstrap _ _ \<Rightarrow> ''admin'' | Login u _ \<Rightarrow> u | Register u _ _ \<Rightarrow> u)"

text \<open>\<open>deriveSession\<close> is the pair of keys of \<open>deriveAccountKeys\<close> with the name.\<close>

definition submitAccount :: "'w account_env \<Rightarrow> account_submission \<Rightarrow> ('w, account_user) phone_act" where
  "submitAccount en submission =
     act_bind (on_account (setAccountBusy True)) (\<lambda>_.
     act_finally
       (let (authSecret, wrapKey) = deriveAccountKeys (ae_suite en) (ae_argon en) (submitted_name submission) (sub_password submission) (ae_host en) VAULT_KDF_PARAMS in
        act_bind (authenticate en submission authSecret) (\<lambda>user.
        act_bind (on_account (setAccountSession user wrapKey)) (\<lambda>_. act_ret user)))
       (\<lambda>s. s\<lparr> ph_account := setAccountBusy False (ph_account s) \<rparr>))"

definition signOutAccount :: "'w account_env \<Rightarrow> ('w, unit) phone_act" where
  "signOutAccount en = act_bind (logoutAccount (ae_fetch en)) (\<lambda>_. on_account clearAccountSession)"

section \<open>Fetching the vault\<close>

definition sameCost :: "kdf_descriptor \<Rightarrow> bool" where
  "sameCost d \<longleftrightarrow> kp_parallelism (kd_params d) = kp_parallelism VAULT_KDF_PARAMS \<and> kp_iterations (kd_params d) = kp_iterations VAULT_KDF_PARAMS
     \<and> kp_memorySize (kd_params d) = kp_memorySize VAULT_KDF_PARAMS"

definition openVaultKey :: "xchacha \<Rightarrow> byte list \<Rightarrow> kdf_descriptor \<Rightarrow> string \<Rightarrow> byte list fallible" where
  "openVaultKey xc wrapKey d username =
     unwrapVaultKey xc wrapKey \<lparr> wv_params = kd_params d, wv_wrapped = kd_wrapped d, wv_wrapNonce = kd_wrapNonce d \<rparr> username"

definition tryUnwrap :: "xchacha \<Rightarrow> byte list \<Rightarrow> kdf_descriptor \<Rightarrow> string \<Rightarrow> byte list option" where
  "tryUnwrap xc wrapKey d username = (case openVaultKey xc wrapKey d username of Inl _ \<Rightarrow> None | Inr k \<Rightarrow> Some k)"

definition vaultKeyFor :: "'w account_env \<Rightarrow> account_record \<Rightarrow> string \<Rightarrow> string \<Rightarrow> string option \<Rightarrow> byte list option" where
  "vaultKeyFor en r kdf username password =
     (case descriptorFor (Some kdf) of
        None \<Rightarrow> None
      | Some d \<Rightarrow>
          if ac_vaultKey r \<noteq> None then ac_vaultKey r
          else if sameCost d \<and> ac_wrapKey r \<noteq> None then tryUnwrap (ae_xchacha en) (the (ac_wrapKey r)) d username
          else (case nonempty password of
              None \<Rightarrow> None
            | Some p \<Rightarrow> (case recoverVaultKey (ae_suite en) (ae_argon en) (ae_xchacha en) username p (ae_host en) d of Inl _ \<Rightarrow> None | Inr k \<Rightarrow> Some k)))"

text \<open>
  \<^verbatim>\<open>BigInt(version)\<close> in the additional data throws on a fraction; \<^verbatim>\<open>setBigUint64\<close> keeps sixty-four bits.
\<close>

definition version_bits :: "number \<Rightarrow> nat fallible" where
  "version_bits n = (if n = of_int \<lfloor>n\<rfloor> then Inr (nat (\<lfloor>n\<rfloor> mod 2 ^ 64)) else Inl (OtherError ''RangeError''))"

definition sealed_of :: "vault_record \<Rightarrow> sealed_bytes" where
  "sealed_of v = \<lparr> sb_ciphertext = vr_ciphertext v, sb_nonce = vr_nonce v \<rparr>"

definition read_stored :: "'w account_env \<Rightarrow> byte list \<Rightarrow> vault_record \<Rightarrow> string \<Rightarrow> stored_credential list fallible" where
  "read_stored en key stored userId =
     bindF (version_bits (vr_version stored)) (\<lambda>v.
     bindF (decryptVault (ae_suite en) (ae_xchacha en) (ae_origin en) key (sealed_of stored) userId v) (\<lambda>snapshot. Inr (fst snapshot)))"

definition syncAccountDevices :: "'w account_env \<Rightarrow> string option \<Rightarrow> stored_credential list \<Rightarrow> ('w, stored_credential list) phone_act" where
  "syncAccountDevices en password local =
     act_bind (account_of signedInAccount) (\<lambda>account.
     case account of
       None \<Rightarrow> act_ret []
     | Some acc \<Rightarrow>
         act_bind (listBoundDevices (ae_fetch en)) (\<lambda>devices.
         act_bind (on_account (setAccountDevices devices)) (\<lambda>_.
         let owned = map bd_daemonId devices; mine = scopeToOwnedDevices local owned in
         act_bind (api_readVault (ae_fetch en)) (\<lambda>answer.
         case answer of
           None \<Rightarrow> act_bind (on_account (setAccountVaultState 0 None False)) (\<lambda>_. act_ret mine)
         | Some stored \<Rightarrow>
             act_bind (account_of (\<lambda>r. vaultKeyFor en r (vr_kdf stored) (au_username acc) password)) (\<lambda>found.
             case found of
               None \<Rightarrow> act_bind (on_account (setAccountVaultState (vr_version stored) (Some (vr_kdf stored)) True)) (\<lambda>_. act_ret mine)
             | Some key \<Rightarrow>
                 (case read_stored en key stored (au_userId acc) of
                    Inl _ \<Rightarrow> act_bind (on_account (setAccountVaultState (vr_version stored) (Some (vr_kdf stored)) True)) (\<lambda>_. act_ret mine)
                  | Inr snapshot \<Rightarrow>
                      act_bind (on_account (setAccountVaultState (vr_version stored) (Some (vr_kdf stored)) False)) (\<lambda>_.
                      act_bind (on_account (setAccountVaultKey (Some key))) (\<lambda>_.
                      act_ret (scopeToOwnedDevices (mergeCredentials local snapshot) owned)))))))))"

section \<open>Publishing credentials\<close>

text \<open>\<^verbatim>\<open>encryptVault\<close> under \<open>version + 1\<close>; its nonce is drawn from the phone's random source.\<close>

definition seal_next :: "'w account_env \<Rightarrow> byte list \<Rightarrow> stored_credential list \<Rightarrow> string \<Rightarrow> number \<Rightarrow> ('w, sealed_bytes) phone_act" where
  "seal_next en key contents userId version =
     act_bind (act_lift (version_bits (version + 1))) (\<lambda>v.
     act_bind (draw en NONCE_BYTES) (\<lambda>nonce.
     act_lift (encryptVault (ae_suite en) (ae_xchacha en) nonce key contents userId v)))"

definition write_of :: "sealed_bytes \<Rightarrow> string \<Rightarrow> number \<Rightarrow> api_vault_write" where
  "write_of sealed kdf version = \<lparr> vw_ciphertext = sb_ciphertext sealed, vw_nonce = sb_nonce sealed, vw_kdf = kdf, vw_version = version \<rparr>"

definition vault_attempt :: "'w account_env \<Rightarrow> account_user \<Rightarrow> byte list \<Rightarrow> string \<Rightarrow> number \<Rightarrow> stored_credential list \<Rightarrow> ('w, number) phone_act" where
  "vault_attempt en acc vaultKey kdf version contents =
     act_bind (seal_next en vaultKey contents (au_userId acc) version) (\<lambda>sealed.
     act_bind (api_writeVault (ae_fetch en) (write_of sealed kdf version)) (\<lambda>saved.
     act_bind (on_account (setAccountVaultKey (Some vaultKey))) (\<lambda>_.
     act_bind (on_account (setAccountVaultState saved (Some kdf) False)) (\<lambda>_. act_ret saved))))"

text \<open>A conflict: the stored record decides the key, and what it holds is merged before one more write.\<close>

definition write_merged ::
  "'w account_env \<Rightarrow> account_user \<Rightarrow> vault_record \<Rightarrow> byte list \<Rightarrow> stored_credential list \<Rightarrow> ('w, number) phone_act" where
  "write_merged en acc stored theirKey merged =
     act_bind (on_account (setAccountVaultKey (Some theirKey))) (\<lambda>_.
     act_bind (seal_next en theirKey merged (au_userId acc) (vr_version stored)) (\<lambda>sealed.
     act_bind (api_writeVault (ae_fetch en) (write_of sealed (vr_kdf stored) (vr_version stored))) (\<lambda>saved.
     act_bind (on_account (setAccountVaultState saved (Some (vr_kdf stored)) False)) (\<lambda>_. act_ret saved))))"

definition sealed_out :: "vault_record \<Rightarrow> ('w, 'a) phone_act" where
  "sealed_out stored = act_bind (on_account (setAccountVaultState (vr_version stored) (Some (vr_kdf stored)) True)) (\<lambda>_. act_throw VaultSealedError)"

definition their_key :: "'w account_env \<Rightarrow> account_user \<Rightarrow> account_record \<Rightarrow> vault_record \<Rightarrow> byte list option" where
  "their_key en acc r stored =
     (case (descriptorFor (Some (vr_kdf stored)), ac_wrapKey r) of
        (Some d, Some wk) \<Rightarrow> tryUnwrap (ae_xchacha en) wk d (au_username acc)
      | _ \<Rightarrow> None)"

definition resolve_conflict ::
  "'w account_env \<Rightarrow> account_user \<Rightarrow> vault_record \<Rightarrow> byte list option \<Rightarrow> stored_credential list \<Rightarrow> ('w, number) phone_act" where
  "resolve_conflict en acc stored found credentials =
     (case found of
        None \<Rightarrow> sealed_out stored
      | Some theirKey \<Rightarrow>
          (case read_stored en theirKey stored (au_userId acc) of
             Inl _ \<Rightarrow> sealed_out stored
           | Inr theirs \<Rightarrow> write_merged en acc stored theirKey (mergeCredentials credentials theirs)))"

definition after_conflict ::
  "'w account_env \<Rightarrow> account_user \<Rightarrow> byte list \<Rightarrow> string \<Rightarrow> stored_credential list \<Rightarrow> ('w, number) phone_act" where
  "after_conflict en acc vaultKey kdf credentials =
     act_bind (api_readVault (ae_fetch en)) (\<lambda>answer.
     case answer of
       None \<Rightarrow> vault_attempt en acc vaultKey kdf 0 credentials
     | Some stored \<Rightarrow>
         act_bind (account_of (\<lambda>r. their_key en acc r stored)) (\<lambda>found. resolve_conflict en acc stored found credentials))"

text \<open>The first write of an account draws the key and wraps it.\<close>

definition mint :: "'w account_env \<Rightarrow> account_user \<Rightarrow> byte list \<Rightarrow> ('w, byte list \<times> string) phone_act" where
  "mint en acc wrapKey =
     act_bind (newVaultKey en) (\<lambda>vaultKey.
     act_bind (draw en NONCE_BYTES) (\<lambda>nonce.
     act_bind (act_lift (newKdfDescriptor (ae_xchacha en) vaultKey nonce wrapKey (au_username acc))) (\<lambda>(d, key).
     act_ret (key, encodeKdf d))))"

definition publish_under :: "'w account_env \<Rightarrow> account_user \<Rightarrow> byte list \<Rightarrow> string \<Rightarrow> stored_credential list \<Rightarrow> ('w, number) phone_act" where
  "publish_under en acc vaultKey kdf credentials =
     act_catch
       (act_bind (account_of ac_vaultVersion) (\<lambda>version. vault_attempt en acc vaultKey kdf version credentials))
       (\<lambda>e. case e of VaultConflictError _ \<Rightarrow> after_conflict en acc vaultKey kdf credentials | _ \<Rightarrow> act_throw e)"

definition publishCredentials :: "'w account_env \<Rightarrow> stored_credential list \<Rightarrow> ('w, number) phone_act" where
  "publishCredentials en credentials =
     act_bind (act_get ph_account) (\<lambda>r.
     case signedInAccount r of
       None \<Rightarrow> act_ret 0
     | Some acc \<Rightarrow>
         if ac_vaultSealed r then act_throw VaultSealedError
         else (case (ac_vaultKey r, nonempty (ac_vaultKdf r)) of
             (Some key, Some kdf) \<Rightarrow> publish_under en acc key kdf credentials
           | (key, kdf) \<Rightarrow>
               if key \<noteq> None \<or> kdf \<noteq> None \<or> ac_vaultVersion r \<noteq> 0 then act_throw VaultSealedError
               else (case ac_wrapKey r of
                   None \<Rightarrow> act_ret 0
                 | Some wrapKey \<Rightarrow> act_bind (mint en acc wrapKey) (\<lambda>(vaultKey, record_text). publish_under en acc vaultKey record_text credentials))))"

section \<open>Claiming a computer\<close>

definition CLAIM_POLL_ATTEMPTS :: nat where [simp]: "CLAIM_POLL_ATTEMPTS = 120"

text \<open>\<open>left\<close> counts the attempts that remain; the wait between two of them is the environment's.\<close>

fun claim_loop :: "'w account_env \<Rightarrow> string \<Rightarrow> nat \<Rightarrow> ('w, string option) phone_act" where
  "claim_loop en daemonId 0 s = (Inr None, s)"
| "claim_loop en daemonId (Suc left) s =
     (if fe_aborted (ae_fetch en) (nt_world s) then (Inr None, s)
      else case api_readClaimProof (ae_fetch en) daemonId s of
          (Inl e, t) \<Rightarrow> (Inl e, t)
        | (Inr (Some (proof, _)), t) \<Rightarrow> (Inr (Some proof), t)
        | (Inr None, t) \<Rightarrow> claim_loop en daemonId left t)"

definition awaitClaimProof :: "'w account_env \<Rightarrow> string \<Rightarrow> ('w, string option) phone_act" where
  "awaitClaimProof en daemonId = claim_loop en daemonId CLAIM_POLL_ATTEMPTS"

definition phone_bindDevice :: "'w account_env \<Rightarrow> string \<Rightarrow> string \<Rightarrow> string option \<Rightarrow> ('w, bound_device list) phone_act" where
  "phone_bindDevice en daemonId claimProof label =
     act_bind (api_claimDevice (ae_fetch en) daemonId claimProof label) (\<lambda>_.
     act_bind (listBoundDevices (ae_fetch en)) (\<lambda>devices.
     act_bind (on_account (setAccountDevices devices)) (\<lambda>_. act_ret devices)))"

section \<open>What a publication sends\<close>

type_synonym exchange = "api_request \<times> (nat \<times> json) option"

definition put_vault :: "api_vault_write \<Rightarrow> api_request" where
  "put_vault v = \<lparr> ar_method = ''PUT'', ar_path = PREFIX @ ''/vault'', ar_body = Some (print_json (vault_payload v)) \<rparr>"

definition get_vault :: api_request where
  "get_vault = \<lparr> ar_method = ''GET'', ar_path = PREFIX @ ''/vault'', ar_body = None \<rparr>"

text \<open>What an answer to a read says: nothing usable, no vault, or a stored record; and whether a write lost a race.\<close>

definition answered_vault :: "(nat \<times> json) option \<Rightarrow> vault_record option option" where
  "answered_vault a =
     (case a of
        None \<Rightarrow> None
      | Some (status, body) \<Rightarrow>
          if status = 404 \<and> api_errorCode body = ''unbound'' then Some None
          else map_option Some (case ok_record body of None \<Rightarrow> None | Some ob \<Rightarrow> parseVault (jget ob ''vault'')))"

definition answered_conflict :: "(nat \<times> json) option \<Rightarrow> bool" where
  "answered_conflict a = (case a of None \<Rightarrow> False | Some (status, body) \<Rightarrow> status = 409 \<or> api_errorCode body = ''conflict'')"

text \<open>The version an answer to a write reports, when it reports one.\<close>

definition answered_version :: "(nat \<times> json) option \<Rightarrow> number option" where
  "answered_version a =
     (case a of
        None \<Rightarrow> None
      | Some (status, body) \<Rightarrow>
          if answered_conflict a then None
          else (case ok_record body of None \<Rightarrow> None | Some ob \<Rightarrow> (case jget ob ''version'' of Some (JNum n) \<Rightarrow> Some n | _ \<Rightarrow> None)))"

text \<open>\<open>cs\<close> sealed for the version after \<open>version\<close> with the \<open>i\<close>-th random draw as its nonce.\<close>

definition sealed_with ::
  "'w account_env \<Rightarrow> nat \<Rightarrow> byte list \<Rightarrow> stored_credential list \<Rightarrow> string \<Rightarrow> number \<Rightarrow> sealed_bytes fallible" where
  "sealed_with en i key cs userId version =
     (case version_bits (version + 1) of
        Inl e \<Rightarrow> Inl e
      | Inr v \<Rightarrow> encryptVault (ae_suite en) (ae_xchacha en) (ae_random en i NONCE_BYTES) key cs userId v)"

text \<open>The account after a write the relay accepted.\<close>

definition accepted :: "byte list \<Rightarrow> string \<Rightarrow> number \<Rightarrow> account_record \<Rightarrow> account_record" where
  "accepted key kdf saved r = r\<lparr> ac_vaultKey := Some key, ac_vaultSealed := False, ac_vaultVersion := saved, ac_vaultKdf := Some kdf \<rparr>"

text \<open>
  One write of \<open>cs\<close> at \<open>version\<close>: nothing is sent when it cannot be sealed; otherwise one request, and its answer decides between the
  version stored, a lost race and another error. \<open>touched\<close> is the account while the write is under way.
\<close>

definition write_outcome ::
  "'w account_env \<Rightarrow> account_user \<Rightarrow> nat \<Rightarrow> byte list \<Rightarrow> string \<Rightarrow> number \<Rightarrow> stored_credential list \<Rightarrow> account_record \<Rightarrow>
   exchange list \<Rightarrow> api_error + number \<Rightarrow> account_record \<Rightarrow> bool" where
  "write_outcome en acc i key kdf version cs touched es r b \<longleftrightarrow>
     (case sealed_with en i key cs (au_userId acc) version of
        Inl e \<Rightarrow> es = [] \<and> r = Inl (Thrown e) \<and> b = touched
      | Inr sealed \<Rightarrow> (\<exists>x. es = [(put_vault (write_of sealed kdf version), x)] \<and>
          (case answered_version x of
             Some saved \<Rightarrow> r = Inr saved \<and> b = accepted key kdf saved touched
           | None \<Rightarrow> b = touched \<and> (\<exists>e. r = Inl e \<and> e \<noteq> VaultSealedError \<and> ((\<exists>n. e = VaultConflictError n) \<longleftrightarrow> answered_conflict x)))))"

text \<open>What a stored record holds for this account: the key its own record wraps, and the credentials under that key.\<close>

definition opened_here :: "'w account_env \<Rightarrow> account_user \<Rightarrow> account_record \<Rightarrow> vault_record \<Rightarrow> (byte list \<times> stored_credential list) option" where
  "opened_here en acc a stored =
     (case their_key en acc a stored of
        None \<Rightarrow> None
      | Some key \<Rightarrow> (case read_stored en key stored (au_userId acc) of Inl _ \<Rightarrow> None | Inr theirs \<Rightarrow> Some (key, theirs)))"

text \<open>
  A publication of \<open>cs\<close> under \<open>key\<close> and \<open>kdf\<close>, its random draws starting at \<open>i\<close>: one write at the version the phone knows; exactly if it
  lost a race, one read; and then, when there is no vault any more, one write at version 0, and when there is one that opens here,
  one write at the version just read of what was read merged with \<open>cs\<close>, under the key that opened it and the record that wraps
  that key. A vault that does not open here is not written.
\<close>

definition publication ::
  "'w account_env \<Rightarrow> account_user \<Rightarrow> account_record \<Rightarrow> stored_credential list \<Rightarrow> byte list \<Rightarrow> string \<Rightarrow> nat \<Rightarrow>
   exchange list \<Rightarrow> api_error + number \<Rightarrow> account_record \<Rightarrow> bool" where
  "publication en acc a cs key kdf i es r b \<longleftrightarrow>
     (\<exists>es1 r1 b1. write_outcome en acc i key kdf (ac_vaultVersion a) cs a es1 r1 b1 \<and>
        (if \<exists>n. r1 = Inl (VaultConflictError n) then
           (\<exists>x es2. es = es1 @ (get_vault, x) # es2 \<and>
              (case answered_vault x of
                 None \<Rightarrow> es2 = [] \<and> b = a \<and> (\<exists>e. r = Inl e \<and> e \<noteq> VaultSealedError)
               | Some None \<Rightarrow> write_outcome en acc (i + 1) key kdf 0 cs a es2 r b
               | Some (Some stored) \<Rightarrow>
                   (case opened_here en acc a stored of
                      None \<Rightarrow> es2 = [] \<and> r = Inl VaultSealedError \<and> b = setAccountVaultState (vr_version stored) (Some (vr_kdf stored)) True a
                    | Some (key', theirs) \<Rightarrow>
                        write_outcome en acc (i + 1) key' (vr_kdf stored) (vr_version stored) (mergeCredentials cs theirs)
                          (setAccountVaultKey (Some key') a) es2 r b)))
         else es = es1 \<and> r = r1 \<and> b = b1))"

text \<open>
  The key and the record a publication starts with, and the next random draw: those the phone holds; or, when it holds neither, a
  key drawn now, wrapped with the next draw as nonce; or nothing, when it cannot wrap one.
\<close>

definition publication_key :: "'w account_env \<Rightarrow> account_user \<Rightarrow> account_record \<Rightarrow> nat \<Rightarrow> (byte list \<times> string \<times> nat) fallible option" where
  "publication_key en acc a i =
     (case (ac_vaultKey a, nonempty (ac_vaultKdf a)) of
        (Some key, Some kdf) \<Rightarrow> Some (Inr (key, kdf, i))
      | _ \<Rightarrow> (case ac_wrapKey a of
            None \<Rightarrow> None
          | Some wk \<Rightarrow> Some (let key = ae_random en i KEY_BYTES in
              case newKdfDescriptor (ae_xchacha en) key (ae_random en (i + 1) NONCE_BYTES) wk (au_username acc) of
                Inl e \<Rightarrow> Inl e
              | Inr (d, _) \<Rightarrow> Inr (key, encodeKdf d, i + 2))))"

text \<open>A vault the phone knows of without holding both its key and its record.\<close>

definition half_known :: "account_record \<Rightarrow> bool" where
  "half_known a \<longleftrightarrow> (ac_vaultKey a = None \<or> nonempty (ac_vaultKdf a) = None)
     \<and> (ac_vaultKey a \<noteq> None \<or> nonempty (ac_vaultKdf a) \<noteq> None \<or> ac_vaultVersion a \<noteq> 0)"

lemma act_bindE:
  assumes "act_bind m k s = (r, t)"
  obtains e where "m s = (Inl e, t)" "r = Inl e" | a u where "m s = (Inr a, u)" "k a u = (r, t)"
  using assms by (auto simp: act_bind_def split: prod.splits sum.splits)

lemma call_run:
  fixes s :: "'w phone"
  assumes "call fe sg verb path payload s = (r, t)"
  shows "\<exists>a. nt_trace t = nt_trace s @ [(\<lparr> ar_method = verb, ar_path = PREFIX @ path, ar_body = payload \<rparr>, a)]
    \<and> ph_account t = ph_account s \<and> ph_drawn t = ph_drawn s
    \<and> (case r of Inl e \<Rightarrow> a = None \<and> e \<noteq> VaultSealedError \<and> (\<forall>n. e \<noteq> VaultConflictError n) | Inr v \<Rightarrow> a = Some v)"
  using assms by (auto simp: call_def Let_def split: prod.splits sum.splits client_error.splits)

lemma readVault_run:
  fixes s :: "'w phone"
  assumes "api_readVault fe s = (r, t)"
  shows "\<exists>a. nt_trace t = nt_trace s @ [(get_vault, a)] \<and> ph_account t = ph_account s \<and> ph_drawn t = ph_drawn s
    \<and> (case answered_vault a of None \<Rightarrow> (\<exists>e. r = Inl e \<and> e \<noteq> VaultSealedError) | Some v \<Rightarrow> r = Inr v)"
  using assms unfolding api_readVault_def
proof (cases rule: act_bindE)
  case (1 e)
  then show ?thesis using call_run [OF 1(1)] by (auto simp: get_vault_def answered_vault_def)
next
  case (2 a u)
  obtain status body where a: "a = (status, body)" by force
  have tr: "nt_trace u = nt_trace s @ [(get_vault, Some a)]" "ph_account u = ph_account s" "ph_drawn u = ph_drawn s"
    using call_run [OF 2(1)] by (auto simp: get_vault_def)
  have "t = u \<and> (case answered_vault (Some a) of None \<Rightarrow> (\<exists>e. r = Inl e \<and> e \<noteq> VaultSealedError) | Some v \<Rightarrow> r = Inr v)"
    using 2(2) by (auto simp: a answered_vault_def act_ret_def act_throw_def api_fail_def split: if_splits option.splits)
  then show ?thesis using tr by blast
qed

lemma writeVault_run:
  fixes s :: "'w phone"
  assumes "api_writeVault fe v s = (r, t)"
  shows "\<exists>x. nt_trace t = nt_trace s @ [(put_vault v, x)] \<and> ph_account t = ph_account s \<and> ph_drawn t = ph_drawn s
    \<and> (case answered_version x of
         Some saved \<Rightarrow> r = Inr saved
       | None \<Rightarrow> (\<exists>e. r = Inl e \<and> e \<noteq> VaultSealedError \<and> ((\<exists>n. e = VaultConflictError n) \<longleftrightarrow> answered_conflict x)))"
  using assms unfolding api_writeVault_def
proof (cases rule: act_bindE)
  case (1 e)
  then show ?thesis using call_run [OF 1(1)] by (auto simp: put_vault_def answered_version_def answered_conflict_def)
next
  case (2 a u)
  obtain status body where a: "a = (status, body)" by force
  have tr: "nt_trace u = nt_trace s @ [(put_vault v, Some a)]" "ph_account u = ph_account s" "ph_drawn u = ph_drawn s"
    using call_run [OF 2(1)] by (auto simp: put_vault_def)
  have "t = u \<and> (case answered_version (Some a) of
         Some saved \<Rightarrow> r = Inr saved
       | None \<Rightarrow> (\<exists>e. r = Inl e \<and> e \<noteq> VaultSealedError \<and> ((\<exists>n. e = VaultConflictError n) \<longleftrightarrow> answered_conflict (Some a))))"
    using 2(2) by (auto simp: a answered_version_def answered_conflict_def act_ret_def act_throw_def api_fail_def split: if_splits option.splits json.splits)
  then show ?thesis using tr by blast
qed

lemma seal_next_run:
  fixes s :: "'w phone"
  assumes "seal_next en key cs userId version s = (r, t)"
  shows "nt_trace t = nt_trace s \<and> ph_account t = ph_account s
    \<and> (case sealed_with en (ph_drawn s) key cs userId version of Inl e \<Rightarrow> r = Inl (Thrown e) | Inr sealed \<Rightarrow> r = Inr sealed \<and> ph_drawn t = ph_drawn s + 1)"
  using assms
  by (auto simp: seal_next_def act_bind_def act_lift_def draw_def sealed_with_def split: sum.splits prod.splits)

text \<open>What the code does with a sealed write, the account being \<open>touched\<close> before and set by \<open>after\<close>.\<close>

lemma write_run:
  fixes s :: "'w phone"
  assumes "act_bind (seal_next en key cs (au_userId acc) version) (\<lambda>sealed. act_bind (api_writeVault fe (write_of sealed kdf version)) after) s = (r, t)"
    and "\<And>saved u. after saved u = (Inr saved, u\<lparr> ph_account := f saved (ph_account u) \<rparr>)"
    and "\<And>saved. f saved (ph_account s) = accepted key kdf saved (ph_account s)"
  shows "\<exists>es. nt_trace t = nt_trace s @ es \<and> write_outcome en acc (ph_drawn s) key kdf version cs (ph_account s) es r (ph_account t)
    \<and> (es \<noteq> [] \<longrightarrow> ph_drawn t = ph_drawn s + 1)"
proof (cases "sealed_with en (ph_drawn s) key cs (au_userId acc) version")
  case (Inl e)
  obtain r1 u where "seal_next en key cs (au_userId acc) version s = (r1, u)" by force
  with seal_next_run [OF this] Inl assms(1) show ?thesis by (auto simp: act_bind_def write_outcome_def)
next
  case (Inr sealed)
  obtain r1 u where s: "seal_next en key cs (au_userId acc) version s = (r1, u)" by force
  with seal_next_run [OF this] Inr have u: "r1 = Inr sealed" "nt_trace u = nt_trace s" "ph_account u = ph_account s" "ph_drawn u = ph_drawn s + 1" by auto
  obtain r2 v where w: "api_writeVault fe (write_of sealed kdf version) u = (r2, v)" by force
  obtain x where x: "nt_trace v = nt_trace s @ [(put_vault (write_of sealed kdf version), x)]" "ph_account v = ph_account s" "ph_drawn v = ph_drawn s + 1"
    "case answered_version x of Some saved \<Rightarrow> r2 = Inr saved
     | None \<Rightarrow> (\<exists>e. r2 = Inl e \<and> e \<noteq> VaultSealedError \<and> ((\<exists>n. e = VaultConflictError n) \<longleftrightarrow> answered_conflict x))"
    using writeVault_run [OF w] u by auto
  have "(r, t) = (case r2 of Inl e \<Rightarrow> (Inl e, v) | Inr saved \<Rightarrow> (Inr saved, v\<lparr> ph_account := accepted key kdf saved (ph_account v) \<rparr>))"
    using assms s u(1) w x(2) by (cases r2) (auto simp: act_bind_def)
  then show ?thesis using x Inr by (auto simp: write_outcome_def split: option.splits)
qed

lemma accepted_simp [simp]:
  "setAccountVaultState saved (Some kdf) False (setAccountVaultKey (Some key) a) = accepted key kdf saved a"
  "accepted key kdf saved (setAccountVaultKey (Some key) a) = accepted key kdf saved a"
  by (simp_all add: accepted_def setAccountVaultKey_def setAccountVaultState_def)

lemma vault_attempt_run:
  fixes s :: "'w phone"
  assumes "vault_attempt en acc key kdf version cs s = (r, t)"
  shows "\<exists>es. nt_trace t = nt_trace s @ es \<and> write_outcome en acc (ph_drawn s) key kdf version cs (ph_account s) es r (ph_account t)
    \<and> (es \<noteq> [] \<longrightarrow> ph_drawn t = ph_drawn s + 1)"
  using assms unfolding vault_attempt_def
  by (rule write_run [where f = "\<lambda>saved a. setAccountVaultState saved (Some kdf) False (setAccountVaultKey (Some key) a)"])
    (simp_all add: act_bind_def on_account_def act_modify_def act_ret_def accepted_simp)

lemma write_merged_run:
  fixes s :: "'w phone"
  assumes "write_merged en acc stored key cs s = (r, t)"
  shows "\<exists>es. nt_trace t = nt_trace s @ es
    \<and> write_outcome en acc (ph_drawn s) key (vr_kdf stored) (vr_version stored) cs (setAccountVaultKey (Some key) (ph_account s)) es r (ph_account t)"
proof -
  let ?s = "s\<lparr> ph_account := setAccountVaultKey (Some key) (ph_account s) \<rparr>"
  have step: "act_bind (seal_next en key cs (au_userId acc) (vr_version stored)) (\<lambda>sealed.
     act_bind (api_writeVault (ae_fetch en) (write_of sealed (vr_kdf stored) (vr_version stored))) (\<lambda>saved.
     act_bind (on_account (setAccountVaultState saved (Some (vr_kdf stored)) False)) (\<lambda>_. act_ret saved))) ?s = (r, t)"
    using assms by (simp add: write_merged_def on_account_def act_modify_def act_bind_def [of "\<lambda>s. (Inr (), _ s)"])
  from write_run [OF step, of "\<lambda>saved. setAccountVaultState saved (Some (vr_kdf stored)) False"] show ?thesis
    by (fastforce simp: act_bind_def on_account_def act_modify_def act_ret_def)
qed

lemma sealed_out_run:
  "sealed_out stored s = (Inl VaultSealedError, s\<lparr> ph_account := setAccountVaultState (vr_version stored) (Some (vr_kdf stored)) True (ph_account s) \<rparr>)"
  by (simp add: sealed_out_def on_account_def act_modify_def act_bind_def act_throw_def)

text \<open>What follows a lost race, as the answer to the read decides.\<close>

lemma after_conflict_run:
  fixes s :: "'w phone"
  assumes "after_conflict en acc key kdf cs s = (r, t)"
  shows "\<exists>x es. nt_trace t = nt_trace s @ (get_vault, x) # es \<and>
    (case answered_vault x of
       None \<Rightarrow> es = [] \<and> ph_account t = ph_account s \<and> (\<exists>e. r = Inl e \<and> e \<noteq> VaultSealedError)
     | Some None \<Rightarrow> write_outcome en acc (ph_drawn s) key kdf 0 cs (ph_account s) es r (ph_account t)
     | Some (Some stored) \<Rightarrow>
         (case opened_here en acc (ph_account s) stored of
            None \<Rightarrow> es = [] \<and> r = Inl VaultSealedError \<and> ph_account t = setAccountVaultState (vr_version stored) (Some (vr_kdf stored)) True (ph_account s)
          | Some (key', theirs) \<Rightarrow>
              write_outcome en acc (ph_drawn s) key' (vr_kdf stored) (vr_version stored) (mergeCredentials cs theirs)
                (setAccountVaultKey (Some key') (ph_account s)) es r (ph_account t)))"
proof -
  obtain r1 u where q: "api_readVault (ae_fetch en) s = (r1, u)" by force
  from readVault_run [OF q] obtain x where u: "nt_trace u = nt_trace s @ [(get_vault, x)]" "ph_account u = ph_account s" "ph_drawn u = ph_drawn s"
    "case answered_vault x of None \<Rightarrow> (\<exists>e. r1 = Inl e \<and> e \<noteq> VaultSealedError) | Some v \<Rightarrow> r1 = Inr v" by blast
  consider (bad) "answered_vault x = None" | (gone) "answered_vault x = Some None"
    | (locked) stored where "answered_vault x = Some (Some stored)" "opened_here en acc (ph_account s) stored = None"
    | (merge) stored key' theirs where "answered_vault x = Some (Some stored)" "opened_here en acc (ph_account s) stored = Some (key', theirs)"
    by (metis not_None_eq prod.exhaust)
  then show ?thesis
  proof cases
    case bad
    then show ?thesis using assms q u by (intro exI [of _ x] exI [of _ "[]"]) (auto simp: after_conflict_def act_bind_def)
  next
    case gone
    then have "vault_attempt en acc key kdf 0 cs u = (r, t)" using assms q u by (simp add: after_conflict_def act_bind_def)
    from vault_attempt_run [OF this] gone u show ?thesis by (intro exI [of _ x]) auto
  next
    case locked
    then have "sealed_out stored u = (r, t)"
      using assms q u by (auto simp: after_conflict_def act_bind_def account_of_def act_get_def resolve_conflict_def opened_here_def split: option.splits sum.splits)
    then show ?thesis using locked u by (intro exI [of _ x] exI [of _ "[]"]) (auto simp: sealed_out_run)
  next
    case merge
    then have "write_merged en acc stored key' (mergeCredentials cs theirs) u = (r, t)"
      using assms q u by (auto simp: after_conflict_def act_bind_def account_of_def act_get_def resolve_conflict_def opened_here_def split: option.splits sum.splits)
    from write_merged_run [OF this] merge u show ?thesis by (intro exI [of _ x]) auto
  qed
qed

lemma publish_under_run:
  fixes s :: "'w phone"
  assumes "publish_under en acc key kdf cs s = (r, t)"
  shows "\<exists>es. nt_trace t = nt_trace s @ es \<and> publication en acc (ph_account s) cs key kdf (ph_drawn s) es r (ph_account t)"
proof -
  let ?a = "ph_account s"
  obtain r1 u where a: "vault_attempt en acc key kdf (ac_vaultVersion ?a) cs s = (r1, u)" by force
  from vault_attempt_run [OF a] obtain es1 where es1: "nt_trace u = nt_trace s @ es1"
    "write_outcome en acc (ph_drawn s) key kdf (ac_vaultVersion ?a) cs ?a es1 r1 (ph_account u)" "es1 \<noteq> [] \<longrightarrow> ph_drawn u = ph_drawn s + 1" by blast
  show ?thesis
  proof (cases "\<exists>n. r1 = Inl (VaultConflictError n)")
    case True
    then have c: "after_conflict en acc key kdf cs u = (r, t)"
      using assms a by (auto simp: publish_under_def act_catch_def account_of_def act_get_def act_bind_def)
    have u: "ph_account u = ?a" "ph_drawn u = ph_drawn s + 1" using es1(2,3) True by (auto simp: write_outcome_def split: sum.splits option.splits)
    from after_conflict_run [OF c, unfolded u] obtain x es2 where "nt_trace t = nt_trace s @ es1 @ (get_vault, x) # es2"
      and rest: "case answered_vault x of
         None \<Rightarrow> es2 = [] \<and> ph_account t = ?a \<and> (\<exists>e. r = Inl e \<and> e \<noteq> VaultSealedError)
       | Some None \<Rightarrow> write_outcome en acc (ph_drawn s + 1) key kdf 0 cs ?a es2 r (ph_account t)
       | Some (Some stored) \<Rightarrow>
           (case opened_here en acc ?a stored of
              None \<Rightarrow> es2 = [] \<and> r = Inl VaultSealedError \<and> ph_account t = setAccountVaultState (vr_version stored) (Some (vr_kdf stored)) True ?a
            | Some (key', theirs) \<Rightarrow>
                write_outcome en acc (ph_drawn s + 1) key' (vr_kdf stored) (vr_version stored) (mergeCredentials cs theirs)
                  (setAccountVaultKey (Some key') ?a) es2 r (ph_account t))"
      using es1(1) by auto
    moreover have "publication en acc ?a cs key kdf (ph_drawn s) (es1 @ (get_vault, x) # es2) r (ph_account t)"
      unfolding publication_def if_P [OF True] using es1(2) True rest
      by (intro exI [of _ es1] exI [of _ r1] exI [of _ "ph_account u"]) auto
    ultimately show ?thesis by blast
  next
    case False
    then have "r = r1 \<and> t = u" using assms a
      by (auto simp: publish_under_def act_catch_def account_of_def act_get_def act_bind_def act_throw_def split: sum.splits api_error.splits)
    moreover have "publication en acc ?a cs key kdf (ph_drawn s) es1 r1 (ph_account u)"
      unfolding publication_def using es1(2) False by (intro exI [of _ es1] exI [of _ r1] exI [of _ "ph_account u"]) simp
    ultimately show ?thesis using es1(1) by blast
  qed
qed

lemma mint_run:
  fixes s :: "'w phone"
  assumes "mint en acc wk s = (r, t)"
  shows "nt_trace t = nt_trace s \<and> ph_account t = ph_account s \<and> ph_drawn t = ph_drawn s + 2
    \<and> r = (case newKdfDescriptor (ae_xchacha en) (ae_random en (ph_drawn s) KEY_BYTES) (ae_random en (ph_drawn s + 1) NONCE_BYTES) wk (au_username acc) of
        Inl e \<Rightarrow> Inl (Thrown e) | Inr (d, _) \<Rightarrow> Inr (ae_random en (ph_drawn s) KEY_BYTES, encodeKdf d))"
proof -
  have "k = k'" if "newKdfDescriptor xc k n wk u = Inr (d, k')" for xc k n wk u d k'
    using that by (auto simp: newKdfDescriptor_def bindF_def split: sum.splits)
  then show ?thesis using assms
    by (fastforce simp: mint_def newVaultKey_def draw_def act_bind_def act_lift_def act_ret_def split: sum.splits prod.splits)
qed

lemma nonempty_Some: "nonempty v = Some x \<longleftrightarrow> v = Some x \<and> x \<noteq> []"
  by (cases v rule: option.exhaust; cases "the v") (auto simp: nonempty_def)

lemma act_get_bind: "act_bind (act_get f) k s = k (f s) s"
  by (simp add: act_bind_def act_get_def)

lemma publish_run:
  fixes s :: "'w phone"
  assumes "publishCredentials en cs s = (r, t)"
  shows "\<exists>es. nt_trace t = nt_trace s @ es \<and>
    (case signedInAccount (ph_account s) of
       None \<Rightarrow> es = [] \<and> r = Inr 0 \<and> ph_account t = ph_account s
     | Some acc \<Rightarrow>
         if ac_vaultSealed (ph_account s) \<or> half_known (ph_account s) then es = [] \<and> r = Inl VaultSealedError \<and> ph_account t = ph_account s
         else (case publication_key en acc (ph_account s) (ph_drawn s) of
             None \<Rightarrow> es = [] \<and> r = Inr 0 \<and> ph_account t = ph_account s
           | Some (Inl e) \<Rightarrow> es = [] \<and> r = Inl (Thrown e) \<and> ph_account t = ph_account s
           | Some (Inr (key, kdf, i)) \<Rightarrow> publication en acc (ph_account s) cs key kdf i es r (ph_account t)))"
proof -
  let ?a = "ph_account s"
  consider (out) "signedInAccount ?a = None" | (closed) acc where "signedInAccount ?a = Some acc" "ac_vaultSealed ?a \<or> half_known ?a"
    | (held) acc key kdf where "signedInAccount ?a = Some acc" "\<not> (ac_vaultSealed ?a \<or> half_known ?a)" "ac_vaultKey ?a = Some key" "nonempty (ac_vaultKdf ?a) = Some kdf"
    | (bare) acc where "signedInAccount ?a = Some acc" "\<not> (ac_vaultSealed ?a \<or> half_known ?a)" "ac_vaultKey ?a = None" "nonempty (ac_vaultKdf ?a) = None" "ac_wrapKey ?a = None"
    | (fresh) acc wk where "signedInAccount ?a = Some acc" "\<not> (ac_vaultSealed ?a \<or> half_known ?a)" "ac_vaultKey ?a = None" "nonempty (ac_vaultKdf ?a) = None" "ac_wrapKey ?a = Some wk"
    unfolding half_known_def by (metis not_None_eq)
  then show ?thesis
  proof cases
    case out
    then show ?thesis using assms by (simp add: publishCredentials_def act_get_bind act_ret_def)
  next
    case closed
    then show ?thesis using assms
      by (auto simp: publishCredentials_def act_get_bind act_throw_def half_known_def split: option.splits if_splits)
  next
    case held
    then have "publish_under en acc key kdf cs s = (r, t)" using assms by (simp add: publishCredentials_def act_get_bind)
    from publish_under_run [OF this] held show ?thesis by (simp add: publication_key_def)
  next
    case bare
    then show ?thesis using assms by (simp add: publishCredentials_def act_get_bind act_ret_def publication_key_def half_known_def)
  next
    case fresh
    then have m: "act_bind (mint en acc wk) (\<lambda>(k, d). publish_under en acc k d cs) s = (r, t)"
      using assms by (simp add: publishCredentials_def act_get_bind half_known_def)
    obtain r1 u where u: "mint en acc wk s = (r1, u)" by force
    note run = mint_run [OF u]
    show ?thesis
    proof (cases "newKdfDescriptor (ae_xchacha en) (ae_random en (ph_drawn s) KEY_BYTES) (ae_random en (ph_drawn s + 1) NONCE_BYTES) wk (au_username acc)")
      case (Inl e)
      then show ?thesis using m u run fresh by (auto simp: act_bind_def publication_key_def Let_def)
    next
      case (Inr x)
      then obtain d where "publish_under en acc (ae_random en (ph_drawn s) KEY_BYTES) (encodeKdf d) cs u = (r, t)" "fst x = d"
        using m u run by (cases x) (auto simp: act_bind_def)
      from publish_under_run [OF this(1)] this(2) run fresh Inr show ?thesis by (cases x) (auto simp: publication_key_def Let_def)
    qed
  qed
qed

lemma claim_loop_bound:
  fixes s :: "'w phone"
  assumes "claim_loop en daemonId n s = (r, t)"
  shows "\<exists>es. nt_trace t = nt_trace s @ es \<and> length es \<le> n \<and> ph_account t = ph_account s"
  using assms
proof (induction n arbitrary: s)
  case (Suc n)
  show ?case
  proof (cases "fe_aborted (ae_fetch en) (nt_world s)")
    case False
    obtain q u where q: "api_readClaimProof (ae_fetch en) daemonId s = (q, u)" by force
    have u: "\<exists>e. nt_trace u = nt_trace s @ [e] \<and> ph_account u = ph_account s"
      using q unfolding api_readClaimProof_def
      by (elim act_bindE) (auto dest: call_run simp: act_ret_def act_throw_def split: option.splits if_splits json.splits)
    consider "t = u" | "claim_loop en daemonId n u = (r, t)"
      using Suc.prems False q by (auto split: sum.splits option.splits prod.splits)
    then show ?thesis using u Suc.IH [of u] by cases fastforce+
  qed (use Suc.prems in auto)
qed auto

end
