(* ===== verification/ClientRelay.thy ===== *)
theory ClientRelay
  imports ClientAccount AccountRuns
begin

text \<open>
  Phones and relay together: the network of a phone's account client answered by the relay's own vault handlers. The lemmas
  show that the relay accepts what a phone writes and that a phone reads what the relay stored.
\<close>

section \<open>The relay as a network\<close>

definition request_of :: "api_request \<Rightarrow> request" where
  "request_of r = \<lparr> rq_method = ar_method r, rq_host = [], rq_path = ar_path r, rq_query = [], rq_headers = [],
     rq_text = (case ar_body r of None \<Rightarrow> [] | Some t \<Rightarrow> t) \<rparr>"

text \<open>
  What \<open>handleVault\<close> does once its identity check has passed, which is the part both phones of an owner reach: \<open>i\<close> is the identity
  the session cookie resolved to, and the origin was accepted. An exception is answered 500.
\<close>

definition vault_route :: "venv \<Rightarrow> identity \<Rightarrow> number \<Rightarrow> api_request \<Rightarrow> response handler" where
  "vault_route ven i now r = vault_dispatch ven (request_of r) now i"

definition served :: "(exn + response) \<times> world \<Rightarrow> (fetched \<times> number) \<times> world" where
  "served out =
     (case out of
        (Inr rs, w) \<Rightarrow> ((Responded (rs_status rs) (case rs_body rs of None \<Rightarrow> [] | Some v \<Rightarrow> print_json v), 0), w)
      | (Inl _, w) \<Rightarrow> ((Responded 500 [], 0), w))"

definition relay :: "venv \<Rightarrow> identity \<Rightarrow> number \<Rightarrow> (api_request \<Rightarrow> world \<Rightarrow> (fetched \<times> number) \<times> world) \<Rightarrow> world fetcher" where
  "relay ven i now other =
     \<lparr> fe_fetch = (\<lambda>r w. if ar_path r = PREFIX @ ''/vault'' then served (vault_route ven i now r w) else other r w),
       fe_aborted = (\<lambda>_. False) \<rparr>"

lemma call_relay:
  assumes "vault_route ven i now \<lparr> ar_method = verb, ar_path = PREFIX @ ''/vault'', ar_body = b \<rparr> (nt_world s) = (Inr rs, w)"
    and "rs_body rs = Some v" and "integral v"
  shows "call (relay ven i now other) False verb ''/vault'' b s =
    (Inr (rs_status rs, v), s\<lparr> nt_world := w, nt_trace := nt_trace s @ [(\<lparr> ar_method = verb, ar_path = PREFIX @ ''/vault'', ar_body = b \<rparr>, Some (rs_status rs, v))] \<rparr>)"
  using assms JSON_parse_print [OF assms(3)]
  by (simp add: call_def fetchWithTimeout_def relay_def served_def Let_def)

section \<open>The relay accepts what a phone writes\<close>

lemma std_alphabet: "c \<in> set B64 \<Longrightarrow> is_alnum (to_std c) \<or> to_std c \<in> set ''+/''"
proof -
  have "\<forall>c \<in> set B64. is_alnum (to_std c) \<or> to_std c \<in> set ''+/''" by code_simp
  then show "c \<in> set B64 \<Longrightarrow> is_alnum (to_std c) \<or> to_std c \<in> set ''+/''" by blast
qed

lemma base64Encode_parts:
  obtains t n where "base64Encode bs = t @ replicate n (CHR ''='')" "n \<le> 2" "length t = length (b64url bs)" "bs \<noteq> [] \<Longrightarrow> t \<noteq> []"
    "\<forall>c \<in> set t. is_alnum c \<or> c \<in> set ''+/''"
proof
  let ?t = "map to_std (b64url bs)" and ?n = "(4 - length (b64url bs) mod 4) mod 4"
  show "base64Encode bs = ?t @ replicate ?n (CHR ''='')" by (simp add: base64Encode_def Let_def)
  have "?n \<in> {0, 1, 2}" using b64url_length by (rule pad_cases)
  then show "?n \<le> 2" by auto
  show "\<forall>c \<in> set ?t. is_alnum c \<or> c \<in> set ''+/''" using b64url_alphabet [of bs] std_alphabet by auto
qed (auto dest: arg_cong [of _ _ b64urlDecode])

lemma BASE64_RE_encode: "bs \<noteq> [] \<Longrightarrow> BASE64_RE (base64Encode bs)"
proof -
  assume "bs \<noteq> []"
  then obtain t n where t: "base64Encode bs = t @ replicate n (CHR ''='')" "n \<le> 2" "t \<noteq> []" "\<forall>c \<in> set t. is_alnum c \<or> c \<in> set ''+/''"
    using base64Encode_parts [of bs] by metis
  have "\<not> (is_alnum (CHR ''='') \<or> CHR ''='' \<in> set ''+/'')" by code_simp
  then have "takeWhile (\<lambda>c. is_alnum c \<or> c \<in> set ''+/'') (replicate n (CHR ''='')) = []" by (cases n) (auto simp del: set_simps)
  then have "takeWhile (\<lambda>c. is_alnum c \<or> c \<in> set ''+/'') (base64Encode bs) = t" using t(4) unfolding t(1) by (simp add: takeWhile_append2)
  then show ?thesis using t(1-3) by (simp add: BASE64_RE_def Let_def list_all_iff)
qed

lemma base64Field_encode:
  "bs \<noteq> [] \<Longrightarrow> length (base64Encode bs) \<le> cap * 2 \<Longrightarrow> base64Field (Some (JStr (base64Encode bs))) cap = Some (base64Encode bs)"
  using BASE64_RE_encode by (auto simp: base64Field_def base64Encode_Nil_iff)

lemma base64Encode_length: "3 * length (base64Encode bs) \<le> 4 * length bs + 8"
proof -
  obtain t n where "base64Encode bs = t @ replicate n (CHR ''='')" "n \<le> 2" "length t = length (b64url bs)"
    using base64Encode_parts [of bs] by metis
  then show ?thesis using b64_length [of bs] by simp
qed

lemma printable_text:
  "c \<in> set (base64Encode bs) \<Longrightarrow> \<not> is_control c" "c \<in> set (decimal n) \<Longrightarrow> \<not> is_control c"
proof -
  have plain: "\<not> is_control c" if "is_alnum c \<or> c \<in> set ''+/=''" for c using that by (auto simp: is_alnum_def is_control_def Let_def)
  have "is_alnum c \<or> c \<in> set ''+/=''" if "c \<in> set (base64Encode bs)" for c using base64Encode_parts [of bs] that by (metis (no_types, lifting) UnE in_set_replicate list.set_intros set_ConsD set_append)
  then show "c \<in> set (base64Encode bs) \<Longrightarrow> \<not> is_control c" using plain by blast
  have "is_alnum c" if "is_digit c" for c using that by (auto simp: is_alnum_def is_digit_def Let_def)
  then show "c \<in> set (decimal n) \<Longrightarrow> \<not> is_control c" using decimal_digits [of n] plain by (auto simp: list_all_iff)
qed

lemma ascii_text:
  "c \<in> set (base64Encode bs) \<Longrightarrow> (of_char c :: nat) < 128" "c \<in> set (decimal n) \<Longrightarrow> (of_char c :: nat) < 128"
proof -
  have ascii: "(of_char c :: nat) < 128" if "is_alnum c \<or> c \<in> set ''+/=''" for c using that by (auto simp: is_alnum_def Let_def)
  have "is_alnum c \<or> c \<in> set ''+/=''" if "c \<in> set (base64Encode bs)" for c using base64Encode_parts [of bs] that by (metis (no_types, lifting) UnE in_set_replicate list.set_intros set_ConsD set_append)
  then show "c \<in> set (base64Encode bs) \<Longrightarrow> (of_char c :: nat) < 128" using ascii by blast
  have "is_alnum c" if "is_digit c" for c using that by (auto simp: is_alnum_def is_digit_def Let_def)
  then show "c \<in> set (decimal n) \<Longrightarrow> (of_char c :: nat) < 128" using decimal_digits [of n] ascii by (auto simp: list_all_iff)
qed

text \<open>The descriptor of a new vault, in full.\<close>

lemma new_descriptor:
  assumes "sound_xchacha xc" and "length wrapKey = 32" and "length nonce = 24" and "length key = 32"
    and "newKdfDescriptor xc key nonce wrapKey username = Inr (d, key)"
  obtains ct where "d = \<lparr> kd_name = VAULT_KDF, kd_params = VAULT_KDF_PARAMS, kd_wrapped = base64Encode ct, kd_wrapNonce = base64Encode nonce \<rparr>"
    "length ct = 48"
proof -
  obtain ct where ct: "xc_encrypt xc wrapKey nonce (wrapAad username) key = Some ct" "length ct = length key + 16"
    using assms(1-3) unfolding sound_xchacha_def by blast
  show thesis
  proof (rule that)
    show "length ct = 48" using ct(2) assms(4) by simp
    show "d = \<lparr> kd_name = VAULT_KDF, kd_params = VAULT_KDF_PARAMS, kd_wrapped = base64Encode ct, kd_wrapNonce = base64Encode nonce \<rparr>"
      using assms(5) ct(1) by (auto simp: newKdfDescriptor_def rewrapDescriptor_def wrapVaultKey_def vault_seal_def bindF_def or_throw_def)
  qed
qed

text \<open>It fits the relay's bound of 128 characters.\<close>

lemma kdf_accepted:
  assumes "length ct = 48" and "length nonce = 24"
    and "d = \<lparr> kd_name = VAULT_KDF, kd_params = VAULT_KDF_PARAMS, kd_wrapped = base64Encode ct, kd_wrapNonce = base64Encode nonce \<rparr>"
  shows "opaqueField (Some (JStr (encodeKdf d))) VAULT_KDF_MAX = Some (encodeKdf d)" and "encodeKdf d \<noteq> []"
proof -
  have e: "encodeKdf d = VAULT_KDF @ ''.'' @ decimal 3 @ ''.'' @ decimal 65536 @ ''.'' @ decimal (Suc 0) @ ''.'' @ base64Encode ct @ ''.'' @ base64Encode nonce"
    unfolding assms(3) by (simp add: encodeKdf_def VAULT_KDF_PARAMS_def)
  have dec: "length (decimal 3) = 1" "length (decimal 65536) = 5" "length (decimal (Suc 0)) = 1" by (simp_all add: decimal.simps)
  have kdf: "length VAULT_KDF = 11" "\<not> list_ex is_control (VAULT_KDF @ ''.'')" by code_simp+
  have "\<forall>c \<in> set (VAULT_KDF @ ''.''). (of_char c :: nat) < 128" by code_simp
  then have "\<forall>c \<in> set (encodeKdf d). (of_char c :: nat) < 128" using ascii_text by (auto simp: e simp del: decimal.simps)
  then have "utf16_length (encodeKdf d) \<le> 128"
    using base64Encode_length [of ct] base64Encode_length [of nonce] assms(1,2) by (simp add: utf16_length_ascii) (simp add: e dec kdf(1))
  moreover have "\<not> list_ex is_control (encodeKdf d)"
    using kdf(2) printable_text unfolding e list_ex_iff by (auto simp del: decimal.simps)
  ultimately show "opaqueField (Some (JStr (encodeKdf d))) VAULT_KDF_MAX = Some (encodeKdf d)" by (simp add: opaqueField_def del: utf16_length_simps) (simp add: e)
  show "encodeKdf d \<noteq> []" by (simp add: e)
qed

section \<open>The relay stores what a phone writes and returns it\<close>

lemma readJSON_payload:
  assumes "vw_version v = of_nat n"
  shows "readJSON (request_of (put_vault v)) = Some [(''ciphertext'', JStr (vw_ciphertext v)), (''nonce'', JStr (vw_nonce v)),
    (''kdf'', JStr (vw_kdf v)), (''version'', JNum (of_nat n))]"
proof -
  have "integral (vault_payload v)" using assms by (simp add: vault_payload_def)
  from JSON_parse_print [OF this] have "JSON_parse (print_json (vault_payload v)) = Some (vault_payload v)" .
  moreover have "print_json (vault_payload v) \<noteq> []" by (simp add: vault_payload_def)
  ultimately show ?thesis using assms by (simp add: readJSON_def request_of_def put_vault_def) (simp add: vault_payload_def)
qed

definition stored_row :: "string \<Rightarrow> api_vault_write \<Rightarrow> nat \<Rightarrow> number \<Rightarrow> vault_row" where
  "stored_row u v version now =
     \<lparr> va_user_id = u, va_ciphertext = vw_ciphertext v, va_nonce = vw_nonce v, va_kdf = vw_kdf v, va_version = version, va_updated_at = now \<rparr>"

lemma relay_accepts:
  assumes "vw_ciphertext v = base64Encode ct" and "ct \<noteq> []" and "length (base64Encode ct) \<le> VAULT_MAX_BYTES"
    and "vw_nonce v = base64Encode nonce" and "length nonce = 24" and "opaqueField (Some (JStr (vw_kdf v))) VAULT_KDF_MAX = Some (vw_kdf v)"
    and "vw_version v = of_nat n"
  shows "parseVaultBody (readJSON (request_of (put_vault v))) =
      Some \<lparr> vb_ciphertext = vw_ciphertext v, vb_nonce = vw_nonce v, vb_kdf = vw_kdf v, vb_version = n \<rparr>"
    and "utf8Length (body_str (readJSON (request_of (put_vault v))) ''ciphertext'') \<le> VAULT_MAX_BYTES"
proof -
  have "length (base64Encode nonce) \<le> VAULT_NONCE_MAX * 2" using base64Encode_length [of nonce] assms(5) by simp
  moreover have "nonce \<noteq> []" using assms(5) by auto
  ultimately have "base64Field (Some (JStr (vw_nonce v))) VAULT_NONCE_MAX = Some (vw_nonce v)" using base64Field_encode assms(4) by metis
  moreover have "base64Field (Some (JStr (vw_ciphertext v))) VAULT_MAX_BYTES = Some (vw_ciphertext v)" using base64Field_encode assms(1-3) by simp
  moreover have "version_field (Some (JNum (of_nat n))) = Some n" by (simp add: version_field_def)
  ultimately show "parseVaultBody (readJSON (request_of (put_vault v))) =
      Some \<lparr> vb_ciphertext = vw_ciphertext v, vb_nonce = vw_nonce v, vb_kdf = vw_kdf v, vb_version = n \<rparr>"
    using assms(6) by (simp add: readJSON_payload [OF assms(7)] parseVaultBody_def body_field_def jget_def del: VAULT_MAX_BYTES_def VAULT_NONCE_MAX_def VAULT_KDF_MAX_def)
  show "utf8Length (body_str (readJSON (request_of (put_vault v))) ''ciphertext'') \<le> VAULT_MAX_BYTES"
    using assms(1,3) by (simp add: readJSON_payload [OF assms(7)] body_str_def jstr_def jget_def utf8Length_def text_bytes_def)
qed

lemma relay_stores:
  assumes "settled ven" and "us_user_id (id_user i) \<notin> va_user_id ` set (db_vaults (w_db w))"
    and "parseVaultBody (readJSON (request_of (put_vault v))) =
      Some \<lparr> vb_ciphertext = vw_ciphertext v, vb_nonce = vw_nonce v, vb_kdf = vw_kdf v, vb_version = 0 \<rparr>"
    and "utf8Length (body_str (readJSON (request_of (put_vault v))) ''ciphertext'') \<le> VAULT_MAX_BYTES"
  shows "\<exists>w'. vault_route ven i now (put_vault v) w
      = (Inr (jsonResponse (buildOf (v_build ven)) 200 (JObj [(''ok'', JBool True), (''version'', JNum 1)]) (noStore [])), w')
    \<and> db_vaults (w_db w') = db_vaults (w_db w) @ [stored_row (us_user_id (id_user i)) v 1 now]"
proof -
  let ?row = "stored_row (us_user_id (id_user i)) v 1 now"
  have "INSERT_VAULT_SQL ?row (w_db (later 1 w)) = (Inr 1, (w_db w)\<lparr>db_vaults := db_vaults (w_db w) @ [?row]\<rparr>)"
    using assms(2) by (simp add: insert_vault_rows) (simp add: stored_row_def)
  from settled_one_change [where w = "later 1 w" and op = "INSERT_VAULT_SQL ?row", OF assms(1) this]
  have "insertVault ven ?row (later 1 w) = (Inr True, (later 1 (later 1 w))\<lparr>w_db := (w_db w)\<lparr>db_vaults := db_vaults (w_db w) @ [?row]\<rparr>\<rparr>)"
    by (simp add: insertVault_def catch_ret_def)
  then show ?thesis using assms(3,4)
    by (simp add: vault_route_def vault_dispatch_def request_of_def [of "put_vault v", THEN arg_cong, of rq_method] put_vault_def [of v, THEN arg_cong, of ar_method] Account.writeVault_def bindM_def settled_body [OF assms(1)] Let_def stored_row_def)
qed

lemma relay_returns:
  assumes "settled ven" and "row_where (\<lambda>r. va_user_id r = us_user_id (id_user i)) (db_vaults (w_db w)) = Some row"
  shows "vault_route ven i now get_vault w
    = (Inr (jsonResponse (buildOf (v_build ven)) 200 (JObj [(''ok'', JBool True),
        (''vault'', JObj [(''ciphertext'', JStr (va_ciphertext row)), (''nonce'', JStr (va_nonce row)), (''kdf'', JStr (va_kdf row)),
          (''version'', JNum (of_nat (va_version row))), (''updated_at'', JNum (va_updated_at row))])]) (noStore [])), later 1 w)"
  using assms by (simp add: vault_route_def vault_dispatch_def request_of_def get_vault_def Account.readVault_def bindM_def settled_reads)

text \<open>A phone reads the row the relay holds.\<close>

definition record_of_row :: "vault_row \<Rightarrow> vault_record" where
  "record_of_row r = \<lparr> vr_ciphertext = va_ciphertext r, vr_nonce = va_nonce r, vr_kdf = va_kdf r, vr_version = of_nat (va_version r), vr_updatedAt = va_updated_at r \<rparr>"

lemma phone_reads:
  fixes s :: "world phone"
  assumes "settled ven" and "row_where (\<lambda>r. va_user_id r = us_user_id (id_user i)) (db_vaults (w_db (nt_world s))) = Some row"
    and "1 \<le> va_version row" and "va_version row < 2 ^ 53" and "isSafeInteger (Some (JNum (va_updated_at row)))"
  shows "\<exists>t. api_readVault (relay ven i now other) s = (Inr (Some (record_of_row row)), t) \<and> ph_account t = ph_account s"
proof -
  let ?v = "JObj [(''ok'', JBool True),
        (''vault'', JObj [(''ciphertext'', JStr (va_ciphertext row)), (''nonce'', JStr (va_nonce row)), (''kdf'', JStr (va_kdf row)),
          (''version'', JNum (of_nat (va_version row))), (''updated_at'', JNum (va_updated_at row))])]"
  have i: "integral ?v" using assms(5) by (simp add: isSafeInteger_def)
  have "call (relay ven i now other) False ''GET'' ''/vault'' None s =
    (Inr (200, ?v), s\<lparr> nt_world := later 1 (nt_world s), nt_trace := nt_trace s @ [(get_vault, Some (200, ?v))] \<rparr>)"
    using call_relay [OF relay_returns [OF assms(1,2), unfolded get_vault_def] _ i, of now other] by (simp add: jsonResponse_def get_vault_def)
  moreover have "isSafeInteger (Some (JNum (of_nat (va_version row))))"
  proof -
    have "of_nat (va_version row) \<le> (of_nat (2 ^ 53 - 1) :: number)" using assms(4) by (intro of_nat_mono) simp
    then show ?thesis by (simp add: isSafeInteger_def)
  qed
  then have "parseVault (jget [(''ok'', JBool True),
        (''vault'', JObj [(''ciphertext'', JStr (va_ciphertext row)), (''nonce'', JStr (va_nonce row)), (''kdf'', JStr (va_kdf row)),
          (''version'', JNum (of_nat (va_version row))), (''updated_at'', JNum (va_updated_at row))])] ''vault'') = Some (record_of_row row)"
    using assms(3,5) by (simp add: parseVault_def as_record_def jget_def record_of_row_def)
  ultimately show ?thesis
    by (simp add: api_readVault_def act_bind_def ok_record_def as_record_def act_ret_def) (simp add: jget_def)
qed

section \<open>A first publication\<close>

lemma write_accepted:
  fixes s :: "world phone"
  assumes "settled ven" and "us_user_id (id_user i) \<notin> va_user_id ` set (db_vaults (w_db (nt_world s)))"
    and "parseVaultBody (readJSON (request_of (put_vault v))) =
      Some \<lparr> vb_ciphertext = vw_ciphertext v, vb_nonce = vw_nonce v, vb_kdf = vw_kdf v, vb_version = 0 \<rparr>"
    and "utf8Length (body_str (readJSON (request_of (put_vault v))) ''ciphertext'') \<le> VAULT_MAX_BYTES"
  shows "\<exists>t. api_writeVault (relay ven i now other) v s = (Inr 1, t)
    \<and> db_vaults (w_db (nt_world t)) = db_vaults (w_db (nt_world s)) @ [stored_row (us_user_id (id_user i)) v 1 now]"
proof -
  let ?b = "[(''ok'', JBool True), (''version'', JNum 1)]"
  obtain w where w: "vault_route ven i now (put_vault v) (nt_world s) = (Inr (jsonResponse (buildOf (v_build ven)) 200 (JObj ?b) (noStore [])), w)"
    "db_vaults (w_db w) = db_vaults (w_db (nt_world s)) @ [stored_row (us_user_id (id_user i)) v 1 now]"
    using relay_stores [OF assms] by blast
  have "integral (JObj ?b)" by simp
  from call_relay [OF w(1) [unfolded put_vault_def] _ this, of other]
  have "call (relay ven i now other) False ''PUT'' ''/vault'' (Some (print_json (vault_payload v))) s =
    (Inr (200, JObj ?b), s\<lparr> nt_world := w, nt_trace := nt_trace s @ [(put_vault v, Some (200, JObj ?b))] \<rparr>)"
    by (simp add: jsonResponse_def put_vault_def)
  then show ?thesis using w(2)
    by (simp add: api_writeVault_def act_bind_def ok_record_def as_record_def at_record_def act_ret_def api_errorCode_def jget_def)
qed

lemma encrypt_shape:
  assumes "sound_xchacha xc" and "sound_hkdf su" and "length nonce = 24"
    and "encryptVault su xc nonce key cs userId version = Inr sealed"
  obtains ct where "sealed = \<lparr> sb_ciphertext = base64Encode ct, sb_nonce = base64Encode nonce \<rparr>"
    "length ct = length (print_json (vault_content (map credential_json cs))) + 16"
proof -
  let ?p = "text_bytes (print_json (vault_content (map credential_json cs)))"
  obtain ct where ct: "xc_encrypt xc (contentKey su key) nonce (blobAad userId version) ?p = Some ct" "length ct = length ?p + 16"
    using assms(1,3) contentKey_length [OF assms(2)] unfolding sound_xchacha_def by blast
  show thesis
  proof (rule that)
    show "sealed = \<lparr> sb_ciphertext = base64Encode ct, sb_nonce = base64Encode nonce \<rparr>"
      using assms(4) ct(1) by (simp add: encryptVault_def sealVault_def vault_seal_def bindF_def or_throw_def)
    show "length ct = length (print_json (vault_content (map credential_json cs))) + 16" using ct(2) by (simp add: text_bytes_def)
  qed
qed

text \<open>What a stored row means to a phone: its record opens to \<open>key\<close>, its blob to \<open>cs\<close>.\<close>

definition row_opens :: "'w account_env \<Rightarrow> account_user \<Rightarrow> string \<Rightarrow> byte list \<Rightarrow> byte list \<Rightarrow> stored_credential list \<Rightarrow> vault_row \<Rightarrow> bool" where
  "row_opens en acc password wk key cs row \<longleftrightarrow>
     (\<exists>d. descriptorFor (Some (va_kdf row)) = Some d \<and> sameCost d \<and> tryUnwrap (ae_xchacha en) wk d (au_username acc) = Some key
       \<and> recoverVaultKey (ae_suite en) (ae_argon en) (ae_xchacha en) (au_username acc) password (ae_host en) d = Inr key)
     \<and> read_stored en key (record_of_row row) (au_userId acc) = Inr cs"

text \<open>The conditions under which a vault fits and its parts are sound.\<close>

definition vault_fits :: "'w account_env \<Rightarrow> stored_credential list \<Rightarrow> bool" where
  "vault_fits en cs \<longleftrightarrow> sound_xchacha (ae_xchacha en) \<and> sound_hkdf (ae_suite en) \<and> (\<forall>i n. length (ae_random en i n) = n)
     \<and> list_all (credential_ok (ae_suite en) (ae_origin en)) cs \<and> length (print_json (vault_content (map credential_json cs))) \<le> 49000"

lemma row_opens_new:
  assumes "decodeKdf (encodeKdf d) = Inr d" and "encodeKdf d \<noteq> []" and "openVaultKey (ae_xchacha en) wk d (au_username acc) = Inr key" and "sameCost d"
    and "recoverVaultKey (ae_suite en) (ae_argon en) (ae_xchacha en) (au_username acc) password (ae_host en) d = Inr key"
    and "decryptVault (ae_suite en) (ae_xchacha en) (ae_origin en) key sealed (au_userId acc) 1 = Inr (cs, 1)"
  shows "row_opens en acc password wk key cs (stored_row u (write_of sealed (encodeKdf d) 0) 1 now)"
proof -
  have "nonempty (Some (encodeKdf d)) = Some (encodeKdf d)" using assms(2) by (simp add: nonempty_Some)
  then have "descriptorFor (Some (encodeKdf d)) = Some d" using assms(1) by (simp add: descriptorFor_def)
  moreover have "version_bits 1 = Inr 1" by (simp add: version_bits_def)
  ultimately show ?thesis using assms(3-6)
    by (cases sealed) (simp add: row_opens_def tryUnwrap_def stored_row_def write_of_def read_stored_def record_of_row_def sealed_of_def bindF_def)
qed

lemma minted_row:
  assumes "vault_fits en cs" and "wk = snd (deriveAccountKeys (ae_suite en) (ae_argon en) (au_username acc) password (ae_host en) VAULT_KDF_PARAMS)"
    and "length key = 32" and "length n1 = 24" and "length n2 = 24"
  obtains d sealed where "newKdfDescriptor (ae_xchacha en) key n1 wk (au_username acc) = Inr (d, key)"
    "encryptVault (ae_suite en) (ae_xchacha en) n2 key cs (au_userId acc) 1 = Inr sealed"
    "row_opens en acc password wk key cs (stored_row u (write_of sealed (encodeKdf d) 0) 1 now)"
    "parseVaultBody (readJSON (request_of (put_vault (write_of sealed (encodeKdf d) 0)))) =
       Some \<lparr> vb_ciphertext = sb_ciphertext sealed, vb_nonce = sb_nonce sealed, vb_kdf = encodeKdf d, vb_version = 0 \<rparr>"
    "utf8Length (body_str (readJSON (request_of (put_vault (write_of sealed (encodeKdf d) 0)))) ''ciphertext'') \<le> VAULT_MAX_BYTES"
proof -
  note ok = assms(1) [unfolded vault_fits_def]
  obtain d where d: "newKdfDescriptor (ae_xchacha en) key n1 wk (au_username acc) = Inr (d, key)" "decodeKdf (encodeKdf d) = Inr d"
    "recoverVaultKey (ae_suite en) (ae_argon en) (ae_xchacha en) (au_username acc) password (ae_host en) d = Inr key"
    using recover_new_descriptor [OF _ _ assms(4,3) refl, of "ae_xchacha en" "ae_suite en"] ok assms(2) by blast
  have wk: "length wk = 32" using ok assms(2) by (simp add: deriveAccountKeys_def sound_hkdf_def pairfobHKDF_def Let_def)
  obtain wct where wct: "d = \<lparr> kd_name = VAULT_KDF, kd_params = VAULT_KDF_PARAMS, kd_wrapped = base64Encode wct, kd_wrapNonce = base64Encode n1 \<rparr>"
    "length wct = 48" using new_descriptor [OF _ wk assms(4,3) d(1)] ok by blast
  obtain sealed where s: "encryptVault (ae_suite en) (ae_xchacha en) n2 key cs (au_userId acc) 1 = Inr sealed"
    "decryptVault (ae_suite en) (ae_xchacha en) (ae_origin en) key sealed (au_userId acc) 1 = Inr (cs, 1)"
    using decrypt_encrypt [OF _ _ assms(5)] ok by blast
  obtain ct where ct: "sealed = \<lparr> sb_ciphertext = base64Encode ct, sb_nonce = base64Encode n2 \<rparr>"
    "length ct = length (print_json (vault_content (map credential_json cs))) + 16" using encrypt_shape [OF _ _ assms(5) s(1)] ok by blast
  note kdf = kdf_accepted [OF wct(2) assms(4) wct(1)]
  let ?v = "write_of sealed (encodeKdf d) 0"
  have small: "length (base64Encode ct) \<le> VAULT_MAX_BYTES" using base64Encode_length [of ct] ct(2) ok by simp
  have ne: "ct \<noteq> []" using ct(2) by auto
  have v: "vw_ciphertext ?v = base64Encode ct" "vw_nonce ?v = base64Encode n2" "vw_kdf ?v = encodeKdf d" "vw_version ?v = of_nat 0"
    by (simp_all add: write_of_def ct(1))
  note acc = relay_accepts [OF v(1) ne small v(2) assms(5) _ v(4), unfolded v(3), OF kdf(1)]
  have opened: "openVaultKey (ae_xchacha en) wk d (au_username acc) = Inr key" "sameCost d"
    using d(3) assms(2) by (simp_all add: openVaultKey_def recoverVaultKey_def sameCost_def wct(1))
  have "row_opens en acc password wk key cs (stored_row u ?v 1 now)"
    using row_opens_new [OF d(2) kdf(2) opened d(3) s(2)] by simp
  then show thesis using that [OF d(1) s(1)] acc by (simp add: write_of_def)
qed

text \<open>A phone that holds no vault writes the first one.\<close>

definition no_vault_yet :: "account_record \<Rightarrow> byte list \<Rightarrow> bool" where
  "no_vault_yet r wk \<longleftrightarrow> \<not> ac_vaultSealed r \<and> ac_vaultKey r = None \<and> ac_vaultKdf r = None \<and> ac_vaultVersion r = 0 \<and> ac_wrapKey r = Some wk"

lemma act_bind_Inr: "m s = (Inr a, t) \<Longrightarrow> act_bind m k s = k a t"
  by (simp add: act_bind_def)

lemma first_publication:
  fixes en :: "world account_env" and s :: "world phone"
  assumes net: "ae_fetch en = relay ven i now other" "settled ven"
    and none: "us_user_id (id_user i) \<notin> va_user_id ` set (db_vaults (w_db (nt_world s)))"
    and fits: "vault_fits en cs"
    and acc: "signedInAccount (ph_account s) = Some acc" "no_vault_yet (ph_account s) wk"
    and wk: "wk = snd (deriveAccountKeys (ae_suite en) (ae_argon en) (au_username acc) password (ae_host en) VAULT_KDF_PARAMS)"
  shows "\<exists>key t row. publishCredentials en cs s = (Inr 1, t) \<and> db_vaults (w_db (nt_world t)) = db_vaults (w_db (nt_world s)) @ [row]
    \<and> va_user_id row = us_user_id (id_user i) \<and> va_version row = 1 \<and> va_updated_at row = now \<and> row_opens en acc password wk key cs row"
proof -
  let ?k = "ph_drawn s"
  define key n1 n2 where "key = ae_random en ?k 32" and "n1 = ae_random en (?k + 1) 24" and "n2 = ae_random en (?k + 2) 24"
  have len: "length key = 32" "length n1 = 24" "length n2 = 24" using fits by (simp_all add: vault_fits_def key_def n1_def n2_def)
  obtain d sealed where d: "newKdfDescriptor (ae_xchacha en) key n1 wk (au_username acc) = Inr (d, key)"
    and e: "encryptVault (ae_suite en) (ae_xchacha en) n2 key cs (au_userId acc) 1 = Inr sealed"
    and row: "row_opens en acc password wk key cs (stored_row (us_user_id (id_user i)) (write_of sealed (encodeKdf d) 0) 1 now)"
    and body: "parseVaultBody (readJSON (request_of (put_vault (write_of sealed (encodeKdf d) 0)))) =
       Some \<lparr> vb_ciphertext = sb_ciphertext sealed, vb_nonce = sb_nonce sealed, vb_kdf = encodeKdf d, vb_version = 0 \<rparr>"
       "utf8Length (body_str (readJSON (request_of (put_vault (write_of sealed (encodeKdf d) 0)))) ''ciphertext'') \<le> VAULT_MAX_BYTES"
    by (rule minted_row [OF fits wk len])
  let ?v = "write_of sealed (encodeKdf d) 0" and ?s = "s\<lparr> ph_drawn := Suc (Suc ?k) \<rparr>" and ?t = "s\<lparr> ph_drawn := Suc (Suc (Suc ?k)) \<rparr>"
  have mint: "mint en acc wk s = (Inr (key, encodeKdf d), ?s)"
    using d by (simp add: mint_def newVaultKey_def draw_def act_bind_def act_lift_def act_ret_def key_def n1_def)
  have seal: "seal_next en key cs (au_userId acc) 0 ?s = (Inr sealed, ?t)"
    using e by (simp add: seal_next_def version_bits_def draw_def act_bind_def act_lift_def n2_def)
  have v: "vw_ciphertext ?v = sb_ciphertext sealed" "vw_nonce ?v = sb_nonce sealed" "vw_kdf ?v = encodeKdf d" by (simp_all add: write_of_def)
  obtain u where u: "api_writeVault (ae_fetch en) ?v ?t = (Inr 1, u)"
    "db_vaults (w_db (nt_world u)) = db_vaults (w_db (nt_world s)) @ [stored_row (us_user_id (id_user i)) ?v 1 now]"
    using write_accepted [OF net(2), of i ?t ?v now other] none body unfolding net(1) v by auto
  have "\<exists>t. vault_attempt en acc key (encodeKdf d) 0 cs ?s = (Inr 1, t) \<and> nt_world t = nt_world u"
    using u(1) by (simp add: vault_attempt_def seal on_account_def act_modify_def act_bind_def act_ret_def)
  then obtain t where t: "vault_attempt en acc key (encodeKdf d) 0 cs ?s = (Inr 1, t)" "nt_world t = nt_world u" by blast
  have "publish_under en acc key (encodeKdf d) cs ?s = (Inr 1, t)"
    using t(1) acc(2) by (simp add: publish_under_def act_catch_def account_of_def act_get_bind no_vault_yet_def)
  then have "act_bind (mint en acc wk) (\<lambda>(k, r). publish_under en acc k r cs) s = (Inr 1, t)" by (simp add: act_bind_def mint)
  then have "publishCredentials en cs s = (Inr 1, t)"
    using acc by (simp add: publishCredentials_def act_get_bind no_vault_yet_def nonempty_def)
  moreover have "va_user_id (stored_row u' v n m) = u'" "va_version (stored_row u' v n m) = n" "va_updated_at (stored_row u' v n m) = m" for u' v n m
    by (simp_all add: stored_row_def)
  ultimately show ?thesis using u(2) t(2) row by metis
qed

section \<open>A second phone\<close>

lemma list_run:
  fixes s :: "'w phone"
  assumes "listBoundDevices fe s = (r, t)"
  shows "ph_account t = ph_account s"
  using assms unfolding listBoundDevices_def
  by (elim act_bindE) (auto dest: call_run simp: act_ret_def act_throw_def split: option.splits json.splits)

lemma sync_opens:
  fixes en :: "world account_env" and s :: "world phone"
  assumes net: "ae_fetch en = relay ven i now other" "settled ven"
    and row: "row_where (\<lambda>r. va_user_id r = us_user_id (id_user i)) (db_vaults (w_db (nt_world u))) = Some row" "va_version row = 1"
      "isSafeInteger (Some (JNum (va_updated_at row)))"
    and opens: "row_opens en acc password wk key cs row"
    and acc: "signedInAccount (ph_account s) = Some acc" "ac_vaultKey (ph_account s) = None" "ac_wrapKey (ph_account s) \<in> {None, Some wk}" "password \<noteq> []"
    and ds: "listBoundDevices (ae_fetch en) s = (Inr ds, u)"
  shows "\<exists>t. syncAccountDevices en (Some password) local s = (Inr (scopeToOwnedDevices (mergeCredentials local cs) (map bd_daemonId ds)), t)
    \<and> ac_vaultKey (ph_account t) = Some key \<and> \<not> ac_vaultSealed (ph_account t) \<and> ac_vaultVersion (ph_account t) = 1"
proof -
  let ?r = "setAccountDevices ds (ph_account s)"
  let ?u = "u\<lparr> ph_account := ?r \<rparr>"
  have u: "ph_account u = ph_account s" by (rule list_run [OF ds])
  obtain w where w: "api_readVault (ae_fetch en) ?u = (Inr (Some (record_of_row row)), w)" "ph_account w = ?r"
    using phone_reads [OF net(2), of i ?u row now other] row unfolding net(1) by auto
  obtain d where d: "descriptorFor (Some (va_kdf row)) = Some d" "sameCost d" "tryUnwrap (ae_xchacha en) wk d (au_username acc) = Some key"
    "recoverVaultKey (ae_suite en) (ae_argon en) (ae_xchacha en) (au_username acc) password (ae_host en) d = Inr key"
    and read: "read_stored en key (record_of_row row) (au_userId acc) = Inr cs" using opens unfolding row_opens_def by blast
  have "nonempty (Some password) = Some password" using acc(4) by (simp add: nonempty_Some)
  then have key: "vaultKeyFor en ?r (vr_kdf (record_of_row row)) (au_username acc) (Some password) = Some key"
    using d acc(2,3) by (auto simp: vaultKeyFor_def record_of_row_def setAccountDevices_def)
  show ?thesis using w(2) row(2)
    by (simp add: syncAccountDevices_def account_of_def act_get_bind acc(1) ds on_account_def act_modify_def act_bind_def u Let_def w(1) key read
        act_get_def act_ret_def setAccountVaultState_def setAccountVaultKey_def) (simp add: record_of_row_def)
qed


lemma row_where_appended:
  assumes "u \<notin> f ` set rows" and "f row = u"
  shows "row_where (\<lambda>r. f r = u) (rows @ [row]) = Some row"
  using assms by (induction rows) (auto simp: row_where_def)

end
