(* ===== verification/ClientAccountProperties.thy ===== *)
theory ClientAccountProperties
  imports ClientRelay ClientDemo AccountDemo
begin

text \<open>
  What the phone's account guarantees: another phone of the owner reads what was published, through the relay, from nothing
  but the passphrase; a publication never overwrites a vault it has not read; and two catalogues merge into one entry per
  computer, the newest. The witness runs on the primitives of \<open>ClientDemo\<close> and the worker of \<open>AccountDemo\<close>.
\<close>

section \<open>Merging\<close>

text \<open>(C39) A merge of two catalogues has exactly one entry for every computer in either, which is one of theirs and as new as any
  of them for that computer, and lists them newest first.\<close>

theorem merge_keeps_newest:
  "distinct (map sc_daemon_id (mergeCredentials local remote))
   \<and> sc_daemon_id ` set (mergeCredentials local remote) = sc_daemon_id ` set (local @ remote)
   \<and> set (mergeCredentials local remote)
       \<subseteq> {c \<in> set (local @ remote). sc_created_at c = Max (sc_created_at ` {d \<in> set (local @ remote). sc_daemon_id d = sc_daemon_id c})}
   \<and> sorted (rev (map sc_created_at (mergeCredentials local remote)))"
proof -
  define m where "m = fold merge_step (remote @ local) []"
  have new: "newest_in (remote @ local) m" unfolding m_def by (rule fold_merge_newest)
  let ?r = "mergeCredentials local remote"
  have r: "?r = sort_key (\<lambda>c. - sc_created_at c) (map snd m)" by (simp add: mergeCredentials_def m_def)
  have ids: "map sc_daemon_id (map snd m) = map fst m" using newest_in_ids(1) [OF new] by simp
  have "distinct (map sc_daemon_id (map snd m))" using new unfolding ids by (simp add: newest_in_def)
  then have "distinct (map sc_daemon_id ?r)" unfolding r distinct_map distinct_sort set_sort .
  moreover have "sc_daemon_id ` set ?r = sc_daemon_id ` set (local @ remote)"
    using newest_in_ids(2) [OF new] arg_cong [OF ids, of set] unfolding r by (simp add: Un_commute image_image)
  moreover have "c \<in> set (local @ remote) \<and> sc_created_at c = Max (sc_created_at ` {d \<in> set (local @ remote). sc_daemon_id d = sc_daemon_id c})"
    if "c \<in> set ?r" for c
  proof -
    from that obtain i where "(i, c) \<in> set m" unfolding r by auto
    from newest_in_member [OF new this] show ?thesis by (auto intro!: Max_eqI [symmetric])
  qed
  moreover have "sorted (rev (map sc_created_at ?r))"
  proof -
    have "sorted (map (\<lambda>c. - sc_created_at c) ?r)" unfolding r by (rule sorted_sort_key)
    then show ?thesis by (simp add: sorted_wrt_rev sorted_wrt_map sorted_map)
  qed
  ultimately show ?thesis by blast
qed

section \<open>Publishing\<close>

text \<open>(C11) What a publication sends, returns and leaves in the account is determined by the answers it gets. A phone that is signed out,
  whose vault is sealed, which knows of a vault without holding its key and record, or which cannot wrap a key, sends nothing; the
  middle two are refused. Otherwise it writes at the version it knows, under the key and record it holds or, when it holds
  neither, under a key it drew just now and wrapped, and seals with a fresh nonce. Exactly when the relay answers that the write
  lost a race, it reads once; then, if there is no vault any more, it writes once more at version 0, and if the vault opens here, it
  writes what it read merged with its own at the version just read under the key that opened it; a vault that does not open is
  refused, marked sealed and not written. It returns a version exactly when the relay reported one for the last write, and
  then the account holds the key, record and version of that write.\<close>

theorem publish_merges_or_refuses:
  fixes s :: "'w phone"
  shows "case publishCredentials en cs s of (r, t) \<Rightarrow> \<exists>es. nt_trace t = nt_trace s @ es \<and>
    (case signedInAccount (ph_account s) of
       None \<Rightarrow> es = [] \<and> r = Inr 0 \<and> ph_account t = ph_account s
     | Some acc \<Rightarrow>
         if ac_vaultSealed (ph_account s) \<or> half_known (ph_account s) then es = [] \<and> r = Inl VaultSealedError \<and> ph_account t = ph_account s
         else (case publication_key en acc (ph_account s) (ph_drawn s) of
             None \<Rightarrow> es = [] \<and> r = Inr 0 \<and> ph_account t = ph_account s
           | Some (Inl e) \<Rightarrow> es = [] \<and> r = Inl (Thrown e) \<and> ph_account t = ph_account s
           | Some (Inr (key, kdf, i)) \<Rightarrow> publication en acc (ph_account s) cs key kdf i es r (ph_account t)))"
  using publish_run [of en cs s] by (cases "publishCredentials en cs s") simp

section \<open>Two phones and a relay\<close>

text \<open>(C7) A phone that publishes its credentials for the first time through the relay's handlers is told version 1; and another
  phone of the owner that signs in with the same passphrase then opens the vault the relay returns and gets those
  credentials, merged with its own and limited to the owner's computers.\<close>

theorem vault_travels:
  fixes en :: "world account_env" and s s' :: "world phone"
  assumes net: "ae_fetch en = relay ven i now other" "settled ven" "isSafeInteger (Some (JNum now))"
    and none: "us_user_id (id_user i) \<notin> va_user_id ` set (db_vaults (w_db (nt_world s)))"
    and fits: "vault_fits en cs"
    and first: "signedInAccount (ph_account s) = Some acc" "no_vault_yet (ph_account s) wk" "publishCredentials en cs s = (r, t)"
    and wk: "wk = snd (deriveAccountKeys (ae_suite en) (ae_argon en) (au_username acc) password (ae_host en) VAULT_KDF_PARAMS)"
    and second: "signedInAccount (ph_account s') = Some acc" "ac_vaultKey (ph_account s') = None" "ac_wrapKey (ph_account s') \<in> {None, Some wk}"
      "password \<noteq> []" "nt_world s' = nt_world t" "listBoundDevices (ae_fetch en) s' = (Inr ds, u)"
    and others: "db_vaults (w_db (nt_world u)) = db_vaults (w_db (nt_world s'))"
  shows "r = Inr 1
    \<and> (\<exists>t'. syncAccountDevices en (Some password) local s' = (Inr (scopeToOwnedDevices (mergeCredentials local cs) (map bd_daemonId ds)), t')
        \<and> ac_vaultKey (ph_account t') \<noteq> None \<and> \<not> ac_vaultSealed (ph_account t') \<and> ac_vaultVersion (ph_account t') = 1)"
proof -
  obtain key row where p: "r = Inr 1" "db_vaults (w_db (nt_world t)) = db_vaults (w_db (nt_world s)) @ [row]"
    "va_user_id row = us_user_id (id_user i)" "va_version row = 1" "va_updated_at row = now" "row_opens en acc password wk key cs row"
    using first_publication [OF net(1,2) none fits first(1,2) wk] first(3) by auto
  from row_where_appended [OF none p(3)] have "row_where (\<lambda>r. va_user_id r = us_user_id (id_user i)) (db_vaults (w_db (nt_world u))) = Some row"
    using p(2) others second(5) by simp
  from sync_opens [OF net(1,2) this p(4) _ p(6) second(1-4,6)] net(3) p(1,5) show ?thesis by fastforce
qed


text \<open>A cipher in the clear, with a tag of sixteen zeros; a phone with one computer; a network that lists it.\<close>

definition demo_xchacha :: xchacha where
  "demo_xchacha =
     \<lparr> xc_encrypt = (\<lambda>k n a p. if length k = 32 \<and> length n = 24 then Some (p @ replicate 16 0) else None),
       xc_decrypt = (\<lambda>k n a c. if length c \<ge> 16 \<and> drop (length c - 16) c = replicate 16 0 then Some (take (length c - 16) c) else None) \<rparr>"

definition demo_credential :: stored_credential where
  "demo_credential =
     \<lparr> sc_daemon_id = demo_id, sc_device_id = ''dev_00000000'', sc_device_psk = b64url (replicate 32 1),
       sc_daemon_pk = b64url (replicate 32 2), sc_relay_origin = ''https://relay'', sc_fp = fingerprint16 demo_suite (replicate 32 2),
       sc_label = ''phone'', sc_created_at = 1, sc_hostname = None, sc_last_seen = None \<rparr>"

definition demo_owner :: identity where
  "demo_owner = \<lparr> id_user = \<lparr> us_user_id = ''u_1'', us_username = ''ada'', us_password_hash = [], us_role = ''admin'', us_created_at = 1 \<rparr>, id_tokenHash = [] \<rparr>"

definition demo_listing :: "api_request \<Rightarrow> world \<Rightarrow> (fetched \<times> number) \<times> world" where
  "demo_listing r w =
     ((Responded 200 (print_json (JObj [(''ok'', JBool True), (''devices'', JArr [JObj [(''daemon_id'', JStr demo_id), (''bound_at'', JNum 1)]])])), 0), w)"

definition demo_account_env :: "world account_env" where
  "demo_account_env =
     \<lparr> ae_fetch = relay demo_worker demo_owner 5 demo_listing, ae_suite = demo_suite, ae_xchacha = demo_xchacha,
       ae_argon = (\<lambda>_ _ _ _ _ n. replicate n 0), ae_origin = Some, ae_host = ''relay'', ae_random = (\<lambda>i n. replicate n (word_of_nat i)) \<rparr>"

definition demo_user :: account_user where
  "demo_user = \<lparr> au_userId = ''u_1'', au_username = ''ada'', au_role = Admin \<rparr>"

definition demo_wrapKey :: "byte list" where
  "demo_wrapKey = snd (deriveAccountKeys demo_suite (\<lambda>_ _ _ _ _ n. replicate n 0) ''ada'' ''horse'' ''relay'' VAULT_KDF_PARAMS)"

definition demo_phone :: "world \<Rightarrow> world phone" where
  "demo_phone w = \<lparr> nt_world = w, nt_trace = [], ph_account = setAccountSession demo_user demo_wrapKey accountDomain, ph_drawn = 0 \<rparr>"

lemma quote_length: "length (json_quote s) \<le> 6 * length s + 2"
proof -
  have "length (escape_char c) \<le> 6" for c by (simp add: escape_char_def HEX_BYTE_def)
  then have "length (concat (map escape_char s)) \<le> 6 * length s"
    by (induction s) (simp_all add: add_le_mono)
  then show ?thesis by (simp add: json_quote_def)
qed

lemma demo_vault_size: "length (print_json (vault_content [credential_json demo_credential])) \<le> 49000"
proof -
  have b: "length (b64url (replicate 32 1)) < 60" "length (b64url (replicate 32 2)) < 60" "length (fingerprint16 demo_suite (replicate 32 2)) < 60"
    using b64_length [of "replicate 32 1"] b64_length [of "replicate 32 2"] b64_length [of "take 16 (sha256_of demo_suite (replicate 32 2))"]
    by (simp_all add: fingerprint16_def)
  have q: "length (json_quote s) \<le> 500" if "length s < 60" for s using quote_length [of s] that by simp
  have "length (print_json (vault_content [credential_json demo_credential])) \<le> 500 * 18"
    using q [OF b(1)] q [OF b(2)] q [OF b(3)] q [of demo_id] q [of "''v''"] q [of "''credentials''"] q [of "''daemon_id''"] q [of "''device_id''"]
      q [of "''device_psk''"] q [of "''daemon_pk''"] q [of "''relay_origin''"] q [of "''fp''"] q [of "''label''"] q [of "''created_at''"]
      q [of "''dev_00000000''"] q [of "''https://relay''"] q [of "''phone''"]
    by (simp add: vault_content_def credential_json_def demo_credential_def js_String_digit demo_id_def)
  then show ?thesis by simp
qed

lemma demo_fits: "vault_fits demo_account_env [demo_credential]"
proof -
  have env: "ae_xchacha demo_account_env = demo_xchacha" "ae_suite demo_account_env = demo_suite" "ae_origin demo_account_env = Some"
    "ae_random demo_account_env = (\<lambda>i n. replicate n (word_of_nat i))" by (simp_all add: demo_account_env_def)
  have "sound_xchacha demo_xchacha" by (simp add: sound_xchacha_def demo_xchacha_def)
  moreover have "sound_hkdf demo_suite" by (simp add: sound_hkdf_def demo_suite_def)
  moreover have "DAEMON_ID_RE demo_id" "DEVICE_ID_RE ''dev_00000000''" by code_simp+
  then have "credential_ok demo_suite Some demo_credential"
    unfolding credential_ok_def by (auto simp: demo_credential_def isSafeInteger_def intro!: exI [of _ "replicate 32 1"] exI [of _ "replicate 32 2"])
  moreover note demo_vault_size
  ultimately show ?thesis by (simp add: vault_fits_def env)
qed

lemma demo_lists:
  fixes s :: "world phone"
  shows "\<exists>u. listBoundDevices (ae_fetch demo_account_env) s
      = (Inr [\<lparr> bd_daemonId = demo_id, bd_label = None, bd_boundAt = 1, bd_live = False \<rparr>], u) \<and> nt_world u = nt_world s"
proof -
  let ?d = "JObj [(''daemon_id'', JStr demo_id), (''bound_at'', JNum 1)]"
  let ?v = "JObj [(''ok'', JBool True), (''devices'', JArr [?d])]"
  have "DAEMON_ID_RE demo_id" by code_simp
  then have d: "parseDevice (Some ?d) = Some \<lparr> bd_daemonId = demo_id, bd_label = None, bd_boundAt = 1, bd_live = False \<rparr>"
    by (simp add: parseDevice_def as_record_def jget_def validDaemonId_def isSafeInteger_def)
  have "JSON_parse (print_json ?v) = Some ?v" by (rule JSON_parse_print) simp
  then have "\<exists>u. call (ae_fetch demo_account_env) False ''GET'' ''/devices'' None s = (Inr (200, ?v), u) \<and> nt_world u = nt_world s"
    by (simp add: call_def fetchWithTimeout_def demo_account_env_def relay_def demo_listing_def PREFIX_def Let_def del: print_json.simps)
  then show ?thesis
    using d by (auto simp: listBoundDevices_def act_bind_def ok_record_def as_record_def jget_def act_ret_def map_filter_simps)
qed

theorem vault_travels_witness:
  "\<exists>t t'. publishCredentials demo_account_env [demo_credential] (demo_phone (new_world 5)) = (Inr 1, t)
     \<and> syncAccountDevices demo_account_env (Some ''horse'') [] (demo_phone (nt_world t)) = (Inr [demo_credential], t')
     \<and> ac_vaultVersion (ph_account t') = 1"
proof -
  obtain r t where run: "publishCredentials demo_account_env [demo_credential] (demo_phone (new_world 5)) = (r, t)" by force
  obtain u where u: "listBoundDevices (ae_fetch demo_account_env) (demo_phone (nt_world t))
      = (Inr [\<lparr> bd_daemonId = demo_id, bd_label = None, bd_boundAt = 1, bd_live = False \<rparr>], u)" "nt_world u = nt_world (demo_phone (nt_world t))"
    using demo_lists by blast
  have net: "ae_fetch demo_account_env = relay demo_worker demo_owner 5 demo_listing" by (simp add: demo_account_env_def)
  have now: "isSafeInteger (Some (JNum 5))" by (simp add: isSafeInteger_def)
  have none: "us_user_id (id_user demo_owner) \<notin> va_user_id ` set (db_vaults (w_db (nt_world (demo_phone (new_world 5)))))"
    by (simp add: demo_phone_def new_world_def empty_d1_def)
  have acc: "signedInAccount (ph_account (demo_phone w)) = Some demo_user" "no_vault_yet (ph_account (demo_phone w)) demo_wrapKey" for w
    by (simp_all add: demo_phone_def setAccountSession_def demo_user_def signedInAccount_def nonempty_def no_vault_yet_def accountDomain_def)
  then have second: "ac_vaultKey (ph_account (demo_phone w)) = None" "ac_wrapKey (ph_account (demo_phone w)) \<in> {None, Some demo_wrapKey}" for w
    by (simp_all add: no_vault_yet_def)
  have wk: "demo_wrapKey = snd (deriveAccountKeys (ae_suite demo_account_env) (ae_argon demo_account_env) (au_username demo_user) ''horse'' (ae_host demo_account_env) VAULT_KDF_PARAMS)"
    by (simp add: demo_wrapKey_def demo_account_env_def demo_user_def)
  have "nt_world (demo_phone (nt_world t)) = nt_world t" by (simp add: demo_phone_def)
  from vault_travels [OF net demo_settled now none demo_fits acc run wk acc(1) second _ this u(1), of "[]"] u(2)
  obtain t' where t': "r = Inr 1" "syncAccountDevices demo_account_env (Some ''horse'') [] (demo_phone (nt_world t)) =
      (Inr (scopeToOwnedDevices (mergeCredentials [] [demo_credential]) [demo_id]), t')" "ac_vaultVersion (ph_account t') = 1"
    by auto
  have "scopeToOwnedDevices (mergeCredentials [] [demo_credential]) [demo_id] = [demo_credential]"
    by (simp add: scopeToOwnedDevices_def mergeCredentials_def merge_step_def) (simp add: demo_credential_def)
  with t' run show ?thesis by auto
qed

text \<open>A network on which every write loses its race and every read fails, and a phone that holds its vault at version 3.\<close>

definition racing_env :: "unit account_env" where
  "racing_env =
     \<lparr> ae_fetch = \<lparr> fe_fetch = (\<lambda>_ w. ((Responded 409 [], 0), w)), fe_aborted = (\<lambda>_. False) \<rparr>, ae_suite = demo_suite, ae_xchacha = demo_xchacha,
       ae_argon = (\<lambda>_ _ _ _ _ n. replicate n 0), ae_origin = Some, ae_host = ''relay'', ae_random = (\<lambda>i n. replicate n (word_of_nat i)) \<rparr>"

definition racing_phone :: "unit phone" where
  "racing_phone = \<lparr> nt_world = (), nt_trace = [],
     ph_account = (setAccountSession demo_user demo_wrapKey accountDomain)\<lparr> ac_vaultKey := Some (replicate 32 7), ac_vaultKdf := Some ''kdf'', ac_vaultVersion := 3 \<rparr>,
     ph_drawn = 0 \<rparr>"

lemma racing_sealed: "\<exists>x. sealed_with racing_env 0 (replicate 32 7) [] ''u_1'' 3 = Inr x"
  by (simp add: sealed_with_def version_bits_def racing_env_def encryptVault_def sealVault_def vault_seal_def bindF_def or_throw_def demo_xchacha_def
      demo_suite_def pairfobHKDF_def contentKey_def)

lemma racing_write:
  assumes "sealed_with racing_env 0 (replicate 32 7) [] ''u_1'' 3 = Inr x"
  shows "\<exists>e t. publishCredentials racing_env [] racing_phone = (Inl e, t)
    \<and> nt_trace t = [(put_vault (write_of x ''kdf'' 3), Some (409, JNull)), (get_vault, Some (409, JNull))]"
proof -
  have p: "JSON_parse [] = None" by code_simp
  have acc: "signedInAccount (ph_account racing_phone) = Some demo_user" "nt_trace racing_phone = []" "ph_drawn racing_phone = 0"
    "\<not> ac_vaultSealed (ph_account racing_phone)" "ac_vaultKey (ph_account racing_phone) = Some (replicate 32 7)"
    "nonempty (ac_vaultKdf (ph_account racing_phone)) = Some ''kdf''" "ac_vaultVersion (ph_account racing_phone) = 3" "au_userId demo_user = ''u_1''"
    by (simp_all add: racing_phone_def setAccountSession_def demo_user_def signedInAccount_def nonempty_def accountDomain_def)
  have c: "call (ae_fetch racing_env) False verb path payload s =
      (Inr (409, JNull), s\<lparr> nt_trace := nt_trace s @ [(\<lparr> ar_method = verb, ar_path = PREFIX @ path, ar_body = payload \<rparr>, Some (409, JNull))] \<rparr>)"
    for verb path payload and s :: "unit phone"
    by (simp add: call_def fetchWithTimeout_def racing_env_def p Let_def)
  obtain q u where q: "seal_next racing_env (replicate 32 7) [] ''u_1'' 3 racing_phone = (q, u)" by force
  note u = q seal_next_run [OF q, unfolded acc(2,3) assms sum.case]
  show ?thesis
    by (simp add: publishCredentials_def act_get_def acc publish_under_def act_catch_def account_of_def vault_attempt_def act_bind_def u api_writeVault_def c
        act_throw_def api_fail_def after_conflict_def api_readVault_def ok_record_def as_record_def put_vault_def get_vault_def del: print_json.simps)
qed

theorem publish_merges_or_refuses_witness:
  "\<exists>x e t. publishCredentials racing_env [] racing_phone = (Inl e, t) \<and> e \<noteq> VaultSealedError
     \<and> nt_trace t = [(put_vault (write_of x ''kdf'' 3), Some (409, JNull)), (get_vault, Some (409, JNull))] \<and> ph_account t = ph_account racing_phone"
proof -
  obtain x where x: "sealed_with racing_env 0 (replicate 32 7) [] ''u_1'' 3 = Inr x" using racing_sealed by blast
  from racing_write [OF x] obtain e t where run: "publishCredentials racing_env [] racing_phone = (Inl e, t)"
    "nt_trace t = [(put_vault (write_of x ''kdf'' 3), Some (409, JNull)), (get_vault, Some (409, JNull))]" by blast
  have acc: "signedInAccount (ph_account racing_phone) = Some demo_user" "nt_trace racing_phone = []" "ph_drawn racing_phone = 0"
    "\<not> ac_vaultSealed (ph_account racing_phone)" "ac_vaultKey (ph_account racing_phone) = Some (replicate 32 7)"
    "nonempty (ac_vaultKdf (ph_account racing_phone)) = Some ''kdf''" "ac_vaultVersion (ph_account racing_phone) = 3" "au_userId demo_user = ''u_1''"
    by (simp_all add: racing_phone_def setAccountSession_def demo_user_def signedInAccount_def nonempty_def accountDomain_def)
  have b: "answered_vault (Some (409, JNull)) = None" by (simp add: answered_vault_def ok_record_def as_record_def)
  have "publication racing_env demo_user (ph_account racing_phone) [] (replicate 32 7) ''kdf'' 0 (nt_trace t) (Inl e) (ph_account t)"
    using publish_merges_or_refuses [where en = racing_env and cs = "[]" and s = racing_phone] run(1) acc
    by (simp add: publication_key_def half_known_def)
  then have "e \<noteq> VaultSealedError \<and> ph_account t = ph_account racing_phone"
    using x acc b unfolding publication_def write_outcome_def run(2) by (auto split: option.splits if_splits)
  then show ?thesis using run by blast
qed

end
