(* ===== verification/ClientStore.thy ===== *)
theory ClientStore
  imports ClientVault "HOL-Library.List_Lexorder" "HOL-Library.Char_ord"
begin

text \<open>
  What a phone keeps between visits: the object stores of \<^verbatim>\<open>pwa/src/lib/credentials.ts\<close> and the choice of the computer to resume
  (\<^verbatim>\<open>computer-catalog.ts\<close>). A transaction is atomic and may fail; the model takes its error as an argument. The lemmas
  show that a saved credential is loaded again, that the others stay, and which computer is resumed.
\<close>

section \<open>Object stores\<close>

text \<open>
  A stored value is a JSON object or a record of the prototype, whose keys are typed arrays. \<^verbatim>\<open>getAll\<close> answers in the order of
  the keys, so the store is kept sorted.
\<close>

record legacy_credential =
  lc_daemon_id :: "json option"
  lc_device_id :: "json option"
  lc_device_psk :: "byte list option"
  lc_daemon_pk :: "byte list option"

datatype stored_value = JsonValue json | LegacyValue legacy_credential

record phone_db =
  db_credentials :: "(string \<times> stored_value) list"
  db_settings :: "(string \<times> json option) list"

definition empty_db :: phone_db where
  "empty_db = \<lparr> db_credentials = [], db_settings = [] \<rparr>"

definition idb_put :: "string \<Rightarrow> 'v \<Rightarrow> (string \<times> 'v) list \<Rightarrow> (string \<times> 'v) list" where
  "idb_put k v xs = sort_key fst (AList.update k v xs)"

definition transact :: "client_error option \<Rightarrow> (phone_db \<Rightarrow> 'a fallible \<times> phone_db) \<Rightarrow> phone_db \<Rightarrow> 'a fallible \<times> phone_db" where
  "transact io f d = (case io of Some e \<Rightarrow> (Inl e, d) | None \<Rightarrow> f d)"

definition saveCredential ::
  "suite \<Rightarrow> (string \<Rightarrow> string option) \<Rightarrow> client_error option \<Rightarrow> app_pair \<Rightarrow> phone_db \<Rightarrow> unit fallible \<times> phone_db" where
  "saveCredential su url_origin io pair =
     transact io (\<lambda>d. case encodeCredential su url_origin pair of
       Inl e \<Rightarrow> (Inl e, d)
     | Inr stored \<Rightarrow> (Inr (), d\<lparr> db_credentials := idb_put (sc_daemon_id stored) (JsonValue (credential_json stored)) (db_credentials d) \<rparr>))"

definition deleteCredential :: "client_error option \<Rightarrow> string \<Rightarrow> phone_db \<Rightarrow> unit fallible \<times> phone_db" where
  "deleteCredential io daemonId = transact io (\<lambda>d. (Inr (), d\<lparr> db_credentials := AList.delete daemonId (db_credentials d) \<rparr>))"

definition readSetting :: "client_error option \<Rightarrow> string \<Rightarrow> phone_db \<Rightarrow> json option fallible \<times> phone_db" where
  "readSetting io key = transact io (\<lambda>d. (Inr (case map_of (db_settings d) key of None \<Rightarrow> None | Some v \<Rightarrow> v), d))"

definition writeSetting :: "client_error option \<Rightarrow> string \<Rightarrow> json option \<Rightarrow> phone_db \<Rightarrow> unit fallible \<times> phone_db" where
  "writeSetting io key v = transact io (\<lambda>d. (Inr (), d\<lparr> db_settings := idb_put key v (db_settings d) \<rparr>))"

section \<open>Settings\<close>

definition LAST_USED_KEY :: string where "LAST_USED_KEY = ''last_used_daemon_id''"
definition WRAP_KEY_KEY :: string where "WRAP_KEY_KEY = ''account_wrap_key''"
definition DEVICE_LABEL_KEY :: string where "DEVICE_LABEL_KEY = ''device_label''"

definition rememberLastUsed :: "client_error option \<Rightarrow> string \<Rightarrow> phone_db \<Rightarrow> unit fallible \<times> phone_db" where
  "rememberLastUsed io daemonId d =
     (if \<not> validDaemonId (Some (JStr daemonId)) then (Inr (), d) else writeSetting io LAST_USED_KEY (Some (JStr daemonId)) d)"

definition rememberDeviceLabel :: "client_error option \<Rightarrow> string \<Rightarrow> phone_db \<Rightarrow> unit fallible \<times> phone_db" where
  "rememberDeviceLabel io label = writeSetting io DEVICE_LABEL_KEY (Some (JStr label))"

definition readDeviceLabel :: "client_error option \<Rightarrow> phone_db \<Rightarrow> string option fallible" where
  "readDeviceLabel io d =
     bindF (fst (readSetting io DEVICE_LABEL_KEY d)) (\<lambda>stored.
     Inr (case stored of Some (JStr s) \<Rightarrow> if js_trim s \<noteq> [] then Some s else None | _ \<Rightarrow> None))"

definition rememberWrapKey :: "client_error option \<Rightarrow> byte list \<Rightarrow> phone_db \<Rightarrow> unit fallible \<times> phone_db" where
  "rememberWrapKey io wrapKey d =
     (if length wrapKey \<noteq> 32 then (Inr (), d) else writeSetting io WRAP_KEY_KEY (Some (JStr (b64url wrapKey))) d)"

definition readWrapKey :: "client_error option \<Rightarrow> phone_db \<Rightarrow> byte list option fallible" where
  "readWrapKey io d = bindF (fst (readSetting io WRAP_KEY_KEY d)) (\<lambda>stored. Inr (exactB64 stored 32))"

definition forgetWrapKey :: "client_error option \<Rightarrow> phone_db \<Rightarrow> unit fallible \<times> phone_db" where
  "forgetWrapKey io = writeSetting io WRAP_KEY_KEY None"

section \<open>Loading\<close>

definition migrateLegacyCredential ::
  "suite \<Rightarrow> (string \<Rightarrow> string option) \<Rightarrow> number \<Rightarrow> legacy_credential \<Rightarrow> string \<Rightarrow> stored_credential option" where
  "migrateLegacyCredential su url_origin now item origin =
     (case (lc_daemon_id item, lc_device_id item, lc_device_psk item, lc_daemon_pk item) of
        (Some (JStr daemonId), Some (JStr deviceId), Some psk, Some daemonPk) \<Rightarrow>
          if \<not> DAEMON_ID_RE daemonId \<or> \<not> DEVICE_ID_RE deviceId \<or> length psk \<noteq> 32 \<or> length daemonPk \<noteq> 32 then None
          else validateStoredCredential su url_origin (credential_json
            \<lparr> sc_daemon_id = daemonId, sc_device_id = deviceId, sc_device_psk = b64url psk, sc_daemon_pk = b64url daemonPk, sc_relay_origin = origin,
              sc_fp = fingerprint16 su daemonPk, sc_label = ''Existing browser'', sc_created_at = of_int \<lfloor>now / 1000\<rfloor>, sc_hostname = None, sc_last_seen = None \<rparr>)
      | _ \<Rightarrow> None)"

definition stored_of :: "suite \<Rightarrow> (string \<Rightarrow> string option) \<Rightarrow> number \<Rightarrow> string \<Rightarrow> stored_value \<Rightarrow> stored_credential option" where
  "stored_of su url_origin now origin v =
     (case v of
        JsonValue j \<Rightarrow> validateStoredCredential su url_origin j
      | LegacyValue item \<Rightarrow> migrateLegacyCredential su url_origin now item origin)"

definition usable_pair :: "suite \<Rightarrow> (string \<Rightarrow> string option) \<Rightarrow> number \<Rightarrow> string \<Rightarrow> stored_value \<Rightarrow> app_pair option" where
  "usable_pair su url_origin now origin v =
     (case stored_of su url_origin now origin v of
        None \<Rightarrow> None
      | Some stored \<Rightarrow> if sc_relay_origin stored = origin then (case decodeCredential su url_origin stored of Inl _ \<Rightarrow> None | Inr p \<Rightarrow> Some p) else None)"

text \<open>The records that were migrated are saved again later, when the page is idle.\<close>

definition to_rewrite :: "suite \<Rightarrow> (string \<Rightarrow> string option) \<Rightarrow> app_pair list \<Rightarrow> (string \<times> stored_value) list \<Rightarrow> app_pair list" where
  "to_rewrite su url_origin pairs values =
     filter (\<lambda>p. case map_of values (pr_daemonId p) of
         Some (JsonValue j) \<Rightarrow> validateStoredCredential su url_origin j = None
       | Some (LegacyValue _) \<Rightarrow> True
       | None \<Rightarrow> False) pairs"

definition readCredentials ::
  "suite \<Rightarrow> (string \<Rightarrow> string option) \<Rightarrow> client_error option \<Rightarrow> number \<Rightarrow> string \<Rightarrow> phone_db \<Rightarrow> (app_pair list \<times> app_pair list) fallible" where
  "readCredentials su url_origin io now origin d =
     (case io of
        Some e \<Rightarrow> Inl e
      | None \<Rightarrow> (let pairs = List.map_filter (usable_pair su url_origin now origin) (map snd (db_credentials d))
                 in Inr (pairs, to_rewrite su url_origin pairs (db_credentials d))))"

definition loadCatalog ::
  "suite \<Rightarrow> (string \<Rightarrow> string option) \<Rightarrow> client_error option \<Rightarrow> client_error option \<Rightarrow> number \<Rightarrow> string \<Rightarrow> phone_db \<Rightarrow> (app_pair list \<times> string option) fallible" where
  "loadCatalog su url_origin io io' now origin d =
     bindF (readCredentials su url_origin io now origin d) (\<lambda>(credentials, _).
     bindF (fst (readSetting io' LAST_USED_KEY d)) (\<lambda>lastUsed.
     Inr (credentials, case lastUsed of Some (JStr s) \<Rightarrow> if validDaemonId lastUsed then Some s else None | _ \<Rightarrow> None)))"

section \<open>The computer to resume\<close>

definition BURNED_CODES :: "string list" where
  "BURNED_CODES = [''revoked'', ''unpaired'', ''invalid_credential'', ''bad_proof'', ''bad_signature'', ''fp_mismatch'']"

definition credentialIsBurned :: "string option \<Rightarrow> bool" where
  "credentialIsBurned code = (case code of None \<Rightarrow> False | Some c \<Rightarrow> c \<in> set BURNED_CODES)"

text \<open>
  The comparison of \<^verbatim>\<open>sortComputers\<close> as a key: the last used first, then the most recently seen, then by identifier. Identifiers
  of computers are lower-case hexadecimal, which \<^verbatim>\<open>localeCompare\<close> orders as their characters are.
\<close>

definition seen_at :: "app_pair \<Rightarrow> number" where
  "seen_at p = (case ap_lastSeen p of Some t \<Rightarrow> if t \<noteq> 0 then t else ap_createdAt p | None \<Rightarrow> ap_createdAt p)"

definition sortComputers :: "app_pair list \<Rightarrow> string option \<Rightarrow> app_pair list" where
  "sortComputers credentials lastUsed =
     sort_key (\<lambda>p. if nonempty lastUsed = Some (pr_daemonId p) then (0 :: nat) else 1)
       (sort_key (\<lambda>p. - seen_at p) (sort_key pr_daemonId credentials))"

definition pickResumeCredential :: "app_pair list \<Rightarrow> string option \<Rightarrow> app_pair option" where
  "pickResumeCredential credentials lastUsed =
     (if credentials = [] then None
      else case (case nonempty lastUsed of None \<Rightarrow> None | Some l \<Rightarrow> List.find (\<lambda>p. pr_daemonId p = l) credentials) of
          Some p \<Rightarrow> Some p
        | None \<Rightarrow> (case sortComputers credentials lastUsed of [] \<Rightarrow> None | p # _ \<Rightarrow> Some p))"

definition loadCredential ::
  "suite \<Rightarrow> (string \<Rightarrow> string option) \<Rightarrow> client_error option \<Rightarrow> client_error option \<Rightarrow> number \<Rightarrow> string \<Rightarrow> phone_db \<Rightarrow> app_pair option fallible" where
  "loadCredential su url_origin io io' now origin d =
     bindF (loadCatalog su url_origin io io' now origin d) (\<lambda>(credentials, lastUsed). Inr (pickResumeCredential credentials lastUsed))"

section \<open>What was saved is loaded\<close>

lemma idb_put_keys: "distinct (map fst xs) \<Longrightarrow> distinct (map fst (idb_put k v xs))"
  using distinct_update [of xs k v] by (simp add: idb_put_def distinct_map)

lemma idb_put_lookup:
  assumes "distinct (map fst xs)"
  shows "map_of (idb_put k v xs) = (map_of xs)(k \<mapsto> v)"
proof -
  have "distinct (map fst (AList.update k v xs))" using assms by (rule distinct_update)
  moreover have "distinct (map fst (idb_put k v xs))" using assms by (rule idb_put_keys)
  moreover have "set (idb_put k v xs) = set (AList.update k v xs)" by (simp add: idb_put_def)
  ultimately have "map_of (idb_put k v xs) = map_of (AList.update k v xs)" by (metis map_of_inject_set)
  then show ?thesis by (simp add: update_conv')
qed

definition db_ok :: "phone_db \<Rightarrow> bool" where
  "db_ok d \<longleftrightarrow> distinct (map fst (db_credentials d)) \<and> distinct (map fst (db_settings d))"

lemma db_ok_steps:
  assumes "db_ok d"
  shows "db_ok (snd (saveCredential su uo io p d))" "db_ok (snd (deleteCredential io k d))" "db_ok (snd (writeSetting io key v d))"
  using assms
  by (auto simp: db_ok_def saveCredential_def deleteCredential_def writeSetting_def transact_def idb_put_keys distinct_delete split: option.splits sum.splits)

lemma decode_validated: "validateStoredCredential su uo v = Some c \<Longrightarrow> \<exists>p. decodeCredential su uo c = Inr p"
  using validate_ok [OF validate_Some] by (fastforce simp: decodeCredential_def credential_ok_def b64urlDecode_b64url dest: validate_Some)

text \<open>A credential saved for this origin is among those loaded, up to the cleaning of its optional fields; the others stay.\<close>

lemma save_load:
  assumes "db_ok d" and "encodeCredential su uo pair = Inr stored" and "saveCredential su uo None pair d = (Inr (), d')"
  shows "\<exists>pairs. readCredentials su uo None now (ap_relayOrigin pair) d' = Inr pairs
      \<and> pair\<lparr> ap_hostname := optionalHostname (map_option JStr (ap_hostname pair)), ap_lastSeen := optionalTimestamp (map_option JNum (ap_lastSeen pair)) \<rparr>
          \<in> set (fst pairs)"
    and "k \<noteq> pr_daemonId pair \<Longrightarrow> map_of (db_credentials d') k = map_of (db_credentials d) k"
proof -
  note e = encode_ok [OF assms(2)]
  have d': "db_credentials d' = idb_put (pr_daemonId pair) (JsonValue (credential_json stored)) (db_credentials d)"
    using assms(2,3) by (auto simp: saveCredential_def transact_def e(2))
  have m: "map_of (db_credentials d') = (map_of (db_credentials d))(pr_daemonId pair \<mapsto> JsonValue (credential_json stored))"
    unfolding d' using assms(1) by (intro idb_put_lookup) (simp add: db_ok_def)
  then show "k \<noteq> pr_daemonId pair \<Longrightarrow> map_of (db_credentials d') k = map_of (db_credentials d) k" by simp
  let ?p = "pair\<lparr> ap_hostname := optionalHostname (map_option JStr (ap_hostname pair)), ap_lastSeen := optionalTimestamp (map_option JNum (ap_lastSeen pair)) \<rparr>"
  have "validateStoredCredential su uo (credential_json stored) = Some stored" by (rule validate_ok [OF e(1)])
  moreover have "decodeCredential su uo stored = Inr ?p" by (rule decode_credential_encode [OF assms(2)])
  ultimately have "usable_pair su uo now (ap_relayOrigin pair) (JsonValue (credential_json stored)) = Some ?p"
    by (simp add: usable_pair_def stored_of_def e(2))
  moreover have "(pr_daemonId pair, JsonValue (credential_json stored)) \<in> set (db_credentials d')" using m by (intro map_of_SomeD) simp
  ultimately show "\<exists>pairs. readCredentials su uo None now (ap_relayOrigin pair) d' = Inr pairs \<and> ?p \<in> set (fst pairs)"
    by (force simp: readCredentials_def Let_def List.map_filter_def)
qed

lemma sort_key_same: "\<forall>x \<in> set xs. f x = c \<Longrightarrow> sort_key f xs = xs"
proof -
  assume "\<forall>x \<in> set xs. f x = c"
  then have "map f xs = replicate (length xs) c" by (simp add: map_replicate_const [symmetric])
  then show ?thesis by (intro sort_key_id_if_sorted) (simp add: sorted_replicate)
qed

lemma wrap_key_kept:
  assumes "db_ok d" and "length wk = 32"
  shows "readWrapKey None (snd (rememberWrapKey None wk d)) = Inr (Some wk)" and "readWrapKey None (snd (forgetWrapKey None d)) = Inr None"
proof -
  have "exactB64 (Some (JStr (b64url wk))) 32 = Some wk" using assms(2) by (auto simp: exactB64_iff)
  then show "readWrapKey None (snd (rememberWrapKey None wk d)) = Inr (Some wk)"
    using assms by (simp add: readWrapKey_def rememberWrapKey_def writeSetting_def readSetting_def transact_def bindF_def idb_put_lookup db_ok_def)
  show "readWrapKey None (snd (forgetWrapKey None d)) = Inr None"
    using assms by (simp add: readWrapKey_def forgetWrapKey_def writeSetting_def readSetting_def transact_def bindF_def idb_put_lookup db_ok_def exactB64_def)
qed

text \<open>The computer last used is resumed if it is still there, otherwise one that was seen last.\<close>

lemma resume_picks:
  assumes "pickResumeCredential ps lastUsed = Some p"
  shows "p \<in> set ps" and "nonempty lastUsed = Some l \<Longrightarrow> l \<in> pr_daemonId ` set ps \<Longrightarrow> pr_daemonId p = l"
    and "\<forall>q \<in> set ps. nonempty lastUsed \<noteq> Some (pr_daemonId q) \<Longrightarrow> \<forall>q \<in> set ps. seen_at q \<le> seen_at p"
proof -
  let ?f = "case nonempty lastUsed of None \<Rightarrow> None | Some l \<Rightarrow> List.find (\<lambda>p. pr_daemonId p = l) ps"
  have "p \<in> set ps \<and> (nonempty lastUsed = Some l \<longrightarrow> l \<in> pr_daemonId ` set ps \<longrightarrow> pr_daemonId p = l)
    \<and> ((\<forall>q \<in> set ps. nonempty lastUsed \<noteq> Some (pr_daemonId q)) \<longrightarrow> (\<forall>q \<in> set ps. seen_at q \<le> seen_at p))"
  proof (cases ?f)
    case (Some q)
    then have "p = q" using assms by (auto simp: pickResumeCredential_def split: if_splits)
    then show ?thesis using Some by (auto simp: find_Some_iff split: option.splits)
  next
    case None
    then obtain qs where qs: "sortComputers ps lastUsed = p # qs"
      using assms by (auto simp: pickResumeCredential_def split: if_splits list.splits)
    have "set (sortComputers ps lastUsed) = set ps" by (simp add: sortComputers_def)
    moreover have "seen_at q \<le> seen_at p" if "\<forall>q \<in> set ps. nonempty lastUsed \<noteq> Some (pr_daemonId q)" "q \<in> set ps" for q
    proof -
      have "sortComputers ps lastUsed = sort_key (\<lambda>p. - seen_at p) (sort_key pr_daemonId ps)"
        unfolding sortComputers_def using that(1) by (intro sort_key_same [of _ _ 1]) simp
      then have "sorted (map (\<lambda>p. - seen_at p) (p # qs))" using qs by (metis sorted_sort_key)
      then show ?thesis using that(2) \<open>set (sortComputers ps lastUsed) = set ps\<close> unfolding qs by auto
    qed
    moreover have "\<not> (nonempty lastUsed = Some l \<and> l \<in> pr_daemonId ` set ps)" using None by (auto simp: find_None_iff)
    ultimately show ?thesis using qs by auto
  qed
  then show "p \<in> set ps" and "nonempty lastUsed = Some l \<Longrightarrow> l \<in> pr_daemonId ` set ps \<Longrightarrow> pr_daemonId p = l"
    and "\<forall>q \<in> set ps. nonempty lastUsed \<noteq> Some (pr_daemonId q) \<Longrightarrow> \<forall>q \<in> set ps. seen_at q \<le> seen_at p" by blast+
qed

end
