(* ===== verification/ClientGuarded.thy ===== *)
theory ClientGuarded
  imports ClientInput "HOL-Library.Sublist"
begin

text \<open>
  Typing into a terminal that may have moved on: \<^verbatim>\<open>pwa/src/lib/guarded.ts\<close> sends a text, reads the screen until the text has
  newly appeared, and only then sends Enter, bound to the screen it read. The environment decides what is read, what fails
  and how time passes; the model keeps a log of what was done. A text is the list of its
  code points, which is what \<^verbatim>\<open>Array.from\<close> counts and cuts; it holds no lone surrogate, so that searching its code points and
  searching its UTF-16 units find the same places. The lemmas show in which order, how often and on which grounds.
\<close>

section \<open>Finding the text on a screen\<close>

definition MIN_LITERAL_GUARD :: nat where [simp]: "MIN_LITERAL_GUARD = 12"

type_synonym points = "nat list"

text \<open>White space and line ends of the language, which \<^verbatim>\<open>trim\<close> and \<^verbatim>\<open>\s\<close> share.\<close>

definition white :: "nat \<Rightarrow> bool" where
  "white c \<longleftrightarrow> 9 \<le> c \<and> c \<le> 13 \<or> c \<in> {0x20, 0xA0, 0x1680, 0x2028, 0x2029, 0x202F, 0x205F, 0x3000, 0xFEFF} \<or> 0x2000 \<le> c \<and> c \<le> 0x200A"

definition trim_points :: "points \<Rightarrow> points" where
  "trim_points s = rev (dropWhile white (rev (dropWhile white s)))"

text \<open>Occurrences from left to right that do not overlap, as repeated \<^verbatim>\<open>indexOf\<close> finds them.\<close>

function occurrences :: "points \<Rightarrow> points \<Rightarrow> nat" where
  "occurrences needle hay =
     (if hay = [] \<or> needle = [] then 0
      else if take (length needle) hay = needle then Suc (occurrences needle (drop (length needle) hay))
      else occurrences needle (tl hay))"
  by pat_completeness auto
termination
  by (relation "measure (length \<circ> snd)") auto

declare occurrences.simps [simp del]

definition countOccurrences :: "points \<Rightarrow> points \<Rightarrow> nat" where
  "countOccurrences haystack needle = (if needle = [] then 0 else occurrences needle haystack)"

text \<open>\<^verbatim>\<open>value.trim().replace(/\s+/gu, " ")\<close>\<close>

function collapse :: "points \<Rightarrow> points" where
  "collapse s =
     (case s of [] \<Rightarrow> [] | c # cs \<Rightarrow> if white c then 0x20 # collapse (dropWhile white cs) else c # collapse cs)"
  by pat_completeness auto
termination
  by (relation "measure length") (auto simp: less_Suc_eq_le length_dropWhile_le)

declare collapse.simps [simp del]

definition collapseWhitespace :: "points \<Rightarrow> points" where
  "collapseWhitespace value = collapse (trim_points value)"

text \<open>\<^verbatim>\<open>/[ \t]*\r?\n[ \t]*/\<close> at the start of a text, and what follows the match.\<close>

definition blank :: "nat \<Rightarrow> bool" where
  "blank c \<longleftrightarrow> c = 0x20 \<or> c = 0x09"

definition wrapped_at :: "points \<Rightarrow> points option" where
  "wrapped_at s =
     (case dropWhile blank s of
        c # cs \<Rightarrow>
          if c = 0x0A then Some (dropWhile blank cs)
          else if c = 0x0D then (case cs of d # ds \<Rightarrow> if d = 0x0A then Some (dropWhile blank ds) else None | [] \<Rightarrow> None)
          else None
      | [] \<Rightarrow> None)"

lemma wrapped_shorter:
  assumes "wrapped_at s = Some r"
  shows "length r < length s"
proof -
  have d: "length (dropWhile blank xs) < n" if "length xs < n" for xs n using that length_dropWhile_le [of blank xs] by linarith
  have "length r < length (dropWhile blank s)"
    using assms unfolding wrapped_at_def by (auto intro!: d split: list.splits if_splits)
  then show ?thesis using length_dropWhile_le [of blank s] by linarith
qed

function joinWrappedLines :: "points \<Rightarrow> points" where
  "joinWrappedLines s =
     (case wrapped_at s of
        Some rest \<Rightarrow> joinWrappedLines rest
      | None \<Rightarrow> (case s of [] \<Rightarrow> [] | c # cs \<Rightarrow> c # joinWrappedLines cs))"
  by pat_completeness auto
termination
  by (relation "measure length") (auto dest: wrapped_shorter)

declare joinWrappedLines.simps [simp del]

definition visibleCount :: "points \<Rightarrow> points \<Rightarrow> nat" where
  "visibleCount screen needle =
     (if trim_points needle = [] then 0
      else max (countOccurrences screen needle)
             (max (countOccurrences (collapseWhitespace screen) (collapseWhitespace needle))
                  (countOccurrences (joinWrappedLines screen) (joinWrappedLines needle))))"

definition last_of :: "nat \<Rightarrow> 'a list \<Rightarrow> 'a list" where
  "last_of n xs = drop (length xs - n) xs"

definition promptSuffix :: "points \<Rightarrow> points" where
  "promptSuffix value = last_of 4096 value"

text \<open>The widths worth trying: within bounds, each once, widest first.\<close>

definition usable_widths :: "nat list \<Rightarrow> nat \<Rightarrow> nat \<Rightarrow> nat list" where
  "usable_widths ws minimum len = rev (sort (remdups (filter (\<lambda>w. minimum \<le> w \<and> w \<le> len) ws)))"

definition confirmationNeedles :: "points \<Rightarrow> points list" where
  "confirmationNeedles value =
     (let chars = promptSuffix value; minimum = min (length chars) MIN_LITERAL_GUARD
      in map (\<lambda>width. last_of width chars) (usable_widths [length chars, 64, 32, 16, minimum] minimum (length chars)))"

definition visibleHas :: "points \<Rightarrow> points \<Rightarrow> bool" where
  "visibleHas screen needle \<longleftrightarrow> visibleCount screen needle > 0"

definition candidateStarts :: "nat \<Rightarrow> nat \<Rightarrow> nat list" where
  "candidateStarts len width =
     (let lst = len - width; step = max 1 (width div 2); starts = map (\<lambda>k. k * step) [0..<Suc (lst div step)]
      in if last starts = lst then starts else starts @ [lst])"

definition candidates :: "points \<Rightarrow> points list" where
  "candidates chars =
     (let minimum = min (length chars) MIN_LITERAL_GUARD
      in concat (map (\<lambda>width. map (\<lambda>start. take width (drop start chars)) (candidateStarts (length chars) width))
           (usable_widths [64, 32, 16, minimum] minimum (length chars))))"

definition promptGuard :: "points \<Rightarrow> points \<Rightarrow> points" where
  "promptGuard screen text =
     (let needle = promptSuffix text in
      if \<not> visibleHas screen needle then []
      else if sublist needle screen then needle
      else (case List.find (\<lambda>c. trim_points c \<noteq> [] \<and> sublist c screen) (candidates needle) of None \<Rightarrow> [] | Some c \<Rightarrow> c))"

section \<open>The exchange\<close>

record guarded_screen =
  gs_text :: points
  gs_hash :: "string option"

record enter_guard =
  eg_expectedPrompt :: points
  eg_expectedSignature :: string

datatype guarded_outcome = Sent | Stalled | Cancelled

text \<open>\<^verbatim>\<open>/^[0-9a-f]{64}$/\<close>\<close>

definition validHash :: "string option \<Rightarrow> bool" where
  "validHash v = (case v of None \<Rightarrow> False | Some h \<Rightarrow> length h = 64 \<and> list_all (\<lambda>c. c \<in> set ''0123456789abcdef'') h)"

text \<open>What was done, and what the caller's operations do to a world; absent options are constants.\<close>

datatype guarded_event = TextSent points | ScreenRead "guarded_screen option" | EnterSent enter_guard

record 'w guarded_env =
  ge_sendText :: "points \<Rightarrow> 'w \<Rightarrow> unit fallible \<times> 'w"
  ge_read :: "'w \<Rightarrow> guarded_screen fallible \<times> 'w"
  ge_sendEnter :: "enter_guard \<Rightarrow> 'w \<Rightarrow> unit fallible \<times> 'w"
  ge_wait :: "number \<Rightarrow> 'w \<Rightarrow> 'w"
  ge_isActive :: "'w \<Rightarrow> bool"
  ge_retryRead :: "client_error \<Rightarrow> bool"
  ge_now :: "'w \<Rightarrow> number"
  ge_deadlineMs :: number
  ge_maxReads :: nat

definition POLL_MS :: number where "POLL_MS = 150"
definition SETTLE_POLL_MS :: number where "SETTLE_POLL_MS = 1000"
definition FAST_CONFIRM_MS :: number where "FAST_CONFIRM_MS = 5000"

definition nextPollDelay :: "number \<Rightarrow> number \<Rightarrow> number \<Rightarrow> number" where
  "nextPollDelay now startedAt deadline =
     min (if now - startedAt < FAST_CONFIRM_MS then POLL_MS else SETTLE_POLL_MS) (max 0 (deadline - now))"

text \<open>The first guard that a needle which appeared more often than before offers.\<close>

definition expected_prompt :: "guarded_screen \<Rightarrow> (points \<times> nat) list \<Rightarrow> guarded_screen \<Rightarrow> points" where
  "expected_prompt baseline needles screen =
     (if gs_hash screen = gs_hash baseline then []
      else case List.find (\<lambda>g. g \<noteq> [])
             (map (\<lambda>(needle, _). promptGuard (gs_text screen) needle) (filter (\<lambda>(needle, before). visibleCount (gs_text screen) needle > before) needles)) of
          None \<Rightarrow> [] | Some g \<Rightarrow> g)"

type_synonym 'w guarded_run = "guarded_outcome fallible \<times> guarded_event list \<times> 'w"

text \<open>\<open>left\<close> counts the reads that remain after this one; \<^verbatim>\<open>attempt + 1 >= maxReads\<close> is \<open>left = 0\<close>.\<close>

definition press_enter :: "'w guarded_env \<Rightarrow> guarded_screen \<Rightarrow> points \<Rightarrow> 'w \<Rightarrow> 'w guarded_run" where
  "press_enter en screen p w =
     (if \<not> ge_isActive en w then (Inr Stalled, [], w)
      else (let g = \<lparr> eg_expectedPrompt = p, eg_expectedSignature = the (gs_hash screen) \<rparr> in
        case ge_sendEnter en g w of
          (Inl e, w') \<Rightarrow> (Inl e, [EnterSent g], w')
        | (Inr _, w') \<Rightarrow> (Inr Sent, [EnterSent g], w')))"

definition poll_again :: "'w guarded_env \<Rightarrow> number \<Rightarrow> number \<Rightarrow> nat \<Rightarrow> ('w \<Rightarrow> 'w guarded_run) \<Rightarrow> 'w \<Rightarrow> 'w guarded_run" where
  "poll_again en startedAt deadline left again w =
     (if left = 0 \<or> ge_now en w \<ge> deadline then (Inr Stalled, [], w)
      else again (ge_wait en (nextPollDelay (ge_now en w) startedAt deadline) w))"

definition after_read :: "guarded_event \<Rightarrow> 'w guarded_run \<Rightarrow> 'w guarded_run" where
  "after_read e run = (case run of (r, es, w) \<Rightarrow> (r, e # es, w))"

definition confirm_step :: "'w guarded_env \<Rightarrow> guarded_screen \<Rightarrow> (points \<times> nat) list \<Rightarrow> number \<Rightarrow> number \<Rightarrow> nat
    \<Rightarrow> ('w \<Rightarrow> 'w guarded_run) \<Rightarrow> 'w \<Rightarrow> 'w guarded_run" where
  "confirm_step en baseline needles startedAt deadline left again w =
     (case ge_read en w of
        (Inl e, w') \<Rightarrow>
          after_read (ScreenRead None) (if \<not> ge_retryRead en e then (Inl e, [], w') else poll_again en startedAt deadline left again w')
      | (Inr screen, w') \<Rightarrow>
          after_read (ScreenRead (Some screen))
            (if \<not> validHash (gs_hash screen) then (Inr Stalled, [], w')
             else if expected_prompt baseline needles screen \<noteq> [] then press_enter en screen (expected_prompt baseline needles screen) w'
             else poll_again en startedAt deadline left again w'))"

fun confirm_loop :: "'w guarded_env \<Rightarrow> guarded_screen \<Rightarrow> (points \<times> nat) list \<Rightarrow> number \<Rightarrow> number \<Rightarrow> nat \<Rightarrow> 'w \<Rightarrow> 'w guarded_run" where
  "confirm_loop en baseline needles startedAt deadline 0 w = (Inr Stalled, [], w)"
| "confirm_loop en baseline needles startedAt deadline (Suc left) w =
     (if \<not> ge_isActive en w then (Inr Stalled, [], w)
      else confirm_step en baseline needles startedAt deadline left (\<lambda>w'. confirm_loop en baseline needles startedAt deadline left w') w)"

definition guardedReply :: "'w guarded_env \<Rightarrow> points \<Rightarrow> 'w \<Rightarrow> 'w guarded_run" where
  "guardedReply en text w =
     (case ge_read en w of
        (Inl e, w1) \<Rightarrow> (Inl e, [ScreenRead None], w1)
      | (Inr baseline, w1) \<Rightarrow>
          if \<not> validHash (gs_hash baseline) then (Inl (OtherError ''pane read did not return a valid screen hash''), [ScreenRead (Some baseline)], w1)
          else if \<not> ge_isActive en w1 then (Inr Cancelled, [ScreenRead (Some baseline)], w1)
          else (let needles = map (\<lambda>needle. (needle, visibleCount (gs_text baseline) needle)) (confirmationNeedles text) in
            case ge_sendText en text w1 of
              (Inl e, w2) \<Rightarrow> (Inl e, [ScreenRead (Some baseline), TextSent text], w2)
            | (Inr _, w2) \<Rightarrow>
                (case confirm_loop en baseline needles (ge_now en w2) (ge_now en w2 + ge_deadlineMs en) (ge_maxReads en) w2 of
                   (r, es, w3) \<Rightarrow> (r, ScreenRead (Some baseline) # TextSent text # es, w3))))"

section \<open>What a guard is\<close>

lemma last_of_suffix: "suffix (last_of n xs) xs"
  by (simp add: last_of_def suffix_drop)

lemma length_last_of: "length (last_of n xs) = min n (length xs)"
  by (simp add: last_of_def)

lemma find_in_set: "List.find P xs = Some x \<Longrightarrow> x \<in> set xs \<and> P x"
  by (auto simp: find_Some_iff)

lemma usable_widths_iff: "w \<in> set (usable_widths ws m n) \<longleftrightarrow> w \<in> set ws \<and> m \<le> w \<and> w \<le> n"
  by (auto simp: usable_widths_def)

lemma candidateStarts_fit:
  assumes "s \<in> set (candidateStarts len width)"
  shows "s \<le> len - width"
proof -
  let ?step = "max 1 (width div 2)"
  have "k * ?step \<le> len - width" if "k \<le> (len - width) div ?step" for k
    using that by (metis div_times_less_eq_dividend le_trans mult_le_mono1)
  then show ?thesis using assms unfolding candidateStarts_def Let_def by (auto simp: less_Suc_eq_le split: if_splits)
qed

lemma candidates_fit:
  assumes "c \<in> set (candidates chars)"
  shows "sublist c chars" and "min (length chars) MIN_LITERAL_GUARD \<le> length c"
proof -
  let ?m = "min (length chars) MIN_LITERAL_GUARD"
  from assms obtain width start where c: "c = take width (drop start chars)" and w: "?m \<le> width" "width \<le> length chars"
    and s: "start \<in> set (candidateStarts (length chars) width)" by (auto simp: candidates_def usable_widths_iff Let_def)
  show "sublist c chars" unfolding c by (meson sublist_drop sublist_order.order_trans sublist_take)
  show "?m \<le> length c" using candidateStarts_fit [OF s] w unfolding c by simp
qed

lemma promptGuard_sound:
  assumes "promptGuard screen text = g" and "g \<noteq> []"
  shows "sublist g screen" and "sublist g text" and "min (length text) MIN_LITERAL_GUARD \<le> length g"
proof -
  have suf: "suffix (promptSuffix text) text" by (simp add: promptSuffix_def last_of_suffix)
  have len: "min (length text) MIN_LITERAL_GUARD \<le> min (length (promptSuffix text)) MIN_LITERAL_GUARD"
    by (simp add: promptSuffix_def length_last_of)
  consider "g = promptSuffix text" "sublist (promptSuffix text) screen" | "g \<in> set (candidates (promptSuffix text))" "sublist g screen"
    using assms by (auto simp: promptGuard_def Let_def find_Some_iff split: if_splits option.splits)
  then have "sublist g screen \<and> sublist g text \<and> min (length text) MIN_LITERAL_GUARD \<le> length g"
  proof cases
    case 1
    then show ?thesis using suf len by (simp add: suffix_imp_sublist)
  next
    case 2
    from candidates_fit [OF 2(1)] show ?thesis using 2(2) suf len
      by (meson order_trans sublist_order.order_trans suffix_imp_sublist)
  qed
  then show "sublist g screen" "sublist g text" "min (length text) MIN_LITERAL_GUARD \<le> length g" by blast+
qed

lemma confirmationNeedles_fit:
  assumes "needle \<in> set (confirmationNeedles text)"
  shows "suffix needle text" and "min (length text) MIN_LITERAL_GUARD \<le> length needle"
proof -
  from assms obtain width where n: "needle = last_of width (promptSuffix text)" "min (length (promptSuffix text)) MIN_LITERAL_GUARD \<le> width"
    "width \<le> length (promptSuffix text)" by (auto simp: confirmationNeedles_def usable_widths_iff Let_def)
  show "suffix needle text" unfolding n(1) promptSuffix_def by (meson last_of_suffix suffix_order.order_trans)
  show "min (length text) MIN_LITERAL_GUARD \<le> length needle" using n(2,3) unfolding n(1) length_last_of by (simp add: promptSuffix_def length_last_of)
qed

text \<open>The grounds of an Enter: the screen it is bound to has changed and shows the end of the text once more than before, and
  the guard is a piece of both of at least twelve characters, or all of a shorter text.\<close>

definition grounded :: "guarded_screen \<Rightarrow> points \<Rightarrow> guarded_screen \<Rightarrow> enter_guard \<Rightarrow> bool" where
  "grounded baseline text screen g \<longleftrightarrow>
     gs_hash screen = Some (eg_expectedSignature g) \<and> gs_hash screen \<noteq> gs_hash baseline
     \<and> (\<exists>needle. suffix needle text \<and> visibleCount (gs_text baseline) needle < visibleCount (gs_text screen) needle)
     \<and> sublist (eg_expectedPrompt g) (gs_text screen) \<and> sublist (eg_expectedPrompt g) text
     \<and> eg_expectedPrompt g \<noteq> [] \<and> min (length text) MIN_LITERAL_GUARD \<le> length (eg_expectedPrompt g)"

lemma expected_prompt_grounded:
  assumes "expected_prompt baseline (map (\<lambda>needle. (needle, visibleCount (gs_text baseline) needle)) (confirmationNeedles text)) screen = p"
    and "p \<noteq> []" and "gs_hash screen = Some h"
  shows "grounded baseline text screen \<lparr> eg_expectedPrompt = p, eg_expectedSignature = h \<rparr>"
proof -
  have new: "gs_hash screen \<noteq> gs_hash baseline" using assms(1,2) by (auto simp: expected_prompt_def)
  define gs where "gs = map (\<lambda>(needle, _). promptGuard (gs_text screen) needle)
      (filter (\<lambda>(needle, before). visibleCount (gs_text screen) needle > before)
        (map (\<lambda>needle. (needle, visibleCount (gs_text baseline) needle)) (confirmationNeedles text)))"
  have "List.find (\<lambda>g. g \<noteq> []) gs = Some p"
    using assms(1,2) new unfolding expected_prompt_def gs_def [symmetric] by (auto split: option.splits)
  then have "p \<in> set gs" using find_in_set by fast
  then obtain needle where n: "needle \<in> set (confirmationNeedles text)" "visibleCount (gs_text baseline) needle < visibleCount (gs_text screen) needle"
    "promptGuard (gs_text screen) needle = p" by (auto simp: gs_def)
  note g = promptGuard_sound [OF n(3) assms(2)] and c = confirmationNeedles_fit [OF n(1)]
  have "sublist p text" using g(2) c(1) by (meson sublist_order.order_trans suffix_imp_sublist)
  moreover have "min (length text) MIN_LITERAL_GUARD \<le> length p" using g(3) c(2) by simp
  ultimately show ?thesis using new n(2) c(1) g(1) assms(2,3) unfolding grounded_def by auto
qed

text \<open>A screen that offers a guard: a valid hash, and a tail of the text that newly appeared and yields one.\<close>

definition offers :: "guarded_screen \<Rightarrow> points \<Rightarrow> guarded_screen \<Rightarrow> bool" where
  "offers baseline text screen \<longleftrightarrow> validHash (gs_hash screen) \<and> gs_hash screen \<noteq> gs_hash baseline
     \<and> (\<exists>needle \<in> set (confirmationNeedles text). visibleCount (gs_text baseline) needle < visibleCount (gs_text screen) needle
          \<and> promptGuard (gs_text screen) needle \<noteq> [])"

lemma no_prompt_no_offer:
  assumes "expected_prompt baseline (map (\<lambda>needle. (needle, visibleCount (gs_text baseline) needle)) (confirmationNeedles text)) screen = []"
  shows "\<not> offers baseline text screen"
proof
  assume o: "offers baseline text screen"
  define gs where "gs = map (\<lambda>(needle, _). promptGuard (gs_text screen) needle)
      (filter (\<lambda>(needle, before). visibleCount (gs_text screen) needle > before)
        (map (\<lambda>needle. (needle, visibleCount (gs_text baseline) needle)) (confirmationNeedles text)))"
  have "\<exists>g \<in> set gs. g \<noteq> []" using o by (force simp: offers_def gs_def)
  then obtain g where "List.find (\<lambda>g. g \<noteq> []) gs = Some g" by (metis (mono_tags, lifting) find_None_iff not_None_eq)
  then have "expected_prompt baseline (map (\<lambda>needle. (needle, visibleCount (gs_text baseline) needle)) (confirmationNeedles text)) screen = g" "g \<noteq> []"
    using o find_in_set [of "\<lambda>g. g \<noteq> []" gs g] unfolding expected_prompt_def gs_def [symmetric] offers_def by auto
  then show False using assms by simp
qed

section \<open>How the exchange goes\<close>

text \<open>
  At most \<open>n\<close> reads, and then either no Enter or one, on the grounds of the last screen read. No screen that offered a
  guard is passed over, unless the reply was given up by then.
\<close>

definition confirmed ::
  "'w guarded_env \<Rightarrow> guarded_screen \<Rightarrow> points \<Rightarrow> nat \<Rightarrow> guarded_outcome fallible \<Rightarrow> guarded_event list \<Rightarrow> 'w \<Rightarrow> bool" where
  "confirmed en baseline text n r es w' \<longleftrightarrow>
     (\<exists>rs. length rs \<le> n \<and>
        (es = map ScreenRead rs \<and> r \<notin> {Inr Sent, Inr Cancelled}
           \<and> (\<forall>s. Some s \<in> set rs \<longrightarrow> offers baseline text s \<longrightarrow> \<not> ge_isActive en w')
        \<or> (\<exists>g screen. es = map ScreenRead (rs @ [Some screen]) @ [EnterSent g] \<and> length rs < n \<and> grounded baseline text screen g
             \<and> (\<forall>s. Some s \<in> set rs \<longrightarrow> \<not> offers baseline text s) \<and> r \<notin> {Inr Stalled, Inr Cancelled})))"

lemma confirmed_none: "r \<notin> {Inr Sent, Inr Cancelled} \<Longrightarrow> confirmed en baseline text n r [] w"
  unfolding confirmed_def by (rule exI [of _ "[]"]) simp

lemma confirmed_read:
  assumes "confirmed en baseline text n r es w" and "\<And>s. x = Some s \<Longrightarrow> \<not> offers baseline text s"
  shows "confirmed en baseline text (Suc n) r (ScreenRead x # es) w"
proof -
  obtain rs where rs: "length rs \<le> n" "es = map ScreenRead rs \<and> r \<notin> {Inr Sent, Inr Cancelled}
           \<and> (\<forall>s. Some s \<in> set rs \<longrightarrow> offers baseline text s \<longrightarrow> \<not> ge_isActive en w)
        \<or> (\<exists>g screen. es = map ScreenRead (rs @ [Some screen]) @ [EnterSent g] \<and> length rs < n \<and> grounded baseline text screen g
             \<and> (\<forall>s. Some s \<in> set rs \<longrightarrow> \<not> offers baseline text s) \<and> r \<notin> {Inr Stalled, Inr Cancelled})"
    using assms(1) unfolding confirmed_def by blast
  then show ?thesis using assms(2) unfolding confirmed_def by (intro exI [of _ "x # rs"]) auto
qed

lemma confirmed_last:
  "r \<notin> {Inr Sent, Inr Cancelled} \<Longrightarrow> (\<And>s. x = Some s \<Longrightarrow> offers baseline text s \<Longrightarrow> \<not> ge_isActive en w) \<Longrightarrow>
   confirmed en baseline text (Suc n) r [ScreenRead x] w"
  unfolding confirmed_def by (intro exI [of _ "[x]"]) auto

lemma confirmed_enter:
  "grounded baseline text screen g \<Longrightarrow> r \<notin> {Inr Stalled, Inr Cancelled} \<Longrightarrow>
   confirmed en baseline text (Suc n) r [ScreenRead (Some screen), EnterSent g] w"
  unfolding confirmed_def by (intro exI [of _ "[]"]) auto

lemma poll_again_run:
  assumes "poll_again en st dl left again w = (r, es, w')" and "\<And>w r es w'. again w = (r, es, w') \<Longrightarrow> confirmed en baseline text left r es w'"
    and "\<And>s. x = Some s \<Longrightarrow> \<not> offers baseline text s"
  shows "confirmed en baseline text (Suc left) r (ScreenRead x # es) w'"
proof (rule confirmed_read [OF _ assms(3)])
  show "confirmed en baseline text left r es w'"
    using assms(1,2) unfolding poll_again_def by (auto intro: confirmed_none split: if_splits)
qed

lemma press_enter_run:
  assumes "press_enter en screen p w = (r, es, w')" and "grounded baseline text screen \<lparr> eg_expectedPrompt = p, eg_expectedSignature = the (gs_hash screen) \<rparr>"
  shows "confirmed en baseline text (Suc n) r (ScreenRead (Some screen) # es) w'"
  using assms unfolding press_enter_def Let_def
  by (auto intro: confirmed_last confirmed_enter split: if_splits prod.splits sum.splits)

lemma confirm_step_run:
  assumes "confirm_step en baseline needles st dl left again w = (r, es, w')"
    and "needles = map (\<lambda>needle. (needle, visibleCount (gs_text baseline) needle)) (confirmationNeedles text)"
    and again: "\<And>w r es w'. again w = (r, es, w') \<Longrightarrow> confirmed en baseline text left r es w'"
  shows "confirmed en baseline text (Suc left) r es w'"
proof -
  obtain q w1 where q: "ge_read en w = (q, w1)" by force
  show ?thesis
  proof (cases q)
    case (Inl e)
    obtain es' where es: "es = ScreenRead None # es'"
      "(if \<not> ge_retryRead en e then (Inl e, [], w1) else poll_again en st dl left again w1) = (r, es', w')"
      using assms(1) q Inl by (auto simp: confirm_step_def after_read_def split: prod.splits)
    then show ?thesis by (auto intro: confirmed_last poll_again_run [OF _ again] split: if_splits)
  next
    case (Inr screen)
    let ?p = "expected_prompt baseline needles screen"
    obtain es' where es: "es = ScreenRead (Some screen) # es'"
      "(if \<not> validHash (gs_hash screen) then (Inr Stalled, [], w1) else if ?p \<noteq> [] then press_enter en screen ?p w1
        else poll_again en st dl left again w1) = (r, es', w')"
      using assms(1) q Inr by (auto simp: confirm_step_def after_read_def split: prod.splits)
    consider "\<not> validHash (gs_hash screen)" | "validHash (gs_hash screen)" "?p \<noteq> []" | "validHash (gs_hash screen)" "?p = []" by blast
    then show ?thesis
    proof cases
      case 1
      then show ?thesis using es by (auto intro: confirmed_last simp: offers_def)
    next
      case 2
      then have "grounded baseline text screen \<lparr> eg_expectedPrompt = ?p, eg_expectedSignature = the (gs_hash screen) \<rparr>"
        using expected_prompt_grounded [OF refl] unfolding assms(2) by (auto simp: validHash_def split: option.splits)
      then show ?thesis using es 2 by (auto intro: press_enter_run)
    next
      case 3
      then have "\<not> offers baseline text screen" using no_prompt_no_offer unfolding assms(2) by blast
      then show ?thesis using es 3 by (auto intro: poll_again_run [OF _ again])
    qed
  qed
qed

lemma confirm_loop_run:
  assumes "confirm_loop en baseline (map (\<lambda>needle. (needle, visibleCount (gs_text baseline) needle)) (confirmationNeedles text)) st dl n w = (r, es, w')"
  shows "confirmed en baseline text n r es w'"
  using assms
proof (induction n arbitrary: w r es w')
  case 0
  then show ?case by (auto intro: confirmed_none)
next
  case (Suc n)
  show ?case
  proof (cases "ge_isActive en w")
    case True
    with Suc.prems show ?thesis by (auto intro: confirm_step_run [OF _ refl Suc.IH])
  next
    case False
    with Suc.prems show ?thesis by (auto intro: confirmed_none)
  qed
qed

text \<open>(C17) Whatever the terminal shows and however calls fail, a guarded reply ends: it reads the screen once for the baseline, and
  if it goes on types its text exactly once, then reads at most \<^verbatim>\<open>maxReads\<close> times, and presses Enter at most once, at the very
  end, bound to the last screen read, which must have changed, must show the end of the text more often than before, and must
  contain the guard, a piece of the text of twelve code points or more unless the text is shorter. It reports the reply sent only
  then. And it presses Enter on the first screen that offers a guard, unless by then the reply was given up.\<close>

theorem enter_only_on_confirmed_text:
  "case guardedReply en text w of (r, es, w') \<Rightarrow>
     (\<exists>b. es = [ScreenRead b] \<and> r \<notin> {Inr Sent, Inr Stalled})
     \<or> (\<exists>baseline fs. es = ScreenRead (Some baseline) # TextSent text # fs \<and> confirmed en baseline text (ge_maxReads en) r fs w')"
proof -
  obtain q w1 where q: "ge_read en w = (q, w1)" by force
  show ?thesis
  proof (cases q)
    case (Inr baseline)
    let ?ns = "map (\<lambda>needle. (needle, visibleCount (gs_text baseline) needle)) (confirmationNeedles text)"
    obtain x w2 where x: "ge_sendText en text w1 = (x, w2)" by force
    obtain r es w3 where run: "confirm_loop en baseline ?ns (ge_now en w2) (ge_now en w2 + ge_deadlineMs en) (ge_maxReads en) w2 = (r, es, w3)"
      by (metis prod_cases3)
    show ?thesis using q Inr x run confirm_loop_run [OF run]
      by (auto simp: guardedReply_def Let_def intro: confirmed_none split: sum.splits)
  qed (use q in \<open>simp add: guardedReply_def\<close>)
qed

end
