(* ===== verification/Spec2Isabelle.thy ===== *)
theory Spec2Isabelle
  imports RoomProperties RoomAccess CoreProperties AccountProperties ClientProperties ClientAccountProperties ClientStore ClientGuarded
begin

text \<open>
  A verification development for \<^verbatim>\<open>pairfob\<close>: a phone operates coding agents that run on a computer, through a
  relay that cannot read what it forwards. Paths below are relative to \<^verbatim>\<open>src/\<close>.

  \<^bold>\<open>The program.\<close> Three parts speak one binary protocol.

  \<^item> The relay, \<^verbatim>\<open>workers/pairfob-origin/src\<close>, is a worker with two kinds of durable objects. The worker
  (\<^verbatim>\<open>worker.ts\<close>) routes requests, keeps accounts, grants and vaults in a database, and lets only the owner of a computer
  reach its room. A room (\<^verbatim>\<open>room/\<close>) belongs to one computer: it holds the computer's socket, up to the permitted number
  of phones with a route each, the pairing slot and its timers, and it hibernates. The index (\<^verbatim>\<open>index/\<close>) leads a typed
  pairing code to a room.
  \<^item> The phone, \<^verbatim>\<open>pwa/src\<close>. Its protocol library \<^verbatim>\<open>lib/protocol\<close> opens a socket to the room, authenticates the
  computer, seals every message, numbers its calls and may move to a direct data channel.
  \<^item> The computer's daemon (\<^verbatim>\<open>cmd\<close>, \<^verbatim>\<open>internal\<close>), in another language: the model takes whatever it sends.

  \<^bold>\<open>How the code is modelled.\<close> A method that changes state, may throw and may wait is a computation of \<open>Prelude\<close>: a
  function from the state to an outcome (an exception or a value) and the state it leaves. A throw keeps earlier effects.
  At each \<^verbatim>\<open>await\<close> of the relay the environment may change the state: in a room this is \<open>e_yield\<close>, in the worker the
  interference of \<open>venv\<close>. \<open>interleaved\<close> (\<open>Interleaving\<close>) and \<open>concurrent\<close> (\<open>Guarantee\<close> and after) say that this
  interference consists of the program's own events, whole ones that may themselves be interrupted, to any finite depth: such
  schedules are well nested, and two suspended handlers that resume in alternation are not among them. A \<open>quiet\<close> or settled
  environment is one where nothing else runs at an \<^verbatim>\<open>await\<close> and, besides, no SQL write and no send fails; it is assumed only
  where a property is about the answer of one handler. \<open>reliable\<close> has only the second half, and \<open>bystanders\<close> allows every
  interference but another registration, and every failure. A call nobody awaits takes effect where it is started
  (\<open>idx_remove_now\<close>). Numbers of the language are rationals or naturals where the code only uses them so, bit
  operations are on machine words (\<open>timingSafeEqual\<close> folds 32-bit words, a sequence number and an epoch 64-bit
  ones). A text is the sequence of its UTF-8 bytes, and a length the code takes in UTF-16 units is \<open>utf16_length\<close>; in
  \<open>ClientGuarded\<close>, where the code counts code points, a text is the list of those.

  \<^bold>\<open>The relay's foundations.\<close>
  \<^item> \<open>Prelude\<close>: computations, rules that carry an invariant through them, list facts.
  \<^item> \<open>Bytes\<close> (\<^verbatim>\<open>crypto.ts\<close>, byte half), \<open>Envelope\<close> (\<^verbatim>\<open>envelope.ts\<close>, \<^verbatim>\<open>room/fwd.ts\<close>, fast path), \<open>Json\<close> and
  \<open>JsonPrint\<close> (what the sources use of \<^verbatim>\<open>JSON\<close>), \<open>Constants\<close> (\<^verbatim>\<open>constants.ts\<close>, \<^verbatim>\<open>crockford.ts\<close>), \<open>RateLimits\<close>
  (\<^verbatim>\<open>limits.ts\<close>), \<open>Attachment\<close> (\<^verbatim>\<open>room/attachment.ts\<close>), \<open>Http\<close> (\<^verbatim>\<open>http.ts\<close>).
  \<^item> \<open>Gate\<close> (\<^verbatim>\<open>room/gate-throttle.ts\<close>) over the interface \<open>gate_store\<close>; \<open>Store\<close> (the store of the tests and the interfaces
  \<open>ticket_store\<close>, \<open>alarm_store\<close> and \<open>room_store\<close>) and \<open>CfStore\<close> (\<^verbatim>\<open>room/cf-store.ts\<close>, rows of SQLite tables). Both stores
  interpret the interfaces. The room's theories run over the first, which the deployed room does not use; the second, which it
  does, gives the same answers on every sequence of operations the database accepts, when times are not negative and row ids are
  passed on as read from the table at hand. Row ids themselves differ, and one that outlived its row may name another in the
  second store (\<open>cf_rearmed_alarm_can_be_lost\<close>).
  \<^item> \<open>PairIndex\<close> (\<^verbatim>\<open>index/\<close>), with the interface \<open>pair_index\<close>.

  \<^bold>\<open>The room.\<close> \<open>Room\<close> (\<^verbatim>\<open>room/core.ts\<close>: the state and its invariant \<open>room_inv\<close>), \<open>Alarms\<close>, \<open>Session\<close>, \<open>Pairing\<close>, \<open>Ws\<close>
  (the modules of those names and the frame dispatch) and \<open>DaemonRoom\<close> (\<^verbatim>\<open>room/http.ts\<close>, \<^verbatim>\<open>room/room.ts\<close>; the step relation
  \<open>room_step\<close> with one rule per event of the platform, and \<open>room_reach\<close>). \<open>Interleaving\<close> closes the invariants under
  interference, \<open>Flows\<close> computes what handlers do when nothing interferes, \<open>Demo\<close> is a run for the witnesses.
  \<open>RoomProperties\<close>, \<open>RoomAccess\<close> and \<open>CoreProperties\<close> hold the theorems: the number of bound phones, that a route leads to
  its phone and to no other, where forwarded frames go, that an armed timer is covered by the platform's alarm while storage and
  sends work, who may
  register, enrol, re-key, attach with a ticket, and what is rebuilt on waking; the codec and its fast path, the limiter,
  the gate over both ledgers, the index, and the refinement between the stores.

  \<^bold>\<open>The accounts.\<close> \<open>Database\<close> (each SQL statement as a function on tables), \<open>Metrics\<close> (\<^verbatim>\<open>metrics.ts\<close>), \<open>Edge\<close> (the world a
  handler sees: database, limiter, rooms, index shards, clock, entropy), \<open>AccountStore\<close> (\<^verbatim>\<open>account-store.ts\<close>, \<^verbatim>\<open>d1.ts\<close>),
  \<open>AccountAuth\<close> (\<^verbatim>\<open>account-auth.ts\<close>, \<^verbatim>\<open>account-authz.ts\<close>, passwords of \<^verbatim>\<open>crypto.ts\<close>), \<open>Account\<close> (\<^verbatim>\<open>account.ts\<close>,
  \<^verbatim>\<open>account-vault.ts\<close>), \<open>Computers\<close> (\<^verbatim>\<open>enroll.ts\<close>, \<^verbatim>\<open>rekey.ts\<close>, \<^verbatim>\<open>device-release.ts\<close>, \<^verbatim>\<open>pair-intent.ts\<close>, \<^verbatim>\<open>admin.ts\<close>,
  \<^verbatim>\<open>events.ts\<close>) and \<open>Worker\<close> (\<^verbatim>\<open>worker.ts\<close>). \<open>Guarantee\<close> shows that whatever the worker is asked, each write is one of the
  statements \<open>issued\<close>; a condition that these keep is a \<open>table_invariant\<close>, and \<open>AccountInvariants\<close> interprets that locale
  for strikes, users, owners, grants, locks, proofs and vaults. \<open>AccountRuns\<close> computes handlers in a settled environment,
  \<open>AccountDemo\<close> is the example, \<open>AccountProperties\<close> has the theorems.

  \<^bold>\<open>The phone's protocol.\<close> \<open>ClientBytes\<close> (\<^verbatim>\<open>bytes.ts\<close>), \<open>ClientWire\<close> (\<^verbatim>\<open>envelope.ts\<close>, \<^verbatim>\<open>mux.ts\<close>, helpers of \<^verbatim>\<open>frame-socket.ts\<close>),
  \<open>ClientSeal\<close> (\<^verbatim>\<open>aead.ts\<close>, \<^verbatim>\<open>kdf.ts\<close>, \<^verbatim>\<open>hello.ts\<close>), \<open>ClientMessages\<close> (\<^verbatim>\<open>session-message.ts\<close>, \<^verbatim>\<open>terminal.ts\<close>),
  \<open>ClientDirect\<close> (\<^verbatim>\<open>direct-frame.ts\<close>, \<^verbatim>\<open>transport-switch.ts\<close>, the retry policies), \<open>ClientSocket\<close> (\<^verbatim>\<open>frame-socket.ts\<close> and
  \<^verbatim>\<open>data-channel.ts\<close>, both interpreting \<open>frame_channel\<close>), \<open>ClientHandshake\<close> (\<^verbatim>\<open>session-handshake.ts\<close>), \<open>ClientTransport\<close>
  (\<^verbatim>\<open>session-transport.ts\<close>, as steps with the invariant \<open>transport_ok\<close>). Pairing is \<open>ClientSpake\<close> (\<^verbatim>\<open>spake.ts\<close>, with the
  computer's half of the exchange beside it), \<open>ClientInput\<close> (what is typed or scanned: \<^verbatim>\<open>identifiers.ts\<close>,
  \<^verbatim>\<open>pairing-password.ts\<close>, \<^verbatim>\<open>pairing-input.ts\<close>) and \<open>ClientPairing\<close> (\<^verbatim>\<open>pair-ws.ts\<close>). \<open>ClientDemo\<close> and \<open>ClientPairDemo\<close> have the
  examples, \<open>ClientProperties\<close> the theorems: no proof leaves the phone before the computer has proved itself, a credential
  comes only from a computer that knew the code, both sides of the exchange agree exactly when their records do, sealed
  messages arrive in order and once whatever the network does, a call is settled at most once, nonces are never reused, a
  sealed frame is delivered exactly when all its checks pass and otherwise ends the epoch, both channels keep order, and a frame
  survives the way from the phone through the relay, whose codec has its own constants.

  \<^bold>\<open>The phone's account.\<close> \<open>ClientVault\<close> (credentials, \<^verbatim>\<open>vault-crypto.ts\<close>, the descriptor and the merge), \<open>ClientStore\<close>
  (the object stores of \<^verbatim>\<open>credentials.ts\<close> and \<^verbatim>\<open>computer-catalog.ts\<close>), \<open>ClientApi\<close> (\<^verbatim>\<open>account-api.ts\<close>, \<^verbatim>\<open>request-timeout.ts\<close>,
  \<^verbatim>\<open>pair-intent.ts\<close>), \<open>ClientAccount\<close> (\<^verbatim>\<open>features/account/account-store.ts\<close> and \<^verbatim>\<open>actions.ts\<close>) and \<open>ClientGuarded\<close>
  (\<^verbatim>\<open>guarded.ts\<close>: a reply typed into a terminal that may have moved on). \<open>ClientRelay\<close> composes phone and relay: the
  phone's requests are answered by the handlers of \<open>Account\<close>. \<open>ClientAccountProperties\<close> shows that what one phone
  publishes another phone of the owner opens through the relay, exactly what a publication sends on which answers, so that
  it never overwrites a vault it has not read, and what a merge keeps.

  \<^bold>\<open>Parameters.\<close> Code outside the repository is an argument. The hashes, key derivation and entropy of the platform are
  fields of \<open>env\<close> and \<open>venv\<close>; entropy has the requested length (\<open>sound_draws\<close>). The phone's primitives are the record
  \<open>suite\<close>; \<open>sound_suite\<close> says that its cipher, with a key of 32 and a nonce of 12 bytes, encrypts everything, adds 16 bytes and
  decrypts what it encrypted. It does not say that nothing else decrypts: a forged payload of the theorem on sealed streams
  is one the cipher refused. \<open>sound_xchacha\<close> is the same for the vault's cipher, \<open>sound_hkdf\<close> fixes the length of derived
  keys, \<open>curve\<close> with \<open>sound_curve\<close> is a group of prime order whose encoding can be read back. Each is assumed only where a
  theorem names it, and the demo theories instantiate it. The network is a function from requests to answers (\<open>fetcher\<close>) or
  a list of arrivals; the URL parser, the asset store and the failures of database and room calls are fields of \<open>venv\<close>, the
  terminal behind a guarded reply of \<open>guarded_env\<close>.

  \<^bold>\<open>Bounds.\<close> Recursion is structural or has a measure. The string readers of \<open>Json\<close> consume input; \<open>split_loop\<close> cuts a
  non-empty piece off each round; \<open>wait_loop\<close> and \<open>pair_loop\<close> consume the arrivals of the channel, and a channel with no
  further arrival runs into its deadline, so handshake and pairing always return. \<open>claim_loop\<close> and \<open>confirm_loop\<close> count the
  attempts the code allows. \<open>newRouteId\<close> draws eight times, the number in the code. Only \<open>mint_from\<close>, which draws until
  enough letters were found, may fail to end in principle: it is a \<^verbatim>\<open>partial_function\<close> whose value is None then.

  \<^bold>\<open>Not modelled.\<close> The screens, forms and texts of the phone (\<^verbatim>\<open>pwa/src/features\<close> apart from the account, \<^verbatim>\<open>app\<close>,
  \<^verbatim>\<open>pages\<close>, \<^verbatim>\<open>shared\<close>, most of \<^verbatim>\<open>lib\<close>) are rendering. Of \<^verbatim>\<open>lib/protocol\<close>, the session manager (\<^verbatim>\<open>session-ws.ts\<close>,
  \<^verbatim>\<open>session-direct.ts\<close>, \<^verbatim>\<open>session-upgrade.ts\<close>, \<^verbatim>\<open>session-connect.ts\<close>, \<^verbatim>\<open>direct-peer.ts\<close>) drives browser objects (peer
  connections, page visibility). The daemon, the plugin, the site and the scripts are not in this language. Error texts for
  the user are left out, their codes are kept. Outside \<open>ClientGuarded\<close>, trimming a text removes the white space of ASCII only.
\<close>

end
